(* ===== verification/Prelude.thy ===== *)
theory Prelude
  imports Main "HOL-Library.Word" "HOL-Library.Char_ord" "HOL-Library.List_Lexorder"
    "HOL-Library.Product_Lexorder" "HOL-Library.Option_ord" "HOL-Library.Multiset"
begin

text \<open>
  Shared vocabulary of the development: the widths of the C++ integers, the character classes of
  \<^verbatim>\<open>cctype\<close> in the C locale, decimal numerals, and the generic facts on words and lists that the
  component theories use.  Signed 64-bit fields that are only stored and compared (\<^verbatim>\<open>rssi\<close>,
  \<^verbatim>\<open>noise\<close>) are \<^typ>\<open>int\<close>; every counter and timestamp is a \<^typ>\<open>64 word\<close>.
\<close>

type_synonym u64 = "64 word"
type_synonym u32 = "32 word"
type_synonym u16 = "16 word"

abbreviation U64_MAX :: u64 where
  "U64_MAX \<equiv> - 1"

named_theorems ctype_simps
named_theorems json_defs
named_theorems registry_simps

subsection \<open>Character classes (C locale)\<close>

definition char_code :: "char \<Rightarrow> nat" where
  [ctype_simps]: "char_code c = of_char c"

definition isdigit :: "char \<Rightarrow> bool" where
  [ctype_simps]: "isdigit c \<longleftrightarrow> 48 \<le> char_code c \<and> char_code c \<le> 57"

definition isupper :: "char \<Rightarrow> bool" where
  [ctype_simps]: "isupper c \<longleftrightarrow> 65 \<le> char_code c \<and> char_code c \<le> 90"

definition islower :: "char \<Rightarrow> bool" where
  [ctype_simps]: "islower c \<longleftrightarrow> 97 \<le> char_code c \<and> char_code c \<le> 122"

definition isalnum :: "char \<Rightarrow> bool" where
  [ctype_simps]: "isalnum c \<longleftrightarrow> isdigit c \<or> isupper c \<or> islower c"

definition isxdigit :: "char \<Rightarrow> bool" where
  [ctype_simps]: "isxdigit c \<longleftrightarrow> isdigit c \<or> (65 \<le> char_code c \<and> char_code c \<le> 70)
     \<or> (97 \<le> char_code c \<and> char_code c \<le> 102)"

definition tolower :: "char \<Rightarrow> char" where
  [ctype_simps]: "tolower c = (if isupper c then char_of (char_code c + 32) else c)"

definition digit_val :: "char \<Rightarrow> nat" where
  [ctype_simps]: "digit_val c = char_code c - 48"

definition xdigit_val :: "char \<Rightarrow> nat" where
  [ctype_simps]: "xdigit_val c = (if isdigit c then char_code c - 48
     else if 97 \<le> char_code c then char_code c - 87 else char_code c - 55)"

definition digit_char :: "nat \<Rightarrow> char" where
  [ctype_simps]: "digit_char d = char_of (48 + d)"

definition xdigit_char :: "nat \<Rightarrow> char" where
  [ctype_simps]: "xdigit_char d = (if d < 10 then char_of (48 + d) else char_of (87 + d))"

lemma char_code_char_of: "n < 256 \<Longrightarrow> char_code (char_of n) = n"
  by (simp add: char_code_def)

lemma char_code_inj: "char_code a = char_code b \<longleftrightarrow> a = b"
  by (simp add: char_code_def)

lemma isdigit_digit_char [simp]: "d < 10 \<Longrightarrow> isdigit (digit_char d)"
  by (simp add: isdigit_def digit_char_def char_code_char_of)

lemma digit_val_digit_char [simp]: "d < 10 \<Longrightarrow> digit_val (digit_char d) = d"
  by (simp add: digit_val_def digit_char_def char_code_char_of)

lemma digit_val_less [simp]: "isdigit c \<Longrightarrow> digit_val c < 10"
  by (auto simp: isdigit_def digit_val_def)

lemma digit_char_digit_val [simp]: "isdigit c \<Longrightarrow> digit_char (digit_val c) = c"
  by (simp add: isdigit_def digit_val_def digit_char_def char_code_def)

lemma isxdigit_xdigit_char [simp]: "d < 16 \<Longrightarrow> isxdigit (xdigit_char d)"
  by (auto simp: isxdigit_def isdigit_def xdigit_char_def char_code_char_of)

lemma xdigit_val_xdigit_char [simp]: "d < 16 \<Longrightarrow> xdigit_val (xdigit_char d) = d"
  by (auto simp: xdigit_val_def isdigit_def xdigit_char_def char_code_char_of)

lemma xdigit_val_less [simp]: "isxdigit c \<Longrightarrow> xdigit_val c < 16"
  by (auto simp: isxdigit_def isdigit_def xdigit_val_def)

lemma isxdigit_tolower [simp]: "isxdigit (tolower c) \<longleftrightarrow> isxdigit c"
  by (auto simp: isxdigit_def isdigit_def tolower_def isupper_def char_code_char_of)

lemma tolower_idem [simp]: "tolower (tolower c) = tolower c"
  by (auto simp: tolower_def isupper_def char_code_char_of)

lemma xdigit_val_tolower [simp]: "isxdigit c \<Longrightarrow> xdigit_val (tolower c) = xdigit_val c"
  by (auto simp: isxdigit_def isdigit_def xdigit_val_def tolower_def isupper_def char_code_char_of)

lemma xdigit_char_xdigit_val: "isxdigit c \<Longrightarrow> xdigit_char (xdigit_val c) = tolower c"
  by (auto simp: isxdigit_def isdigit_def xdigit_val_def tolower_def isupper_def xdigit_char_def
      char_code_def)

lemma isdigit_imp_isxdigit: "isdigit c \<Longrightarrow> isxdigit c"
  by (simp add: isxdigit_def)

subsection \<open>Numerals in a base\<close>

text \<open>Value of a digit string, most significant digit first, and the fixed-width digit string.\<close>

definition num_val :: "nat \<Rightarrow> (char \<Rightarrow> nat) \<Rightarrow> string \<Rightarrow> nat" where
  "num_val b v s = foldl (\<lambda>acc c. acc * b + v c) 0 s"

lemma num_val_Nil [simp]: "num_val b v [] = 0"
  by (simp add: num_val_def)

lemma num_val_snoc [simp]: "num_val b v (s @ [c]) = num_val b v s * b + v c"
  by (simp add: num_val_def)

lemma num_val_append: "num_val b v (s @ t) = num_val b v s * b ^ length t + num_val b v t"
proof (induction t rule: rev_induct)
  case (snoc c t)
  then show ?case
    by (simp add: append_assoc[symmetric] algebra_simps del: append_assoc)
qed simp

lemma num_val_Cons: "num_val b v (c # s) = v c * b ^ length s + num_val b v s"
  using num_val_append[of b v "[c]" s] by (simp add: num_val_def)

lemma num_val_bound:
  assumes "\<forall>c \<in> set s. v c < b" shows "num_val b v s < b ^ length s"
  using assms
proof (induction s)
  case Nil
  then show ?case by simp
next
  case (Cons c s)
  then have IH: "num_val b v s < b ^ length s" and "v c + 1 \<le> b"
    by auto
  from \<open>v c + 1 \<le> b\<close> have "(v c + 1) * b ^ length s \<le> b * b ^ length s"
    by (rule mult_le_mono1)
  with IH show ?case
    by (simp add: num_val_Cons algebra_simps)
qed

fun fixed_digits :: "nat \<Rightarrow> (nat \<Rightarrow> char) \<Rightarrow> nat \<Rightarrow> nat \<Rightarrow> string" where
  "fixed_digits b ch 0 n = []"
| "fixed_digits b ch (Suc k) n = fixed_digits b ch k (n div b) @ [ch (n mod b)]"

lemma length_fixed_digits [simp]: "length (fixed_digits b ch k n) = k"
  by (induction k arbitrary: n) auto

lemma fixed_digits_set:
  "b > 0 \<Longrightarrow> c \<in> set (fixed_digits b ch k n) \<Longrightarrow> \<exists>d < b. c = ch d"
  by (induction k arbitrary: n) (auto intro: mod_less_divisor)

lemma num_val_fixed_digits:
  assumes "b > 1" and "\<And>d. d < b \<Longrightarrow> v (ch d) = d"
  shows "num_val b v (fixed_digits b ch k n) = n mod b ^ k"
  using assms
proof (induction k arbitrary: n)
  case (Suc k)
  then have "num_val b v (fixed_digits b ch k (n div b)) = n div b mod b ^ k"
    by blast
  moreover have "v (ch (n mod b)) = n mod b"
    using Suc.prems by simp
  moreover have "n mod (b * b ^ k) = b * (n div b mod b ^ k) + n mod b"
    by (rule mod_mult2_eq)
  ultimately show ?case
    by (simp add: mult.commute)
qed simp

lemma fixed_digits_num_val:
  assumes "\<And>c. c \<in> set s \<Longrightarrow> v c < b \<and> ch (v c) = c"
  shows "fixed_digits b ch (length s) (num_val b v s) = s"
  using assms
proof (induction s rule: rev_induct)
  case (snoc c s)
  then have "v c < b" "ch (v c) = c" by auto
  then have "(num_val b v s * b + v c) div b = num_val b v s" by simp
  with snoc \<open>v c < b\<close> \<open>ch (v c) = c\<close> show ?case by simp
qed simp

subsection \<open>Words and lists\<close>

lemma unat_U64_MAX: "unat U64_MAX = 2 ^ 64 - 1"
  by (simp add: unsigned_minus_1_eq_mask mask_eq_exp_minus_1)

lemma unat_u64_less: "unat (x :: u64) < 2 ^ 64"
  using unsigned_less[of x] by simp

lemma unat_plus_u64: "unat (a + b :: u64) = (unat a + unat b) mod 2 ^ 64"
  by (simp add: unat_word_ariths)

lemma unat_times_u64: "unat (a * b :: u64) = (unat a * unat b) mod 2 ^ 64"
  by (simp add: unat_word_ariths)

lemma sorted_wrt_map_fst_distinct:
  "sorted_wrt (<) (map fst m) \<Longrightarrow> distinct (map fst (m :: ('k::linorder \<times> 'v) list))"
  by (simp add: strict_sorted_iff)

lemma sorted_distinct_eq_iff:
  assumes "sorted xs" "distinct xs" "sorted ys" "distinct ys"
  shows "xs = ys \<longleftrightarrow> set xs = set (ys :: 'a::linorder list)"
  using assms sorted_distinct_set_unique by blast

end
