(* ===== verification/CppStd.thy ===== *)
theory CppStd
  imports Prelude
begin

text \<open>
  The parts of the C++ standard library the sources use: \<^verbatim>\<open>std::map\<close> as a key-ordered association
  list, \<^verbatim>\<open>std::sort\<close>, \<^verbatim>\<open>std::unique\<close>, \<^verbatim>\<open>std::lower_bound\<close>, the set algorithms on sorted ranges,
  \<^verbatim>\<open>std::stoull\<close>, \<^verbatim>\<open>std::strtol\<close>, \<^verbatim>\<open>std::strtoull\<close> and \<^verbatim>\<open>std::to_string\<close>.  Exceptions are values
  of \<open>cpp_exn\<close>; reading outside what the language defines is the separate outcome \<open>Undefined\<close>,
  which no \<^verbatim>\<open>catch\<close> intercepts.
\<close>

datatype cpp_exn = Invalid_argument | Out_of_range | Type_error | Format_error | Undefined

type_synonym 'a cpp = "cpp_exn + 'a"

definition bind :: "'a cpp \<Rightarrow> ('a \<Rightarrow> 'b cpp) \<Rightarrow> 'b cpp" where
  "bind m f = (case m of Inl e \<Rightarrow> Inl e | Inr x \<Rightarrow> f x)"

lemma bind_simps [simp]: "bind (Inl e) f = Inl e" "bind (Inr x) f = f x"
  by (simp_all add: bind_def)

lemma bind_Inr_iff: "bind m f = Inr y \<longleftrightarrow> (\<exists>x. m = Inr x \<and> f x = Inr y)"
  by (cases m) auto

subsection \<open>std::map\<close>

type_synonym ('k, 'v) omap = "('k \<times> 'v) list"

fun omap_set :: "'k::linorder \<Rightarrow> 'v \<Rightarrow> ('k, 'v) omap \<Rightarrow> ('k, 'v) omap" where
  "omap_set k v [] = [(k, v)]"
| "omap_set k v ((k', v') # m) =
     (if k < k' then (k, v) # (k', v') # m
      else if k = k' then (k, v) # m
      else (k', v') # omap_set k v m)"

definition omap_erase :: "'k \<Rightarrow> ('k, 'v) omap \<Rightarrow> ('k, 'v) omap" where
  "omap_erase k m = filter (\<lambda>p. fst p \<noteq> k) m"

text \<open>\<^verbatim>\<open>m[k]\<close> on a non-const map: a missing key is inserted with the default value first.\<close>

definition omap_get_or :: "'v \<Rightarrow> 'k \<Rightarrow> ('k, 'v) omap \<Rightarrow> 'v" where
  "omap_get_or d k m = (case map_of m k of None \<Rightarrow> d | Some v \<Rightarrow> v)"

definition omap_wf :: "('k::linorder, 'v) omap \<Rightarrow> bool" where
  "omap_wf m \<longleftrightarrow> sorted_wrt (<) (map fst m)"

lemma map_of_omap_set [simp]: "map_of (omap_set k v m) = (map_of m)(k \<mapsto> v)"
  by (induction k v m rule: omap_set.induct) (auto simp: fun_eq_iff)

lemma fst_set_omap_set [simp]: "fst ` set (omap_set k v m) = insert k (fst ` set m)"
  by (induction k v m rule: omap_set.induct) auto

lemma set_omap_set: "set (omap_set k v m) \<subseteq> insert (k, v) (set m)"
  by (induction k v m rule: omap_set.induct) auto

lemma omap_wf_Nil [simp]: "omap_wf []"
  by (simp add: omap_wf_def)

lemma omap_wf_Cons: "omap_wf (p # m) \<longleftrightarrow> (\<forall>k \<in> fst ` set m. fst p < k) \<and> omap_wf m"
  by (auto simp: omap_wf_def)

lemma omap_wf_set [simp]: "omap_wf m \<Longrightarrow> omap_wf (omap_set k v m)"
  by (induction k v m rule: omap_set.induct) (auto simp: omap_wf_Cons)

lemma map_of_omap_erase [simp]: "map_of (omap_erase k m) = (map_of m)(k := None)"
  by (induction m) (auto simp: omap_erase_def fun_eq_iff)

lemma omap_wf_erase [simp]: "omap_wf m \<Longrightarrow> omap_wf (omap_erase k m)"
  by (induction m) (auto simp: omap_erase_def omap_wf_Cons)

lemma omap_wf_distinct: "omap_wf m \<Longrightarrow> distinct (map fst m)"
  by (simp add: omap_wf_def sorted_wrt_map_fst_distinct)

lemma omap_in_set_iff: "omap_wf m \<Longrightarrow> (k, v) \<in> set m \<longleftrightarrow> map_of m k = Some v"
  by (metis map_of_eq_Some_iff omap_wf_distinct)

text \<open>A map is the list of its entries in the order of its keys.\<close>

lemma omap_entries:
  assumes "omap_wf m"
  shows "m = map (\<lambda>k. (k, the (map_of m k))) (sorted_list_of_set (dom (map_of m)))"
proof -
  have "sorted_wrt (<) (map fst m)" using assms by (simp add: omap_wf_def)
  then have keys: "sorted_list_of_set (dom (map_of m)) = map fst m"
    unfolding dom_map_of_conv_image_fst
    by (metis list.set_map sorted_list_of_set.idem_if_sorted_distinct strict_sorted_iff)
  have "(fst p, the (map_of m (fst p))) = p" if "p \<in> set m" for p
    using that omap_in_set_iff[OF assms, of "fst p" "snd p"] by (auto simp: prod_eq_iff)
  then have "map (\<lambda>p. (fst p, the (map_of m (fst p)))) m = m" by (intro map_idI) blast
  then show ?thesis unfolding keys by (simp add: o_def)
qed

lemma omap_get_or_simps [simp]:
  "map_of m k = None \<Longrightarrow> omap_get_or d k m = d"
  "map_of m k = Some v \<Longrightarrow> omap_get_or d k m = v"
  by (simp_all add: omap_get_or_def)

text \<open>The contract of \<^verbatim>\<open>std::map\<close> its users rely on, and the ordered list as its provider.\<close>

locale std_map =
  fixes lookup :: "'m \<Rightarrow> 'k \<Rightarrow> 'v option"
    and store :: "'k \<Rightarrow> 'v \<Rightarrow> 'm \<Rightarrow> 'm"
    and erase :: "'k \<Rightarrow> 'm \<Rightarrow> 'm"
    and wf :: "'m \<Rightarrow> bool"
  assumes lookup_store: "lookup (store k v m) = (lookup m)(k \<mapsto> v)"
    and lookup_erase: "lookup (erase k m) = (lookup m)(k := None)"
    and wf_store: "wf m \<Longrightarrow> wf (store k v m)"
    and wf_erase: "wf m \<Longrightarrow> wf (erase k m)"
begin

lemma lookup_erase_store: "lookup (erase k (store k v m)) = (lookup m)(k := None)"
  by (simp add: lookup_store lookup_erase)

lemma dom_fold_store:
  "dom (lookup (fold (\<lambda>k. store k (f k)) ks m)) = dom (lookup m) \<union> set ks"
  by (induction ks arbitrary: m) (auto simp: lookup_store)

lemma lookup_fold_store:
  "lookup (fold (\<lambda>k. store k (f k)) ks m) k = (if k \<in> set ks then Some (f k) else lookup m k)"
  by (induction ks arbitrary: m) (auto simp: lookup_store)

lemma lookup_fold_erase:
  "lookup (fold erase ks m) k = (if k \<in> set ks then None else lookup m k)"
  by (induction ks arbitrary: m) (auto simp: lookup_erase)

text \<open>\<^verbatim>\<open>m[key]\<close> used to update the value under a key, for each element of a list: groups by key.\<close>

lemma lookup_fold_update:
  "lookup (fold (\<lambda>x m. store (key x) (f x (case lookup m (key x) of None \<Rightarrow> d | Some v \<Rightarrow> v)) m) xs m) k =
     (if \<exists>x \<in> set xs. key x = k
      then Some (fold f (filter (\<lambda>x. key x = k) xs) (case lookup m k of None \<Rightarrow> d | Some v \<Rightarrow> v))
      else lookup m k)"
proof (induction xs arbitrary: m)
  case (Cons x xs)
  show ?case
    by (cases "key x = k") (auto simp: Cons.IH lookup_store split: option.split)
qed simp

lemma wf_fold_update: "wf m \<Longrightarrow> wf (fold (\<lambda>x m. store (key x) (g x m) m) xs m)"
  by (induction xs arbitrary: m) (auto simp: wf_store)

lemma wf_fold_store: "wf m \<Longrightarrow> wf (fold (\<lambda>k. store k (f k)) ks m)"
  by (induction ks arbitrary: m) (auto simp: wf_store)

lemma wf_fold_erase: "wf m \<Longrightarrow> wf (fold erase ks m)"
  by (induction ks arbitrary: m) (auto simp: wf_erase)

end

interpretation omap: std_map "map_of :: ('k::linorder, 'v) omap \<Rightarrow> 'k \<Rightarrow> 'v option"
  omap_set omap_erase omap_wf
  by unfold_locales auto

subsection \<open>Sorting and the algorithms on sorted ranges\<close>

text \<open>
  \<^verbatim>\<open>std::sort\<close> with comparator \<open>lt\<close>.  The standard leaves the order of equivalent elements open;
  the model keeps their order in the input.
\<close>

fun insert_by :: "('a \<Rightarrow> 'a \<Rightarrow> bool) \<Rightarrow> 'a \<Rightarrow> 'a list \<Rightarrow> 'a list" where
  "insert_by lt x [] = [x]"
| "insert_by lt x (y # ys) = (if lt y x then y # insert_by lt x ys else x # y # ys)"

definition std_sort :: "('a \<Rightarrow> 'a \<Rightarrow> bool) \<Rightarrow> 'a list \<Rightarrow> 'a list" where
  "std_sort lt xs = foldr (insert_by lt) xs []"

lemma insert_by_front: "\<forall>y \<in> set ys. \<not> lt y x \<Longrightarrow> insert_by lt x ys = x # ys"
  by (cases ys) auto

lemma std_sort_sorted:
  assumes "sorted_wrt lt xs" "\<And>x y. lt x y \<Longrightarrow> \<not> lt y x"
  shows "std_sort lt xs = xs"
  using assms(1)
proof (induction xs)
  case (Cons x xs)
  then show ?case using assms(2) by (auto simp: std_sort_def intro: insert_by_front)
qed (simp add: std_sort_def)

lemma mset_insert_by [simp]: "mset (insert_by lt x ys) = add_mset x (mset ys)"
  by (induction ys) auto

lemma mset_std_sort [simp]: "mset (std_sort lt xs) = mset xs"
  by (induction xs) (auto simp: std_sort_def)

lemma set_std_sort [simp]: "set (std_sort lt xs) = set xs"
  by (metis mset_std_sort set_mset_mset)

lemma length_std_sort [simp]: "length (std_sort lt xs) = length xs"
  by (metis mset_std_sort size_mset)

lemma set_insert_by [simp]: "set (insert_by lt x ys) = insert x (set ys)"
  by (induction ys) auto

lemma sorted_insert_by:
  assumes asym: "\<And>a b. lt a b \<Longrightarrow> \<not> lt b a"
    and trans: "\<And>a b c. \<not> lt b a \<Longrightarrow> \<not> lt c b \<Longrightarrow> \<not> lt c a"
  shows "sorted_wrt (\<lambda>a b. \<not> lt b a) ys \<Longrightarrow> sorted_wrt (\<lambda>a b. \<not> lt b a) (insert_by lt x ys)"
  by (induction ys) (auto dest: asym trans)

lemma sorted_std_sort:
  assumes "\<And>a b. lt a b \<Longrightarrow> \<not> lt b a" "\<And>a b c. \<not> lt b a \<Longrightarrow> \<not> lt c b \<Longrightarrow> \<not> lt c a"
  shows "sorted_wrt (\<lambda>a b. \<not> lt b a) (std_sort lt xs)"
proof (induction xs)
  case (Cons x xs)
  from sorted_insert_by[OF assms Cons.IH] show ?case
    by (simp add: std_sort_def)
qed (simp add: std_sort_def)

text \<open>\<^verbatim>\<open>std::sort\<close> followed by \<^verbatim>\<open>std::unique\<close> and \<^verbatim>\<open>erase\<close>.\<close>

definition sort_unique :: "'a::linorder list \<Rightarrow> 'a list" where
  "sort_unique xs = remdups_adj (sort xs)"

lemma set_sort_unique [simp]: "set (sort_unique xs) = set xs"
  by (simp add: sort_unique_def)

lemma sorted_sort_unique [simp]: "sorted (sort_unique xs)"
  by (simp add: sort_unique_def sorted_remdups_adj)

lemma distinct_sort_unique [simp]: "distinct (sort_unique xs)"
proof -
  have "sorted ys \<Longrightarrow> distinct (remdups_adj ys)" for ys :: "'a list"
    by (induction ys rule: remdups_adj.induct) (auto simp: antisym)
  then show ?thesis by (simp add: sort_unique_def)
qed

lemma sort_unique_id: "sorted xs \<Longrightarrow> distinct xs \<Longrightarrow> sort_unique xs = xs"
  by (simp add: sort_unique_def sorted_sort_id remdups_adj_distinct)

definition lower_bound :: "'a::linorder list \<Rightarrow> 'a \<Rightarrow> nat" where
  "lower_bound xs v = length (takeWhile (\<lambda>x. x < v) xs)"

definition insert_at :: "nat \<Rightarrow> 'a \<Rightarrow> 'a list \<Rightarrow> 'a list" where
  "insert_at i x xs = take i xs @ x # drop i xs"

lemma insert_at_lower_bound: "sorted xs \<Longrightarrow> insert_at (lower_bound xs v) v xs = insort v xs"
proof (induction xs)
  case (Cons x xs)
  show ?case
  proof (cases "x < v")
    case True
    then have "\<not> v \<le> x" by simp
    with True Cons show ?thesis
      by (simp add: insert_at_def lower_bound_def)
  qed (auto simp: insert_at_def lower_bound_def)
qed (simp add: insert_at_def lower_bound_def)

fun set_symmetric_difference :: "'a::linorder list \<Rightarrow> 'a list \<Rightarrow> 'a list" where
  "set_symmetric_difference [] ys = ys"
| "set_symmetric_difference (x # xs) [] = x # xs"
| "set_symmetric_difference (x # xs) (y # ys) =
     (if x < y then x # set_symmetric_difference xs (y # ys)
      else if y < x then y # set_symmetric_difference (x # xs) ys
      else set_symmetric_difference xs ys)"

fun set_intersection :: "'a::linorder list \<Rightarrow> 'a list \<Rightarrow> 'a list" where
  "set_intersection [] ys = []"
| "set_intersection (x # xs) [] = []"
| "set_intersection (x # xs) (y # ys) =
     (if x < y then set_intersection xs (y # ys)
      else if y < x then set_intersection (x # xs) ys
      else x # set_intersection xs ys)"

lemma set_symmetric_difference_set:
  "sorted_wrt (<) xs \<Longrightarrow> sorted_wrt (<) ys \<Longrightarrow>
   set (set_symmetric_difference xs ys) = (set xs - set ys) \<union> (set ys - set xs)"
proof (induction xs ys rule: set_symmetric_difference.induct)
  case (3 x xs y ys)
  then have x: "\<forall>a \<in> set xs. x < a" and y: "\<forall>a \<in> set ys. y < a" by auto
  consider "x < y" | "y < x" | "x = y" by force
  then show ?case
  proof cases
    case 1
    with y have "x \<notin> set (y # ys)" by auto
    with 1 "3.IH"(1) "3.prems" show ?thesis by auto
  next
    case 2
    with x have "y \<notin> set (x # xs)" by auto
    with 2 "3.IH"(2) "3.prems" show ?thesis by auto
  next
    case 3
    with x y have "x \<notin> set xs" "x \<notin> set ys" by auto
    with 3 "3.IH"(3) "3.prems" show ?thesis by auto
  qed
qed auto

lemma set_symmetric_difference_sorted:
  "sorted_wrt (<) xs \<Longrightarrow> sorted_wrt (<) ys \<Longrightarrow>
   sorted_wrt (<) (set_symmetric_difference xs ys)"
proof (induction xs ys rule: set_symmetric_difference.induct)
  case (3 x xs y ys)
  then have "\<forall>a \<in> set xs. x < a" "\<forall>a \<in> set ys. y < a" by auto
  with 3 show ?case
    by (cases x y rule: linorder_cases)
      (auto simp: set_symmetric_difference_set simp del: set_symmetric_difference.simps(1,2))
qed auto

lemma set_intersection_set:
  "sorted_wrt (<) xs \<Longrightarrow> sorted_wrt (<) ys \<Longrightarrow>
   set (set_intersection xs ys) = set xs \<inter> set ys"
  by (induction xs ys rule: set_intersection.induct) (simp_all, fastforce)

lemma set_intersection_sorted:
  "sorted_wrt (<) xs \<Longrightarrow> sorted_wrt (<) ys \<Longrightarrow> sorted_wrt (<) (set_intersection xs ys)"
  by (induction xs ys rule: set_intersection.induct) (auto simp: set_intersection_set)

subsection \<open>Numbers in strings\<close>

definition isspace :: "char \<Rightarrow> bool" where
  [ctype_simps]: "isspace c \<longleftrightarrow> char_code c = 32 \<or> (9 \<le> char_code c \<and> char_code c \<le> 13)"

definition strip_sign :: "string \<Rightarrow> bool \<times> string" where
  "strip_sign s = (case s of [] \<Rightarrow> (False, [])
     | c # cs \<Rightarrow> if c = CHR ''-'' then (True, cs) else if c = CHR ''+'' then (False, cs) else (False, s))"

definition strip_0x :: "string \<Rightarrow> string" where
  "strip_0x s = (case s of
      a # b # c # cs \<Rightarrow> if a = CHR ''0'' \<and> (b = CHR ''x'' \<or> b = CHR ''X'') \<and> isxdigit c
                        then c # cs else s
    | _ \<Rightarrow> s)"

text \<open>\<^verbatim>\<open>std::stoull(s, nullptr, 16)\<close>.\<close>

definition stoull16 :: "string \<Rightarrow> u64 cpp" where
  "stoull16 s =
     (let (neg, t) = strip_sign (dropWhile isspace s);
          digs = takeWhile isxdigit (strip_0x t);
          n = num_val 16 xdigit_val digs
      in if digs = [] then Inl Invalid_argument
         else if 2 ^ 64 \<le> n then Inl Out_of_range
         else Inr (if neg then - of_nat n else of_nat n))"

text \<open>\<^verbatim>\<open>std::strtoull(s, nullptr, 10)\<close> and \<^verbatim>\<open>std::strtol(s, nullptr, 10)\<close> (64-bit long).\<close>

definition strtoull10 :: "string \<Rightarrow> u64" where
  "strtoull10 s =
     (let (neg, t) = strip_sign (dropWhile isspace s);
          n = num_val 10 digit_val (takeWhile isdigit t)
      in if 2 ^ 64 \<le> n then U64_MAX else if neg then - of_nat n else of_nat n)"

definition strtol10 :: "string \<Rightarrow> int" where
  "strtol10 s =
     (let (neg, t) = strip_sign (dropWhile isspace s);
          n = int (num_val 10 digit_val (takeWhile isdigit t))
      in if neg then max (- (2 ^ 63)) (- n) else min (2 ^ 63 - 1) n)"

fun dec_string :: "nat \<Rightarrow> string" where
  "dec_string n = (if n < 10 then [digit_char n] else dec_string (n div 10) @ [digit_char (n mod 10)])"

declare dec_string.simps [simp del]

lemma dec_string_digits: "c \<in> set (dec_string n) \<Longrightarrow> isdigit c"
proof (induction n rule: dec_string.induct)
  case (1 n)
  then show ?case
    by (cases "n < 10") (auto simp: dec_string.simps[of n])
qed

lemma dec_string_nonempty [simp]: "dec_string n \<noteq> []"
  by (subst dec_string.simps) simp

lemma num_val_dec_string [simp]: "num_val 10 digit_val (dec_string n) = n"
proof (induction n rule: dec_string.induct)
  case (1 n)
  then show ?case
    by (cases "n < 10") (auto simp: dec_string.simps[of n] num_val_def)
qed

lemma dec_string_inj: "dec_string m = dec_string n \<longleftrightarrow> m = n"
  by (metis num_val_dec_string)

lemma xdigit_not_sign: "isxdigit c \<Longrightarrow> c \<noteq> CHR ''-'' \<and> c \<noteq> CHR ''+'' \<and> \<not> isspace c"
  by (auto simp: isxdigit_def isdigit_def isspace_def char_code_def)

lemma xdigit_not_x: "isxdigit c \<Longrightarrow> c \<noteq> CHR ''x'' \<and> c \<noteq> CHR ''X''"
  by (auto simp: isxdigit_def isdigit_def char_code_def)

lemma strip_0x_xdigits: "\<forall>c \<in> set s. isxdigit c \<Longrightarrow> strip_0x s = s"
proof (cases "length s < 3")
  case True
  then show ?thesis
    by (cases s; cases "tl s") (auto simp: strip_0x_def neq_Nil_conv split: list.split)
next
  case False
  moreover assume "\<forall>c \<in> set s. isxdigit c"
  moreover from False obtain a b c t where "s = a # b # c # t"
    by (cases s; cases "tl s"; cases "tl (tl s)") auto
  ultimately show ?thesis
    by (auto simp: strip_0x_def dest: xdigit_not_x)
qed

lemma strip_sign_xdigits: "\<forall>c \<in> set s. isxdigit c \<Longrightarrow> strip_sign (dropWhile isspace s) = (False, s)"
  by (cases s) (auto simp: strip_sign_def dest: xdigit_not_sign)

lemma stoull16_xdigits:
  assumes "\<forall>c \<in> set s. isxdigit c" "s \<noteq> []" "length s \<le> 16"
  shows "stoull16 s = Inr (of_nat (num_val 16 xdigit_val s))"
proof -
  have tw: "takeWhile isxdigit s = s"
    using assms(1) by (simp add: takeWhile_eq_all_conv)
  have "num_val 16 xdigit_val s < 16 ^ length s"
    using assms(1) by (intro num_val_bound) auto
  also have "(16::nat) ^ length s \<le> 16 ^ 16"
    using assms(3) by (intro power_increasing) auto
  finally have "num_val 16 xdigit_val s < 2 ^ 64" by simp
  then show ?thesis
    using assms(1,2) unfolding stoull16_def
    by (simp add: strip_sign_xdigits strip_0x_xdigits tw Let_def)
qed

end
