(* ===== verification/Fp.thy ===== *)
theory Fp
  imports Complex_Main "HOL-Library.Log_Nat"
begin

text \<open>
  Floating-point numbers as the program computes with them: a value is a rational number or one of
  the three special values, and every operation rounds its exact result to nearest, ties to even, in
  a binary format.  \<open>binary64\<close> is \<^verbatim>\<open>double\<close> and \<open>binary80\<close> the 64-bit-significand \<^verbatim>\<open>long double\<close> of
  x86-64.  The two zeros are identified.

  The locale \<open>rounding\<close> is what the numeric properties rely on: rounding is monotone, odd, exact on the
  numbers of the format and has a bounded relative error.  It is interpreted on both formats.
\<close>

datatype fp = Fin rat | PInf | NInf | NaN

record fmt =
  prec :: nat
  min_exp :: int
  max_exp :: int

definition binary64 :: fmt where
  "binary64 = \<lparr>prec = 53, min_exp = -1074, max_exp = 1024\<rparr>"

definition binary80 :: fmt where
  "binary80 = \<lparr>prec = 64, min_exp = -16445, max_exp = 16384\<rparr>"

definition round_even :: "rat \<Rightarrow> int" where
  "round_even x =
     (let k = floor x; r = x - of_int k
      in if r < 1 / 2 then k else if r > 1 / 2 then k + 1 else if even k then k else k + 1)"

definition exponent :: "rat \<Rightarrow> int" where
  "exponent x =
     (let (n, d) = quotient_of \<bar>x\<bar>; e = bitlen n - bitlen d
      in if 2 powi e \<le> \<bar>x\<bar> then e else e - 1)"

definition ulp_exp :: "nat \<Rightarrow> int \<Rightarrow> rat \<Rightarrow> int" where
  "ulp_exp p m x = max (exponent x - int p + 1) m"

definition rnd :: "nat \<Rightarrow> int \<Rightarrow> rat \<Rightarrow> rat" where
  "rnd p m x =
     (if x = 0 then 0
      else let q = ulp_exp p m x in of_int (round_even (x * 2 powi (- q))) * 2 powi q)"

definition fp_rnd :: "fmt \<Rightarrow> rat \<Rightarrow> rat" where
  "fp_rnd f x = rnd (prec f) (min_exp f) x"

definition fp_round :: "fmt \<Rightarrow> rat \<Rightarrow> fp" where
  "fp_round f x =
     (let y = fp_rnd f x
      in if y \<ge> 2 powi max_exp f then PInf
         else if y \<le> - (2 powi max_exp f) then NInf else Fin y)"

fun fp_neg :: "fp \<Rightarrow> fp" where
  "fp_neg (Fin x) = Fin (- x)"
| "fp_neg PInf = NInf"
| "fp_neg NInf = PInf"
| "fp_neg NaN = NaN"

fun fp_add :: "fmt \<Rightarrow> fp \<Rightarrow> fp \<Rightarrow> fp" where
  "fp_add f (Fin x) (Fin y) = fp_round f (x + y)"
| "fp_add f NaN _ = NaN"
| "fp_add f _ NaN = NaN"
| "fp_add f PInf NInf = NaN"
| "fp_add f NInf PInf = NaN"
| "fp_add f PInf _ = PInf"
| "fp_add f _ PInf = PInf"
| "fp_add f NInf _ = NInf"
| "fp_add f _ NInf = NInf"

fun fp_sgn :: "fp \<Rightarrow> rat" where
  "fp_sgn (Fin x) = sgn x"
| "fp_sgn PInf = 1"
| "fp_sgn NInf = -1"
| "fp_sgn NaN = 0"

definition fp_inf_of :: "rat \<Rightarrow> fp" where
  "fp_inf_of s = (if s > 0 then PInf else if s < 0 then NInf else NaN)"

fun fp_mul :: "fmt \<Rightarrow> fp \<Rightarrow> fp \<Rightarrow> fp" where
  "fp_mul f (Fin x) (Fin y) = fp_round f (x * y)"
| "fp_mul f NaN _ = NaN"
| "fp_mul f _ NaN = NaN"
| "fp_mul f a b = fp_inf_of (fp_sgn a * fp_sgn b)"

fun fp_div :: "fmt \<Rightarrow> fp \<Rightarrow> fp \<Rightarrow> fp" where
  "fp_div f (Fin x) (Fin y) = (if y = 0 then fp_inf_of (sgn x) else fp_round f (x / y))"
| "fp_div f NaN _ = NaN"
| "fp_div f _ NaN = NaN"
| "fp_div f (Fin x) _ = Fin 0"
| "fp_div f a (Fin y) = fp_inf_of (fp_sgn a * (if y < 0 then -1 else 1))"
| "fp_div f _ _ = NaN"

fun fp_less :: "fp \<Rightarrow> fp \<Rightarrow> bool" where
  "fp_less (Fin x) (Fin y) \<longleftrightarrow> x < y"
| "fp_less NaN _ \<longleftrightarrow> False"
| "fp_less _ NaN \<longleftrightarrow> False"
| "fp_less a PInf \<longleftrightarrow> a \<noteq> PInf"
| "fp_less NInf b \<longleftrightarrow> b \<noteq> NInf"
| "fp_less PInf _ \<longleftrightarrow> False"
| "fp_less _ NInf \<longleftrightarrow> False"

definition fp_isfinite :: "fp \<Rightarrow> bool" where
  "fp_isfinite v \<longleftrightarrow> (case v of Fin _ \<Rightarrow> True | _ \<Rightarrow> False)"

fun fp_convert :: "fmt \<Rightarrow> fp \<Rightarrow> fp" where
  "fp_convert f (Fin x) = fp_round f x"
| "fp_convert f v = v"

fun fp_floor :: "fp \<Rightarrow> fp" where
  "fp_floor (Fin x) = Fin (of_int (floor x))"
| "fp_floor v = v"

text \<open>\<^verbatim>\<open>std::round\<close>: halves away from zero.\<close>

definition round_away :: "rat \<Rightarrow> int" where
  "round_away x = (if x \<ge> 0 then floor (x + 1 / 2) else - floor (1 / 2 - x))"

fun fp_round_away :: "fp \<Rightarrow> fp" where
  "fp_round_away (Fin x) = Fin (of_int (round_away x))"
| "fp_round_away v = v"

definition fp_of_nat :: "fmt \<Rightarrow> nat \<Rightarrow> fp" where
  "fp_of_nat f n = fp_round f (of_nat n)"

subsection \<open>Rounding to an integer and the binary exponent\<close>

lemma round_even_of_int [simp]: "round_even (of_int k) = k"
  by (simp add: round_even_def)

lemma round_even_bounds: "2 * \<bar>of_int (round_even x) - x\<bar> \<le> 1"
proof -
  define k where "k = floor x"
  have "of_int k \<le> x" "x < of_int k + 1"
    unfolding k_def using floor_correct[of x] by auto
  then show ?thesis
    by (auto simp: round_even_def Let_def k_def[symmetric] abs_if)
qed

lemma round_even_mono:
  assumes "x \<le> y"
  shows "round_even x \<le> round_even y"
proof (cases "floor x = floor y")
  case True
  with assms show ?thesis by (auto simp: round_even_def Let_def)
next
  case False
  with assms have "floor x + 1 \<le> floor y"
    using floor_mono[OF assms] by simp
  moreover have "round_even x \<le> floor x + 1" "floor y \<le> round_even y"
    by (auto simp: round_even_def Let_def)
  ultimately show ?thesis by linarith
qed

lemma round_even_neg: "round_even (- x) = - round_even x"
proof (cases "x = of_int (floor x)")
  case True
  then show ?thesis by (metis of_int_minus round_even_of_int)
next
  case False
  define k where "k = floor x"
  have "of_int k < x" "x < of_int k + 1"
    using False floor_correct[of x] by (auto simp: k_def less_le)
  then have "floor (- x) = - k - 1"
    by (intro floor_unique) auto
  then show ?thesis
    by (auto simp: round_even_def Let_def k_def[symmetric])
qed

lemma powi_mono_2: "a \<le> b \<Longrightarrow> (2 :: rat) powi a \<le> 2 powi b"
  by (simp add: power_int_increasing)

lemma powi_less_2: "(2 :: rat) powi a < 2 powi b \<longleftrightarrow> a < b"
  by (meson linorder_not_le one_less_numeral_iff powi_mono_2 power_int_strict_increasing semiring_norm(76))

lemma exponent_bounds:
  assumes "x \<noteq> 0"
  shows "2 powi exponent x \<le> \<bar>x\<bar>" "\<bar>x\<bar> < 2 powi (exponent x + 1)"
proof -
  obtain n d where nd: "quotient_of \<bar>x\<bar> = (n, d)" by (cases "quotient_of \<bar>x\<bar>")
  then have d: "d > 0" and x: "\<bar>x\<bar> = of_int n / of_int d"
    by (auto intro: quotient_of_denom_pos quotient_of_div)
  have n: "n > 0"
  proof (rule ccontr)
    assume "\<not> n > 0"
    then have "rat_of_int n / rat_of_int d \<le> 0"
      using d by (simp add: divide_nonpos_pos)
    with assms show False using x by simp
  qed
  define a b where "a = bitlen n" and "b = bitlen d"
  have pos: "a \<ge> 1" "b \<ge> 1"
    using n d bitlen_bounds[OF n] bitlen_bounds[OF d] by (auto simp: a_def b_def bitlen_def floorlog_def)
  have pow_bounds: "2 powi (bitlen k - 1) \<le> rat_of_int k \<and> rat_of_int k < 2 powi bitlen k"
    if "k > 0" "bitlen k \<ge> 1" for k :: int
  proof -
    have "rat_of_int (2 ^ nat (bitlen k - 1)) \<le> rat_of_int k" "rat_of_int k < rat_of_int (2 ^ nat (bitlen k))"
      using bitlen_bounds[OF that(1)] by (simp_all only: of_int_le_iff of_int_less_iff)
    with that(2) show ?thesis by (simp add: power_int_def)
  qed
  have nb: "2 powi (a - 1) \<le> rat_of_int n" "rat_of_int n < 2 powi a"
    and db: "2 powi (b - 1) \<le> rat_of_int d" "rat_of_int d < 2 powi b"
    using pow_bounds[OF n] pow_bounds[OF d] pos by (auto simp: a_def b_def)
  have hi: "\<bar>x\<bar> < 2 powi (a - b + 1)"
  proof -
    have "2 powi (a - b + 1) * 2 powi (b - 1) = (2 :: rat) powi a"
      by (simp flip: power_int_add)
    with nb(2) have "rat_of_int n < 2 powi (a - b + 1) * 2 powi (b - 1)" by simp
    also have "\<dots> \<le> 2 powi (a - b + 1) * rat_of_int d"
      using db(1) by (intro mult_left_mono) simp_all
    finally show ?thesis using d by (simp add: x divide_less_eq)
  qed
  have lo: "2 powi (a - b - 1) \<le> \<bar>x\<bar>"
  proof -
    have "2 powi (a - b - 1) * rat_of_int d \<le> 2 powi (a - b - 1) * 2 powi b"
      using db(2) by (intro mult_left_mono) simp_all
    also have "\<dots> = 2 powi (a - 1)"
      by (simp flip: power_int_add)
    also have "\<dots> \<le> rat_of_int n" by (rule nb(1))
    finally show ?thesis using d by (simp add: x le_divide_eq)
  qed
  show "2 powi exponent x \<le> \<bar>x\<bar>" "\<bar>x\<bar> < 2 powi (exponent x + 1)"
    using hi lo by (auto simp: exponent_def Let_def nd a_def b_def)
qed

lemma exponent_unique:
  assumes "x \<noteq> 0" "2 powi e \<le> \<bar>x\<bar>" "\<bar>x\<bar> < 2 powi (e + 1)"
  shows "exponent x = e"
proof -
  have "(2 :: rat) powi e < 2 powi (exponent x + 1)" "(2 :: rat) powi exponent x < 2 powi (e + 1)"
    using exponent_bounds[OF assms(1)] assms(2,3) by linarith+
  then show ?thesis by (simp add: powi_less_2)
qed

lemma exponent_mono:
  assumes "x \<noteq> 0" "\<bar>x\<bar> \<le> \<bar>y\<bar>"
  shows "exponent x \<le> exponent y"
proof -
  have "y \<noteq> 0" using assms by auto
  have "2 powi exponent x < (2 :: rat) powi (exponent y + 1)"
    using exponent_bounds(1)[OF assms(1)] exponent_bounds(2)[OF \<open>y \<noteq> 0\<close>] assms(2) by linarith
  then show ?thesis by (simp add: powi_less_2)
qed

lemma exponent_neg [simp]: "exponent (- x) = exponent x"
  by (simp add: exponent_def)

subsection \<open>Rounding\<close>

lemma ulp_exp_neg [simp]: "ulp_exp p m (- x) = ulp_exp p m x"
  by (simp add: ulp_exp_def)

lemma rnd_neg: "rnd p m (- x) = - rnd p m x"
  by (simp add: rnd_def Let_def round_even_neg)

lemma powi_cancel: "x * 2 powi (- q) * 2 powi q = (x :: rat)" "x * 2 powi q * 2 powi (- q) = (x :: rat)"
  by (simp_all add: power_int_minus)

lemma powi_grid: "w \<le> e \<Longrightarrow> (2 :: rat) powi e = of_int (2 ^ nat (e - w)) * 2 powi w"
  using power_int_add[of "2 :: rat" "e - w" w] by (simp add: power_int_def[of 2 "e - w"])

lemma rnd_on_grid:
  assumes "x = of_int k * 2 powi ulp_exp p m x"
  shows "rnd p m x = x"
proof (cases "x = 0")
  case False
  define q where "q = ulp_exp p m x"
  have "x * 2 powi (- q) = of_int k"
    by (subst assms) (simp add: powi_cancel flip: q_def)
  with False assms show ?thesis by (simp add: rnd_def q_def Let_def)
qed (simp add: rnd_def)

lemma rnd_exact:
  assumes "x = of_int k * 2 powi q" "\<bar>k\<bar> \<le> 2 ^ p" "m \<le> q" "1 \<le> p"
  shows "rnd p m x = x"
proof (cases "x = 0")
  case False
  define u where "u = ulp_exp p m x"
  show ?thesis
  proof (cases "u \<le> q")
    case True
    have "x = of_int (k * 2 ^ nat (q - u)) * 2 powi u"
      using powi_grid[OF True] by (simp add: assms(1))
    then show ?thesis unfolding u_def by (rule rnd_on_grid)
  next
    case False
    then have u: "u = exponent x - int p + 1"
      using assms(3) by (auto simp: u_def ulp_exp_def)
    have abs_x: "\<bar>x\<bar> = rat_of_int \<bar>k\<bar> * 2 powi q"
      by (simp add: assms(1) abs_mult)
    also have "\<dots> \<le> 2 ^ p * 2 powi q"
    proof (intro mult_right_mono)
      have "rat_of_int \<bar>k\<bar> \<le> rat_of_int (2 ^ p)"
        using assms(2) by (simp only: of_int_le_iff)
      then show "rat_of_int \<bar>k\<bar> \<le> 2 ^ p" by simp
    qed simp
    also have "\<dots> = 2 powi (int p + q)"
      by (simp add: power_int_add)
    finally have "2 powi exponent x \<le> (2 :: rat) powi (int p + q)"
      using exponent_bounds(1)[OF \<open>x \<noteq> 0\<close>] by linarith
    then have "exponent x \<le> int p + q"
      by (meson leI le_less_trans not_less powi_less_2)
    with False u have e: "exponent x = int p + q" by simp
    have "2 ^ p * 2 powi q \<le> rat_of_int \<bar>k\<bar> * 2 powi q"
      using exponent_bounds(1)[OF \<open>x \<noteq> 0\<close>] abs_x e by (simp add: power_int_add)
    then have "rat_of_int (2 ^ p) \<le> rat_of_int \<bar>k\<bar>" by simp
    then have "2 ^ p \<le> \<bar>k\<bar>" by (simp only: of_int_le_iff)
    with assms(2) have k: "\<bar>k\<bar> = 2 ^ p" by simp
    obtain p' where p': "p = Suc p'" using assms(4) by (cases p) auto
    have uq: "u = q + 1" using u e by simp
    have "k = sgn k * 2 ^ p'  * 2"
      using k p' by (simp add: sgn_if abs_if split: if_splits)
    then have "rat_of_int k = of_int (sgn k * 2 ^ p') * 2"
      by (metis of_int_mult of_int_numeral)
    then have "x = of_int (sgn k * 2 ^ p') * 2 powi u"
      by (simp add: assms(1) uq power_int_add)
    then show ?thesis unfolding u_def by (rule rnd_on_grid)
  qed
qed (simp add: rnd_def)

lemma rnd_error:
  assumes "x \<noteq> 0"
  shows "2 * \<bar>rnd p m x - x\<bar> \<le> 2 powi ulp_exp p m x"
proof -
  define q where "q = ulp_exp p m x"
  define y where "y = x * 2 powi (- q)"
  have x: "x = y * 2 powi q" by (simp add: y_def powi_cancel)
  have "rnd p m x - x = (of_int (round_even y) - y) * 2 powi q"
    using assms by (simp add: rnd_def Let_def left_diff_distrib flip: q_def y_def x)
  then have "2 * \<bar>rnd p m x - x\<bar> = 2 * \<bar>of_int (round_even y) - y\<bar> * 2 powi q"
    by (simp add: abs_mult)
  also have "\<dots> \<le> 1 * 2 powi q"
    by (intro mult_right_mono round_even_bounds) simp
  finally show ?thesis by (simp add: q_def)
qed

lemma rnd_rel_error:
  assumes "2 powi (m + int p) \<le> \<bar>x\<bar>" "1 \<le> p"
  shows "\<bar>rnd p m x - x\<bar> \<le> \<bar>x\<bar> / 2 ^ p"
proof -
  have "(0 :: rat) < 2 powi (m + int p)" by simp
  with assms(1) have "x \<noteq> 0" by (metis abs_0 linorder_not_le)
  have "2 powi (m + int p) < (2 :: rat) powi (exponent x + 1)"
    using exponent_bounds(2)[OF \<open>x \<noteq> 0\<close>] assms(1) by linarith
  then have "m \<le> exponent x - int p + 1" by (simp add: powi_less_2)
  then have u: "ulp_exp p m x = exponent x - int p + 1" by (simp add: ulp_exp_def)
  have "(2 :: rat) powi (exponent x - int p + 1) = 2 * (2 powi exponent x / 2 ^ p)"
    by (simp add: power_int_add power_int_diff)
  then have "2 * \<bar>rnd p m x - x\<bar> \<le> 2 * (2 powi exponent x / 2 ^ p)"
    using rnd_error[OF \<open>x \<noteq> 0\<close>, of p m] u by simp
  then have "\<bar>rnd p m x - x\<bar> \<le> 2 powi exponent x / 2 ^ p"
    by (simp only: mult_le_cancel_left_pos zero_less_numeral)
  also have "\<dots> \<le> \<bar>x\<bar> / 2 ^ p"
    using exponent_bounds(1)[OF \<open>x \<noteq> 0\<close>] by (intro divide_right_mono) simp_all
  finally show ?thesis .
qed

lemma rnd_nonneg: "0 \<le> x \<Longrightarrow> 0 \<le> rnd p m x"
  using round_even_mono[of 0 "x * 2 powi (- ulp_exp p m x)"] round_even_of_int[of 0]
  by (auto simp: rnd_def Let_def)

lemma rnd_le_grid:
  assumes "0 < x" "x \<le> of_int k * 2 powi ulp_exp p m x"
  shows "rnd p m x \<le> of_int k * 2 powi ulp_exp p m x"
proof -
  define q where "q = ulp_exp p m x"
  have "x * 2 powi (- q) \<le> of_int k * 2 powi q * 2 powi (- q)"
    using assms(2) by (intro mult_right_mono) (simp_all add: q_def)
  then have "round_even (x * 2 powi (- q)) \<le> k"
    unfolding powi_cancel using round_even_mono[of "x * 2 powi (- q)" "of_int k"] by simp
  then show ?thesis
    using assms(1) by (simp add: rnd_def Let_def q_def[symmetric])
qed

lemma rnd_ge_grid:
  assumes "0 < x" "of_int k * 2 powi ulp_exp p m x \<le> x"
  shows "of_int k * 2 powi ulp_exp p m x \<le> rnd p m x"
proof -
  define q where "q = ulp_exp p m x"
  have "of_int k * 2 powi q * 2 powi (- q) \<le> x * 2 powi (- q)"
    using assms(2) by (intro mult_right_mono) (simp_all add: q_def)
  then have "k \<le> round_even (x * 2 powi (- q))"
    unfolding powi_cancel using round_even_mono[of "of_int k" "x * 2 powi (- q)"] by simp
  then show ?thesis
    using assms(1) by (simp add: rnd_def Let_def q_def[symmetric])
qed

text \<open>A number of one format is a number of every finer format.\<close>

lemma rnd_fixed_finer:
  assumes "rnd p m x = x" "1 \<le> p" "p \<le> p'" "m' \<le> m"
  shows "rnd p' m' x = x"
proof (cases "x = 0")
  case False
  define q where "q = ulp_exp p m x"
  define k where "k = round_even (x * 2 powi (- q))"
  have x: "x = of_int k * 2 powi q"
    using assms(1) False by (simp add: rnd_def Let_def q_def k_def)
  have e: "exponent x + 1 - q \<le> int p" "m \<le> q"
    by (auto simp: q_def ulp_exp_def)
  have "rat_of_int \<bar>k\<bar> = \<bar>x\<bar> * 2 powi (- q)"
    by (subst x) (simp add: abs_mult powi_cancel)
  also have "\<dots> \<le> 2 powi (exponent x + 1) * 2 powi (- q)"
    using exponent_bounds(2)[OF False] by (intro mult_right_mono) simp_all
  also have "\<dots> = 2 powi (exponent x + 1 - q)"
    by (simp flip: power_int_add)
  also have "\<dots> \<le> 2 powi int p"
    using e(1) by (rule powi_mono_2)
  finally have "rat_of_int \<bar>k\<bar> \<le> rat_of_int (2 ^ p)" by simp
  then have "\<bar>k\<bar> \<le> 2 ^ p" by (simp only: of_int_le_iff)
  also have "(2 :: int) ^ p \<le> 2 ^ p'" using assms(3) by (intro power_increasing) auto
  finally show ?thesis
    using assms e(2) by (intro rnd_exact[OF x]) auto
qed (simp add: rnd_def)

lemma rnd_mono_pos:
  assumes "0 < x" "x \<le> y" "1 \<le> p"
  shows "rnd p m x \<le> rnd p m y"
proof -
  have y: "0 < y" and e: "exponent x \<le> exponent y"
    using assms exponent_mono[of x y] by auto
  define u v where "u = ulp_exp p m x" and "v = ulp_exp p m y"
  have "u \<le> v" using e by (auto simp: u_def v_def ulp_exp_def)
  show ?thesis
  proof (cases "u = v")
    case True
    have "round_even (x * 2 powi (- v)) \<le> round_even (y * 2 powi (- v))"
      by (intro round_even_mono mult_right_mono assms) simp
    with True assms(1) y show ?thesis
      by (simp add: rnd_def Let_def u_def[symmetric] v_def[symmetric])
  next
    case False
    with \<open>u \<le> v\<close> have v: "v = exponent y - int p + 1" and lt: "exponent x < exponent y"
      by (auto simp: u_def v_def ulp_exp_def)
    have "x \<le> 2 powi exponent y"
      using exponent_bounds(2)[of x] powi_mono_2[of "exponent x + 1" "exponent y"] lt assms(1) by simp
    moreover have "u \<le> exponent y" "v \<le> exponent y"
      using v \<open>u \<le> v\<close> assms(3) by auto
    ultimately have "rnd p m x \<le> 2 powi exponent y"
      using rnd_le_grid[OF assms(1), of "2 ^ nat (exponent y - u)" p m] powi_grid[of u "exponent y"] by (simp add: u_def)
    also have "\<dots> \<le> rnd p m y"
      using rnd_ge_grid[OF y, of "2 ^ nat (exponent y - v)" p m] powi_grid[of v "exponent y"] \<open>v \<le> exponent y\<close>
        exponent_bounds(1)[of y] y by (simp add: v_def)
    finally show ?thesis .
  qed
qed

lemma rnd_mono:
  assumes "x \<le> y" "1 \<le> p"
  shows "rnd p m x \<le> rnd p m y"
proof -
  consider "0 < x" | "x \<le> 0" "0 \<le> y" | "y < 0" by linarith
  then show ?thesis
  proof cases
    case 1
    then show ?thesis using assms rnd_mono_pos by blast
  next
    case 2
    then show ?thesis
      using rnd_nonneg[of "- x" p m] rnd_nonneg[of y p m] by (simp add: rnd_neg)
  next
    case 3
    then show ?thesis
      using assms rnd_mono_pos[of "- y" "- x" p m] by (simp add: rnd_neg)
  qed
qed

subsection \<open>What the program relies on\<close>

locale rounding =
  fixes fl :: "rat \<Rightarrow> rat" and p :: nat and m :: int
  assumes prec_range: "4 \<le> p" "m + int p \<le> - int p - 2"
    and fl_mono: "x \<le> y \<Longrightarrow> fl x \<le> fl y"
    and fl_neg: "fl (- x) = - fl x"
    and fl_exact: "\<bar>k\<bar> \<le> 2 ^ p \<Longrightarrow> m \<le> q \<Longrightarrow> fl (of_int k * 2 powi q) = of_int k * 2 powi q"
    and fl_error: "2 powi (m + int p) \<le> \<bar>x\<bar> \<Longrightarrow> \<bar>fl x - x\<bar> \<le> \<bar>x\<bar> / 2 ^ p"
begin

lemma fl_int: "\<bar>k\<bar> \<le> 2 ^ p \<Longrightarrow> fl (of_int k) = of_int k"
  using fl_exact[of k 0] prec_range by simp

lemma fl_0 [simp]: "fl 0 = 0"
  using fl_int[of 0] by simp

lemma fl_nat: "n \<le> 2 ^ p \<Longrightarrow> fl (of_nat n) = of_nat n"
  using fl_int[of "int n"] of_nat_le_numeral_power_cancel_iff[of n "num.Bit0 num.One" p, where 'a = int] by simp

lemma fl_bounds:
  assumes "fl a = a" "fl b = b" "a \<le> x" "x \<le> b"
  shows "a \<le> fl x" "fl x \<le> b"
  using fl_mono[OF assms(3)] fl_mono[OF assms(4)] unfolding assms(1,2) .

lemma fl_error_any:
  assumes "x = 0 \<or> 1 / 2 ^ (p + 2) \<le> \<bar>x\<bar>"
  shows "\<bar>fl x - x\<bar> \<le> \<bar>x\<bar> / 2 ^ p"
proof (cases "x = 0")
  case False
  have "2 powi (m + int p) \<le> (2 :: rat) powi (- int (p + 2))"
    using prec_range by (intro powi_mono_2) simp
  also have "(2 :: rat) powi (- int (p + 2)) = 1 / 2 ^ (p + 2)"
    by (simp only: power_int_minus power_int_of_nat divide_inverse mult_1)
  also have "\<dots> \<le> \<bar>x\<bar>" using False assms by blast
  finally show ?thesis by (rule fl_error)
qed simp

definition fl_sum :: "rat list \<Rightarrow> rat" where
  "fl_sum vs = foldl (\<lambda>s v. fl (s + v)) 0 vs"

lemma fl_sum_snoc: "fl_sum (vs @ [v]) = fl (fl_sum vs + v)"
  by (simp add: fl_sum_def)

lemma fl_sum_bounds:
  assumes "\<forall>v \<in> set vs. of_int lo \<le> v \<and> v \<le> of_int hi"
    and "int (length vs) * \<bar>lo\<bar> \<le> 2 ^ p" "int (length vs) * \<bar>hi\<bar> \<le> 2 ^ p"
  shows "of_int (int (length vs) * lo) \<le> fl_sum vs \<and> fl_sum vs \<le> of_int (int (length vs) * hi)"
  using assms
proof (induction vs rule: rev_induct)
  case Nil
  then show ?case by (simp add: fl_sum_def)
next
  case (snoc v vs)
  have le: "int (length vs) * \<bar>k\<bar> \<le> 2 ^ p" if "int (length (vs @ [v])) * \<bar>k\<bar> \<le> 2 ^ p" for k
    using that by (simp add: algebra_simps)
  have IH: "of_int (int (length vs) * lo) \<le> fl_sum vs" "fl_sum vs \<le> of_int (int (length vs) * hi)"
    using snoc.IH snoc.prems le by auto
  have v: "of_int lo \<le> v" "v \<le> of_int hi"
    using snoc.prems(1) by auto
  have grid: "fl (of_int (int (length (vs @ [v])) * k)) = of_int (int (length (vs @ [v])) * k)"
    if "int (length (vs @ [v])) * \<bar>k\<bar> \<le> 2 ^ p" for k
    using that by (intro fl_int) (simp add: abs_mult)
  have "of_int (int (length (vs @ [v])) * lo) \<le> fl_sum vs + v" "fl_sum vs + v \<le> of_int (int (length (vs @ [v])) * hi)"
    using IH v by (simp_all add: algebra_simps)
  then show ?case unfolding fl_sum_snoc
    using fl_bounds[OF grid[OF snoc.prems(2)] grid[OF snoc.prems(3)]] by blast
qed

lemma fl_mean_bounds:
  assumes "\<forall>v \<in> set vs. of_int lo \<le> v \<and> v \<le> of_int hi" "vs \<noteq> []"
    and "int (length vs) * \<bar>lo\<bar> \<le> 2 ^ p" "int (length vs) * \<bar>hi\<bar> \<le> 2 ^ p"
  shows "of_int lo \<le> fl (fl_sum vs / of_nat (length vs))"
    and "fl (fl_sum vs / of_nat (length vs)) \<le> of_int hi"
proof -
  have n: "0 < rat_of_nat (length vs)" "1 \<le> int (length vs)"
    using assms(2) by (simp_all add: Suc_le_eq)
  have small: "\<bar>k\<bar> \<le> 2 ^ p" if "int (length vs) * \<bar>k\<bar> \<le> 2 ^ p" for k
    using that n(2) mult_right_mono[of 1 "int (length vs)" "\<bar>k\<bar>"] by simp
  have "of_int lo \<le> fl_sum vs / of_nat (length vs)" "fl_sum vs / of_nat (length vs) \<le> of_int hi"
    using fl_sum_bounds[OF assms(1,3,4)] n(1) by (simp_all add: field_simps)
  then show "of_int lo \<le> fl (fl_sum vs / of_nat (length vs))"
    and "fl (fl_sum vs / of_nat (length vs)) \<le> of_int hi"
    using fl_bounds[OF fl_int[OF small[OF assms(3)]] fl_int[OF small[OF assms(4)]]] by auto
qed

lemma fl_sum_exact:
  assumes "sum_list ns \<le> 2 ^ p"
  shows "fl_sum (map of_nat ns) = of_nat (sum_list ns)"
  using assms
proof (induction ns rule: rev_induct)
  case (snoc n ns)
  then have "fl_sum (map of_nat ns) = of_nat (sum_list ns)" by simp
  then show ?case
    using snoc.prems fl_nat[of "sum_list ns + n"] by (simp add: fl_sum_snoc add.commute)
qed (simp add: fl_sum_def)

text \<open>Rounding the quotient and then the sum with one half does not change the rounded average.\<close>

lemma fl_round_mean:
  assumes "0 < C" "8 * S \<le> 2 ^ p" "8 * C \<le> 2 ^ p"
  shows "floor (fl (fl (of_nat S / of_nat C) + 1 / 2)) = int ((2 * S + C) div (2 * C))"
proof -
  define u c X where "u = 1 / (2 :: rat) ^ p" and "c = rat_of_nat C" and "X = rat_of_nat S"
  define k where "k = (2 * S + C) div (2 * C)"
  define x where "x = X / c"
  define y where "y = fl x"
  have c: "1 \<le> c" and X: "0 \<le> X" "X = 0 \<or> 1 \<le> X" using assms(1) by (auto simp: c_def X_def Suc_le_eq)
  have small: "rat_of_nat n * u \<le> 1 / 8" if "8 * n \<le> 2 ^ p" for n
  proof -
    have "rat_of_nat (8 * n) \<le> rat_of_nat (2 ^ p)" using that by (simp only: of_nat_le_iff)
    then show ?thesis by (simp add: u_def field_simps)
  qed
  have u: "0 < u" "u \<le> 1" "X * u \<le> 1 / 8" "c * u \<le> 1 / 8"
    using small[OF assms(2)] small[OF assms(3)] by (simp_all add: u_def X_def c_def)
  have k: "2 * k * C \<le> 2 * S + C" "2 * S + C + 1 \<le> 2 * (k + 1) * C"
  proof -
    have "(2 * S + C) mod (2 * C) < 2 * C" using assms(1) by simp
    moreover have "2 * S + C = k * (2 * C) + (2 * S + C) mod (2 * C)"
      by (simp only: k_def div_mult_mod_eq)
    ultimately show "2 * k * C \<le> 2 * S + C" "2 * S + C + 1 \<le> 2 * (k + 1) * C"
      by (simp_all add: algebra_simps)
  qed
  have "rat_of_nat (2 * k * C) \<le> rat_of_nat (2 * S + C)" "rat_of_nat (2 * S + C + 1) \<le> rat_of_nat (2 * (k + 1) * C)"
    using k by (simp_all only: of_nat_le_iff)
  then have kX: "2 * of_nat k * c \<le> 2 * X + c" "2 * X + c + 1 \<le> 2 * (of_nat k + 1) * c"
    by (simp_all add: c_def X_def algebra_simps)
  have x: "c * x = X" "0 \<le> x" using c X by (simp_all add: x_def)
  have "2 * k * C \<le> (2 * S + 1) * C"
    using k(1) assms(1) mult_le_mono2[of 1 C "2 * S"] by (simp add: algebra_simps)
  then have "2 * k \<le> 2 * S + 1"
    using assms(1) by (simp only: mult_le_cancel2)
  then have "2 * int k \<le> 2 * int S + 1" by linarith
  moreover have "int (8 * S) \<le> int (2 ^ p)" using assms(2) by (simp only: of_nat_le_iff)
  then have "8 * int S \<le> 2 ^ p" by simp
  moreover have "(2 :: int) ^ 4 \<le> 2 ^ p" using prec_range(1) by (intro power_increasing) auto
  then have "16 \<le> (2 :: int) ^ p" by simp
  ultimately have k_small: "\<bar>2 * int k - 1\<bar> \<le> 2 ^ p" "\<bar>int k\<bar> \<le> 2 ^ p" by linarith+
  have lower: "of_nat k \<le> fl (y + 1 / 2)"
  proof -
    have "of_int (2 * int k - 1) * 2 powi (- 1) \<le> x"
      using kX(1) c by (simp add: x_def power_int_minus field_simps)
    from fl_mono[OF this] have "of_nat k - 1 / 2 \<le> y"
      using fl_exact[OF k_small(1), of "- 1"] prec_range by (simp add: y_def power_int_minus field_simps)
    then have "of_int (int k) \<le> y + 1 / 2" by simp
    from fl_mono[OF this] show ?thesis using fl_int[OF k_small(2)] by simp
  qed
  have y: "0 \<le> y" "y \<le> x + x * u"
  proof -
    show "0 \<le> y" using fl_mono[OF x(2)] by (simp add: y_def)
    have "x = 0 \<or> 1 / 2 ^ (p + 2) \<le> \<bar>x\<bar>"
    proof (cases "X = 0")
      case False
      with X have "u * c \<le> X" using u(4) by (simp add: mult.commute)
      then have "u \<le> x" using c by (simp add: x_def field_simps)
      moreover have "1 / 2 ^ (p + 2) \<le> u" by (simp add: u_def field_simps)
      ultimately have "1 / 2 ^ (p + 2) \<le> \<bar>x\<bar>" by linarith
      then show ?thesis ..
    qed (simp add: x_def)
    from fl_error_any[OF this] show "y \<le> x + x * u"
      using x(2) by (simp add: y_def u_def abs_le_iff)
  qed
  have z: "fl (y + 1 / 2) \<le> (y + 1 / 2) * (1 + u)"
  proof -
    have "(2 :: rat) ^ 1 \<le> 2 ^ (p + 2)" by (intro power_increasing) auto
    then have "(1 :: rat) / 2 ^ (p + 2) \<le> 1 / 2"
      by (intro divide_left_mono) auto
    then have "1 / 2 ^ (p + 2) \<le> \<bar>y + 1 / 2\<bar>" using y(1) by linarith
    with fl_error_any[of "y + 1 / 2"] y(1) show ?thesis
      by (simp add: u_def abs_le_iff algebra_simps)
  qed
  have upper: "fl (y + 1 / 2) < of_nat k + 1"
  proof -
    have "c * (y + 1 / 2) \<le> c * (x + x * u + 1 / 2)"
      using y(2) c by (intro mult_left_mono) auto
    also have "\<dots> = X + X * u + c / 2"
      using x(1) by (simp add: algebra_simps flip: x(1))
    finally have "c * (y + 1 / 2) * (1 + u) \<le> (X + X * u + c / 2) * (1 + u)"
      using u by (intro mult_right_mono) auto
    also have "\<dots> = X + c / 2 + 2 * (X * u) + (X * u) * u + (c * u) / 2"
      by (simp add: algebra_simps)
    also have "(X * u) * u \<le> (X * u) * 1"
      using X u by (intro mult_left_mono) auto
    finally have "c * (y + 1 / 2) * (1 + u) \<le> X + c / 2 + 7 / 16"
      using u(3,4) by linarith
    moreover have "c * fl (y + 1 / 2) \<le> c * ((y + 1 / 2) * (1 + u))"
      using z c by (intro mult_left_mono) auto
    ultimately have "c * fl (y + 1 / 2) \<le> X + c / 2 + 7 / 16"
      by (simp only: mult.assoc order_trans)
    moreover have "2 * X + c + 1 \<le> 2 * (c * (of_nat k + 1))"
      using kX(2) by (simp add: algebra_simps)
    ultimately have "c * fl (y + 1 / 2) < c * (of_nat k + 1)" by linarith
    then show ?thesis using c by simp
  qed
  show ?thesis
    using lower upper by (intro floor_unique) (simp_all add: k_def y_def x_def X_def c_def)
qed

end

lemma rounding_rnd:
  assumes "4 \<le> p" "m + int p \<le> - int p - 2"
  shows "rounding (rnd p m) p m"
proof
  have p: "1 \<le> p" using assms(1) by simp
  show "rnd p m x \<le> rnd p m y" if "x \<le> y" for x y
    using that p by (rule rnd_mono)
  show "rnd p m (of_int k * 2 powi q) = of_int k * 2 powi q" if "\<bar>k\<bar> \<le> 2 ^ p" "m \<le> q" for k q
    using that p by (intro rnd_exact[OF refl]) auto
  show "\<bar>rnd p m x - x\<bar> \<le> \<bar>x\<bar> / 2 ^ p" if "2 powi (m + int p) \<le> \<bar>x\<bar>" for x
    using that p by (rule rnd_rel_error)
qed (use assms in \<open>simp_all add: rnd_neg\<close>)

lemma fp_rnd_formats:
  "fp_rnd binary64 = rnd 53 (- 1074)" "fp_rnd binary80 = rnd 64 (- 16445)"
  by (simp_all add: fun_eq_iff fp_rnd_def binary64_def binary80_def)

interpretation double: rounding "fp_rnd binary64" 53 "- 1074"
  unfolding fp_rnd_formats by (rule rounding_rnd) simp_all

interpretation long_double: rounding "fp_rnd binary80" 64 "- 16445"
  unfolding fp_rnd_formats by (rule rounding_rnd) simp_all

text \<open>The values a variable of type \<^verbatim>\<open>double\<close> can hold.\<close>

fun is_double :: "fp \<Rightarrow> bool" where
  "is_double (Fin x) \<longleftrightarrow> fp_rnd binary64 x = x"
| "is_double _ \<longleftrightarrow> True"

lemma double_is_long_double: "fp_rnd binary64 x = x \<Longrightarrow> fp_rnd binary80 x = x"
  unfolding fp_rnd_formats by (erule rnd_fixed_finer) simp_all

end
