(* ===== verification/Json.thy ===== *)
theory Json
  imports CppStd Fp
begin

text \<open>
  The environment the message handlers run in.  \<^verbatim>\<open>nlohmann::json\<close>, Poco's tokenizer and \<^verbatim>\<open>fmt::format\<close> are
  not part of the sources: they are the fields of the record \<open>nlohmann\<close>, an argument of every
  definition that uses them.  A handler is an action on its state that returns the new state and
  the exception it ended with, if any, so that what was assigned before a throw stays assigned.
\<close>

section \<open>Actions\<close>

type_synonym 's act = "'s \<Rightarrow> 's \<times> cpp_exn option"

definition ok :: "'s act" where
  "ok s = (s, None)"

definition assign :: "('s \<Rightarrow> 's) \<Rightarrow> 's act" where
  "assign f s = (f s, None)"

fun runs :: "'s act list \<Rightarrow> 's act" where
  "runs [] s = (s, None)"
| "runs (a # as) s = (case a s of (s', None) \<Rightarrow> runs as s' | (s', Some e) \<Rightarrow> (s', Some e))"

definition with_val :: "'a cpp \<Rightarrow> ('a \<Rightarrow> 's act) \<Rightarrow> 's act" where
  "with_val v k s = (case v of Inl e \<Rightarrow> (s, Some e) | Inr x \<Rightarrow> k x s)"

definition guarded :: "bool \<Rightarrow> 's act \<Rightarrow> 's act" where
  "guarded b a = (if b then a else ok)"

definition each :: "('x \<Rightarrow> 's act) \<Rightarrow> 'x list \<Rightarrow> 's act" where
  "each f xs = runs (map f xs)"

text \<open>\<^verbatim>\<open>catch (...)\<close>: undefined behaviour is not an exception.\<close>

definition catch_all :: "'s act \<Rightarrow> 's act" where
  "catch_all a s = (case a s of (s', Some Undefined) \<Rightarrow> (s', Some Undefined) | (s', _) \<Rightarrow> (s', None))"

text \<open>Work on a member of the state, and on a local object that is lost when an exception leaves the
  block.\<close>

definition zoom :: "('s \<Rightarrow> 't) \<Rightarrow> (('t \<Rightarrow> 't) \<Rightarrow> 's \<Rightarrow> 's) \<Rightarrow> 't act \<Rightarrow> 's act" where
  "zoom get upd a s = (case a (get s) of (t, e) \<Rightarrow> (upd (\<lambda>_. t) s, e))"

definition build :: "'r act \<Rightarrow> 'r \<Rightarrow> ('r \<Rightarrow> 's act) \<Rightarrow> 's act" where
  "build a r k s = (case a r of (r', None) \<Rightarrow> k r' s | (r', Some e) \<Rightarrow> (s, Some e))"

lemma ok_apply [simp]: "ok s = (s, None)" by (simp add: ok_def)

lemma assign_apply [simp]: "assign f s = (f s, None)" by (simp add: assign_def)

lemma with_val_apply [simp]:
  "with_val (Inl e) k s = (s, Some e)" "with_val (Inr x) k s = k x s"
  by (simp_all add: with_val_def)

lemma guarded_apply [simp]: "guarded True a = a" "guarded False a = ok"
  by (simp_all add: guarded_def)

text \<open>A fact about the state that every action of a handler keeps holds when the handler ends, however it
  ends.\<close>

definition keeps :: "('s \<Rightarrow> bool) \<Rightarrow> 's act \<Rightarrow> bool" where
  "keeps P a \<longleftrightarrow> (\<forall>s. P s \<longrightarrow> P (fst (a s)))"

lemma keepsD: "keeps P a \<Longrightarrow> P s \<Longrightarrow> P (fst (a s))"
  by (simp add: keeps_def)

lemma keeps_dup: "(\<And>t. keeps P (f t)) \<Longrightarrow> keeps P (\<lambda>s. f s s)"
  by (simp add: keeps_def)

lemma runs_assign: "runs (assign f # as) s = runs as (f s)"
  by (simp add: assign_def)

named_theorems keeps_intros

lemma keeps_ok [keeps_intros]: "keeps P ok"
  by (simp add: keeps_def)

lemma keeps_assign [keeps_intros]: "(\<And>s. P s \<Longrightarrow> P (f s)) \<Longrightarrow> keeps P (assign f)"
  by (simp add: keeps_def)

lemma keeps_runs [keeps_intros]: "(\<And>a. a \<in> set as \<Longrightarrow> keeps P a) \<Longrightarrow> keeps P (runs as)"
proof (induction as)
  case (Cons a as)
  then have a: "keeps P a" and as: "keeps P (runs as)" by auto
  show ?case unfolding keeps_def
  proof (intro allI impI)
    fix s assume "P s"
    obtain s' e where s': "a s = (s', e)" by fastforce
    with a \<open>P s\<close> have "P s'" by (metis fst_conv keeps_def)
    with as s' show "P (fst (runs (a # as) s))" by (auto simp: keeps_def split: option.split)
  qed
qed (simp add: keeps_def)

lemma keeps_with_val [keeps_intros]: "(\<And>x. v = Inr x \<Longrightarrow> keeps P (k x)) \<Longrightarrow> keeps P (with_val v k)"
  by (cases v) (auto simp: keeps_def)

lemma keeps_guarded [keeps_intros]: "(b \<Longrightarrow> keeps P a) \<Longrightarrow> keeps P (guarded b a)"
  by (simp add: guarded_def keeps_ok)

lemma keeps_each [keeps_intros]: "(\<And>x. x \<in> set xs \<Longrightarrow> keeps P (f x)) \<Longrightarrow> keeps P (each f xs)"
  unfolding each_def by (rule keeps_runs) auto

lemma keeps_catch_all [keeps_intros]: "keeps P a \<Longrightarrow> keeps P (catch_all a)"
  by (auto simp: keeps_def catch_all_def split: prod.split option.split cpp_exn.split)

lemma keeps_build [keeps_intros]: "(\<And>r'. keeps P (k r')) \<Longrightarrow> keeps P (build a r k)"
  by (auto simp: keeps_def build_def split: prod.split option.split)

lemma keeps_zoom [keeps_intros]: "(\<And>s t. P s \<Longrightarrow> P (upd (\<lambda>_. t) s)) \<Longrightarrow> keeps P (zoom get upd a)"
  by (auto simp: keeps_def zoom_def split: prod.split)

section \<open>The libraries\<close>

text \<open>
  \<open>j_at_const\<close> is \<^verbatim>\<open>operator[]\<close> on a constant value, undefined for a missing key; \<open>j_at_mut\<close> on a
  modifiable one, which yields a null for a missing key.  \<open>j_elems\<close> are the values a range-based
  loop visits, \<open>j_front\<close> is \<^verbatim>\<open>operator[](0)\<close>, \<open>j_differs\<close> is \<^verbatim>\<open>!=\<close> against a string, the \<open>j_get\<close>
  operations are \<^verbatim>\<open>get<T>()\<close>.
\<close>

record 'j nlohmann =
  j_contains :: "'j \<Rightarrow> string \<Rightarrow> bool"
  j_at_const :: "'j \<Rightarrow> string \<Rightarrow> 'j cpp"
  j_at_mut :: "'j \<Rightarrow> string \<Rightarrow> 'j cpp"
  j_is_null :: "'j \<Rightarrow> bool"
  j_is_string :: "'j \<Rightarrow> bool"
  j_is_array :: "'j \<Rightarrow> bool"
  j_is_number :: "'j \<Rightarrow> bool"
  j_is_number_unsigned :: "'j \<Rightarrow> bool"
  j_is_number_integer :: "'j \<Rightarrow> bool"
  j_elems :: "'j \<Rightarrow> 'j list"
  j_size :: "'j \<Rightarrow> nat"
  j_front :: "'j \<Rightarrow> 'j cpp"
  j_get_u64 :: "'j \<Rightarrow> u64 cpp"
  j_get_i64 :: "'j \<Rightarrow> int cpp"
  j_get_u32 :: "'j \<Rightarrow> u32 cpp"
  j_get_u16 :: "'j \<Rightarrow> u16 cpp"
  j_get_bool :: "'j \<Rightarrow> bool cpp"
  j_get_double :: "'j \<Rightarrow> fp cpp"
  j_get_string :: "'j \<Rightarrow> string cpp"
  j_dump :: "'j \<Rightarrow> string cpp"
  j_differs :: "'j \<Rightarrow> string \<Rightarrow> bool"
  tokenizer :: "string \<Rightarrow> string \<Rightarrow> string list"
  fmt_format :: "string \<Rightarrow> string list \<Rightarrow> string"

section \<open>Reading members\<close>

text \<open>\<^verbatim>\<open>GetJSON\<close> of \<^verbatim>\<open>APStats.cpp\<close>: the value it assigns, and the assignment.\<close>

definition GetJSON_val ::
  "'j nlohmann \<Rightarrow> ('j \<Rightarrow> 'a cpp) \<Rightarrow> string \<Rightarrow> 'j \<Rightarrow> 'a \<Rightarrow> 'a cpp" where
  "GetJSON_val L get field doc def =
     (if j_contains L doc field
      then bind (j_at_const L doc field) (\<lambda>x. if j_is_null L x then Inr def else get x)
      else Inr def)"

definition GetJSON ::
  "'j nlohmann \<Rightarrow> ('j \<Rightarrow> 'a cpp) \<Rightarrow> string \<Rightarrow> 'j \<Rightarrow> (('a \<Rightarrow> 'a) \<Rightarrow> 's \<Rightarrow> 's) \<Rightarrow> 'a \<Rightarrow> 's act" where
  "GetJSON L get field doc upd def = with_val (GetJSON_val L get field doc def) (\<lambda>v. assign (upd (\<lambda>_. v)))"

definition GetJSON2_val ::
  "'j nlohmann \<Rightarrow> ('j \<Rightarrow> 'a cpp) \<Rightarrow> string \<Rightarrow> string \<Rightarrow> 'j \<Rightarrow> 'a \<Rightarrow> 'a cpp" where
  "GetJSON2_val L get field1 field2 doc def =
     (if j_contains L doc field1
      then bind (j_at_const L doc field1) (\<lambda>subDoc.
             if j_is_null L subDoc then Inr def
             else if j_contains L subDoc field2
             then bind (j_at_mut L subDoc field2) (\<lambda>x. if j_is_null L x then Inr def else get x)
             else Inr def)
      else Inr def)"

definition GetJSON2 ::
  "'j nlohmann \<Rightarrow> ('j \<Rightarrow> 'a cpp) \<Rightarrow> string \<Rightarrow> string \<Rightarrow> 'j \<Rightarrow> (('a \<Rightarrow> 'a) \<Rightarrow> 's \<Rightarrow> 's) \<Rightarrow> 'a \<Rightarrow> 's act" where
  "GetJSON2 L get field1 field2 doc upd def =
     with_val (GetJSON2_val L get field1 field2 doc def) (\<lambda>v. assign (upd (\<lambda>_. v)))"

text \<open>The \<^verbatim>\<open>GetOptional\<close> readers catch every exception.\<close>

definition nullopt_on_throw :: "'a option cpp \<Rightarrow> 'a option" where
  "nullopt_on_throw v = (case v of Inl _ \<Rightarrow> None | Inr x \<Rightarrow> x)"

definition GetOptionalUInt64JSON :: "'j nlohmann \<Rightarrow> string \<Rightarrow> 'j \<Rightarrow> u64 option" where
  "GetOptionalUInt64JSON L field doc =
     nullopt_on_throw
      (if \<not> j_contains L doc field then Inr None
       else bind (j_at_const L doc field) (\<lambda>x.
         if j_is_null L x then Inr None
         else if j_is_number_unsigned L x then bind (j_get_u64 L x) (\<lambda>v. Inr (Some v))
         else if j_is_number_integer L x then
           bind (j_get_i64 L x) (\<lambda>Value. Inr (if Value \<ge> 0 then Some (of_int Value) else None))
         else Inr None))"

definition GetOptionalDoubleJSON :: "'j nlohmann \<Rightarrow> string \<Rightarrow> 'j \<Rightarrow> fp option" where
  "GetOptionalDoubleJSON L field doc =
     nullopt_on_throw
      (if \<not> j_contains L doc field then Inr None
       else bind (j_at_const L doc field) (\<lambda>x.
         if j_is_null L x then Inr None
         else if j_is_number L x then bind (j_get_double L x) (\<lambda>v. Inr (Some v))
         else Inr None))"

definition int_string :: "int \<Rightarrow> string" where
  "int_string i = (if i < 0 then CHR ''-'' # dec_string (nat (- i)) else dec_string (nat i))"

definition GetOptionalStringJSON :: "'j nlohmann \<Rightarrow> string \<Rightarrow> 'j \<Rightarrow> string" where
  "GetOptionalStringJSON L field doc =
     (case (if j_contains L doc field
            then bind (j_at_const L doc field) (\<lambda>x.
              if j_is_null L x then Inr []
              else if j_is_string L x then j_get_string L x
              else if j_is_number_unsigned L x then bind (j_get_u64 L x) (\<lambda>v. Inr (dec_string (unat v)))
              else if j_is_number_integer L x then bind (j_get_i64 L x) (\<lambda>v. Inr (int_string v))
              else Inr [])
            else Inr []) of
        Inl _ \<Rightarrow> []
      | Inr s \<Rightarrow> s)"

lemma keeps_GetJSON [keeps_intros]:
  "(\<And>s v. P s \<Longrightarrow> P (upd (\<lambda>_. v) s)) \<Longrightarrow> keeps P (GetJSON L get field doc upd def)"
  unfolding GetJSON_def by (intro keeps_intros)

lemma keeps_GetJSON2 [keeps_intros]:
  "(\<And>s v. P s \<Longrightarrow> P (upd (\<lambda>_. v) s)) \<Longrightarrow> keeps P (GetJSON2 L get field1 field2 doc upd def)"
  unfolding GetJSON2_def by (intro keeps_intros)

end
