(* ===== verification/AnalyticsObjects.thy ===== *)
theory AnalyticsObjects
  imports CppStd Fp
begin

text \<open>
  The data types of \<^verbatim>\<open>RESTObjects/RESTAPI_AnalyticsObjects.h\<close> (and \<^verbatim>\<open>ObjectInfo\<close>, \<^verbatim>\<open>NoteInfo\<close> that a board
  embeds): every struct is a record with the fields of the source, in the order of the source, under
  a prefix for the struct, because fields of different structs share names.  \<open>T_init\<close> is the value of
  a default-constructed \<open>T\<close>: the member initialisers of the source.  \<^verbatim>\<open>int64_t\<close> members are only
  stored and compared and are integers.
\<close>

record Report =
  report_snapShot :: u64

definition Report_init :: Report where
  "Report_init = \<lparr>report_snapShot = 0\<rparr>"

record NoteInfo =
  note_created :: u64
  note_createdBy :: string
  note_note :: string

definition NoteInfo_init :: NoteInfo where
  "NoteInfo_init = \<lparr>note_created = 0, note_createdBy = [], note_note = []\<rparr>"

record ObjectInfo =
  info_id :: string
  info_name :: string
  info_description :: string
  info_notes :: "NoteInfo list"
  info_created :: u64
  info_modified :: u64
  info_tags :: "u64 list"

definition ObjectInfo_init :: ObjectInfo where
  "ObjectInfo_init = \<lparr>info_id = [], info_name = [], info_description = [], info_notes = [], 
     info_created = 0, info_modified = 0, info_tags = []\<rparr>"

record VenueInfo =
  venue_id :: string
  venue_name :: string
  venue_description :: string
  venue_retention :: u64
  venue_interval :: u64
  venue_monitorSubVenues :: bool

definition VenueInfo_init :: VenueInfo where
  "VenueInfo_init = \<lparr>venue_id = [], venue_name = [], venue_description = [], venue_retention = 0, 
     venue_interval = 0, venue_monitorSubVenues = False\<rparr>"

record BoardInfo =
  board_info :: ObjectInfo
  board_venueList :: "VenueInfo list"

definition BoardInfo_init :: BoardInfo where
  "BoardInfo_init = \<lparr>board_info = ObjectInfo_init, board_venueList = []\<rparr>"

record DeviceInfo =
  di_boardId :: string
  di_type :: string
  di_serialNumber :: string
  di_deviceType :: string
  di_platform :: string
  di_lastContact :: u64
  di_lastPing :: u64
  di_lastState :: u64
  di_lastFirmware :: string
  di_lastFirmwareUpdate :: u64
  di_lastConnection :: u64
  di_lastDisconnection :: u64
  di_pings :: u64
  di_states :: u64
  di_connected :: bool
  di_connectionIp :: string
  di_associations_2g :: u64
  di_associations_5g :: u64
  di_associations_6g :: u64
  di_health :: u64
  di_lastHealth :: u64
  di_locale :: string
  di_uptime :: u64
  di_memory :: fp

definition DeviceInfo_init :: DeviceInfo where
  "DeviceInfo_init = \<lparr>di_boardId = [], di_type = [], di_serialNumber = [], di_deviceType = [], 
     di_platform = [], di_lastContact = 0, di_lastPing = 0, di_lastState = 0, 
     di_lastFirmware = [], di_lastFirmwareUpdate = 0, di_lastConnection = 0, 
     di_lastDisconnection = 0, di_pings = 0, di_states = 0, di_connected = False, 
     di_connectionIp = [], di_associations_2g = 0, di_associations_5g = 0, 
     di_associations_6g = 0, di_health = 0, di_lastHealth = 0, di_locale = [], 
     di_uptime = 0, di_memory = Fin 0\<rparr>"

record TIDstat_entry =
  tid_rx_msdu :: u64
  tid_tx_msdu :: u64
  tid_tx_msdu_failed :: u64
  tid_tx_msdu_retries :: u64

definition TIDstat_entry_init :: TIDstat_entry where
  "TIDstat_entry_init = \<lparr>tid_rx_msdu = 0, tid_tx_msdu = 0, tid_tx_msdu_failed = 0, 
     tid_tx_msdu_retries = 0\<rparr>"

record UE_rate =
  rate_bitrate :: u64
  rate_mcs :: u64
  rate_nss :: u64
  rate_ht :: bool
  rate_sgi :: bool
  rate_chwidth :: u64

definition UE_rate_init :: UE_rate where
  "UE_rate_init = \<lparr>rate_bitrate = 0, rate_mcs = 0, rate_nss = 0, rate_ht = False, rate_sgi = False, 
     rate_chwidth = 0\<rparr>"

record AveragePoint =
  pt_min :: fp
  pt_max :: fp
  pt_avg :: fp

definition AveragePoint_init :: AveragePoint where
  "AveragePoint_init = \<lparr>pt_min = Fin 0, pt_max = Fin 0, pt_avg = Fin 0\<rparr>"

record Fingerprint =
  fprint_json :: string

definition Fingerprint_init :: Fingerprint where
  "Fingerprint_init = \<lparr>fprint_json = []\<rparr>"

record UETimePoint =
  ue_station :: string
  ue_rssi :: int
  ue_tx_bytes :: u64
  ue_rx_bytes :: u64
  ue_tx_duration :: u64
  ue_rx_packets :: u64
  ue_tx_packets :: u64
  ue_tx_retries :: u64
  ue_tx_failed :: u64
  ue_connected :: u64
  ue_inactive :: u64
  ue_tx_bytes_present :: bool
  ue_rx_bytes_present :: bool
  ue_tx_bytes_bw :: fp
  ue_rx_bytes_bw :: fp
  ue_tx_packets_bw :: fp
  ue_rx_packets_bw :: fp
  ue_tx_failed_pct :: fp
  ue_tx_retries_pct :: fp
  ue_tx_duration_pct :: fp
  ue_tx_bytes_delta :: u64
  ue_rx_bytes_delta :: u64
  ue_tx_duration_delta :: u64
  ue_rx_packets_delta :: u64
  ue_tx_packets_delta :: u64
  ue_tx_retries_delta :: u64
  ue_tx_failed_delta :: u64
  ue_tx_rate :: UE_rate
  ue_rx_rate :: UE_rate
  ue_fingerprint :: Fingerprint
  ue_tidstats :: "TIDstat_entry list"

definition UETimePoint_init :: UETimePoint where
  "UETimePoint_init = \<lparr>ue_station = [], ue_rssi = 0, ue_tx_bytes = 0, ue_rx_bytes = 0, 
     ue_tx_duration = 0, ue_rx_packets = 0, ue_tx_packets = 0, ue_tx_retries = 0, 
     ue_tx_failed = 0, ue_connected = 0, ue_inactive = 0, ue_tx_bytes_present = False, 
     ue_rx_bytes_present = False, ue_tx_bytes_bw = Fin 0, ue_rx_bytes_bw = Fin 0, 
     ue_tx_packets_bw = Fin 0, ue_rx_packets_bw = Fin 0, ue_tx_failed_pct = Fin 0, 
     ue_tx_retries_pct = Fin 0, ue_tx_duration_pct = Fin 0, ue_tx_bytes_delta = 0, 
     ue_rx_bytes_delta = 0, ue_tx_duration_delta = 0, ue_rx_packets_delta = 0, 
     ue_tx_packets_delta = 0, ue_tx_retries_delta = 0, ue_tx_failed_delta = 0, 
     ue_tx_rate = UE_rate_init, ue_rx_rate = UE_rate_init, 
     ue_fingerprint = Fingerprint_init, ue_tidstats = []\<rparr>"

record SSIDTimePoint =
  ssidtp_bssid :: string
  ssidtp_mode :: string
  ssidtp_ssid :: string
  ssidtp_band :: u64
  ssidtp_channel :: u64
  ssidtp_associations :: "UETimePoint list"
  ssidtp_tx_bytes_bw :: AveragePoint
  ssidtp_rx_bytes_bw :: AveragePoint
  ssidtp_tx_packets_bw :: AveragePoint
  ssidtp_rx_packets_bw :: AveragePoint
  ssidtp_tx_failed_pct :: AveragePoint
  ssidtp_tx_retries_pct :: AveragePoint
  ssidtp_tx_duration_pct :: AveragePoint

definition SSIDTimePoint_init :: SSIDTimePoint where
  "SSIDTimePoint_init = \<lparr>ssidtp_bssid = [], ssidtp_mode = [], ssidtp_ssid = [], ssidtp_band = 0, 
     ssidtp_channel = 0, ssidtp_associations = [], 
     ssidtp_tx_bytes_bw = AveragePoint_init, ssidtp_rx_bytes_bw = AveragePoint_init, 
     ssidtp_tx_packets_bw = AveragePoint_init, 
     ssidtp_rx_packets_bw = AveragePoint_init, 
     ssidtp_tx_failed_pct = AveragePoint_init, 
     ssidtp_tx_retries_pct = AveragePoint_init, 
     ssidtp_tx_duration_pct = AveragePoint_init\<rparr>"

record APTimePoint =
  ap_collisions :: u64
  ap_multicast :: u64
  ap_rx_bytes :: u64
  ap_rx_dropped :: u64
  ap_rx_errors :: u64
  ap_rx_packets :: u64
  ap_tx_bytes :: u64
  ap_tx_dropped :: u64
  ap_tx_errors :: u64
  ap_tx_packets :: u64
  ap_tx_bytes_bw :: fp
  ap_rx_bytes_bw :: fp
  ap_rx_dropped_pct :: fp
  ap_tx_dropped_pct :: fp
  ap_rx_packets_bw :: fp
  ap_tx_packets_bw :: fp
  ap_rx_errors_pct :: fp
  ap_tx_errors_pct :: fp
  ap_tx_bytes_delta :: u64
  ap_rx_bytes_delta :: u64
  ap_rx_dropped_delta :: u64
  ap_tx_dropped_delta :: u64
  ap_rx_packets_delta :: u64
  ap_tx_packets_delta :: u64
  ap_rx_errors_delta :: u64
  ap_tx_errors_delta :: u64

definition APTimePoint_init :: APTimePoint where
  "APTimePoint_init = \<lparr>ap_collisions = 0, ap_multicast = 0, ap_rx_bytes = 0, ap_rx_dropped = 0, 
     ap_rx_errors = 0, ap_rx_packets = 0, ap_tx_bytes = 0, ap_tx_dropped = 0, 
     ap_tx_errors = 0, ap_tx_packets = 0, ap_tx_bytes_bw = Fin 0, 
     ap_rx_bytes_bw = Fin 0, ap_rx_dropped_pct = Fin 0, ap_tx_dropped_pct = Fin 0, 
     ap_rx_packets_bw = Fin 0, ap_tx_packets_bw = Fin 0, ap_rx_errors_pct = Fin 0, 
     ap_tx_errors_pct = Fin 0, ap_tx_bytes_delta = 0, ap_rx_bytes_delta = 0, 
     ap_rx_dropped_delta = 0, ap_tx_dropped_delta = 0, ap_rx_packets_delta = 0, 
     ap_tx_packets_delta = 0, ap_rx_errors_delta = 0, ap_tx_errors_delta = 0\<rparr>"

record RadioTimePoint =
  radio_band :: u64
  radio_channel_width :: u64
  radio_active_ms :: u64
  radio_busy_ms :: u64
  radio_receive_ms :: u64
  radio_transmit_ms :: u64
  radio_tx_power :: u64
  radio_channel :: u64
  radio_temperature :: "fp option"
  radio_noise :: int
  radio_active_pct :: fp
  radio_busy_pct :: fp
  radio_receive_pct :: fp
  radio_transmit_pct :: fp

definition RadioTimePoint_init :: RadioTimePoint where
  "RadioTimePoint_init = \<lparr>radio_band = 0, radio_channel_width = 0, radio_active_ms = 0, radio_busy_ms = 0, 
     radio_receive_ms = 0, radio_transmit_ms = 0, radio_tx_power = 0, 
     radio_channel = 0, radio_temperature = None, radio_noise = 0, 
     radio_active_pct = Fin 0, radio_busy_pct = Fin 0, radio_receive_pct = Fin 0, 
     radio_transmit_pct = Fin 0\<rparr>"

record DeviceResourceTimePoint =
  res_memory_free :: "u64 option"
  res_memory_total :: "u64 option"
  res_memory_cached :: "u64 option"
  res_memory_buffered :: "u64 option"

definition DeviceResourceTimePoint_init :: DeviceResourceTimePoint where
  "DeviceResourceTimePoint_init = \<lparr>res_memory_free = None, res_memory_total = None, res_memory_cached = None, 
     res_memory_buffered = None\<rparr>"

record DeviceTimePoint =
  dtp_id :: string
  dtp_boardId :: string
  dtp_venueId :: string
  dtp_timestamp :: u64
  dtp_ap_data :: APTimePoint
  dtp_ssid_data :: "SSIDTimePoint list"
  dtp_radio_data :: "RadioTimePoint list"
  dtp_resource_data :: DeviceResourceTimePoint
  dtp_device_info :: DeviceInfo
  dtp_serialNumber :: string

definition DeviceTimePoint_init :: DeviceTimePoint where
  "DeviceTimePoint_init = \<lparr>dtp_id = [], dtp_boardId = [], dtp_venueId = [], dtp_timestamp = 0, 
     dtp_ap_data = APTimePoint_init, dtp_ssid_data = [], dtp_radio_data = [], 
     dtp_resource_data = DeviceResourceTimePoint_init, 
     dtp_device_info = DeviceInfo_init, dtp_serialNumber = []\<rparr>"

record DeviceTimePointAnalysis =
  dta_timestamp :: u64
  dta_noise :: AveragePoint
  dta_temperature :: AveragePoint
  dta_active_pct :: AveragePoint
  dta_busy_pct :: AveragePoint
  dta_receive_pct :: AveragePoint
  dta_transmit_pct :: AveragePoint
  dta_tx_power :: AveragePoint
  dta_tx_bytes_bw :: AveragePoint
  dta_rx_bytes_bw :: AveragePoint
  dta_rx_dropped_pct :: AveragePoint
  dta_tx_dropped_pct :: AveragePoint
  dta_rx_packets_bw :: AveragePoint
  dta_tx_packets_bw :: AveragePoint
  dta_rx_errors_pct :: AveragePoint
  dta_tx_errors_pct :: AveragePoint

definition DeviceTimePointAnalysis_init :: DeviceTimePointAnalysis where
  "DeviceTimePointAnalysis_init = \<lparr>dta_timestamp = 0, dta_noise = AveragePoint_init, 
     dta_temperature = AveragePoint_init, dta_active_pct = AveragePoint_init, 
     dta_busy_pct = AveragePoint_init, dta_receive_pct = AveragePoint_init, 
     dta_transmit_pct = AveragePoint_init, dta_tx_power = AveragePoint_init, 
     dta_tx_bytes_bw = AveragePoint_init, dta_rx_bytes_bw = AveragePoint_init, 
     dta_rx_dropped_pct = AveragePoint_init, dta_tx_dropped_pct = AveragePoint_init, 
     dta_rx_packets_bw = AveragePoint_init, dta_tx_packets_bw = AveragePoint_init, 
     dta_rx_errors_pct = AveragePoint_init, dta_tx_errors_pct = AveragePoint_init\<rparr>"

record DeviceTimePointList =
  dtpl_points :: "DeviceTimePoint list"
  dtpl_stats :: "DeviceTimePointAnalysis list"

definition DeviceTimePointList_init :: DeviceTimePointList where
  "DeviceTimePointList_init = \<lparr>dtpl_points = [], dtpl_stats = []\<rparr>"

record DeviceTimePointStats =
  dtps_firstPoint :: u64
  dtps_lastPoint :: u64
  dtps_count :: u64

definition DeviceTimePointStats_init :: DeviceTimePointStats where
  "DeviceTimePointStats_init = \<lparr>dtps_firstPoint = 0, dtps_lastPoint = 0, dtps_count = 0\<rparr>"

record WifiClientRate =
  wcr_bitrate :: u32
  wcr_chwidth :: u32
  wcr_mcs :: u16
  wcr_nss :: u16
  wcr_vht :: bool

definition WifiClientRate_init :: WifiClientRate where
  "WifiClientRate_init = \<lparr>wcr_bitrate = 0, wcr_chwidth = 0, wcr_mcs = 0, wcr_nss = 0, wcr_vht = False\<rparr>"

record WifiClientHistory =
  wch_timestamp :: u64
  wch_station_id :: string
  wch_bssid :: string
  wch_ssid :: string
  wch_rssi :: int
  wch_rx_bitrate :: u32
  wch_rx_chwidth :: u32
  wch_rx_mcs :: u16
  wch_rx_nss :: u16
  wch_rx_vht :: bool
  wch_tx_bitrate :: u32
  wch_tx_chwidth :: u32
  wch_tx_mcs :: u16
  wch_tx_nss :: u16
  wch_tx_vht :: bool
  wch_rx_bytes :: u64
  wch_tx_bytes :: u64
  wch_rx_duration :: u64
  wch_tx_duration :: u64
  wch_rx_packets :: u64
  wch_tx_packets :: u64
  wch_ipv4 :: string
  wch_ipv6 :: string
  wch_channel_width :: u64
  wch_noise :: int
  wch_tx_power :: u64
  wch_channel :: u64
  wch_active_ms :: u64
  wch_busy_ms :: u64
  wch_receive_ms :: u64
  wch_mode :: string
  wch_ack_signal :: int
  wch_ack_signal_avg :: int
  wch_connected :: u64
  wch_inactive :: u64
  wch_tx_retries :: u64
  wch_venue_id :: string

text \<open>The timestamp of a fresh \<^verbatim>\<open>WifiClientHistory\<close> is the clock (\<^verbatim>\<open>Utils::Now()\<close>).\<close>

definition WifiClientHistory_init :: "u64 \<Rightarrow> WifiClientHistory" where
  "WifiClientHistory_init now = \<lparr>wch_timestamp = now, wch_station_id = [], wch_bssid = [], wch_ssid = [], 
     wch_rssi = 0, wch_rx_bitrate = 0, wch_rx_chwidth = 0, wch_rx_mcs = 0, 
     wch_rx_nss = 0, wch_rx_vht = False, wch_tx_bitrate = 0, wch_tx_chwidth = 0, 
     wch_tx_mcs = 0, wch_tx_nss = 0, wch_tx_vht = False, wch_rx_bytes = 0, 
     wch_tx_bytes = 0, wch_rx_duration = 0, wch_tx_duration = 0, wch_rx_packets = 0, 
     wch_tx_packets = 0, wch_ipv4 = [], wch_ipv6 = [], wch_channel_width = 0, 
     wch_noise = 0, wch_tx_power = 0, wch_channel = 0, wch_active_ms = 0, 
     wch_busy_ms = 0, wch_receive_ms = 0, wch_mode = [], wch_ack_signal = 0, 
     wch_ack_signal_avg = 0, wch_connected = 0, wch_inactive = 0, wch_tx_retries = 0, 
     wch_venue_id = []\<rparr>"

record MCPRequestedWindow =
  rw_startTime :: string
  rw_endTime :: string

definition MCPRequestedWindow_init :: MCPRequestedWindow where
  "MCPRequestedWindow_init = \<lparr>rw_startTime = [], rw_endTime = []\<rparr>"

record MCPObservedWindow =
  ow_startTime :: "string option"
  ow_endTime :: "string option"

definition MCPObservedWindow_init :: MCPObservedWindow where
  "MCPObservedWindow_init = \<lparr>ow_startTime = None, ow_endTime = None\<rparr>"

record MCPMemorySummaryData =
  msd_min_memfree :: "u64 option"
  msd_max_memfree :: "u64 option"
  msd_avg_memfree :: "u64 option"
  msd_latest_memfree :: "u64 option"

definition MCPMemorySummaryData_init :: MCPMemorySummaryData where
  "MCPMemorySummaryData_init = \<lparr>msd_min_memfree = None, msd_max_memfree = None, msd_avg_memfree = None, 
     msd_latest_memfree = None\<rparr>"

record MCPMemorySummaryMeta =
  meta_requestedWindow :: MCPRequestedWindow
  meta_observedWindow :: MCPObservedWindow

definition MCPMemorySummaryMeta_init :: MCPMemorySummaryMeta where
  "MCPMemorySummaryMeta_init = \<lparr>meta_requestedWindow = MCPRequestedWindow_init, 
     meta_observedWindow = MCPObservedWindow_init\<rparr>"

record MCPGatewayMemorySummary =
  gms_data :: MCPMemorySummaryData
  gms_meta :: MCPMemorySummaryMeta

definition MCPGatewayMemorySummary_init :: MCPGatewayMemorySummary where
  "MCPGatewayMemorySummary_init = \<lparr>gms_data = MCPMemorySummaryData_init, gms_meta = MCPMemorySummaryMeta_init\<rparr>"

record MCPGatewayWifiTemperatureSummaryData =
  wtd_min_wifi_temp_2_4G :: "fp option"
  wtd_max_wifi_temp_2_4G :: "fp option"
  wtd_avg_wifi_temp_2_4G :: "fp option"
  wtd_latest_wifi_temp_2_4G :: "fp option"
  wtd_min_wifi_temp_5G :: "fp option"
  wtd_max_wifi_temp_5G :: "fp option"
  wtd_avg_wifi_temp_5G :: "fp option"
  wtd_latest_wifi_temp_5G :: "fp option"

definition MCPGatewayWifiTemperatureSummaryData_init :: MCPGatewayWifiTemperatureSummaryData where
  "MCPGatewayWifiTemperatureSummaryData_init = \<lparr>wtd_min_wifi_temp_2_4G = None, wtd_max_wifi_temp_2_4G = None, 
     wtd_avg_wifi_temp_2_4G = None, wtd_latest_wifi_temp_2_4G = None, 
     wtd_min_wifi_temp_5G = None, wtd_max_wifi_temp_5G = None, 
     wtd_avg_wifi_temp_5G = None, wtd_latest_wifi_temp_5G = None\<rparr>"

record MCPGatewayWifiTemperatureSummary =
  gwt_data :: MCPGatewayWifiTemperatureSummaryData
  gwt_meta :: MCPMemorySummaryMeta

definition MCPGatewayWifiTemperatureSummary_init :: MCPGatewayWifiTemperatureSummary where
  "MCPGatewayWifiTemperatureSummary_init = \<lparr>gwt_data = MCPGatewayWifiTemperatureSummaryData_init, 
     gwt_meta = MCPMemorySummaryMeta_init\<rparr>"

record MCPClientUsageItem =
  cui_mac :: string
  cui_rx_bytes :: u64
  cui_tx_bytes :: u64
  cui_total_bytes :: u64
  cui_data_consume_rx :: string
  cui_data_consume_tx :: string
  cui_total_data_usage :: string

definition MCPClientUsageItem_init :: MCPClientUsageItem where
  "MCPClientUsageItem_init = \<lparr>cui_mac = [], cui_rx_bytes = 0, cui_tx_bytes = 0, cui_total_bytes = 0, 
     cui_data_consume_rx = [], cui_data_consume_tx = [], cui_total_data_usage = []\<rparr>"

record MCPClientUsageSummaryData =
  cus_items :: "MCPClientUsageItem list"
  cus_totalClients :: u64
  cus_truncated :: bool

definition MCPClientUsageSummaryData_init :: MCPClientUsageSummaryData where
  "MCPClientUsageSummaryData_init = \<lparr>cus_items = [], cus_totalClients = 0, cus_truncated = False\<rparr>"

record MCPDeviceBandwidthConsumptionSummary =
  dbc_data :: MCPClientUsageSummaryData
  dbc_meta :: MCPMemorySummaryMeta

definition MCPDeviceBandwidthConsumptionSummary_init :: MCPDeviceBandwidthConsumptionSummary where
  "MCPDeviceBandwidthConsumptionSummary_init = \<lparr>dbc_data = MCPClientUsageSummaryData_init, dbc_meta = MCPMemorySummaryMeta_init\<rparr>"

record MCPClientRssiItem =
  cri_mac :: string
  cri_rssi_excellent_pct :: fp
  cri_rssi_good_pct :: fp
  cri_rssi_fair_pct :: fp
  cri_rssi_poor_pct :: fp
  cri_rssi_total_samples :: u64

definition MCPClientRssiItem_init :: MCPClientRssiItem where
  "MCPClientRssiItem_init = \<lparr>cri_mac = [], cri_rssi_excellent_pct = Fin 0, cri_rssi_good_pct = Fin 0, 
     cri_rssi_fair_pct = Fin 0, cri_rssi_poor_pct = Fin 0, cri_rssi_total_samples = 0\<rparr>"

record MCPClientRssiQualitySummary =
  crq_requestedWindow :: MCPRequestedWindow
  crq_observedWindow :: MCPObservedWindow
  crq_items :: "MCPClientRssiItem list"
  crq_totalClients :: u64
  crq_truncated :: bool

definition MCPClientRssiQualitySummary_init :: MCPClientRssiQualitySummary where
  "MCPClientRssiQualitySummary_init = \<lparr>crq_requestedWindow = MCPRequestedWindow_init, 
     crq_observedWindow = MCPObservedWindow_init, crq_items = [], 
     crq_totalClients = 0, crq_truncated = False\<rparr>"

record DeviceAvailabilityEvent =
  dae_id :: string
  dae_board_id :: string
  dae_serialNumber :: string
  dae_event_type :: string
  dae_event_time :: u64
  dae_reason :: string
  dae_connection_ip :: string
  dae_session_id :: string
  dae_event_id :: string
  dae_idempotency_key :: string

definition DeviceAvailabilityEvent_init :: DeviceAvailabilityEvent where
  "DeviceAvailabilityEvent_init = \<lparr>dae_id = [], dae_board_id = [], dae_serialNumber = [], dae_event_type = [], 
     dae_event_time = 0, dae_reason = [], dae_connection_ip = [], dae_session_id = [], 
     dae_event_id = [], dae_idempotency_key = []\<rparr>"

record MCPGatewayAvailabilityData =
  gad_gw_uuid :: string
  gad_fetch_status :: string
  gad_offlineEventCount :: u64

definition MCPGatewayAvailabilityData_init :: MCPGatewayAvailabilityData where
  "MCPGatewayAvailabilityData_init = \<lparr>gad_gw_uuid = [], gad_fetch_status = ''success'', gad_offlineEventCount = 0\<rparr>"

record MCPGatewayAvailabilityMeta =
  gam_requestedWindow :: MCPRequestedWindow
  gam_observedWindow :: MCPObservedWindow

definition MCPGatewayAvailabilityMeta_init :: MCPGatewayAvailabilityMeta where
  "MCPGatewayAvailabilityMeta_init = \<lparr>gam_requestedWindow = MCPRequestedWindow_init, 
     gam_observedWindow = MCPObservedWindow_init\<rparr>"

record MCPGatewayAvailabilitySummary =
  gas_meta :: MCPGatewayAvailabilityMeta
  gas_data :: MCPGatewayAvailabilityData

definition MCPGatewayAvailabilitySummary_init :: MCPGatewayAvailabilitySummary where
  "MCPGatewayAvailabilitySummary_init = \<lparr>gas_meta = MCPGatewayAvailabilityMeta_init, 
     gas_data = MCPGatewayAvailabilityData_init\<rparr>"

datatype SSID_MODES = unknown | ap | mesh | sta | wds_ap | wds_sta | wds_repeater

definition SSID_Mode :: "string \<Rightarrow> SSID_MODES" where
  "SSID_Mode m =
     (if m = ''ap'' then ap else if m = ''sta'' then sta else if m = ''mesh'' then mesh
      else if m = ''wds-ap'' then wds_ap else if m = ''wds-sta'' then wds_sta
      else if m = ''wds-repeater'' then wds_repeater else unknown)"

text \<open>\<^verbatim>\<open>operator<\<close>, \<^verbatim>\<open>operator==\<close> and \<^verbatim>\<open>operator>\<close> of \<^verbatim>\<open>DeviceTimePoint\<close>, and of \<^verbatim>\<open>BoardInfo\<close>.\<close>

definition dtp_less :: "DeviceTimePoint \<Rightarrow> DeviceTimePoint \<Rightarrow> bool" where
  "dtp_less l r \<longleftrightarrow>
     (if dtp_timestamp l < dtp_timestamp r then True
      else if dtp_timestamp l > dtp_timestamp r then False
      else if di_serialNumber (dtp_device_info l) < di_serialNumber (dtp_device_info r) then True
      else False)"

definition dtp_equal :: "DeviceTimePoint \<Rightarrow> DeviceTimePoint \<Rightarrow> bool" where
  "dtp_equal l r \<longleftrightarrow> dtp_timestamp l = dtp_timestamp r \<and>
     di_serialNumber (dtp_device_info l) = di_serialNumber (dtp_device_info r)"

definition dtp_greater :: "DeviceTimePoint \<Rightarrow> DeviceTimePoint \<Rightarrow> bool" where
  "dtp_greater l r \<longleftrightarrow>
     (if dtp_timestamp l > dtp_timestamp r then True
      else if dtp_timestamp l < dtp_timestamp r then False
      else if di_serialNumber (dtp_device_info l) > di_serialNumber (dtp_device_info r) then True
      else False)"

definition BoardInfo_less :: "BoardInfo \<Rightarrow> BoardInfo \<Rightarrow> bool" where
  "BoardInfo_less a b \<longleftrightarrow> info_id (board_info a) < info_id (board_info b)"

definition BoardInfo_equal :: "BoardInfo \<Rightarrow> BoardInfo \<Rightarrow> bool" where
  "BoardInfo_equal a b \<longleftrightarrow> info_id (board_info a) = info_id (board_info b)"

text \<open>The three comparisons are one strict order on (timestamp, serial number).\<close>

lemma dtp_less_iff:
  "dtp_less l r \<longleftrightarrow>
     (dtp_timestamp l, di_serialNumber (dtp_device_info l)) < (dtp_timestamp r, di_serialNumber (dtp_device_info r))"
  by (auto simp: dtp_less_def less_prod_def')

lemma dtp_trichotomy: "dtp_less l r \<or> dtp_equal l r \<or> dtp_greater l r"
  "dtp_greater l r \<longleftrightarrow> dtp_less r l" "\<not> (dtp_less l r \<and> dtp_equal l r)"
  by (auto simp: dtp_less_def dtp_equal_def dtp_greater_def)

end
