(* ===== verification/McpTime.thy ===== *)
theory McpTime
  imports CppStd
begin

text \<open>
  The calendar code of \<^verbatim>\<open>RESTAPI_mcp_helpers.h\<close>: leap years, month lengths, the two RFC 3339
  parsers and the formatter, over models of the C functions \<^verbatim>\<open>timegm\<close>, \<^verbatim>\<open>gmtime_r\<close> and
  \<^verbatim>\<open>strftime\<close> (glibc, 64-bit \<^verbatim>\<open>time_t\<close>, 32-bit \<^verbatim>\<open>int\<close> fields).  The theorems: the formatter and the
  strict parser are inverse to each other on every instant of the years 1970 to 9999, the
  re-conversion check in the parser never rejects, and the offset parser shifts by the offset.
\<close>

subsection \<open>Calendar\<close>

definition IsLeapYear :: "int \<Rightarrow> bool" where
  "IsLeapYear Year \<longleftrightarrow> (Year mod 4 = 0 \<and> Year mod 100 \<noteq> 0) \<or> Year mod 400 = 0"

definition DaysInMonth :: "int \<Rightarrow> int \<Rightarrow> int" where
  "DaysInMonth Year Month =
     (if Month = 2 \<and> IsLeapYear Year then 29
      else if Month < 1 \<or> Month > 12 then 0
      else [31, 28, 31, 30, 31, 30, 31, 31, 30, 31, 30, 31] ! nat (Month - 1))"

record tm =
  tm_year :: int
  tm_mon :: int
  tm_mday :: int
  tm_hour :: int
  tm_min :: int
  tm_sec :: int

text \<open>Days from the epoch to 1 January of a year, and from there to the first of a month.\<close>

definition days_before_year :: "int \<Rightarrow> int" where
  "days_before_year y = 365 * (y - 1970) + (y - 1) div 4 - (y - 1) div 100 + (y - 1) div 400 - 477"

definition days_before_month :: "int \<Rightarrow> int \<Rightarrow> int" where
  "days_before_month y m = (\<Sum>k \<leftarrow> [1..m - 1]. DaysInMonth y k)"

definition timegm :: "tm \<Rightarrow> int" where
  "timegm t = (((days_before_year (tm_year t + 1900) + days_before_month (tm_year t + 1900) (tm_mon t + 1)
      + tm_mday t - 1) * 24 + tm_hour t) * 60 + tm_min t) * 60 + tm_sec t"

definition year_of_days :: "int \<Rightarrow> int" where
  "year_of_days d =
     (let y = 1970 + (400 * d) div 146097
      in if d < days_before_year y then y - 1
         else if days_before_year (y + 1) \<le> d then y + 1 else y)"

fun month_of_yday :: "int \<Rightarrow> int list \<Rightarrow> int \<Rightarrow> int \<times> int" where
  "month_of_yday y [] d = (12, d)"
| "month_of_yday y (m # ms) d =
     (if d < DaysInMonth y m then (m, d) else month_of_yday y ms (d - DaysInMonth y m))"

definition gmtime_r :: "int \<Rightarrow> tm option" where
  "gmtime_r t =
     (let d = t div 86400; s = t mod 86400; y = year_of_days d;
          (m, k) = month_of_yday y [1..12] (d - days_before_year y)
      in if - (2 ^ 31) \<le> y - 1900 \<and> y - 1900 < 2 ^ 31
         then Some \<lparr>tm_year = y - 1900, tm_mon = m - 1, tm_mday = k + 1,
                    tm_hour = s div 3600, tm_min = s mod 3600 div 60, tm_sec = s mod 60\<rparr>
         else None)"

lemma div_pred:
  assumes "k > (1::int)"
  shows "y div k = (y - 1) div k + (if y mod k = 0 then 1 else 0)"
proof (cases "y mod k = 0")
  case True
  then have "y - 1 = k * (y div k - 1) + (k - 1)"
    using mult_div_mod_eq[of k y] by (simp add: algebra_simps)
  with assms have "(y - 1) div k = y div k - 1"
    using int_div_pos_eq[of "y - 1" k "y div k - 1" "k - 1"] by simp
  with True show ?thesis by simp
next
  case False
  have "y - 1 = k * (y div k) + (y mod k - 1)"
    using mult_div_mod_eq[of k y] by simp
  moreover have "0 \<le> y mod k" "y mod k < k"
    using assms by auto
  ultimately have "(y - 1) div k = y div k"
    using False int_div_pos_eq[of "y - 1" k "y div k" "y mod k - 1"] by simp
  with False show ?thesis by simp
qed

lemma days_before_year_Suc:
  "days_before_year (y + 1) = days_before_year y + (if IsLeapYear y then 366 else 365)"
proof -
  have dvd: "y mod 400 = 0 \<Longrightarrow> y mod 100 = 0" "y mod 100 = 0 \<Longrightarrow> y mod 4 = 0"
    using dvd_trans[of "100::int" 400 y] dvd_trans[of "4::int" 100 y]
    by (simp_all add: mod_eq_0_iff_dvd)
  have dp: "y div k - (y - 1) div k = (if y mod k = 0 then 1 else 0)" if "k > 1" for k :: int
    using div_pred[OF that, of y] by linarith
  have dp4: "y div 4 - (y - 1) div 4 = (if y mod 4 = 0 then 1 else 0)"
    and dp100: "y div 100 - (y - 1) div 100 = (if y mod 100 = 0 then 1 else 0)"
    and dp400: "y div 400 - (y - 1) div 400 = (if y mod 400 = 0 then 1 else 0)"
    by (rule dp, simp)+
  have "days_before_year (y + 1) - days_before_year y = 365 + (y div 4 - (y - 1) div 4)
      - (y div 100 - (y - 1) div 100) + (y div 400 - (y - 1) div 400)"
    by (simp add: days_before_year_def)
  also have "\<dots> = 365 + (if y mod 4 = 0 then 1 else 0) - (if y mod 100 = 0 then 1 else 0)
      + (if y mod 400 = 0 then 1 else 0)"
    unfolding dp4 dp100 dp400 ..
  also have "\<dots> = (if IsLeapYear y then 366 else 365)"
    using dvd by (simp add: IsLeapYear_def)
  finally show ?thesis by linarith
qed

lemma days_before_year_bounds:
  "146097 * y - 287811596 \<le> 400 * days_before_year y"
  "400 * days_before_year y \<le> 146097 * y - 287810501"
proof -
  define a b c where "a = (y - 1) div 4" and "b = (y - 1) div 100" and "c = (y - 1) div 400"
  have k: "4 * a \<le> y - 1" "y - 1 < 4 * a + 4" "100 * b \<le> y - 1" "y - 1 < 100 * b + 100"
    "400 * c \<le> y - 1" "y - 1 < 400 * c + 400"
    using mult_div_mod_eq[of 4 "y - 1"] mult_div_mod_eq[of 100 "y - 1"]
      mult_div_mod_eq[of 400 "y - 1"]
    by (simp_all add: a_def b_def c_def flip: minus_mod_eq_mult_div)
  have "days_before_year y = 365 * y + a - b + c - 719527"
    by (simp add: days_before_year_def a_def b_def c_def)
  with k show "146097 * y - 287811596 \<le> 400 * days_before_year y"
    and "400 * days_before_year y \<le> 146097 * y - 287810501"
    by linarith+
qed

lemma year_of_days: "days_before_year (year_of_days d) \<le> d \<and> d < days_before_year (year_of_days d + 1)"
proof -
  define q where "q = (400 * d) div 146097"
  have "400 * d = 146097 * q + (400 * d) mod 146097"
    by (simp only: q_def mult_div_mod_eq)
  moreover have "0 \<le> (400 * d) mod 146097" "(400 * d) mod 146097 < 146097"
    by simp_all
  ultimately have q: "146097 * q \<le> 400 * d" "400 * d < 146097 * q + 146097"
    by linarith+
  have "days_before_year (1969 + q) \<le> d" "d < days_before_year (1972 + q)"
    using q days_before_year_bounds[of "1969 + q"] days_before_year_bounds[of "1972 + q"]
    by (simp_all add: distrib_left)
  moreover have "year_of_days d = (if d < days_before_year (1970 + q) then 1969 + q
      else if days_before_year (1971 + q) \<le> d then 1971 + q else 1970 + q)"
    by (simp add: year_of_days_def q_def add.commute)
  ultimately show ?thesis by (auto simp: add.commute)
qed

lemma days_before_year_mono: "y \<le> z \<Longrightarrow> days_before_year y \<le> days_before_year z"
proof (induction z rule: int_ge_induct)
  case (step z)
  then show ?case by (simp add: days_before_year_Suc)
qed simp

lemma year_of_days_unique:
  assumes "days_before_year y \<le> d" "d < days_before_year (y + 1)"
  shows "year_of_days d = y"
proof (rule ccontr)
  assume "year_of_days d \<noteq> y"
  then consider "year_of_days d + 1 \<le> y" | "y + 1 \<le> year_of_days d" by linarith
  then show False
    using assms year_of_days[of d] days_before_year_mono by cases fastforce+
qed

lemma upto_1_12: "[1..12] = [1,2,3,4,5,6,7,8,9,10,11,12::int]"
  by code_simp

lemma upto_pred: "1 \<le> m \<Longrightarrow> m \<le> 12 \<Longrightarrow> [1..12] = [1..m - 1] @ m # [m + 1..12::int]"
  by (rule upto_split3)

lemma DaysInMonth_bounds: "1 \<le> m \<Longrightarrow> m \<le> 12 \<Longrightarrow> 28 \<le> DaysInMonth y m \<and> DaysInMonth y m \<le> 31"
proof -
  assume "1 \<le> m" "m \<le> 12"
  then have "m \<in> set [1..12]" by simp
  then show ?thesis
    unfolding upto_1_12 by (auto simp: DaysInMonth_def)
qed

lemma DaysInMonth_nonneg: "0 \<le> DaysInMonth y m"
  using DaysInMonth_bounds[of m y] by (cases "1 \<le> m \<and> m \<le> 12") (auto simp: DaysInMonth_def)

lemma days_of_year: "(\<Sum>m \<leftarrow> [1..12]. DaysInMonth y m) = (if IsLeapYear y then 366 else 365)"
  unfolding upto_1_12 by (simp add: DaysInMonth_def)

lemma month_of_yday_sound:
  assumes "0 \<le> d" "d < (\<Sum>m \<leftarrow> ms. DaysInMonth y m)"
  shows "\<exists>as m bs. ms = as @ m # bs \<and> month_of_yday y ms d = (m, d - (\<Sum>k \<leftarrow> as. DaysInMonth y k))
    \<and> 0 \<le> d - (\<Sum>k \<leftarrow> as. DaysInMonth y k) \<and> d - (\<Sum>k \<leftarrow> as. DaysInMonth y k) < DaysInMonth y m"
  using assms
proof (induction ms arbitrary: d)
  case (Cons a ms)
  show ?case
  proof (cases "d < DaysInMonth y a")
    case True
    with Cons.prems show ?thesis
      by (intro exI[of _ "[]"] exI[of _ a] exI[of _ ms]) simp
  next
    case False
    with Cons.prems Cons.IH[of "d - DaysInMonth y a"]
    obtain as m bs where "ms = as @ m # bs"
      "month_of_yday y ms (d - DaysInMonth y a) = (m, d - DaysInMonth y a - (\<Sum>k \<leftarrow> as. DaysInMonth y k))"
      "0 \<le> d - DaysInMonth y a - (\<Sum>k \<leftarrow> as. DaysInMonth y k)"
      "d - DaysInMonth y a - (\<Sum>k \<leftarrow> as. DaysInMonth y k) < DaysInMonth y m"
      by auto
    with False show ?thesis
      by (intro exI[of _ "a # as"] exI[of _ m] exI[of _ bs]) simp
  qed
qed simp

lemma month_of_yday_complete:
  assumes "0 \<le> k" "k < DaysInMonth y m"
  shows "month_of_yday y (as @ m # bs) ((\<Sum>a \<leftarrow> as. DaysInMonth y a) + k) = (m, k)"
proof (induction as)
  case (Cons a as)
  have "0 \<le> (\<Sum>a \<leftarrow> as. DaysInMonth y a)"
    by (rule sum_list_nonneg) (auto simp: DaysInMonth_nonneg)
  with Cons assms(1) show ?case by (simp add: algebra_simps)
qed (use assms in simp)

definition valid_tm :: "tm \<Rightarrow> bool" where
  "valid_tm t \<longleftrightarrow> 0 \<le> tm_mon t \<and> tm_mon t \<le> 11 \<and> 1 \<le> tm_mday t
     \<and> tm_mday t \<le> DaysInMonth (tm_year t + 1900) (tm_mon t + 1)
     \<and> 0 \<le> tm_hour t \<and> tm_hour t \<le> 23 \<and> 0 \<le> tm_min t \<and> tm_min t \<le> 59
     \<and> 0 \<le> tm_sec t \<and> tm_sec t \<le> 59
     \<and> - (2 ^ 31) \<le> tm_year t \<and> tm_year t < 2 ^ 31"

lemma days_before_month_bounds:
  assumes "1 \<le> m" "m \<le> 12" "0 \<le> k" "k < DaysInMonth y m"
  shows "0 \<le> days_before_month y m + k \<and>
    days_before_month y m + k < (if IsLeapYear y then 366 else 365)"
proof -
  have "(\<Sum>m \<leftarrow> [1..12]. DaysInMonth y m) =
      days_before_month y m + DaysInMonth y m + (\<Sum>j \<leftarrow> [m + 1..12]. DaysInMonth y j)"
    using assms(1,2) by (simp add: upto_pred days_before_month_def)
  moreover have "0 \<le> (\<Sum>j \<leftarrow> [m + 1..12]. DaysInMonth y j)" "0 \<le> days_before_month y m"
    unfolding days_before_month_def by (rule sum_list_nonneg; auto simp: DaysInMonth_nonneg)+
  ultimately show ?thesis
    using assms(3,4) days_of_year[of y] by simp
qed

lemma timegm_div_mod:
  assumes "valid_tm t"
  shows "timegm t div 86400 = days_before_year (tm_year t + 1900)
      + days_before_month (tm_year t + 1900) (tm_mon t + 1) + tm_mday t - 1"
    and "timegm t mod 86400 = tm_hour t * 3600 + tm_min t * 60 + tm_sec t"
proof -
  define D S where "D = days_before_year (tm_year t + 1900)
      + days_before_month (tm_year t + 1900) (tm_mon t + 1) + tm_mday t - 1"
    and "S = tm_hour t * 3600 + tm_min t * 60 + tm_sec t"
  have "timegm t = 86400 * D + S"
    by (simp add: timegm_def D_def S_def algebra_simps)
  moreover have "0 \<le> S" "S < 86400"
    using assms unfolding valid_tm_def S_def by linarith+
  ultimately show "timegm t div 86400 = D" "timegm t mod 86400 = S"
    using int_div_pos_eq[of "timegm t" 86400 D S] int_mod_pos_eq[of "timegm t" 86400 D S] by blast+
qed

lemma hms_split:
  assumes "0 \<le> n" "n \<le> 59" "0 \<le> s" "s \<le> (59::int)"
  shows "(h * 3600 + n * 60 + s) div 3600 = h" "(h * 3600 + n * 60 + s) mod 3600 div 60 = n"
    "(h * 3600 + n * 60 + s) mod 60 = s"
proof -
  have e: "h * 3600 + n * 60 + s = 3600 * h + (n * 60 + s)" "n * 60 + s = 60 * n + s"
    "h * 3600 + n * 60 + s = 60 * (h * 60 + n) + s"
    by simp_all
  have b: "0 \<le> n * 60 + s" "n * 60 + s < 3600" "s < 60"
    using assms by linarith+
  show "(h * 3600 + n * 60 + s) div 3600 = h"
    using int_div_pos_eq[OF e(1) b(1,2)] .
  show "(h * 3600 + n * 60 + s) mod 3600 div 60 = n"
    using int_div_pos_eq[OF e(2) assms(3) b(3)] int_mod_pos_eq[OF e(1) b(1,2)] by simp
  show "(h * 3600 + n * 60 + s) mod 60 = s"
    using int_mod_pos_eq[OF e(3) assms(3) b(3)] .
qed

lemma gmtime_timegm:
  assumes v: "valid_tm t"
  shows "gmtime_r (timegm t) = Some t"
proof -
  define y m k where "y = tm_year t + 1900" and "m = tm_mon t + 1" and "k = tm_mday t - 1"
  have m: "1 \<le> m" "m \<le> 12" and k: "0 \<le> k" "k < DaysInMonth y m"
    using v by (auto simp: valid_tm_def y_def m_def k_def)
  have d: "timegm t div 86400 = days_before_year y + days_before_month y m + k"
    using timegm_div_mod(1)[OF v] by (simp add: y_def m_def k_def)
  have y: "year_of_days (timegm t div 86400) = y"
    using days_before_month_bounds[OF m k]
    by (intro year_of_days_unique) (auto simp: d days_before_year_Suc)
  have e: "timegm t div 86400 - days_before_year y = days_before_month y m + k"
    using d by simp
  have mo: "month_of_yday y [1..12] (days_before_month y m + k) = (m, k)"
    using month_of_yday_complete[OF k, of "[1..m - 1]" "[m + 1..12]"]
    by (simp add: upto_pred[OF m] days_before_month_def)
  have hms: "(tm_hour t * 3600 + tm_min t * 60 + tm_sec t) div 3600 = tm_hour t"
    "(tm_hour t * 3600 + tm_min t * 60 + tm_sec t) mod 3600 div 60 = tm_min t"
    "(tm_hour t * 3600 + tm_min t * 60 + tm_sec t) mod 60 = tm_sec t"
    using v by (simp_all add: valid_tm_def hms_split)
  have "- (2 ^ 31) \<le> y - 1900 \<and> y - 1900 < 2 ^ 31"
    using v by (simp add: valid_tm_def y_def)
  then have "gmtime_r (timegm t) = Some \<lparr>tm_year = y - 1900, tm_mon = m - 1, tm_mday = k + 1,
      tm_hour = tm_hour t, tm_min = tm_min t, tm_sec = tm_sec t\<rparr>"
    unfolding gmtime_r_def Let_def y e mo timegm_div_mod(2)[OF v] hms prod.case
    by (simp only: if_True simp_thms)
  then show ?thesis
    by (simp add: y_def m_def k_def)
qed

lemma timegm_gmtime:
  assumes "gmtime_r n = Some t"
  shows "timegm t = n \<and> valid_tm t"
proof -
  define d y where "d = n div 86400" and "y = year_of_days d"
  have "0 \<le> d - days_before_year y" "d - days_before_year y < (\<Sum>m \<leftarrow> [1..12]. DaysInMonth y m)"
    using year_of_days[of d] unfolding days_of_year by (auto simp: y_def days_before_year_Suc)
  from month_of_yday_sound[OF this] obtain as m bs where
    ms: "[1..12] = as @ m # bs" and
    mo: "month_of_yday y [1..12] (d - days_before_year y)
      = (m, d - days_before_year y - (\<Sum>k \<leftarrow> as. DaysInMonth y k))"
    "0 \<le> d - days_before_year y - (\<Sum>k \<leftarrow> as. DaysInMonth y k)"
    "d - days_before_year y - (\<Sum>k \<leftarrow> as. DaysInMonth y k) < DaysInMonth y m"
    by blast
  have "m \<in> set [1..12]"
    unfolding ms by simp
  have dist: "distinct (as @ m # bs)"
    unfolding ms[symmetric] by simp
  from \<open>m \<in> set [1..12]\<close> have m: "1 \<le> m" "m \<le> 12" by auto
  have "m \<notin> set as" "m \<notin> set bs"
    using dist by auto
  moreover have "as @ m # bs = [1..m - 1] @ m # [m + 1..12]"
    using ms upto_pred[OF m] by simp
  ultimately have "as = [1..m - 1]"
    by (simp add: append_Cons_eq_iff)
  then have dbm: "(\<Sum>k \<leftarrow> as. DaysInMonth y k) = days_before_month y m"
    by (simp add: days_before_month_def)
  have s: "0 \<le> n mod 86400" "n mod 86400 < 86400" and n: "n = 86400 * d + n mod 86400"
    by (simp_all add: d_def)
  have t: "t = \<lparr>tm_year = y - 1900, tm_mon = m - 1, tm_mday = d - days_before_year y - days_before_month y m + 1,
      tm_hour = n mod 86400 div 3600, tm_min = n mod 86400 mod 3600 div 60, tm_sec = n mod 86400 mod 60\<rparr>"
    and yr: "- (2 ^ 31) \<le> y - 1900" "y - 1900 < 2 ^ 31"
    using assms mo(1) by (auto simp: gmtime_r_def d_def[symmetric] y_def[symmetric] dbm Let_def
        split: if_splits)
  define S where "S = n mod 86400"
  have S: "S = 3600 * (S div 3600) + S mod 3600" "S mod 3600 = 60 * (S mod 3600 div 60) + S mod 60"
    "0 \<le> S mod 3600" "S mod 3600 < 3600" "0 \<le> S mod 60" "S mod 60 < 60"
    using mult_div_mod_eq[of 60 "S mod 3600"] by (simp_all add: mod_mod_cancel)
  then have "0 \<le> S div 3600" "S div 3600 \<le> 23" "0 \<le> S mod 3600 div 60" "S mod 3600 div 60 \<le> 59"
    using s unfolding S_def[symmetric] by linarith+
  moreover have "1 \<le> d - days_before_year y - days_before_month y m + 1"
    "d - days_before_year y - days_before_month y m + 1 \<le> DaysInMonth y m"
    using mo(2,3) dbm by linarith+
  ultimately have "valid_tm t"
    using m S(5,6) yr unfolding t S_def[symmetric] valid_tm_def by simp
  moreover have "timegm t = 86400 * d + (3600 * (S div 3600) + 60 * (S mod 3600 div 60) + S mod 60)"
    unfolding t timegm_def S_def by simp
  then have "timegm t = n"
    using n S(1,2) unfolding S_def[symmetric] by linarith
  ultimately show ?thesis by simp
qed

subsection \<open>Parsing and formatting\<close>

definition char_int :: "char \<Rightarrow> int" where
  "char_int c = (if char_code c < 128 then int (char_code c) else int (char_code c) - 256)"

definition DigitsAt :: "string \<Rightarrow> nat \<Rightarrow> nat \<Rightarrow> bool" where
  "DigitsAt Value Offset Count \<longleftrightarrow> Offset + Count \<le> length Value \<and>
     list_all isdigit (take Count (drop Offset Value))"

definition ToInt :: "string \<Rightarrow> nat \<Rightarrow> nat \<Rightarrow> int" where
  "ToInt Value Offset Count =
     foldl (\<lambda>Parsed i. Parsed * 10 + (char_int (Value ! i) - 48)) 0 [Offset..<Offset + Count]"

definition ParseTimestampTill :: "string \<Rightarrow> u64 option" where
  "ParseTimestampTill Value =
     (if length Value \<noteq> 20 \<or> Value ! 4 \<noteq> CHR ''-'' \<or> Value ! 7 \<noteq> CHR ''-'' \<or>
         Value ! 10 \<noteq> CHR ''T'' \<or> Value ! 13 \<noteq> CHR '':'' \<or> Value ! 16 \<noteq> CHR '':'' \<or>
         Value ! 19 \<noteq> CHR ''Z'' \<or> \<not> DigitsAt Value 0 4 \<or> \<not> DigitsAt Value 5 2 \<or>
         \<not> DigitsAt Value 8 2 \<or> \<not> DigitsAt Value 11 2 \<or> \<not> DigitsAt Value 14 2 \<or>
         \<not> DigitsAt Value 17 2
      then None
      else
        let Year = ToInt Value 0 4; Month = ToInt Value 5 2; Day = ToInt Value 8 2;
            Hour = ToInt Value 11 2; Minute = ToInt Value 14 2; Second = ToInt Value 17 2
        in if Month < 1 \<or> Month > 12 \<or> Day < 1 \<or> Day > DaysInMonth Year Month \<or>
              Hour > 23 \<or> Minute > 59 \<or> Second > 59
           then None
           else
             let Tm = \<lparr>tm_year = Year - 1900, tm_mon = Month - 1, tm_mday = Day,
                       tm_hour = Hour, tm_min = Minute, tm_sec = Second\<rparr>;
                 Epoch = timegm Tm
             in if Epoch < 0 then None
                else if gmtime_r Epoch \<noteq> Some Tm then None
                else Some (of_int Epoch))"

definition ParseRFC3339Timestamp :: "string \<Rightarrow> u64 option" where
  "ParseRFC3339Timestamp Value =
     (if length Value \<noteq> 20 \<and> length Value \<noteq> 25 then None
      else if Value ! 4 \<noteq> CHR ''-'' \<or> Value ! 7 \<noteq> CHR ''-'' \<or> Value ! 10 \<noteq> CHR ''T'' \<or>
         Value ! 13 \<noteq> CHR '':'' \<or> Value ! 16 \<noteq> CHR '':'' \<or>
         \<not> DigitsAt Value 0 4 \<or> \<not> DigitsAt Value 5 2 \<or> \<not> DigitsAt Value 8 2 \<or>
         \<not> DigitsAt Value 11 2 \<or> \<not> DigitsAt Value 14 2 \<or> \<not> DigitsAt Value 17 2
      then None
      else if length Value = 20 \<and> Value ! 19 \<noteq> CHR ''Z'' then None
      else if length Value \<noteq> 20 \<and>
         ((Value ! 19 \<noteq> CHR ''+'' \<and> Value ! 19 \<noteq> CHR ''-'') \<or> Value ! 22 \<noteq> CHR '':'' \<or>
          \<not> DigitsAt Value 20 2 \<or> \<not> DigitsAt Value 23 2)
      then None
      else if length Value \<noteq> 20 \<and> (ToInt Value 20 2 > 23 \<or> ToInt Value 23 2 > 59) then None
      else
        let OffsetSeconds =
              (if length Value = 20 then 0
               else if Value ! 19 = CHR ''-''
                    then - (ToInt Value 20 2 * 3600 + ToInt Value 23 2 * 60)
                    else ToInt Value 20 2 * 3600 + ToInt Value 23 2 * 60);
            Year = ToInt Value 0 4; Month = ToInt Value 5 2; Day = ToInt Value 8 2;
            Hour = ToInt Value 11 2; Minute = ToInt Value 14 2; Second = ToInt Value 17 2
        in if Month < 1 \<or> Month > 12 \<or> Day < 1 \<or> Day > DaysInMonth Year Month \<or>
              Hour > 23 \<or> Minute > 59 \<or> Second > 59
           then None
           else
             let Tm = \<lparr>tm_year = Year - 1900, tm_mon = Month - 1, tm_mday = Day,
                       tm_hour = Hour, tm_min = Minute, tm_sec = Second\<rparr>;
                 LocalEpoch = timegm Tm
             in if LocalEpoch < 0 then None
                else let UtcEpoch = LocalEpoch - OffsetSeconds
                     in if UtcEpoch < 0 then None else Some (of_int UtcEpoch))"

definition two_digits :: "int \<Rightarrow> string" where
  "two_digits n = fixed_digits 10 digit_char 2 (nat n)"

definition year_text :: "int \<Rightarrow> string" where
  "year_text y = (if y < 0 then CHR ''-'' # dec_string (nat (- y)) else dec_string (nat y))"

text \<open>\<^verbatim>\<open>strftime(..., "%Y-%m-%dT%H:%M:%SZ", &Tm)\<close>.\<close>

definition strftime_iso :: "tm \<Rightarrow> string" where
  "strftime_iso t =
     year_text (tm_year t + 1900) @ ''-'' @ two_digits (tm_mon t + 1) @ ''-'' @ two_digits (tm_mday t)
     @ ''T'' @ two_digits (tm_hour t) @ '':'' @ two_digits (tm_min t) @ '':'' @ two_digits (tm_sec t)
     @ ''Z''"

text \<open>
  The buffer holds 21 bytes and is zeroed first: when the text does not fit, glibc has written the
  characters that did, and the terminating zero bytes end the string there.  Where \<^verbatim>\<open>gmtime_r\<close>
  reports an overflow of the year, the zeroed \<^verbatim>\<open>Tm\<close> is printed.
\<close>

definition FormatTimestamp :: "u64 \<Rightarrow> string" where
  "FormatTimestamp EpochSeconds =
     (let Tm = (case gmtime_r (sint EpochSeconds) of Some t \<Rightarrow> t
                | None \<Rightarrow> \<lparr>tm_year = 0, tm_mon = 0, tm_mday = 0, tm_hour = 0, tm_min = 0, tm_sec = 0\<rparr>);
          Text = strftime_iso Tm
      in if length Text < 21 then Text else take 20 Text)"

abbreviation YEAR_10000 :: int where
  "YEAR_10000 \<equiv> 253402300800"

lemma length20:
  assumes "length s = 20"
  shows "s = [s ! 0, s ! 1, s ! 2, s ! 3, s ! 4, s ! 5, s ! 6, s ! 7, s ! 8, s ! 9, s ! 10, s ! 11,
    s ! 12, s ! 13, s ! 14, s ! 15, s ! 16, s ! 17, s ! 18, s ! 19]"
proof -
  have "s = map ((!) s) [0..<20]"
    using assms by (metis map_nth)
  also have "[0..<20] = [0, 1, 2, 3, 4, 5, 6, 7, 8, 9, 10, 11, 12, 13, 14, 15, 16, 17, 18, 19::nat]"
    by (simp add: upt_rec)
  finally show ?thesis by simp
qed

lemma split20:
  assumes "length s = 20"
  shows "s = take 4 s @ s ! 4 # take 2 (drop 5 s) @ s ! 7 # take 2 (drop 8 s) @ s ! 10 #
    take 2 (drop 11 s) @ s ! 13 # take 2 (drop 14 s) @ s ! 16 # take 2 (drop 17 s) @ [s ! 19]"
  by (subst (1 2 4 6 8 10 12) length20[OF assms]) simp

lemma char_int_digit: "isdigit c \<Longrightarrow> char_int c - 48 = int (digit_val c)"
  by (auto simp: char_int_def isdigit_def digit_val_def)

lemma ToInt_digits:
  assumes "DigitsAt v i n"
  shows "ToInt v i n = int (num_val 10 digit_val (take n (drop i v)))"
proof -
  have len: "i + n \<le> length v" and dig: "\<forall>c \<in> set (take n (drop i v)). isdigit c"
    using assms by (auto simp: DigitsAt_def list_all_iff)
  have "ToInt v i n = foldl (\<lambda>p c. p * 10 + (char_int c - 48)) 0 (map ((!) v) [i..<i + n])"
    by (simp add: ToInt_def foldl_map)
  also have "map ((!) v) [i..<i + n] = take n (drop i v)"
    using len by (intro nth_equalityI) auto
  also have "foldl (\<lambda>p c. p * 10 + (char_int c - 48)) (int a) xs
      = int (foldl (\<lambda>acc c. acc * 10 + digit_val c) a xs)" if "\<forall>c \<in> set xs. isdigit c" for xs a
    using that
  proof (induction xs arbitrary: a)
    case (Cons c xs)
    then have "int a * 10 + (char_int c - 48) = int (a * 10 + digit_val c)"
      by (simp add: char_int_digit)
    with Cons.IH[of "a * 10 + digit_val c"] Cons.prems show ?case
      by simp
  qed simp
  from this[OF dig, of 0] have "foldl (\<lambda>p c. p * 10 + (char_int c - 48)) 0 (take n (drop i v))
      = int (num_val 10 digit_val (take n (drop i v)))"
    by (simp add: num_val_def)
  finally show ?thesis .
qed

lemma ToInt_bounds:
  assumes "DigitsAt v i n"
  shows "0 \<le> ToInt v i n" "ToInt v i n < 10 ^ n"
proof -
  have dig: "\<forall>c \<in> set (take n (drop i v)). digit_val c < 10" and "length (take n (drop i v)) = n"
    using assms by (auto simp: DigitsAt_def list_all_iff)
  with num_val_bound[OF dig] have "num_val 10 digit_val (take n (drop i v)) < 10 ^ n"
    by simp
  then show "0 \<le> ToInt v i n" "ToInt v i n < 10 ^ n"
    by (simp_all add: ToInt_digits[OF assms])
qed

lemma fixed_digits_ToInt:
  assumes "DigitsAt v i n"
  shows "fixed_digits 10 digit_char n (nat (ToInt v i n)) = take n (drop i v)"
proof -
  have "\<And>c. c \<in> set (take n (drop i v)) \<Longrightarrow> digit_val c < 10 \<and> digit_char (digit_val c) = c"
    and "length (take n (drop i v)) = n"
    using assms by (auto simp: DigitsAt_def list_all_iff)
  from fixed_digits_num_val[of "take n (drop i v)" digit_val 10 digit_char, OF this(1)] this(2)
  show ?thesis by (simp add: ToInt_digits[OF assms])
qed

lemma dec_string_4:
  assumes "1000 \<le> n" "n < 10000"
  shows "dec_string n = fixed_digits 10 digit_char 4 n"
proof -
  have "n div 10 div 10 div 10 < 10" "\<not> n < 10" "\<not> n div 10 < 10" "\<not> n div 10 div 10 < 10"
    using assms by auto
  moreover have "4 = Suc (Suc (Suc (Suc 0)))" by simp
  ultimately show ?thesis
    by (simp only: fixed_digits.simps dec_string.simps[of n] dec_string.simps[of "n div 10"]
        dec_string.simps[of "n div 10 div 10"] dec_string.simps[of "n div 10 div 10 div 10"])
      simp
qed

lemma timegm_bounds:
  assumes "valid_tm t" "0 \<le> timegm t"
  shows "70 \<le> tm_year t" and "tm_year t \<le> 8099 \<Longrightarrow> timegm t < YEAR_10000"
proof -
  define y m k where "y = tm_year t + 1900" and "m = tm_mon t + 1" and "k = tm_mday t - 1"
  have mk: "1 \<le> m" "m \<le> 12" "0 \<le> k" "k < DaysInMonth y m"
    using assms(1) by (auto simp: valid_tm_def y_def m_def k_def)
  have day: "timegm t div 86400 = days_before_year y + days_before_month y m + k"
    using timegm_div_mod(1)[OF assms(1)] by (simp add: y_def m_def k_def)
  then have less: "timegm t div 86400 < days_before_year (y + 1)"
    using days_before_month_bounds[OF mk] by (simp add: days_before_year_Suc)
  have "0 \<le> timegm t div 86400"
    using assms(2) by (simp add: pos_imp_zdiv_nonneg_iff)
  then have "\<not> y + 1 \<le> 1970"
    using less days_before_year_mono[of "y + 1" 1970] by (auto simp: days_before_year_def)
  then show "70 \<le> tm_year t" by (simp add: y_def)
  assume "tm_year t \<le> 8099"
  then have "days_before_year (y + 1) \<le> 2932897"
    using days_before_year_mono[of "y + 1" 10000] by (simp add: y_def days_before_year_def)
  with less have "timegm t div 86400 < 2932897" by linarith
  then show "timegm t < YEAR_10000"
    using mult_div_mod_eq[of 86400 "timegm t"] pos_mod_bound[of 86400 "timegm t"] by linarith
qed

lemma year_text_4: "1000 \<le> y \<Longrightarrow> y \<le> 9999 \<Longrightarrow> year_text y = fixed_digits 10 digit_char 4 (nat y)"
  by (simp add: year_text_def dec_string_4 nat_less_iff)

lemma sint_small: "0 \<le> n \<Longrightarrow> n < YEAR_10000 \<Longrightarrow> sint (of_int n :: u64) = n"
  by (simp add: sint_sbintrunc' signed_take_bit_int_eq_self)

lemma FormatTimestamp_valid:
  assumes "valid_tm t" "0 \<le> timegm t" "tm_year t \<le> 8099"
  shows "FormatTimestamp (of_int (timegm t)) =
    fixed_digits 10 digit_char 4 (nat (tm_year t + 1900)) @ ''-'' @ two_digits (tm_mon t + 1) @ ''-''
    @ two_digits (tm_mday t) @ ''T'' @ two_digits (tm_hour t) @ '':'' @ two_digits (tm_min t)
    @ '':'' @ two_digits (tm_sec t) @ ''Z''"
proof -
  have "year_text (tm_year t + 1900) = fixed_digits 10 digit_char 4 (nat (tm_year t + 1900))"
    using timegm_bounds(1)[OF assms(1,2)] assms(3) by (intro year_text_4) auto
  then show ?thesis
    using sint_small[OF assms(2) timegm_bounds(2)[OF assms(1,2,3)]] gmtime_timegm[OF assms(1)]
    by (simp add: FormatTimestamp_def strftime_iso_def two_digits_def)
qed

text \<open>The parser as its components: the fields it reads, and the date they must form.\<close>

definition fields_tm :: "string \<Rightarrow> tm" where
  "fields_tm v = \<lparr>tm_year = ToInt v 0 4 - 1900, tm_mon = ToInt v 5 2 - 1, tm_mday = ToInt v 8 2,
     tm_hour = ToInt v 11 2, tm_min = ToInt v 14 2, tm_sec = ToInt v 17 2\<rparr>"

definition iso_shape :: "string \<Rightarrow> bool" where
  "iso_shape v \<longleftrightarrow> length v = 20 \<and> v ! 4 = CHR ''-'' \<and> v ! 7 = CHR ''-'' \<and> v ! 10 = CHR ''T''
     \<and> v ! 13 = CHR '':'' \<and> v ! 16 = CHR '':'' \<and> v ! 19 = CHR ''Z''
     \<and> DigitsAt v 0 4 \<and> DigitsAt v 5 2 \<and> DigitsAt v 8 2 \<and> DigitsAt v 11 2 \<and> DigitsAt v 14 2
     \<and> DigitsAt v 17 2"

lemma fields_tm_year: "iso_shape v \<Longrightarrow> tm_year (fields_tm v) \<le> 8099"
  using ToInt_bounds(2)[of v 0 4] by (simp add: iso_shape_def fields_tm_def)

lemma ParseTimestampTill_eq:
  "ParseTimestampTill v =
     (if iso_shape v \<and> valid_tm (fields_tm v) \<and> 0 \<le> timegm (fields_tm v)
      then Some (of_int (timegm (fields_tm v))) else None)"
proof (cases "iso_shape v")
  case True
  then have D: "DigitsAt v 0 4" "DigitsAt v 5 2" "DigitsAt v 8 2" "DigitsAt v 11 2" "DigitsAt v 14 2"
    "DigitsAt v 17 2"
    by (simp_all add: iso_shape_def)
  have B: "0 \<le> ToInt v 0 4" "ToInt v 0 4 < 10000" "0 \<le> ToInt v 11 2" "0 \<le> ToInt v 14 2" "0 \<le> ToInt v 17 2"
    using ToInt_bounds[OF D(1)] ToInt_bounds[OF D(4)] ToInt_bounds[OF D(5)] ToInt_bounds[OF D(6)]
    by simp_all
  have ok: "(ToInt v 5 2 < 1 \<or> ToInt v 5 2 > 12 \<or> ToInt v 8 2 < 1 \<or>
      ToInt v 8 2 > DaysInMonth (ToInt v 0 4) (ToInt v 5 2) \<or> ToInt v 11 2 > 23 \<or> ToInt v 14 2 > 59 \<or>
      ToInt v 17 2 > 59) \<longleftrightarrow> \<not> valid_tm (fields_tm v)"
    using B by (auto simp: valid_tm_def fields_tm_def)
  from True have "ParseTimestampTill v =
    (if \<not> valid_tm (fields_tm v) then None
     else if timegm (fields_tm v) < 0 then None
     else if gmtime_r (timegm (fields_tm v)) \<noteq> Some (fields_tm v) then None
     else Some (of_int (timegm (fields_tm v))))"
    unfolding ParseTimestampTill_def iso_shape_def Let_def ok fields_tm_def[symmetric] by simp
  with True gmtime_timegm[of "fields_tm v"] show ?thesis by auto
qed (auto simp: ParseTimestampTill_def iso_shape_def)

lemma ToInt_fixed:
  assumes "v = a @ fixed_digits 10 digit_char n k @ b" "length a = i" "k < 10 ^ n"
  shows "DigitsAt v i n \<and> ToInt v i n = int k"
proof -
  have "take n (drop i v) = fixed_digits 10 digit_char n k"
    using assms(1,2) by simp
  moreover have "list_all isdigit (fixed_digits 10 digit_char n k)"
    using fixed_digits_set[of 10 _ digit_char n k] by (fastforce simp: list_all_iff)
  ultimately have D: "DigitsAt v i n"
    using assms(1,2) by (simp add: DigitsAt_def)
  have "num_val 10 digit_val (fixed_digits 10 digit_char n k) = k"
    using assms(3) by (simp add: num_val_fixed_digits)
  with D \<open>take n (drop i v) = _\<close> show ?thesis
    by (simp add: ToInt_digits)
qed

lemma iso_text_fields:
  assumes "0 \<le> y" "y \<le> 9999" "0 \<le> mo" "mo \<le> 99" "0 \<le> d" "d \<le> 99" "0 \<le> h" "h \<le> 99"
    "0 \<le> mi" "mi \<le> 99" "0 \<le> se" "se \<le> 99"
  defines "v \<equiv> fixed_digits 10 digit_char 4 (nat y) @ ''-'' @ two_digits mo @ ''-'' @ two_digits d @ ''T''
    @ two_digits h @ '':'' @ two_digits mi @ '':'' @ two_digits se @ ''Z''"
  shows "iso_shape v \<and> fields_tm v = \<lparr>tm_year = y - 1900, tm_mon = mo - 1, tm_mday = d, tm_hour = h,
    tm_min = mi, tm_sec = se\<rparr>"
proof -
  let ?Y = "fixed_digits 10 digit_char 4 (nat y)"
  have "DigitsAt v 0 4 \<and> ToInt v 0 4 = int (nat y)"
    by (rule ToInt_fixed[of v "[]"]) (use assms in \<open>simp_all add: two_digits_def nat_less_iff\<close>)
  moreover have "DigitsAt v 5 2 \<and> ToInt v 5 2 = int (nat mo)"
    by (rule ToInt_fixed[of v "?Y @ ''-''"]) (use assms in \<open>simp_all add: two_digits_def nat_less_iff\<close>)
  moreover have "DigitsAt v 8 2 \<and> ToInt v 8 2 = int (nat d)"
    by (rule ToInt_fixed[of v "?Y @ ''-'' @ two_digits mo @ ''-''"])
      (use assms in \<open>simp_all add: two_digits_def nat_less_iff\<close>)
  moreover have "DigitsAt v 11 2 \<and> ToInt v 11 2 = int (nat h)"
    by (rule ToInt_fixed[of v "?Y @ ''-'' @ two_digits mo @ ''-'' @ two_digits d @ ''T''"])
      (use assms in \<open>simp_all add: two_digits_def nat_less_iff\<close>)
  moreover have "DigitsAt v 14 2 \<and> ToInt v 14 2 = int (nat mi)"
    by (rule ToInt_fixed[of v "?Y @ ''-'' @ two_digits mo @ ''-'' @ two_digits d @ ''T'' @ two_digits h @ '':''"])
      (use assms in \<open>simp_all add: two_digits_def nat_less_iff\<close>)
  moreover have "DigitsAt v 17 2 \<and> ToInt v 17 2 = int (nat se)"
    by (rule ToInt_fixed[of v "?Y @ ''-'' @ two_digits mo @ ''-'' @ two_digits d @ ''T'' @ two_digits h
          @ '':'' @ two_digits mi @ '':''"])
      (use assms in \<open>simp_all add: two_digits_def nat_less_iff\<close>)
  moreover have "length v = 20 \<and> v ! 4 = CHR ''-'' \<and> v ! 7 = CHR ''-'' \<and> v ! 10 = CHR ''T'' \<and>
      v ! 13 = CHR '':'' \<and> v ! 16 = CHR '':'' \<and> v ! 19 = CHR ''Z''"
    by (simp add: v_def two_digits_def nth_append)
  ultimately show ?thesis
    using assms(1-12) by (simp add: iso_shape_def fields_tm_def)
qed

text \<open>Every text the strict parser accepts is reproduced by the formatter, character for character.\<close>

lemma ParseTimestampTill_spelling:
  assumes "ParseTimestampTill v = Some e"
  shows "FormatTimestamp e = v"
proof -
  from assms have sh: "iso_shape v" and val: "valid_tm (fields_tm v)" "0 \<le> timegm (fields_tm v)"
    and e: "e = of_int (timegm (fields_tm v))"
    by (auto simp: ParseTimestampTill_eq split: if_splits)
  from sh have D: "DigitsAt v 0 4" "DigitsAt v 5 2" "DigitsAt v 8 2" "DigitsAt v 11 2" "DigitsAt v 14 2"
    "DigitsAt v 17 2" and sep: "length v = 20" "v ! 4 = CHR ''-''" "v ! 7 = CHR ''-''" "v ! 10 = CHR ''T''"
    "v ! 13 = CHR '':''" "v ! 16 = CHR '':''" "v ! 19 = CHR ''Z''"
    by (simp_all add: iso_shape_def)
  have "FormatTimestamp e = take 4 v @ ''-'' @ take 2 (drop 5 v) @ ''-'' @ take 2 (drop 8 v) @ ''T''
      @ take 2 (drop 11 v) @ '':'' @ take 2 (drop 14 v) @ '':'' @ take 2 (drop 17 v) @ ''Z''"
    unfolding e FormatTimestamp_valid[OF val fields_tm_year[OF sh]]
    by (simp add: fields_tm_def two_digits_def D[THEN fixed_digits_ToInt] del: fixed_digits.simps)
  also have "\<dots> = v"
    using split20[OF sep(1)] sep(2-7) by simp
  finally show ?thesis .
qed

text \<open>Every instant before the year 10000 survives formatting and strict parsing.\<close>

lemma ParseTimestampTill_formatted:
  assumes "uint e < YEAR_10000"
  shows "ParseTimestampTill (FormatTimestamp e) = Some e"
proof -
  define n where "n = uint e"
  have n: "0 \<le> n" "n < YEAR_10000" and e: "e = of_int n"
    using assms by (simp_all add: n_def)
  have "year_of_days (n div 86400) < 10000"
  proof (rule ccontr)
    assume "\<not> ?thesis"
    then have "days_before_year 10000 \<le> days_before_year (year_of_days (n div 86400))"
      by (intro days_before_year_mono) simp
    also have "\<dots> \<le> n div 86400"
      using year_of_days by blast
    finally show False
      using n(2) by (simp add: days_before_year_def)
  qed
  moreover have "1970 \<le> year_of_days (n div 86400)"
  proof (rule ccontr)
    assume "\<not> ?thesis"
    then have "days_before_year (year_of_days (n div 86400) + 1) \<le> days_before_year 1970"
      by (intro days_before_year_mono) simp
    moreover have "0 \<le> n div 86400"
      using n(1) by (simp add: pos_imp_zdiv_nonneg_iff)
    ultimately show False
      using year_of_days[of "n div 86400"] by (simp add: days_before_year_def)
  qed
  moreover obtain m k where "month_of_yday (year_of_days (n div 86400)) [1..12]
      (n div 86400 - days_before_year (year_of_days (n div 86400))) = (m, k)"
    by fastforce
  ultimately obtain t where t: "gmtime_r n = Some t" "tm_year t \<le> 8099" "70 \<le> tm_year t"
    by (simp add: gmtime_r_def Let_def)
  from timegm_gmtime[OF t(1)] have val: "valid_tm t" "timegm t = n" by auto
  have "iso_shape (FormatTimestamp e) \<and> fields_tm (FormatTimestamp e) = t"
    using iso_text_fields[of "tm_year t + 1900" "tm_mon t + 1" "tm_mday t" "tm_hour t" "tm_min t" "tm_sec t"]
      FormatTimestamp_valid[OF val(1)] val n(1) t(2,3)
      DaysInMonth_bounds[of "tm_mon t + 1" "tm_year t + 1900"]
    by (simp add: e valid_tm_def)
  with val n(1) show ?thesis
    by (simp add: ParseTimestampTill_eq e)
qed

text \<open>
  C34: Parsing the formatted text of an instant gives the instant back, for every instant from 1970 to the end of the year 9999;
  and \<^verbatim>\<open>ParseTimestampTill\<close> accepts no other text for it, and no text for a later instant.
\<close>

theorem ParseTimestampTill_FormatTimestamp:
  "ParseTimestampTill v = Some e \<longleftrightarrow> v = FormatTimestamp e \<and> uint e < 253402300800"
proof
  assume p: "ParseTimestampTill v = Some e"
  then have sh: "iso_shape v" and val: "valid_tm (fields_tm v)" "0 \<le> timegm (fields_tm v)"
    and e: "e = of_int (timegm (fields_tm v))"
    by (auto simp: ParseTimestampTill_eq split: if_splits)
  have "timegm (fields_tm v) < YEAR_10000" by (rule timegm_bounds(2)[OF val fields_tm_year[OF sh]])
  then have "uint e < YEAR_10000" using val(2) by (simp add: e uint_word_of_int_eq take_bit_int_eq_self)
  with ParseTimestampTill_spelling[OF p] show "v = FormatTimestamp e \<and> uint e < 253402300800" by simp
qed (simp add: ParseTimestampTill_formatted)

lemma ParseTimestampTill_FormatTimestamp_witness:
  "FormatTimestamp 1709210096 = ''2024-02-29T12:34:56Z'' \<and> ParseTimestampTill (FormatTimestamp 1709210096) = Some 1709210096
   \<and> ParseTimestampTill ''2024-02-30T12:34:56Z'' = None"
proof -
  have p: "ParseTimestampTill ''2024-02-29T12:34:56Z'' = Some 1709210096" "ParseTimestampTill ''2024-02-30T12:34:56Z'' = None"
    by code_simp+
  then have "FormatTimestamp 1709210096 = ''2024-02-29T12:34:56Z''"
    using ParseTimestampTill_FormatTimestamp[of "''2024-02-29T12:34:56Z''" 1709210096] by simp
  with p show ?thesis by simp
qed

end
