(* ===== verification/McpHelpers.thy ===== *)
theory McpHelpers
  imports McpTime
begin

text \<open>
  Request validation of the MCP endpoints (\<^verbatim>\<open>RESTAPI_mcp_helpers.h\<close>): router ids, bearer tokens,
  decimal numbers, the query window, retention and the sample budget.  A C++ function that returns
  \<^verbatim>\<open>bool\<close> and fills \<^verbatim>\<open>Error &E\<close> on failure returns \<open>Inl E\<close> here, and \<open>Inr\<close> of what it writes
  otherwise.  HTTP status codes are their numbers.
\<close>

record mcp_error =
  status :: nat
  error :: string
  message :: string

record mcp_window =
  startTime :: u64
  endTime :: u64
  lookbackHours :: u64

abbreviation (input) HTTP_BAD_REQUEST :: nat where "HTTP_BAD_REQUEST \<equiv> 400"
abbreviation (input) HTTP_UNAUTHORIZED :: nat where "HTTP_UNAUTHORIZED \<equiv> 401"
abbreviation (input) HTTP_FORBIDDEN :: nat where "HTTP_FORBIDDEN \<equiv> 403"
abbreviation (input) HTTP_NOT_FOUND :: nat where "HTTP_NOT_FOUND \<equiv> 404"
abbreviation (input) HTTP_CONFLICT :: nat where "HTTP_CONFLICT \<equiv> 409"
abbreviation (input) HTTP_INTERNAL_SERVER_ERROR :: nat where "HTTP_INTERNAL_SERVER_ERROR \<equiv> 500"
abbreviation (input) HTTP_BAD_GATEWAY :: nat where "HTTP_BAD_GATEWAY \<equiv> 502"
abbreviation (input) HTTP_OK :: nat where "HTTP_OK \<equiv> 200"

definition InvalidRouterIdMessage :: string where
  "InvalidRouterIdMessage = ''routerId must be a valid path-safe OWPROV gateway serial number (1 to 64 ''
     @ ''alphanumeric characters, hyphens, or underscores)''"

definition UnauthorizedMessage :: string where
  "UnauthorizedMessage = ''Missing, invalid, or expired bearer token''"

definition DefaultMaxSamples :: u64 where "DefaultMaxSamples = 10000"
definition MinMaxSamples :: u64 where "MinMaxSamples = 1"
definition MaxMaxSamples :: u64 where "MaxMaxSamples = 100000"

definition SetError :: "nat \<Rightarrow> string \<Rightarrow> string \<Rightarrow> mcp_error" where
  "SetError Status ErrorCode Message = \<lparr>status = Status, error = ErrorCode, message = Message\<rparr>"

definition ValidateRouterId :: "string \<Rightarrow> mcp_error + unit" where
  "ValidateRouterId routerId =
     (if routerId = [] \<or> length routerId > 64
      then Inl (SetError HTTP_BAD_REQUEST ''invalid_router_id'' InvalidRouterIdMessage)
      else if list_ex (\<lambda>c. \<not> isalnum c \<and> c \<noteq> CHR ''-'' \<and> c \<noteq> CHR ''_'') routerId
      then Inl (SetError HTTP_BAD_REQUEST ''invalid_router_id'' InvalidRouterIdMessage)
      else Inr ())"

definition ExtractBearerToken :: "string option \<Rightarrow> mcp_error + string" where
  "ExtractBearerToken Authorization =
     (case Authorization of
        None \<Rightarrow> Inl (SetError HTTP_UNAUTHORIZED ''unauthorized'' UnauthorizedMessage)
      | Some a \<Rightarrow>
          (let Prefix = ''Bearer ''
           in if take (length Prefix) a \<noteq> Prefix \<or> length a = length Prefix
              then Inl (SetError HTTP_UNAUTHORIZED ''unauthorized'' UnauthorizedMessage)
              else Inr (drop (length Prefix) a)))"

definition ValidateBearerAuthorization ::
  "string option \<Rightarrow> (string \<Rightarrow> bool) \<Rightarrow> mcp_error + unit" where
  "ValidateBearerAuthorization Authorization TokenValidator =
     (case ExtractBearerToken Authorization of
        Inl e \<Rightarrow> Inl e
      | Inr Token \<Rightarrow>
          if \<not> TokenValidator Token
          then Inl (SetError HTTP_UNAUTHORIZED ''unauthorized'' UnauthorizedMessage)
          else Inr ())"

fun parse_decimal_loop :: "string \<Rightarrow> u64 \<Rightarrow> u64 option" where
  "parse_decimal_loop [] Parsed = Some Parsed"
| "parse_decimal_loop (c # cs) Parsed =
     (if \<not> isdigit c then None
      else let Digit = of_nat (digit_val c)
           in if Parsed > (U64_MAX - Digit) div 10 then None
              else parse_decimal_loop cs (Parsed * 10 + Digit))"

definition ParseDecimalUint64 :: "string \<Rightarrow> u64 option" where
  "ParseDecimalUint64 Value = (if Value = [] then None else parse_decimal_loop Value 0)"

definition TimestampInHalfOpenWindow :: "u64 \<Rightarrow> mcp_window \<Rightarrow> bool" where
  "TimestampInHalfOpenWindow Timestamp Requested \<longleftrightarrow>
     Timestamp \<ge> startTime Requested \<and> Timestamp < endTime Requested"

text \<open>The loop of \<^verbatim>\<open>ValidateWindowQuery\<close> over the parameters: the two counts and last values.\<close>

fun scan_params :: "(string \<times> string) list \<Rightarrow> nat \<times> string \<times> nat \<times> string
    \<Rightarrow> mcp_error + nat \<times> string \<times> nat \<times> string" where
  "scan_params [] acc = Inr acc"
| "scan_params ((Name, Value) # ps) (TimestampCount, TimestampValue, LookbackCount, LookbackValue) =
     (if Name \<notin> set [''timestampTill'', ''lookbackHours'']
      then Inl (SetError HTTP_BAD_REQUEST ''invalid_query_parameter''
                  (''Unsupported query parameter: '' @ Name))
      else if Name = ''timestampTill''
      then scan_params ps (Suc TimestampCount, Value, LookbackCount, LookbackValue)
      else scan_params ps (TimestampCount, TimestampValue, Suc LookbackCount, Value))"

definition ValidateWindowQuery ::
  "(string \<times> string) list \<Rightarrow> u64 \<Rightarrow> u64 \<Rightarrow> mcp_error + mcp_window" where
  "ValidateWindowQuery Params Now ClockSkewSeconds =
     (case scan_params Params (0, [], 0, []) of
        Inl e \<Rightarrow> Inl e
      | Inr (TimestampCount, TimestampValue, LookbackCount, LookbackValue) \<Rightarrow>
        if TimestampCount \<noteq> 1
        then Inl (SetError HTTP_BAD_REQUEST ''invalid_timestamp''
                    ''timestampTill must be present exactly once'')
        else case ParseTimestampTill TimestampValue of
          None \<Rightarrow> Inl (SetError HTTP_BAD_REQUEST ''invalid_timestamp''
                    (''timestampTill must be a valid UTC timestamp in YYYY-MM-DDTHH:mm:ssZ '' @ ''format''))
        | Some end_ \<Rightarrow>
          if end_ > Now \<and> end_ - Now > ClockSkewSeconds
          then Inl (SetError HTTP_BAD_REQUEST ''invalid_timestamp''
                      ''timestampTill is beyond the server clock skew tolerance'')
          else if LookbackCount \<noteq> 1
          then Inl (SetError HTTP_BAD_REQUEST ''invalid_lookback_hours''
                      ''lookbackHours must be present exactly once'')
          else case (case ParseDecimalUint64 LookbackValue of None \<Rightarrow> None
                     | Some h \<Rightarrow> if h = 0 then None else Some h) of
            None \<Rightarrow> Inl (SetError HTTP_BAD_REQUEST ''invalid_lookback_hours''
                      ''lookbackHours must be a positive whole number'')
          | Some hours \<Rightarrow>
            if hours > 87600
            then Inl (SetError HTTP_BAD_REQUEST ''invalid_lookback_hours''
                        ''lookbackHours exceeds maximum API limit of 87600 hours'')
            else let LookbackSeconds = hours * 3600
              in if LookbackSeconds > end_
                 then Inl (SetError HTTP_BAD_REQUEST ''invalid_lookback_hours''
                             ''lookbackHours places the requested start before the Unix epoch'')
                 else Inr \<lparr>startTime = end_ - LookbackSeconds, endTime = end_, lookbackHours = hours\<rparr>)"

definition ValidateRetention ::
  "mcp_window \<Rightarrow> u64 \<Rightarrow> u64 \<Rightarrow> u64 \<Rightarrow> mcp_error + unit" where
  "ValidateRetention Requested RetentionSeconds Now ClockSkewSeconds =
     (let MaxLookbackHours = RetentionSeconds div 3600
      in if MaxLookbackHours = 0 \<or> lookbackHours Requested > MaxLookbackHours
         then Inl (SetError HTTP_BAD_REQUEST ''invalid_lookback_hours''
                     ''lookbackHours exceeds configured maximum lookback'')
         else
           let RequestEndLimit = (if U64_MAX - Now \<ge> ClockSkewSeconds then Now + ClockSkewSeconds
                                  else U64_MAX);
               RetentionStart = (if Now > RetentionSeconds then Now - RetentionSeconds else 0)
           in if startTime Requested < RetentionStart \<or> endTime Requested > RequestEndLimit
              then Inl (SetError HTTP_BAD_REQUEST ''lookback_outside_retention''
                          ''Requested range is outside the configured monitoring retention window'')
              else Inr ())"

definition EstimateExpectedSampleCount :: "mcp_window \<Rightarrow> u64 \<Rightarrow> u64" where
  "EstimateExpectedSampleCount Requested IntervalSeconds =
     (let EffectiveInterval = (if IntervalSeconds > 0 then IntervalSeconds else 60);
          WindowDuration = (if endTime Requested > startTime Requested
                            then endTime Requested - startTime Requested else 0)
      in if WindowDuration > 0
         then WindowDuration div EffectiveInterval
              + (if WindowDuration mod EffectiveInterval \<noteq> 0 then 1 else 0)
         else 0)"

definition ValidateExpectedSampleCount :: "mcp_window \<Rightarrow> u64 \<Rightarrow> u64 \<Rightarrow> mcp_error + unit" where
  "ValidateExpectedSampleCount Requested IntervalSeconds MaxAllowedSamples =
     (if MaxAllowedSamples = 0 then Inr ()
      else if EstimateExpectedSampleCount Requested IntervalSeconds > MaxAllowedSamples
      then Inl (SetError HTTP_BAD_REQUEST ''exceeds_max_samples''
                  ''Requested query window exceeds maximum allowed telemetry sample count'')
      else Inr ())"

definition ValidateConfiguredMaxSamples :: "u64 \<Rightarrow> mcp_error + u64" where
  "ValidateConfiguredMaxSamples ConfiguredMaxSamples =
     (if ConfiguredMaxSamples < MinMaxSamples \<or> ConfiguredMaxSamples > MaxMaxSamples
      then Inl (SetError HTTP_INTERNAL_SERVER_ERROR ''invalid_configuration''
                  ''mcp.max_samples must be between 1 and 100000'')
      else Inr ConfiguredMaxSamples)"

definition SaturatingAdd :: "u64 \<Rightarrow> u64 \<Rightarrow> u64" where
  "SaturatingAdd L R = (if U64_MAX - L < R then U64_MAX else L + R)"

subsection \<open>Saturating addition and decimal numbers\<close>

lemma unat_max_minus: "unat (U64_MAX - x) = 2 ^ 64 - 1 - unat x"
  by (simp add: unat_sub unat_U64_MAX)

lemma unat_SaturatingAdd: "unat (SaturatingAdd a b) = min (2 ^ 64 - 1) (unat a + unat b)"
proof (cases "U64_MAX - a < b")
  case True
  then have "2 ^ 64 - 1 - unat a < unat b"
    by (simp add: word_less_nat_alt unat_max_minus)
  then show ?thesis
    using True by (simp add: SaturatingAdd_def unat_U64_MAX)
next
  case False
  then have "unat b \<le> 2 ^ 64 - 1 - unat a"
    by (simp add: word_less_nat_alt unat_max_minus)
  then have "unat a + unat b \<le> 2 ^ 64 - 1"
    using unat_u64_less[of a] by linarith
  moreover from this have "unat (a + b) = unat a + unat b"
    by (simp add: unat_plus_u64)
  ultimately show ?thesis
    using False by (simp add: SaturatingAdd_def)
qed

lemma parse_decimal_step:
  assumes "d < 10"
  shows "Parsed > (U64_MAX - of_nat d) div 10 \<longleftrightarrow> 2 ^ 64 \<le> unat Parsed * 10 + d"
    and "unat Parsed * 10 + d < 2 ^ 64 \<Longrightarrow> unat (Parsed * 10 + of_nat d :: u64) = unat Parsed * 10 + d"
proof -
  have d: "unat (of_nat d :: u64) = d"
    using assms by (simp add: unat_of_nat)
  have "Parsed > (U64_MAX - of_nat d) div 10 \<longleftrightarrow> (2 ^ 64 - 1 - d) div 10 < unat Parsed"
    by (simp add: word_less_nat_alt unat_div_distrib unat_max_minus d)
  also have "\<dots> \<longleftrightarrow> 2 ^ 64 - 1 - d < unat Parsed * 10"
    by (simp add: div_less_iff_less_mult)
  also have "\<dots> \<longleftrightarrow> 2 ^ 64 \<le> unat Parsed * 10 + d"
    using assms by auto
  finally show "Parsed > (U64_MAX - of_nat d) div 10 \<longleftrightarrow> 2 ^ 64 \<le> unat Parsed * 10 + d" .
  assume "unat Parsed * 10 + d < 2 ^ 64"
  then show "unat (Parsed * 10 + of_nat d :: u64) = unat Parsed * 10 + d"
    using d by (simp add: unat_plus_u64 unat_times_u64)
qed

lemma num_val_foldl_mono: "a \<le> foldl (\<lambda>acc c. acc * 10 + digit_val c) a s"
proof (induction s arbitrary: a)
  case (Cons c s)
  have "a \<le> a * 10 + digit_val c" by simp
  also have "\<dots> \<le> foldl (\<lambda>acc c. acc * 10 + digit_val c) (a * 10 + digit_val c) s"
    by (rule Cons.IH)
  finally show ?case by simp
qed simp

lemma parse_decimal_loop_eq:
  "parse_decimal_loop s a =
     (let n = foldl (\<lambda>acc c. acc * 10 + digit_val c) (unat a) s
      in if list_all isdigit s \<and> n < 2 ^ 64 then Some (of_nat n) else None)"
proof (induction s arbitrary: a)
  case Nil
  then show ?case using unat_u64_less[of a] by (simp add: Let_def)
next
  case (Cons c s)
  show ?case
  proof (cases "isdigit c")
    case True
    then have d: "digit_val c < 10" by simp
    show ?thesis
    proof (cases "2 ^ 64 \<le> unat a * 10 + digit_val c")
      case True
      with num_val_foldl_mono[of "unat a * 10 + digit_val c" s]
      have "\<not> foldl (\<lambda>acc c. acc * 10 + digit_val c) (unat a * 10 + digit_val c) s < 2 ^ 64"
        by linarith
      with True \<open>isdigit c\<close> show ?thesis
        using parse_decimal_step(1)[OF d, of a] by (simp add: Let_def)
    next
      case False
      with \<open>isdigit c\<close> show ?thesis
        using parse_decimal_step(1)[OF d, of a] parse_decimal_step(2)[OF d, of a] Cons.IH
        by (simp add: Let_def)
    qed
  qed simp
qed

text \<open>
  \<^verbatim>\<open>ParseDecimalUint64\<close> accepts exactly the non-empty digit strings whose value fits in 64 bits,
  and then returns that value; the overflow test before each multiplication never misses or
  over-rejects.
\<close>

theorem ParseDecimalUint64_exact:
  "ParseDecimalUint64 s =
     (if s \<noteq> [] \<and> list_all isdigit s \<and> num_val 10 digit_val s < 2 ^ 64
      then Some (of_nat (num_val 10 digit_val s)) else None)"
  by (simp add: ParseDecimalUint64_def parse_decimal_loop_eq num_val_def Let_def)

lemma ParseDecimalUint64_dec_string: "ParseDecimalUint64 (dec_string (unat n)) = Some n"
  using dec_string_digits unat_u64_less[of n]
  by (auto simp: ParseDecimalUint64_def parse_decimal_loop_eq Let_def list_all_iff
      num_val_dec_string[unfolded num_val_def])

subsection \<open>Router ids and bearer tokens\<close>

text \<open>
  a router id passes exactly when it has 1 to 64 characters, each alphanumeric, a hyphen or an
  underscore; every rejection is a 400 \<^verbatim>\<open>invalid_router_id\<close>.
\<close>

theorem ValidateRouterId_iff:
  "(ValidateRouterId r = Inr () \<longleftrightarrow> 1 \<le> length r \<and> length r \<le> 64 \<and>
      list_all (\<lambda>c. isalnum c \<or> c = CHR ''-'' \<or> c = CHR ''_'') r) \<and>
   (\<forall>e. ValidateRouterId r = Inl e \<longrightarrow> status e = HTTP_BAD_REQUEST \<and> error e = ''invalid_router_id'')"
  by (auto simp: ValidateRouterId_def SetError_def list_all_iff list_ex_iff Suc_le_eq split: if_splits)

theorem ValidateRouterId_iff_witness:
  "ValidateRouterId ''a/b'' = Inl (SetError HTTP_BAD_REQUEST ''invalid_router_id'' InvalidRouterIdMessage) \<and>
   status (SetError HTTP_BAD_REQUEST ''invalid_router_id'' InvalidRouterIdMessage) = HTTP_BAD_REQUEST"
proof -
  have "ValidateRouterId ''a/b'' = Inl (SetError HTTP_BAD_REQUEST ''invalid_router_id'' InvalidRouterIdMessage)"
    by (simp add: ValidateRouterId_def ctype_simps)
  then show ?thesis
    using ValidateRouterId_iff[of "''a/b''"] by simp
qed

lemma prefix_rest:
  "take (length p) a \<noteq> p \<or> length a = length p \<longleftrightarrow> (\<nexists>t. t \<noteq> [] \<and> a = p @ t)"
proof -
  have "take (length p) a = p \<longleftrightarrow> (\<exists>t. a = p @ t)"
    by (metis append_take_drop_id append_eq_conv_conj)
  then show ?thesis by auto
qed

text \<open>
  the token handed to the validator is exactly what follows the \<^verbatim>\<open>Bearer\<close> prefix, it is never
  empty, and the request is authorised exactly when such a token exists and the validator accepts it;
  every other header is answered 401.
\<close>

theorem ValidateBearerAuthorization_iff:
  "ValidateBearerAuthorization h V =
     (if \<exists>t. t \<noteq> [] \<and> h = Some (''Bearer '' @ t) \<and> V t then Inr ()
      else Inl (SetError HTTP_UNAUTHORIZED ''unauthorized'' UnauthorizedMessage))"
proof (cases h)
  case None
  then show ?thesis by (simp add: ValidateBearerAuthorization_def ExtractBearerToken_def)
next
  case (Some a)
  define p where "p = ''Bearer ''"
  note defs = ValidateBearerAuthorization_def ExtractBearerToken_def Some Let_def p_def[symmetric]
  show ?thesis
  proof (cases "\<exists>t. t \<noteq> [] \<and> a = p @ t")
    case True
    then show ?thesis by (auto simp: defs)
  next
    case False
    with prefix_rest[of p a] have "take (length p) a \<noteq> p \<or> length a = length p" by blast
    with False show ?thesis by (auto simp: defs)
  qed
qed

subsection \<open>The query window\<close>

lemma scan_params_spec:
  "scan_params ps (tc, tv, lc, lv) = Inr (tc', tv', lc', lv') \<longleftrightarrow>
     (\<forall>p \<in> set ps. fst p \<in> {''timestampTill'', ''lookbackHours''}) \<and>
     tc' = tc + length (filter (\<lambda>p. fst p = ''timestampTill'') ps) \<and>
     lc' = lc + length (filter (\<lambda>p. fst p = ''lookbackHours'') ps) \<and>
     tv' = last (tv # map snd (filter (\<lambda>p. fst p = ''timestampTill'') ps)) \<and>
     lv' = last (lv # map snd (filter (\<lambda>p. fst p = ''lookbackHours'') ps))"
proof (induction ps arbitrary: tc tv lc lv)
  case (Cons p ps)
  obtain n v where p: "p = (n, v)" by (cases p)
  consider "n = ''timestampTill''" | "n = ''lookbackHours''" | "n \<notin> {''timestampTill'', ''lookbackHours''}"
    by blast
  then show ?case
  proof cases
    case 3
    then show ?thesis by (simp add: p)
  qed (simp_all only: p, auto simp: Cons.IH)
qed auto

lemma two_params:
  assumes "\<forall>p \<in> set ps. fst p \<in> {a, b}" "a \<noteq> b"
    and "filter (\<lambda>p. fst p = a) ps = [p]" "filter (\<lambda>p. fst p = b) ps = [q]"
  shows "ps = [p, q] \<or> ps = [q, p]"
proof -
  have neq: "filter (\<lambda>p. \<not> fst p = a) ps = filter (\<lambda>p. fst p = b) ps"
    using assms(1,2) by (intro filter_cong) auto
  have "length ps = 2"
    using sum_length_filter_compl[of "\<lambda>p. fst p = a" ps] assms(3,4) by (simp add: neq)
  then obtain x y where "ps = [x, y]"
    by (auto simp: numeral_2_eq_2 length_Suc_conv)
  with assms show ?thesis by (auto split: if_splits)
qed

lemma scan_params_once:
  "scan_params ps (0, [], 0, []) = Inr (1, t, 1, l) \<longleftrightarrow>
     ps = [(''timestampTill'', t), (''lookbackHours'', l)] \<or>
     ps = [(''lookbackHours'', l), (''timestampTill'', t)]"
proof
  assume "scan_params ps (0, [], 0, []) = Inr (1, t, 1, l)"
  then have names: "\<forall>p \<in> set ps. fst p \<in> {''timestampTill'', ''lookbackHours''}"
    and len: "length (filter (\<lambda>p. fst p = ''timestampTill'') ps) = 1"
             "length (filter (\<lambda>p. fst p = ''lookbackHours'') ps) = 1"
    and vals: "t = last ([] # map snd (filter (\<lambda>p. fst p = ''timestampTill'') ps))"
              "l = last ([] # map snd (filter (\<lambda>p. fst p = ''lookbackHours'') ps))"
    unfolding scan_params_spec by auto
  from len obtain p q where pq: "filter (\<lambda>p. fst p = ''timestampTill'') ps = [p]"
      "filter (\<lambda>p. fst p = ''lookbackHours'') ps = [q]"
    unfolding One_nat_def length_Suc_conv by auto
  have "fst p = ''timestampTill''" "fst q = ''lookbackHours''"
    using filter_eq_ConsD[OF pq(1)] filter_eq_ConsD[OF pq(2)] by auto
  moreover have "t = snd p" "l = snd q"
    using vals pq by simp_all
  ultimately have "p = (''timestampTill'', t)" "q = (''lookbackHours'', l)"
    by (auto simp: prod_eq_iff)
  moreover have "ps = [p, q] \<or> ps = [q, p]"
    by (rule two_params[OF names _ pq]) simp
  ultimately show "ps = [(''timestampTill'', t), (''lookbackHours'', l)] \<or>
     ps = [(''lookbackHours'', l), (''timestampTill'', t)]" by simp
qed (auto simp: scan_params_spec)

lemma skew_test:
  "(e > Now \<and> e - Now > skew) \<longleftrightarrow> unat Now + unat skew < unat (e :: u64)"
  by (auto simp: word_less_nat_alt unat_sub word_le_nat_alt)

lemma unat_hours_seconds: "unat h \<le> 87600 \<Longrightarrow> unat (h * 3600 :: u64) = unat h * 3600"
  by (simp add: unat_times_u64)

text \<open>The part of \<^verbatim>\<open>ValidateWindowQuery\<close> after the parameters are collected, in natural numbers.\<close>

definition window_of :: "u64 \<Rightarrow> u64 \<Rightarrow> string \<Rightarrow> string \<Rightarrow> mcp_window \<Rightarrow> bool" where
  "window_of Now skew t l w \<longleftrightarrow>
     ParseTimestampTill t = Some (endTime w) \<and> ParseDecimalUint64 l = Some (lookbackHours w) \<and>
     unat (endTime w) \<le> unat Now + unat skew \<and>
     1 \<le> unat (lookbackHours w) \<and> unat (lookbackHours w) \<le> 87600 \<and>
     unat (startTime w) + unat (lookbackHours w) * 3600 = unat (endTime w)"

lemma start_of_lookback:
  assumes "unat h \<le> 87600"
  shows "\<not> h * 3600 > (e :: u64) \<and> s = e - h * 3600 \<longleftrightarrow> unat s + unat h * 3600 = unat e"
proof
  assume *: "\<not> h * 3600 > e \<and> s = e - h * 3600"
  then have "unat s = unat e - unat h * 3600" "unat h * 3600 \<le> unat e"
    using assms by (auto simp: unat_sub word_le_nat_alt unat_hours_seconds not_less)
  then show "unat s + unat h * 3600 = unat e" by simp
next
  assume *: "unat s + unat h * 3600 = unat e"
  then have "\<not> h * 3600 > e"
    using assms by (simp add: word_less_nat_alt unat_hours_seconds)
  moreover from this * have "s = e - h * 3600"
    using assms by (simp add: word_unat_eq_iff unat_sub not_less unat_hours_seconds)
  ultimately show "\<not> h * 3600 > e \<and> s = e - h * 3600" by simp
qed

lemma ValidateWindowQuery_window_of:
  assumes "scan_params ps (0, [], 0, []) = Inr (1, t, 1, l)"
  shows "ValidateWindowQuery ps Now skew = Inr w \<longleftrightarrow> window_of Now skew t l w"
proof (cases "ParseTimestampTill t")
  case (Some e)
  show ?thesis
  proof (cases "ParseDecimalUint64 l")
    case (Some h)
    show ?thesis
    proof (cases "h = 0 \<or> unat h > 87600")
      case True
      then show ?thesis
        using assms Some \<open>ParseTimestampTill t = Some e\<close>
        by (auto simp: ValidateWindowQuery_def window_of_def word_less_nat_alt)
    next
      case False
      then have "1 \<le> unat h" "unat h \<le> 87600" "\<not> h > 87600"
        by (auto simp: unat_gt_0 Suc_le_eq word_less_nat_alt)
      moreover have "w = \<lparr>startTime = e - h * 3600, endTime = e, lookbackHours = h\<rparr> \<longleftrightarrow>
          startTime w = e - h * 3600 \<and> endTime w = e \<and> lookbackHours w = h"
        by (cases w) auto
      ultimately show ?thesis
        using assms Some \<open>ParseTimestampTill t = Some e\<close> False
          start_of_lookback[of h e "startTime w"]
        by (auto simp: ValidateWindowQuery_def window_of_def skew_test Let_def)
    qed
  qed (use assms Some in \<open>auto simp: ValidateWindowQuery_def window_of_def\<close>)
qed (use assms in \<open>simp add: ValidateWindowQuery_def window_of_def\<close>)

text \<open>
  a query is turned into a window exactly when it has the two parameters \<^verbatim>\<open>timestampTill\<close> and
  \<^verbatim>\<open>lookbackHours\<close>, once each and in either order, both parse, the end is at most the clock skew
  ahead of the server clock, and 1 to 87600 hours of lookback stay after the epoch.  The window then
  ends at the given timestamp and is exactly the lookback long: none of the 64-bit computations wraps.
\<close>

theorem ValidateWindowQuery_iff:
  "ValidateWindowQuery ps Now skew = Inr w \<longleftrightarrow>
     (\<exists>t l. (ps = [(''timestampTill'', t), (''lookbackHours'', l)] \<or>
             ps = [(''lookbackHours'', l), (''timestampTill'', t)]) \<and>
        ParseTimestampTill t = Some (endTime w) \<and> ParseDecimalUint64 l = Some (lookbackHours w) \<and>
        unat (endTime w) \<le> unat Now + unat skew \<and>
        1 \<le> unat (lookbackHours w) \<and> unat (lookbackHours w) \<le> 87600 \<and>
        unat (startTime w) + unat (lookbackHours w) * 3600 = unat (endTime w))"
proof
  assume ok: "ValidateWindowQuery ps Now skew = Inr w"
  then obtain tc t lc l where scan: "scan_params ps (0, [], 0, []) = Inr (tc, t, lc, l)"
    by (auto simp: ValidateWindowQuery_def split: sum.splits)
  with ok have once: "scan_params ps (0, [], 0, []) = Inr (1, t, 1, l)"
    by (auto simp: ValidateWindowQuery_def split: if_splits option.splits)
  with ok ValidateWindowQuery_window_of have "window_of Now skew t l w" by blast
  with once show "\<exists>t l. (ps = [(''timestampTill'', t), (''lookbackHours'', l)] \<or>
             ps = [(''lookbackHours'', l), (''timestampTill'', t)]) \<and>
        ParseTimestampTill t = Some (endTime w) \<and> ParseDecimalUint64 l = Some (lookbackHours w) \<and>
        unat (endTime w) \<le> unat Now + unat skew \<and>
        1 \<le> unat (lookbackHours w) \<and> unat (lookbackHours w) \<le> 87600 \<and>
        unat (startTime w) + unat (lookbackHours w) * 3600 = unat (endTime w)"
    unfolding scan_params_once window_of_def by blast
next
  assume "\<exists>t l. (ps = [(''timestampTill'', t), (''lookbackHours'', l)] \<or>
             ps = [(''lookbackHours'', l), (''timestampTill'', t)]) \<and>
        ParseTimestampTill t = Some (endTime w) \<and> ParseDecimalUint64 l = Some (lookbackHours w) \<and>
        unat (endTime w) \<le> unat Now + unat skew \<and>
        1 \<le> unat (lookbackHours w) \<and> unat (lookbackHours w) \<le> 87600 \<and>
        unat (startTime w) + unat (lookbackHours w) * 3600 = unat (endTime w)"
  then obtain t l where "scan_params ps (0, [], 0, []) = Inr (1, t, 1, l)" "window_of Now skew t l w"
    unfolding scan_params_once window_of_def by blast
  then show "ValidateWindowQuery ps Now skew = Inr w"
    using ValidateWindowQuery_window_of by blast
qed

subsection \<open>Retention and sample budget\<close>

text \<open>
  a window passes the retention check exactly when its lookback fits in the whole hours of the
  retention period (at least one), it starts no earlier than the retention period before now (or
  the epoch) and it ends no later than the tolerated clock skew after now, in exact arithmetic:
  the saturations of the code never change the answer.
\<close>

theorem ValidateRetention_iff:
  "ValidateRetention w ret Now skew = Inr () \<longleftrightarrow>
     3600 \<le> unat ret \<and> unat (lookbackHours w) * 3600 \<le> unat ret \<and>
     unat Now \<le> unat (startTime w) + unat ret \<and>
     unat (endTime w) \<le> unat Now + unat skew"
proof -
  have hours: "ret div 3600 = 0 \<longleftrightarrow> \<not> 3600 \<le> unat ret"
    by (auto simp: word_unat_eq_iff unat_div_distrib div_eq_0_iff not_le)
  have lb: "lookbackHours w > ret div 3600 \<longleftrightarrow> \<not> unat (lookbackHours w) * 3600 \<le> unat ret"
    by (simp add: word_less_nat_alt unat_div_distrib div_less_iff_less_mult not_le)
  have start: "startTime w < (if Now > ret then Now - ret else 0) \<longleftrightarrow>
      \<not> unat Now \<le> unat (startTime w) + unat ret"
    by (auto simp: word_less_nat_alt unat_sub word_le_nat_alt)
  have limit: "unat (if U64_MAX - Now \<ge> skew then Now + skew else U64_MAX) =
      min (2 ^ 64 - 1) (unat Now + unat skew)"
    using unat_SaturatingAdd[of Now skew] by (simp add: SaturatingAdd_def linorder_not_le[symmetric] split: if_splits)
  have "unat (endTime w) \<le> 2 ^ 64 - 1"
    using unat_u64_less[of "endTime w"] by simp
  then have end_limit: "endTime w > (if U64_MAX - Now \<ge> skew then Now + skew else U64_MAX) \<longleftrightarrow>
      \<not> unat (endTime w) \<le> unat Now + unat skew"
    unfolding word_less_nat_alt limit by linarith
  show ?thesis
    unfolding ValidateRetention_def Let_def hours lb start end_limit by auto
qed

lemma ceil_div_le_iff:
  fixes d i b :: nat
  assumes "0 < i"
  shows "d div i + (if d mod i \<noteq> 0 then 1 else 0) \<le> b \<longleftrightarrow> d \<le> b * i"
proof -
  define q r where "q = d div i" and "r = d mod i"
  have d: "d = q * i + r" "r < i"
    using assms by (simp_all add: q_def r_def)
  show ?thesis
  proof (cases "r = 0")
    case True
    then show ?thesis using assms unfolding q_def[symmetric] r_def[symmetric] using d(1) by simp
  next
    case False
    have "q + 1 \<le> b \<longleftrightarrow> q * i + r \<le> b * i"
    proof
      assume "q + 1 \<le> b"
      then have "(q + 1) * i \<le> b * i" by (rule mult_le_mono1)
      with d(2) show "q * i + r \<le> b * i" by simp
    next
      assume "q * i + r \<le> b * i"
      with False have "q * i < b * i" by linarith
      then show "q + 1 \<le> b" by simp
    qed
    with False show ?thesis unfolding q_def[symmetric] r_def[symmetric] using d(1) by simp
  qed
qed

text \<open>
  the sample estimate is the exact number of intervals (60 seconds when none is configured) that
  start inside the window, that is the duration over the interval rounded up, and a window is
  rejected exactly when a non-zero budget is below it.
\<close>

theorem ValidateExpectedSampleCount_iff:
  "ValidateExpectedSampleCount w interval budget = Inr () \<longleftrightarrow>
     budget = 0 \<or>
     unat (endTime w) \<le> unat (startTime w) + unat budget * unat (if interval = 0 then 60 else interval)"
proof -
  define i where "i = (if interval > 0 then interval else (60 :: u64))"
  have i: "i = (if interval = 0 then 60 else interval)" "0 < unat i"
    by (auto simp: i_def unat_gt_0 word_gt_0)
  define d where "d = (if endTime w > startTime w then endTime w - startTime w else 0)"
  have d: "unat d = unat (endTime w) - unat (startTime w)"
    by (auto simp: d_def word_less_nat_alt unat_sub word_le_nat_alt)
  have est: "EstimateExpectedSampleCount w interval = d div i + (if d mod i \<noteq> 0 then 1 else 0)"
    by (auto simp: EstimateExpectedSampleCount_def Let_def i_def d_def word_gt_0)
  have "unat d div unat i + 1 < 2 ^ 64 \<or> unat i = 1"
  proof (cases "unat i = 1")
    case False
    with i(2) have "2 \<le> unat i" by simp
    then have "unat d div unat i \<le> unat d div 2" by (rule div_le_mono2[rotated]) simp
    then have "unat d div unat i + 1 < 2 ^ 64"
      using unat_u64_less[of d] by simp
    then show ?thesis ..
  qed simp
  then have "unat (EstimateExpectedSampleCount w interval) =
      unat d div unat i + (if unat d mod unat i \<noteq> 0 then 1 else 0)"
    unfolding est using unat_u64_less[of d] by (auto simp: unat_plus_u64 unat_div_distrib unat_mod_distrib word_unat_eq_iff)
  also have "\<dots> \<le> unat budget \<longleftrightarrow> unat d \<le> unat budget * unat i"
    using ceil_div_le_iff[OF i(2)] .
  also have "\<dots> \<longleftrightarrow> unat (endTime w) \<le> unat (startTime w) + unat budget * unat i"
    using d by linarith
  finally show ?thesis
    by (auto simp: ValidateExpectedSampleCount_def word_less_nat_alt not_less i(1)[symmetric])
qed

end
