(* ===== verification/PocoJson.thy ===== *)
theory PocoJson
  imports Json AnalyticsObjects McpHelpers
begin

text \<open>
  \<^verbatim>\<open>src/src/framework/RESTAPI_utils.h\<close>: reading and writing the members of a JSON object.  \<^verbatim>\<open>Poco::JSON\<close> and
  \<^verbatim>\<open>Poco::Dynamic::Var\<close> are not part of the sources: they are the fields of the record \<open>poco\<close>, over a type \<open>'o\<close> of
  objects and a type \<open>'v\<close> of values, and what the round trips rely on is the predicate \<open>poco_ok\<close>.
\<close>

text \<open>
  \<open>p_array\<close> are the elements a loop over \<^verbatim>\<open>getArray(key)\<close> visits; \<open>v_string\<close> is \<^verbatim>\<open>toString()\<close>, \<open>v_u64\<close> and
  the others are the conversions, which may throw; \<open>v_object\<close> and \<open>v_array\<close> are \<^verbatim>\<open>extract<T>()\<close>; the \<open>mk\<close>
  functions build a value, \<open>mk_null\<close> the empty one.  \<open>p_parse\<close> is \<^verbatim>\<open>Parser::parse\<close>, \<open>p_condense\<close>
  and \<open>p_condense_array\<close> are \<^verbatim>\<open>Stringifier::condense\<close>, \<open>p_stringify\<close> is \<^verbatim>\<open>Stringifier::stringify\<close>.
\<close>

record ('o, 'v) poco =
  p_new :: 'o
  p_set :: "string \<Rightarrow> 'v \<Rightarrow> 'o \<Rightarrow> 'o"
  p_has :: "'o \<Rightarrow> string \<Rightarrow> bool"
  p_isNull :: "'o \<Rightarrow> string \<Rightarrow> bool"
  p_isArray :: "'o \<Rightarrow> string \<Rightarrow> bool"
  p_isObject :: "'o \<Rightarrow> string \<Rightarrow> bool"
  p_get :: "'o \<Rightarrow> string \<Rightarrow> 'v"
  p_array :: "'o \<Rightarrow> string \<Rightarrow> 'v list"
  p_object :: "'o \<Rightarrow> string \<Rightarrow> 'o"
  v_string :: "'v \<Rightarrow> string cpp"
  v_u64 :: "'v \<Rightarrow> u64 cpp"
  v_u32 :: "'v \<Rightarrow> u32 cpp"
  v_u16 :: "'v \<Rightarrow> u16 cpp"
  v_i64 :: "'v \<Rightarrow> int cpp"
  v_double :: "'v \<Rightarrow> fp cpp"
  v_isNumeric :: "'v \<Rightarrow> bool"
  v_isBoolean :: "'v \<Rightarrow> bool"
  v_object :: "'v \<Rightarrow> 'o cpp"
  v_array :: "'v \<Rightarrow> 'v list cpp"
  mk_null :: 'v
  mk_bool :: "bool \<Rightarrow> 'v"
  mk_double :: "fp \<Rightarrow> 'v"
  mk_string :: "string \<Rightarrow> 'v"
  mk_i64 :: "int \<Rightarrow> 'v"
  mk_u16 :: "u16 \<Rightarrow> 'v"
  mk_u32 :: "u32 \<Rightarrow> 'v"
  mk_u64 :: "u64 \<Rightarrow> 'v"
  mk_array :: "'v list \<Rightarrow> 'v"
  mk_object :: "'o \<Rightarrow> 'v"
  p_parse :: "string \<Rightarrow> 'v cpp"
  p_condense :: "'o \<Rightarrow> string"
  p_condense_array :: "'v list \<Rightarrow> string"
  p_stringify :: "'o \<Rightarrow> string"

section \<open>Writing members\<close>

definition set_all :: "('o, 'v) poco \<Rightarrow> (string \<times> 'v) list \<Rightarrow> 'o \<Rightarrow> 'o" where
  "set_all J = fold (\<lambda>(field, V). p_set J field V)"

text \<open>\<^verbatim>\<open>field_to_json\<close> of a vector of strings, of tags, of structs and of a struct.\<close>

definition strings_to_json :: "('o, 'v) poco \<Rightarrow> string list \<Rightarrow> 'v" where
  "strings_to_json J V = mk_array J (map (mk_string J) V)"

definition tags_to_json :: "('o, 'v) poco \<Rightarrow> u64 list \<Rightarrow> 'v" where
  "tags_to_json J V = mk_array J (map (mk_u64 J) V)"

definition objects_to_json :: "('o, 'v) poco \<Rightarrow> ('a \<Rightarrow> 'o \<Rightarrow> 'o) \<Rightarrow> 'a list \<Rightarrow> 'v" where
  "objects_to_json J to Value = mk_array J (map (\<lambda>i. mk_object J (to i (p_new J))) Value)"

definition object_to_json :: "('o, 'v) poco \<Rightarrow> ('a \<Rightarrow> 'o \<Rightarrow> 'o) \<Rightarrow> 'a \<Rightarrow> 'v" where
  "object_to_json J to Value = mk_object J (to Value (p_new J))"

section \<open>Reading members\<close>

definition present :: "('o, 'v) poco \<Rightarrow> 'o \<Rightarrow> string \<Rightarrow> bool" where
  "present J Obj field \<longleftrightarrow> p_has J Obj field \<and> \<not> p_isNull J Obj field"

definition field_from_json ::
  "('o, 'v) poco \<Rightarrow> ('v \<Rightarrow> 'a cpp) \<Rightarrow> 'o \<Rightarrow> string \<Rightarrow> (('a \<Rightarrow> 'a) \<Rightarrow> 's \<Rightarrow> 's) \<Rightarrow> 's act" where
  "field_from_json J conv Obj field upd =
     guarded (present J Obj field)
       (with_val (conv (p_get J Obj field)) (\<lambda>V. assign (upd (\<lambda>_. V))))"

definition bool_of :: "('o, 'v) poco \<Rightarrow> 'v \<Rightarrow> bool cpp" where
  "bool_of J v = bind (v_string J v) (\<lambda>s. Inr (s = ''true''))"

text \<open>Vectors of scalars are cleared first; vectors of structs are appended to.\<close>

definition list_from_json ::
  "('o, 'v) poco \<Rightarrow> ('v \<Rightarrow> 'a cpp) \<Rightarrow> 'o \<Rightarrow> string \<Rightarrow> (('a list \<Rightarrow> 'a list) \<Rightarrow> 's \<Rightarrow> 's) \<Rightarrow> 's act" where
  "list_from_json J conv Obj field upd =
     guarded (p_isArray J Obj field \<and> \<not> p_isNull J Obj field)
       (runs [assign (upd (\<lambda>_. [])),
              each (\<lambda>i. with_val (conv i) (\<lambda>x. assign (upd (\<lambda>Value. Value @ [x])))) (p_array J Obj field)])"

text \<open>\<^verbatim>\<open>from_json\<close> of a struct catches every exception and answers whether there was none; what was read
  before stays.\<close>

type_synonym ('o, 'a) reader = "'o \<Rightarrow> 'a \<Rightarrow> 'a \<times> bool"

definition try_all :: "'a act list \<Rightarrow> 'a \<Rightarrow> 'a \<times> bool" where
  "try_all steps x = (case runs steps x of (x', e) \<Rightarrow> (x', e = None))"

definition objects_from_json ::
  "('o, 'v) poco \<Rightarrow> ('o, 'a) reader \<Rightarrow> 'a \<Rightarrow> 'o \<Rightarrow> string \<Rightarrow> (('a list \<Rightarrow> 'a list) \<Rightarrow> 's \<Rightarrow> 's) \<Rightarrow> 's act" where
  "objects_from_json J from_json NewItem Obj field upd =
     guarded (p_isArray J Obj field \<and> \<not> p_isNull J Obj field)
       (each (\<lambda>i. with_val (v_object J i)
                (\<lambda>InnerObj. assign (upd (\<lambda>Value. Value @ [fst (from_json InnerObj NewItem)]))))
          (p_array J Obj field))"

definition object_from_json ::
  "('o, 'v) poco \<Rightarrow> ('o, 'a) reader \<Rightarrow> 'o \<Rightarrow> string \<Rightarrow> (('a \<Rightarrow> 'a) \<Rightarrow> 's \<Rightarrow> 's) \<Rightarrow> 's act" where
  "object_from_json J from_json Obj field upd =
     guarded (p_isObject J Obj field \<and> \<not> p_isNull J Obj field)
       (assign (upd (\<lambda>Value. fst (from_json (p_object J Obj field) Value))))"

text \<open>The two optional readers of \<^verbatim>\<open>RESTAPI_AnalyticsObjects.cpp\<close>.  The first may throw on a value that has no
  text.\<close>

definition OptionalUint64FromJson :: "('o, 'v) poco \<Rightarrow> 'o \<Rightarrow> string \<Rightarrow> u64 option cpp" where
  "OptionalUint64FromJson J Obj field =
     (if \<not> present J Obj field then Inr None
      else bind (v_string J (p_get J Obj field)) (\<lambda>Value.
             Inr (if Value = [] then None else parse_decimal_loop Value 0)))"

definition OptionalDoubleFromJson :: "('o, 'v) poco \<Rightarrow> 'o \<Rightarrow> string \<Rightarrow> fp option" where
  "OptionalDoubleFromJson J Obj field =
     (if \<not> present J Obj field then None
      else if \<not> v_isNumeric J (p_get J Obj field) \<or> v_isBoolean J (p_get J Obj field) then None
      else case v_double J (p_get J Obj field) of Inl _ \<Rightarrow> None | Inr d \<Rightarrow> Some d)"

section \<open>Texts of objects and arrays\<close>

definition to_string_object :: "('o, 'v) poco \<Rightarrow> ('a \<Rightarrow> 'o \<Rightarrow> 'o) \<Rightarrow> 'a \<Rightarrow> string" where
  "to_string_object J to Object = p_condense J (to Object (p_new J))"

definition to_string_array :: "('o, 'v) poco \<Rightarrow> ('a \<Rightarrow> 'o \<Rightarrow> 'o) \<Rightarrow> 'a list \<Rightarrow> string" where
  "to_string_array J to ObjectArray =
     (if ObjectArray = [] then ''[]''
      else p_condense_array J (map (\<lambda>i. mk_object J (to i (p_new J))) ObjectArray))"

text \<open>\<^verbatim>\<open>to_object\<close> lets the exceptions of the parser through, \<^verbatim>\<open>to_object_array\<close> keeps what it has read.\<close>

definition to_object :: "('o, 'v) poco \<Rightarrow> ('o, 'a) reader \<Rightarrow> 'a \<Rightarrow> string \<Rightarrow> 'a cpp" where
  "to_object J from_json Result ObjectString =
     (if ObjectString = [] then Inr Result
      else bind (p_parse J ObjectString) (\<lambda>v. bind (v_object J v) (\<lambda>Object. Inr (fst (from_json Object Result)))))"

definition to_object_array :: "('o, 'v) poco \<Rightarrow> ('o, 'a) reader \<Rightarrow> 'a \<Rightarrow> string \<Rightarrow> 'a list" where
  "to_object_array J from_json Obj ObjectString =
     (if ObjectString = [] then []
      else case bind (p_parse J ObjectString) (v_array J) of
             Inl _ \<Rightarrow> []
           | Inr Object \<Rightarrow>
               fst (each (\<lambda>i. with_val (v_object J i)
                      (\<lambda>InnerObject. assign (\<lambda>Result. Result @ [fst (from_json InnerObject Obj)]))) Object []))"

section \<open>What the round trips rely on\<close>

definition poco_ok :: "('o, 'v) poco \<Rightarrow> bool" where
  "poco_ok J \<longleftrightarrow>
     (\<forall>k. \<not> p_has J (p_new J) k \<and> \<not> p_isArray J (p_new J) k \<and> \<not> p_isObject J (p_new J) k)
     \<and> (\<forall>o' k v k'. p_has J (p_set J k v o') k' = (k' = k \<or> p_has J o' k'))
     \<and> (\<forall>o' k v k'. p_get J (p_set J k v o') k' = (if k' = k then v else p_get J o' k'))
     \<and> (\<forall>o' k v k'. k' \<noteq> k \<longrightarrow> p_isNull J (p_set J k v o') k' = p_isNull J o' k'
          \<and> p_isArray J (p_set J k v o') k' = p_isArray J o' k'
          \<and> p_isObject J (p_set J k v o') k' = p_isObject J o' k'
          \<and> p_array J (p_set J k v o') k' = p_array J o' k'
          \<and> p_object J (p_set J k v o') k' = p_object J o' k')
     \<and> (\<forall>o' k. p_isNull J (p_set J k (mk_null J) o') k)
     \<and> (\<forall>o' k b. \<not> p_isNull J (p_set J k (mk_bool J b) o') k)
     \<and> (\<forall>o' k d. \<not> p_isNull J (p_set J k (mk_double J d) o') k)
     \<and> (\<forall>o' k s. \<not> p_isNull J (p_set J k (mk_string J s) o') k)
     \<and> (\<forall>o' k i. \<not> p_isNull J (p_set J k (mk_i64 J i) o') k)
     \<and> (\<forall>o' k i. \<not> p_isNull J (p_set J k (mk_u16 J i) o') k)
     \<and> (\<forall>o' k i. \<not> p_isNull J (p_set J k (mk_u32 J i) o') k)
     \<and> (\<forall>o' k i. \<not> p_isNull J (p_set J k (mk_u64 J i) o') k)
     \<and> (\<forall>o' k vs. \<not> p_isNull J (p_set J k (mk_array J vs) o') k \<and> p_isArray J (p_set J k (mk_array J vs) o') k
          \<and> p_array J (p_set J k (mk_array J vs) o') k = vs)
     \<and> (\<forall>o' k x. \<not> p_isNull J (p_set J k (mk_object J x) o') k \<and> p_isObject J (p_set J k (mk_object J x) o') k
          \<and> p_object J (p_set J k (mk_object J x) o') k = x)
     \<and> (\<forall>s. v_string J (mk_string J s) = Inr s)
     \<and> (\<forall>b. v_string J (mk_bool J b) = Inr (if b then ''true'' else ''false''))
     \<and> (\<forall>n. v_string J (mk_u64 J n) = Inr (dec_string (unat n)))
     \<and> (\<forall>n. v_u64 J (mk_u64 J n) = Inr n) \<and> (\<forall>n. v_u32 J (mk_u32 J n) = Inr n)
     \<and> (\<forall>n. v_u16 J (mk_u16 J n) = Inr n) \<and> (\<forall>i. v_i64 J (mk_i64 J i) = Inr i)
     \<and> (\<forall>d. v_double J (mk_double J d) = Inr d \<and> v_isNumeric J (mk_double J d) \<and> \<not> v_isBoolean J (mk_double J d))
     \<and> (\<forall>x. v_object J (mk_object J x) = Inr x) \<and> (\<forall>vs. v_array J (mk_array J vs) = Inr vs)"

named_theorems poco_laws

lemma poco_ok_laws [poco_laws]:
  assumes "poco_ok J"
  shows "\<not> p_has J (p_new J) k" "\<not> p_isArray J (p_new J) k" "\<not> p_isObject J (p_new J) k"
    "p_has J (p_set J k v o') k' = (k' = k \<or> p_has J o' k')"
    "p_get J (p_set J k v o') k' = (if k' = k then v else p_get J o' k')"
    "k' \<noteq> k \<Longrightarrow> p_isNull J (p_set J k v o') k' = p_isNull J o' k'"
    "k' \<noteq> k \<Longrightarrow> p_isArray J (p_set J k v o') k' = p_isArray J o' k'"
    "k' \<noteq> k \<Longrightarrow> p_isObject J (p_set J k v o') k' = p_isObject J o' k'"
    "k' \<noteq> k \<Longrightarrow> p_array J (p_set J k v o') k' = p_array J o' k'"
    "k' \<noteq> k \<Longrightarrow> p_object J (p_set J k v o') k' = p_object J o' k'"
    "p_isNull J (p_set J k (mk_null J) o') k"
    "\<not> p_isNull J (p_set J k (mk_bool J b) o') k" "\<not> p_isNull J (p_set J k (mk_double J d) o') k"
    "\<not> p_isNull J (p_set J k (mk_string J s) o') k" "\<not> p_isNull J (p_set J k (mk_i64 J i) o') k"
    "\<not> p_isNull J (p_set J k (mk_u16 J n16) o') k" "\<not> p_isNull J (p_set J k (mk_u32 J n32) o') k"
    "\<not> p_isNull J (p_set J k (mk_u64 J n) o') k"
    "\<not> p_isNull J (p_set J k (mk_array J vs) o') k" "p_isArray J (p_set J k (mk_array J vs) o') k"
    "p_array J (p_set J k (mk_array J vs) o') k = vs"
    "\<not> p_isNull J (p_set J k (mk_object J x) o') k" "p_isObject J (p_set J k (mk_object J x) o') k"
    "p_object J (p_set J k (mk_object J x) o') k = x"
    "v_string J (mk_string J s) = Inr s" "v_string J (mk_bool J b) = Inr (if b then ''true'' else ''false'')"
    "v_string J (mk_u64 J n) = Inr (dec_string (unat n))"
    "v_u64 J (mk_u64 J n) = Inr n" "v_u32 J (mk_u32 J n32) = Inr n32" "v_u16 J (mk_u16 J n16) = Inr n16"
    "v_i64 J (mk_i64 J i) = Inr i" "v_double J (mk_double J d) = Inr d"
    "v_isNumeric J (mk_double J d)" "\<not> v_isBoolean J (mk_double J d)"
    "v_object J (mk_object J x) = Inr x" "v_array J (mk_array J vs) = Inr vs"
  using assms unfolding poco_ok_def by simp_all

section \<open>Objects written member by member\<close>

lemma set_all_simps [simp]:
  "set_all J [] o' = o'" "set_all J ((k, v) # kvs) o' = set_all J kvs (p_set J k v o')"
  by (simp_all add: set_all_def)

lemma set_all_append: "set_all J (xs @ ys) o' = set_all J ys (set_all J xs o')"
  by (simp add: set_all_def)

text \<open>Member \<open>k\<close> of the object reads as if \<open>v\<close> had just been set.\<close>

definition stored :: "('o, 'v) poco \<Rightarrow> 'o \<Rightarrow> string \<Rightarrow> 'v \<Rightarrow> bool" where
  "stored J ob k v \<longleftrightarrow> p_has J ob k \<and> p_get J ob k = v
     \<and> (\<exists>ob1. p_isNull J ob k = p_isNull J (p_set J k v ob1) k
          \<and> p_isArray J ob k = p_isArray J (p_set J k v ob1) k \<and> p_array J ob k = p_array J (p_set J k v ob1) k
          \<and> p_isObject J ob k = p_isObject J (p_set J k v ob1) k \<and> p_object J ob k = p_object J (p_set J k v ob1) k)"

lemma stored_set: "poco_ok J \<Longrightarrow> stored J (p_set J k v ob) k v"
  by (auto simp: stored_def poco_laws)

lemma stored_other: "poco_ok J \<Longrightarrow> stored J ob k v \<Longrightarrow> k \<noteq> k' \<Longrightarrow> stored J (p_set J k' v' ob) k v"
  by (auto simp: stored_def poco_laws)

lemma stored_set_all_other: "poco_ok J \<Longrightarrow> stored J ob k v \<Longrightarrow> k \<notin> fst ` set kvs \<Longrightarrow> stored J (set_all J kvs ob) k v"
proof (induction kvs arbitrary: ob)
  case (Cons p kvs)
  obtain k' v' where "p = (k', v')" by fastforce
  with Cons show ?case by (auto intro!: Cons.IH stored_other)
qed simp

text \<open>A key that is written twice is written with one value.\<close>

definition consistent :: "(string \<times> 'v) list \<Rightarrow> bool" where
  "consistent kvs \<longleftrightarrow> (\<forall>k v v'. (k, v) \<in> set kvs \<longrightarrow> (k, v') \<in> set kvs \<longrightarrow> v = v')"

lemma distinct_consistent: "distinct (map fst kvs) \<Longrightarrow> consistent kvs"
  by (auto simp: consistent_def dest: eq_key_imp_eq_value)

lemma consistent_again:
  assumes "(k, v) \<in> set xs" "distinct (map fst (xs @ ys))"
  shows "consistent (xs @ (k, v) # ys)"
proof -
  have "set (xs @ (k, v) # ys) = set (xs @ ys)" using assms(1) by auto
  with distinct_consistent[OF assms(2)] show ?thesis by (simp add: consistent_def)
qed

lemma stored_set_all:
  assumes "poco_ok J" "consistent kvs" "(k, v) \<in> set kvs"
  shows "stored J (set_all J kvs ob) k v"
  using assms(2,3)
proof (induction kvs arbitrary: ob)
  case (Cons p kvs)
  obtain k' v' where p: "p = (k', v')" by fastforce
  have c: "consistent kvs" using Cons.prems(1) by (auto simp: consistent_def)
  show ?case
  proof (cases "k \<in> fst ` set kvs")
    case True
    then obtain w where w: "(k, w) \<in> set kvs" by auto
    have "w = v" using Cons.prems w unfolding consistent_def by (metis list.set_intros(2))
    with w Cons.IH[OF c] p show ?thesis by simp
  next
    case False
    then have "(k', v') = (k, v)" using Cons.prems(2) p by force
    with False p show ?thesis by (simp add: stored_set_all_other stored_set assms(1))
  qed
qed simp

lemma stored_members:
  "poco_ok J \<Longrightarrow> distinct (map fst kvs) \<Longrightarrow> list_all (\<lambda>(k, v). stored J (set_all J kvs ob) k v) kvs"
  by (auto simp: list_all_iff intro: stored_set_all distinct_consistent)

lemma absent_set_all:
  assumes "poco_ok J" "k \<notin> fst ` set kvs"
  shows "\<not> p_has J (set_all J kvs (p_new J)) k" "\<not> p_isArray J (set_all J kvs (p_new J)) k"
    "\<not> p_isObject J (set_all J kvs (p_new J)) k"
proof -
  have "p_has J (set_all J kvs ob) k = p_has J ob k \<and> p_isArray J (set_all J kvs ob) k = p_isArray J ob k
      \<and> p_isObject J (set_all J kvs ob) k = p_isObject J ob k" for ob
    using assms(2)
  proof (induction kvs arbitrary: ob)
    case (Cons p kvs)
    obtain k' v' where "p = (k', v')" by fastforce
    with Cons assms(1) show ?case by (auto simp: poco_laws)
  qed simp
  with assms(1) show "\<not> p_has J (set_all J kvs (p_new J)) k" "\<not> p_isArray J (set_all J kvs (p_new J)) k"
    "\<not> p_isObject J (set_all J kvs (p_new J)) k"
    by (simp_all add: poco_laws)
qed

section \<open>Reading what was written\<close>

named_theorems json_reads

lemma stored_readable:
  assumes "stored J ob k v" "poco_ok J"
    and "v \<in> range (mk_u64 J) \<union> range (mk_u32 J) \<union> range (mk_u16 J) \<union> range (mk_i64 J) \<union> range (mk_string J)
      \<union> range (mk_bool J) \<union> range (mk_double J) \<union> range (mk_array J) \<union> range (mk_object J)"
  shows "p_has J ob k" "\<not> p_isNull J ob k" "p_get J ob k = v"
  using assms by (auto simp: stored_def poco_laws)

lemma read_scalar [json_reads]:
  assumes "poco_ok J"
  shows "stored J ob k (mk_u64 J n) \<Longrightarrow> field_from_json J (v_u64 J) ob k upd s = (upd (\<lambda>_. n) s, None)"
    "stored J ob k (mk_u32 J n32) \<Longrightarrow> field_from_json J (v_u32 J) ob k upd32 s = (upd32 (\<lambda>_. n32) s, None)"
    "stored J ob k (mk_u16 J n16) \<Longrightarrow> field_from_json J (v_u16 J) ob k upd16 s = (upd16 (\<lambda>_. n16) s, None)"
    "stored J ob k (mk_i64 J i) \<Longrightarrow> field_from_json J (v_i64 J) ob k updi s = (updi (\<lambda>_. i) s, None)"
    "stored J ob k (mk_string J t) \<Longrightarrow> field_from_json J (v_string J) ob k updt s = (updt (\<lambda>_. t) s, None)"
    "stored J ob k (mk_bool J b) \<Longrightarrow> field_from_json J (bool_of J) ob k updb s = (updb (\<lambda>_. b) s, None)"
    "stored J ob k (mk_double J d) \<Longrightarrow> field_from_json J (v_double J) ob k updd s = (updd (\<lambda>_. d) s, None)"
  using assms
  by (auto simp: field_from_json_def present_def bool_of_def bind_def stored_readable poco_laws dest: stored_readable)

lemma read_optional [json_reads]:
  assumes "poco_ok J"
  shows "stored J ob k (mk_u64 J n) \<Longrightarrow> OptionalUint64FromJson J ob k = Inr (Some n)"
    "\<not> p_has J ob k \<Longrightarrow> OptionalUint64FromJson J ob k = Inr None"
    "stored J ob k (case v of Some d \<Rightarrow> mk_double J d | None \<Rightarrow> mk_null J) \<Longrightarrow> OptionalDoubleFromJson J ob k = v"
proof -
  assume st: "stored J ob k (mk_u64 J n)"
  have "ParseDecimalUint64 (dec_string (unat n)) = Some n" by (rule ParseDecimalUint64_dec_string)
  then show "OptionalUint64FromJson J ob k = Inr (Some n)"
    using stored_readable[OF st assms] assms
    by (simp add: OptionalUint64FromJson_def present_def poco_laws bind_def ParseDecimalUint64_def)
next
  assume "\<not> p_has J ob k"
  then show "OptionalUint64FromJson J ob k = Inr None" by (simp add: OptionalUint64FromJson_def present_def)
next
  assume "stored J ob k (case v of Some d \<Rightarrow> mk_double J d | None \<Rightarrow> mk_null J)"
  then show "OptionalDoubleFromJson J ob k = v"
    using assms by (cases v) (auto simp: OptionalDoubleFromJson_def present_def stored_def poco_laws)
qed

lemma each_append:
  assumes "\<And>f g s. upd f (upd g s) = upd (\<lambda>l. f (g l)) s" "\<And>s. upd (\<lambda>l. l) s = s"
    and "\<And>x. x \<in> set xs \<Longrightarrow> conv (g x) = Inr (h x)"
  shows "each (\<lambda>i. with_val (conv i) (\<lambda>x. assign (upd (\<lambda>Value. Value @ [x])))) (map g xs) s
      = (upd (\<lambda>Value. Value @ map h xs) s, None)"
  using assms(3)
proof (induction xs arbitrary: s)
  case Nil
  then show ?case by (simp add: each_def assms(2))
next
  case (Cons x xs)
  then show ?case by (simp add: each_def assms(1))
qed

lemma read_list [json_reads]:
  assumes "poco_ok J" "\<And>f g s. upd f (upd g s) = upd (\<lambda>l. f (g l)) s" "\<And>s. upd (\<lambda>l. l) s = s"
  shows "stored J ob k (tags_to_json J ns) \<Longrightarrow> list_from_json J (v_u64 J) ob k upd s = (upd (\<lambda>_. ns) s, None)"
proof -
  assume st: "stored J ob k (tags_to_json J ns)"
  then have "p_isArray J ob k" "\<not> p_isNull J ob k" "p_array J ob k = map (mk_u64 J) ns"
    using assms(1) by (auto simp: stored_def tags_to_json_def poco_laws)
  then show ?thesis
    using each_append[where upd = upd and conv = "v_u64 J" and g = "mk_u64 J" and h = "\<lambda>x. x" and xs = ns, OF assms(2,3)]
    by (simp add: list_from_json_def poco_laws assms(1,2))
qed

lemma read_strings [json_reads]:
  assumes "poco_ok J" "\<And>f g s. upd f (upd g s) = upd (\<lambda>l. f (g l)) s" "\<And>s. upd (\<lambda>l. l) s = s"
  shows "stored J ob k (strings_to_json J ns) \<Longrightarrow> list_from_json J (v_string J) ob k upd s = (upd (\<lambda>_. ns) s, None)"
proof -
  assume st: "stored J ob k (strings_to_json J ns)"
  then have "p_isArray J ob k" "\<not> p_isNull J ob k" "p_array J ob k = map (mk_string J) ns"
    using assms(1) by (auto simp: stored_def strings_to_json_def poco_laws)
  then show ?thesis
    using each_append[where upd = upd and conv = "v_string J" and g = "mk_string J" and h = "\<lambda>x. x" and xs = ns, OF assms(2,3)]
    by (simp add: list_from_json_def poco_laws assms(1,2))
qed

lemma read_objects:
  assumes "poco_ok J" "\<And>f g s. upd f (upd g s) = upd (\<lambda>l. f (g l)) s" "\<And>s. upd (\<lambda>l. l) s = s"
    and "\<And>x. x \<in> set xs \<Longrightarrow> fst (from_json (to x (p_new J)) NewItem) = h x"
  shows "stored J ob k (objects_to_json J to xs) \<Longrightarrow>
    objects_from_json J from_json NewItem ob k upd s = (upd (\<lambda>l. l @ map h xs) s, None)"
proof -
  assume st: "stored J ob k (objects_to_json J to xs)"
  then have "p_isArray J ob k" "\<not> p_isNull J ob k" "p_array J ob k = map (\<lambda>i. mk_object J (to i (p_new J))) xs"
    using assms(1) by (auto simp: stored_def objects_to_json_def poco_laws)
  moreover have "with_val (v_object J i) (\<lambda>InnerObj. assign (upd (\<lambda>Value. Value @ [fst (from_json InnerObj NewItem)])))
      = with_val (bind (v_object J i) (\<lambda>ob. Inr (fst (from_json ob NewItem)))) (\<lambda>x. assign (upd (\<lambda>Value. Value @ [x])))" for i
    by (cases "v_object J i") (simp_all add: fun_eq_iff bind_def)
  ultimately show ?thesis
    using each_append[where upd = upd and conv = "\<lambda>i. bind (v_object J i) (\<lambda>ob. Inr (fst (from_json ob NewItem)))"
        and g = "\<lambda>i. mk_object J (to i (p_new J))" and h = h and xs = xs, OF assms(2,3)] assms(1,4)
    by (simp add: objects_from_json_def poco_laws bind_def)
qed

lemma read_object:
  assumes "poco_ok J" "\<And>y. fst (from_json (to x (p_new J)) y) = h y"
  shows "stored J ob k (object_to_json J to x) \<Longrightarrow>
    object_from_json J from_json ob k upd s = (upd h s, None)"
  using assms(1) by (auto simp: stored_def object_to_json_def object_from_json_def poco_laws assms(2) cong: if_cong)

section \<open>A library that keeps its laws\<close>

text \<open>Values as trees, objects as association lists: the laws can be met.  One text is that of a report of memory, any other that
  of an empty object.\<close>

datatype tree = TNull | TBool bool | TDouble fp | TString string | TI64 int | TU16 u16 | TU32 u32 | TU64 u64
  | TArray "tree list" | TObject "(string \<times> tree) list"

definition tree_lib :: "((string \<times> tree) list, tree) poco" where
  "tree_lib = \<lparr> p_new = [], p_set = (\<lambda>k v ob. (k, v) # ob), p_has = (\<lambda>ob k. map_of ob k \<noteq> None),
     p_isNull = (\<lambda>ob k. map_of ob k = Some TNull),
     p_isArray = (\<lambda>ob k. case map_of ob k of Some (TArray _) \<Rightarrow> True | _ \<Rightarrow> False),
     p_isObject = (\<lambda>ob k. case map_of ob k of Some (TObject _) \<Rightarrow> True | _ \<Rightarrow> False),
     p_get = (\<lambda>ob k. case map_of ob k of Some v \<Rightarrow> v | None \<Rightarrow> TNull),
     p_array = (\<lambda>ob k. case map_of ob k of Some (TArray vs) \<Rightarrow> vs | _ \<Rightarrow> []),
     p_object = (\<lambda>ob k. case map_of ob k of Some (TObject x) \<Rightarrow> x | _ \<Rightarrow> []),
     v_string = (\<lambda>v. case v of TString s \<Rightarrow> Inr s | TBool b \<Rightarrow> Inr (if b then ''true'' else ''false'')
        | TU64 n \<Rightarrow> Inr (dec_string (unat n)) | _ \<Rightarrow> Inl Type_error),
     v_u64 = (\<lambda>v. case v of TU64 n \<Rightarrow> Inr n | _ \<Rightarrow> Inl Type_error),
     v_u32 = (\<lambda>v. case v of TU32 n \<Rightarrow> Inr n | _ \<Rightarrow> Inl Type_error),
     v_u16 = (\<lambda>v. case v of TU16 n \<Rightarrow> Inr n | _ \<Rightarrow> Inl Type_error),
     v_i64 = (\<lambda>v. case v of TI64 n \<Rightarrow> Inr n | _ \<Rightarrow> Inl Type_error),
     v_double = (\<lambda>v. case v of TDouble d \<Rightarrow> Inr d | _ \<Rightarrow> Inl Type_error),
     v_isNumeric = (\<lambda>v. case v of TDouble _ \<Rightarrow> True | TU64 _ \<Rightarrow> True | _ \<Rightarrow> False),
     v_isBoolean = (\<lambda>v. case v of TBool _ \<Rightarrow> True | _ \<Rightarrow> False),
     v_object = (\<lambda>v. case v of TObject x \<Rightarrow> Inr x | _ \<Rightarrow> Inl Type_error),
     v_array = (\<lambda>v. case v of TArray x \<Rightarrow> Inr x | _ \<Rightarrow> Inl Type_error),
     mk_null = TNull, mk_bool = TBool, mk_double = TDouble, mk_string = TString, mk_i64 = TI64, mk_u16 = TU16,
     mk_u32 = TU32, mk_u64 = TU64, mk_array = TArray, mk_object = TObject,
     p_parse = (\<lambda>s. Inr (TObject (if s = ''M'' then [(''memory_free'', TU64 512)] else []))), p_condense = (\<lambda>_. ''{}''), p_condense_array = (\<lambda>_. ''[]''),
     p_stringify = (\<lambda>_. ''{}'') \<rparr>"

lemma tree_lib_ok: "poco_ok tree_lib"
  by (simp add: poco_ok_def tree_lib_def)

end
