(* ===== verification/ObjectsJson.thy ===== *)
theory ObjectsJson
  imports PocoJson
begin

text \<open>
  \<^verbatim>\<open>to_json\<close> and \<^verbatim>\<open>from_json\<close> of the data types: \<^verbatim>\<open>src/src/RESTObjects/RESTAPI_AnalyticsObjects.cpp\<close>,
  \<^verbatim>\<open>RESTAPI_MCPAnalyticsObjects.cpp\<close> and what the service reads of \<^verbatim>\<open>RESTAPI_ProvObjects.cpp\<close> and
  \<^verbatim>\<open>RESTAPI_SecurityObjects.cpp\<close>.  \<open>T_fields\<close> is the list of members \<^verbatim>\<open>T::to_json\<close> sets, in its order.
\<close>

section \<open>Objects of the provisioning service\<close>

record DeviceRules =
  rules_rcOnly :: string
  rules_rrm :: string
  rules_firmwareUpgrade :: string

definition DeviceRules_init :: DeviceRules where
  "DeviceRules_init = \<lparr> rules_rcOnly = ''inherit'',
     rules_rrm = ''inherit'',
     rules_firmwareUpgrade = ''inherit'' \<rparr>"

record InventoryTag =
  tag_info :: ObjectInfo
  tag_serialNumber :: string
  tag_venue :: string
  tag_entity :: string
  tag_subscriber :: string
  tag_deviceType :: string
  tag_qrCode :: string
  tag_geoCode :: string
  tag_location :: string
  tag_contact :: string
  tag_deviceConfiguration :: string
  tag_deviceRules :: DeviceRules
  tag_managementPolicy :: string
  tag_state :: string
  tag_devClass :: string
  tag_locale :: string
  tag_realMacAddress :: string
  tag_doNotAllowOverrides :: bool
  tag_imported :: u64
  tag_connected :: u64
  tag_platform :: string

definition InventoryTag_init :: InventoryTag where
  "InventoryTag_init = \<lparr> tag_info = ObjectInfo_init,
     tag_serialNumber = [],
     tag_venue = [],
     tag_entity = [],
     tag_subscriber = [],
     tag_deviceType = [],
     tag_qrCode = [],
     tag_geoCode = [],
     tag_location = [],
     tag_contact = [],
     tag_deviceConfiguration = [],
     tag_deviceRules = DeviceRules_init,
     tag_managementPolicy = [],
     tag_state = [],
     tag_devClass = [],
     tag_locale = [],
     tag_realMacAddress = [],
     tag_doNotAllowOverrides = False,
     tag_imported = 0,
     tag_connected = 0,
     tag_platform = ''AP'' \<rparr>"

record VenueDeviceList =
  vdl_id :: string
  vdl_name :: string
  vdl_description :: string
  vdl_devices :: "string list"

definition VenueDeviceList_init :: VenueDeviceList where
  "VenueDeviceList_init = \<lparr> vdl_id = [],
     vdl_name = [],
     vdl_description = [],
     vdl_devices = [] \<rparr>"

record InventoryTagList =
  tags_taglist :: "InventoryTag list"

definition InventoryTagList_init :: InventoryTagList where
  "InventoryTagList_init = \<lparr> tags_taglist = [] \<rparr>"

record DeviceInfoList =
  dil_devices :: "DeviceInfo list"

definition DeviceInfoList_init :: DeviceInfoList where
  "DeviceInfoList_init = \<lparr> dil_devices = [] \<rparr>"

definition NoteInfo_fields :: "('o, 'v) poco \<Rightarrow> NoteInfo \<Rightarrow> (string \<times> 'v) list" where
  "NoteInfo_fields J x =
     [(''created'', mk_u64 J (note_created x)),
      (''createdBy'', mk_string J (note_createdBy x)),
      (''note'', mk_string J (note_note x))]"

definition NoteInfo_to_json :: "('o, 'v) poco \<Rightarrow> NoteInfo \<Rightarrow> 'o \<Rightarrow> 'o" where
  "NoteInfo_to_json J x = set_all J (NoteInfo_fields J x)"

definition NoteInfo_from_json :: "('o, 'v) poco \<Rightarrow> ('o, NoteInfo) reader" where
  "NoteInfo_from_json J Obj = try_all
     [field_from_json J (v_u64 J) Obj ''created'' note_created_update,
      field_from_json J (v_string J) Obj ''createdBy'' note_createdBy_update,
      field_from_json J (v_string J) Obj ''note'' note_note_update]"

definition ObjectInfo_fields :: "('o, 'v) poco \<Rightarrow> ObjectInfo \<Rightarrow> (string \<times> 'v) list" where
  "ObjectInfo_fields J x =
     [(''id'', mk_string J (info_id x)),
      (''name'', mk_string J (info_name x)),
      (''description'', mk_string J (info_description x)),
      (''created'', mk_u64 J (info_created x)),
      (''modified'', mk_u64 J (info_modified x)),
      (''notes'', objects_to_json J (NoteInfo_to_json J) (info_notes x)),
      (''tags'', tags_to_json J (info_tags x))]"

definition ObjectInfo_to_json :: "('o, 'v) poco \<Rightarrow> ObjectInfo \<Rightarrow> 'o \<Rightarrow> 'o" where
  "ObjectInfo_to_json J x = set_all J (ObjectInfo_fields J x)"

definition ObjectInfo_from_json :: "('o, 'v) poco \<Rightarrow> ('o, ObjectInfo) reader" where
  "ObjectInfo_from_json J Obj = try_all
     [field_from_json J (v_string J) Obj ''id'' info_id_update,
      field_from_json J (v_string J) Obj ''name'' info_name_update,
      field_from_json J (v_string J) Obj ''description'' info_description_update,
      field_from_json J (v_u64 J) Obj ''created'' info_created_update,
      field_from_json J (v_u64 J) Obj ''modified'' info_modified_update,
      objects_from_json J (NoteInfo_from_json J) NoteInfo_init Obj ''notes'' info_notes_update,
      list_from_json J (v_u64 J) Obj ''tags'' info_tags_update]"

definition DeviceRules_fields :: "('o, 'v) poco \<Rightarrow> DeviceRules \<Rightarrow> (string \<times> 'v) list" where
  "DeviceRules_fields J x =
     [(''rcOnly'', mk_string J (rules_rcOnly x)),
      (''rrm'', mk_string J (rules_rrm x)),
      (''firmwareUpgrade'', mk_string J (rules_firmwareUpgrade x))]"

definition DeviceRules_to_json :: "('o, 'v) poco \<Rightarrow> DeviceRules \<Rightarrow> 'o \<Rightarrow> 'o" where
  "DeviceRules_to_json J x = set_all J (DeviceRules_fields J x)"

definition DeviceRules_from_json :: "('o, 'v) poco \<Rightarrow> ('o, DeviceRules) reader" where
  "DeviceRules_from_json J Obj = try_all
     [field_from_json J (v_string J) Obj ''rcOnly'' rules_rcOnly_update,
      field_from_json J (v_string J) Obj ''rrm'' rules_rrm_update,
      field_from_json J (v_string J) Obj ''firmwareUpgrade'' rules_firmwareUpgrade_update]"

definition InventoryTag_fields :: "('o, 'v) poco \<Rightarrow> InventoryTag \<Rightarrow> (string \<times> 'v) list" where
  "InventoryTag_fields J x =
     ObjectInfo_fields J (tag_info x)
     @ [(''serialNumber'', mk_string J (tag_serialNumber x)),
      (''venue'', mk_string J (tag_venue x)),
      (''entity'', mk_string J (tag_entity x)),
      (''subscriber'', mk_string J (tag_subscriber x)),
      (''deviceType'', mk_string J (tag_deviceType x)),
      (''qrCode'', mk_string J (tag_qrCode x)),
      (''geoCode'', mk_string J (tag_geoCode x)),
      (''location'', mk_string J (tag_location x)),
      (''contact'', mk_string J (tag_contact x)),
      (''deviceConfiguration'', mk_string J (tag_deviceConfiguration x)),
      (''deviceRules'', object_to_json J (DeviceRules_to_json J) (tag_deviceRules x)),
      (''managementPolicy'', mk_string J (tag_managementPolicy x)),
      (''state'', mk_string J (tag_state x)),
      (''devClass'', mk_string J (tag_devClass x)),
      (''locale'', mk_string J (tag_locale x)),
      (''realMacAddress'', mk_string J (tag_realMacAddress x)),
      (''doNotAllowOverrides'', mk_bool J (tag_doNotAllowOverrides x)),
      (''imported'', mk_u64 J (tag_imported x)),
      (''connected'', mk_u64 J (tag_connected x)),
      (''platform'', mk_string J (tag_platform x))]"

definition InventoryTag_to_json :: "('o, 'v) poco \<Rightarrow> InventoryTag \<Rightarrow> 'o \<Rightarrow> 'o" where
  "InventoryTag_to_json J x = set_all J (InventoryTag_fields J x)"

definition InventoryTag_from_json :: "('o, 'v) poco \<Rightarrow> ('o, InventoryTag) reader" where
  "InventoryTag_from_json J Obj = try_all
     [assign (tag_info_update (\<lambda>i. fst (ObjectInfo_from_json J Obj i))),
      field_from_json J (v_string J) Obj ''serialNumber'' tag_serialNumber_update,
      field_from_json J (v_string J) Obj ''venue'' tag_venue_update,
      field_from_json J (v_string J) Obj ''entity'' tag_entity_update,
      field_from_json J (v_string J) Obj ''subscriber'' tag_subscriber_update,
      field_from_json J (v_string J) Obj ''deviceType'' tag_deviceType_update,
      field_from_json J (v_string J) Obj ''qrCode'' tag_qrCode_update,
      field_from_json J (v_string J) Obj ''geoCode'' tag_geoCode_update,
      field_from_json J (v_string J) Obj ''location'' tag_location_update,
      field_from_json J (v_string J) Obj ''contact'' tag_contact_update,
      field_from_json J (v_string J) Obj ''deviceConfiguration'' tag_deviceConfiguration_update,
      object_from_json J (DeviceRules_from_json J) Obj ''deviceRules'' tag_deviceRules_update,
      field_from_json J (v_string J) Obj ''managementPolicy'' tag_managementPolicy_update,
      field_from_json J (v_string J) Obj ''state'' tag_state_update,
      field_from_json J (v_string J) Obj ''devClass'' tag_devClass_update,
      field_from_json J (v_string J) Obj ''locale'' tag_locale_update,
      field_from_json J (v_string J) Obj ''realMacAddress'' tag_realMacAddress_update,
      field_from_json J (bool_of J) Obj ''doNotAllowOverrides'' tag_doNotAllowOverrides_update,
      field_from_json J (v_u64 J) Obj ''imported'' tag_imported_update,
      field_from_json J (v_u64 J) Obj ''connected'' tag_connected_update,
      field_from_json J (v_string J) Obj ''platform'' tag_platform_update]"

definition VenueDeviceList_fields :: "('o, 'v) poco \<Rightarrow> VenueDeviceList \<Rightarrow> (string \<times> 'v) list" where
  "VenueDeviceList_fields J x =
     [(''id'', mk_string J (vdl_id x)),
      (''name'', mk_string J (vdl_name x)),
      (''description'', mk_string J (vdl_description x)),
      (''devices'', strings_to_json J (vdl_devices x))]"

definition VenueDeviceList_to_json :: "('o, 'v) poco \<Rightarrow> VenueDeviceList \<Rightarrow> 'o \<Rightarrow> 'o" where
  "VenueDeviceList_to_json J x = set_all J (VenueDeviceList_fields J x)"

definition VenueDeviceList_from_json :: "('o, 'v) poco \<Rightarrow> ('o, VenueDeviceList) reader" where
  "VenueDeviceList_from_json J Obj = try_all
     [field_from_json J (v_string J) Obj ''id'' vdl_id_update,
      field_from_json J (v_string J) Obj ''name'' vdl_name_update,
      field_from_json J (v_string J) Obj ''description'' vdl_description_update,
      list_from_json J (v_string J) Obj ''devices'' vdl_devices_update]"

definition InventoryTagList_fields :: "('o, 'v) poco \<Rightarrow> InventoryTagList \<Rightarrow> (string \<times> 'v) list" where
  "InventoryTagList_fields J x =
     [(''taglist'', objects_to_json J (InventoryTag_to_json J) (tags_taglist x))]"

definition InventoryTagList_to_json :: "('o, 'v) poco \<Rightarrow> InventoryTagList \<Rightarrow> 'o \<Rightarrow> 'o" where
  "InventoryTagList_to_json J x = set_all J (InventoryTagList_fields J x)"

definition InventoryTagList_from_json :: "('o, 'v) poco \<Rightarrow> ('o, InventoryTagList) reader" where
  "InventoryTagList_from_json J Obj = try_all
     [objects_from_json J (InventoryTag_from_json J) InventoryTag_init Obj ''taglist'' tags_taglist_update]"

section \<open>Objects of the analytics service\<close>

definition VenueInfo_fields :: "('o, 'v) poco \<Rightarrow> VenueInfo \<Rightarrow> (string \<times> 'v) list" where
  "VenueInfo_fields J x =
     [(''id'', mk_string J (venue_id x)),
      (''name'', mk_string J (venue_name x)),
      (''description'', mk_string J (venue_description x)),
      (''retention'', mk_u64 J (venue_retention x)),
      (''interval'', mk_u64 J (venue_interval x)),
      (''monitorSubVenues'', mk_bool J (venue_monitorSubVenues x))]"

definition VenueInfo_to_json :: "('o, 'v) poco \<Rightarrow> VenueInfo \<Rightarrow> 'o \<Rightarrow> 'o" where
  "VenueInfo_to_json J x = set_all J (VenueInfo_fields J x)"

definition VenueInfo_from_json :: "('o, 'v) poco \<Rightarrow> ('o, VenueInfo) reader" where
  "VenueInfo_from_json J Obj = try_all
     [field_from_json J (v_string J) Obj ''id'' venue_id_update,
      field_from_json J (v_string J) Obj ''name'' venue_name_update,
      field_from_json J (v_string J) Obj ''description'' venue_description_update,
      field_from_json J (v_u64 J) Obj ''retention'' venue_retention_update,
      field_from_json J (v_u64 J) Obj ''interval'' venue_interval_update,
      field_from_json J (bool_of J) Obj ''monitorSubVenues'' venue_monitorSubVenues_update]"

definition BoardInfo_fields :: "('o, 'v) poco \<Rightarrow> BoardInfo \<Rightarrow> (string \<times> 'v) list" where
  "BoardInfo_fields J x =
     ObjectInfo_fields J (board_info x)
     @ [(''venueList'', objects_to_json J (VenueInfo_to_json J) (board_venueList x))]"

definition BoardInfo_to_json :: "('o, 'v) poco \<Rightarrow> BoardInfo \<Rightarrow> 'o \<Rightarrow> 'o" where
  "BoardInfo_to_json J x = set_all J (BoardInfo_fields J x)"

definition BoardInfo_from_json :: "('o, 'v) poco \<Rightarrow> ('o, BoardInfo) reader" where
  "BoardInfo_from_json J Obj = try_all
     [assign (board_info_update (\<lambda>i. fst (ObjectInfo_from_json J Obj i))),
      objects_from_json J (VenueInfo_from_json J) VenueInfo_init Obj ''venueList'' board_venueList_update]"

definition DeviceInfo_fields :: "('o, 'v) poco \<Rightarrow> DeviceInfo \<Rightarrow> (string \<times> 'v) list" where
  "DeviceInfo_fields J x =
     [(''boardId'', mk_string J (di_boardId x)),
      (''type'', mk_string J (di_type x)),
      (''serialNumber'', mk_string J (di_serialNumber x)),
      (''deviceType'', mk_string J (di_deviceType x)),
      (''platform'', mk_string J (di_platform x)),
      (''lastContact'', mk_u64 J (di_lastContact x)),
      (''lastPing'', mk_u64 J (di_lastPing x)),
      (''lastState'', mk_u64 J (di_lastState x)),
      (''lastFirmware'', mk_string J (di_lastFirmware x)),
      (''lastFirmwareUpdate'', mk_u64 J (di_lastFirmwareUpdate x)),
      (''lastConnection'', mk_u64 J (di_lastConnection x)),
      (''lastDisconnection'', mk_u64 J (di_lastDisconnection x)),
      (''pings'', mk_u64 J (di_pings x)),
      (''states'', mk_u64 J (di_states x)),
      (''connected'', mk_bool J (di_connected x)),
      (''connectionIp'', mk_string J (di_connectionIp x)),
      (''associations_2g'', mk_u64 J (di_associations_2g x)),
      (''associations_5g'', mk_u64 J (di_associations_5g x)),
      (''associations_6g'', mk_u64 J (di_associations_6g x)),
      (''health'', mk_u64 J (di_health x)),
      (''lastHealth'', mk_u64 J (di_lastHealth x)),
      (''locale'', mk_string J (di_locale x)),
      (''uptime'', mk_u64 J (di_uptime x)),
      (''memory'', mk_double J (di_memory x))]"

definition DeviceInfo_to_json :: "('o, 'v) poco \<Rightarrow> DeviceInfo \<Rightarrow> 'o \<Rightarrow> 'o" where
  "DeviceInfo_to_json J x = set_all J (DeviceInfo_fields J x)"

definition DeviceInfo_from_json :: "('o, 'v) poco \<Rightarrow> ('o, DeviceInfo) reader" where
  "DeviceInfo_from_json J Obj = try_all
     [field_from_json J (v_string J) Obj ''boardId'' di_boardId_update,
      field_from_json J (v_string J) Obj ''type'' di_type_update,
      field_from_json J (v_string J) Obj ''serialNumber'' di_serialNumber_update,
      field_from_json J (v_string J) Obj ''deviceType'' di_deviceType_update,
      field_from_json J (v_string J) Obj ''platform'' di_platform_update,
      field_from_json J (v_u64 J) Obj ''lastContact'' di_lastContact_update,
      field_from_json J (v_u64 J) Obj ''lastPing'' di_lastPing_update,
      field_from_json J (v_u64 J) Obj ''lastState'' di_lastState_update,
      field_from_json J (v_string J) Obj ''lastFirmware'' di_lastFirmware_update,
      field_from_json J (v_u64 J) Obj ''lastFirmwareUpdate'' di_lastFirmwareUpdate_update,
      field_from_json J (v_u64 J) Obj ''lastConnection'' di_lastConnection_update,
      field_from_json J (v_u64 J) Obj ''lastDisconnection'' di_lastDisconnection_update,
      field_from_json J (v_u64 J) Obj ''pings'' di_pings_update,
      field_from_json J (v_u64 J) Obj ''states'' di_states_update,
      field_from_json J (bool_of J) Obj ''connected'' di_connected_update,
      field_from_json J (v_string J) Obj ''connectionIp'' di_connectionIp_update,
      field_from_json J (v_u64 J) Obj ''associations_2g'' di_associations_2g_update,
      field_from_json J (v_u64 J) Obj ''associations_5g'' di_associations_5g_update,
      field_from_json J (v_u64 J) Obj ''associations_6g'' di_associations_6g_update,
      field_from_json J (v_u64 J) Obj ''health'' di_health_update,
      field_from_json J (v_u64 J) Obj ''lastHealth'' di_lastHealth_update,
      field_from_json J (v_string J) Obj ''locale'' di_locale_update,
      field_from_json J (v_u64 J) Obj ''uptime'' di_uptime_update,
      field_from_json J (v_double J) Obj ''memory'' di_memory_update]"

definition DeviceInfoList_fields :: "('o, 'v) poco \<Rightarrow> DeviceInfoList \<Rightarrow> (string \<times> 'v) list" where
  "DeviceInfoList_fields J x =
     [(''devices'', objects_to_json J (DeviceInfo_to_json J) (dil_devices x))]"

definition DeviceInfoList_to_json :: "('o, 'v) poco \<Rightarrow> DeviceInfoList \<Rightarrow> 'o \<Rightarrow> 'o" where
  "DeviceInfoList_to_json J x = set_all J (DeviceInfoList_fields J x)"

definition DeviceInfoList_from_json :: "('o, 'v) poco \<Rightarrow> ('o, DeviceInfoList) reader" where
  "DeviceInfoList_from_json J Obj = try_all
     [objects_from_json J (DeviceInfo_from_json J) DeviceInfo_init Obj ''devices'' dil_devices_update]"

definition TIDstat_entry_fields :: "('o, 'v) poco \<Rightarrow> TIDstat_entry \<Rightarrow> (string \<times> 'v) list" where
  "TIDstat_entry_fields J x =
     [(''rx_msdu'', mk_u64 J (tid_rx_msdu x)),
      (''tx_msdu'', mk_u64 J (tid_tx_msdu x)),
      (''tx_msdu_failed'', mk_u64 J (tid_tx_msdu_failed x)),
      (''tx_msdu_retries'', mk_u64 J (tid_tx_msdu_retries x))]"

definition TIDstat_entry_to_json :: "('o, 'v) poco \<Rightarrow> TIDstat_entry \<Rightarrow> 'o \<Rightarrow> 'o" where
  "TIDstat_entry_to_json J x = set_all J (TIDstat_entry_fields J x)"

definition TIDstat_entry_from_json :: "('o, 'v) poco \<Rightarrow> ('o, TIDstat_entry) reader" where
  "TIDstat_entry_from_json J Obj = try_all
     [field_from_json J (v_u64 J) Obj ''rx_msdu'' tid_rx_msdu_update,
      field_from_json J (v_u64 J) Obj ''tx_msdu'' tid_tx_msdu_update,
      field_from_json J (v_u64 J) Obj ''tx_msdu_failed'' tid_tx_msdu_failed_update,
      field_from_json J (v_u64 J) Obj ''tx_msdu_retries'' tid_tx_msdu_retries_update]"

definition UE_rate_fields :: "('o, 'v) poco \<Rightarrow> UE_rate \<Rightarrow> (string \<times> 'v) list" where
  "UE_rate_fields J x =
     [(''bitrate'', mk_u64 J (rate_bitrate x)),
      (''mcs'', mk_u64 J (rate_mcs x)),
      (''nss'', mk_u64 J (rate_nss x)),
      (''ht'', mk_bool J (rate_ht x)),
      (''sgi'', mk_bool J (rate_sgi x)),
      (''chwidth'', mk_u64 J (rate_chwidth x))]"

definition UE_rate_to_json :: "('o, 'v) poco \<Rightarrow> UE_rate \<Rightarrow> 'o \<Rightarrow> 'o" where
  "UE_rate_to_json J x = set_all J (UE_rate_fields J x)"

definition UE_rate_from_json :: "('o, 'v) poco \<Rightarrow> ('o, UE_rate) reader" where
  "UE_rate_from_json J Obj = try_all
     [field_from_json J (v_u64 J) Obj ''bitrate'' rate_bitrate_update,
      field_from_json J (v_u64 J) Obj ''mcs'' rate_mcs_update,
      field_from_json J (v_u64 J) Obj ''nss'' rate_nss_update,
      field_from_json J (bool_of J) Obj ''ht'' rate_ht_update,
      field_from_json J (bool_of J) Obj ''sgi'' rate_sgi_update,
      field_from_json J (v_u64 J) Obj ''chwidth'' rate_chwidth_update]"

text \<open>A fingerprint is kept as the text of an object.  Nothing that is not an object is written.\<close>

definition Fingerprint_to_json :: "('o, 'v) poco \<Rightarrow> Fingerprint \<Rightarrow> 'o \<Rightarrow> 'o" where
  "Fingerprint_to_json J x Obj =
     (if fprint_json x = [] then Obj
      else case bind (p_parse J (fprint_json x)) (v_object J) of Inl _ \<Rightarrow> Obj | Inr Ptr \<Rightarrow> Ptr)"

definition Fingerprint_from_json :: "('o, 'v) poco \<Rightarrow> ('o, Fingerprint) reader" where
  "Fingerprint_from_json J Obj x = (x \<lparr> fprint_json := p_stringify J Obj \<rparr>, True)"

definition UETimePoint_fields :: "('o, 'v) poco \<Rightarrow> UETimePoint \<Rightarrow> (string \<times> 'v) list" where
  "UETimePoint_fields J x =
     [(''station'', mk_string J (ue_station x)),
      (''rssi'', mk_i64 J (ue_rssi x))]
     @ (if ue_tx_bytes_present x then [(''tx_bytes'', mk_u64 J (ue_tx_bytes x))] else [])
     @ (if ue_rx_bytes_present x then [(''rx_bytes'', mk_u64 J (ue_rx_bytes x))] else [])
     @ [(''tx_duration'', mk_u64 J (ue_tx_duration x)),
      (''rx_packets'', mk_u64 J (ue_rx_packets x)),
      (''tx_packets'', mk_u64 J (ue_tx_packets x)),
      (''tx_retries'', mk_u64 J (ue_tx_retries x)),
      (''tx_failed'', mk_u64 J (ue_tx_failed x)),
      (''connected'', mk_u64 J (ue_connected x)),
      (''inactive'', mk_u64 J (ue_inactive x)),
      (''tx_rate'', object_to_json J (UE_rate_to_json J) (ue_tx_rate x)),
      (''rx_rate'', object_to_json J (UE_rate_to_json J) (ue_rx_rate x)),
      (''fingerprint'', object_to_json J (Fingerprint_to_json J) (ue_fingerprint x)),
      (''tx_bytes_bw'', mk_double J (ue_tx_bytes_bw x)),
      (''rx_bytes_bw'', mk_double J (ue_rx_bytes_bw x)),
      (''tx_packets_bw'', mk_double J (ue_tx_packets_bw x)),
      (''rx_packets_bw'', mk_double J (ue_rx_packets_bw x)),
      (''tx_failed_pct'', mk_double J (ue_tx_failed_pct x)),
      (''tx_retries_pct'', mk_double J (ue_tx_retries_pct x)),
      (''tx_duration_pct'', mk_double J (ue_tx_duration_pct x)),
      (''tx_bytes_delta'', mk_u64 J (ue_tx_bytes_delta x)),
      (''rx_bytes_delta'', mk_u64 J (ue_rx_bytes_delta x)),
      (''tx_packets_delta'', mk_u64 J (ue_tx_packets_delta x)),
      (''rx_packets_delta'', mk_u64 J (ue_rx_packets_delta x)),
      (''tx_failed_delta'', mk_u64 J (ue_tx_failed_delta x)),
      (''tx_retries_delta'', mk_u64 J (ue_tx_retries_delta x)),
      (''tx_duration_delta'', mk_u64 J (ue_tx_duration_delta x))]"

definition UETimePoint_to_json :: "('o, 'v) poco \<Rightarrow> UETimePoint \<Rightarrow> 'o \<Rightarrow> 'o" where
  "UETimePoint_to_json J x = set_all J (UETimePoint_fields J x)"

definition UETimePoint_from_json :: "('o, 'v) poco \<Rightarrow> ('o, UETimePoint) reader" where
  "UETimePoint_from_json J Obj = try_all
     [field_from_json J (v_string J) Obj ''station'' ue_station_update,
      field_from_json J (v_i64 J) Obj ''rssi'' ue_rssi_update,
      with_val (OptionalUint64FromJson J Obj ''tx_bytes'') (\<lambda>v. assign (\<lambda>x. x \<lparr> ue_tx_bytes_present := v \<noteq> None, ue_tx_bytes := (case v of None \<Rightarrow> 0 | Some n \<Rightarrow> n) \<rparr>)),
      with_val (OptionalUint64FromJson J Obj ''rx_bytes'') (\<lambda>v. assign (\<lambda>x. x \<lparr> ue_rx_bytes_present := v \<noteq> None, ue_rx_bytes := (case v of None \<Rightarrow> 0 | Some n \<Rightarrow> n) \<rparr>)),
      field_from_json J (v_u64 J) Obj ''tx_duration'' ue_tx_duration_update,
      field_from_json J (v_u64 J) Obj ''rx_packets'' ue_rx_packets_update,
      field_from_json J (v_u64 J) Obj ''tx_packets'' ue_tx_packets_update,
      field_from_json J (v_u64 J) Obj ''tx_retries'' ue_tx_retries_update,
      field_from_json J (v_u64 J) Obj ''tx_failed'' ue_tx_failed_update,
      field_from_json J (v_u64 J) Obj ''connected'' ue_connected_update,
      field_from_json J (v_u64 J) Obj ''inactive'' ue_inactive_update,
      object_from_json J (UE_rate_from_json J) Obj ''tx_rate'' ue_tx_rate_update,
      object_from_json J (UE_rate_from_json J) Obj ''rx_rate'' ue_rx_rate_update,
      object_from_json J (Fingerprint_from_json J) Obj ''fingerprint'' ue_fingerprint_update,
      field_from_json J (v_double J) Obj ''tx_bytes_bw'' ue_tx_bytes_bw_update,
      field_from_json J (v_double J) Obj ''rx_bytes_bw'' ue_rx_bytes_bw_update,
      field_from_json J (v_double J) Obj ''tx_packets_bw'' ue_tx_packets_bw_update,
      field_from_json J (v_double J) Obj ''rx_packets_bw'' ue_rx_packets_bw_update,
      field_from_json J (v_double J) Obj ''tx_failed_pct'' ue_tx_failed_pct_update,
      field_from_json J (v_double J) Obj ''tx_retries_pct'' ue_tx_retries_pct_update,
      field_from_json J (v_double J) Obj ''tx_duration_pct'' ue_tx_duration_pct_update,
      field_from_json J (v_u64 J) Obj ''tx_bytes_delta'' ue_tx_bytes_delta_update,
      field_from_json J (v_u64 J) Obj ''rx_bytes_delta'' ue_rx_bytes_delta_update,
      field_from_json J (v_u64 J) Obj ''tx_packets_delta'' ue_tx_packets_delta_update,
      field_from_json J (v_u64 J) Obj ''rx_packets_delta'' ue_rx_packets_delta_update,
      field_from_json J (v_u64 J) Obj ''tx_failed_delta'' ue_tx_failed_delta_update,
      field_from_json J (v_u64 J) Obj ''tx_retries_delta'' ue_tx_retries_delta_update,
      field_from_json J (v_u64 J) Obj ''tx_duration_delta'' ue_tx_duration_delta_update]"

definition APTimePoint_fields :: "('o, 'v) poco \<Rightarrow> APTimePoint \<Rightarrow> (string \<times> 'v) list" where
  "APTimePoint_fields J x =
     [(''collisions'', mk_u64 J (ap_collisions x)),
      (''multicast'', mk_u64 J (ap_multicast x)),
      (''rx_bytes'', mk_u64 J (ap_rx_bytes x)),
      (''rx_dropped'', mk_u64 J (ap_rx_dropped x)),
      (''rx_errors'', mk_u64 J (ap_rx_errors x)),
      (''rx_packets'', mk_u64 J (ap_rx_packets x)),
      (''tx_bytes'', mk_u64 J (ap_tx_bytes x)),
      (''tx_packets'', mk_u64 J (ap_tx_packets x)),
      (''tx_dropped'', mk_u64 J (ap_tx_dropped x)),
      (''tx_errors'', mk_u64 J (ap_tx_errors x)),
      (''tx_packets'', mk_u64 J (ap_tx_packets x)),
      (''tx_bytes_bw'', mk_double J (ap_tx_bytes_bw x)),
      (''rx_bytes_bw'', mk_double J (ap_rx_bytes_bw x)),
      (''rx_dropped_pct'', mk_double J (ap_rx_dropped_pct x)),
      (''tx_dropped_pct'', mk_double J (ap_tx_dropped_pct x)),
      (''rx_packets_bw'', mk_double J (ap_rx_packets_bw x)),
      (''tx_packets_bw'', mk_double J (ap_tx_packets_bw x)),
      (''rx_errors_pct'', mk_double J (ap_rx_errors_pct x)),
      (''tx_errors_pct'', mk_double J (ap_tx_errors_pct x)),
      (''tx_bytes_delta'', mk_u64 J (ap_tx_bytes_delta x)),
      (''rx_bytes_delta'', mk_u64 J (ap_rx_bytes_delta x)),
      (''rx_dropped_delta'', mk_u64 J (ap_rx_dropped_delta x)),
      (''tx_dropped_delta'', mk_u64 J (ap_tx_dropped_delta x)),
      (''rx_packets_delta'', mk_u64 J (ap_rx_packets_delta x)),
      (''tx_packets_delta'', mk_u64 J (ap_tx_packets_delta x)),
      (''rx_errors_delta'', mk_u64 J (ap_rx_errors_delta x)),
      (''tx_errors_delta'', mk_u64 J (ap_tx_errors_delta x))]"

definition APTimePoint_to_json :: "('o, 'v) poco \<Rightarrow> APTimePoint \<Rightarrow> 'o \<Rightarrow> 'o" where
  "APTimePoint_to_json J x = set_all J (APTimePoint_fields J x)"

definition APTimePoint_from_json :: "('o, 'v) poco \<Rightarrow> ('o, APTimePoint) reader" where
  "APTimePoint_from_json J Obj = try_all
     [field_from_json J (v_u64 J) Obj ''collisions'' ap_collisions_update,
      field_from_json J (v_u64 J) Obj ''multicast'' ap_multicast_update,
      field_from_json J (v_u64 J) Obj ''rx_bytes'' ap_rx_bytes_update,
      field_from_json J (v_u64 J) Obj ''rx_dropped'' ap_rx_dropped_update,
      field_from_json J (v_u64 J) Obj ''rx_errors'' ap_rx_errors_update,
      field_from_json J (v_u64 J) Obj ''rx_packets'' ap_rx_packets_update,
      field_from_json J (v_u64 J) Obj ''tx_bytes'' ap_tx_bytes_update,
      field_from_json J (v_u64 J) Obj ''tx_packets'' ap_tx_packets_update,
      field_from_json J (v_u64 J) Obj ''tx_dropped'' ap_tx_dropped_update,
      field_from_json J (v_u64 J) Obj ''tx_errors'' ap_tx_errors_update,
      field_from_json J (v_u64 J) Obj ''tx_packets'' ap_tx_packets_update,
      field_from_json J (v_double J) Obj ''tx_bytes_bw'' ap_tx_bytes_bw_update,
      field_from_json J (v_double J) Obj ''rx_bytes_bw'' ap_rx_bytes_bw_update,
      field_from_json J (v_double J) Obj ''rx_dropped_pct'' ap_rx_dropped_pct_update,
      field_from_json J (v_double J) Obj ''tx_dropped_pct'' ap_tx_dropped_pct_update,
      field_from_json J (v_double J) Obj ''rx_packets_bw'' ap_rx_packets_bw_update,
      field_from_json J (v_double J) Obj ''tx_packets_bw'' ap_tx_packets_bw_update,
      field_from_json J (v_double J) Obj ''rx_errors_pct'' ap_rx_errors_pct_update,
      field_from_json J (v_double J) Obj ''tx_errors_pct'' ap_tx_errors_pct_update,
      field_from_json J (v_u64 J) Obj ''tx_bytes_delta'' ap_tx_bytes_delta_update,
      field_from_json J (v_u64 J) Obj ''rx_bytes_delta'' ap_rx_bytes_delta_update,
      field_from_json J (v_u64 J) Obj ''rx_dropped_delta'' ap_rx_dropped_delta_update,
      field_from_json J (v_u64 J) Obj ''tx_dropped_delta'' ap_tx_dropped_delta_update,
      field_from_json J (v_u64 J) Obj ''rx_packets_delta'' ap_rx_packets_delta_update,
      field_from_json J (v_u64 J) Obj ''tx_packets_delta'' ap_tx_packets_delta_update,
      field_from_json J (v_u64 J) Obj ''rx_errors_delta'' ap_rx_errors_delta_update,
      field_from_json J (v_u64 J) Obj ''tx_errors_delta'' ap_tx_errors_delta_update]"

definition RadioTimePoint_fields :: "('o, 'v) poco \<Rightarrow> RadioTimePoint \<Rightarrow> (string \<times> 'v) list" where
  "RadioTimePoint_fields J x =
     [(''band'', mk_u64 J (radio_band x)),
      (''channel_width'', mk_u64 J (radio_channel_width x)),
      (''active_ms'', mk_u64 J (radio_active_ms x)),
      (''busy_ms'', mk_u64 J (radio_busy_ms x)),
      (''receive_ms'', mk_u64 J (radio_receive_ms x)),
      (''transmit_ms'', mk_u64 J (radio_transmit_ms x)),
      (''tx_power'', mk_u64 J (radio_tx_power x)),
      (''channel'', mk_u64 J (radio_channel x)),
      (''temperature'', case radio_temperature x of Some v \<Rightarrow> mk_double J v | None \<Rightarrow> mk_null J),
      (''noise'', mk_i64 J (radio_noise x)),
      (''active_pct'', mk_double J (radio_active_pct x)),
      (''busy_pct'', mk_double J (radio_busy_pct x)),
      (''receive_pct'', mk_double J (radio_receive_pct x)),
      (''transmit_pct'', mk_double J (radio_transmit_pct x))]"

definition RadioTimePoint_to_json :: "('o, 'v) poco \<Rightarrow> RadioTimePoint \<Rightarrow> 'o \<Rightarrow> 'o" where
  "RadioTimePoint_to_json J x = set_all J (RadioTimePoint_fields J x)"

definition RadioTimePoint_from_json :: "('o, 'v) poco \<Rightarrow> ('o, RadioTimePoint) reader" where
  "RadioTimePoint_from_json J Obj = try_all
     [field_from_json J (v_u64 J) Obj ''band'' radio_band_update,
      field_from_json J (v_u64 J) Obj ''channel_width'' radio_channel_width_update,
      field_from_json J (v_u64 J) Obj ''active_ms'' radio_active_ms_update,
      field_from_json J (v_u64 J) Obj ''busy_ms'' radio_busy_ms_update,
      field_from_json J (v_u64 J) Obj ''receive_ms'' radio_receive_ms_update,
      field_from_json J (v_u64 J) Obj ''transmit_ms'' radio_transmit_ms_update,
      field_from_json J (v_u64 J) Obj ''tx_power'' radio_tx_power_update,
      field_from_json J (v_u64 J) Obj ''channel'' radio_channel_update,
      assign (radio_temperature_update (\<lambda>_. OptionalDoubleFromJson J Obj ''temperature'')),
      field_from_json J (v_i64 J) Obj ''noise'' radio_noise_update,
      field_from_json J (v_double J) Obj ''active_pct'' radio_active_pct_update,
      field_from_json J (v_double J) Obj ''busy_pct'' radio_busy_pct_update,
      field_from_json J (v_double J) Obj ''receive_pct'' radio_receive_pct_update,
      field_from_json J (v_double J) Obj ''transmit_pct'' radio_transmit_pct_update]"

definition AveragePoint_fields :: "('o, 'v) poco \<Rightarrow> AveragePoint \<Rightarrow> (string \<times> 'v) list" where
  "AveragePoint_fields J x =
     [(''min'', mk_double J (pt_min x)),
      (''max'', mk_double J (pt_max x)),
      (''avg'', mk_double J (pt_avg x))]"

definition AveragePoint_to_json :: "('o, 'v) poco \<Rightarrow> AveragePoint \<Rightarrow> 'o \<Rightarrow> 'o" where
  "AveragePoint_to_json J x = set_all J (AveragePoint_fields J x)"

definition AveragePoint_from_json :: "('o, 'v) poco \<Rightarrow> ('o, AveragePoint) reader" where
  "AveragePoint_from_json J Obj = try_all
     [field_from_json J (v_double J) Obj ''min'' pt_min_update,
      field_from_json J (v_double J) Obj ''max'' pt_max_update,
      field_from_json J (v_double J) Obj ''avg'' pt_avg_update]"

definition SSIDTimePoint_fields :: "('o, 'v) poco \<Rightarrow> SSIDTimePoint \<Rightarrow> (string \<times> 'v) list" where
  "SSIDTimePoint_fields J x =
     [(''bssid'', mk_string J (ssidtp_bssid x)),
      (''mode'', mk_string J (ssidtp_mode x)),
      (''ssid'', mk_string J (ssidtp_ssid x)),
      (''band'', mk_u64 J (ssidtp_band x)),
      (''channel'', mk_u64 J (ssidtp_channel x)),
      (''associations'', objects_to_json J (UETimePoint_to_json J) (ssidtp_associations x)),
      (''tx_bytes_bw'', object_to_json J (AveragePoint_to_json J) (ssidtp_tx_bytes_bw x)),
      (''rx_bytes_bw'', object_to_json J (AveragePoint_to_json J) (ssidtp_rx_bytes_bw x)),
      (''tx_packets_bw'', object_to_json J (AveragePoint_to_json J) (ssidtp_tx_packets_bw x)),
      (''rx_packets_bw'', object_to_json J (AveragePoint_to_json J) (ssidtp_rx_packets_bw x)),
      (''tx_failed_pct'', object_to_json J (AveragePoint_to_json J) (ssidtp_tx_failed_pct x)),
      (''tx_retries_pct'', object_to_json J (AveragePoint_to_json J) (ssidtp_tx_retries_pct x)),
      (''tx_duration_pct'', object_to_json J (AveragePoint_to_json J) (ssidtp_tx_duration_pct x))]"

definition SSIDTimePoint_to_json :: "('o, 'v) poco \<Rightarrow> SSIDTimePoint \<Rightarrow> 'o \<Rightarrow> 'o" where
  "SSIDTimePoint_to_json J x = set_all J (SSIDTimePoint_fields J x)"

definition SSIDTimePoint_from_json :: "('o, 'v) poco \<Rightarrow> ('o, SSIDTimePoint) reader" where
  "SSIDTimePoint_from_json J Obj = try_all
     [field_from_json J (v_string J) Obj ''bssid'' ssidtp_bssid_update,
      field_from_json J (v_string J) Obj ''mode'' ssidtp_mode_update,
      field_from_json J (v_string J) Obj ''ssid'' ssidtp_ssid_update,
      field_from_json J (v_u64 J) Obj ''band'' ssidtp_band_update,
      field_from_json J (v_u64 J) Obj ''channel'' ssidtp_channel_update,
      objects_from_json J (UETimePoint_from_json J) UETimePoint_init Obj ''associations'' ssidtp_associations_update,
      object_from_json J (AveragePoint_from_json J) Obj ''tx_bytes_bw'' ssidtp_tx_bytes_bw_update,
      object_from_json J (AveragePoint_from_json J) Obj ''rx_bytes_bw'' ssidtp_rx_bytes_bw_update,
      object_from_json J (AveragePoint_from_json J) Obj ''tx_packets_bw'' ssidtp_tx_packets_bw_update,
      object_from_json J (AveragePoint_from_json J) Obj ''rx_packets_bw'' ssidtp_rx_packets_bw_update,
      object_from_json J (AveragePoint_from_json J) Obj ''tx_failed_pct'' ssidtp_tx_failed_pct_update,
      object_from_json J (AveragePoint_from_json J) Obj ''tx_retries_pct'' ssidtp_tx_retries_pct_update,
      object_from_json J (AveragePoint_from_json J) Obj ''tx_duration_pct'' ssidtp_tx_duration_pct_update]"

definition DeviceResourceTimePoint_fields :: "('o, 'v) poco \<Rightarrow> DeviceResourceTimePoint \<Rightarrow> (string \<times> 'v) list" where
  "DeviceResourceTimePoint_fields J x =
     (case res_memory_free x of Some v \<Rightarrow> [(''memory_free'', mk_u64 J v)] | None \<Rightarrow> [])
     @ (case res_memory_total x of Some v \<Rightarrow> [(''memory_total'', mk_u64 J v)] | None \<Rightarrow> [])
     @ (case res_memory_cached x of Some v \<Rightarrow> [(''memory_cached'', mk_u64 J v)] | None \<Rightarrow> [])
     @ (case res_memory_buffered x of Some v \<Rightarrow> [(''memory_buffered'', mk_u64 J v)] | None \<Rightarrow> [])"

definition DeviceResourceTimePoint_to_json :: "('o, 'v) poco \<Rightarrow> DeviceResourceTimePoint \<Rightarrow> 'o \<Rightarrow> 'o" where
  "DeviceResourceTimePoint_to_json J x = set_all J (DeviceResourceTimePoint_fields J x)"

definition DeviceResourceTimePoint_from_json :: "('o, 'v) poco \<Rightarrow> ('o, DeviceResourceTimePoint) reader" where
  "DeviceResourceTimePoint_from_json J Obj = try_all
     [with_val (OptionalUint64FromJson J Obj ''memory_free'') (\<lambda>v. assign (res_memory_free_update (\<lambda>_. v))),
      with_val (OptionalUint64FromJson J Obj ''memory_total'') (\<lambda>v. assign (res_memory_total_update (\<lambda>_. v))),
      with_val (OptionalUint64FromJson J Obj ''memory_cached'') (\<lambda>v. assign (res_memory_cached_update (\<lambda>_. v))),
      with_val (OptionalUint64FromJson J Obj ''memory_buffered'') (\<lambda>v. assign (res_memory_buffered_update (\<lambda>_. v)))]"

definition DeviceTimePoint_fields :: "('o, 'v) poco \<Rightarrow> DeviceTimePoint \<Rightarrow> (string \<times> 'v) list" where
  "DeviceTimePoint_fields J x =
     [(''id'', mk_string J (dtp_id x)),
      (''boardId'', mk_string J (dtp_boardId x)),
      (''timestamp'', mk_u64 J (dtp_timestamp x)),
      (''ap_data'', object_to_json J (APTimePoint_to_json J) (dtp_ap_data x)),
      (''ssid_data'', objects_to_json J (SSIDTimePoint_to_json J) (dtp_ssid_data x)),
      (''radio_data'', objects_to_json J (RadioTimePoint_to_json J) (dtp_radio_data x)),
      (''device_info'', object_to_json J (DeviceInfo_to_json J) (dtp_device_info x)),
      (''serialNumber'', mk_string J (dtp_serialNumber x))]"

definition DeviceTimePoint_to_json :: "('o, 'v) poco \<Rightarrow> DeviceTimePoint \<Rightarrow> 'o \<Rightarrow> 'o" where
  "DeviceTimePoint_to_json J x = set_all J (DeviceTimePoint_fields J x)"

definition DeviceTimePoint_from_json :: "('o, 'v) poco \<Rightarrow> ('o, DeviceTimePoint) reader" where
  "DeviceTimePoint_from_json J Obj = try_all
     [field_from_json J (v_string J) Obj ''id'' dtp_id_update,
      field_from_json J (v_string J) Obj ''boardId'' dtp_boardId_update,
      field_from_json J (v_string J) Obj ''venueId'' dtp_venueId_update,
      field_from_json J (v_u64 J) Obj ''timestamp'' dtp_timestamp_update,
      object_from_json J (APTimePoint_from_json J) Obj ''ap_data'' dtp_ap_data_update,
      objects_from_json J (SSIDTimePoint_from_json J) SSIDTimePoint_init Obj ''ssid_data'' dtp_ssid_data_update,
      objects_from_json J (RadioTimePoint_from_json J) RadioTimePoint_init Obj ''radio_data'' dtp_radio_data_update,
      object_from_json J (DeviceResourceTimePoint_from_json J) Obj ''resource_data'' dtp_resource_data_update,
      object_from_json J (DeviceInfo_from_json J) Obj ''device_info'' dtp_device_info_update,
      field_from_json J (v_string J) Obj ''serialNumber'' dtp_serialNumber_update]"

definition DeviceTimePointAnalysis_fields :: "('o, 'v) poco \<Rightarrow> DeviceTimePointAnalysis \<Rightarrow> (string \<times> 'v) list" where
  "DeviceTimePointAnalysis_fields J x =
     [(''noise'', object_to_json J (AveragePoint_to_json J) (dta_noise x)),
      (''temperature'', object_to_json J (AveragePoint_to_json J) (dta_temperature x)),
      (''active_pct'', object_to_json J (AveragePoint_to_json J) (dta_active_pct x)),
      (''busy_pct'', object_to_json J (AveragePoint_to_json J) (dta_busy_pct x)),
      (''receive_pct'', object_to_json J (AveragePoint_to_json J) (dta_receive_pct x)),
      (''transmit_pct'', object_to_json J (AveragePoint_to_json J) (dta_transmit_pct x)),
      (''tx_power'', object_to_json J (AveragePoint_to_json J) (dta_tx_power x)),
      (''tx_bytes_bw'', object_to_json J (AveragePoint_to_json J) (dta_tx_bytes_bw x)),
      (''rx_bytes_bw'', object_to_json J (AveragePoint_to_json J) (dta_rx_bytes_bw x)),
      (''rx_dropped_pct'', object_to_json J (AveragePoint_to_json J) (dta_rx_dropped_pct x)),
      (''tx_dropped_pct'', object_to_json J (AveragePoint_to_json J) (dta_tx_dropped_pct x)),
      (''rx_packets_bw'', object_to_json J (AveragePoint_to_json J) (dta_rx_packets_bw x)),
      (''tx_packets_bw'', object_to_json J (AveragePoint_to_json J) (dta_tx_packets_bw x)),
      (''rx_errors_pct'', object_to_json J (AveragePoint_to_json J) (dta_rx_errors_pct x)),
      (''tx_errors_pct'', object_to_json J (AveragePoint_to_json J) (dta_tx_errors_pct x))]"

definition DeviceTimePointAnalysis_to_json :: "('o, 'v) poco \<Rightarrow> DeviceTimePointAnalysis \<Rightarrow> 'o \<Rightarrow> 'o" where
  "DeviceTimePointAnalysis_to_json J x = set_all J (DeviceTimePointAnalysis_fields J x)"

definition DeviceTimePointAnalysis_from_json :: "('o, 'v) poco \<Rightarrow> ('o, DeviceTimePointAnalysis) reader" where
  "DeviceTimePointAnalysis_from_json J Obj = try_all
     [object_from_json J (AveragePoint_from_json J) Obj ''noise'' dta_noise_update,
      object_from_json J (AveragePoint_from_json J) Obj ''temperature'' dta_temperature_update,
      object_from_json J (AveragePoint_from_json J) Obj ''active_pct'' dta_active_pct_update,
      object_from_json J (AveragePoint_from_json J) Obj ''busy_pct'' dta_busy_pct_update,
      object_from_json J (AveragePoint_from_json J) Obj ''receive_pct'' dta_receive_pct_update,
      object_from_json J (AveragePoint_from_json J) Obj ''transmit_pct'' dta_transmit_pct_update,
      object_from_json J (AveragePoint_from_json J) Obj ''tx_power'' dta_tx_power_update,
      object_from_json J (AveragePoint_from_json J) Obj ''tx_bytes_bw'' dta_tx_bytes_bw_update,
      object_from_json J (AveragePoint_from_json J) Obj ''rx_bytes_bw'' dta_rx_bytes_bw_update,
      object_from_json J (AveragePoint_from_json J) Obj ''rx_dropped_pct'' dta_rx_dropped_pct_update,
      object_from_json J (AveragePoint_from_json J) Obj ''tx_dropped_pct'' dta_tx_dropped_pct_update,
      object_from_json J (AveragePoint_from_json J) Obj ''rx_packets_bw'' dta_rx_packets_bw_update,
      object_from_json J (AveragePoint_from_json J) Obj ''tx_packets_bw'' dta_tx_packets_bw_update,
      object_from_json J (AveragePoint_from_json J) Obj ''rx_errors_pct'' dta_rx_errors_pct_update,
      object_from_json J (AveragePoint_from_json J) Obj ''tx_errors_pct'' dta_tx_errors_pct_update]"

definition DeviceTimePointList_fields :: "('o, 'v) poco \<Rightarrow> DeviceTimePointList \<Rightarrow> (string \<times> 'v) list" where
  "DeviceTimePointList_fields J x =
     [(''points'', objects_to_json J (DeviceTimePoint_to_json J) (dtpl_points x)),
      (''stats'', objects_to_json J (DeviceTimePointAnalysis_to_json J) (dtpl_stats x))]"

definition DeviceTimePointList_to_json :: "('o, 'v) poco \<Rightarrow> DeviceTimePointList \<Rightarrow> 'o \<Rightarrow> 'o" where
  "DeviceTimePointList_to_json J x = set_all J (DeviceTimePointList_fields J x)"

definition DeviceTimePointList_from_json :: "('o, 'v) poco \<Rightarrow> ('o, DeviceTimePointList) reader" where
  "DeviceTimePointList_from_json J Obj = try_all
     [objects_from_json J (DeviceTimePoint_from_json J) DeviceTimePoint_init Obj ''points'' dtpl_points_update,
      objects_from_json J (DeviceTimePointAnalysis_from_json J) DeviceTimePointAnalysis_init Obj ''stats'' dtpl_stats_update]"

definition DeviceTimePointStats_fields :: "('o, 'v) poco \<Rightarrow> DeviceTimePointStats \<Rightarrow> (string \<times> 'v) list" where
  "DeviceTimePointStats_fields J x =
     [(''firstPoint'', mk_u64 J (dtps_firstPoint x)),
      (''lastPoint'', mk_u64 J (dtps_lastPoint x)),
      (''count'', mk_u64 J (dtps_count x))]"

definition DeviceTimePointStats_to_json :: "('o, 'v) poco \<Rightarrow> DeviceTimePointStats \<Rightarrow> 'o \<Rightarrow> 'o" where
  "DeviceTimePointStats_to_json J x = set_all J (DeviceTimePointStats_fields J x)"

definition DeviceTimePointStats_from_json :: "('o, 'v) poco \<Rightarrow> ('o, DeviceTimePointStats) reader" where
  "DeviceTimePointStats_from_json J Obj = try_all
     [field_from_json J (v_u64 J) Obj ''firstPoint'' dtps_firstPoint_update,
      field_from_json J (v_u64 J) Obj ''lastPoint'' dtps_lastPoint_update,
      field_from_json J (v_u64 J) Obj ''count'' dtps_count_update]"

definition WifiClientRate_fields :: "('o, 'v) poco \<Rightarrow> WifiClientRate \<Rightarrow> (string \<times> 'v) list" where
  "WifiClientRate_fields J x =
     [(''bitrate'', mk_u32 J (wcr_bitrate x)),
      (''chwidth'', mk_u32 J (wcr_chwidth x)),
      (''mcs'', mk_u16 J (wcr_mcs x)),
      (''nss'', mk_u16 J (wcr_nss x)),
      (''vht'', mk_bool J (wcr_vht x))]"

definition WifiClientRate_to_json :: "('o, 'v) poco \<Rightarrow> WifiClientRate \<Rightarrow> 'o \<Rightarrow> 'o" where
  "WifiClientRate_to_json J x = set_all J (WifiClientRate_fields J x)"

definition WifiClientRate_from_json :: "('o, 'v) poco \<Rightarrow> ('o, WifiClientRate) reader" where
  "WifiClientRate_from_json J Obj = try_all
     [field_from_json J (v_u32 J) Obj ''bitrate'' wcr_bitrate_update,
      field_from_json J (v_u32 J) Obj ''chwidth'' wcr_chwidth_update,
      field_from_json J (v_u16 J) Obj ''mcs'' wcr_mcs_update,
      field_from_json J (v_u16 J) Obj ''nss'' wcr_nss_update,
      field_from_json J (bool_of J) Obj ''vht'' wcr_vht_update]"

definition WifiClientHistory_fields :: "('o, 'v) poco \<Rightarrow> WifiClientHistory \<Rightarrow> (string \<times> 'v) list" where
  "WifiClientHistory_fields J x =
     [(''timestamp'', mk_u64 J (wch_timestamp x)),
      (''station_id'', mk_string J (wch_station_id x)),
      (''bssid'', mk_string J (wch_bssid x)),
      (''ssid'', mk_string J (wch_ssid x)),
      (''rssi'', mk_i64 J (wch_rssi x)),
      (''rx_bitrate'', mk_u32 J (wch_rx_bitrate x)),
      (''rx_chwidth'', mk_u32 J (wch_rx_chwidth x)),
      (''rx_mcs'', mk_u16 J (wch_rx_mcs x)),
      (''rx_nss'', mk_u16 J (wch_rx_nss x)),
      (''rx_vht'', mk_bool J (wch_rx_vht x)),
      (''tx_bitrate'', mk_u32 J (wch_tx_bitrate x)),
      (''tx_chwidth'', mk_u32 J (wch_tx_chwidth x)),
      (''tx_mcs'', mk_u16 J (wch_tx_mcs x)),
      (''tx_nss'', mk_u16 J (wch_tx_nss x)),
      (''tx_vht'', mk_bool J (wch_tx_vht x)),
      (''rx_bytes'', mk_u64 J (wch_rx_bytes x)),
      (''tx_bytes'', mk_u64 J (wch_tx_bytes x)),
      (''rx_duration'', mk_u64 J (wch_rx_duration x)),
      (''tx_duration'', mk_u64 J (wch_tx_duration x)),
      (''rx_packets'', mk_u64 J (wch_rx_packets x)),
      (''tx_packets'', mk_u64 J (wch_tx_packets x)),
      (''ipv4'', mk_string J (wch_ipv4 x)),
      (''ipv6'', mk_string J (wch_ipv6 x)),
      (''channel_width'', mk_u64 J (wch_channel_width x)),
      (''noise'', mk_i64 J (wch_noise x)),
      (''tx_power'', mk_u64 J (wch_tx_power x)),
      (''channel'', mk_u64 J (wch_channel x)),
      (''active_ms'', mk_u64 J (wch_active_ms x)),
      (''busy_ms'', mk_u64 J (wch_busy_ms x)),
      (''receive_ms'', mk_u64 J (wch_receive_ms x)),
      (''mode'', mk_string J (wch_mode x)),
      (''ack_signal'', mk_i64 J (wch_ack_signal x)),
      (''ack_signal_avg'', mk_i64 J (wch_ack_signal_avg x)),
      (''connected'', mk_u64 J (wch_connected x)),
      (''inactive'', mk_u64 J (wch_inactive x)),
      (''tx_retries'', mk_u64 J (wch_tx_retries x)),
      (''venue_id'', mk_string J (wch_venue_id x))]"

definition WifiClientHistory_to_json :: "('o, 'v) poco \<Rightarrow> WifiClientHistory \<Rightarrow> 'o \<Rightarrow> 'o" where
  "WifiClientHistory_to_json J x = set_all J (WifiClientHistory_fields J x)"

definition WifiClientHistory_from_json :: "('o, 'v) poco \<Rightarrow> ('o, WifiClientHistory) reader" where
  "WifiClientHistory_from_json J Obj = try_all
     [field_from_json J (v_u64 J) Obj ''timestamp'' wch_timestamp_update,
      field_from_json J (v_string J) Obj ''station_id'' wch_station_id_update,
      field_from_json J (v_string J) Obj ''bssid'' wch_bssid_update,
      field_from_json J (v_string J) Obj ''ssid'' wch_ssid_update,
      field_from_json J (v_i64 J) Obj ''rssi'' wch_rssi_update,
      field_from_json J (v_u32 J) Obj ''rx_bitrate'' wch_rx_bitrate_update,
      field_from_json J (v_u32 J) Obj ''rx_chwidth'' wch_rx_chwidth_update,
      field_from_json J (v_u16 J) Obj ''rx_mcs'' wch_rx_mcs_update,
      field_from_json J (v_u16 J) Obj ''rx_nss'' wch_rx_nss_update,
      field_from_json J (bool_of J) Obj ''rx_vht'' wch_rx_vht_update,
      field_from_json J (v_u32 J) Obj ''tx_bitrate'' wch_tx_bitrate_update,
      field_from_json J (v_u32 J) Obj ''tx_chwidth'' wch_tx_chwidth_update,
      field_from_json J (v_u16 J) Obj ''tx_mcs'' wch_tx_mcs_update,
      field_from_json J (v_u16 J) Obj ''tx_nss'' wch_tx_nss_update,
      field_from_json J (bool_of J) Obj ''tx_vht'' wch_tx_vht_update,
      field_from_json J (v_u64 J) Obj ''rx_bytes'' wch_rx_bytes_update,
      field_from_json J (v_u64 J) Obj ''tx_bytes'' wch_tx_bytes_update,
      field_from_json J (v_u64 J) Obj ''rx_duration'' wch_rx_duration_update,
      field_from_json J (v_u64 J) Obj ''tx_duration'' wch_tx_duration_update,
      field_from_json J (v_u64 J) Obj ''rx_packets'' wch_rx_packets_update,
      field_from_json J (v_u64 J) Obj ''tx_packets'' wch_tx_packets_update,
      field_from_json J (v_string J) Obj ''ipv4'' wch_ipv4_update,
      field_from_json J (v_string J) Obj ''ipv6'' wch_ipv6_update,
      field_from_json J (v_u64 J) Obj ''channel_width'' wch_channel_width_update,
      field_from_json J (v_i64 J) Obj ''noise'' wch_noise_update,
      field_from_json J (v_u64 J) Obj ''tx_power'' wch_tx_power_update,
      field_from_json J (v_u64 J) Obj ''channel'' wch_channel_update,
      field_from_json J (v_u64 J) Obj ''active_ms'' wch_active_ms_update,
      field_from_json J (v_u64 J) Obj ''busy_ms'' wch_busy_ms_update,
      field_from_json J (v_u64 J) Obj ''receive_ms'' wch_receive_ms_update,
      field_from_json J (v_string J) Obj ''mode'' wch_mode_update,
      field_from_json J (v_i64 J) Obj ''ack_signal'' wch_ack_signal_update,
      field_from_json J (v_i64 J) Obj ''ack_signal_avg'' wch_ack_signal_avg_update,
      field_from_json J (v_u64 J) Obj ''connected'' wch_connected_update,
      field_from_json J (v_u64 J) Obj ''inactive'' wch_inactive_update,
      field_from_json J (v_u64 J) Obj ''tx_retries'' wch_tx_retries_update,
      field_from_json J (v_string J) Obj ''venue_id'' wch_venue_id_update]"

section \<open>Answers of the MCP handlers\<close>

definition nullable :: "('o, 'v) poco \<Rightarrow> ('a \<Rightarrow> 'v) \<Rightarrow> 'a option \<Rightarrow> 'v" where
  "nullable J mk Value = (case Value of Some v \<Rightarrow> mk v | None \<Rightarrow> mk_null J)"

definition MCPRequestedWindow_fields :: "('o, 'v) poco \<Rightarrow> MCPRequestedWindow \<Rightarrow> (string \<times> 'v) list" where
  "MCPRequestedWindow_fields J x =
     [(''startTime'', mk_string J (rw_startTime x)),
      (''endTime'', mk_string J (rw_endTime x))]"

definition MCPRequestedWindow_to_json :: "('o, 'v) poco \<Rightarrow> MCPRequestedWindow \<Rightarrow> 'o \<Rightarrow> 'o" where
  "MCPRequestedWindow_to_json J x = set_all J (MCPRequestedWindow_fields J x)"

definition MCPObservedWindow_fields :: "('o, 'v) poco \<Rightarrow> MCPObservedWindow \<Rightarrow> (string \<times> 'v) list" where
  "MCPObservedWindow_fields J x =
     [(''startTime'', case ow_startTime x of Some v \<Rightarrow> mk_string J v | None \<Rightarrow> mk_null J),
      (''endTime'', case ow_endTime x of Some v \<Rightarrow> mk_string J v | None \<Rightarrow> mk_null J)]"

definition MCPObservedWindow_to_json :: "('o, 'v) poco \<Rightarrow> MCPObservedWindow \<Rightarrow> 'o \<Rightarrow> 'o" where
  "MCPObservedWindow_to_json J x = set_all J (MCPObservedWindow_fields J x)"

definition MCPMemorySummaryData_fields :: "('o, 'v) poco \<Rightarrow> MCPMemorySummaryData \<Rightarrow> (string \<times> 'v) list" where
  "MCPMemorySummaryData_fields J x =
     [(''min_memfree'', nullable J (mk_u64 J) (msd_min_memfree x)),
      (''max_memfree'', nullable J (mk_u64 J) (msd_max_memfree x)),
      (''avg_memfree'', nullable J (mk_u64 J) (msd_avg_memfree x)),
      (''latest_memfree'', nullable J (mk_u64 J) (msd_latest_memfree x))]"

definition MCPMemorySummaryData_to_json :: "('o, 'v) poco \<Rightarrow> MCPMemorySummaryData \<Rightarrow> 'o \<Rightarrow> 'o" where
  "MCPMemorySummaryData_to_json J x = set_all J (MCPMemorySummaryData_fields J x)"

definition MCPMemorySummaryMeta_fields :: "('o, 'v) poco \<Rightarrow> MCPMemorySummaryMeta \<Rightarrow> (string \<times> 'v) list" where
  "MCPMemorySummaryMeta_fields J x =
     [(''requestedWindow'', object_to_json J (MCPRequestedWindow_to_json J) (meta_requestedWindow x)),
      (''observedWindow'', object_to_json J (MCPObservedWindow_to_json J) (meta_observedWindow x))]"

definition MCPMemorySummaryMeta_to_json :: "('o, 'v) poco \<Rightarrow> MCPMemorySummaryMeta \<Rightarrow> 'o \<Rightarrow> 'o" where
  "MCPMemorySummaryMeta_to_json J x = set_all J (MCPMemorySummaryMeta_fields J x)"

definition MCPGatewayMemorySummary_fields :: "('o, 'v) poco \<Rightarrow> MCPGatewayMemorySummary \<Rightarrow> (string \<times> 'v) list" where
  "MCPGatewayMemorySummary_fields J x =
     [(''data'', object_to_json J (MCPMemorySummaryData_to_json J) (gms_data x)),
      (''meta'', object_to_json J (MCPMemorySummaryMeta_to_json J) (gms_meta x))]"

definition MCPGatewayMemorySummary_to_json :: "('o, 'v) poco \<Rightarrow> MCPGatewayMemorySummary \<Rightarrow> 'o \<Rightarrow> 'o" where
  "MCPGatewayMemorySummary_to_json J x = set_all J (MCPGatewayMemorySummary_fields J x)"

definition MCPGatewayWifiTemperatureSummaryData_fields :: "('o, 'v) poco \<Rightarrow> MCPGatewayWifiTemperatureSummaryData \<Rightarrow> (string \<times> 'v) list" where
  "MCPGatewayWifiTemperatureSummaryData_fields J x =
     [(''min_wifi_temp_2.4G'', nullable J (mk_double J) (wtd_min_wifi_temp_2_4G x)),
      (''max_wifi_temp_2.4G'', nullable J (mk_double J) (wtd_max_wifi_temp_2_4G x)),
      (''avg_wifi_temp_2.4G'', nullable J (mk_double J) (wtd_avg_wifi_temp_2_4G x)),
      (''latest_wifi_temp_2.4G'', nullable J (mk_double J) (wtd_latest_wifi_temp_2_4G x)),
      (''min_wifi_temp_5G'', nullable J (mk_double J) (wtd_min_wifi_temp_5G x)),
      (''max_wifi_temp_5G'', nullable J (mk_double J) (wtd_max_wifi_temp_5G x)),
      (''avg_wifi_temp_5G'', nullable J (mk_double J) (wtd_avg_wifi_temp_5G x)),
      (''latest_wifi_temp_5G'', nullable J (mk_double J) (wtd_latest_wifi_temp_5G x))]"

definition MCPGatewayWifiTemperatureSummaryData_to_json :: "('o, 'v) poco \<Rightarrow> MCPGatewayWifiTemperatureSummaryData \<Rightarrow> 'o \<Rightarrow> 'o" where
  "MCPGatewayWifiTemperatureSummaryData_to_json J x = set_all J (MCPGatewayWifiTemperatureSummaryData_fields J x)"

definition MCPGatewayWifiTemperatureSummary_fields :: "('o, 'v) poco \<Rightarrow> MCPGatewayWifiTemperatureSummary \<Rightarrow> (string \<times> 'v) list" where
  "MCPGatewayWifiTemperatureSummary_fields J x =
     [(''data'', object_to_json J (MCPGatewayWifiTemperatureSummaryData_to_json J) (gwt_data x)),
      (''meta'', object_to_json J (MCPMemorySummaryMeta_to_json J) (gwt_meta x))]"

definition MCPGatewayWifiTemperatureSummary_to_json :: "('o, 'v) poco \<Rightarrow> MCPGatewayWifiTemperatureSummary \<Rightarrow> 'o \<Rightarrow> 'o" where
  "MCPGatewayWifiTemperatureSummary_to_json J x = set_all J (MCPGatewayWifiTemperatureSummary_fields J x)"

definition MCPClientUsageItem_fields :: "('o, 'v) poco \<Rightarrow> MCPClientUsageItem \<Rightarrow> (string \<times> 'v) list" where
  "MCPClientUsageItem_fields J x =
     [(''mac'', mk_string J (cui_mac x)),
      (''rx_bytes'', mk_u64 J (cui_rx_bytes x)),
      (''tx_bytes'', mk_u64 J (cui_tx_bytes x)),
      (''total_bytes'', mk_u64 J (cui_total_bytes x)),
      (''data_consume_rx'', mk_string J (cui_data_consume_rx x)),
      (''data_consume_tx'', mk_string J (cui_data_consume_tx x)),
      (''total_data_usage'', mk_string J (cui_total_data_usage x))]"

definition MCPClientUsageItem_to_json :: "('o, 'v) poco \<Rightarrow> MCPClientUsageItem \<Rightarrow> 'o \<Rightarrow> 'o" where
  "MCPClientUsageItem_to_json J x = set_all J (MCPClientUsageItem_fields J x)"

definition MCPClientUsageSummaryData_fields :: "('o, 'v) poco \<Rightarrow> MCPClientUsageSummaryData \<Rightarrow> (string \<times> 'v) list" where
  "MCPClientUsageSummaryData_fields J x =
     [(''items'', objects_to_json J (MCPClientUsageItem_to_json J) (cus_items x)),
      (''totalClients'', mk_u64 J (cus_totalClients x)),
      (''truncated'', mk_bool J (cus_truncated x))]"

definition MCPClientUsageSummaryData_to_json :: "('o, 'v) poco \<Rightarrow> MCPClientUsageSummaryData \<Rightarrow> 'o \<Rightarrow> 'o" where
  "MCPClientUsageSummaryData_to_json J x = set_all J (MCPClientUsageSummaryData_fields J x)"

definition MCPDeviceBandwidthConsumptionSummary_fields :: "('o, 'v) poco \<Rightarrow> MCPDeviceBandwidthConsumptionSummary \<Rightarrow> (string \<times> 'v) list" where
  "MCPDeviceBandwidthConsumptionSummary_fields J x =
     [(''data'', object_to_json J (MCPClientUsageSummaryData_to_json J) (dbc_data x)),
      (''meta'', object_to_json J (MCPMemorySummaryMeta_to_json J) (dbc_meta x))]"

definition MCPDeviceBandwidthConsumptionSummary_to_json :: "('o, 'v) poco \<Rightarrow> MCPDeviceBandwidthConsumptionSummary \<Rightarrow> 'o \<Rightarrow> 'o" where
  "MCPDeviceBandwidthConsumptionSummary_to_json J x = set_all J (MCPDeviceBandwidthConsumptionSummary_fields J x)"

definition MCPClientRssiItem_fields :: "('o, 'v) poco \<Rightarrow> MCPClientRssiItem \<Rightarrow> (string \<times> 'v) list" where
  "MCPClientRssiItem_fields J x =
     [(''mac'', mk_string J (cri_mac x)),
      (''rssi_excellent_pct'', mk_double J (cri_rssi_excellent_pct x)),
      (''rssi_good_pct'', mk_double J (cri_rssi_good_pct x)),
      (''rssi_fair_pct'', mk_double J (cri_rssi_fair_pct x)),
      (''rssi_poor_pct'', mk_double J (cri_rssi_poor_pct x)),
      (''rssi_total_samples'', mk_u64 J (cri_rssi_total_samples x))]"

definition MCPClientRssiItem_to_json :: "('o, 'v) poco \<Rightarrow> MCPClientRssiItem \<Rightarrow> 'o \<Rightarrow> 'o" where
  "MCPClientRssiItem_to_json J x = set_all J (MCPClientRssiItem_fields J x)"

definition MCPClientRssiQualitySummary_fields ::
  "('o, 'v) poco \<Rightarrow> MCPClientRssiQualitySummary \<Rightarrow> (string \<times> 'v) list" where
  "MCPClientRssiQualitySummary_fields J x =
     (let Meta = set_all J
            [(''requestedWindow'', object_to_json J (MCPRequestedWindow_to_json J) (crq_requestedWindow x)),
             (''observedWindow'', object_to_json J (MCPObservedWindow_to_json J) (crq_observedWindow x))] (p_new J);
          Data = set_all J
            [(''items'', objects_to_json J (MCPClientRssiItem_to_json J) (crq_items x)),
             (''totalClients'', mk_u64 J (crq_totalClients x)),
             (''truncated'', mk_bool J (crq_truncated x))] (p_new J)
      in [(''meta'', mk_object J Meta), (''data'', mk_object J Data)])"

definition MCPClientRssiQualitySummary_to_json :: "('o, 'v) poco \<Rightarrow> MCPClientRssiQualitySummary \<Rightarrow> 'o \<Rightarrow> 'o" where
  "MCPClientRssiQualitySummary_to_json J x = set_all J (MCPClientRssiQualitySummary_fields J x)"

definition MCPGatewayAvailabilityData_fields :: "('o, 'v) poco \<Rightarrow> MCPGatewayAvailabilityData \<Rightarrow> (string \<times> 'v) list" where
  "MCPGatewayAvailabilityData_fields J x =
     [(''gw_uuid'', mk_string J (gad_gw_uuid x)),
      (''fetch_status'', mk_string J (gad_fetch_status x)),
      (''offlineEventCount'', mk_u64 J (gad_offlineEventCount x))]"

definition MCPGatewayAvailabilityData_to_json :: "('o, 'v) poco \<Rightarrow> MCPGatewayAvailabilityData \<Rightarrow> 'o \<Rightarrow> 'o" where
  "MCPGatewayAvailabilityData_to_json J x = set_all J (MCPGatewayAvailabilityData_fields J x)"

definition MCPGatewayAvailabilityMeta_fields :: "('o, 'v) poco \<Rightarrow> MCPGatewayAvailabilityMeta \<Rightarrow> (string \<times> 'v) list" where
  "MCPGatewayAvailabilityMeta_fields J x =
     [(''requestedWindow'', object_to_json J (MCPRequestedWindow_to_json J) (gam_requestedWindow x)),
      (''observedWindow'', object_to_json J (MCPObservedWindow_to_json J) (gam_observedWindow x))]"

definition MCPGatewayAvailabilityMeta_to_json :: "('o, 'v) poco \<Rightarrow> MCPGatewayAvailabilityMeta \<Rightarrow> 'o \<Rightarrow> 'o" where
  "MCPGatewayAvailabilityMeta_to_json J x = set_all J (MCPGatewayAvailabilityMeta_fields J x)"

definition MCPGatewayAvailabilitySummary_fields :: "('o, 'v) poco \<Rightarrow> MCPGatewayAvailabilitySummary \<Rightarrow> (string \<times> 'v) list" where
  "MCPGatewayAvailabilitySummary_fields J x =
     [(''meta'', object_to_json J (MCPGatewayAvailabilityMeta_to_json J) (gas_meta x)),
      (''data'', object_to_json J (MCPGatewayAvailabilityData_to_json J) (gas_data x))]"

definition MCPGatewayAvailabilitySummary_to_json :: "('o, 'v) poco \<Rightarrow> MCPGatewayAvailabilitySummary \<Rightarrow> 'o \<Rightarrow> 'o" where
  "MCPGatewayAvailabilitySummary_to_json J x = set_all J (MCPGatewayAvailabilitySummary_fields J x)"

section \<open>Round trips\<close>

text \<open>Record updates that do nothing, for the members that are lists.\<close>

lemma update_same [simp]:
  "info_notes_update (\<lambda>l. l) oi = oi" "info_tags_update (\<lambda>l. l) oi = oi" "board_venueList_update (\<lambda>l. l) bi = bi"
  "ssidtp_associations_update (\<lambda>l. l) st = st" "dtp_ssid_data_update (\<lambda>l. l) tp = tp"
  "dtp_radio_data_update (\<lambda>l. l) tp = tp" "vdl_devices_update (\<lambda>l. l) vl = vl"
  by (cases oi, simp, cases oi, simp, cases bi, simp, cases st, simp, cases tp, simp, cases tp, simp, cases vl, simp)

lemma NoteInfo_roundtrip:
  assumes "poco_ok J"
  shows "NoteInfo_from_json J (NoteInfo_to_json J x (p_new J)) y = (x, True)"
proof -
  define ob where "ob = NoteInfo_to_json J x (p_new J)"
  have "list_all (\<lambda>(k, v). stored J ob k v) (NoteInfo_fields J x)"
    unfolding ob_def NoteInfo_to_json_def by (rule stored_members[OF assms]) (simp add: NoteInfo_fields_def)
  then show ?thesis
    unfolding ob_def[symmetric] 
    by (simp only: NoteInfo_fields_def list.pred_inject prod.case, elim conjE,
        simp add: NoteInfo_from_json_def try_all_def json_reads assms NoteInfo.equality)
qed

lemma ObjectInfo_members:
  assumes "poco_ok J" "list_all (\<lambda>(k, v). stored J ob k v) (ObjectInfo_fields J x)"
  shows "ObjectInfo_from_json J ob y = (x \<lparr> info_notes := info_notes y @ info_notes x \<rparr>, True)"
  using assms(2) read_objects[where J = J and from_json = "NoteInfo_from_json J" and to = "NoteInfo_to_json J"
      and NewItem = NoteInfo_init and xs = "info_notes x" and h = "\<lambda>n. n" and upd = "info_notes_update :: _ \<Rightarrow> ObjectInfo \<Rightarrow> ObjectInfo"
      and ob = ob and k = "''notes''", OF assms(1)]
  by (simp only: ObjectInfo_fields_def list.pred_inject prod.case, elim conjE,
      simp add: ObjectInfo_from_json_def try_all_def json_reads assms(1) NoteInfo_roundtrip ObjectInfo.equality)

lemma VenueInfo_roundtrip:
  assumes "poco_ok J"
  shows "VenueInfo_from_json J (VenueInfo_to_json J x (p_new J)) y = (x, True)"
proof -
  define ob where "ob = VenueInfo_to_json J x (p_new J)"
  have "list_all (\<lambda>(k, v). stored J ob k v) (VenueInfo_fields J x)"
    unfolding ob_def VenueInfo_to_json_def by (rule stored_members[OF assms]) (simp add: VenueInfo_fields_def)
  then show ?thesis
    unfolding ob_def[symmetric]
    by (simp only: VenueInfo_fields_def list.pred_inject prod.case, elim conjE,
        simp add: VenueInfo_from_json_def try_all_def json_reads assms VenueInfo.equality)
qed

text \<open>
  A board written as JSON and read back is the same board: its names, notes, tags, times and every venue
  with its retention, interval and sub-venue flag.
\<close>

theorem BoardInfo_roundtrip:
  assumes "poco_ok J"
  shows "BoardInfo_from_json J (BoardInfo_to_json J x (p_new J)) BoardInfo_init = (x, True)"
proof -
  define ob where "ob = BoardInfo_to_json J x (p_new J)"
  have m: "list_all (\<lambda>(k, v). stored J ob k v) (BoardInfo_fields J x)"
    unfolding ob_def BoardInfo_to_json_def
    by (rule stored_members[OF assms]) (simp add: BoardInfo_fields_def ObjectInfo_fields_def)
  then have i: "list_all (\<lambda>(k, v). stored J ob k v) (ObjectInfo_fields J (board_info x))"
    and v: "stored J ob ''venueList'' (objects_to_json J (VenueInfo_to_json J) (board_venueList x))"
    by (simp_all add: BoardInfo_fields_def)
  have "objects_from_json J (VenueInfo_from_json J) VenueInfo_init ob ''venueList'' board_venueList_update s
      = (board_venueList_update (\<lambda>l. l @ map (\<lambda>v. v) (board_venueList x)) s, None)" for s :: BoardInfo
    by (rule read_objects[OF assms, where to = "VenueInfo_to_json J"]) (simp_all add: VenueInfo_roundtrip assms v)
  then show ?thesis
    unfolding ob_def[symmetric]
    by (simp add: BoardInfo_from_json_def try_all_def ObjectInfo_members[OF assms i] BoardInfo_init_def
        ObjectInfo_init_def BoardInfo.equality ObjectInfo.equality)
qed
text \<open>Time points.\<close>

lemma DeviceInfo_roundtrip:
  assumes "poco_ok J"
  shows "DeviceInfo_from_json J (DeviceInfo_to_json J x (p_new J)) y = (x, True)"
proof -
  define ob where "ob = DeviceInfo_to_json J x (p_new J)"
  have "list_all (\<lambda>(k, v). stored J ob k v) (DeviceInfo_fields J x)"
    unfolding ob_def DeviceInfo_to_json_def by (rule stored_members[OF assms]) (simp add: DeviceInfo_fields_def)
  then show ?thesis
    unfolding ob_def[symmetric]
    by (simp only: DeviceInfo_fields_def list.pred_inject prod.case, elim conjE,
        simp add: DeviceInfo_from_json_def try_all_def json_reads assms DeviceInfo.equality)
qed

lemma UE_rate_roundtrip:
  assumes "poco_ok J"
  shows "UE_rate_from_json J (UE_rate_to_json J x (p_new J)) y = (x, True)"
proof -
  define ob where "ob = UE_rate_to_json J x (p_new J)"
  have "list_all (\<lambda>(k, v). stored J ob k v) (UE_rate_fields J x)"
    unfolding ob_def UE_rate_to_json_def by (rule stored_members[OF assms]) (simp add: UE_rate_fields_def)
  then show ?thesis
    unfolding ob_def[symmetric]
    by (simp only: UE_rate_fields_def list.pred_inject prod.case, elim conjE,
        simp add: UE_rate_from_json_def try_all_def json_reads assms UE_rate.equality)
qed

lemma AveragePoint_roundtrip:
  assumes "poco_ok J"
  shows "AveragePoint_from_json J (AveragePoint_to_json J x (p_new J)) y = (x, True)"
proof -
  define ob where "ob = AveragePoint_to_json J x (p_new J)"
  have "list_all (\<lambda>(k, v). stored J ob k v) (AveragePoint_fields J x)"
    unfolding ob_def AveragePoint_to_json_def by (rule stored_members[OF assms]) (simp add: AveragePoint_fields_def)
  then show ?thesis
    unfolding ob_def[symmetric]
    by (simp only: AveragePoint_fields_def list.pred_inject prod.case, elim conjE,
        simp add: AveragePoint_from_json_def try_all_def json_reads assms AveragePoint.equality)
qed

lemma RadioTimePoint_roundtrip:
  assumes "poco_ok J"
  shows "RadioTimePoint_from_json J (RadioTimePoint_to_json J x (p_new J)) y = (x, True)"
proof -
  define ob where "ob = RadioTimePoint_to_json J x (p_new J)"
  have "list_all (\<lambda>(k, v). stored J ob k v) (RadioTimePoint_fields J x)"
    unfolding ob_def RadioTimePoint_to_json_def by (rule stored_members[OF assms]) (simp add: RadioTimePoint_fields_def)
  then show ?thesis
    unfolding ob_def[symmetric]
    by (simp only: RadioTimePoint_fields_def list.pred_inject prod.case, elim conjE,
        simp add: RadioTimePoint_from_json_def try_all_def json_reads assms RadioTimePoint.equality)
qed

text \<open>\<^verbatim>\<open>tx_packets\<close> is written twice.\<close>

lemma APTimePoint_roundtrip:
  assumes "poco_ok J"
  shows "APTimePoint_from_json J (APTimePoint_to_json J x (p_new J)) y = (x, True)"
proof -
  define ob where "ob = APTimePoint_to_json J x (p_new J)"
  have "consistent (APTimePoint_fields J x)"
    using consistent_again[of "''tx_packets''" "mk_u64 J (ap_tx_packets x)" "take 10 (APTimePoint_fields J x)"
        "drop 11 (APTimePoint_fields J x)"]
    by (simp add: APTimePoint_fields_def)
  then have "list_all (\<lambda>(k, v). stored J ob k v) (APTimePoint_fields J x)"
    unfolding ob_def APTimePoint_to_json_def by (auto simp: list_all_iff intro: stored_set_all[OF assms])
  then show ?thesis
    unfolding ob_def[symmetric]
    by (simp only: APTimePoint_fields_def list.pred_inject prod.case, elim conjE,
        simp add: APTimePoint_from_json_def try_all_def json_reads assms APTimePoint.equality)
qed

lemma DeviceResourceTimePoint_roundtrip:
  assumes "poco_ok J"
  shows "DeviceResourceTimePoint_from_json J (DeviceResourceTimePoint_to_json J x (p_new J)) y = (x, True)"
proof -
  define ob where "ob = DeviceResourceTimePoint_to_json J x (p_new J)"
  let ?fs = "DeviceResourceTimePoint_fields J x"
  have "distinct (map fst ?fs)"
    by (simp add: DeviceResourceTimePoint_fields_def split: option.split)
  then have st: "(k, v) \<in> set ?fs \<Longrightarrow> stored J ob k v" for k v
    using stored_members[OF assms, of ?fs "p_new J"]
    by (auto simp: list_all_iff ob_def DeviceResourceTimePoint_to_json_def)
  have ab: "k \<notin> fst ` set ?fs \<Longrightarrow> \<not> p_has J ob k" for k
    by (simp add: ob_def DeviceResourceTimePoint_to_json_def absent_set_all assms)
  have "OptionalUint64FromJson J ob ''memory_free'' = Inr (res_memory_free x)"
    by (cases "res_memory_free x") (auto simp: DeviceResourceTimePoint_fields_def intro!: read_optional[OF assms] st ab
        split: option.splits)
  moreover have "OptionalUint64FromJson J ob ''memory_total'' = Inr (res_memory_total x)"
    by (cases "res_memory_total x") (auto simp: DeviceResourceTimePoint_fields_def intro!: read_optional[OF assms] st ab
        split: option.splits)
  moreover have "OptionalUint64FromJson J ob ''memory_cached'' = Inr (res_memory_cached x)"
    by (cases "res_memory_cached x") (auto simp: DeviceResourceTimePoint_fields_def intro!: read_optional[OF assms] st ab
        split: option.splits)
  moreover have "OptionalUint64FromJson J ob ''memory_buffered'' = Inr (res_memory_buffered x)"
    by (cases "res_memory_buffered x") (auto simp: DeviceResourceTimePoint_fields_def intro!: read_optional[OF assms] st ab
        split: option.splits)
  ultimately show ?thesis
    unfolding ob_def[symmetric] by (simp add: DeviceResourceTimePoint_from_json_def try_all_def DeviceResourceTimePoint.equality)
qed

text \<open>What survives of an association: not its traffic identifiers, and byte counts only when they were
  present; its fingerprint in the text form of the library.\<close>

definition ue_kept :: "('o, 'v) poco \<Rightarrow> UETimePoint \<Rightarrow> UETimePoint" where
  "ue_kept J x = x \<lparr> ue_tidstats := [], ue_tx_bytes := (if ue_tx_bytes_present x then ue_tx_bytes x else 0),
     ue_rx_bytes := (if ue_rx_bytes_present x then ue_rx_bytes x else 0),
     ue_fingerprint := \<lparr> fprint_json = p_stringify J (Fingerprint_to_json J (ue_fingerprint x) (p_new J)) \<rparr> \<rparr>"

definition ssid_kept :: "('o, 'v) poco \<Rightarrow> SSIDTimePoint \<Rightarrow> SSIDTimePoint" where
  "ssid_kept J x = x \<lparr> ssidtp_associations := map (ue_kept J) (ssidtp_associations x) \<rparr>"

lemma UETimePoint_roundtrip:
  assumes "poco_ok J"
  shows "UETimePoint_from_json J (UETimePoint_to_json J x (p_new J)) UETimePoint_init = (ue_kept J x, True)"
proof -
  define ob where "ob = UETimePoint_to_json J x (p_new J)"
  let ?fs = "UETimePoint_fields J x"
  have d: "distinct (map fst ?fs)"
    by (cases "ue_tx_bytes_present x"; cases "ue_rx_bytes_present x") (simp_all add: UETimePoint_fields_def)
  have m: "list_all (\<lambda>(k, v). stored J ob k v) ?fs"
    unfolding ob_def UETimePoint_to_json_def by (rule stored_members[OF assms d])
  then have st: "(k, v) \<in> set ?fs \<Longrightarrow> stored J ob k v" for k v by (auto simp: list_all_iff)
  have ab: "k \<notin> fst ` set ?fs \<Longrightarrow> \<not> p_has J ob k" for k
    by (simp add: ob_def UETimePoint_to_json_def absent_set_all assms)
  have tx: "OptionalUint64FromJson J ob ''tx_bytes'' = Inr (if ue_tx_bytes_present x then Some (ue_tx_bytes x) else None)"
    by (cases "ue_tx_bytes_present x")
      (auto simp: UETimePoint_fields_def intro!: read_optional[OF assms] st ab)
  have rx: "OptionalUint64FromJson J ob ''rx_bytes'' = Inr (if ue_rx_bytes_present x then Some (ue_rx_bytes x) else None)"
    by (cases "ue_rx_bytes_present x")
      (auto simp: UETimePoint_fields_def intro!: read_optional[OF assms] st ab)
  have rate: "object_from_json J (UE_rate_from_json J) ob k upd s = (upd (\<lambda>_. r) s, None)"
    if "stored J ob k (object_to_json J (UE_rate_to_json J) r)" for k r upd and s :: UETimePoint
    using that by (intro read_object[OF assms]) (simp_all add: UE_rate_roundtrip assms)
  have fp: "object_from_json J (Fingerprint_from_json J) ob k upd s
      = (upd (\<lambda>_. \<lparr> fprint_json = p_stringify J (Fingerprint_to_json J r (p_new J)) \<rparr>) s, None)"
    if "stored J ob k (object_to_json J (Fingerprint_to_json J) r)" for k r upd and s :: UETimePoint
    using that by (intro read_object[OF assms]) (simp_all add: Fingerprint_from_json_def Fingerprint.equality)
  show ?thesis
    using m unfolding ob_def[symmetric]
    by (simp only: UETimePoint_fields_def list_all_append list.pred_inject prod.case, elim conjE,
        simp add: UETimePoint_from_json_def try_all_def json_reads rate fp tx rx assms ue_kept_def UETimePoint_init_def
          UETimePoint.equality)
qed

lemma SSIDTimePoint_roundtrip:
  assumes "poco_ok J"
  shows "SSIDTimePoint_from_json J (SSIDTimePoint_to_json J x (p_new J)) SSIDTimePoint_init = (ssid_kept J x, True)"
proof -
  define ob where "ob = SSIDTimePoint_to_json J x (p_new J)"
  have m: "list_all (\<lambda>(k, v). stored J ob k v) (SSIDTimePoint_fields J x)"
    unfolding ob_def SSIDTimePoint_to_json_def by (rule stored_members[OF assms]) (simp add: SSIDTimePoint_fields_def)
  have av: "object_from_json J (AveragePoint_from_json J) ob k upd s = (upd (\<lambda>_. r) s, None)"
    if "stored J ob k (object_to_json J (AveragePoint_to_json J) r)" for k r upd and s :: SSIDTimePoint
    using that by (intro read_object[OF assms]) (simp_all add: AveragePoint_roundtrip assms)
  have ue: "objects_from_json J (UETimePoint_from_json J) UETimePoint_init ob k ssidtp_associations_update s
      = (ssidtp_associations_update (\<lambda>l. l @ map (ue_kept J) us) s, None)"
    if "stored J ob k (objects_to_json J (UETimePoint_to_json J) us)" for k us and s :: SSIDTimePoint
    using that by (intro read_objects[OF assms]) (simp_all add: UETimePoint_roundtrip assms)
  show ?thesis
    using m unfolding ob_def[symmetric]
    by (simp only: SSIDTimePoint_fields_def list.pred_inject prod.case, elim conjE,
        simp add: SSIDTimePoint_from_json_def try_all_def json_reads av ue assms ssid_kept_def SSIDTimePoint_init_def
          SSIDTimePoint.equality)
qed

text \<open>
  C35: A time point written as JSON (the answer of the board timepoint request) and read back keeps its
  identity, its access point, radio and device data, and the kept part of its SSID data, and loses the venue
  and the memory samples, which \<^verbatim>\<open>to_json\<close> does not write although \<^verbatim>\<open>from_json\<close> reads them.
\<close>

theorem DeviceTimePoint_roundtrip:
  assumes "poco_ok J"
  shows "DeviceTimePoint_from_json J (DeviceTimePoint_to_json J x (p_new J)) DeviceTimePoint_init =
    (x \<lparr> dtp_venueId := [], dtp_resource_data := DeviceResourceTimePoint_init,
         dtp_ssid_data := map (ssid_kept J) (dtp_ssid_data x) \<rparr>, True)"
proof -
  define ob where "ob = DeviceTimePoint_to_json J x (p_new J)"
  let ?fs = "DeviceTimePoint_fields J x"
  have m: "list_all (\<lambda>(k, v). stored J ob k v) ?fs"
    unfolding ob_def DeviceTimePoint_to_json_def by (rule stored_members[OF assms]) (simp add: DeviceTimePoint_fields_def)
  have ab: "k \<notin> fst ` set ?fs \<Longrightarrow> \<not> p_has J ob k \<and> \<not> p_isObject J ob k" for k
    by (simp add: ob_def DeviceTimePoint_to_json_def absent_set_all assms)
  have v: "field_from_json J (v_string J) ob ''venueId'' upd s = (s, None)" for upd and s :: DeviceTimePoint
    using ab[of "''venueId''"] by (simp add: DeviceTimePoint_fields_def field_from_json_def present_def)
  have res: "object_from_json J (DeviceResourceTimePoint_from_json J) ob ''resource_data'' upd s = (s, None)"
    for upd and s :: DeviceTimePoint
    using ab[of "''resource_data''"] by (simp add: DeviceTimePoint_fields_def object_from_json_def)
  have obj: "object_from_json J (APTimePoint_from_json J) ob k updA s = (updA (\<lambda>_. a) s, None)"
    if "stored J ob k (object_to_json J (APTimePoint_to_json J) a)" for k a updA and s :: DeviceTimePoint
    using that by (intro read_object[OF assms]) (simp_all add: APTimePoint_roundtrip assms)
  have info: "object_from_json J (DeviceInfo_from_json J) ob k updD s = (updD (\<lambda>_. di) s, None)"
    if "stored J ob k (object_to_json J (DeviceInfo_to_json J) di)" for k di updD and s :: DeviceTimePoint
    using that by (intro read_object[OF assms]) (simp_all add: DeviceInfo_roundtrip assms)
  have ssids: "objects_from_json J (SSIDTimePoint_from_json J) SSIDTimePoint_init ob k dtp_ssid_data_update s
      = (dtp_ssid_data_update (\<lambda>l. l @ map (ssid_kept J) us) s, None)"
    if "stored J ob k (objects_to_json J (SSIDTimePoint_to_json J) us)" for k us and s :: DeviceTimePoint
    using that by (intro read_objects[OF assms]) (simp_all add: SSIDTimePoint_roundtrip assms)
  have radios: "objects_from_json J (RadioTimePoint_from_json J) RadioTimePoint_init ob k dtp_radio_data_update s
      = (dtp_radio_data_update (\<lambda>l. l @ map (\<lambda>r. r) us) s, None)"
    if "stored J ob k (objects_to_json J (RadioTimePoint_to_json J) us)" for k us and s :: DeviceTimePoint
    using that by (intro read_objects[OF assms]) (simp_all add: RadioTimePoint_roundtrip assms)
  show ?thesis
    using m unfolding ob_def[symmetric]
    by (simp only: DeviceTimePoint_fields_def list.pred_inject prod.case, elim conjE,
        simp add: DeviceTimePoint_from_json_def try_all_def json_reads v res obj info ssids radios assms
          DeviceTimePoint_init_def DeviceTimePoint.equality)
qed

definition sample_board :: BoardInfo where
  "sample_board = \<lparr> board_info = ObjectInfo_init \<lparr> info_id := ''b1'', info_tags := [4, 2] \<rparr>,
     board_venueList = [VenueInfo_init \<lparr> venue_id := ''v1'', venue_retention := 604800, venue_monitorSubVenues := True \<rparr>] \<rparr>"

lemma BoardInfo_roundtrip_witness:
  "BoardInfo_from_json tree_lib (BoardInfo_to_json tree_lib sample_board (p_new tree_lib)) BoardInfo_init = (sample_board, True)"
  by (rule BoardInfo_roundtrip[OF tree_lib_ok])

lemma DeviceTimePoint_roundtrip_witness:
  "dtp_venueId (fst (DeviceTimePoint_from_json tree_lib
      (DeviceTimePoint_to_json tree_lib (DeviceTimePoint_init \<lparr> dtp_venueId := ''v1'', dtp_timestamp := 9 \<rparr>) (p_new tree_lib))
      DeviceTimePoint_init)) = []
   \<and> dtp_timestamp (fst (DeviceTimePoint_from_json tree_lib
      (DeviceTimePoint_to_json tree_lib (DeviceTimePoint_init \<lparr> dtp_venueId := ''v1'', dtp_timestamp := 9 \<rparr>) (p_new tree_lib))
      DeviceTimePoint_init)) = 9"
  by (simp add: DeviceTimePoint_roundtrip[OF tree_lib_ok])

end
