(* ===== verification/SecurityJson.thy ===== *)
theory SecurityJson
  imports ObjectsJson
begin

text \<open>
  The token and the user of a request: \<^verbatim>\<open>AclTemplate\<close>, \<^verbatim>\<open>WebToken\<close>, \<^verbatim>\<open>UserInfo\<close> and \<^verbatim>\<open>UserInfoAndPolicy\<close> of
  \<^verbatim>\<open>src/src/RESTObjects/RESTAPI_SecurityObjects\<close> with their JSON, and \<^verbatim>\<open>MergeNotes\<close>.
\<close>

section \<open>Types\<close>

datatype USER_ROLE = UNKNOWN | ROOT | ADMIN | SUBSCRIBER | CSR | SYSTEM | INSTALLER | NOC | ACCOUNTING | PARTNER

text \<open>\<^verbatim>\<open>Poco::icompare(a, b) == 0\<close>.\<close>

definition iequal :: "string \<Rightarrow> string \<Rightarrow> bool" where
  "iequal a b \<longleftrightarrow> map tolower a = map tolower b"

definition UserTypeFromString :: "string \<Rightarrow> USER_ROLE" where
  "UserTypeFromString U =
     (if iequal U ''root'' then ROOT else if iequal U ''admin'' then ADMIN
      else if iequal U ''subscriber'' then SUBSCRIBER else if iequal U ''partner'' then PARTNER
      else if iequal U ''csr'' then CSR else if iequal U ''system'' then SYSTEM
      else if iequal U ''installer'' then INSTALLER else if iequal U ''noc'' then NOC
      else if iequal U ''accounting'' then ACCOUNTING else UNKNOWN)"

fun UserTypeToString :: "USER_ROLE \<Rightarrow> string" where
  "UserTypeToString ROOT = ''root''" | "UserTypeToString ADMIN = ''admin''"
| "UserTypeToString SUBSCRIBER = ''subscriber''" | "UserTypeToString PARTNER = ''partner''"
| "UserTypeToString CSR = ''csr''" | "UserTypeToString SYSTEM = ''system''"
| "UserTypeToString INSTALLER = ''installer''" | "UserTypeToString NOC = ''noc''"
| "UserTypeToString ACCOUNTING = ''accounting''" | "UserTypeToString UNKNOWN = ''unknown''"

lemma UserType_roundtrip [simp]: "UserTypeFromString (UserTypeToString U) = U"
  by (cases U) (simp_all add: UserTypeFromString_def iequal_def ctype_simps char_code_def)

record AclTemplate =
  acl_Read :: bool
  acl_ReadWrite :: bool
  acl_ReadWriteCreate :: bool
  acl_Delete :: bool
  acl_PortalLogin :: bool

definition AclTemplate_init :: AclTemplate where
  "AclTemplate_init = \<lparr> acl_Read = True,
     acl_ReadWrite = True,
     acl_ReadWriteCreate = True,
     acl_Delete = True,
     acl_PortalLogin = True \<rparr>"

record MobilePhoneNumber =
  mobile_number :: string
  mobile_verified :: bool
  mobile_primary :: bool

definition MobilePhoneNumber_init :: MobilePhoneNumber where
  "MobilePhoneNumber_init = \<lparr> mobile_number = [],
     mobile_verified = False,
     mobile_primary = False \<rparr>"

record MfaAuthInfo =
  mfa_enabled :: bool
  mfa_method :: string

definition MfaAuthInfo_init :: MfaAuthInfo where
  "MfaAuthInfo_init = \<lparr> mfa_enabled = False,
     mfa_method = [] \<rparr>"

record UserLoginLoginExtensions =
  ext_mobiles :: "MobilePhoneNumber list"
  ext_mfa :: MfaAuthInfo
  ext_authenticatorSecret :: string

definition UserLoginLoginExtensions_init :: UserLoginLoginExtensions where
  "UserLoginLoginExtensions_init = \<lparr> ext_mobiles = [],
     ext_mfa = MfaAuthInfo_init,
     ext_authenticatorSecret = [] \<rparr>"

record WebToken =
  tok_access_token :: string
  tok_refresh_token :: string
  tok_id_token :: string
  tok_token_type :: string
  tok_username :: string
  tok_userMustChangePassword :: bool
  tok_errorCode :: u64
  tok_expires_in :: u64
  tok_idle_timeout :: u64
  tok_acl_template :: AclTemplate
  tok_created :: u64
  tok_lastRefresh :: u64

definition WebToken_init :: WebToken where
  "WebToken_init = \<lparr> tok_access_token = [],
     tok_refresh_token = [],
     tok_id_token = [],
     tok_token_type = [],
     tok_username = [],
     tok_userMustChangePassword = False,
     tok_errorCode = 0,
     tok_expires_in = 0,
     tok_idle_timeout = 0,
     tok_acl_template = AclTemplate_init,
     tok_created = 0,
     tok_lastRefresh = 0 \<rparr>"

record UserInfo =
  user_id :: string
  user_name :: string
  user_description :: string
  user_avatar :: string
  user_email :: string
  user_validated :: bool
  user_validationEmail :: string
  user_validationDate :: u64
  user_creationDate :: u64
  user_validationURI :: string
  user_changePassword :: bool
  user_lastLogin :: u64
  user_currentLoginURI :: string
  user_lastPasswordChange :: u64
  user_lastEmailCheck :: u64
  user_waitingForEmailCheck :: bool
  user_locale :: string
  user_notes :: "NoteInfo list"
  user_location :: string
  user_owner :: string
  user_suspended :: bool
  user_blackListed :: bool
  user_userRole :: USER_ROLE
  user_userTypeProprietaryInfo :: UserLoginLoginExtensions
  user_securityPolicy :: string
  user_securityPolicyChange :: u64
  user_currentPassword :: string
  user_lastPasswords :: "string list"
  user_oauthType :: string
  user_oauthUserInfo :: string
  user_modified :: u64
  user_signingUp :: string

text \<open>The role and the modification time of a fresh \<^verbatim>\<open>UserInfo\<close> are not initialised: they are arguments.\<close>

definition UserInfo_init :: "USER_ROLE \<Rightarrow> u64 \<Rightarrow> UserInfo" where
  "UserInfo_init role modified = \<lparr> user_id = [],
     user_name = [],
     user_description = [],
     user_avatar = [],
     user_email = [],
     user_validated = False,
     user_validationEmail = [],
     user_validationDate = 0,
     user_creationDate = 0,
     user_validationURI = [],
     user_changePassword = False,
     user_lastLogin = 0,
     user_currentLoginURI = [],
     user_lastPasswordChange = 0,
     user_lastEmailCheck = 0,
     user_waitingForEmailCheck = False,
     user_locale = [],
     user_notes = [],
     user_location = [],
     user_owner = [],
     user_suspended = False,
     user_blackListed = False,
     user_userRole = role,
     user_userTypeProprietaryInfo = UserLoginLoginExtensions_init,
     user_securityPolicy = [],
     user_securityPolicyChange = 0,
     user_currentPassword = [],
     user_lastPasswords = [],
     user_oauthType = [],
     user_oauthUserInfo = [],
     user_modified = modified,
     user_signingUp = [] \<rparr>"

record UserInfoAndPolicy =
  uip_webtoken :: WebToken
  uip_userinfo :: UserInfo

definition UserInfoAndPolicy_init :: "USER_ROLE \<Rightarrow> u64 \<Rightarrow> UserInfoAndPolicy" where
  "UserInfoAndPolicy_init role modified = \<lparr> uip_webtoken = WebToken_init,
     uip_userinfo = UserInfo_init role modified \<rparr>"

section \<open>JSON\<close>

definition AclTemplate_fields :: "('o, 'v) poco \<Rightarrow> AclTemplate \<Rightarrow> (string \<times> 'v) list" where
  "AclTemplate_fields J x =
     [(''Read'', mk_bool J (acl_Read x)),
      (''ReadWrite'', mk_bool J (acl_ReadWrite x)),
      (''ReadWriteCreate'', mk_bool J (acl_ReadWriteCreate x)),
      (''Delete'', mk_bool J (acl_Delete x)),
      (''PortalLogin'', mk_bool J (acl_PortalLogin x))]"

definition AclTemplate_to_json :: "('o, 'v) poco \<Rightarrow> AclTemplate \<Rightarrow> 'o \<Rightarrow> 'o" where
  "AclTemplate_to_json J x = set_all J (AclTemplate_fields J x)"

definition AclTemplate_from_json :: "('o, 'v) poco \<Rightarrow> ('o, AclTemplate) reader" where
  "AclTemplate_from_json J Obj = try_all
     [field_from_json J (bool_of J) Obj ''Read'' acl_Read_update,
      field_from_json J (bool_of J) Obj ''ReadWrite'' acl_ReadWrite_update,
      field_from_json J (bool_of J) Obj ''ReadWriteCreate'' acl_ReadWriteCreate_update,
      field_from_json J (bool_of J) Obj ''Delete'' acl_Delete_update,
      field_from_json J (bool_of J) Obj ''PortalLogin'' acl_PortalLogin_update]"

text \<open>\<^verbatim>\<open>errorCode\<close> is written twice and never read.\<close>

definition WebToken_fields :: "('o, 'v) poco \<Rightarrow> WebToken \<Rightarrow> (string \<times> 'v) list" where
  "WebToken_fields J x =
     [(''access_token'', mk_string J (tok_access_token x)),
      (''refresh_token'', mk_string J (tok_refresh_token x)),
      (''token_type'', mk_string J (tok_token_type x)),
      (''expires_in'', mk_u64 J (tok_expires_in x)),
      (''idle_timeout'', mk_u64 J (tok_idle_timeout x)),
      (''created'', mk_u64 J (tok_created x)),
      (''username'', mk_string J (tok_username x)),
      (''userMustChangePassword'', mk_bool J (tok_userMustChangePassword x)),
      (''errorCode'', mk_u64 J (tok_errorCode x)),
      (''aclTemplate'', object_to_json J (AclTemplate_to_json J) (tok_acl_template x)),
      (''errorCode'', mk_u64 J (tok_errorCode x)),
      (''lastRefresh'', mk_u64 J (tok_lastRefresh x))]"

definition WebToken_to_json :: "('o, 'v) poco \<Rightarrow> WebToken \<Rightarrow> 'o \<Rightarrow> 'o" where
  "WebToken_to_json J x = set_all J (WebToken_fields J x)"

definition WebToken_from_json :: "('o, 'v) poco \<Rightarrow> ('o, WebToken) reader" where
  "WebToken_from_json J Obj = try_all
     [guarded (p_isObject J Obj ''aclTemplate'')
        (assign (tok_acl_template_update (\<lambda>a. fst (AclTemplate_from_json J (p_object J Obj ''aclTemplate'') a)))),
      field_from_json J (v_string J) Obj ''access_token'' tok_access_token_update,
      field_from_json J (v_string J) Obj ''refresh_token'' tok_refresh_token_update,
      field_from_json J (v_string J) Obj ''token_type'' tok_token_type_update,
      field_from_json J (v_u64 J) Obj ''expires_in'' tok_expires_in_update,
      field_from_json J (v_u64 J) Obj ''idle_timeout'' tok_idle_timeout_update,
      field_from_json J (v_u64 J) Obj ''created'' tok_created_update,
      field_from_json J (v_string J) Obj ''username'' tok_username_update,
      field_from_json J (bool_of J) Obj ''userMustChangePassword'' tok_userMustChangePassword_update,
      field_from_json J (v_u64 J) Obj ''lastRefresh'' tok_lastRefresh_update]"

definition role_of :: "('o, 'v) poco \<Rightarrow> 'v \<Rightarrow> USER_ROLE cpp" where
  "role_of J v = bind (v_string J v) (\<lambda>s. Inr (UserTypeFromString s))"

definition MobilePhoneNumber_fields :: "('o, 'v) poco \<Rightarrow> MobilePhoneNumber \<Rightarrow> (string \<times> 'v) list" where
  "MobilePhoneNumber_fields J x =
     [(''number'', mk_string J (mobile_number x)),
      (''verified'', mk_bool J (mobile_verified x)),
      (''primary'', mk_bool J (mobile_primary x))]"

definition MobilePhoneNumber_to_json :: "('o, 'v) poco \<Rightarrow> MobilePhoneNumber \<Rightarrow> 'o \<Rightarrow> 'o" where
  "MobilePhoneNumber_to_json J x = set_all J (MobilePhoneNumber_fields J x)"

definition MobilePhoneNumber_from_json :: "('o, 'v) poco \<Rightarrow> ('o, MobilePhoneNumber) reader" where
  "MobilePhoneNumber_from_json J Obj = try_all
     [field_from_json J (v_string J) Obj ''number'' mobile_number_update,
      field_from_json J (bool_of J) Obj ''verified'' mobile_verified_update,
      field_from_json J (bool_of J) Obj ''primary'' mobile_primary_update]"

definition MfaAuthInfo_fields :: "('o, 'v) poco \<Rightarrow> MfaAuthInfo \<Rightarrow> (string \<times> 'v) list" where
  "MfaAuthInfo_fields J x =
     [(''enabled'', mk_bool J (mfa_enabled x)),
      (''method'', mk_string J (mfa_method x))]"

definition MfaAuthInfo_to_json :: "('o, 'v) poco \<Rightarrow> MfaAuthInfo \<Rightarrow> 'o \<Rightarrow> 'o" where
  "MfaAuthInfo_to_json J x = set_all J (MfaAuthInfo_fields J x)"

definition MfaAuthInfo_from_json :: "('o, 'v) poco \<Rightarrow> ('o, MfaAuthInfo) reader" where
  "MfaAuthInfo_from_json J Obj = try_all
     [field_from_json J (bool_of J) Obj ''enabled'' mfa_enabled_update,
      field_from_json J (v_string J) Obj ''method'' mfa_method_update]"

definition UserLoginLoginExtensions_fields :: "('o, 'v) poco \<Rightarrow> UserLoginLoginExtensions \<Rightarrow> (string \<times> 'v) list" where
  "UserLoginLoginExtensions_fields J x =
     [(''mobiles'', objects_to_json J (MobilePhoneNumber_to_json J) (ext_mobiles x)),
      (''mfa'', object_to_json J (MfaAuthInfo_to_json J) (ext_mfa x)),
      (''authenticatorSecret'', mk_string J (ext_authenticatorSecret x))]"

definition UserLoginLoginExtensions_to_json :: "('o, 'v) poco \<Rightarrow> UserLoginLoginExtensions \<Rightarrow> 'o \<Rightarrow> 'o" where
  "UserLoginLoginExtensions_to_json J x = set_all J (UserLoginLoginExtensions_fields J x)"

definition UserLoginLoginExtensions_from_json :: "('o, 'v) poco \<Rightarrow> ('o, UserLoginLoginExtensions) reader" where
  "UserLoginLoginExtensions_from_json J Obj = try_all
     [objects_from_json J (MobilePhoneNumber_from_json J) MobilePhoneNumber_init Obj ''mobiles'' ext_mobiles_update,
      object_from_json J (MfaAuthInfo_from_json J) Obj ''mfa'' ext_mfa_update,
      field_from_json J (v_string J) Obj ''authenticatorSecret'' ext_authenticatorSecret_update]"

definition UserInfo_fields :: "('o, 'v) poco \<Rightarrow> UserInfo \<Rightarrow> (string \<times> 'v) list" where
  "UserInfo_fields J x =
     [(''id'', mk_string J (user_id x)),
      (''name'', mk_string J (user_name x)),
      (''description'', mk_string J (user_description x)),
      (''avatar'', mk_string J (user_avatar x)),
      (''email'', mk_string J (user_email x)),
      (''validated'', mk_bool J (user_validated x)),
      (''validationEmail'', mk_string J (user_validationEmail x)),
      (''validationDate'', mk_u64 J (user_validationDate x)),
      (''creationDate'', mk_u64 J (user_creationDate x)),
      (''validationURI'', mk_string J (user_validationURI x)),
      (''changePassword'', mk_bool J (user_changePassword x)),
      (''lastLogin'', mk_u64 J (user_lastLogin x)),
      (''currentLoginURI'', mk_string J (user_currentLoginURI x)),
      (''lastPasswordChange'', mk_u64 J (user_lastPasswordChange x)),
      (''lastEmailCheck'', mk_u64 J (user_lastEmailCheck x)),
      (''waitingForEmailCheck'', mk_bool J (user_waitingForEmailCheck x)),
      (''locale'', mk_string J (user_locale x)),
      (''notes'', objects_to_json J (NoteInfo_to_json J) (user_notes x)),
      (''location'', mk_string J (user_location x)),
      (''owner'', mk_string J (user_owner x)),
      (''suspended'', mk_bool J (user_suspended x)),
      (''blackListed'', mk_bool J (user_blackListed x)),
      (''userRole'', mk_string J (UserTypeToString (user_userRole x))),
      (''userTypeProprietaryInfo'', object_to_json J (UserLoginLoginExtensions_to_json J) (user_userTypeProprietaryInfo x)),
      (''securityPolicy'', mk_string J (user_securityPolicy x)),
      (''securityPolicyChange'', mk_u64 J (user_securityPolicyChange x)),
      (''currentPassword'', mk_string J (user_currentPassword x)),
      (''lastPasswords'', strings_to_json J (user_lastPasswords x)),
      (''oauthType'', mk_string J (user_oauthType x)),
      (''oauthUserInfo'', mk_string J (user_oauthUserInfo x)),
      (''modified'', mk_u64 J (user_modified x)),
      (''signingUp'', mk_string J (user_signingUp x))]"

definition UserInfo_to_json :: "('o, 'v) poco \<Rightarrow> UserInfo \<Rightarrow> 'o \<Rightarrow> 'o" where
  "UserInfo_to_json J x = set_all J (UserInfo_fields J x)"

definition UserInfo_from_json :: "('o, 'v) poco \<Rightarrow> ('o, UserInfo) reader" where
  "UserInfo_from_json J Obj = try_all
     [field_from_json J (v_string J) Obj ''id'' user_id_update,
      field_from_json J (v_string J) Obj ''name'' user_name_update,
      field_from_json J (v_string J) Obj ''description'' user_description_update,
      field_from_json J (v_string J) Obj ''avatar'' user_avatar_update,
      field_from_json J (v_string J) Obj ''email'' user_email_update,
      field_from_json J (v_string J) Obj ''validationEmail'' user_validationEmail_update,
      field_from_json J (v_string J) Obj ''validationURI'' user_validationURI_update,
      field_from_json J (v_string J) Obj ''currentLoginURI'' user_currentLoginURI_update,
      field_from_json J (v_string J) Obj ''locale'' user_locale_update,
      objects_from_json J (NoteInfo_from_json J) NoteInfo_init Obj ''notes'' user_notes_update,
      field_from_json J (v_string J) Obj ''location'' user_location_update,
      field_from_json J (v_string J) Obj ''owner'' user_owner_update,
      field_from_json J (role_of J) Obj ''userRole'' user_userRole_update,
      field_from_json J (v_string J) Obj ''securityPolicy'' user_securityPolicy_update,
      object_from_json J (UserLoginLoginExtensions_from_json J) Obj ''userTypeProprietaryInfo'' user_userTypeProprietaryInfo_update,
      field_from_json J (v_u64 J) Obj ''validationDate'' user_validationDate_update,
      field_from_json J (v_u64 J) Obj ''creationDate'' user_creationDate_update,
      field_from_json J (v_u64 J) Obj ''lastLogin'' user_lastLogin_update,
      field_from_json J (v_u64 J) Obj ''lastPasswordChange'' user_lastPasswordChange_update,
      field_from_json J (v_u64 J) Obj ''lastEmailCheck'' user_lastEmailCheck_update,
      field_from_json J (v_u64 J) Obj ''securityPolicyChange'' user_securityPolicyChange_update,
      field_from_json J (bool_of J) Obj ''validated'' user_validated_update,
      field_from_json J (bool_of J) Obj ''changePassword'' user_changePassword_update,
      field_from_json J (bool_of J) Obj ''waitingForEmailCheck'' user_waitingForEmailCheck_update,
      field_from_json J (bool_of J) Obj ''suspended'' user_suspended_update,
      field_from_json J (bool_of J) Obj ''blackListed'' user_blackListed_update,
      field_from_json J (v_string J) Obj ''currentPassword'' user_currentPassword_update,
      list_from_json J (v_string J) Obj ''lastPasswords'' user_lastPasswords_update,
      field_from_json J (v_string J) Obj ''oauthType'' user_oauthType_update,
      field_from_json J (v_string J) Obj ''oauthUserInfo'' user_oauthUserInfo_update,
      field_from_json J (v_u64 J) Obj ''modified'' user_modified_update,
      field_from_json J (v_string J) Obj ''signingUp'' user_signingUp_update]"

definition UserInfoAndPolicy_fields :: "('o, 'v) poco \<Rightarrow> UserInfoAndPolicy \<Rightarrow> (string \<times> 'v) list" where
  "UserInfoAndPolicy_fields J x =
     [(''tokenInfo'', object_to_json J (WebToken_to_json J) (uip_webtoken x)),
      (''userInfo'', object_to_json J (UserInfo_to_json J) (uip_userinfo x))]"

definition UserInfoAndPolicy_to_json :: "('o, 'v) poco \<Rightarrow> UserInfoAndPolicy \<Rightarrow> 'o \<Rightarrow> 'o" where
  "UserInfoAndPolicy_to_json J x = set_all J (UserInfoAndPolicy_fields J x)"

definition UserInfoAndPolicy_from_json :: "('o, 'v) poco \<Rightarrow> ('o, UserInfoAndPolicy) reader" where
  "UserInfoAndPolicy_from_json J Obj = try_all
     [object_from_json J (WebToken_from_json J) Obj ''tokenInfo'' uip_webtoken_update,
      object_from_json J (UserInfo_from_json J) Obj ''userInfo'' uip_userinfo_update]"

section \<open>Merging notes\<close>

text \<open>\<open>clock\<close> answers the calls of \<^verbatim>\<open>Utils::Now()\<close> one after the other.\<close>

definition stamped :: "(nat \<Rightarrow> u64) \<Rightarrow> UserInfo \<Rightarrow> NoteInfo list \<Rightarrow> NoteInfo list" where
  "stamped clock UInfo NIV =
     map (\<lambda>(n, i). \<lparr> note_created = clock n, note_createdBy = user_email UInfo, note_note = note_note i \<rparr>) (enumerate 0 NIV)"

definition MergeNotes_json ::
  "('o, 'v) poco \<Rightarrow> (nat \<Rightarrow> u64) \<Rightarrow> 'o \<Rightarrow> UserInfo \<Rightarrow> NoteInfo list \<Rightarrow> NoteInfo list \<times> bool" where
  "MergeNotes_json J clock Obj UInfo Notes =
     (if p_has J Obj ''notes'' \<and> p_isArray J Obj ''notes''
      then case v_string J (p_get J Obj ''notes'') of
             Inl _ \<Rightarrow> (Notes, False)
           | Inr text \<Rightarrow> (Notes @ stamped clock UInfo (to_object_array J (NoteInfo_from_json J) NoteInfo_init text), True)
      else (Notes, True))"

definition MergeNotes :: "(nat \<Rightarrow> u64) \<Rightarrow> NoteInfo list \<Rightarrow> UserInfo \<Rightarrow> NoteInfo list \<Rightarrow> NoteInfo list" where
  "MergeNotes clock NewNotes UInfo ExistingNotes = ExistingNotes @ stamped clock UInfo NewNotes"

lemma stamped_simps [simp]:
  "length (stamped clock U ns) = length ns" "map note_note (stamped clock U ns) = map note_note ns"
  "n \<in> set (stamped clock U ns) \<Longrightarrow> note_createdBy n = user_email U"
proof -
  have "map (note_note \<circ> snd) (enumerate 0 ns) = map note_note ns" by (simp flip: map_map)
  then show "map note_note (stamped clock U ns) = map note_note ns" by (simp add: stamped_def o_def case_prod_unfold)
qed (auto simp: stamped_def)

section \<open>Reading what was written\<close>

lemma read_role:
  assumes "poco_ok J" "stored J ob k (mk_string J (UserTypeToString r))"
  shows "field_from_json J (role_of J) ob k upd s = (upd (\<lambda>_. r) s, None)"
proof -
  have "present J ob k" "p_get J ob k = mk_string J (UserTypeToString r)"
    using stored_readable[OF assms(2,1)] by (auto simp: present_def)
  then show ?thesis using assms(1) by (simp add: field_from_json_def role_of_def poco_laws)
qed

lemma AclTemplate_roundtrip:
  assumes "poco_ok J"
  shows "AclTemplate_from_json J (AclTemplate_to_json J x (p_new J)) y = (x, True)"
proof -
  define ob where "ob = AclTemplate_to_json J x (p_new J)"
  have "list_all (\<lambda>(k, v). stored J ob k v) (AclTemplate_fields J x)"
    unfolding ob_def AclTemplate_to_json_def by (rule stored_members[OF assms]) (simp add: AclTemplate_fields_def)
  then show ?thesis
    unfolding ob_def[symmetric]
    by (simp only: AclTemplate_fields_def list.pred_inject prod.case, elim conjE,
        simp add: AclTemplate_from_json_def try_all_def json_reads assms AclTemplate.equality)
qed

lemma MobilePhoneNumber_roundtrip:
  assumes "poco_ok J"
  shows "MobilePhoneNumber_from_json J (MobilePhoneNumber_to_json J x (p_new J)) y = (x, True)"
proof -
  define ob where "ob = MobilePhoneNumber_to_json J x (p_new J)"
  have "list_all (\<lambda>(k, v). stored J ob k v) (MobilePhoneNumber_fields J x)"
    unfolding ob_def MobilePhoneNumber_to_json_def by (rule stored_members[OF assms]) (simp add: MobilePhoneNumber_fields_def)
  then show ?thesis
    unfolding ob_def[symmetric]
    by (simp only: MobilePhoneNumber_fields_def list.pred_inject prod.case, elim conjE,
        simp add: MobilePhoneNumber_from_json_def try_all_def json_reads assms MobilePhoneNumber.equality)
qed

lemma MfaAuthInfo_roundtrip:
  assumes "poco_ok J"
  shows "MfaAuthInfo_from_json J (MfaAuthInfo_to_json J x (p_new J)) y = (x, True)"
proof -
  define ob where "ob = MfaAuthInfo_to_json J x (p_new J)"
  have "list_all (\<lambda>(k, v). stored J ob k v) (MfaAuthInfo_fields J x)"
    unfolding ob_def MfaAuthInfo_to_json_def by (rule stored_members[OF assms]) (simp add: MfaAuthInfo_fields_def)
  then show ?thesis
    unfolding ob_def[symmetric]
    by (simp only: MfaAuthInfo_fields_def list.pred_inject prod.case, elim conjE,
        simp add: MfaAuthInfo_from_json_def try_all_def json_reads assms MfaAuthInfo.equality)
qed

lemma WebToken_roundtrip:
  assumes "poco_ok J"
  shows "WebToken_from_json J (WebToken_to_json J x (p_new J)) y =
    (x \<lparr> tok_id_token := tok_id_token y, tok_errorCode := tok_errorCode y \<rparr>, True)"
proof -
  define ob where "ob = WebToken_to_json J x (p_new J)"
  have "consistent (WebToken_fields J x)"
    using consistent_again[of "''errorCode''" "mk_u64 J (tok_errorCode x)" "take 10 (WebToken_fields J x)"
        "drop 11 (WebToken_fields J x)"]
    by (simp add: WebToken_fields_def)
  then have m: "list_all (\<lambda>(k, v). stored J ob k v) (WebToken_fields J x)"
    unfolding ob_def WebToken_to_json_def by (auto simp: list_all_iff intro: stored_set_all[OF assms])
  have acl: "p_isObject J ob ''aclTemplate''" "fst (AclTemplate_from_json J (p_object J ob ''aclTemplate'') a) = tok_acl_template x"
    if "stored J ob ''aclTemplate'' (object_to_json J (AclTemplate_to_json J) (tok_acl_template x))" for a
    using that assms by (auto simp: stored_def object_to_json_def poco_laws AclTemplate_roundtrip)
  show ?thesis
    using m unfolding ob_def[symmetric]
    by (simp only: WebToken_fields_def list.pred_inject prod.case, elim conjE,
        simp add: WebToken_from_json_def try_all_def json_reads acl assms WebToken.equality)
qed

lemma UserLoginLoginExtensions_roundtrip:
  assumes "poco_ok J"
  shows "UserLoginLoginExtensions_from_json J (UserLoginLoginExtensions_to_json J x (p_new J)) y =
    (x \<lparr> ext_mobiles := ext_mobiles y @ ext_mobiles x \<rparr>, True)"
proof -
  define ob where "ob = UserLoginLoginExtensions_to_json J x (p_new J)"
  have m: "list_all (\<lambda>(k, v). stored J ob k v) (UserLoginLoginExtensions_fields J x)"
    unfolding ob_def UserLoginLoginExtensions_to_json_def
    by (rule stored_members[OF assms]) (simp add: UserLoginLoginExtensions_fields_def)
  have ms: "objects_from_json J (MobilePhoneNumber_from_json J) MobilePhoneNumber_init ob k ext_mobiles_update s
      = (ext_mobiles_update (\<lambda>l. l @ map (\<lambda>m. m) us) s, None)"
    if "stored J ob k (objects_to_json J (MobilePhoneNumber_to_json J) us)" for k us and s :: UserLoginLoginExtensions
    using that by (intro read_objects[OF assms]) (simp_all add: MobilePhoneNumber_roundtrip assms)
  have mfa: "object_from_json J (MfaAuthInfo_from_json J) ob k upd s = (upd (\<lambda>_. a) s, None)"
    if "stored J ob k (object_to_json J (MfaAuthInfo_to_json J) a)" for k a upd and s :: UserLoginLoginExtensions
    using that by (intro read_object[OF assms]) (simp_all add: MfaAuthInfo_roundtrip assms)
  show ?thesis
    using m unfolding ob_def[symmetric]
    by (simp only: UserLoginLoginExtensions_fields_def list.pred_inject prod.case, elim conjE,
        simp add: UserLoginLoginExtensions_from_json_def try_all_def json_reads ms mfa assms UserLoginLoginExtensions.equality)
qed

lemma UserInfo_roundtrip:
  assumes "poco_ok J"
  shows "UserInfo_from_json J (UserInfo_to_json J x (p_new J)) (UserInfo_init r m) = (x, True)"
proof -
  define ob where "ob = UserInfo_to_json J x (p_new J)"
  have m: "list_all (\<lambda>(k, v). stored J ob k v) (UserInfo_fields J x)"
    unfolding ob_def UserInfo_to_json_def by (rule stored_members[OF assms]) (simp add: UserInfo_fields_def)
  have merged: "objects_from_json J (NoteInfo_from_json J) NoteInfo_init ob k user_notes_update s
      = (user_notes_update (\<lambda>l. l @ map (\<lambda>n. n) us) s, None)"
    if "stored J ob k (objects_to_json J (NoteInfo_to_json J) us)" for k us and s :: UserInfo
    using that by (intro read_objects[OF assms]) (simp_all add: NoteInfo_roundtrip assms)
  have ext: "object_from_json J (UserLoginLoginExtensions_from_json J) ob k upd s
      = (upd (\<lambda>y. a \<lparr> ext_mobiles := ext_mobiles y @ ext_mobiles a \<rparr>) s, None)"
    if "stored J ob k (object_to_json J (UserLoginLoginExtensions_to_json J) a)" for k a upd and s :: UserInfo
    using that by (intro read_object[OF assms]) (simp_all add: UserLoginLoginExtensions_roundtrip assms)
  show ?thesis
    using m unfolding ob_def[symmetric]
    by (simp only: UserInfo_fields_def list.pred_inject prod.case, elim conjE,
        simp add: UserInfo_from_json_def try_all_def json_reads read_role merged ext assms UserInfo_init_def
          UserLoginLoginExtensions_init_def UserInfo.equality UserLoginLoginExtensions.equality)
qed

text \<open>
  A user and its token written as JSON and read back are the same, except the id token, which is not written, and
  the error code, which is written twice and not read.
\<close>

theorem UserInfoAndPolicy_roundtrip:
  assumes "poco_ok J"
  shows "UserInfoAndPolicy_from_json J (UserInfoAndPolicy_to_json J x (p_new J)) (UserInfoAndPolicy_init r m) =
    (x \<lparr> uip_webtoken := (uip_webtoken x) \<lparr> tok_id_token := [], tok_errorCode := 0 \<rparr> \<rparr>, True)"
proof -
  define ob where "ob = UserInfoAndPolicy_to_json J x (p_new J)"
  have f: "list_all (\<lambda>(k, v). stored J ob k v) (UserInfoAndPolicy_fields J x)"
    unfolding ob_def UserInfoAndPolicy_to_json_def
    by (rule stored_members[OF assms]) (simp add: UserInfoAndPolicy_fields_def)
  have tok: "object_from_json J (WebToken_from_json J) ob k upd s
      = (upd (\<lambda>y. a \<lparr> tok_id_token := tok_id_token y, tok_errorCode := tok_errorCode y \<rparr>) s, None)"
    if "stored J ob k (object_to_json J (WebToken_to_json J) a)" for k a upd and s :: UserInfoAndPolicy
    using that by (intro read_object[OF assms]) (simp_all add: WebToken_roundtrip assms)
  have user: "object_from_json J (UserInfo_from_json J) ob ''userInfo'' uip_userinfo_update s
      = (s \<lparr> uip_userinfo := uip_userinfo x \<rparr>, None)"
    if "uip_userinfo s = UserInfo_init r m" for s :: UserInfoAndPolicy
  proof -
    have "p_isObject J ob ''userInfo''" "\<not> p_isNull J ob ''userInfo''"
      "p_object J ob ''userInfo'' = UserInfo_to_json J (uip_userinfo x) (p_new J)"
      using f assms by (auto simp: UserInfoAndPolicy_fields_def stored_def object_to_json_def poco_laws)
    then show ?thesis using that by (simp add: object_from_json_def UserInfo_roundtrip assms UserInfoAndPolicy.equality)
  qed
  show ?thesis
    using f unfolding ob_def[symmetric]
    by (simp only: UserInfoAndPolicy_fields_def list.pred_inject prod.case, elim conjE,
        simp add: UserInfoAndPolicy_from_json_def try_all_def tok user
          UserInfoAndPolicy_init_def WebToken_init_def UserInfoAndPolicy.equality WebToken.equality)
qed

lemma UserInfoAndPolicy_roundtrip_witness:
  "uip_webtoken (fst (UserInfoAndPolicy_from_json tree_lib (UserInfoAndPolicy_to_json tree_lib
      ((UserInfoAndPolicy_init ADMIN 5) \<lparr> uip_webtoken := WebToken_init \<lparr> tok_errorCode := 3, tok_created := 7 \<rparr> \<rparr>) (p_new tree_lib))
      (UserInfoAndPolicy_init UNKNOWN 0))) = WebToken_init \<lparr> tok_created := 7 \<rparr>"
  by (simp add: UserInfoAndPolicy_roundtrip[OF tree_lib_ok] WebToken_init_def)

end
