(* ===== verification/Orm.thy ===== *)
theory Orm
  imports CppStd Fp "HOL-Library.Sublist"
begin

text \<open>
  \<^verbatim>\<open>src/src/framework/orm.h\<close>: the text of the SQL statements the storage classes build, and the loops over
  their answers.  The database is an argument: a function from the text of a statement to the rows of its
  answer or the exception it raises.
\<close>

datatype DBType = sqlite | pgsql | mysql
datatype FieldType = FT_INT | FT_BIGINT | FT_TEXT | FT_VARCHAR | FT_BLOB | FT_BOOLEAN | FT_REAL
datatype Indextype = ASC | DESC

record Field =
  Field_Name :: string
  Field_Type :: FieldType
  Field_Size :: int
  Field_Index :: bool

definition Field_typed :: "string \<Rightarrow> FieldType \<Rightarrow> Field" where
  "Field_typed N T = \<lparr> Field_Name = N, Field_Type = T, Field_Size = 0, Field_Index = False \<rparr>"

definition Field_sized :: "string \<Rightarrow> int \<Rightarrow> bool \<Rightarrow> Field" where
  "Field_sized N S I =
     \<lparr> Field_Name = N, Field_Type = (if S > 0 \<and> S < 255 then FT_VARCHAR else FT_TEXT),
       Field_Size = S, Field_Index = I \<rparr>"

definition to_string_int :: "int \<Rightarrow> string" where
  "to_string_int i = (if i < 0 then CHR ''-'' # dec_string (nat (- i)) else dec_string (nat i))"

fun FieldTypeToChar :: "DBType \<Rightarrow> FieldType \<Rightarrow> int \<Rightarrow> string" where
  "FieldTypeToChar T FT_INT S = ''INT''"
| "FieldTypeToChar T FT_BIGINT S = ''BIGINT''"
| "FieldTypeToChar T FT_TEXT S = ''TEXT''"
| "FieldTypeToChar T FT_BOOLEAN S = ''BOOLEAN''"
| "FieldTypeToChar T FT_VARCHAR S = (if S \<noteq> 0 then ''VARCHAR('' @ to_string_int S @ '')'' else ''TEXT'')"
| "FieldTypeToChar T FT_BLOB S = (if T = mysql then ''LONGBLOB'' else if T = pgsql then ''BYTEA'' else ''BLOB'')"
| "FieldTypeToChar T FT_REAL S = ''REAL''"

section \<open>Clauses\<close>

abbreviation quote :: char where
  "quote \<equiv> CHR 0x27"

definition Escape :: "string \<Rightarrow> string" where
  "Escape S = concat (map (\<lambda>i. if i = quote then [quote, quote] else [i]) S)"

datatype sql_value = SqlString string | SqlBool bool | SqlInt int

text \<open>\<^verbatim>\<open>std::to_string\<close> of a floating value: six decimals of the exact value, the last one rounded to even.\<close>

fun to_string_real :: "fp \<Rightarrow> string" where
  "to_string_real (Fin x) =
     (let k = nat (round_even (\<bar>x\<bar> * 1000000))
      in (if x < 0 then ''-'' else []) @ dec_string (k div 1000000) @ ''.'' @ fixed_digits 10 digit_char 6 (k mod 1000000))"
| "to_string_real PInf = ''inf''"
| "to_string_real NInf = ''-inf''"
| "to_string_real NaN = ''nan''"

text \<open>\<^verbatim>\<open>WHERE_AND\<close>: an empty string adds no condition.  The other arithmetic types are those of \<open>SqlInt\<close> and the floating
  ones.\<close>

type_synonym where_value = "sql_value + fp"

fun WHERE_AND_step :: "string \<Rightarrow> string \<times> where_value \<Rightarrow> string" where
  "WHERE_AND_step Result (fieldName, Inl (SqlString Value)) =
     (if Value \<noteq> []
      then (if Result \<noteq> [] then Result @ '' and '' else Result)
             @ fieldName @ ''='' @ [quote] @ Escape Value @ [quote]
      else Result)"
| "WHERE_AND_step Result (fieldName, Inl (SqlBool Value)) =
     (if Result \<noteq> [] then Result @ '' and '' else Result)
       @ fieldName @ ''='' @ (if Value then ''true'' else ''false'')"
| "WHERE_AND_step Result (fieldName, Inl (SqlInt Value)) =
     (if Result \<noteq> [] then Result @ '' and '' else Result) @ fieldName @ ''='' @ to_string_int Value"
| "WHERE_AND_step Result (fieldName, Inr Value) =
     (if Result \<noteq> [] then Result @ '' and '' else Result) @ fieldName @ ''='' @ to_string_real Value"

definition WHERE_AND :: "(string \<times> where_value) list \<Rightarrow> string" where
  "WHERE_AND args = foldl WHERE_AND_step [] args"

datatype SqlComparison = EQ | NEQ | LT | LTE | GT | GTE
datatype SqlBinaryOp = AND | OR

fun SQLCOMPS :: "SqlComparison \<Rightarrow> string" where
  "SQLCOMPS EQ = ''=''" | "SQLCOMPS NEQ = ''!=''" | "SQLCOMPS LT = ''<''" | "SQLCOMPS LTE = ''<=''"
| "SQLCOMPS GT = ''>''" | "SQLCOMPS GTE = ''>=''"

fun BOPS :: "SqlBinaryOp \<Rightarrow> string" where
  "BOPS AND = '' and ''" | "BOPS OR = '' or ''"

fun OP_cmp :: "string \<Rightarrow> SqlComparison \<Rightarrow> sql_value \<Rightarrow> string" where
  "OP_cmp F cmp (SqlBool V) = ''('' @ F @ SQLCOMPS cmp @ (if V then ''true'' else ''false'') @ '')''"
| "OP_cmp F cmp (SqlInt V) = ''('' @ F @ SQLCOMPS cmp @ to_string_int V @ '')''"
| "OP_cmp F cmp (SqlString V) = ''('' @ F @ SQLCOMPS cmp @ [quote] @ Escape V @ [quote] @ '')''"

text \<open>The operands after the first, with the operator before each.  \<open>OP_open\<close> are the two overloads that
  take the flag, \<open>OP_all\<close> the two that open the parenthesis.\<close>

fun OP_open :: "string \<Rightarrow> (SqlBinaryOp \<times> string) list \<Rightarrow> string" where
  "OP_open P1 [] = P1"
| "OP_open P1 [(BOP, P2)] = P1 @ BOPS BOP @ P2 @ '')''"
| "OP_open P1 ((BOP, P2) # More) = P1 @ BOPS BOP @ OP_open P2 More @ '')''"

fun OP_all :: "string \<Rightarrow> (SqlBinaryOp \<times> string) list \<Rightarrow> string" where
  "OP_all P1 [] = P1"
| "OP_all P1 [(BOP, P2)] = ''('' @ P1 @ BOPS BOP @ P2 @ '')''"
| "OP_all P1 ((BOP, P2) # More) = ''('' @ P1 @ BOPS BOP @ OP_open P2 More"

section \<open>Statements\<close>

fun convert_params_loop :: "nat \<Rightarrow> string \<Rightarrow> string" where
  "convert_params_loop Idx [] = []"
| "convert_params_loop Idx (i # S) =
     (if i = CHR ''?'' then CHR ''$'' # dec_string Idx @ convert_params_loop (Idx + 1) S
      else i # convert_params_loop Idx S)"

definition ConvertParams :: "DBType \<Rightarrow> string \<Rightarrow> string" where
  "ConvertParams T S = (if T \<noteq> pgsql then S else convert_params_loop 1 S)"

definition ComputeRange :: "DBType \<Rightarrow> u64 \<Rightarrow> u64 \<Rightarrow> string" where
  "ComputeRange T From HowMany =
     (case T of
        sqlite \<Rightarrow> '' LIMIT '' @ dec_string (unat From) @ '', '' @ dec_string (unat HowMany) @ '' ''
      | _ \<Rightarrow> '' LIMIT '' @ dec_string (unat HowMany) @ '' OFFSET '' @ dec_string (unat From) @ '' '')"

text \<open>The field lists the constructor of \<^verbatim>\<open>DB\<close> builds; \<open>lower\<close> is \<^verbatim>\<open>Poco::toLower\<close>.\<close>

fun joined :: "string list \<Rightarrow> string" where
  "joined [] = []"
| "joined [x] = x"
| "joined (x # xs) = x @ '', '' @ joined xs"

definition CreateFields :: "(string \<Rightarrow> string) \<Rightarrow> DBType \<Rightarrow> Field list \<Rightarrow> string" where
  "CreateFields lower T Fields =
     joined (map (\<lambda>i. lower (Field_Name i) @ '' '' @ FieldTypeToChar T (Field_Type i) (Field_Size i)
       @ (if Field_Index i then '' unique primary key'' else '''')) Fields)"

definition SelectFields :: "(string \<Rightarrow> string) \<Rightarrow> Field list \<Rightarrow> string" where
  "SelectFields lower Fields = joined (map (\<lambda>i. lower (Field_Name i)) Fields)"

definition UpdateFields :: "(string \<Rightarrow> string) \<Rightarrow> Field list \<Rightarrow> string" where
  "UpdateFields lower Fields = joined (map (\<lambda>i. lower (Field_Name i) @ ''=?'') Fields)"

definition SelectList :: "Field list \<Rightarrow> string" where
  "SelectList Fields = (if Fields = [] then '')'' else ''('' @ joined (map (\<lambda>_. ''?'') Fields) @ '')'')"

record table =
  TableName :: string
  Type :: DBType
  Select_Fields :: string

type_synonym 'row database = "string \<Rightarrow> 'row list cpp"

definition records_statement :: "table \<Rightarrow> u64 \<Rightarrow> u64 \<Rightarrow> string \<Rightarrow> string \<Rightarrow> string" where
  "records_statement D Offset HowMany Where OrderBy =
     ''select '' @ Select_Fields D @ '' from '' @ TableName D
       @ (if Where = [] then '''' else '' where '' @ Where) @ OrderBy
       @ ComputeRange (Type D) Offset HowMany"

text \<open>\<^verbatim>\<open>GetRecords\<close> appends to its argument; it answers false when there was no row.\<close>

definition GetRecords ::
  "'row database \<Rightarrow> ('row \<Rightarrow> 'r) \<Rightarrow> table \<Rightarrow> u64 \<Rightarrow> u64 \<Rightarrow> string \<Rightarrow> string \<Rightarrow> 'r list \<Rightarrow> 'r list \<times> bool" where
  "GetRecords db Convert D Offset HowMany Where OrderBy Records =
     (case db (records_statement D Offset HowMany Where OrderBy) of
        Inl _ \<Rightarrow> (Records, False)
      | Inr RL \<Rightarrow> if length RL > 0 then (Records @ map Convert RL, True) else (Records, False))"

text \<open>The callback returns the new state of what it captured, and whether to go on.\<close>

fun visit :: "('r \<Rightarrow> 's \<Rightarrow> 's \<times> bool) \<Rightarrow> 'r list \<Rightarrow> 's \<Rightarrow> 's \<times> bool" where
  "visit F [] s = (s, True)"
| "visit F (i # Records) s = (case F i s of (s', True) \<Rightarrow> visit F Records s' | (s', False) \<Rightarrow> (s', False))"

partial_function (option) iterate_loop ::
  "'row database \<Rightarrow> ('row \<Rightarrow> 'r) \<Rightarrow> table \<Rightarrow> string \<Rightarrow> ('r \<Rightarrow> 's \<Rightarrow> 's \<times> bool) \<Rightarrow> u64 \<Rightarrow> 's \<Rightarrow> 's option" where
  "iterate_loop db Convert D Where F Offset s =
     (case GetRecords db Convert D Offset 50 Where [] [] of
        (Records, found) \<Rightarrow>
          if \<not> found then Some s
          else (case visit F Records s of
                  (s', on) \<Rightarrow>
                    if \<not> on then Some s'
                    else if length Records < 50 then Some s'
                    else iterate_loop db Convert D Where F (Offset + 50) s'))"

definition Iterate ::
  "'row database \<Rightarrow> ('row \<Rightarrow> 'r) \<Rightarrow> table \<Rightarrow> string \<Rightarrow> ('r \<Rightarrow> 's \<Rightarrow> 's \<times> bool) \<Rightarrow> 's \<Rightarrow> 's option" where
  "Iterate db Convert D Where F s = iterate_loop db Convert D Where F 0 s"

section \<open>Reading a clause back\<close>

text \<open>How SQL reads a conjunction of comparisons: a string literal ends at the first quote that is not
  doubled, any other value at the next space, and two hyphens start a comment.\<close>

fun unquote :: "string \<Rightarrow> (string \<times> string) option" where
  "unquote [] = None"
| "unquote (c # cs) =
     (if c = quote then
        (case cs of
           c' # cs' \<Rightarrow> if c' = quote then map_option (apfst (Cons quote)) (unquote cs') else Some ([], cs)
         | [] \<Rightarrow> Some ([], []))
      else map_option (apfst (Cons c)) (unquote cs))"

text \<open>MySQL also gives a meaning to a backslash in a literal, unless the server runs with \<^verbatim>\<open>NO_BACKSLASH_ESCAPES\<close>.\<close>

abbreviation backslash :: char where
  "backslash \<equiv> CHR 0x5C"

definition mysql_escaped :: "char \<Rightarrow> string" where
  "mysql_escaped c =
     (if c = CHR ''n'' then [CHR 0x0A] else if c = CHR ''t'' then [CHR 0x09] else if c = CHR ''r'' then [CHR 0x0D]
      else if c = CHR ''0'' then [CHR 0x00] else if c = CHR ''b'' then [CHR 0x08] else if c = CHR ''Z'' then [CHR 0x1A]
      else if c = CHR ''%'' \<or> c = CHR ''_'' then [backslash, c] else [c])"

fun unquote_mysql :: "string \<Rightarrow> (string \<times> string) option" where
  "unquote_mysql [] = None"
| "unquote_mysql (c # cs) =
     (if c = backslash then
        (case cs of [] \<Rightarrow> None | c' # cs' \<Rightarrow> map_option (apfst ((@) (mysql_escaped c'))) (unquote_mysql cs'))
      else if c = quote then
        (case cs of
           c' # cs' \<Rightarrow> if c' = quote then map_option (apfst (Cons quote)) (unquote_mysql cs') else Some ([], cs)
         | [] \<Rightarrow> Some ([], []))
      else map_option (apfst (Cons c)) (unquote_mysql cs))"

definition unquote_in :: "DBType \<Rightarrow> string \<Rightarrow> (string \<times> string) option" where
  "unquote_in T = (if T = mysql then unquote_mysql else unquote)"

datatype sql_operand = Literal string | Word string

definition read_cond :: "DBType \<Rightarrow> string \<Rightarrow> ((string \<times> sql_operand) \<times> string) option" where
  "read_cond T cs =
     (let name = takeWhile (\<lambda>c. c \<noteq> CHR ''='') cs; v = drop (Suc (length name)) cs
      in if v = [] then None
         else if hd v = quote then map_option (\<lambda>(l, rest). ((name, Literal l), rest)) (unquote_in T (tl v))
         else let w = takeWhile (\<lambda>c. c \<noteq> CHR '' '') v in Some ((name, Word w), drop (length w) v))"

lemma unquote_length: "unquote cs = Some (l, rest) \<Longrightarrow> length rest \<le> length cs"
  by (induction cs arbitrary: l rest rule: unquote.induct) (auto split: if_splits list.splits, fastforce+)

lemma unquote_mysql_length: "unquote_mysql cs = Some (l, rest) \<Longrightarrow> length rest \<le> length cs"
  by (induction cs arbitrary: l rest rule: unquote_mysql.induct) (auto split: if_splits list.splits, fastforce+)

lemma read_cond_length: "read_cond T cs = Some (c, rest) \<Longrightarrow> length rest \<le> length cs"
  using unquote_length[of "tl (drop (Suc (length (takeWhile (\<lambda>c. c \<noteq> CHR ''='') cs))) cs)"]
    unquote_mysql_length[of "tl (drop (Suc (length (takeWhile (\<lambda>c. c \<noteq> CHR ''='') cs))) cs)"]
  by (fastforce simp: read_cond_def Let_def unquote_in_def split: if_splits)

function read_where :: "DBType \<Rightarrow> string \<Rightarrow> (string \<times> sql_operand) list option" where
  "read_where T cs =
     (case read_cond T cs of
        None \<Rightarrow> None
      | Some (c, rest) \<Rightarrow>
          if rest = [] \<or> take 4 rest = '' -- '' then Some [c]
          else if take 5 rest = '' and '' then map_option (Cons c) (read_where T (drop 5 rest))
          else None)"
  by pat_completeness auto
termination
  by (relation "measure (length \<circ> snd)")
    (auto dest!: read_cond_length simp: length_greater_0_conv[symmetric] simp del: length_greater_0_conv)

declare read_where.simps [simp del]

text \<open>A text without a quote is its own literal.\<close>

lemma Escape_plain: "quote \<notin> set v \<Longrightarrow> Escape v = v"
  by (induction v) (auto simp: Escape_def)

lemma unquote_Escape:
  assumes "rest = [] \<or> hd rest \<noteq> quote"
  shows "unquote (Escape v @ quote # rest) = Some (v, rest)"
proof (induction v)
  case Nil
  show ?case using assms by (auto simp: Escape_def split: list.split)
qed (auto simp: Escape_def)

lemma unquote_mysql_Escape:
  assumes "rest = [] \<or> hd rest \<noteq> quote" "backslash \<notin> set v"
  shows "unquote_mysql (Escape v @ quote # rest) = Some (v, rest)"
  using assms(2)
proof (induction v)
  case Nil
  show ?case using assms(1) by (auto simp: Escape_def split: list.split)
qed (auto simp: Escape_def)

lemma unquote_in_Escape:
  assumes "rest = [] \<or> hd rest \<noteq> quote" "T = mysql \<longrightarrow> backslash \<notin> set v"
  shows "unquote_in T (Escape v @ quote # rest) = Some (v, rest)"
  using assms unquote_Escape unquote_mysql_Escape by (simp add: unquote_in_def)

text \<open>The clause as a list of conditions.\<close>

fun adds :: "string \<times> where_value \<Rightarrow> bool" where
  "adds (f, Inl (SqlString v)) \<longleftrightarrow> v \<noteq> []"
| "adds (f, _) \<longleftrightarrow> True"

fun cond_text :: "string \<times> where_value \<Rightarrow> string" where
  "cond_text (f, Inl (SqlString v)) = f @ ''='' @ [quote] @ Escape v @ [quote]"
| "cond_text (f, Inl (SqlBool v)) = f @ ''='' @ (if v then ''true'' else ''false'')"
| "cond_text (f, Inl (SqlInt v)) = f @ ''='' @ to_string_int v"
| "cond_text (f, Inr v) = f @ ''='' @ to_string_real v"

fun meant :: "string \<times> where_value \<Rightarrow> string \<times> sql_operand" where
  "meant (f, Inl (SqlString v)) = (f, Literal v)"
| "meant (f, Inl (SqlBool v)) = (f, Word (if v then ''true'' else ''false''))"
| "meant (f, Inl (SqlInt v)) = (f, Word (to_string_int v))"
| "meant (f, Inr v) = (f, Word (to_string_real v))"

text \<open>The string values, as those in which MySQL looks for a backslash.\<close>

fun has_backslash :: "string \<times> where_value \<Rightarrow> bool" where
  "has_backslash (f, Inl (SqlString v)) \<longleftrightarrow> backslash \<in> set v"
| "has_backslash (f, _) \<longleftrightarrow> False"

fun and_join :: "string list \<Rightarrow> string" where
  "and_join [] = []"
| "and_join [x] = x"
| "and_join (x # xs) = x @ '' and '' @ and_join xs"

lemma cond_text_nonempty: "cond_text a \<noteq> []"
  by (cases a rule: cond_text.cases) auto

lemma WHERE_AND_step_eq:
  "WHERE_AND_step R a = (if adds a then (if R = [] then cond_text a else R @ '' and '' @ cond_text a) else R)"
  by (cases a rule: cond_text.cases) auto

lemma and_join_snoc: "and_join (xs @ [x]) = (if xs = [] then x else and_join xs @ '' and '' @ x)"
  by (induction xs rule: and_join.induct) auto

lemma and_join_empty: "\<forall>x \<in> set xs. x \<noteq> [] \<Longrightarrow> and_join xs = [] \<longleftrightarrow> xs = []"
  by (cases xs rule: and_join.cases) auto

lemma WHERE_AND_eq: "WHERE_AND args = and_join (map cond_text (filter adds args))"
proof (induction args rule: rev_induct)
  case (snoc a args)
  have "WHERE_AND (args @ [a]) = WHERE_AND_step (WHERE_AND args) a" by (simp add: WHERE_AND_def)
  with snoc and_join_empty[of "map cond_text (filter adds args)"] show ?case
    by (auto simp: WHERE_AND_step_eq and_join_snoc cond_text_nonempty)
qed (simp add: WHERE_AND_def)

lemma plain_word:
  "c \<in> set (to_string_int i) \<Longrightarrow> c \<noteq> CHR '' '' \<and> c \<noteq> quote" "to_string_int i \<noteq> []"
  "c \<in> set (to_string_real x) \<Longrightarrow> c \<noteq> CHR '' '' \<and> c \<noteq> quote" "to_string_real x \<noteq> []"
proof -
  have d: "isdigit c \<Longrightarrow> c \<noteq> CHR '' '' \<and> c \<noteq> quote" for c by (auto simp: isdigit_def char_code_def)
  have f: "c \<in> set (fixed_digits 10 digit_char n k) \<Longrightarrow> c \<noteq> CHR '' '' \<and> c \<noteq> quote" for c n k
    using d fixed_digits_set[of 10 c digit_char n k] by fastforce
  show "c \<in> set (to_string_int i) \<Longrightarrow> c \<noteq> CHR '' '' \<and> c \<noteq> quote"
    using d by (auto simp: to_string_int_def dest!: dec_string_digits split: if_splits)
  show "c \<in> set (to_string_real x) \<Longrightarrow> c \<noteq> CHR '' '' \<and> c \<noteq> quote"
    using d f by (cases x) (auto simp: Let_def simp del: fixed_digits.simps dest!: dec_string_digits split: if_splits)
  show "to_string_int i \<noteq> []" by (simp add: to_string_int_def)
  show "to_string_real x \<noteq> []" by (cases x) (simp_all add: Let_def)
qed

lemma read_cond_word:
  assumes "CHR ''='' \<notin> set f" "rest = [] \<or> hd rest = CHR '' ''" "w \<noteq> []" "\<forall>c \<in> set w. c \<noteq> CHR '' '' \<and> c \<noteq> quote"
  shows "read_cond T (f @ CHR ''='' # w @ rest) = Some ((f, Word w), rest)"
proof -
  have "takeWhile (\<lambda>c. c \<noteq> CHR ''='') (f @ CHR ''='' # w @ rest) = f"
    using assms(1) by (subst takeWhile_append2) auto
  moreover have "takeWhile (\<lambda>c. c \<noteq> CHR '' '') (w @ rest) = w"
    using assms(2,4) by (subst takeWhile_append2) (auto simp: takeWhile_eq_Nil_iff)
  moreover have "hd (w @ rest) \<noteq> quote" using assms(3,4) by (cases w) auto
  ultimately show ?thesis using assms(3) by (simp add: read_cond_def)
qed

lemma read_cond_text:
  assumes "CHR ''='' \<notin> set (fst a)" "rest = [] \<or> hd rest = CHR '' ''" "T = mysql \<longrightarrow> \<not> has_backslash a"
  shows "read_cond T (cond_text a @ rest) = Some (meant a, rest)"
proof (cases a rule: cond_text.cases)
  case (1 f v)
  have "takeWhile (\<lambda>c. c \<noteq> CHR ''='') (f @ CHR ''='' # u) = f" for u
    using assms(1) 1 by (subst takeWhile_append2) auto
  then show ?thesis using 1 unquote_in_Escape[of rest T v] assms(2,3) by (auto simp: read_cond_def)
next
  case (2 f v)
  have "read_cond T (f @ CHR ''='' # (if v then ''true'' else ''false'') @ rest) = Some ((f, Word (if v then ''true'' else ''false'')), rest)"
    using assms(1,2) 2 by (intro read_cond_word) auto
  with 2 show ?thesis by simp
next
  case (3 f v)
  then show ?thesis using assms(1,2) plain_word by (simp add: read_cond_word)
next
  case (4 f v)
  then show ?thesis using assms(1,2) plain_word by (simp add: read_cond_word del: to_string_real.simps)
qed

lemma read_where_join:
  assumes "as \<noteq> []" "\<forall>a \<in> set as. CHR ''='' \<notin> set (fst a) \<and> (T = mysql \<longrightarrow> \<not> has_backslash a)"
  shows "read_where T (and_join (map cond_text as)) = Some (map meant as)"
  using assms
proof (induction as)
  case (Cons a as)
  show ?case
  proof (cases as)
    case Nil
    then show ?thesis
      using read_cond_text[of a "[]" T] Cons.prems by (simp add: read_where.simps[of T "cond_text a"])
  next
    case (Cons b bs)
    let ?rest = "'' and '' @ and_join (map cond_text as)"
    have eq: "and_join (map cond_text (a # as)) = cond_text a @ ?rest" using Cons by simp
    have "read_cond T (cond_text a @ ?rest) = Some (meant a, ?rest)"
      using Cons.prems by (intro read_cond_text) auto
    then show ?thesis
      unfolding eq using Cons.IH Cons.prems Cons by (subst read_where.simps) simp
  qed
qed simp

text \<open>
  C36: In the SQL of SQLite and PostgreSQL, and in MySQL's when no string value has a backslash, a where clause built from field
  names and values means what it was built from, whatever else the values contain: it is read as one comparison per value (none for
  an empty string), with each string value as one literal.  MySQL also takes a backslash as an escape, which the clause leaves as
  it is: there a value that is a backslash hides the end of its literal, and the next value is read as text of the clause.
\<close>

theorem WHERE_AND_reads_back:
  assumes "\<forall>a \<in> set args. CHR ''='' \<notin> set (fst a)" "\<exists>a \<in> set args. adds a"
    and "T = mysql \<longrightarrow> (\<forall>a \<in> set args. \<not> has_backslash a)"
  shows "read_where T (WHERE_AND args) = Some (map meant (filter adds args))
    \<and> read_where mysql (WHERE_AND [(''name'', Inl (SqlString [backslash])), (''venue'', Inl (SqlString '' and admin=1 -- ''))])
      = Some [(''name'', Literal (quote # '' and venue='')), (''admin'', Word ''1'')]"
proof
  show "read_where T (WHERE_AND args) = Some (map meant (filter adds args))"
    unfolding WHERE_AND_eq using assms by (intro read_where_join) (auto simp: filter_empty_conv)
  show "read_where mysql (WHERE_AND [(''name'', Inl (SqlString [backslash])), (''venue'', Inl (SqlString '' and admin=1 -- ''))])
      = Some [(''name'', Literal (quote # '' and venue='')), (''admin'', Word ''1'')]"
    by (simp add: WHERE_AND_def Escape_def read_where.simps[of mysql] read_cond_def unquote_in_def mysql_escaped_def)
qed

lemma WHERE_AND_reads_back_witness:
  "read_where pgsql (WHERE_AND [(''boardId'', Inl (SqlString (''x'' @ [quote] @ '' or '' @ [quote] @ ''1''))), (''venue'', Inl (SqlString [])),
      (''timestamp'', Inl (SqlInt (- 5))), (''rssi'', Inr (Fin (- 1 / 4)))])
   = Some [(''boardId'', Literal (''x'' @ [quote] @ '' or '' @ [quote] @ ''1'')), (''timestamp'', Word (to_string_int (- 5))),
       (''rssi'', Word (to_string_real (Fin (- 1 / 4))))]"
  using WHERE_AND_reads_back[of "[(''boardId'', Inl (SqlString (''x'' @ [quote] @ '' or '' @ [quote] @ ''1''))),
    (''venue'', Inl (SqlString [])), (''timestamp'', Inl (SqlInt (- 5))), (''rssi'', Inr (Fin (- 1 / 4)))]" pgsql]
  by (simp del: to_string_real.simps)

section \<open>Parentheses\<close>

definition balance :: "string \<Rightarrow> int" where
  "balance S = int (count_list S (CHR ''('')) - int (count_list S (CHR '')''))"

lemma balance_simps [simp]:
  "balance [] = 0" "balance (S @ T) = balance S + balance T" "balance (BOPS b) = 0"
  "balance (c # S) = (if c = CHR ''('' then 1 else if c = CHR '')'' then - 1 else 0) + balance S"
  by (auto simp: balance_def) (cases b; simp)

lemma balance_OP_open:
  "ps \<noteq> [] \<Longrightarrow> balance p = 0 \<Longrightarrow> \<forall>q \<in> set ps. balance (snd q) = 0 \<Longrightarrow> balance (OP_open p ps) = - int (length ps)"
proof (induction p ps rule: OP_open.induct)
  case (3 P1 BOP P2 q More)
  then have "balance (OP_open P2 (q # More)) = - int (length (q # More))" by simp
  with 3 show ?case by simp
qed auto

text \<open>
  Combining conditions with \<^verbatim>\<open>OP\<close> gives balanced parentheses for two or three operands only: every operand
  from the fourth on adds a closing parenthesis that nothing opens.
\<close>

theorem OP_all_balance:
  assumes "balance P = 0" "\<forall>q \<in> set More. balance (snd q) = 0" "More \<noteq> []"
  shows "balance (OP_all P More) = min 0 (2 - int (length More))"
proof (cases "(P, More)" rule: OP_all.cases)
  case (3 P1 BOP P2 q qs)
  then have "balance (OP_open P2 (q # qs)) = - int (length (q # qs))"
    using assms by (intro balance_OP_open) auto
  with 3 assms show ?thesis by simp
qed (use assms in auto)

lemma OP_all_balance_witness:
  "balance (OP_all ''(a=1)'' [(AND, ''(b=2)'')]) = 0
   \<and> balance (OP_all ''(a=1)'' [(AND, ''(b=2)''), (OR, ''(c=3)''), (AND, ''(d=4)'')]) = - 1"
  using OP_all_balance[of "''(a=1)''" "[(AND, ''(b=2)'')]"]
    OP_all_balance[of "''(a=1)''" "[(AND, ''(b=2)''), (OR, ''(c=3)''), (AND, ''(d=4)'')]"]
  by simp

section \<open>Iterating over a table\<close>

lemma visit_append: "visit F (xs @ ys) s = (case visit F xs s of (s', True) \<Rightarrow> visit F ys s' | r \<Rightarrow> r)"
  by (induction xs arbitrary: s) (auto split: prod.splits bool.splits)

text \<open>What the loop relies on: the database answers a page of the table with the rows of that page.\<close>

definition pages :: "'row database \<Rightarrow> table \<Rightarrow> string \<Rightarrow> 'row list \<Rightarrow> bool" where
  "pages db D Where rows \<longleftrightarrow>
     (\<forall>Offset. db (records_statement D Offset 50 Where []) = Inr (take 50 (drop (unat Offset) rows)))"

lemma iterate_loop_pages:
  assumes "pages db D Where rows" "length rows + 50 < 2 ^ 64" "unat Offset \<le> length rows + 49"
  shows "iterate_loop db Convert D Where F Offset s = Some (fst (visit F (map Convert (drop (unat Offset) rows)) s))"
  using assms(3)
proof (induction "length rows + 50 - unat Offset" arbitrary: Offset s rule: less_induct)
  case less
  let ?page = "take 50 (drop (unat Offset) rows)"
  have get: "GetRecords db Convert D Offset 50 Where [] [] = (map Convert ?page, length ?page > 0)"
    using assms(1) by (auto simp: GetRecords_def pages_def)
  obtain s' on where v: "visit F (map Convert ?page) s = (s', on)" by fastforce
  have step: "iterate_loop db Convert D Where F Offset s =
      (if \<not> length ?page > 0 then Some s else if \<not> on then Some s' else if length ?page < 50 then Some s'
       else iterate_loop db Convert D Where F (Offset + 50) s')"
    by (subst iterate_loop.simps) (simp add: get v del: length_take length_drop)
  have split: "drop (unat Offset) rows = ?page @ drop (50 + unat Offset) rows"
    by (metis append_take_drop_id drop_drop)
  show ?case
  proof (cases "length ?page = 50")
    case True
    then have le: "unat Offset + 50 \<le> length rows" by simp
    have off: "unat (Offset + 50) = unat Offset + 50"
      using le assms(2) by (subst unat_plus_simple[THEN iffD1]) (auto simp: word_le_nat_alt unat_word_ariths)
    have "iterate_loop db Convert D Where F (Offset + 50) s'
        = Some (fst (visit F (map Convert (drop (50 + unat Offset) rows)) s'))"
      using less.hyps[of "Offset + 50" s'] le by (simp add: off add.commute)
    with True v show ?thesis unfolding step
      by (subst split) (auto simp: visit_append split: bool.splits)
  next
    case False
    then have d: "drop (50 + unat Offset) rows = []" by auto
    then have p: "drop (unat Offset) rows = ?page" using split by simp
    have "length ?page < 50" using False by simp
    then show ?thesis
      unfolding step using v p by (cases "?page = []") (auto simp del: length_take length_drop split: if_splits)
  qed
qed

text \<open>
  Iterating over a table ends and calls the function on every row of the table, once and in the order of
  the database, until the function asks to stop: the pages of fifty rows neither skip nor repeat a row,
  also when the number of rows is a multiple of fifty.
\<close>

theorem Iterate_visits_all:
  assumes "pages db D Where rows" "length rows + 50 < 2 ^ 64"
  shows "Iterate db Convert D Where F s = Some (fst (visit F (map Convert rows) s))"
  using iterate_loop_pages[OF assms, of 0] by (simp add: Iterate_def)

text \<open>The witness: a table of two rows.\<close>

abbreviation small_table :: table where
  "small_table \<equiv> \<lparr> TableName = ''t'', Type = sqlite, Select_Fields = ''id'' \<rparr>"

definition two_rows :: "nat database" where
  "two_rows St =
     (if St = records_statement small_table 0 50 [] [] then Inr [7, 8]
      else if St = records_statement small_table 1 50 [] [] then Inr [8] else Inr [])"

lemma records_statement_inj:
  "records_statement D Offset HowMany W O' = records_statement D Offset' HowMany W O' \<longleftrightarrow> Offset = Offset'"
proof -
  have tw: "takeWhile isdigit (dec_string m @ c # r) = dec_string m" if "\<not> isdigit c" for m c r
    using that dec_string_digits by (subst takeWhile_append2) auto
  have tail: "dec_string m @ c # r = dec_string n @ c # r' \<Longrightarrow> \<not> isdigit c \<Longrightarrow> dec_string m = dec_string n"
    for m n c r r'
    by (metis tw)
  show ?thesis
    by (auto simp: records_statement_def ComputeRange_def isdigit_def char_code_def dec_string_inj
        split: DBType.splits dest!: tail intro: unsigned_word_eqI)
qed

lemma Iterate_visits_all_witness:
  "Iterate two_rows (\<lambda>n. n + 1) small_table [] (\<lambda>n s. (s + n, True)) 0 = Some (17 :: nat)"
proof -
  have "take 50 (drop (unat Offset) [7, 8]) = (if Offset = 0 then [7, 8] else if Offset = 1 then [8] else [] :: nat list)"
    for Offset :: u64
  proof -
    have "Offset = 0 \<longleftrightarrow> unat Offset = 0" "Offset = 1 \<longleftrightarrow> unat Offset = 1"
      by (simp_all add: word_unat_eq_iff)
    then show ?thesis by (cases "unat Offset"; cases "unat Offset - 1") auto
  qed
  then have "pages two_rows small_table [] [7, 8]"
    by (simp add: pages_def two_rows_def records_statement_inj)
  from Iterate_visits_all[OF this, of "\<lambda>n. n + 1" "\<lambda>n s. (s + n, True)" 0] show ?thesis by simp
qed

end
