(* ===== verification/Provisioning.thy ===== *)
theory Provisioning
  imports ObjectsJson Orm
begin

text \<open>
  Requests to the provisioning service: \<^verbatim>\<open>OpenAPIRequestGet::Do\<close> of
  \<^verbatim>\<open>src/src/framework/OpenAPIRequests.cpp\<close> and \<^verbatim>\<open>src/src/sdks/SDK_prov\<close>.  The network is an argument: a
  function from the request to the status and body of the response, or an exception.
\<close>

record service =
  svc_PrivateEndPoint :: string
  svc_AccessKey :: string

record http_request =
  rq_service :: string
  rq_path :: string
  rq_query :: "(string \<times> string) list"
  rq_headers :: "(string \<times> string) list"

type_synonym network = "http_request \<Rightarrow> (nat \<times> string) cpp"

abbreviation (input) HTTP_GATEWAY_TIMEOUT :: nat where "HTTP_GATEWAY_TIMEOUT \<equiv> 504"

text \<open>Only the first service of the type is asked.  \<open>me\<close> is \<^verbatim>\<open>MicroServicePublicEndPoint()\<close>.\<close>

definition OpenAPIRequestGet_Do ::
  "('o, 'v) poco \<Rightarrow> network \<Rightarrow> string \<Rightarrow> service list \<Rightarrow> string \<Rightarrow> (string \<times> string) list \<Rightarrow> string \<Rightarrow> nat \<times> 'o" where
  "OpenAPIRequestGet_Do J net me Services EndPoint QueryData BearerToken =
     (case Services of
        [] \<Rightarrow> (HTTP_GATEWAY_TIMEOUT, p_new J)
      | Svc # _ \<Rightarrow>
          (let Request = \<lparr> rq_service = svc_PrivateEndPoint Svc, rq_path = EndPoint, rq_query = QueryData,
                 rq_headers = (if BearerToken = []
                    then [(''X-API-KEY'', svc_AccessKey Svc), (''X-INTERNAL-NAME'', me)]
                    else [(''Authorization'', ''Bearer '' @ BearerToken)]) \<rparr>
           in case net Request of
                Inl _ \<Rightarrow> (HTTP_GATEWAY_TIMEOUT, p_new J)
              | Inr (Status, body) \<Rightarrow>
                  if Status = HTTP_OK
                  then (case bind (p_parse J body) (v_object J) of
                          Inl _ \<Rightarrow> (HTTP_GATEWAY_TIMEOUT, p_new J)
                        | Inr ResponseObject \<Rightarrow> (Status, ResponseObject))
                  else (Status, p_new J)))"

text \<open>A call of the service: end point, query and token to status and response object.\<close>

type_synonym 'o api = "string \<Rightarrow> (string \<times> string) list \<Rightarrow> string \<Rightarrow> nat \<times> 'o"

section \<open>SDK::Prov::Venue\<close>

text \<open>The answer, the device list and whether the venue exists.\<close>

definition Venue_GetDevices ::
  "('o, 'v) poco \<Rightarrow> 'o api \<Rightarrow> string \<Rightarrow> string \<Rightarrow> bool \<Rightarrow> bool \<times> VenueDeviceList \<times> bool" where
  "Venue_GetDevices J Do token VenueId WithChildren =
     (case Do (''/api/v1/venue/'' @ VenueId)
             (if WithChildren then [(''getDevices'', ''true''), (''getChildren'', ''true'')]
              else [(''getDevices'', ''true'')]) token of
        (ResponseStatus, CallResponse) \<Rightarrow>
          if ResponseStatus = HTTP_OK
          then (case VenueDeviceList_from_json J CallResponse VenueDeviceList_init of
                  (DeviceList, parsed) \<Rightarrow> (parsed, DeviceList, True))
          else if ResponseStatus = HTTP_NOT_FOUND then (True, VenueDeviceList_init, False)
          else (False, VenueDeviceList_init, True))"

definition Venue_Exists :: "'o api \<Rightarrow> string \<Rightarrow> string \<Rightarrow> bool \<times> bool" where
  "Venue_Exists Do token VenueId =
     (case Do (''/api/v1/venue/'' @ VenueId) [] token of
        (ResponseStatus, CallResponse) \<Rightarrow>
          if ResponseStatus = HTTP_OK then (True, True)
          else if ResponseStatus = HTTP_NOT_FOUND then (True, False)
          else (False, False))"

section \<open>SDK::Prov::Device and SDK::Prov::Subscriber\<close>

datatype FetchResult = Success | HttpFailure | InvalidResponse

definition ClassifyFetchOutcome :: "nat \<Rightarrow> bool \<Rightarrow> FetchResult" where
  "ClassifyFetchOutcome Status Parsed =
     (if Status = HTTP_OK then (if Parsed then Success else InvalidResponse) else HttpFailure)"

definition ParseInventoryResponse ::
  "('o, 'v) poco \<Rightarrow> nat \<Rightarrow> 'o \<Rightarrow> InventoryTag \<Rightarrow> FetchResult \<times> InventoryTag" where
  "ParseInventoryResponse J Status Response Device =
     (case InventoryTag_from_json J Response Device of (Device', parsed) \<Rightarrow> (ClassifyFetchOutcome Status parsed, Device'))"

definition GetWithStatus ::
  "('o, 'v) poco \<Rightarrow> 'o api \<Rightarrow> string \<Rightarrow> string \<Rightarrow> InventoryTag \<Rightarrow> FetchResult \<times> InventoryTag \<times> nat" where
  "GetWithStatus J Do token Mac Device =
     (case Do (''/api/v1/inventory/'' @ Mac) [] token of
        (Status, CallResponse) \<Rightarrow>
          if Status = HTTP_OK
          then (case ParseInventoryResponse J Status CallResponse Device of (R, Device') \<Rightarrow> (R, Device', Status))
          else (HttpFailure, Device, Status))"

definition Device_Get :: "('o, 'v) poco \<Rightarrow> 'o api \<Rightarrow> string \<Rightarrow> string \<Rightarrow> InventoryTag \<Rightarrow> bool \<times> InventoryTag" where
  "Device_Get J Do token Mac Device =
     (case GetWithStatus J Do token Mac Device of (R, Device', _) \<Rightarrow> (R = Success, Device'))"

definition Subscriber_GetDevices ::
  "('o, 'v) poco \<Rightarrow> 'o api \<Rightarrow> string \<Rightarrow> string \<Rightarrow> InventoryTagList \<Rightarrow> bool \<times> InventoryTagList" where
  "Subscriber_GetDevices J Do token SubscriberId Devices =
     (case Do ''/api/v1/inventory'' [(''subscriber'', SubscriberId)] token of
        (ResponseStatus, CallResponse) \<Rightarrow>
          if ResponseStatus = HTTP_OK
          then (case InventoryTagList_from_json J CallResponse Devices of (Devices', parsed) \<Rightarrow> (parsed, Devices'))
          else (False, Devices))"

section \<open>The boards table\<close>

text \<open>\<^verbatim>\<open>src/src/storage/storage_boards\<close>: a query with its bound parameter.\<close>

record BoardVenueRecord =
  bvr_boardId :: string
  bvr_venueId :: string
  bvr_retention :: u64
  bvr_interval :: u64
  bvr_monitorSubVenues :: bool

type_synonym 'row bound_query = "string \<Rightarrow> string \<Rightarrow> 'row list cpp"

definition FindBoardVenueRecordsByVenue ::
  "(string \<times> string \<times> u64 \<times> u64 \<times> bool) bound_query \<Rightarrow> DBType \<Rightarrow> string \<Rightarrow> BoardVenueRecord list option" where
  "FindBoardVenueRecordsByVenue db T venueId =
     (if venueId = [] then Some []
      else case db (ConvertParams T (''select id,venueid,retention,interval,monitorsubvenues ''
                      @ ''from boards where venueid=? limit 100'')) venueId of
             Inl _ \<Rightarrow> None
           | Inr Records \<Rightarrow>
               Some (map (\<lambda>(b, v, r, i, m). \<lparr> bvr_boardId = b, bvr_venueId = v, bvr_retention = r, bvr_interval = i,
                 bvr_monitorSubVenues = m \<rparr>) Records))"

section \<open>RouterIdResolver\<close>

record resolver_result =
  rr_routerId :: string
  rr_resolvedBoardId :: string
  rr_resolvedVenueId :: string
  rr_retention :: u64
  rr_interval :: u64
  rr_monitorSubVenues :: bool

definition resolver_result_init :: resolver_result where
  "resolver_result_init = \<lparr> rr_routerId = [], rr_resolvedBoardId = [], rr_resolvedVenueId = [], rr_retention = 0,
     rr_interval = 0, rr_monitorSubVenues = False \<rparr>"

text \<open>A call that answers false after filling in the error is a left value.\<close>

definition NotFound :: mcp_error where
  "NotFound = SetError HTTP_NOT_FOUND ''not_found'' ''Router was not found''"

definition ClassifyProvisioningFailure :: "nat \<Rightarrow> mcp_error" where
  "ClassifyProvisioningFailure Status =
     (if Status = HTTP_NOT_FOUND \<or> Status = HTTP_FORBIDDEN \<or> Status = HTTP_UNAUTHORIZED
      then SetError HTTP_NOT_FOUND ''not_found'' ''Router was not found''
      else SetError HTTP_BAD_GATEWAY ''owprov_unavailable'' ''Upstream provisioning service is unavailable'')"

definition AnalyticsBoardStorageFailure :: mcp_error where
  "AnalyticsBoardStorageFailure = SetError HTTP_INTERNAL_SERVER_ERROR ''internal_error'' ''Internal error''"

definition InvalidProvisioningResponse :: mcp_error where
  "InvalidProvisioningResponse = SetError HTTP_BAD_GATEWAY ''owprov_invalid_response''
     ''Upstream provisioning service returned an invalid response''"

definition ClassifyDeviceFetchResult :: "FetchResult \<Rightarrow> nat \<Rightarrow> mcp_error + unit" where
  "ClassifyDeviceFetchResult Result Status =
     (if Result = Success then Inr ()
      else if Result = InvalidResponse then Inl InvalidProvisioningResponse
      else Inl (ClassifyProvisioningFailure Status))"

definition ResolveBoardForVenue ::
  "string \<Rightarrow> BoardVenueRecord list \<Rightarrow> resolver_result \<Rightarrow> mcp_error + resolver_result" where
  "ResolveBoardForVenue venueId Boards Resolved =
     (let MatchingBoards = filter (\<lambda>Board. bvr_venueId Board \<noteq> [] \<and> bvr_venueId Board = venueId) Boards
      in if MatchingBoards = [] then Inl (SetError HTTP_NOT_FOUND ''not_found'' ''Router was not found'')
         else if length MatchingBoards > 1
         then Inl (SetError HTTP_CONFLICT ''multiple_boards'' ''Router is mapped to multiple current boards'')
         else Inr (Resolved \<lparr> rr_resolvedVenueId := venueId, rr_resolvedBoardId := bvr_boardId (hd MatchingBoards),
                     rr_retention := bvr_retention (hd MatchingBoards),
                     rr_interval := bvr_interval (hd MatchingBoards),
                     rr_monitorSubVenues := bvr_monitorSubVenues (hd MatchingBoards) \<rparr>))"

definition Resolve ::
  "('o, 'v) poco \<Rightarrow> 'o api \<Rightarrow> (string \<Rightarrow> BoardVenueRecord list option) \<Rightarrow> string \<Rightarrow> string \<Rightarrow> resolver_result \<Rightarrow>
     mcp_error + resolver_result" where
  "Resolve J Do FindBoards token routerId Resolved =
     (case ValidateRouterId routerId of
        Inl ValidationError \<Rightarrow> Inl ValidationError
      | Inr _ \<Rightarrow>
          (case GetWithStatus J Do token routerId InventoryTag_init of
             (FetchResult, Device, ProvisioningStatus) \<Rightarrow>
               (case ClassifyDeviceFetchResult FetchResult ProvisioningStatus of
                  Inl E \<Rightarrow> Inl E
                | Inr _ \<Rightarrow>
                    if tag_venue Device = [] then Inl NotFound
                    else case FindBoards (tag_venue Device) of
                           None \<Rightarrow> Inl AnalyticsBoardStorageFailure
                         | Some Matches \<Rightarrow>
                             ResolveBoardForVenue (tag_venue Device) Matches (Resolved \<lparr> rr_routerId := routerId \<rparr>))))"

section \<open>What a router id resolves to\<close>

lemma GetWithStatus_cases:
  "GetWithStatus J Do token r D0 =
     (case Do (''/api/v1/inventory/'' @ r) [] token of (st, ob) \<Rightarrow>
        if st \<noteq> 200 then (HttpFailure, D0, st)
        else case InventoryTag_from_json J ob D0 of (D, p) \<Rightarrow> (if p then Success else InvalidResponse, D, 200))"
  by (auto simp: GetWithStatus_def ParseInventoryResponse_def ClassifyFetchOutcome_def split: prod.split)

lemma filter_venue:
  "v \<noteq> [] \<Longrightarrow> filter (\<lambda>B. bvr_venueId B \<noteq> [] \<and> bvr_venueId B = v) bs = filter (\<lambda>B. bvr_venueId B = v) bs"
  by (rule filter_cong) auto

text \<open>
  A router id resolves exactly when it is valid, the provisioning service knows the router, its inventory
  record parses and names a venue, and exactly one board watches that venue; the answer is then that
  board with its retention, interval and sub-venue flag.
\<close>

theorem Resolve_iff:
  "Resolve J Do FindBoards token r R0 = Inr R \<longleftrightarrow>
     ValidateRouterId r = Inr ()
     \<and> (\<exists>ob D Boards b. Do (''/api/v1/inventory/'' @ r) [] token = (HTTP_OK, ob)
          \<and> InventoryTag_from_json J ob InventoryTag_init = (D, True) \<and> tag_venue D \<noteq> []
          \<and> FindBoards (tag_venue D) = Some Boards
          \<and> filter (\<lambda>B. bvr_venueId B = tag_venue D) Boards = [b]
          \<and> R = \<lparr> rr_routerId = r, rr_resolvedBoardId = bvr_boardId b, rr_resolvedVenueId = tag_venue D,
                  rr_retention = bvr_retention b, rr_interval = bvr_interval b,
                  rr_monitorSubVenues = bvr_monitorSubVenues b \<rparr>)"
  (is "?L \<longleftrightarrow> ?R")
proof (cases "ValidateRouterId r")
  case (Inr u)
  obtain st ob where d: "Do (''/api/v1/inventory/'' @ r) [] token = (st, ob)" by fastforce
  obtain D p where f: "InventoryTag_from_json J ob InventoryTag_init = (D, p)" by fastforce
  have board: "ResolveBoardForVenue v bs Q = Inr R \<longleftrightarrow> (\<exists>b. filter (\<lambda>B. bvr_venueId B = v) bs = [b]
      \<and> R = Q \<lparr> rr_resolvedVenueId := v, rr_resolvedBoardId := bvr_boardId b, rr_retention := bvr_retention b,
          rr_interval := bvr_interval b, rr_monitorSubVenues := bvr_monitorSubVenues b \<rparr>)" if "v \<noteq> []" for v bs Q
    using filter_venue[OF that, of bs]
    by (cases "filter (\<lambda>B. bvr_venueId B = v) bs"; cases "tl (filter (\<lambda>B. bvr_venueId B = v) bs)")
      (auto simp: ResolveBoardForVenue_def Let_def)
  show ?thesis
  proof (cases "st = 200 \<and> p \<and> tag_venue D \<noteq> []")
    case True
    then show ?thesis using Inr d f
      by (cases "FindBoards (tag_venue D)")
        (auto simp: Resolve_def GetWithStatus_cases ClassifyDeviceFetchResult_def board)
  next
    case False
    then show ?thesis using Inr d f
      by (auto simp: Resolve_def GetWithStatus_cases ClassifyDeviceFetchResult_def split: if_splits)
  qed
qed (simp add: Resolve_def)

text \<open>
  C33: Why a router id does not resolve decides the answer: an invalid id is a 400, a router that provisioning
  does not know (or may not show) or that has no venue or no board is the same 404, more than one board a
  409, an unreadable record or any other failure of provisioning a 502, and a failure of the boards
  table a 500.
\<close>

theorem Resolve_errors:
  assumes "Do (''/api/v1/inventory/'' @ r) [] token = (st, ob)"
    and "InventoryTag_from_json J ob InventoryTag_init = (D, parsed)"
    and "Resolve J Do FindBoards token r R0 = Inl e"
  shows "status e =
    (if ValidateRouterId r \<noteq> Inr () then 400
     else if st \<in> {401, 403, 404} then 404
     else if st \<noteq> 200 \<or> \<not> parsed then 502
     else if tag_venue D = [] then 404
     else case FindBoards (tag_venue D) of
            None \<Rightarrow> 500
          | Some Boards \<Rightarrow> if \<exists>B \<in> set Boards. bvr_venueId B = tag_venue D then 409 else 404)"
proof (cases "ValidateRouterId r")
  case (Inl e')
  then have "e' = e" using assms(3) by (simp add: Resolve_def)
  with Inl show ?thesis by (auto simp: ValidateRouterId_def SetError_def split: if_splits)
next
  case (Inr u)
  note defs = Resolve_def GetWithStatus_cases ClassifyDeviceFetchResult_def ClassifyProvisioningFailure_def
    InvalidProvisioningResponse_def AnalyticsBoardStorageFailure_def SetError_def NotFound_def
  show ?thesis
  proof (cases "st = 200 \<and> parsed \<and> tag_venue D \<noteq> []")
    case True
    then have "ResolveBoardForVenue (tag_venue D) Boards Q = Inl e \<Longrightarrow>
        status e = (if \<exists>B \<in> set Boards. bvr_venueId B = tag_venue D then 409 else 404)" for Boards Q
      using filter_venue[of "tag_venue D" Boards]
      by (auto simp: ResolveBoardForVenue_def Let_def SetError_def filter_empty_conv split: if_splits)
    with True Inr assms show ?thesis
      by (cases "FindBoards (tag_venue D)") (auto simp: defs)
  next
    case False
    with Inr assms show ?thesis by (auto simp: defs split: if_splits)
  qed
qed

text \<open>The witness: a service that knows one router.\<close>

definition one_router :: "(string \<times> tree) list api" where
  "one_router EndPoint Query token =
     (if EndPoint = ''/api/v1/inventory/abc'' then (200, [(''venue'', TString ''v1'')]) else (404, []))"

definition two_boards :: "string \<Rightarrow> BoardVenueRecord list option" where
  "two_boards v = Some [\<lparr> bvr_boardId = ''b1'', bvr_venueId = v, bvr_retention = 1, bvr_interval = 60, bvr_monitorSubVenues = False \<rparr>,
     \<lparr> bvr_boardId = ''b2'', bvr_venueId = v, bvr_retention = 1, bvr_interval = 60, bvr_monitorSubVenues = False \<rparr>]"

lemma Resolve_errors_witness:
  "\<exists>e. Resolve tree_lib one_router two_boards [] ''abc'' resolver_result_init = Inl e \<and> status e = 409"
proof -
  have d: "one_router (''/api/v1/inventory/'' @ ''abc'') [] [] = (200, [(''venue'', TString ''v1'')])"
    by (simp add: one_router_def)
  obtain D where f: "InventoryTag_from_json tree_lib [(''venue'', TString ''v1'')] InventoryTag_init = (D, True)"
    and v: "tag_venue D = ''v1''"
    by (simp add: InventoryTag_from_json_def ObjectInfo_from_json_def try_all_def field_from_json_def object_from_json_def
        objects_from_json_def list_from_json_def present_def tree_lib_def)
  have id: "ValidateRouterId ''abc'' = Inr ()" by code_simp
  have "Resolve tree_lib one_router two_boards [] ''abc'' resolver_result_init \<noteq> Inr R" for R
    using d f v id
    by (simp add: Resolve_def GetWithStatus_cases ClassifyDeviceFetchResult_def ResolveBoardForVenue_def two_boards_def)
  then obtain e where e: "Resolve tree_lib one_router two_boards [] ''abc'' resolver_result_init = Inl e"
    by (cases "Resolve tree_lib one_router two_boards [] ''abc'' resolver_result_init") auto
  from Resolve_errors[OF d f e] have "status e = 409" by (simp add: id v two_boards_def)
  with e show ?thesis by blast
qed

end
