(* ===== verification/Auth.thy ===== *)
theory Auth
  imports SecurityJson Provisioning
begin

text \<open>
  \<^verbatim>\<open>src/src/framework/AuthClient\<close>: tokens and API keys are checked by the security service, and its answers are kept
  in two caches.  \<^verbatim>\<open>Poco::ExpireLRUCache\<close> is not part of the sources: it is the record \<open>expire_cache\<close>, and what the
  client relies on is \<open>cache_sound\<close>: a cache may forget, and answers only what was stored last under a key.
\<close>

section \<open>Caches\<close>

text \<open>\<open>ec_get\<close> also changes the cache: it moves the entry to the front, or drops it when it is too old.\<close>

record ('c, 'k, 'v) expire_cache =
  ec_get :: "'c \<Rightarrow> 'k \<Rightarrow> 'v option \<times> 'c"
  ec_update :: "'k \<Rightarrow> 'v \<Rightarrow> 'c \<Rightarrow> 'c"
  ec_remove :: "'k \<Rightarrow> 'c \<Rightarrow> 'c"
  ec_clear :: "'c \<Rightarrow> 'c"

text \<open>\<open>holds\<close> is what a cache may still answer.\<close>

definition cache_sound :: "('c, 'k, 'v) expire_cache \<Rightarrow> ('c \<Rightarrow> 'k \<rightharpoonup> 'v) \<Rightarrow> bool" where
  "cache_sound X holds \<longleftrightarrow>
     (\<forall>c k v c'. ec_get X c k = (Some v, c') \<longrightarrow> holds c k = Some v)
     \<and> (\<forall>c k. holds (snd (ec_get X c k)) \<subseteq>\<^sub>m holds c)
     \<and> (\<forall>c k v. holds (ec_update X k v c) \<subseteq>\<^sub>m (holds c)(k \<mapsto> v))
     \<and> (\<forall>c k. holds (ec_remove X k c) \<subseteq>\<^sub>m (holds c)(k := None))
     \<and> (\<forall>c. holds (ec_clear X c) = Map.empty)"

lemma cache_soundD:
  assumes "cache_sound X holds"
  shows "ec_get X c k = (Some v, c') \<Longrightarrow> holds c k = Some v"
    "ec_get X c k = (r, c') \<Longrightarrow> holds c' k' = Some v' \<Longrightarrow> holds c k' = Some v'"
    "holds (ec_update X k v c) k' = Some v' \<Longrightarrow> k' = k \<and> v' = v \<or> holds c k' = Some v'"
    "holds (ec_remove X k c) k' = Some v' \<Longrightarrow> k' \<noteq> k \<and> holds c k' = Some v'"
    "holds (ec_clear X c) k' = None"
proof -
  show "ec_get X c k = (Some v, c') \<Longrightarrow> holds c k = Some v" "holds (ec_clear X c) k' = None"
    using assms by (auto simp: cache_sound_def)
  show "ec_get X c k = (r, c') \<Longrightarrow> holds c' k' = Some v' \<Longrightarrow> holds c k' = Some v'"
    using assms unfolding cache_sound_def map_le_def by (metis domI snd_conv)
  show "holds (ec_update X k v c) k' = Some v' \<Longrightarrow> k' = k \<and> v' = v \<or> holds c k' = Some v'"
    using assms unfolding cache_sound_def map_le_def by (metis domI fun_upd_apply option.inject)
  show "holds (ec_remove X k c) k' = Some v' \<Longrightarrow> k' \<noteq> k \<and> holds c k' = Some v'"
    using assms unfolding cache_sound_def map_le_def by (metis domI fun_upd_apply option.distinct(1))
qed

section \<open>The client\<close>

record ApiKeyCacheEntry =
  ake_UserInfo :: UserInfoAndPolicy
  ake_ExpiresOn :: u64

record ('c, 'd) auth_client =
  au_Cache :: 'c
  au_ApiKeyCache :: 'd

record ('c, 'd) auth_caches =
  ac_tokens :: "('c, string, UserInfoAndPolicy) expire_cache"
  ac_keys :: "('d, string, ApiKeyCacheEntry) expire_cache"

text \<open>What a check writes through its references and returns.\<close>

record verdict =
  vd_allowed :: bool
  vd_UInfo :: UserInfoAndPolicy
  vd_Expired :: bool
  vd_Contacted :: bool

definition IsTokenExpired :: "u64 \<Rightarrow> WebToken \<Rightarrow> bool" where
  "IsTokenExpired Now T \<longleftrightarrow> tok_expires_in T + tok_created T < Now"

definition RetrieveTokenInformation ::
  "('o, 'v) poco \<Rightarrow> ('c, 'd) auth_caches \<Rightarrow> 'o api \<Rightarrow> u64 \<Rightarrow> string \<Rightarrow> bool \<Rightarrow> verdict \<Rightarrow> ('c, 'd) auth_client \<Rightarrow>
     verdict \<times> ('c, 'd) auth_client" where
  "RetrieveTokenInformation J X Do Now SessionToken Sub V S =
     (case Do (if Sub then ''/api/v1/validateSubToken'' else ''/api/v1/validateToken'') [(''token'', SessionToken)] [] of
        (StatusCode, Response) \<Rightarrow>
          if StatusCode = HTTP_GATEWAY_TIMEOUT then (V \<lparr> vd_allowed := False, vd_Contacted := False \<rparr>, S)
          else if StatusCode = HTTP_OK
          then if p_has J Response ''tokenInfo'' \<and> p_has J Response ''userInfo''
               then let UInfo = fst (UserInfoAndPolicy_from_json J Response (vd_UInfo V))
                    in if IsTokenExpired Now (uip_webtoken UInfo)
                       then (V \<lparr> vd_allowed := False, vd_UInfo := UInfo, vd_Expired := True, vd_Contacted := True \<rparr>, S)
                       else (V \<lparr> vd_allowed := True, vd_UInfo := UInfo, vd_Expired := False, vd_Contacted := True \<rparr>,
                             S \<lparr> au_Cache := ec_update (ac_tokens X) SessionToken UInfo (au_Cache S) \<rparr>)
               else (V \<lparr> vd_allowed := False, vd_Contacted := True \<rparr>, S)
          else (V \<lparr> vd_allowed := False, vd_Expired := False, vd_Contacted := True \<rparr>, S))"

definition Auth_IsAuthorized ::
  "('o, 'v) poco \<Rightarrow> ('c, 'd) auth_caches \<Rightarrow> 'o api \<Rightarrow> u64 \<Rightarrow> string \<Rightarrow> bool \<Rightarrow> verdict \<Rightarrow> ('c, 'd) auth_client \<Rightarrow>
     verdict \<times> ('c, 'd) auth_client" where
  "Auth_IsAuthorized J X Do Now SessionToken Sub V S =
     (case ec_get (ac_tokens X) (au_Cache S) SessionToken of
        (Some User, c) \<Rightarrow>
          if IsTokenExpired Now (uip_webtoken User)
          then (V \<lparr> vd_allowed := False, vd_Expired := True \<rparr>,
                S \<lparr> au_Cache := ec_remove (ac_tokens X) SessionToken c \<rparr>)
          else (V \<lparr> vd_allowed := True, vd_UInfo := User, vd_Expired := False \<rparr>, S \<lparr> au_Cache := c \<rparr>)
      | (None, c) \<Rightarrow> RetrieveTokenInformation J X Do Now SessionToken Sub V (S \<lparr> au_Cache := c \<rparr>))"

text \<open>The conversion of \<^verbatim>\<open>expiresOn\<close> may throw, after the user has been read.\<close>

definition RetrieveApiKeyInformation ::
  "('o, 'v) poco \<Rightarrow> ('c, 'd) auth_caches \<Rightarrow> 'o api \<Rightarrow> string \<Rightarrow> verdict \<Rightarrow> ('c, 'd) auth_client \<Rightarrow>
     verdict \<times> ('c, 'd) auth_client" where
  "RetrieveApiKeyInformation J X Do SessionToken V S =
     (case Do ''/api/v1/validateApiKey'' [(''apikey'', SessionToken)] [] of
        (StatusCode, Response) \<Rightarrow>
          if StatusCode = HTTP_GATEWAY_TIMEOUT then (V \<lparr> vd_allowed := False, vd_Contacted := False \<rparr>, S)
          else if StatusCode = HTTP_OK
          then if p_has J Response ''tokenInfo'' \<and> p_has J Response ''userInfo'' \<and> p_has J Response ''expiresOn''
               then let UInfo = fst (UserInfoAndPolicy_from_json J Response (vd_UInfo V))
                    in case v_u64 J (p_get J Response ''expiresOn'') of
                         Inl _ \<Rightarrow>
                           (V \<lparr> vd_allowed := False, vd_UInfo := UInfo, vd_Expired := False, vd_Contacted := True \<rparr>, S)
                       | Inr ExpiresOn \<Rightarrow>
                           (V \<lparr> vd_allowed := True, vd_UInfo := UInfo, vd_Expired := False, vd_Contacted := True \<rparr>,
                            S \<lparr> au_ApiKeyCache := ec_update (ac_keys X) SessionToken
                                  \<lparr> ake_UserInfo = UInfo, ake_ExpiresOn = ExpiresOn \<rparr> (au_ApiKeyCache S) \<rparr>)
               else (V \<lparr> vd_allowed := False, vd_Contacted := True \<rparr>, S)
          else (V \<lparr> vd_allowed := False, vd_Expired := False, vd_Contacted := True \<rparr>, S))"

definition IsValidApiKey ::
  "('o, 'v) poco \<Rightarrow> ('c, 'd) auth_caches \<Rightarrow> 'o api \<Rightarrow> u64 \<Rightarrow> string \<Rightarrow> verdict \<Rightarrow> ('c, 'd) auth_client \<Rightarrow>
     verdict \<times> ('c, 'd) auth_client" where
  "IsValidApiKey J X Do Now SessionToken V S =
     (case ec_get (ac_keys X) (au_ApiKeyCache S) SessionToken of
        (Some User, c) \<Rightarrow>
          if ake_ExpiresOn User < Now
          then (V \<lparr> vd_allowed := True, vd_UInfo := ake_UserInfo User, vd_Expired := False \<rparr>, S \<lparr> au_ApiKeyCache := c \<rparr>)
          else RetrieveApiKeyInformation J X Do SessionToken V
                 (S \<lparr> au_ApiKeyCache := ec_remove (ac_keys X) SessionToken c \<rparr>)
      | (None, c) \<Rightarrow> RetrieveApiKeyInformation J X Do SessionToken V (S \<lparr> au_ApiKeyCache := c \<rparr>))"

definition RemovedCachedToken ::
  "('c, 'd) auth_caches \<Rightarrow> string \<Rightarrow> ('c, 'd) auth_client \<Rightarrow> ('c, 'd) auth_client" where
  "RemovedCachedToken X Token S =
     S \<lparr> au_Cache := ec_remove (ac_tokens X) Token (au_Cache S),
         au_ApiKeyCache := ec_remove (ac_keys X) Token (au_ApiKeyCache S) \<rparr>"

text \<open>The cache of API keys is not cleared.\<close>

definition Auth_Stop :: "('c, 'd) auth_caches \<Rightarrow> ('c, 'd) auth_client \<Rightarrow> ('c, 'd) auth_client" where
  "Auth_Stop X S = S \<lparr> au_Cache := ec_clear (ac_tokens X) (au_Cache S) \<rparr>"

section \<open>Who is authorised\<close>

text \<open>The security service answers, at a time, that a token belongs to a user and is not expired.\<close>

definition vouched :: "('o, 'v) poco \<Rightarrow> 'o api \<Rightarrow> u64 \<Rightarrow> bool \<Rightarrow> string \<Rightarrow> UserInfoAndPolicy \<Rightarrow> bool" where
  "vouched J Do Now Sub tok U \<longleftrightarrow>
     (\<exists>Response U0. Do (if Sub then ''/api/v1/validateSubToken'' else ''/api/v1/validateToken'') [(''token'', tok)] [] =
          (HTTP_OK, Response)
        \<and> p_has J Response ''tokenInfo'' \<and> p_has J Response ''userInfo''
        \<and> U = fst (UserInfoAndPolicy_from_json J Response U0) \<and> \<not> IsTokenExpired Now (uip_webtoken U))"

text \<open>The states of the client, with the services it asked about tokens and when.\<close>

inductive auth_run ::
  "('o, 'v) poco \<Rightarrow> ('c, 'd) auth_caches \<Rightarrow> ('o api \<times> u64 \<times> bool) list \<Rightarrow> ('c, 'd) auth_client \<Rightarrow> bool" for J X where
  start: "auth_run J X [] \<lparr> au_Cache = ec_clear (ac_tokens X) c, au_ApiKeyCache = ec_clear (ac_keys X) d \<rparr>"
| token: "auth_run J X asked S \<Longrightarrow> Auth_IsAuthorized J X Do Now tok Sub V S = (V', S') \<Longrightarrow>
    auth_run J X ((Do, Now, Sub) # asked) S'"
| api_key: "auth_run J X asked S \<Longrightarrow> IsValidApiKey J X Do Now tok V S = (V', S') \<Longrightarrow> auth_run J X asked S'"
| removed: "auth_run J X asked S \<Longrightarrow> auth_run J X asked (RemovedCachedToken X tok S)"
| stopped: "auth_run J X asked S \<Longrightarrow> auth_run J X asked (Auth_Stop X S)"

definition all_vouched ::
  "('o, 'v) poco \<Rightarrow> ('o api \<times> u64 \<times> bool) list \<Rightarrow> (string \<rightharpoonup> UserInfoAndPolicy) \<Rightarrow> bool" where
  "all_vouched J asked m \<longleftrightarrow>
     (\<forall>tok U. m tok = Some U \<longrightarrow> (\<exists>(Do, Now, Sub) \<in> set asked. vouched J Do Now Sub tok U))"

lemma all_vouched_sub:
  assumes "all_vouched J asked m" "\<And>tok U. m' tok = Some U \<Longrightarrow> m tok = Some U"
  shows "all_vouched J asked m'" "all_vouched J (a # asked) m'"
  using assms by (auto simp: all_vouched_def)

lemma all_vouched_put:
  assumes "all_vouched J asked m" "vouched J Do Now Sub tok U"
    and "\<And>tok' U'. m' tok' = Some U' \<Longrightarrow> tok' = tok \<and> U' = U \<or> m tok' = Some U'"
  shows "all_vouched J ((Do, Now, Sub) # asked) m'"
  unfolding all_vouched_def
proof (intro allI impI)
  fix tok' U' assume "m' tok' = Some U'"
  with assms(3) consider "tok' = tok" "U' = U" | "m tok' = Some U'" by blast
  then show "\<exists>(Do, Now, Sub) \<in> set ((Do, Now, Sub) # asked). vouched J Do Now Sub tok' U'"
    by cases (use assms(1,2) in \<open>auto simp: all_vouched_def\<close>)
qed

lemma RetrieveToken_vouched:
  assumes "RetrieveTokenInformation J X Do Now tok Sub V S = (V', S')"
  shows "(vd_allowed V' \<longrightarrow> vouched J Do Now Sub tok (vd_UInfo V'))
    \<and> (S' = S \<or> (\<exists>U. vouched J Do Now Sub tok U \<and> S' = S \<lparr> au_Cache := ec_update (ac_tokens X) tok U (au_Cache S) \<rparr>))"
proof -
  obtain code R where d: "Do (if Sub then ''/api/v1/validateSubToken'' else ''/api/v1/validateToken'') [(''token'', tok)] [] = (code, R)"
    by fastforce
  let ?U = "fst (UserInfoAndPolicy_from_json J R (vd_UInfo V))"
  have v: "vouched J Do Now Sub tok ?U"
    if "code = 200" "p_has J R ''tokenInfo''" "p_has J R ''userInfo''" "\<not> IsTokenExpired Now (uip_webtoken ?U)"
    unfolding vouched_def using d that by blast
  show ?thesis
    using assms v unfolding RetrieveTokenInformation_def d prod.case Let_def by (auto split: if_splits)
qed

lemma IsAuthorized_vouched:
  assumes "cache_sound (ac_tokens X) holds" "all_vouched J asked (holds (au_Cache S))"
    and "Auth_IsAuthorized J X Do Now tok Sub V S = (V', S')"
  shows "all_vouched J ((Do, Now, Sub) # asked) (holds (au_Cache S'))"
    "vd_allowed V' \<Longrightarrow> (\<exists>(Do, Now, Sub) \<in> set ((Do, Now, Sub) # asked). vouched J Do Now Sub tok (vd_UInfo V'))
       \<and> \<not> IsTokenExpired Now (uip_webtoken (vd_UInfo V'))"
proof -
  obtain r c where g: "ec_get (ac_tokens X) (au_Cache S) tok = (r, c)" by fastforce
  have c: "all_vouched J asked (holds c)" by (rule all_vouched_sub(1)[OF assms(2) cache_soundD(2)[OF assms(1) g]])
  have keep: "all_vouched J ((Do, Now, Sub) # asked) (holds c)" by (rule all_vouched_sub(2)[OF c])
  have put: "all_vouched J ((Do, Now, Sub) # asked) (holds (ec_update (ac_tokens X) tok U c))"
    if "vouched J Do Now Sub tok U" for U
    by (rule all_vouched_put[OF c that]) (rule cache_soundD(3)[OF assms(1)])
  have del: "all_vouched J ((Do, Now, Sub) # asked) (holds (ec_remove (ac_tokens X) tok c))"
    by (rule all_vouched_sub(2)[OF c]) (use cache_soundD(4)[OF assms(1)] in blast)
  show "all_vouched J ((Do, Now, Sub) # asked) (holds (au_Cache S'))"
  proof (cases r)
    case None
    then have "RetrieveTokenInformation J X Do Now tok Sub V (S \<lparr> au_Cache := c \<rparr>) = (V', S')"
      using assms(3) g by (simp add: Auth_IsAuthorized_def)
    from RetrieveToken_vouched[OF this] consider "S' = S \<lparr> au_Cache := c \<rparr>"
      | U where "vouched J Do Now Sub tok U" "au_Cache S' = ec_update (ac_tokens X) tok U c" by auto
    then show ?thesis by cases (use keep put in simp_all)
  qed (use assms(3) g keep del in \<open>auto simp: Auth_IsAuthorized_def split: if_splits\<close>)
  assume a: "vd_allowed V'"
  show "(\<exists>(Do, Now, Sub) \<in> set ((Do, Now, Sub) # asked). vouched J Do Now Sub tok (vd_UInfo V'))
       \<and> \<not> IsTokenExpired Now (uip_webtoken (vd_UInfo V'))"
  proof (cases r)
    case None
    then have "vouched J Do Now Sub tok (vd_UInfo V')"
      using assms(3) g a RetrieveToken_vouched[of J X Do Now tok Sub V "S \<lparr> au_Cache := c \<rparr>" V' S']
      by (simp add: Auth_IsAuthorized_def)
    then show ?thesis by (auto simp: vouched_def)
  next
    case (Some U)
    then have "vd_UInfo V' = U" "\<not> IsTokenExpired Now (uip_webtoken U)"
      using assms(3) g a by (auto simp: Auth_IsAuthorized_def split: if_splits)
    moreover have "holds (au_Cache S) tok = Some U" using cache_soundD(1)[OF assms(1)] g Some by blast
    ultimately show ?thesis using assms(2) by (auto simp: all_vouched_def)
  qed
qed

lemma IsValidApiKey_tokens: "IsValidApiKey J X Do Now tok V S = (V', S') \<Longrightarrow> au_Cache S' = au_Cache S"
  by (auto simp: IsValidApiKey_def RetrieveApiKeyInformation_def Let_def split: prod.splits option.splits if_splits sum.splits)

lemma auth_run_vouched:
  assumes "auth_run J X asked S" "cache_sound (ac_tokens X) holds"
  shows "all_vouched J asked (holds (au_Cache S))"
  using assms(1)
proof induction
  case (start c d)
  then show ?case using cache_soundD(5)[OF assms(2)] by (simp add: all_vouched_def)
next
  case (token asked S Do Now tok Sub V V' S')
  then show ?case using IsAuthorized_vouched(1)[OF assms(2)] by blast
next
  case (api_key asked S Do Now tok V V' S')
  then show ?case using IsValidApiKey_tokens by metis
next
  case (removed asked S tok)
  have "au_Cache (RemovedCachedToken X tok S) = ec_remove (ac_tokens X) tok (au_Cache S)"
    by (simp add: RemovedCachedToken_def)
  then show ?case using all_vouched_sub(1)[OF removed.IH] cache_soundD(4)[OF assms(2)] by metis
next
  case (stopped asked S)
  then show ?case using cache_soundD(5)[OF assms(2)] by (simp add: all_vouched_def Auth_Stop_def)
qed

text \<open>
  C12: After any sequence of checks, removals and stops, a token is accepted only if the security service said, in this
  check or an earlier one, that this very token is valid, with the user that is now attached to the request, and the
  token has not expired now.
\<close>

theorem authorised_tokens_vouched:
  assumes "auth_run J X asked S" "cache_sound (ac_tokens X) holds"
    and "Auth_IsAuthorized J X Do Now tok Sub V S = (V', S')" "vd_allowed V'"
  shows "(\<exists>(Do, Now, Sub) \<in> set ((Do, Now, Sub) # asked). vouched J Do Now Sub tok (vd_UInfo V'))
    \<and> \<not> IsTokenExpired Now (uip_webtoken (vd_UInfo V'))"
  by (rule IsAuthorized_vouched(2)[OF assms(2) auth_run_vouched[OF assms(1,2)] assms(3,4)])

text \<open>The witness: caches that are maps, and a service that knows one token.\<close>

definition map_cache :: "('k \<rightharpoonup> 'v, 'k, 'v) expire_cache" where
  "map_cache = \<lparr> ec_get = (\<lambda>c k. (c k, c)), ec_update = (\<lambda>k v c. c(k \<mapsto> v)), ec_remove = (\<lambda>k c. c(k := None)),
     ec_clear = (\<lambda>_. Map.empty) \<rparr>"

lemma map_cache_sound: "cache_sound map_cache (\<lambda>c. c)"
  by (simp add: cache_sound_def map_cache_def)

definition map_caches :: "(string \<rightharpoonup> UserInfoAndPolicy, string \<rightharpoonup> ApiKeyCacheEntry) auth_caches" where
  "map_caches = \<lparr> ac_tokens = map_cache, ac_keys = map_cache \<rparr>"

definition one_token :: "(string \<times> tree) list api" where
  "one_token path query token =
     (if path = ''/api/v1/validateToken'' \<and> query = [(''token'', ''t1'')]
      then (HTTP_OK, [(''tokenInfo'', TObject [(''expires_in'', TU64 100), (''created'', TU64 1000)]), (''userInfo'', TObject [])])
      else if path = ''/api/v1/validateApiKey'' \<and> query = [(''apikey'', ''k1'')]
      then (HTTP_OK, [(''tokenInfo'', TObject []), (''userInfo'', TObject []), (''expiresOn'', TU64 500)])
      else (HTTP_FORBIDDEN, []))"

definition fresh_verdict :: verdict where
  "fresh_verdict = \<lparr> vd_allowed = False, vd_UInfo = UserInfoAndPolicy_init UNKNOWN 0, vd_Expired = False, vd_Contacted = False \<rparr>"

definition no_tokens :: "(string \<rightharpoonup> UserInfoAndPolicy, string \<rightharpoonup> ApiKeyCacheEntry) auth_client" where
  "no_tokens = \<lparr> au_Cache = Map.empty, au_ApiKeyCache = Map.empty \<rparr>"

definition t1_user :: UserInfoAndPolicy where
  "t1_user = fst (UserInfoAndPolicy_from_json tree_lib (snd (one_token ''/api/v1/validateToken'' [(''token'', ''t1'')] []))
      (UserInfoAndPolicy_init UNKNOWN 0))"

lemma map_caches_sel:
  "ec_get (ac_tokens map_caches) c k = (c k, c)" "ec_update (ac_tokens map_caches) k v c = c(k \<mapsto> v)"
  "cache_sound (ac_tokens map_caches) (\<lambda>c. c)"
  using map_cache_sound by (simp_all add: map_caches_def map_cache_def)

lemma t1_expires: "IsTokenExpired n (uip_webtoken t1_user) \<longleftrightarrow> 1100 < n"
proof -
  have "tok_expires_in (uip_webtoken t1_user) = 100" "tok_created (uip_webtoken t1_user) = 1000"
    by (simp_all add: t1_user_def one_token_def UserInfoAndPolicy_from_json_def try_all_def object_from_json_def tree_lib_def
        WebToken_from_json_def UserInfo_from_json_def field_from_json_def present_def objects_from_json_def list_from_json_def
        UserInfoAndPolicy_init_def WebToken_init_def)
  then show ?thesis by (simp add: IsTokenExpired_def)
qed

lemma no_tokens_run: "auth_run tree_lib map_caches [] no_tokens"
  using auth_run.start[of tree_lib map_caches Map.empty Map.empty] by (simp add: map_caches_def map_cache_def no_tokens_def)

lemma t1_accepted:
  assumes "vd_UInfo V = UserInfoAndPolicy_init UNKNOWN 0" "n \<le> 1100"
  shows "Auth_IsAuthorized tree_lib map_caches one_token n ''t1'' False V no_tokens =
    (V \<lparr> vd_allowed := True, vd_UInfo := t1_user, vd_Expired := False, vd_Contacted := True \<rparr>,
     no_tokens \<lparr> au_Cache := [''t1'' \<mapsto> t1_user] \<rparr>)"
proof -
  define R where "R = snd (one_token ''/api/v1/validateToken'' [(''token'', ''t1'')] [])"
  have R: "one_token ''/api/v1/validateToken'' [(''token'', ''t1'')] [] = (HTTP_OK, R)"
    "p_has tree_lib R ''tokenInfo''" "p_has tree_lib R ''userInfo''"
    by (simp_all add: R_def one_token_def tree_lib_def)
  have u: "fst (UserInfoAndPolicy_from_json tree_lib R (UserInfoAndPolicy_init UNKNOWN 0)) = t1_user"
    by (simp add: t1_user_def R_def)
  show ?thesis
    using assms(1) leD[OF assms(2)]
    by (simp add: Auth_IsAuthorized_def RetrieveTokenInformation_def map_caches_sel no_tokens_def R u t1_expires Let_def)
qed

lemma authorised_tokens_vouched_witness:
  "\<exists>S V S'. auth_run tree_lib map_caches [(one_token, 1050, False)] S
     \<and> Auth_IsAuthorized tree_lib map_caches (\<lambda>_ _ _. (504, [])) 1100 ''t1'' False fresh_verdict S = (V, S')
     \<and> vd_allowed V \<and> \<not> IsTokenExpired 1100 (uip_webtoken (vd_UInfo V))"
proof -
  let ?S = "no_tokens \<lparr> au_Cache := [''t1'' \<mapsto> t1_user] \<rparr>"
  let ?V = "fresh_verdict \<lparr> vd_allowed := True, vd_UInfo := t1_user, vd_Expired := False \<rparr>"
  have s1: "auth_run tree_lib map_caches [(one_token, 1050, False)] ?S"
    by (rule auth_run.token[OF no_tokens_run t1_accepted[of fresh_verdict]]) (simp_all add: fresh_verdict_def)
  have a: "Auth_IsAuthorized tree_lib map_caches (\<lambda>_ _ _. (504, [])) 1100 ''t1'' False fresh_verdict ?S = (?V, ?S)"
    by (simp add: Auth_IsAuthorized_def map_caches_sel t1_expires)
  have "\<not> IsTokenExpired 1100 (uip_webtoken (vd_UInfo ?V))"
    using authorised_tokens_vouched[OF s1 map_caches_sel(3) a] by simp
  with s1 a show ?thesis by fastforce
qed

text \<open>
  C40: A key that was accepted and expires at \<open>E\<close> stays in the cache.  When the security service no longer accepts it,
  because it was revoked or the service cannot be reached, the client accepts it exactly once it has expired.
\<close>

theorem cached_api_key_accepted_iff_expired:
  assumes "IsValidApiKey J X Do Now k V S = (V1, S1)" "vd_allowed V1"
    and "fst (ec_get (ac_keys X) (au_ApiKeyCache S) k) = None"
    and "\<forall>v c. fst (ec_get (ac_keys X) (ec_update (ac_keys X) k v c) k) = Some v"
    and "v_u64 J (p_get J (snd (Do ''/api/v1/validateApiKey'' [(''apikey'', k)] [])) ''expiresOn'') = Inr E"
    and "fst (Do' ''/api/v1/validateApiKey'' [(''apikey'', k)] []) \<noteq> HTTP_OK"
  shows "vd_allowed (fst (IsValidApiKey J X Do' Now' k V' S1)) \<longleftrightarrow> E < Now'"
proof -
  obtain c where c: "ec_get (ac_keys X) (au_ApiKeyCache S) k = (None, c)"
    using assms(3) by (metis prod.collapse)
  obtain code R where d: "Do ''/api/v1/validateApiKey'' [(''apikey'', k)] [] = (code, R)" by fastforce
  have e: "v_u64 J (p_get J R ''expiresOn'') = Inr E" using assms(5) d by simp
  obtain U where "au_ApiKeyCache S1 = ec_update (ac_keys X) k \<lparr> ake_UserInfo = U, ake_ExpiresOn = E \<rparr> c"
    using assms(1,2) by (auto simp: IsValidApiKey_def c RetrieveApiKeyInformation_def d e Let_def split: if_splits)
  then obtain c' where g: "ec_get (ac_keys X) (au_ApiKeyCache S1) k = (Some \<lparr> ake_UserInfo = U, ake_ExpiresOn = E \<rparr>, c')"
    using assms(4) by (metis prod.collapse)
  obtain code' R' where d': "Do' ''/api/v1/validateApiKey'' [(''apikey'', k)] [] = (code', R')" by fastforce
  have "code' \<noteq> 200" using assms(6) d' by simp
  then show ?thesis by (simp add: IsValidApiKey_def g RetrieveApiKeyInformation_def d')
qed

lemma cached_api_key_accepted_iff_expired_witness:
  "vd_allowed (fst (IsValidApiKey tree_lib map_caches (\<lambda>_ _ _. (403, [])) 501 ''k1'' fresh_verdict
      (snd (IsValidApiKey tree_lib map_caches one_token 400 ''k1'' fresh_verdict
        \<lparr> au_Cache = Map.empty, au_ApiKeyCache = Map.empty \<rparr>))))
   \<and> \<not> vd_allowed (fst (IsValidApiKey tree_lib map_caches (\<lambda>_ _ _. (403, [])) 450 ''k1'' fresh_verdict
      (snd (IsValidApiKey tree_lib map_caches one_token 400 ''k1'' fresh_verdict
        \<lparr> au_Cache = Map.empty, au_ApiKeyCache = Map.empty \<rparr>))))"
proof -
  let ?S = "\<lparr> au_Cache = Map.empty, au_ApiKeyCache = Map.empty \<rparr>"
  let ?r = "IsValidApiKey tree_lib map_caches one_token 400 ''k1'' fresh_verdict ?S"
  have x: "ec_get (ac_keys map_caches) c k = (c k, c)" "ec_update (ac_keys map_caches) k v c = c(k \<mapsto> v)" for c k v
    by (simp_all add: map_caches_def map_cache_def)
  have r: "?r = (fst ?r, snd ?r)" by simp
  have d: "one_token ''/api/v1/validateApiKey'' [(''apikey'', ''k1'')] [] =
      (HTTP_OK, [(''tokenInfo'', TObject []), (''userInfo'', TObject []), (''expiresOn'', TU64 500)])"
    by (simp add: one_token_def)
  have a: "vd_allowed (fst ?r)"
    by (simp add: IsValidApiKey_def x RetrieveApiKeyInformation_def d Let_def tree_lib_def)
  note t = cached_api_key_accepted_iff_expired[OF r a, of 500 "\<lambda>_ _ _. (403, [])" _ fresh_verdict]
  have "vd_allowed (fst (IsValidApiKey tree_lib map_caches (\<lambda>_ _ _. (403, [])) n ''k1'' fresh_verdict (snd ?r))) \<longleftrightarrow> 500 < n" for n
    by (rule t) (simp_all add: x d tree_lib_def)
  then show ?thesis by simp
qed

end
