(* ===== verification/Rest.thy ===== *)
theory Rest
  imports Auth
begin

text \<open>
  \<^verbatim>\<open>src/src/framework/RESTAPI_Handler.h\<close>: what every request handler does before and around its own code: routing,
  parameters, authorisation and the answers.  \<^verbatim>\<open>Poco::Net\<close> is not part of the sources: a request is what the handler
  reads of it, and the functions of the library are fields of \<open>rest_env\<close>.
\<close>

section \<open>Requests and answers\<close>

record request =
  rq_method :: string
  rq_uri_path :: string
  rq_parameters :: "(string \<times> string) list"
  rq_get :: "string \<Rightarrow> string option"
  rq_length :: int
  rq_content_type :: string
  rq_text :: string
  rq_client_host :: string

text \<open>\<open>rs_body\<close> is what was sent, \<open>None\<close> when nothing was.\<close>

record response =
  rs_status :: nat
  rs_headers :: "string \<rightharpoonup> string"
  rs_body :: "string option"

text \<open>\<open>re_credentials\<close> are the scheme and the token \<^verbatim>\<open>OAuth20Credentials\<close> extracts, \<open>None\<close> when it throws;
  \<open>re_contains\<close> is \<^verbatim>\<open>find\<close> different from \<^verbatim>\<open>npos\<close>; \<open>re_hash\<close> is \<^verbatim>\<open>std::hash\<close>; \<open>re_MyHash\<close> is the key of this
  service.\<close>

record rest_env =
  re_tokenizer :: "string \<Rightarrow> string \<Rightarrow> string list"
  re_contains :: "string \<Rightarrow> string \<Rightarrow> bool"
  re_gzip :: "string \<Rightarrow> string"
  re_hash :: "string \<Rightarrow> u64"
  re_credentials :: "request \<Rightarrow> (string \<times> string) option"
  re_AllowExternalMicroServices :: bool
  re_MyHash :: string

type_synonym msg = "nat \<times> string"

definition Error404 :: msg where "Error404 = (404, ''Resource does not exist.'')"
definition ACCESS_DENIED :: msg where "ACCESS_DENIED = (7, ''Access denied.'')"
definition INVALID_TOKEN :: msg where "INVALID_TOKEN = (8, ''Invalid token.'')"
definition EXPIRED_TOKEN :: msg where "EXPIRED_TOKEN = (9, ''Expired token.'')"
definition RATE_LIMIT_EXCEEDED :: msg where "RATE_LIMIT_EXCEEDED = (10, ''Rate limit exceeded.'')"
definition SECURITY_SERVICE_UNREACHABLE :: msg where
  "SECURITY_SERVICE_UNREACHABLE = (13, ''Security service is unreachable, try again later.'')"
definition Error_InternalError :: msg where "Error_InternalError = (1002, ''Internal error. Please try later.'')"
definition UnsupportedHTTPMethod :: msg where "UnsupportedHTTPMethod = (1004, ''Unsupported HTTP Method'')"

definition SetCommonHeaders :: "rest_env \<Rightarrow> request \<Rightarrow> bool \<Rightarrow> (string \<rightharpoonup> string) \<Rightarrow> (string \<rightharpoonup> string)" where
  "SetCommonHeaders Env Request CloseConnection H =
     (let H = H(''Content-Type'' \<mapsto> ''application/json'');
          H = H(''Access-Control-Allow-Origin'' \<mapsto>
                (case rq_get Request ''Origin'' of
                   Some origin \<Rightarrow> if \<not> re_AllowExternalMicroServices Env then origin else ''*''
                 | None \<Rightarrow> ''*''));
          H = H(''Vary'' \<mapsto> ''Origin, Accept-Encoding'')
      in if CloseConnection then H(''Connection'' \<mapsto> ''close'')
         else H(''Connection'' \<mapsto> ''Keep-Alive'', ''Keep-Alive'' \<mapsto> ''timeout=30, max=1000''))"

definition PrepareResponse :: "rest_env \<Rightarrow> request \<Rightarrow> nat \<Rightarrow> bool \<Rightarrow> response" where
  "PrepareResponse Env Request Status CloseConnection =
     \<lparr> rs_status = Status, rs_headers = SetCommonHeaders Env Request CloseConnection Map.empty, rs_body = None \<rparr>"

definition send_object :: "('o, 'v) poco \<Rightarrow> (string \<times> 'v) list \<Rightarrow> response \<Rightarrow> response" where
  "send_object J members R = R \<lparr> rs_body := Some (p_stringify J (set_all J members (p_new J))) \<rparr>"

fun describe :: "msg \<Rightarrow> string \<Rightarrow> string" where
  "describe (num, txt) Extra =
     (if Extra = [] then dec_string num @ '': '' @ txt else dec_string num @ '': '' @ txt @ '' ('' @ Extra @ '')'')"

definition BadRequest :: "('o, 'v) poco \<Rightarrow> rest_env \<Rightarrow> request \<Rightarrow> msg \<Rightarrow> string \<Rightarrow> response" where
  "BadRequest J Env Request E Extra =
     send_object J [(''ErrorCode'', mk_i64 J 400), (''ErrorDetails'', mk_string J (rq_method Request)),
         (''ErrorDescription'', mk_string J (describe E Extra))]
       (PrepareResponse Env Request HTTP_BAD_REQUEST False)"

definition InternalError :: "('o, 'v) poco \<Rightarrow> rest_env \<Rightarrow> request \<Rightarrow> msg \<Rightarrow> response" where
  "InternalError J Env Request E =
     send_object J [(''ErrorCode'', mk_i64 J 500), (''ErrorDetails'', mk_string J (rq_method Request)),
         (''ErrorDescription'', mk_string J (describe E []))]
       (PrepareResponse Env Request HTTP_INTERNAL_SERVER_ERROR False)"

definition UnAuthorized :: "('o, 'v) poco \<Rightarrow> rest_env \<Rightarrow> request \<Rightarrow> msg \<Rightarrow> response" where
  "UnAuthorized J Env Request E =
     send_object J [(''ErrorCode'', mk_u64 J (of_nat (fst E))), (''ErrorDetails'', mk_string J (rq_method Request)),
         (''ErrorDescription'', mk_string J (describe E []))]
       (PrepareResponse Env Request HTTP_FORBIDDEN False)"

definition Rest_NotFound :: "('o, 'v) poco \<Rightarrow> rest_env \<Rightarrow> request \<Rightarrow> response" where
  "Rest_NotFound J Env Request =
     send_object J [(''ErrorCode'', mk_i64 J 404), (''ErrorDetails'', mk_string J (rq_method Request)),
         (''ErrorDescription'', mk_string J (describe Error404 []))]
       (PrepareResponse Env Request HTTP_NOT_FOUND False)"

definition Rest_OK :: "('o, 'v) poco \<Rightarrow> rest_env \<Rightarrow> request \<Rightarrow> response" where
  "Rest_OK J Env Request =
     (let R = PrepareResponse Env Request HTTP_OK False
      in if rq_method Request = ''DELETE'' \<or> rq_method Request = ''OPTIONS'' then R \<lparr> rs_body := Some [] \<rparr>
         else send_object J [(''Code'', mk_i64 J 0), (''Operation'', mk_string J (rq_method Request)),
                (''Details'', mk_string J ''Command completed.'')] R)"

text \<open>An object or a JSON text, compressed when the client accepts it.\<close>

definition ReturnRawJSON :: "rest_env \<Rightarrow> request \<Rightarrow> string \<Rightarrow> response" where
  "ReturnRawJSON Env Request json_doc =
     (let R = PrepareResponse Env Request HTTP_OK False
      in case rq_get Request ''Accept-Encoding'' of
           Some AcceptedEncoding \<Rightarrow>
             if re_contains Env AcceptedEncoding ''gzip'' \<or> re_contains Env AcceptedEncoding ''compress''
             then R \<lparr> rs_headers := (rs_headers R)(''Content-Encoding'' \<mapsto> ''gzip''), rs_body := Some (re_gzip Env json_doc) \<rparr>
             else R \<lparr> rs_body := Some json_doc \<rparr>
         | None \<Rightarrow> R \<lparr> rs_body := Some json_doc \<rparr>)"

definition ReturnObject :: "('o, 'v) poco \<Rightarrow> rest_env \<Rightarrow> request \<Rightarrow> 'o \<Rightarrow> response" where
  "ReturnObject J Env Request ob = ReturnRawJSON Env Request (p_stringify J ob)"

definition Return_to_json :: "('o, 'v) poco \<Rightarrow> rest_env \<Rightarrow> request \<Rightarrow> ('a \<Rightarrow> 'o \<Rightarrow> 'o) \<Rightarrow> 'a \<Rightarrow> response" where
  "Return_to_json J Env Request to x = ReturnObject J Env Request (to x (p_new J))"

definition ReturnCountOnly :: "('o, 'v) poco \<Rightarrow> rest_env \<Rightarrow> request \<Rightarrow> u64 \<Rightarrow> response" where
  "ReturnCountOnly J Env Request Count = ReturnObject J Env Request (set_all J [(''count'', mk_u64 J Count)] (p_new J))"

fun MakeList_from :: "string list \<Rightarrow> string \<Rightarrow> string" where
  "MakeList_from [] Return = Return"
| "MakeList_from (i # L) Return = MakeList_from L (if Return = [] then i else Return @ '', '' @ i)"

definition MakeList :: "string list \<Rightarrow> string" where "MakeList L = MakeList_from L []"

definition ProcessOptions :: "rest_env \<Rightarrow> request \<Rightarrow> string list \<Rightarrow> response" where
  "ProcessOptions Env Request Methods =
     (let H = [''Access-Control-Allow-Origin'' \<mapsto>
                (case rq_get Request ''Origin'' of
                   Some origin \<Rightarrow> if \<not> re_AllowExternalMicroServices Env then origin else ''*''
                 | None \<Rightarrow> ''*''),
              ''Access-Control-Allow-Methods'' \<mapsto> MakeList Methods];
          H = (case rq_get Request ''Access-Control-Request-Headers'' of
                 Some RequestHeaders \<Rightarrow> H(''Access-Control-Allow-Headers'' \<mapsto> RequestHeaders) | None \<Rightarrow> H);
          H = H(''Vary'' \<mapsto> ''Origin, Accept-Encoding'', ''Access-Control-Allow-Credentials'' \<mapsto> ''true'',
                ''Access-Control-Max-Age'' \<mapsto> ''86400'', ''Connection'' \<mapsto> ''Keep-Alive'',
                ''Keep-Alive'' \<mapsto> ''timeout=30, max=1000'')
      in \<lparr> rs_status = HTTP_OK, rs_headers = H, rs_body = Some [] \<rparr>)"

section \<open>Routing and parameters\<close>

type_synonym bindings = "(string, string) omap"

text \<open>The items of a path against the items of an end point; both lists have the same length.\<close>

fun match_items :: "string list \<Rightarrow> string list \<Rightarrow> bindings \<Rightarrow> bindings \<times> bool" where
  "match_items (path # PathItems) (param # ParamItems) b =
     (if path = param then match_items PathItems ParamItems b
      else if param \<noteq> [] \<and> hd param = CHR ''{''
      then match_items PathItems ParamItems
             (omap_set (map tolower (take (length param - 2) (drop 1 param))) path b)
      else (b, False))"
| "match_items _ _ b = (b, True)"

text \<open>What an end point that did not match has bound stays bound for the next one.\<close>

fun match_endpoints :: "rest_env \<Rightarrow> string list \<Rightarrow> string list \<Rightarrow> bindings \<Rightarrow> bindings \<times> bool" where
  "match_endpoints Env PathItems [] b = (b, False)"
| "match_endpoints Env PathItems (EndPoint # EndPoints) b =
     (let ParamItems = re_tokenizer Env EndPoint ''/''
      in if length PathItems \<noteq> length ParamItems then match_endpoints Env PathItems EndPoints b
         else case match_items PathItems ParamItems b of
                (b', Matched) \<Rightarrow> if Matched then (b', True) else match_endpoints Env PathItems EndPoints b')"

definition ParseBindings :: "rest_env \<Rightarrow> string \<Rightarrow> string list \<Rightarrow> bindings \<times> bool" where
  "ParseBindings Env Request EndPoints = match_endpoints Env (re_tokenizer Env Request ''/'') EndPoints []"

text \<open>\<^verbatim>\<open>RESTAPI_Router\<close>: the first class one of whose paths matches, or none with the last bindings.\<close>

fun RESTAPI_Router :: "rest_env \<Rightarrow> string \<Rightarrow> (string list \<times> 'h) list \<Rightarrow> bindings \<Rightarrow> 'h option \<times> bindings" where
  "RESTAPI_Router Env RequestedPath [] b = (None, b)"
| "RESTAPI_Router Env RequestedPath ((PathName, T) # Args) b =
     (case ParseBindings Env RequestedPath PathName of
        (b', True) \<Rightarrow> (Some T, b')
      | (b', False) \<Rightarrow> RESTAPI_Router Env RequestedPath Args b')"

definition is_number :: "string \<Rightarrow> bool" where
  "is_number s \<longleftrightarrow> s \<noteq> [] \<and> list_all isdigit s"

definition is_bool :: "string \<Rightarrow> bool" where
  "is_bool s \<longleftrightarrow> s = ''true'' \<or> s = ''false''"

text \<open>\<^verbatim>\<open>std::stoull\<close> of a text of digits.\<close>

definition stoull_digits :: "string \<Rightarrow> u64 cpp" where
  "stoull_digits s =
     (if num_val 10 digit_val s < 2 ^ 64 then Inr (of_nat (num_val 10 digit_val s)) else Inl Out_of_range)"

definition GetParameter_u64 :: "(string \<times> string) list \<Rightarrow> string \<Rightarrow> u64 \<Rightarrow> u64 cpp" where
  "GetParameter_u64 Parameters Name Default =
     (case map_of Parameters Name of
        None \<Rightarrow> Inr Default
      | Some Hint \<Rightarrow> if is_number Hint then stoull_digits Hint else Inr Default)"

definition GetBoolParameter :: "(string \<times> string) list \<Rightarrow> string \<Rightarrow> bool \<Rightarrow> bool" where
  "GetBoolParameter Parameters Name Default =
     (case map_of Parameters Name of
        None \<Rightarrow> Default
      | Some Hint \<Rightarrow> if is_bool Hint then Hint = ''true'' else Default)"

definition GetParameter :: "(string \<times> string) list \<Rightarrow> string \<Rightarrow> string \<Rightarrow> string" where
  "GetParameter Parameters Name Default = (case map_of Parameters Name of None \<Rightarrow> Default | Some Hint \<Rightarrow> Hint)"

definition GetBinding :: "bindings \<Rightarrow> string \<Rightarrow> string \<Rightarrow> string" where
  "GetBinding Bindings Name Default =
     (case map_of Bindings (map tolower Name) of None \<Rightarrow> Default | Some v \<Rightarrow> v)"

record QueryBlock =
  qb_StartDate :: u64
  qb_EndDate :: u64
  qb_Offset :: u64
  qb_Limit :: u64
  qb_LogType :: u64
  qb_SerialNumber :: string
  qb_Filter :: string
  qb_Select :: "string list"
  qb_Lifetime :: bool
  qb_LastOnly :: bool
  qb_Newest :: bool
  qb_CountOnly :: bool
  qb_AdditionalInfo :: bool

definition InitQueryBlock :: "rest_env \<Rightarrow> (string \<times> string) list \<Rightarrow> QueryBlock cpp" where
  "InitQueryBlock Env P =
     bind (GetParameter_u64 P ''startDate'' 0) (\<lambda>StartDate.
     bind (GetParameter_u64 P ''endDate'' 0) (\<lambda>EndDate.
     bind (GetParameter_u64 P ''offset'' 0) (\<lambda>Offset.
     bind (GetParameter_u64 P ''limit'' 100) (\<lambda>Limit.
     bind (GetParameter_u64 P ''logType'' 0) (\<lambda>LogType.
     Inr \<lparr> qb_StartDate = StartDate, qb_EndDate = EndDate, qb_Offset = (if Offset < 1 then 0 else Offset),
           qb_Limit = Limit, qb_LogType = LogType, qb_SerialNumber = GetParameter P ''serialNumber'' [],
           qb_Filter = GetParameter P ''filter'' [],
           qb_Select = re_tokenizer Env (GetParameter P ''select'' []) '','',
           qb_Lifetime = GetBoolParameter P ''lifetime'' False, qb_LastOnly = GetBoolParameter P ''lastOnly'' False,
           qb_Newest = GetBoolParameter P ''newest'' False, qb_CountOnly = GetBoolParameter P ''countOnly'' False,
           qb_AdditionalInfo = GetBoolParameter P ''withExtendedInfo'' False \<rparr>)))))"

section \<open>The rate limiter\<close>

text \<open>\<^verbatim>\<open>src/src/framework/RESTAPI_RateLimiter.h\<close>: calls counted per path and client, times in milliseconds.\<close>

record ClientCacheEntry =
  cce_Start :: int
  cce_Count :: int

definition IsRateLimited ::
  "rest_env \<Rightarrow> ('l, u64, ClientCacheEntry) expire_cache \<Rightarrow> request \<Rightarrow> int \<Rightarrow> int \<Rightarrow> int \<Rightarrow> 'l \<Rightarrow> bool \<times> 'l" where
  "IsRateLimited Env L R Now Period MaxCalls c =
     (let H = re_hash Env (rq_uri_path R @ rq_client_host R)
      in case ec_get L c H of
           (None, c) \<Rightarrow> (False, ec_update L H \<lparr> cce_Start = Now, cce_Count = 1 \<rparr> c)
         | (Some E, c) \<Rightarrow>
             if Now - cce_Start E < Period
             then let E = E \<lparr> cce_Count := cce_Count E + 1 \<rparr>
                  in (cce_Count E > MaxCalls, ec_update L H E c)
             else (False, ec_update L H \<lparr> cce_Start = Now, cce_Count = 1 \<rparr> c))"

section \<open>Handlers\<close>

text \<open>A request while it is handled.\<close>

record 'o handler =
  h_Request :: request
  h_Internal :: bool
  h_Bindings :: bindings
  h_QB :: QueryBlock
  h_UserInfo :: UserInfoAndPolicy
  h_ParsedBody :: "'o option"
  h_Requester :: string
  h_SessionToken :: string

text \<open>What a class passes to the constructor of \<^verbatim>\<open>RESTAPIHandler\<close>, and its own code: functions of the state \<open>'s\<close> of
  the program that answer or throw.\<close>

record ('o, 's) rest_class =
  rc_Methods :: "string list"
  rc_AlwaysAuthorize :: bool
  rc_RateLimited :: bool
  rc_Interval :: int
  rc_MaxCalls :: int
  rc_SubOnlyService :: bool
  rc_DoGet :: "'o handler \<Rightarrow> 's \<Rightarrow> response cpp \<times> 's"
  rc_DoPost :: "'o handler \<Rightarrow> 's \<Rightarrow> response cpp \<times> 's"
  rc_DoPut :: "'o handler \<Rightarrow> 's \<Rightarrow> response cpp \<times> 's"
  rc_DoDelete :: "'o handler \<Rightarrow> 's \<Rightarrow> response cpp \<times> 's"

text \<open>The answer, or an exception that is not one of \<^verbatim>\<open>Poco\<close>'s and leaves \<^verbatim>\<open>handleRequest\<close>.\<close>

datatype outcome = Answered response | Escaped cpp_exn

definition catch_poco :: "('o, 'v) poco \<Rightarrow> rest_env \<Rightarrow> request \<Rightarrow> response cpp \<Rightarrow> outcome" where
  "catch_poco J Env Request r =
     (case r of
        Inr R \<Rightarrow> Answered R
      | Inl e \<Rightarrow> if e = Type_error then Answered (BadRequest J Env Request Error_InternalError []) else Escaped e)"

text \<open>\<^verbatim>\<open>MicroService::IsValidAPIKEY\<close>.\<close>

definition IsValidAPIKEY :: "rest_env \<Rightarrow> request \<Rightarrow> bool" where
  "IsValidAPIKEY Env Request =
     (case rq_get Request ''X-API-KEY'' of None \<Rightarrow> False | Some APIKEY \<Rightarrow> APIKEY = re_MyHash Env)"

text \<open>\<open>Do\<close> and \<open>Now\<close> are the security service and the clock during the call.\<close>

definition Handler_IsAuthorized ::
  "('o, 'v) poco \<Rightarrow> rest_env \<Rightarrow> ('c, 'd) auth_caches \<Rightarrow> 'o api \<Rightarrow> u64 \<Rightarrow> bool \<Rightarrow> 'o handler \<Rightarrow> ('c, 'd) auth_client \<Rightarrow>
     verdict \<times> 'o handler \<times> ('c, 'd) auth_client" where
  "Handler_IsAuthorized J Env X Do Now Sub H S =
     (let Request = h_Request H;
          V = \<lparr> vd_allowed = False, vd_UInfo = h_UserInfo H, vd_Expired = False, vd_Contacted = False \<rparr>;
          accept = (\<lambda>V H. if vd_allowed V
            then H \<lparr> h_UserInfo := vd_UInfo V, h_Requester := user_email (uip_userinfo (vd_UInfo V)) \<rparr>
            else H \<lparr> h_UserInfo := vd_UInfo V \<rparr>)
      in if h_Internal H \<and> rq_get Request ''X-INTERNAL-NAME'' \<noteq> None
         then (if IsValidAPIKEY Env Request
               then (V \<lparr> vd_allowed := True, vd_Contacted := True \<rparr>,
                     H \<lparr> h_Requester := the (rq_get Request ''X-INTERNAL-NAME'') \<rparr>, S)
               else (V \<lparr> vd_allowed := False, vd_Contacted := True \<rparr>, H, S))
         else if \<not> h_Internal H \<and> rq_get Request ''X-API-KEY'' \<noteq> None
         then (let H = H \<lparr> h_SessionToken := the (rq_get Request ''X-API-KEY'') \<rparr>
               in case IsValidApiKey J X Do Now (h_SessionToken H) V S of (V, S) \<Rightarrow> (V, accept V H, S))
         else (let H = (if h_SessionToken H \<noteq> [] then H
                        else case re_credentials Env Request of
                               None \<Rightarrow> H
                             | Some (Scheme, Bearer) \<Rightarrow>
                                 if Scheme = ''Bearer'' then H \<lparr> h_SessionToken := Bearer \<rparr> else H)
               in case Auth_IsAuthorized J X Do Now (h_SessionToken H) Sub V S of (V, S) \<Rightarrow> (V, accept V H, S)))"

text \<open>
  One request from its arrival to its answer.  The state is the authentication client, the rate limiter and what the
  handler's own code works on; \<open>ms\<close> is the clock of the rate limiter.  \<^verbatim>\<open>RoleIsAuthorized\<close> always answers true.
\<close>

definition dispatch_method ::
  "('o, 'v) poco \<Rightarrow> rest_env \<Rightarrow> ('o, 's) rest_class \<Rightarrow> 'o handler \<Rightarrow> 's \<Rightarrow> outcome \<times> 's" where
  "dispatch_method J Env T H s =
     (let m = rq_method (h_Request H)
      in if m = ''GET'' then (case rc_DoGet T H s of (r, s) \<Rightarrow> (catch_poco J Env (h_Request H) r, s))
         else if m = ''POST'' then (case rc_DoPost T H s of (r, s) \<Rightarrow> (catch_poco J Env (h_Request H) r, s))
         else if m = ''DELETE'' then (case rc_DoDelete T H s of (r, s) \<Rightarrow> (catch_poco J Env (h_Request H) r, s))
         else if m = ''PUT'' then (case rc_DoPut T H s of (r, s) \<Rightarrow> (catch_poco J Env (h_Request H) r, s))
         else (Answered (BadRequest J Env (h_Request H) UnsupportedHTTPMethod []), s))"

definition parse_and_dispatch ::
  "('o, 'v) poco \<Rightarrow> rest_env \<Rightarrow> ('o, 's) rest_class \<Rightarrow> 'o handler \<Rightarrow> 's \<Rightarrow> outcome \<times> 's" where
  "parse_and_dispatch J Env T H s =
     (case InitQueryBlock Env (rq_parameters (h_Request H)) of
        Inl e \<Rightarrow> (catch_poco J Env (h_Request H) (Inl e), s)
      | Inr QB \<Rightarrow> dispatch_method J Env T (H \<lparr> h_QB := QB \<rparr>) s)"

definition handleRequest ::
  "('o, 'v) poco \<Rightarrow> rest_env \<Rightarrow> ('c, 'd) auth_caches \<Rightarrow> ('l, u64, ClientCacheEntry) expire_cache \<Rightarrow> 'o api \<Rightarrow> u64 \<Rightarrow> int \<Rightarrow>
     ('o, ('c, 'd) auth_client \<times> 'w) rest_class \<Rightarrow> 'o handler \<Rightarrow> ('c, 'd) auth_client \<times> 'l \<times> 'w \<Rightarrow>
     outcome \<times> ('c, 'd) auth_client \<times> 'l \<times> 'w" where
  "handleRequest J Env X L Do Now ms T H st =
     (case st of (S, rates, w) \<Rightarrow>
        let Request = h_Request H;
            has_body = rq_length Request > 0 \<and> re_contains Env (rq_content_type Request) ''application/json''
        in case (if has_body then map_sum id Some (bind (p_parse J (rq_text Request)) (v_object J))
                 else Inr (h_ParsedBody H)) of
             Inl _ \<Rightarrow> (Answered (BadRequest J Env Request Error_InternalError []), S, rates, w)
           | Inr ParsedBody \<Rightarrow>
               (case (if rc_RateLimited T then IsRateLimited Env L Request ms (rc_Interval T) (rc_MaxCalls T) rates
                      else (False, rates)) of
                  (limited, rates) \<Rightarrow>
                    if limited then (Answered (UnAuthorized J Env Request RATE_LIMIT_EXCEEDED), S, rates, w)
                    else if rq_method Request = ''OPTIONS''
                    then (Answered (ProcessOptions Env Request (rc_Methods T)), S, rates, w)
                    else if rq_method Request \<notin> set (rc_Methods T)
                    then (Answered (BadRequest J Env Request UnsupportedHTTPMethod []), S, rates, w)
                    else let H = H \<lparr> h_ParsedBody := ParsedBody \<rparr>
                    in if rc_AlwaysAuthorize T
                       then (case Handler_IsAuthorized J Env X Do Now (rc_SubOnlyService T) H S of
                               (V, H, S) \<Rightarrow>
                                 if \<not> vd_allowed V
                                 then (Answered (UnAuthorized J Env Request
                                         (if vd_Expired V then EXPIRED_TOKEN
                                          else if vd_Contacted V then INVALID_TOKEN
                                          else SECURITY_SERVICE_UNREACHABLE)), S, rates, w)
                                 else (case parse_and_dispatch J Env T H (S, w) of
                                         (out, S, w) \<Rightarrow> (out, S, rates, w)))
                       else (case parse_and_dispatch J Env T H (S, w) of (out, S, w) \<Rightarrow> (out, S, rates, w))))"

section \<open>Requests are authorised before they have an effect\<close>

text \<open>Why a request may be handled: a service of the system with the key of this one, an API key, or a bearer token.\<close>

definition internal_key :: "rest_env \<Rightarrow> 'o handler \<Rightarrow> bool" where
  "internal_key Env H \<longleftrightarrow> h_Internal H \<and> rq_get (h_Request H) ''X-INTERNAL-NAME'' \<noteq> None
     \<and> rq_get (h_Request H) ''X-API-KEY'' = Some (re_MyHash Env)"

definition by_api_key :: "'o handler \<Rightarrow> bool" where
  "by_api_key H \<longleftrightarrow> \<not> h_Internal H \<and> rq_get (h_Request H) ''X-API-KEY'' \<noteq> None"

definition bearer_of :: "rest_env \<Rightarrow> request \<Rightarrow> string" where
  "bearer_of Env R = (case re_credentials Env R of Some (Scheme, Bearer) \<Rightarrow> if Scheme = ''Bearer'' then Bearer else [] | None \<Rightarrow> [])"

lemma Handler_IsAuthorized_cases:
  assumes "Handler_IsAuthorized J Env X Do Now Sub H S = (V, H', S')" "vd_allowed V" "h_SessionToken H = []"
  obtains (internal) "internal_key Env H"
  | (key) "by_api_key H" "\<exists>V0. IsValidApiKey J X Do Now (the (rq_get (h_Request H) ''X-API-KEY'')) V0 S = (V, S')"
  | (bearer) "\<not> by_api_key H" "\<exists>V0. Auth_IsAuthorized J X Do Now (bearer_of Env (h_Request H)) Sub V0 S = (V, S')"
      "h_UserInfo H' = vd_UInfo V"
proof -
  consider (i) "h_Internal H \<and> rq_get (h_Request H) ''X-INTERNAL-NAME'' \<noteq> None"
    | (k) "by_api_key H" | (b) "\<not> (h_Internal H \<and> rq_get (h_Request H) ''X-INTERNAL-NAME'' \<noteq> None)" "\<not> by_api_key H"
    by blast
  then show thesis
  proof cases
    case i
    then have "internal_key Env H"
      using assms(1,2)
      by (auto simp: Handler_IsAuthorized_def internal_key_def IsValidAPIKEY_def Let_def split: if_splits option.splits)
    then show thesis by (rule internal)
  next
    case k
    then show thesis
      using assms(1) by (intro key) (auto simp: Handler_IsAuthorized_def by_api_key_def Let_def split: prod.splits if_splits)
  next
    case b
    let ?H = "if h_SessionToken H \<noteq> [] then H
      else case re_credentials Env (h_Request H) of None \<Rightarrow> H
        | Some (Scheme, Bearer) \<Rightarrow> if Scheme = ''Bearer'' then H \<lparr> h_SessionToken := Bearer \<rparr> else H"
    have "h_SessionToken ?H = bearer_of Env (h_Request H)"
      using assms(3) by (auto simp: bearer_of_def split: option.split)
    with b assms(1,2) show thesis
      by (intro bearer) (auto simp: Handler_IsAuthorized_def by_api_key_def Let_def split: prod.splits if_splits)
  qed
qed

text \<open>The same class with other code of its own.\<close>

definition with_methods ::
  "('o, 's) rest_class \<Rightarrow> (string \<Rightarrow> 'o handler \<Rightarrow> 's \<Rightarrow> response cpp \<times> 's) \<Rightarrow> ('o, 's) rest_class" where
  "with_methods T f = T \<lparr> rc_DoGet := f ''GET'', rc_DoPost := f ''POST'', rc_DoPut := f ''PUT'', rc_DoDelete := f ''DELETE'' \<rparr>"

lemma with_methods_sel [simp]:
  "rc_Methods (with_methods T f) = rc_Methods T" "rc_AlwaysAuthorize (with_methods T f) = rc_AlwaysAuthorize T"
  "rc_RateLimited (with_methods T f) = rc_RateLimited T" "rc_Interval (with_methods T f) = rc_Interval T"
  "rc_MaxCalls (with_methods T f) = rc_MaxCalls T" "rc_SubOnlyService (with_methods T f) = rc_SubOnlyService T"
  by (simp_all add: with_methods_def)

lemma handleRequest_gate:
  assumes "handleRequest J Env X L Do Now ms T H (S, rates, w) \<noteq> handleRequest J Env X L Do Now ms (with_methods T f) H (S, rates, w)"
  shows "rq_method (h_Request H) \<in> set (rc_Methods T)"
    and "rc_RateLimited T \<Longrightarrow> \<not> fst (IsRateLimited Env L (h_Request H) ms (rc_Interval T) (rc_MaxCalls T) rates)"
    and "rc_AlwaysAuthorize T \<Longrightarrow>
      \<exists>B V H' S'. Handler_IsAuthorized J Env X Do Now (rc_SubOnlyService T) (H \<lparr> h_ParsedBody := B \<rparr>) S = (V, H', S') \<and> vd_allowed V"
  using assms unfolding handleRequest_def Let_def with_methods_sel prod.case
  by (auto split: sum.splits prod.splits if_splits)

text \<open>What the limiter allows: the first call of a client and path in a period, and as many as the class allows in it.\<close>

lemma IsRateLimited_iff:
  "\<not> fst (IsRateLimited Env L R Now Period MaxCalls c) \<longleftrightarrow>
     (case fst (ec_get L c (re_hash Env (rq_uri_path R @ rq_client_host R))) of
        None \<Rightarrow> True | Some E \<Rightarrow> Now - cce_Start E \<ge> Period \<or> cce_Count E < MaxCalls)"
  by (auto simp: IsRateLimited_def Let_def split: prod.split option.split)

text \<open>
  C9: The code of a protected handler has a say in the answer or the state only if the method is one of its class, the calls
  counted for its path and client leave room for one more in the period when the class has a limit, and the
  request carries the key of this service, or a key the client accepts, or a bearer token the security service has vouched for and
  that has not expired.
\<close>

theorem handled_only_when_authorised:
  assumes "auth_run J X asked S" "cache_sound (ac_tokens X) holds" "rc_AlwaysAuthorize T" "h_SessionToken H = []"
    and "handleRequest J Env X L Do Now ms T H (S, rates, w) \<noteq> handleRequest J Env X L Do Now ms (with_methods T f) H (S, rates, w)"
  shows "rq_method (h_Request H) \<in> set (rc_Methods T)
    \<and> (if rc_RateLimited T
       then case fst (ec_get L rates (re_hash Env (rq_uri_path (h_Request H) @ rq_client_host (h_Request H)))) of
              None \<Rightarrow> True | Some E \<Rightarrow> ms - cce_Start E \<ge> rc_Interval T \<or> cce_Count E < rc_MaxCalls T
       else True)
    \<and> (internal_key Env H
       \<or> (by_api_key H \<and> (\<exists>V0 V S'. IsValidApiKey J X Do Now (the (rq_get (h_Request H) ''X-API-KEY'')) V0 S = (V, S') \<and> vd_allowed V))
       \<or> (\<exists>U. (\<exists>(Do, Now, Sub) \<in> set ((Do, Now, rc_SubOnlyService T) # asked). vouched J Do Now Sub (bearer_of Env (h_Request H)) U)
            \<and> \<not> IsTokenExpired Now (uip_webtoken U)))"
proof -
  note gate = handleRequest_gate[OF assms(5)]
  have rate: "if rc_RateLimited T
       then case fst (ec_get L rates (re_hash Env (rq_uri_path (h_Request H) @ rq_client_host (h_Request H)))) of
              None \<Rightarrow> True | Some E \<Rightarrow> ms - cce_Start E \<ge> rc_Interval T \<or> cce_Count E < rc_MaxCalls T
       else True"
    using gate(2) unfolding IsRateLimited_iff by simp
  from gate(3)[OF assms(3)] obtain B V H' S'
    where a: "Handler_IsAuthorized J Env X Do Now (rc_SubOnlyService T) (H \<lparr> h_ParsedBody := B \<rparr>) S = (V, H', S')" "vd_allowed V"
    by blast
  have "h_SessionToken (H \<lparr> h_ParsedBody := B \<rparr>) = []" using assms(4) by simp
  from a this show ?thesis
  proof (cases rule: Handler_IsAuthorized_cases)
    case internal
    then show ?thesis using gate(1) rate by (simp add: internal_key_def)
  next
    case key
    then show ?thesis using gate(1) rate a(2) by (auto simp: by_api_key_def)
  next
    case bearer
    then obtain V0 where "Auth_IsAuthorized J X Do Now (bearer_of Env (h_Request H)) (rc_SubOnlyService T) V0 S = (V, S')" by auto
    from IsAuthorized_vouched(2)[OF assms(2) auth_run_vouched[OF assms(1,2)] this a(2)]
    show ?thesis using gate(1) rate by blast
  qed
qed

definition plain_env :: rest_env where
  "plain_env = \<lparr> re_tokenizer = (\<lambda>_ _. []), re_contains = (\<lambda>_ _. False), re_gzip = id, re_hash = (\<lambda>_. 0),
     re_credentials = (\<lambda>_. Some (''Bearer'', ''t1'')), re_AllowExternalMicroServices = False, re_MyHash = ''k'' \<rparr>"

definition plain_request :: "string \<Rightarrow> (string \<times> string) list \<Rightarrow> request" where
  "plain_request m ps = \<lparr> rq_method = m, rq_uri_path = ''/'', rq_parameters = ps, rq_get = Map.empty, rq_length = -1,
     rq_content_type = [], rq_text = [], rq_client_host = ''h'' \<rparr>"

definition plain_handler :: "request \<Rightarrow> bindings \<Rightarrow> 'o handler" where
  "plain_handler R b = \<lparr> h_Request = R, h_Internal = False, h_Bindings = b,
     h_QB = \<lparr> qb_StartDate = 0, qb_EndDate = 0, qb_Offset = 0, qb_Limit = 0, qb_LogType = 0, qb_SerialNumber = [],
       qb_Filter = [], qb_Select = [], qb_Lifetime = False, qb_LastOnly = False, qb_Newest = False, qb_CountOnly = False,
       qb_AdditionalInfo = False \<rparr>,
     h_UserInfo = UserInfoAndPolicy_init UNKNOWN 0, h_ParsedBody = None, h_Requester = [], h_SessionToken = [] \<rparr>"

definition status_class :: "nat \<Rightarrow> ('o, 's) rest_class" where
  "status_class n = (let answer = \<lambda>H s. (Inr \<lparr> rs_status = n, rs_headers = Map.empty, rs_body = None \<rparr>, s)
     in \<lparr> rc_Methods = [''GET''], rc_AlwaysAuthorize = True, rc_RateLimited = False, rc_Interval = 1000, rc_MaxCalls = 10,
          rc_SubOnlyService = False, rc_DoGet = answer, rc_DoPost = answer, rc_DoPut = answer, rc_DoDelete = answer \<rparr>)"

lemma plain_query: "InitQueryBlock plain_env [] = Inr (h_QB (plain_handler R b) \<lparr> qb_Limit := 100 \<rparr>)"
  by (simp add: InitQueryBlock_def GetParameter_u64_def GetBoolParameter_def GetParameter_def plain_env_def plain_handler_def)

lemma plain_handled:
  assumes "rc_AlwaysAuthorize T" "\<not> rc_RateLimited T" "rc_Methods T = [''GET'']" "\<not> rc_SubOnlyService T"
  shows "\<exists>S'. handleRequest tree_lib plain_env map_caches (map_cache :: (u64 \<rightharpoonup> ClientCacheEntry, _, _) expire_cache) one_token 1050 0 T
      (plain_handler (plain_request ''GET'' []) []) (no_tokens, Map.empty, ()) =
    (case rc_DoGet T ((plain_handler (plain_request ''GET'' []) []) \<lparr> h_SessionToken := ''t1'', h_UserInfo := t1_user,
          h_Requester := user_email (uip_userinfo t1_user), h_QB := h_QB (plain_handler (plain_request ''GET'' []) []) \<lparr> qb_Limit := 100 \<rparr> \<rparr>)
        (S', ()) of
       (r, S, w) \<Rightarrow> (catch_poco tree_lib plain_env (plain_request ''GET'' []) r, S, Map.empty, w))"
proof -
  let ?H = "plain_handler (plain_request ''GET'' []) [] :: (string \<times> tree) list handler"
  let ?V = "\<lparr> vd_allowed = False, vd_UInfo = UserInfoAndPolicy_init UNKNOWN 0, vd_Expired = False, vd_Contacted = False \<rparr>"
  have t: "Auth_IsAuthorized tree_lib map_caches one_token 1050 ''t1'' False ?V no_tokens =
    (?V \<lparr> vd_allowed := True, vd_UInfo := t1_user, vd_Expired := False, vd_Contacted := True \<rparr>,
     no_tokens \<lparr> au_Cache := [''t1'' \<mapsto> t1_user] \<rparr>)" by (rule t1_accepted) simp_all
  have h: "?H \<lparr> h_ParsedBody := None \<rparr> = ?H" by (simp add: plain_handler_def)
  have "Handler_IsAuthorized tree_lib plain_env map_caches one_token 1050 False ?H no_tokens =
    (?V \<lparr> vd_allowed := True, vd_UInfo := t1_user, vd_Contacted := True \<rparr>,
     ?H \<lparr> h_SessionToken := ''t1'', h_UserInfo := t1_user, h_Requester := user_email (uip_userinfo t1_user) \<rparr>,
     no_tokens \<lparr> au_Cache := [''t1'' \<mapsto> t1_user] \<rparr>)"
    using t by (simp add: Handler_IsAuthorized_def plain_handler_def plain_request_def plain_env_def Let_def)
  then show ?thesis
    using assms plain_query[of "plain_request ''GET'' []" "[]"]
    by (intro exI[of _ "no_tokens \<lparr> au_Cache := [''t1'' \<mapsto> t1_user] \<rparr>"])
      (simp add: handleRequest_def Let_def parse_and_dispatch_def dispatch_method_def h[unfolded plain_handler_def] plain_handler_def
        plain_request_def split: prod.split)
qed

lemma handled_only_when_authorised_witness:
  "\<exists>U. vouched tree_lib one_token 1050 False ''t1'' U \<and> \<not> IsTokenExpired 1050 (uip_webtoken U)"
proof -
  let ?H = "plain_handler (plain_request ''GET'' []) [] :: (string \<times> tree) list handler"
  let ?T = "status_class 200 :: ((string \<times> tree) list, ((string \<rightharpoonup> UserInfoAndPolicy, string \<rightharpoonup> ApiKeyCacheEntry) auth_client) \<times> unit) rest_class"
  let ?f = "\<lambda>_. rc_DoGet (status_class 404)"
  let ?run = "\<lambda>T. handleRequest tree_lib plain_env map_caches (map_cache :: (u64 \<rightharpoonup> ClientCacheEntry, _, _) expire_cache) one_token 1050 0 T
      ?H (no_tokens, Map.empty, ())"
  have c: "rc_AlwaysAuthorize ?T" "\<not> rc_RateLimited ?T" "rc_Methods ?T = [''GET'']" "\<not> rc_SubOnlyService ?T"
    by (simp_all add: status_class_def Let_def)
  have "fst (?run ?T) = Answered \<lparr> rs_status = 200, rs_headers = Map.empty, rs_body = None \<rparr>"
    using plain_handled[OF c] by (auto simp: status_class_def Let_def catch_poco_def)
  moreover have "fst (?run (with_methods ?T ?f)) = Answered \<lparr> rs_status = 404, rs_headers = Map.empty, rs_body = None \<rparr>"
    using plain_handled[of "with_methods ?T ?f"] c by (auto simp: status_class_def with_methods_def Let_def catch_poco_def)
  ultimately have "fst (?run ?T) \<noteq> fst (?run (with_methods ?T ?f))" by simp
  then have d: "?run ?T \<noteq> ?run (with_methods ?T ?f)" by (rule contrapos_nn) (rule arg_cong)
  have s: "h_SessionToken ?H = []" by (simp add: plain_handler_def)
  have x: "\<not> internal_key plain_env ?H" "\<not> by_api_key ?H" "bearer_of plain_env (h_Request ?H) = ''t1''"
    by (simp_all add: internal_key_def by_api_key_def bearer_of_def plain_handler_def plain_request_def plain_env_def)
  have n: "rc_SubOnlyService ?T = False" using c(4) by simp
  show ?thesis
    using handled_only_when_authorised[OF no_tokens_run map_caches_sel(3) c(1) s d] x unfolding n by auto
qed

end
