(* ===== verification/Sql.thy ===== *)
theory Sql
  imports Orm
begin

text \<open>
  What the storage classes rely on of the database: a reader for the statements they send, and the contract
  that a database answers a statement as the statement reads.  The engine is not part of the sources; it stays
  an argument, and \<open>answers\<close> and \<open>obeys\<close> say what SQL promises of it.  As in standard SQL, and unlike in MySQL's
  default mode, string literals end at the first quote that is not doubled and a backslash is a character like any other; names are
  read in lower case.
\<close>

section \<open>Tokens\<close>

datatype token = TWord string | TNum nat | TLit string | TSym string

definition word_char :: "char \<Rightarrow> bool" where
  "word_char c \<longleftrightarrow> isalnum c \<or> c = CHR ''_''"

function tokens :: "string \<Rightarrow> token list option" where
  "tokens [] = Some []"
| "tokens (c # cs) =
     (if c = CHR '' '' then tokens cs
      else if c = quote
      then (case unquote cs of None \<Rightarrow> None | Some (l, rest) \<Rightarrow> map_option (Cons (TLit l)) (tokens rest))
      else if isdigit c
      then map_option (Cons (TNum (num_val 10 digit_val (c # takeWhile isdigit cs)))) (tokens (dropWhile isdigit cs))
      else if word_char c
      then map_option (Cons (TWord (map tolower (c # takeWhile word_char cs)))) (tokens (dropWhile word_char cs))
      else if (c = CHR ''<'' \<or> c = CHR ''>'') \<and> cs \<noteq> [] \<and> hd cs = CHR ''=''
      then map_option (Cons (TSym [c, CHR ''=''])) (tokens (tl cs))
      else if c \<in> set ''=<>(),*;'' then map_option (Cons (TSym [c])) (tokens cs)
      else None)"
  by pat_completeness auto
termination
  by (relation "measure length") (auto dest: unquote_length simp: le_imp_less_Suc length_dropWhile_le)

declare tokens.simps(2) [simp del]

lemma tokens_space [simp]: "tokens (CHR '' '' # cs) = tokens cs"
  by (simp add: tokens.simps(2))

lemma tokens_literal:
  assumes "rest = [] \<or> hd rest \<noteq> quote"
  shows "tokens (quote # Escape v @ quote # rest) = map_option (Cons (TLit v)) (tokens rest)"
  using unquote_Escape[OF assms, of v] by (simp add: tokens.simps(2))

lemma digit_not_special: "isdigit c \<Longrightarrow> c \<noteq> CHR '' '' \<and> c \<noteq> quote"
  by (auto simp: isdigit_def char_code_def)

lemma tokens_number:
  assumes "rest = [] \<or> \<not> isdigit (hd rest)"
  shows "tokens (dec_string n @ rest) = map_option (Cons (TNum n)) (tokens rest)"
proof -
  obtain c cs where c: "dec_string n = c # cs" by (cases "dec_string n") auto
  have d: "isdigit c" "\<forall>x \<in> set cs. isdigit x" using dec_string_digits[of _ n] c by auto
  have "takeWhile isdigit (cs @ rest) = cs" "dropWhile isdigit (cs @ rest) = rest"
    using d(2) assms by (auto simp: takeWhile_append takeWhile_eq_Nil_iff dropWhile_append dropWhile_eq_self_iff)
  then show ?thesis
    using d(1) digit_not_special[OF d(1)] c num_val_dec_string[of n] by (simp add: tokens.simps(2))
qed

lemma tokens_word:
  assumes "word_char c" "\<not> isdigit c" "\<forall>x \<in> set cs. word_char x" "rest = [] \<or> \<not> word_char (hd rest)"
  shows "tokens (c # cs @ rest) = map_option (Cons (TWord (map tolower (c # cs)))) (tokens rest)"
proof -
  have "c \<noteq> CHR '' ''" "c \<noteq> quote"
    using assms(1) by (auto simp: word_char_def isalnum_def isdigit_def isupper_def islower_def char_code_def)
  moreover have "takeWhile word_char (cs @ rest) = cs" "dropWhile word_char (cs @ rest) = rest"
    using assms(3,4) by (auto simp: takeWhile_append takeWhile_eq_Nil_iff dropWhile_append dropWhile_eq_self_iff)
  ultimately show ?thesis using assms(1,2) by (simp add: tokens.simps(2))
qed

text \<open>Constant text: its tokens are computed, provided it does not run into the text that follows.\<close>

definition ends :: "string \<Rightarrow> string \<Rightarrow> bool" where
  "ends p rest \<longleftrightarrow> p = [] \<or> last p \<in> set '' (),='' \<or> (last p \<in> set ''<>'' \<and> hd rest \<noteq> CHR ''='') \<or> rest = [] \<or> hd rest = CHR '' ''"

lemma ends_word:
  assumes "ends (c # cs) rest" "P c" "\<forall>x \<in> set '' (),=<>''. \<not> P x"
  shows "takeWhile P (cs @ rest) = takeWhile P cs \<and> dropWhile P (cs @ rest) = dropWhile P cs @ rest"
proof (cases "\<forall>x \<in> set cs. P x")
  case True
  then have "P (last (c # cs))" using assms(2) by simp
  then have "last (c # cs) \<notin> set '' (),=''" "last (c # cs) \<notin> set ''<>''" using assms(3) by auto
  then have "rest = [] \<or> hd rest = CHR '' ''" using assms(1) unfolding ends_def by blast
  then have "rest = [] \<or> \<not> P (hd rest)" using assms(3) by auto
  then have "takeWhile P rest = []" "dropWhile P rest = rest" by (cases rest; simp)+
  with True show ?thesis by (simp add: takeWhile_append2 dropWhile_append2 takeWhile_eq_all_conv[THEN iffD2] dropWhile_eq_Nil_conv[THEN iffD2])
next
  case False
  then obtain x where "x \<in> set cs" "\<not> P x" by blast
  then show ?thesis by (simp add: takeWhile_append1 dropWhile_append1)
qed

lemma last_dropWhile: "dropWhile P cs \<noteq> [] \<Longrightarrow> last (dropWhile P cs) = last cs"
  by (metis last_appendR takeWhile_dropWhile_id)

lemma ends_dropWhile:
  assumes "ends (c # cs) rest"
  shows "ends (dropWhile P cs) rest"
proof (cases "dropWhile P cs = []")
  case False
  then have "last (dropWhile P cs) = last (c # cs)" using last_dropWhile by force
  with assms show ?thesis unfolding ends_def by simp
qed (simp add: ends_def)

lemma ends_tl: "ends (c # cs) rest \<Longrightarrow> ends cs rest"
  by (auto simp: ends_def split: if_splits)

lemma not_word: "\<forall>x \<in> set '' (),=<>''. \<not> word_char x" "\<forall>x \<in> set '' (),=<>''. \<not> isdigit x"
  by (auto simp: word_char_def isalnum_def isdigit_def isupper_def islower_def char_code_def)

lemma tokens_constant:
  assumes "tokens p = Some ts" "ends p rest" "quote \<notin> set p"
  shows "tokens (p @ rest) = map_option ((@) ts) (tokens rest)"
  using assms
proof (induction p arbitrary: ts rule: tokens.induct)
  case 1
  then show ?case by (simp add: option.map_ident)
next
  case (2 c cs)
  have q: "c \<noteq> quote" "quote \<notin> set cs" using 2(9) by auto
  have dq: "quote \<notin> set (dropWhile P cs)" for P using q(2) by (metis set_dropWhileD)
  note [simp] = tokens.simps(2)
  consider (sp) "c = CHR '' ''" | (d) "c \<noteq> CHR '' ''" "isdigit c"
    | (w) "c \<noteq> CHR '' ''" "\<not> isdigit c" "word_char c"
    | (cmp) "c \<noteq> CHR '' ''" "\<not> isdigit c" "\<not> word_char c" "(c = CHR ''<'' \<or> c = CHR ''>'') \<and> cs \<noteq> [] \<and> hd cs = CHR ''=''"
    | (sym) "c \<noteq> CHR '' ''" "\<not> isdigit c" "\<not> word_char c" "\<not> ((c = CHR ''<'' \<or> c = CHR ''>'') \<and> cs \<noteq> [] \<and> hd cs = CHR ''='')"
    by blast
  then show ?case
  proof cases
    case sp
    then show ?thesis using 2(1)[of ts] 2(7,8) q ends_tl[OF 2(8)] by simp
  next
    case d
    note e = ends_word[OF 2(8) d(2) not_word(2)]
    obtain us where "tokens (dropWhile isdigit cs) = Some us" using 2(7) d q by auto
    with 2(3)[OF d(1) q(1) d(2), of us] show ?thesis
      using 2(7) d q e dq ends_dropWhile[OF 2(8)] by (cases "tokens rest") auto
  next
    case w
    note e = ends_word[OF 2(8) w(3) not_word(1)]
    obtain us where "tokens (dropWhile word_char cs) = Some us" using 2(7) w q by auto
    with 2(4)[OF w(1) q(1) w(2,3), of us] show ?thesis
      using 2(7) w q e dq ends_dropWhile[OF 2(8)] by (cases "tokens rest") auto
  next
    case cmp
    then obtain cs' where c: "cs = CHR ''='' # cs'" by (cases cs) auto
    obtain us where "tokens (tl cs) = Some us" using 2(7) cmp q by auto
    with 2(5)[OF cmp(1) q(1) cmp(2,3) cmp(4), of us] show ?thesis
      using 2(7) cmp q c ends_tl[OF ends_tl[OF 2(8)[unfolded c]]] by (cases "tokens rest") auto
  next
    case sym
    have n: "\<not> ((c = CHR ''<'' \<or> c = CHR ''>'') \<and> cs @ rest \<noteq> [] \<and> hd (cs @ rest) = CHR ''='')"
      using sym(4) 2(8) by (cases cs) (auto simp: ends_def)
    have cs: "c \<in> set ''=<>(),*;''" using 2(7) sym q by (auto split: if_splits)
    obtain us where "tokens cs = Some us" using 2(7) sym q cs by auto
    with 2(6)[OF sym(1) q(1) sym(2,3) sym(4) cs, of us] show ?thesis
      using 2(7) sym n q cs ends_tl[OF 2(8)] by (cases "tokens rest") auto
  qed
qed

text \<open>Character classes on the bits of a literal character.\<close>

lemma isdigit_bits: "isdigit (Char b0 b1 b2 b3 b4 b5 b6 b7) \<longleftrightarrow> \<not> b7 \<and> \<not> b6 \<and> b5 \<and> b4 \<and> \<not> (b3 \<and> (b2 \<or> b1))"
  by (cases b0; cases b1; cases b2; cases b3; cases b4; cases b5; cases b6; cases b7) (simp_all add: isdigit_def char_code_def)

lemma isupper_bits: "isupper (Char b0 b1 b2 b3 b4 b5 b6 b7) \<longleftrightarrow>
    \<not> b7 \<and> b6 \<and> \<not> b5 \<and> (b0 \<or> b1 \<or> b2 \<or> b3 \<or> b4) \<and> \<not> (b4 \<and> b3 \<and> (b2 \<or> (b1 \<and> b0)))"
  by (cases b0; cases b1; cases b2; cases b3; cases b4; cases b5; cases b6; cases b7) (simp_all add: isupper_def char_code_def)

lemma islower_bits: "islower (Char b0 b1 b2 b3 b4 b5 b6 b7) \<longleftrightarrow>
    \<not> b7 \<and> b6 \<and> b5 \<and> (b0 \<or> b1 \<or> b2 \<or> b3 \<or> b4) \<and> \<not> (b4 \<and> b3 \<and> (b2 \<or> (b1 \<and> b0)))"
  by (cases b0; cases b1; cases b2; cases b3; cases b4; cases b5; cases b6; cases b7) (simp_all add: islower_def char_code_def)

lemma tolower_bits: "tolower (Char b0 b1 b2 b3 b4 b5 b6 b7) =
    Char b0 b1 b2 b3 b4 (b5 \<or> isupper (Char b0 b1 b2 b3 b4 b5 b6 b7)) b6 b7"
  by (cases b0; cases b1; cases b2; cases b3; cases b4; cases b5; cases b6; cases b7)
    (simp_all add: tolower_def isupper_def char_code_def, (rule char_code_inj[THEN iffD1], simp add: char_code_def)+)

lemmas token_simps = tokens.simps(2) word_char_def isalnum_def isdigit_bits isupper_bits islower_bits tolower_bits

section \<open>Statements\<close>

datatype cell = Text string | Num nat

type_synonym condition = "string \<times> string \<times> cell"

fun read_cmp :: "token list \<Rightarrow> (condition \<times> token list) option" where
  "read_cmp (TWord f # TSym r # TLit v # ts) = (if r = ''='' then Some ((f, r, Text v), ts) else None)"
| "read_cmp (TWord f # TSym r # TNum n # ts) = Some ((f, r, Num n), ts)"
| "read_cmp (TSym p # TWord f # TSym r # TNum n # TSym q # ts) =
     (if p = ''('' \<and> q = '')'' then Some ((f, r, Num n), ts) else None)"
| "read_cmp _ = None"

lemma read_cmp_length: "read_cmp ts = Some (c, rest) \<Longrightarrow> length rest < length ts"
  by (cases ts rule: read_cmp.cases) (auto split: if_splits)

function read_conds :: "token list \<Rightarrow> (condition list \<times> token list) option" where
  "read_conds ts =
     (case read_cmp ts of
        None \<Rightarrow> None
      | Some (c, rest) \<Rightarrow>
          if rest \<noteq> [] \<and> hd rest = TWord ''and'' then map_option (apfst (Cons c)) (read_conds (tl rest))
          else Some ([c], rest))"
  by pat_completeness auto
termination
  by (relation "measure length") (auto dest: read_cmp_length)

declare read_conds.simps [simp del]

fun read_columns :: "token list \<Rightarrow> (string list \<times> token list) option" where
  "read_columns (TWord f # TSym s # ts) = (if s = '','' then map_option (apfst (Cons f)) (read_columns ts) else None)"
| "read_columns (TWord f # ts) = Some ([f], ts)"
| "read_columns _ = None"

fun comma_toks :: "string list \<Rightarrow> token list" where
  "comma_toks [] = []"
| "comma_toks [f] = [TWord f]"
| "comma_toks (f # fs) = TWord f # TSym '','' # comma_toks fs"

lemma read_columns_toks:
  "fs \<noteq> [] \<Longrightarrow> read_columns (comma_toks fs @ TWord w # ts) = Some (fs, TWord w # ts)"
  by (induction fs rule: comma_toks.induct) auto

text \<open>A sort key and whether it is descending.\<close>

fun read_direction :: "token list \<Rightarrow> bool \<times> token list" where
  "read_direction (TWord w # ts) =
     (if w = ''desc'' then (True, ts) else if w = ''asc'' then (False, ts) else (False, TWord w # ts))"
| "read_direction ts = (False, ts)"

lemma read_direction_length: "read_direction ts = (d, rest) \<Longrightarrow> length rest \<le> length ts"
  by (cases ts rule: read_direction.cases) (auto split: if_splits)

function read_order :: "token list \<Rightarrow> ((string \<times> bool) list \<times> token list) option" where
  "read_order [] = None"
| "read_order (t # ts) =
     (case t of
        TWord f \<Rightarrow>
          (case read_direction ts of
             (d, rest) \<Rightarrow>
               if rest \<noteq> [] \<and> hd rest = TSym '','' then map_option (apfst (Cons (f, d))) (read_order (tl rest))
               else Some ([(f, d)], rest))
      | _ \<Rightarrow> None)"
  by pat_completeness auto
termination
proof (relation "measure length")
  fix t ts f d rest assume "(d, rest) = read_direction ts"
  then have "length rest \<le> length ts" using read_direction_length by metis
  then show "(tl rest, t # ts) \<in> measure length" by simp
qed simp

declare read_order.simps(2) [simp del]

datatype selection =
    Columns "string list"
  | DistinctOn string "string list"
  | CountRange string

record query =
  q_columns :: selection
  q_table :: string
  q_where :: "condition list"
  q_order :: "(string \<times> bool) list"
  q_range :: "(nat \<times> nat) option"

fun read_selection :: "token list \<Rightarrow> (selection \<times> token list) option" where
  "read_selection (TWord w # ts) =
     (if w = ''distinct'' then
        (case ts of
           TWord w' # TSym p # TWord f # TSym q # rest \<Rightarrow>
             if w' = ''on'' \<and> p = ''('' \<and> q = '')'' then map_option (apfst (DistinctOn f)) (read_columns rest) else None
         | _ \<Rightarrow> None)
      else if w = ''count'' then
        (case ts of
           TSym p1 # TSym star # TSym q1 # TSym c1 # TWord co1 # TSym p2 # TWord mi # TSym p3 # TWord f # TSym q3 # TSym c2
             # TNum z1 # TSym q2 # TSym c3 # TWord co2 # TSym p4 # TWord ma # TSym p5 # TWord f' # TSym q5 # TSym c4
             # TNum z2 # TSym q4 # rest \<Rightarrow>
             if list_all (\<lambda>x. x = ''('') [p1, p2, p3, p4, p5] \<and> list_all (\<lambda>x. x = '')'') [q1, q2, q3, q4, q5]
                \<and> list_all (\<lambda>x. x = '','') [c1, c2, c3, c4] \<and> star = ''*'' \<and> co1 = ''coalesce'' \<and> co2 = ''coalesce''
                \<and> mi = ''min'' \<and> ma = ''max'' \<and> f' = f \<and> z1 = 0 \<and> z2 = 0
             then Some (CountRange f, rest) else None
         | _ \<Rightarrow> None)
      else map_option (apfst Columns) (read_columns (TWord w # ts)))"
| "read_selection _ = None"

fun read_range :: "token list \<Rightarrow> (nat \<times> nat) option option" where
  "read_range [] = Some None"
| "read_range [TWord w, TNum n, TWord w', TNum m] =
     (if w = ''limit'' \<and> w' = ''offset'' then Some (Some (m, n)) else None)"
| "read_range [TWord w, TNum m, TSym s, TNum n] = (if w = ''limit'' \<and> s = '','' then Some (Some (m, n)) else None)"
| "read_range _ = None"

definition read_where_part :: "token list \<Rightarrow> (condition list \<times> token list) option" where
  "read_where_part ts =
     (if ts \<noteq> [] \<and> hd ts = TWord ''where'' then read_conds (tl ts) else Some ([], ts))"

definition read_order_part :: "token list \<Rightarrow> ((string \<times> bool) list \<times> token list) option" where
  "read_order_part ts =
     (if take 2 ts = [TWord ''order'', TWord ''by''] then read_order (drop 2 ts) else Some ([], ts))"

datatype statement = Select query | Delete string "condition list"

definition read_select :: "token list \<Rightarrow> statement option" where
  "read_select ts =
     Option.bind (read_selection ts) (\<lambda>(cols, ts).
       if length ts < 2 \<or> hd ts \<noteq> TWord ''from'' then None
       else case ts ! 1 of
         TWord T \<Rightarrow>
           Option.bind (read_where_part (drop 2 ts)) (\<lambda>(conds, ts).
           Option.bind (read_order_part ts) (\<lambda>(order, ts).
           Option.bind (read_range ts) (\<lambda>range.
             Some (Select \<lparr> q_columns = cols, q_table = T, q_where = conds, q_order = order, q_range = range \<rparr>))))
       | _ \<Rightarrow> None)"

definition read_delete :: "token list \<Rightarrow> statement option" where
  "read_delete ts =
     (case ts of
        TWord w1 # TWord T # TWord w2 # rest \<Rightarrow>
          if w1 = ''from'' \<and> w2 = ''where'' then
            Option.bind (read_conds rest) (\<lambda>(conds, ts). if ts = [] then Some (Delete T conds) else None)
          else None
      | _ \<Rightarrow> None)"

definition read_statement :: "string \<Rightarrow> statement option" where
  "read_statement txt =
     Option.bind (tokens txt) (\<lambda>ts.
       case ts of
         TWord w # rest \<Rightarrow> if w = ''select'' then read_select rest else if w = ''delete'' then read_delete rest else None
       | _ \<Rightarrow> None)"

section \<open>What a statement means\<close>

fun compare_num :: "string \<Rightarrow> nat \<Rightarrow> nat \<Rightarrow> bool" where
  "compare_num r a b =
     (if r = ''='' then a = b else if r = ''<'' then a < b else if r = ''<='' then a \<le> b
      else if r = ''>'' then a > b else if r = ''>='' then a \<ge> b else False)"

fun holds :: "(string \<Rightarrow> 'r \<Rightarrow> cell) \<Rightarrow> 'r \<Rightarrow> condition \<Rightarrow> bool" where
  "holds col r (f, c, v) =
     (case (col f r, v) of
        (Num a, Num b) \<Rightarrow> compare_num c a b
      | (Text a, Text b) \<Rightarrow> c = ''='' \<and> a = b
      | _ \<Rightarrow> False)"

definition matches :: "(string \<Rightarrow> 'r \<Rightarrow> cell) \<Rightarrow> condition list \<Rightarrow> 'r \<Rightarrow> bool" where
  "matches col conds r \<longleftrightarrow> list_all (holds col r) conds"

text \<open>\<open>collate\<close> is the collation of the database, which the sources do not choose.\<close>

fun cell_less :: "(string \<Rightarrow> string \<Rightarrow> bool) \<Rightarrow> cell \<Rightarrow> cell \<Rightarrow> bool" where
  "cell_less collate (Num a) (Num b) \<longleftrightarrow> a < b"
| "cell_less collate (Text a) (Text b) \<longleftrightarrow> collate a b"
| "cell_less collate _ _ \<longleftrightarrow> False"

fun before :: "(string \<Rightarrow> 'r \<Rightarrow> cell) \<Rightarrow> (string \<Rightarrow> string \<Rightarrow> bool) \<Rightarrow> (string \<times> bool) list \<Rightarrow> 'r \<Rightarrow> 'r \<Rightarrow> bool" where
  "before col collate [] a b \<longleftrightarrow> True"
| "before col collate ((f, d) # keys) a b \<longleftrightarrow>
     cell_less collate (col f (if d then b else a)) (col f (if d then a else b))
     \<or> (col f a = col f b \<and> before col collate keys a b)"

fun first_of_each :: "('r \<Rightarrow> cell) \<Rightarrow> cell set \<Rightarrow> 'r list \<Rightarrow> 'r list" where
  "first_of_each key seen [] = []"
| "first_of_each key seen (r # rs) =
     (if key r \<in> seen then first_of_each key seen rs else r # first_of_each key (insert (key r) seen) rs)"

definition in_range :: "(nat \<times> nat) option \<Rightarrow> 'r list \<Rightarrow> 'r list" where
  "in_range w rs = (case w of None \<Rightarrow> rs | Some (m, n) \<Rightarrow> take n (drop m rs))"

fun num_of :: "cell \<Rightarrow> nat" where
  "num_of (Num n) = n" | "num_of (Text _) = 0"

fun text_of :: "cell \<Rightarrow> string" where
  "text_of (Text s) = s" | "text_of (Num _) = []"

definition select_rows :: "(string \<Rightarrow> 'r \<Rightarrow> cell) \<Rightarrow> query \<Rightarrow> 'r list \<Rightarrow> cell list list" where
  "select_rows col q s =
     (case q_columns q of
        Columns fs \<Rightarrow> map (\<lambda>r. map (\<lambda>f. col f r) fs) (in_range (q_range q) s)
      | DistinctOn k fs \<Rightarrow> map (\<lambda>r. map (\<lambda>f. col f r) fs) (in_range (q_range q) (first_of_each (col k) {} s))
      | CountRange f \<Rightarrow>
          (let ns = map (num_of \<circ> col f) s
           in [[Num (length s), Num (if s = [] then 0 else Min (set ns)), Num (if s = [] then 0 else Max (set ns))]]))"

text \<open>An answer of a table with the rows \<open>rows\<close>: some order of the matching rows that the sort keys allow, cut to the
  range and the columns asked for.\<close>

definition answers ::
  "(string \<Rightarrow> 'r \<Rightarrow> cell) \<Rightarrow> (string \<Rightarrow> string \<Rightarrow> bool) \<Rightarrow> 'r list \<Rightarrow> query \<Rightarrow> cell list list \<Rightarrow> bool" where
  "answers col collate rows q out \<longleftrightarrow>
     (\<exists>s. mset s = mset (filter (matches col (q_where q)) rows)
        \<and> sorted_wrt (before col collate (q_order q)) s \<and> out = select_rows col q s)"

text \<open>A database whose table \<open>T\<close> has these rows may fail, and otherwise gives such an answer.\<close>

definition obeys ::
  "cell list database \<Rightarrow> string \<Rightarrow> (string \<Rightarrow> 'r \<Rightarrow> cell) \<Rightarrow> (string \<Rightarrow> string \<Rightarrow> bool) \<Rightarrow> 'r list \<Rightarrow> bool" where
  "obeys db T col collate rows \<longleftrightarrow>
     (\<forall>txt q out. read_statement txt = Some (Select q) \<longrightarrow> q_table q = T \<longrightarrow> db txt = Inr out \<longrightarrow>
        answers col collate rows q out)"

definition deletes :: "(string \<Rightarrow> 'r list \<Rightarrow> 'r list cpp) \<Rightarrow> string \<Rightarrow> (string \<Rightarrow> 'r \<Rightarrow> cell) \<Rightarrow> bool" where
  "deletes run T col \<longleftrightarrow>
     (\<forall>txt conds rows rows'. read_statement txt = Some (Delete T conds) \<longrightarrow> run txt rows = Inr rows' \<longrightarrow>
        rows' = filter (\<lambda>r. \<not> matches col conds r) rows)"

end
