(* ===== verification/Utils.thy ===== *)
theory Utils
  imports CppStd
begin

text \<open>
  The string and identifier helpers of \<^verbatim>\<open>src/src/framework/utils.cpp\<close> and \<^verbatim>\<open>utils.h\<close>: MAC and serial
  number conversions, validation predicates, splitting, the glob matcher, time comparison and the
  password generator.  What the code takes from Poco (\<^verbatim>\<open>replaceInPlace\<close>, \<^verbatim>\<open>toLowerInPlace\<close>,
  \<^verbatim>\<open>StringTokenizer\<close>, the list of network interfaces) and from \<^verbatim>\<open>random\<close> (the generator's stream and
  \<^verbatim>\<open>std::shuffle\<close>) are arguments.  A \<^verbatim>\<open>char\<close> above 127 is in none of the character classes.
\<close>

type_synonym byte = "8 word"

section \<open>Identifiers\<close>

text \<open>The new value of the in-out argument is the second component.\<close>

definition NormalizeMac ::
  "(string \<Rightarrow> string \<Rightarrow> string \<Rightarrow> string) \<Rightarrow> (string \<Rightarrow> string) \<Rightarrow> string \<Rightarrow> bool \<times> string" where
  "NormalizeMac replaceInPlace toLowerInPlace Mac =
     (let Mac = replaceInPlace Mac '':'' [];
          Mac = replaceInPlace Mac ''-'' []
      in if length Mac \<noteq> 12 then (False, Mac)
         else if \<not> list_all isxdigit Mac then (False, Mac)
         else (True, toLowerInPlace Mac))"

definition SERIAL_NUMBER_LENGTH :: nat where
  "SERIAL_NUMBER_LENGTH = 30"

definition ValidSerialNumber :: "string \<Rightarrow> bool" where
  "ValidSerialNumber Serial \<longleftrightarrow> length Serial < SERIAL_NUMBER_LENGTH \<and> list_all isxdigit Serial"

definition ValidSerialNumbers :: "string list \<Rightarrow> bool" where
  "ValidSerialNumbers numbers \<longleftrightarrow> list_all ValidSerialNumber numbers"

definition ValidUUID :: "string \<Rightarrow> bool" where
  "ValidUUID UUID \<longleftrightarrow>
     (if length UUID > 36 then False
      else list_all (\<lambda>i. i = CHR ''-'' \<or> isxdigit i) UUID
           \<and> length (filter (\<lambda>i. i = CHR ''-'') UUID) > 0)"

text \<open>The position \<^verbatim>\<open>P\<close> of the source is the suffix still to be read.\<close>

function Split :: "string \<Rightarrow> char \<Rightarrow> string list" where
  "Split L Delimiter =
     (if L = [] then []
      else case dropWhile (\<lambda>c. c \<noteq> Delimiter) L of
          [] \<Rightarrow> [L]
        | _ # rest \<Rightarrow> takeWhile (\<lambda>c. c \<noteq> Delimiter) L # Split rest Delimiter)"
  by pat_completeness auto
termination
proof (relation "measure (\<lambda>(L, d). length L)", goal_cases)
  case (2 L d x21 rest)
  then show ?case using length_dropWhile_le[of "\<lambda>c. c \<noteq> d" L] by simp
qed simp

declare Split.simps [simp del]

text \<open>\<^verbatim>\<open>find_first_of\<close> gives \<^verbatim>\<open>npos\<close> when there is no bracket: \<^verbatim>\<open>npos - 8\<close> still reaches the end of
  the string and \<^verbatim>\<open>npos + 1\<close> wraps to 0.\<close>

definition FormatIPv6 :: "string \<Rightarrow> string" where
  "FormatIPv6 I =
     (if take 8 I = ''[::ffff:'' then
        (case dropWhile (\<lambda>c. c \<noteq> CHR '']'') I of
           [] \<Rightarrow> drop 8 I @ I
         | _ # port \<Rightarrow> drop 8 (takeWhile (\<lambda>c. c \<noteq> CHR '']'') I) @ port)
      else I)"

definition padTo :: "string \<Rightarrow> nat \<Rightarrow> char \<Rightarrow> string" where
  "padTo str num paddingChar = str @ replicate (num - length str mod num) paddingChar"

definition c_string :: "string \<Rightarrow> string" where
  "c_string buf = takeWhile (\<lambda>c. char_code c \<noteq> 0) buf"

definition SerialToMAC :: "string \<Rightarrow> string" where
  "SerialToMAC Serial =
     (let R = (if length Serial < 12 then padTo Serial 12 (CHR ''0'')
               else if length Serial > 12 then take 12 Serial else Serial)
      in c_string [R ! 0, R ! 1, CHR '':'', R ! 2, R ! 3, CHR '':'', R ! 4, R ! 5, CHR '':'',
                   R ! 6, R ! 7, CHR '':'', R ! 8, R ! 9, CHR '':'', R ! 10, R ! 11])"

text \<open>\<^verbatim>\<open>Result <<= 4; Result += digit\<close> on 64 bits, as \<^verbatim>\<open>MACToInt\<close> and \<^verbatim>\<open>SerialNumberToOUI\<close> do it.\<close>

definition nibble_in :: "char \<Rightarrow> u64 \<Rightarrow> u64" where
  "nibble_in c Result =
     (let Result = push_bit 4 Result
      in if 48 \<le> char_code c \<and> char_code c \<le> 57 then Result + of_nat (char_code c - 48)
         else if 97 \<le> char_code c \<and> char_code c \<le> 102 then Result + of_nat (char_code c - 97 + 10)
         else if 65 \<le> char_code c \<and> char_code c \<le> 70 then Result + of_nat (char_code c - 65 + 10)
         else Result)"

definition MACToInt :: "string \<Rightarrow> u64" where
  "MACToInt MAC = fold (\<lambda>c Result. if c = CHR '':'' then Result else nibble_in c Result) MAC 0"

definition SerialNumberToInt :: "string \<Rightarrow> u64 cpp" where
  "SerialNumberToInt S = stoull16 S"

text \<open>Iteration \<open>i\<close> writes position \<open>11 - i\<close>: the digits are consed from the last to the first.\<close>

fun int_to_serial_loop :: "nat \<Rightarrow> u64 \<Rightarrow> string \<Rightarrow> string" where
  "int_to_serial_loop 0 S b = b"
| "int_to_serial_loop (Suc n) S b =
     (let B = unat (and S 0x0f);
          ch = (if B < 10 then char_of (B + 48) else char_of (B - 10 + 97))
      in int_to_serial_loop n (drop_bit 4 S) (ch # b))"

definition IntToSerialNumber :: "u64 \<Rightarrow> string" where
  "IntToSerialNumber S = int_to_serial_loop 12 S []"

definition SerialNumberMatch :: "string \<Rightarrow> string \<Rightarrow> int \<Rightarrow> bool cpp" where
  "SerialNumberMatch S1 S2 Bits =
     bind (SerialNumberToInt S1) (\<lambda>S1_i. bind (SerialNumberToInt S2) (\<lambda>S2_i.
       if Bits < 0 \<or> 64 \<le> Bits then Inl Undefined
       else Inr (drop_bit (nat Bits) S1_i = drop_bit (nat Bits) S2_i)))"

fun oui_loop :: "nat \<Rightarrow> u64 \<Rightarrow> string \<Rightarrow> u64" where
  "oui_loop Digits Result [] = Result"
| "oui_loop Digits Result (i # S) =
     (if isxdigit i
      then if Digits + 1 = 6 then nibble_in i Result
           else oui_loop (Digits + 1) (nibble_in i Result) S
      else oui_loop Digits Result S)"

definition SerialNumberToOUI :: "string \<Rightarrow> u64" where
  "SerialNumberToOUI S = oui_loop 0 0 S"

record net_iface =
  isRunning :: bool
  isLoopback :: bool
  macAddress :: "byte list"

fun GetDefaultMacAsInt64 :: "u64 \<Rightarrow> net_iface list \<Rightarrow> u64" where
  "GetDefaultMacAsInt64 Result [] = Result"
| "GetDefaultMacAsInt64 Result (iface # IFaceList) =
     (if isRunning iface \<and> \<not> isLoopback iface then
        (let Result = fold (\<lambda>i R. push_bit 8 R + ucast i) (macAddress iface) Result
         in if Result \<noteq> 0 then Result else GetDefaultMacAsInt64 Result IFaceList)
      else GetDefaultMacAsInt64 Result IFaceList)"

definition IsAlphaNumeric :: "string \<Rightarrow> bool" where
  "IsAlphaNumeric s \<longleftrightarrow> list_all isalnum s"

definition SanitizeToken :: "string \<Rightarrow> string" where
  "SanitizeToken Token =
     (if length Token > 8 then take 4 Token @ ''****'' @ take 4 (drop (length Token - 4) Token)
      else ''*******'')"

definition ReplaceVariables ::
  "(string \<Rightarrow> string \<Rightarrow> string \<Rightarrow> string) \<Rightarrow> string \<Rightarrow> (string \<times> string) list \<Rightarrow> string" where
  "ReplaceVariables replaceInPlace Content P =
     fold (\<lambda>(Variable, Value) C. replaceInPlace C (''${'' @ Variable @ ''}'') Value) P Content"

datatype MediaTypeEncodings = PLAIN | BINARY | BASE64

record MediaTypeEncoding =
  Encoding :: MediaTypeEncodings
  ContentType :: string

text \<open>On the extension \<^verbatim>\<open>E\<close> of the file's path.\<close>

definition FindMediaType :: "string \<Rightarrow> MediaTypeEncoding" where
  "FindMediaType E =
     (if E = ''png'' then \<lparr> Encoding = BINARY, ContentType = ''image/png'' \<rparr>
      else if E = ''gif'' then \<lparr> Encoding = BINARY, ContentType = ''image/gif'' \<rparr>
      else if E = ''jpeg'' \<or> E = ''jpg'' then \<lparr> Encoding = BINARY, ContentType = ''image/jpeg'' \<rparr>
      else if E = ''svg'' \<or> E = ''svgz'' then \<lparr> Encoding = PLAIN, ContentType = ''image/svg+xml'' \<rparr>
      else if E = ''html'' then \<lparr> Encoding = PLAIN, ContentType = ''text/html'' \<rparr>
      else if E = ''css'' then \<lparr> Encoding = PLAIN, ContentType = ''text/css'' \<rparr>
      else if E = ''js'' then \<lparr> Encoding = PLAIN, ContentType = ''application/javascript'' \<rparr>
      else if E = ''pcap'' then \<lparr> Encoding = BINARY, ContentType = ''application/vnd.tcpdump.pcap'' \<rparr>
      else if E = ''txt'' then \<lparr> Encoding = PLAIN, ContentType = ''text/plain'' \<rparr>
      else if E = ''tgz'' then \<lparr> Encoding = BINARY, ContentType = ''application/tar+gzip'' \<rparr>
      else if E = ''gz'' \<or> E = ''gzip'' then \<lparr> Encoding = BINARY, ContentType = ''application/gzip'' \<rparr>
      else \<lparr> Encoding = BINARY, ContentType = ''application/octet-stream'' \<rparr>)"

section \<open>Times\<close>

definition std_atoi :: "string \<Rightarrow> int" where
  "std_atoi s = (sint (of_int (strtol10 s) :: 32 word))"

text \<open>\<^verbatim>\<open>tok\<close> is \<^verbatim>\<open>Poco::StringTokenizer\<close> with \<^verbatim>\<open>TOK_TRIM\<close>.\<close>

definition ParseTime :: "(string \<Rightarrow> string \<Rightarrow> string list) \<Rightarrow> string \<Rightarrow> bool \<times> int \<times> int \<times> int" where
  "ParseTime tok Time =
     (case tok Time '':'' of
        [h] \<Rightarrow> (True, std_atoi h, 0, 0)
      | [h, m] \<Rightarrow> (True, std_atoi h, std_atoi m, 0)
      | [h, m, s] \<Rightarrow> (True, std_atoi h, std_atoi m, std_atoi s)
      | _ \<Rightarrow> (False, 0, 0, 0))"

definition ParseDate :: "(string \<Rightarrow> string \<Rightarrow> string list) \<Rightarrow> string \<Rightarrow> bool \<times> int \<times> int \<times> int" where
  "ParseDate tok Time =
     (case tok Time ''-'' of
        [y, m, d] \<Rightarrow> (True, std_atoi y, std_atoi m, std_atoi d)
      | _ \<Rightarrow> (False, 0, 0, 0))"

definition CompareTime :: "int \<Rightarrow> int \<Rightarrow> int \<Rightarrow> int \<Rightarrow> int \<Rightarrow> int \<Rightarrow> bool" where
  "CompareTime H1 H2 M1 M2 S1 S2 =
     (if H1 < H2 then True
      else if H1 > H2 then False
      else if M1 < M2 then True
      else if M2 > M1 then False
      else if S1 \<le> S2 then True
      else False)"

text \<open>\<^verbatim>\<open>int Days\<close> keeps the low 32 bits; the products are computed on \<^verbatim>\<open>int\<close>, where overflow is
  undefined.\<close>

definition int32_mul :: "int \<Rightarrow> int \<Rightarrow> int cpp" where
  "int32_mul a b = (if - (2 ^ 31) \<le> a * b \<and> a * b < 2 ^ 31 then Inr (a * b) else Inl Undefined)"

definition to_int32 :: "u64 \<Rightarrow> int" where
  "to_int32 x = sint (ucast x :: 32 word)"

definition int_to_string :: "int \<Rightarrow> string" where
  "int_to_string i = (if i < 0 then CHR ''-'' # dec_string (nat (- i)) else dec_string (nat i))"

definition SecondsToNiceText :: "u64 \<Rightarrow> string cpp" where
  "SecondsToNiceText Seconds =
     (let Days = to_int32 (Seconds div 86400) in
      bind (int32_mul Days 86400) (\<lambda>d.
      let Seconds = Seconds - of_int d; Hours = to_int32 (Seconds div 3600) in
      bind (int32_mul Hours 3600) (\<lambda>h.
      let Seconds = Seconds - of_int h; Minutes = to_int32 (Seconds div 60) in
      bind (int32_mul Minutes 60) (\<lambda>m.
      let Seconds = Seconds - of_int m in
      Inr (int_to_string Days @ '' days, '' @ int_to_string Hours @ '':'' @ int_to_string Minutes
           @ '':'' @ dec_string (unat Seconds))))))"

section \<open>Glob matching\<close>

text \<open>
  The arguments are NUL-terminated: the list is what precedes the terminator, and \<open>None\<close> is the read
  of \<^verbatim>\<open>second + 1\<close> past it, which happens when a \<^verbatim>\<open>?\<close> meets the end of the text.
\<close>

fun skip_stars :: "string \<Rightarrow> string" where
  "skip_stars (a # b # first) =
     (if a = CHR ''*'' \<and> b = CHR ''*'' then skip_stars (b # first) else a # b # first)"
| "skip_stars first = first"

lemma length_skip_stars: "length (skip_stars s) \<le> length s"
  by (induction s rule: skip_stars.induct) auto

lemma skip_stars_nonempty [simp]: "skip_stars s = [] \<longleftrightarrow> s = []"
  by (induction s rule: skip_stars.induct) auto

function match_glob :: "string \<Rightarrow> string \<Rightarrow> bool option" where
  "match_glob first second =
     (if first = [] \<and> second = [] then Some True
      else case skip_stars first of
          [] \<Rightarrow> Some False
        | f # rest \<Rightarrow>
            if f = CHR ''*'' \<and> rest \<noteq> [] \<and> second = [] then Some False
            else if f = CHR ''?'' \<or> (second \<noteq> [] \<and> f = hd second) then
              (if second = [] then None else match_glob rest (tl second))
            else if f = CHR ''*'' then
              (case match_glob rest second of
                 None \<Rightarrow> None
               | Some True \<Rightarrow> Some True
               | Some False \<Rightarrow> if second = [] then None else match_glob (f # rest) (tl second))
            else Some False)"
  by pat_completeness auto
termination
proof (relation "measure (\<lambda>(a, b). length a + length b)", goal_cases)
  case (2 first second f rest)
  then show ?case using length_skip_stars[of first] by (cases second) auto
next
  case (3 first second f rest)
  then show ?case using length_skip_stars[of first] by auto
next
  case (4 first second f rest)
  then show ?case using length_skip_stars[of first] by (cases second) auto
qed simp

declare match_glob.simps [simp del]

section \<open>Serial numbers and MAC addresses\<close>

lemma int_to_serial_loop_digits:
  "int_to_serial_loop n S b = fixed_digits 16 xdigit_char n (unat S) @ b"
proof (induction n arbitrary: S b)
  case (Suc n)
  have "and S 0x0f = take_bit 4 S" by (simp add: take_bit_eq_mask mask_eq_exp_minus_1)
  then have B: "unat (and S 0x0f) = unat S mod 16"
    by (simp add: unsigned_take_bit_eq take_bit_eq_mod[where ?'a = nat])
  have D: "unat (drop_bit 4 S) = unat S div 16"
    by (simp add: unat_drop_bit_eq drop_bit_eq_div[where ?'a = nat])
  show ?case
    using Suc.IH[of "drop_bit 4 S"]
    by (auto simp: Let_def B D xdigit_char_def add.commute)
qed simp

lemma IntToSerialNumber_digits: "IntToSerialNumber S = fixed_digits 16 xdigit_char 12 (unat S)"
  by (simp add: IntToSerialNumber_def int_to_serial_loop_digits)

lemma length_IntToSerialNumber [simp]: "length (IntToSerialNumber S) = 12"
  by (simp add: IntToSerialNumber_digits)

lemma IntToSerialNumber_xdigits: "\<forall>c \<in> set (IntToSerialNumber S). isxdigit c"
  by (auto simp: IntToSerialNumber_digits dest!: fixed_digits_set[rotated])

lemma num_val_IntToSerialNumber:
  "num_val 16 xdigit_val (IntToSerialNumber S) = unat S mod 2 ^ 48"
  using num_val_fixed_digits[of 16 xdigit_val xdigit_char 12 "unat S"]
  by (simp add: IntToSerialNumber_digits)

lemma SerialNumberToInt_IntToSerialNumber:
  "SerialNumberToInt (IntToSerialNumber S) = Inr (take_bit 48 S)"
proof -
  have "unat S mod 2 ^ 48 = unat (take_bit 48 S)"
    by (simp only: unsigned_take_bit_eq take_bit_eq_mod[where ?'a = nat])
  then have "of_nat (unat S mod 2 ^ 48) = (take_bit 48 S :: u64)"
    by simp
  then show ?thesis
    unfolding SerialNumberToInt_def
    by (subst stoull16_xdigits)
      (auto simp: IntToSerialNumber_xdigits num_val_IntToSerialNumber length_0_conv[symmetric]
        simp del: length_0_conv)
qed

lemma IntToSerialNumber_num_val:
  assumes "length s = 12" "list_all isxdigit s"
  shows "IntToSerialNumber (of_nat (num_val 16 xdigit_val s)) = map tolower s"
proof -
  let ?t = "map tolower s"
  have x: "\<forall>c \<in> set s. isxdigit c" using assms(2) by (simp add: list_all_iff)
  have val: "num_val 16 xdigit_val ?t = num_val 16 xdigit_val s"
    using x by (induction s) (auto simp: num_val_Cons)
  have "num_val 16 xdigit_val s < 16 ^ length s"
    using x by (intro num_val_bound) auto
  then have "unat (of_nat (num_val 16 xdigit_val s) :: u64) = num_val 16 xdigit_val s"
    using assms(1) by (simp add: unat_of_nat)
  then have "IntToSerialNumber (of_nat (num_val 16 xdigit_val s))
      = fixed_digits 16 xdigit_char (length ?t) (num_val 16 xdigit_val ?t)"
    using assms(1) by (simp add: IntToSerialNumber_digits val)
  also have "\<dots> = ?t"
    using x by (intro fixed_digits_num_val) (auto simp: xdigit_char_xdigit_val)
  finally show ?thesis .
qed

lemma nibble_in_xdigit:
  "isxdigit c \<Longrightarrow> nibble_in c R = push_bit 4 R + of_nat (xdigit_val c)"
  by (auto simp: nibble_in_def isxdigit_def isdigit_def xdigit_val_def Let_def)

lemma fold_nibble_in:
  assumes "\<forall>c \<in> set s. isxdigit c"
  shows "fold nibble_in s (of_nat n) = of_nat (n * 16 ^ length s + num_val 16 xdigit_val s)"
  using assms
proof (induction s arbitrary: n)
  case (Cons c s)
  have "nibble_in c (of_nat n) = of_nat (n * 16 + xdigit_val c)"
    using Cons.prems by (simp add: nibble_in_xdigit push_bit_eq_mult mult.commute)
  moreover have "fold nibble_in s (of_nat (n * 16 + xdigit_val c))
      = of_nat ((n * 16 + xdigit_val c) * 16 ^ length s + num_val 16 xdigit_val s)"
    using Cons.prems by (intro Cons.IH) simp
  ultimately show ?case
    by (simp add: num_val_Cons algebra_simps)
qed simp

lemma MACToInt_filter:
  "MACToInt MAC = fold nibble_in (filter (\<lambda>c. c \<noteq> CHR '':'') MAC) 0"
proof -
  have "fold (\<lambda>c R. if c = CHR '':'' then R else nibble_in c R) MAC r
      = fold nibble_in (filter (\<lambda>c. c \<noteq> CHR '':'') MAC) r" for r
    by (induction MAC arbitrary: r) auto
  then show ?thesis by (simp add: MACToInt_def)
qed

lemma MACToInt_num_val:
  assumes "\<forall>c \<in> set MAC. c = CHR '':'' \<or> isxdigit c"
  shows "MACToInt MAC = of_nat (num_val 16 xdigit_val (filter (\<lambda>c. c \<noteq> CHR '':'') MAC))"
  using fold_nibble_in[of "filter (\<lambda>c. c \<noteq> CHR '':'') MAC" 0] assms
  by (auto simp: MACToInt_filter)

lemma length_12_cases:
  assumes "length s = 12"
  obtains a b c d e f g h i j k l where "s = [a, b, c, d, e, f, g, h, i, j, k, l]"
  using assms by (auto simp: length_Suc_conv numeral_eq_Suc)

lemma xdigit_not_colon: "isxdigit c \<Longrightarrow> c \<noteq> CHR '':'' \<and> char_code c \<noteq> 0"
  by (auto simp: isxdigit_def isdigit_def char_code_def)

lemma SerialToMAC_xdigits:
  assumes "length s = 12" "\<forall>c \<in> set s. isxdigit c"
  shows "filter (\<lambda>c. c \<noteq> CHR '':'') (SerialToMAC s) = s"
    and "\<forall>c \<in> set (SerialToMAC s). c = CHR '':'' \<or> isxdigit c"
    and "length (SerialToMAC s) = 17"
proof -
  have z: "char_code (CHR '':'') \<noteq> 0" by (simp add: char_code_def)
  from assms(1) obtain a b c d e f g h i j k l
    where s: "s = [a, b, c, d, e, f, g, h, i, j, k, l]" by (rule length_12_cases)
  have m: "SerialToMAC s = [a, b, CHR '':'', c, d, CHR '':'', e, f, CHR '':'', g, h, CHR '':'',
      i, j, CHR '':'', k, l]"
    using assms(2) z xdigit_not_colon unfolding s SerialToMAC_def c_string_def Let_def by simp
  show "filter (\<lambda>c. c \<noteq> CHR '':'') (SerialToMAC s) = s"
    "\<forall>c \<in> set (SerialToMAC s). c = CHR '':'' \<or> isxdigit c" "length (SerialToMAC s) = 17"
    using assms(2) unfolding m by (simp_all add: s xdigit_not_colon)
qed

lemma SerialToMAC_shape:
  assumes "\<forall>c \<in> set s. isxdigit c"
  shows "SerialToMAC s = SerialToMAC (take 12 (s @ replicate (12 - length s) (CHR ''0'')))"
  by (auto simp: SerialToMAC_def padTo_def Let_def)

text \<open>
  A 64-bit serial number, printed as 12 hexadecimal digits and as a MAC address, is read back as
  its low 48 bits by both readers, and a 12-digit hexadecimal string is read and printed back as itself
  in lower case.
\<close>

theorem serial_number_roundtrip:
  "SerialNumberToInt (IntToSerialNumber n) = Inr (take_bit 48 n)
   \<and> MACToInt (SerialToMAC (IntToSerialNumber n)) = take_bit 48 n
   \<and> (length s = 12 \<and> list_all isxdigit s \<longrightarrow>
        (\<exists>m. SerialNumberToInt s = Inr m \<and> IntToSerialNumber m = map tolower s))"
proof (intro conjI impI)
  show 1: "SerialNumberToInt (IntToSerialNumber n) = Inr (take_bit 48 n)"
    by (rule SerialNumberToInt_IntToSerialNumber)
  let ?s = "IntToSerialNumber n"
  note mac = SerialToMAC_xdigits[OF length_IntToSerialNumber IntToSerialNumber_xdigits, of n]
  have "MACToInt (SerialToMAC ?s) = of_nat (num_val 16 xdigit_val ?s)"
    using MACToInt_num_val[OF mac(2)] mac(1) by simp
  moreover have "SerialNumberToInt ?s = Inr (of_nat (num_val 16 xdigit_val ?s))"
    unfolding SerialNumberToInt_def
    by (rule stoull16_xdigits) (auto simp: IntToSerialNumber_xdigits length_0_conv[symmetric]
        simp del: length_0_conv)
  ultimately show "MACToInt (SerialToMAC ?s) = take_bit 48 n" using 1 by simp
next
  assume s: "length s = 12 \<and> list_all isxdigit s"
  then have "SerialNumberToInt s = Inr (of_nat (num_val 16 xdigit_val s))"
    unfolding SerialNumberToInt_def by (intro stoull16_xdigits) (auto simp: list_all_iff)
  with s IntToSerialNumber_num_val show
    "\<exists>m. SerialNumberToInt s = Inr m \<and> IntToSerialNumber m = map tolower s" by blast
qed

lemma serial_number_roundtrip_witness:
  "IntToSerialNumber 0xAABBCCDDEEFF = ''aabbccddeeff''
   \<and> SerialNumberToInt ''aabbccddeeff'' = Inr 0xAABBCCDDEEFF
   \<and> (\<exists>m. SerialNumberToInt ''AABBCCDDEEFF'' = Inr m \<and> IntToSerialNumber m = ''aabbccddeeff'')"
proof -
  have e: "IntToSerialNumber 0xAABBCCDDEEFF = ''aabbccddeeff''" by code_simp
  have t: "map tolower ''AABBCCDDEEFF'' = ''aabbccddeeff''" by code_simp
  have x: "list_all isxdigit ''AABBCCDDEEFF''" by code_simp
  have b: "take_bit 48 (0xAABBCCDDEEFF :: u64) = 0xAABBCCDDEEFF" by simp
  show ?thesis
    using serial_number_roundtrip[of "0xAABBCCDDEEFF" "''AABBCCDDEEFF''"] x
    unfolding e t b by simp
qed

section \<open>The glob matcher against its specification\<close>

inductive glob :: "string \<Rightarrow> string \<Rightarrow> bool" where
  glob_end: "glob [] []"
| glob_char: "c \<noteq> CHR ''*'' \<Longrightarrow> glob p t \<Longrightarrow> glob (c # p) (c # t)"
| glob_any: "glob p t \<Longrightarrow> glob (CHR ''?'' # p) (c # t)"
| glob_skip: "glob p t \<Longrightarrow> glob (CHR ''*'' # p) t"
| glob_take: "glob (CHR ''*'' # p) t \<Longrightarrow> glob (CHR ''*'' # p) (c # t)"

inductive_simps glob_empty_pattern: "glob [] t"
inductive_simps glob_empty_text: "glob (c # p) []"
inductive_simps glob_Cons: "glob (f # p) (c # t)"

lemma glob_double_star: "glob (CHR ''*'' # CHR ''*'' # p) t \<longleftrightarrow> glob (CHR ''*'' # p) t"
proof
  show "glob (CHR ''*'' # CHR ''*'' # p) t \<Longrightarrow> glob (CHR ''*'' # p) t"
    by (induction "CHR ''*'' # CHR ''*'' # p" t rule: glob.induct) (auto intro: glob.intros)
qed (rule glob_skip)

lemma glob_skip_stars: "glob (skip_stars p) t \<longleftrightarrow> glob p t"
  by (induction p rule: skip_stars.induct) (auto simp: glob_double_star)

lemma skip_stars_no_double:
  "skip_stars p = CHR ''*'' # r # rest \<Longrightarrow> r \<noteq> CHR ''*''"
  by (induction p rule: skip_stars.induct) (auto split: if_splits)

lemma set_skip_stars: "set (skip_stars p) \<subseteq> set p"
  by (induction p rule: skip_stars.induct) auto

lemma glob_text_empty:
  "skip_stars p = CHR ''*'' # rest \<Longrightarrow> rest \<noteq> [] \<Longrightarrow> \<not> glob (CHR ''*'' # rest) []"
  using skip_stars_no_double[of p] by (cases rest) (auto simp: glob_empty_text)

lemma match_glob_Nil: "match_glob [] t = Some (t = [])"
  by (simp add: match_glob.simps)

lemma skip_stars_char: "f \<noteq> CHR ''*'' \<Longrightarrow> skip_stars (f # r) = f # r"
  by (cases r) auto

lemma match_glob_char:
  "f \<noteq> CHR ''*'' \<Longrightarrow> match_glob (f # r) (c # t)
     = (if f = CHR ''?'' \<or> f = c then match_glob r t else Some False)"
  by (simp add: match_glob.simps[of "f # r"] skip_stars_char)

lemma match_glob_char_end:
  "f \<noteq> CHR ''*'' \<Longrightarrow> match_glob (f # r) [] = (if f = CHR ''?'' then None else Some False)"
  by (simp add: match_glob.simps[of "f # r"] skip_stars_char)

lemma match_glob_sound:
  "CHR ''*'' \<notin> set t \<Longrightarrow> match_glob p t = Some b \<Longrightarrow> b \<longleftrightarrow> glob p t"
proof (induction p t arbitrary: b rule: match_glob.induct)
  case (1 p t)
  show ?case
  proof (cases "skip_stars p")
    case Nil
    then show ?thesis using "1.prems"(2)
      by (cases t) (auto simp: match_glob_Nil glob_empty_pattern)
  next
    case (Cons f rest)
    then have p: "p \<noteq> []" by auto
    note m = "1.prems"(2)[unfolded match_glob.simps[of p t]]
    have eq: "glob p t \<longleftrightarrow> glob (f # rest) t" using glob_skip_stars[of p t] Cons by simp
    consider (stop) "f = CHR ''*''" "rest \<noteq> []" "t = []"
      | (one) c t' where "t = c # t'" "f = CHR ''?'' \<or> f = c"
      | (star) "f = CHR ''*''" "t \<noteq> [] \<or> rest = []"
      | (bad) "f \<noteq> CHR ''*''" "f \<noteq> CHR ''?''" "t = [] \<or> f \<noteq> hd t"
      | (past) "f = CHR ''?''" "t = []"
      by (cases t) auto
    then show ?thesis
    proof cases
      case stop
      with m p Cons eq glob_text_empty[of p rest] show ?thesis by auto
    next
      case one
      then have "f \<noteq> CHR ''*''" using "1.prems"(1) by auto
      moreover have "match_glob rest t' = Some b" using m p Cons one calculation by auto
      moreover have "b \<longleftrightarrow> glob rest t'"
        using "1.IH"(1)[of f rest b] "1.prems"(1) Cons one p calculation by auto
      ultimately show ?thesis
        unfolding eq unfolding one(1) using one(2) by (auto simp: glob_Cons)
    next
      case star
      have nf: "\<not> (f = CHR ''?'' \<or> (t \<noteq> [] \<and> f = hd t))"
        using star "1.prems"(1) by (cases t) auto
      have ns: "\<not> (f = CHR ''*'' \<and> rest \<noteq> [] \<and> t = [])" using star by auto
      have rest: "match_glob rest t = Some b' \<Longrightarrow> b' \<longleftrightarrow> glob rest t" for b'
        using "1.IH"(2)[OF _ Cons ns nf star(1)] "1.prems"(1) p by auto
      show ?thesis
      proof (cases "match_glob rest t = Some True")
        case True
        with m p Cons nf ns star rest[of True] show ?thesis by (auto simp: eq intro: glob.intros)
      next
        case False
        then have F: "match_glob rest t = Some False" and t: "t \<noteq> []"
          and r: "match_glob (f # rest) (tl t) = Some b"
          using m p Cons nf ns star by (auto split: option.splits bool.splits if_splits)
        from t obtain c t' where tc: "t = c # t'" by (cases t) auto
        have "b \<longleftrightarrow> glob (f # rest) t'"
          using "1.IH"(3)[OF _ Cons ns nf star(1) F _ t] "1.prems"(1) p r tc by auto
        moreover have "\<not> glob rest t" using rest[OF F] by simp
        ultimately show ?thesis
          unfolding eq unfolding tc using star(1) by (auto simp: glob_Cons)
      qed
    next
      case bad
      then have "\<not> glob (f # rest) t" by (cases t) (auto simp: glob_empty_text glob_Cons)
      with m p Cons bad show ?thesis unfolding eq by auto
    next
      case past
      with m p Cons show ?thesis by auto
    qed
  qed
qed

lemma match_glob_total:
  "CHR ''?'' \<notin> set p \<Longrightarrow> \<exists>b. match_glob p t = Some b"
proof (induction p t rule: match_glob.induct)
  case (1 p t)
  show ?case
  proof (cases "skip_stars p")
    case Nil
    then show ?thesis by (simp add: match_glob_Nil)
  next
    case (Cons f rest)
    then have p: "p \<noteq> []" by auto
    have q: "f \<noteq> CHR ''?''" "CHR ''?'' \<notin> set rest"
      using set_skip_stars[of p] "1.prems" Cons by auto
    note IH1 = "1.IH"(1)[OF _ Cons] and IH2 = "1.IH"(2)[OF _ Cons] and IH3 = "1.IH"(3)[OF _ Cons]
    show ?thesis
    proof (cases "t = []")
      case True
      with p q Cons IH2 show ?thesis
        by (cases rest) (auto simp: match_glob.simps[of p "[]"] match_glob_Nil)
    next
      case False
      with p q Cons IH1 IH2 IH3 show ?thesis
        by (auto simp: match_glob.simps[of p t] split: option.split bool.split)
    qed
  qed
qed

text \<open>
  On a text without \<^verbatim>\<open>*\<close> the matcher decides the glob language: whenever it answers, the answer is
  whether the pattern matches, and for a pattern without \<^verbatim>\<open>?\<close> it always answers.  (A \<^verbatim>\<open>?\<close> meeting the end
  of the text makes it read past the terminator.)
\<close>

theorem match_glob_correct:
  assumes "CHR ''*'' \<notin> set t"
  shows "(match_glob p t = Some b \<longrightarrow> (b \<longleftrightarrow> glob p t))
       \<and> (CHR ''?'' \<notin> set p \<longrightarrow> match_glob p t = Some (glob p t))"
  using match_glob_sound[OF assms] match_glob_total by blast

lemma match_glob_correct_witness:
  "CHR ''*'' \<notin> set ''abc'' \<and> match_glob ''a*c'' ''abc'' = Some (glob ''a*c'' ''abc'')
   \<and> glob ''a?c'' ''abc''"
proof (intro conjI)
  show t: "CHR ''*'' \<notin> set ''abc''" by simp
  have q: "CHR ''?'' \<notin> set ''a*c''" by simp
  show "match_glob ''a*c'' ''abc'' = Some (glob ''a*c'' ''abc'')"
    using match_glob_correct[OF t, THEN conjunct2] q by blast
  have "match_glob ''a?c'' ''abc'' = Some True" by (simp add: match_glob_char match_glob_Nil)
  then show "glob ''a?c'' ''abc''"
    using match_glob_correct[OF t, THEN conjunct1] by blast
qed

lemma match_glob_reads_past_end: "match_glob ''ab?'' ''ab'' = None"
  by (simp add: match_glob_char match_glob_char_end)

end
