(* ===== verification/Receivers.thy ===== *)
theory Receivers
  imports Json Utils
begin

text \<open>
  The three message receivers, \<^verbatim>\<open>StateReceiver\<close>, \<^verbatim>\<open>DeviceStatusReceiver\<close> and \<^verbatim>\<open>HealthReceiver\<close>
  (\<^verbatim>\<open>src/src/\<close>): who registered for which serial numbers, and which watchers a message from the bus is
  posted to.  A watcher is identified by its address, a number; \<^verbatim>\<open>std::map\<close> iterates by it.  The parser of
  the payload text is an argument.
\<close>

type_synonym watcher_id = nat

section \<open>StateReceiver: a list of watchers per serial number\<close>

type_synonym state_registry = "(u64, watcher_id list) omap"

definition State_Register :: "u64 \<Rightarrow> watcher_id \<Rightarrow> state_registry \<Rightarrow> state_registry" where
  "State_Register SerialNumber VW N =
     (case map_of N SerialNumber of
        None \<Rightarrow> omap_set SerialNumber [VW] N
      | Some L \<Rightarrow> omap_set SerialNumber (L @ [VW]) N)"

definition State_DeRegister :: "u64 \<Rightarrow> watcher_id \<Rightarrow> state_registry \<Rightarrow> state_registry" where
  "State_DeRegister SerialNumber VW N =
     (case map_of N SerialNumber of
        None \<Rightarrow> N
      | Some L \<Rightarrow> omap_set SerialNumber (remove1 VW L) N)"

definition state_targets :: "state_registry \<Rightarrow> u64 \<Rightarrow> watcher_id list" where
  "state_targets N SerialNumber = (case map_of N SerialNumber of None \<Rightarrow> [] | Some L \<Rightarrow> L)"

text \<open>One message: the watchers it is posted to with the serial number and the state document.  Any
  exception is caught and drops the message.\<close>

definition state_message ::
  "'j nlohmann \<Rightarrow> (string \<Rightarrow> 'j cpp) \<Rightarrow> state_registry \<Rightarrow> string \<Rightarrow> (watcher_id \<times> u64 \<times> 'j) list" where
  "state_message L parse N Payload =
     (case bind (parse Payload) (\<lambda>msg.
        if j_contains L msg ''payload'' then
          bind (j_at_mut L msg ''payload'') (\<lambda>payload.
            if j_contains L payload ''state'' \<and> j_contains L payload ''serial'' then
              bind (bind (j_at_mut L payload ''serial'') (j_get_string L)) (\<lambda>serialNumber.
              bind (j_at_mut L payload ''state'') (\<lambda>state.
              bind (SerialNumberToInt serialNumber) (\<lambda>sn.
                Inr (map (\<lambda>i. (i, sn, state)) (state_targets N sn)))))
            else Inr [])
        else Inr []) of
        Inl _ \<Rightarrow> []
      | Inr posts \<Rightarrow> posts)"

section \<open>DeviceStatusReceiver and HealthReceiver: a set of serial numbers per watcher\<close>

type_synonym device_registry = "(watcher_id, u64 list) omap"

text \<open>\<^verbatim>\<open>std::set\<close> as its sorted list of elements.\<close>

definition Status_Register :: "u64 list \<Rightarrow> watcher_id \<Rightarrow> device_registry \<Rightarrow> device_registry" where
  "Status_Register SerialNumber VW N = omap_set VW (sort_unique SerialNumber) N"

definition Status_DeRegister :: "watcher_id \<Rightarrow> device_registry \<Rightarrow> device_registry" where
  "Status_DeRegister VW N = omap_erase VW N"

definition Health_Register :: "u64 list \<Rightarrow> watcher_id \<Rightarrow> device_registry \<Rightarrow> device_registry" where
  "Health_Register SerialNumber VW N = omap_set VW (sort_unique SerialNumber) N"

definition Health_DeRegister :: "watcher_id \<Rightarrow> device_registry \<Rightarrow> device_registry" where
  "Health_DeRegister VW N = omap_erase VW N"

text \<open>The loop over the registered watchers stops at the first that has the serial number.\<close>

fun first_watcher :: "u64 \<Rightarrow> device_registry \<Rightarrow> watcher_id option" where
  "first_watcher SerialNumber [] = None"
| "first_watcher SerialNumber ((venue, devices) # N) =
     (if SerialNumber \<in> set devices then Some venue else first_watcher SerialNumber N)"

definition device_message ::
  "'j nlohmann \<Rightarrow> (string \<Rightarrow> 'j cpp) \<Rightarrow> device_registry \<Rightarrow> string \<Rightarrow> string \<Rightarrow> (watcher_id \<times> u64 \<times> 'j) option" where
  "device_message L parse N Key Payload =
     (case bind (parse Payload) (\<lambda>msg.
        if j_contains L msg ''payload'' then
          bind (j_at_mut L msg ''payload'') (\<lambda>payload.
          bind (SerialNumberToInt Key) (\<lambda>SerialNumber.
            Inr (map_option (\<lambda>venue. (venue, SerialNumber, payload)) (first_watcher SerialNumber N))))
        else Inr None) of
        Inl _ \<Rightarrow> None
      | Inr post \<Rightarrow> post)"

section \<open>Registrations\<close>

lemma state_targets_Register [registry_simps]:
  "state_targets (State_Register s VW N) t = (if t = s then state_targets N s @ [VW] else state_targets N t)"
  by (auto simp: state_targets_def State_Register_def split: option.split)

lemma state_targets_DeRegister [registry_simps]:
  "state_targets (State_DeRegister s VW N) t = (if t = s then remove1 VW (state_targets N s) else state_targets N t)"
  by (auto simp: state_targets_def State_DeRegister_def split: option.split)

lemma state_targets_Register_list:
  "distinct ss \<Longrightarrow> state_targets (fold (\<lambda>s. State_Register s VW) ss N) t
     = (if t \<in> set ss then state_targets N t @ [VW] else state_targets N t)"
  by (induction ss arbitrary: N) (auto simp: registry_simps)

lemma state_targets_DeRegister_list:
  "distinct ss \<Longrightarrow> state_targets (fold (\<lambda>s. State_DeRegister s VW) ss N) t
     = (if t \<in> set ss then remove1 VW (state_targets N t) else state_targets N t)"
  by (induction ss arbitrary: N) (auto simp: registry_simps)

lemma first_watcher_Some:
  "first_watcher s N = Some VW \<Longrightarrow> \<exists>ds. (VW, ds) \<in> set N \<and> s \<in> set ds"
  by (induction s N rule: first_watcher.induct) (auto split: if_splits)

lemma first_watcher_None: "first_watcher s N = None \<longleftrightarrow> (\<forall>(VW, ds) \<in> set N. s \<notin> set ds)"
  by (induction s N rule: first_watcher.induct) auto

text \<open>The lowest of the interested watchers.\<close>

lemma first_watcher_least:
  assumes "omap_wf N" "first_watcher s N = Some VW" "map_of N VW' = Some ds" "s \<in> set ds"
  shows "VW \<le> VW'"
  using assms
proof (induction s N rule: first_watcher.induct)
  case (2 s v ds' N)
  show ?case
  proof (cases "VW' = v")
    case True
    with 2 show ?thesis by (auto simp: omap_wf_Cons split: if_splits)
  next
    case False
    with 2 have m: "map_of N VW' = Some ds" by simp
    then have "v < VW'" using 2 by (force simp: omap_wf_Cons dest: map_of_SomeD)
    with 2 m show ?thesis by (auto simp: omap_wf_Cons split: if_splits)
  qed
qed simp

text \<open>
  The contract of a registry of device sets its clients (the venue watchers) rely on, and the two
  receivers as its providers.
\<close>

locale device_watchers =
  fixes register :: "u64 list \<Rightarrow> watcher_id \<Rightarrow> 'r \<Rightarrow> 'r" and deregister :: "watcher_id \<Rightarrow> 'r \<Rightarrow> 'r"
    and devices :: "'r \<Rightarrow> watcher_id \<Rightarrow> u64 set" and target :: "u64 \<Rightarrow> 'r \<Rightarrow> watcher_id option"
    and wf :: "'r \<Rightarrow> bool"
  assumes wf_register: "wf r \<Longrightarrow> wf (register ds w r)"
    and wf_deregister: "wf r \<Longrightarrow> wf (deregister w r)"
    and devices_register: "devices (register ds w r) = (devices r)(w := set ds)"
    and devices_deregister: "devices (deregister w r) = (devices r)(w := {})"
    and target_Some: "wf r \<Longrightarrow> target s r = Some w \<Longrightarrow> s \<in> devices r w \<and> (\<forall>w'. s \<in> devices r w' \<longrightarrow> w \<le> w')"
    and target_None: "wf r \<Longrightarrow> target s r = None \<longleftrightarrow> (\<forall>w. s \<notin> devices r w)"
begin

lemma target_iff:
  "wf r \<Longrightarrow> target s r = Some w \<longleftrightarrow> s \<in> devices r w \<and> (\<forall>w'. s \<in> devices r w' \<longrightarrow> w \<le> w')"
  by (metis target_Some target_None antisym option.exhaust)

lemma target_deregister: "wf r \<Longrightarrow> target s (deregister w r) \<noteq> Some w"
  using target_Some[of "deregister w r" s w] by (auto simp: wf_deregister devices_deregister)

lemma only_target: "wf r \<Longrightarrow> target s r = Some w \<Longrightarrow> s \<in> devices r w' \<Longrightarrow> w' \<noteq> w \<Longrightarrow> w < w'"
  using target_Some by (metis le_neq_implies_less)

end

definition registered_devices :: "device_registry \<Rightarrow> watcher_id \<Rightarrow> u64 set" where
  "registered_devices N w = (case map_of N w of None \<Rightarrow> {} | Some ds \<Rightarrow> set ds)"

lemma first_watcher_laws:
  assumes "omap_wf N"
  shows "first_watcher s N = Some w \<Longrightarrow>
      s \<in> registered_devices N w \<and> (\<forall>w'. s \<in> registered_devices N w' \<longrightarrow> w \<le> w')"
    and "first_watcher s N = None \<longleftrightarrow> (\<forall>w. s \<notin> registered_devices N w)"
  using first_watcher_Some[of s N w] first_watcher_least[OF assms, of s w] omap_in_set_iff[OF assms]
  by (auto simp: registered_devices_def first_watcher_None split: option.splits) fastforce+

interpretation status: device_watchers Status_Register Status_DeRegister registered_devices first_watcher omap_wf
  by unfold_locales (use first_watcher_laws in
    \<open>auto simp: Status_Register_def Status_DeRegister_def registered_devices_def fun_eq_iff\<close>)

interpretation health: device_watchers Health_Register Health_DeRegister registered_devices first_watcher omap_wf
  by unfold_locales (use first_watcher_laws in
    \<open>auto simp: Health_Register_def Health_DeRegister_def registered_devices_def fun_eq_iff\<close>)

text \<open>
  A connection or health message for a device reaches at most one venue watcher, the one with the
  lowest address among those registered for the device, and reaches one exactly when the payload is
  present, the key is a serial number and some watcher is registered; a state message reaches every
  registration for the serial number it names.
\<close>

theorem message_delivery:
  assumes "omap_wf N" "parse Payload = Inr msg" "j_contains L msg ''payload''"
    "j_at_mut L msg ''payload'' = Inr p" "SerialNumberToInt Key = Inr sn"
    and "j_contains L p ''state''" "j_contains L p ''serial''"
    "j_at_mut L p ''serial'' = Inr ser" "j_get_string L ser = Inr Key" "j_at_mut L p ''state'' = Inr st"
  shows "(device_message L parse N Key Payload = Some (w, n, q) \<longleftrightarrow>
        n = sn \<and> q = p \<and> sn \<in> registered_devices N w \<and> (\<forall>w'. sn \<in> registered_devices N w' \<longrightarrow> w \<le> w'))
    \<and> (device_message L parse N Key Payload = None \<longleftrightarrow> (\<forall>w. sn \<notin> registered_devices N w))
    \<and> state_message L parse M Payload = map (\<lambda>i. (i, sn, st)) (state_targets M sn)"
  using status.target_iff[OF assms(1), of sn w] status.target_None[OF assms(1), of sn] assms(2-)
  by (auto simp: device_message_def state_message_def)

text \<open>A JSON library of objects, strings and nothing else, for the witnesses.\<close>

datatype small_json = JNull | JText string | JObject "(string \<times> small_json) list"

fun small_find :: "small_json \<Rightarrow> string \<Rightarrow> small_json option" where
  "small_find (JObject ms) k = map_of ms k"
| "small_find _ k = None"

definition small_lib :: "small_json nlohmann" where
  "small_lib = \<lparr> j_contains = \<lambda>j k. small_find j k \<noteq> None,
     j_at_const = \<lambda>j k. case small_find j k of None \<Rightarrow> Inl Undefined | Some v \<Rightarrow> Inr v,
     j_at_mut = \<lambda>j k. case small_find j k of None \<Rightarrow> Inr JNull | Some v \<Rightarrow> Inr v,
     j_is_null = \<lambda>j. j = JNull, j_is_string = \<lambda>j. (case j of JText _ \<Rightarrow> True | _ \<Rightarrow> False), j_is_array = \<lambda>_. False,
     j_is_number = \<lambda>_. False, j_is_number_unsigned = \<lambda>_. False, j_is_number_integer = \<lambda>_. False,
     j_elems = \<lambda>_. [], j_size = \<lambda>_. 0, j_front = \<lambda>_. Inl Type_error, j_get_u64 = \<lambda>_. Inl Type_error,
     j_get_i64 = \<lambda>_. Inl Type_error, j_get_u32 = \<lambda>_. Inl Type_error, j_get_u16 = \<lambda>_. Inl Type_error,
     j_get_bool = \<lambda>_. Inl Type_error, j_get_double = \<lambda>_. Inl Type_error,
     j_get_string = \<lambda>j. (case j of JText s \<Rightarrow> Inr s | _ \<Rightarrow> Inl Type_error), j_dump = \<lambda>_. Inl Type_error,
     j_differs = \<lambda>j s. j \<noteq> JText s, tokenizer = \<lambda>_ _. [], fmt_format = \<lambda>_ _. [] \<rparr>"

definition small_payload :: small_json where
  "small_payload = JObject [(''serial'', JText (IntToSerialNumber 10)), (''state'', JNull)]"

definition small_parse :: "string \<Rightarrow> small_json cpp" where
  "small_parse s = Inr (JObject [(''payload'', small_payload)])"

lemma message_delivery_witness:
  "device_message small_lib small_parse (Health_Register [10] 7 (Health_Register [3, 10] 4 [])) (IntToSerialNumber 10) ''x''
     = Some (4, 10, small_payload)
   \<and> state_message small_lib small_parse (State_Register 10 8 (State_Register 10 7 [])) ''x''
     = [(7, 10, JNull), (8, 10, JNull)]"
proof -
  have sn: "SerialNumberToInt (IntToSerialNumber 10) = Inr 10" by (simp add: SerialNumberToInt_IntToSerialNumber)
  have lib: "j_contains small_lib (JObject [(''payload'', small_payload)]) ''payload''"
    "j_at_mut small_lib (JObject [(''payload'', small_payload)]) ''payload'' = Inr small_payload"
    "j_contains small_lib small_payload ''state''" "j_contains small_lib small_payload ''serial''"
    "j_at_mut small_lib small_payload ''serial'' = Inr (JText (IntToSerialNumber 10))"
    "j_get_string small_lib (JText (IntToSerialNumber 10)) = Inr (IntToSerialNumber 10)"
    "j_at_mut small_lib small_payload ''state'' = Inr JNull"
    by (simp_all add: small_lib_def small_payload_def)
  let ?N = "Health_Register [10] 7 (Health_Register [3, 10] 4 [])"
  have wf: "omap_wf ?N" by (simp add: Health_Register_def omap_wf_def)
  have reg: "registered_devices ?N w = (if w = 4 then {3, 10} else if w = 7 then {10} else {})" for w
    by (auto simp: health.devices_register registered_devices_def)
  have "state_targets (State_Register 10 8 (State_Register 10 7 [])) 10 = [7, 8]"
    by (simp add: registry_simps) (simp add: state_targets_def)
  with message_delivery[OF wf small_parse_def lib(1,2) sn lib(3-7), where w = 4 and n = 10 and q = small_payload] show ?thesis
    by (auto simp: reg)
qed

end
