(* ===== verification/WifiClientCache.thy ===== *)
theory WifiClientCache
  imports Utils
begin

text \<open>
  The per-venue cache of client MAC addresses, \<^verbatim>\<open>src/src/WifiClientCache.cpp\<close> and \<^verbatim>\<open>.h\<close>.  An operation
  returns the new cache together with the outcome, because \<^verbatim>\<open>std::stoull\<close> may throw half-way and what
  was changed before stays changed.
\<close>

record Cache =
  SNs :: "u64 list"
  Reverse_SNs :: "u64 list"

definition Cache_init :: Cache where
  "Cache_init = \<lparr> SNs = [], Reverse_SNs = [] \<rparr>"

type_synonym client_cache = "(string, Cache) omap"

definition ReverseSerialNumber :: "string \<Rightarrow> string" where
  "ReverseSerialNumber S = rev S"

definition AddSerialNumber :: "client_cache \<Rightarrow> string \<Rightarrow> string \<Rightarrow> client_cache \<times> unit cpp" where
  "AddSerialNumber cache venue_id S =
     (let cache = (if map_of cache venue_id = None then omap_set venue_id Cache_init cache else cache);
          v = omap_get_or Cache_init venue_id cache
      in case stoull16 S of
           Inl e \<Rightarrow> (cache, Inl e)
         | Inr SN \<Rightarrow>
             if SN \<in> set (SNs v) then (cache, Inr ())
             else
               (let v = v \<lparr> SNs := insert_at (lower_bound (SNs v) SN) SN (SNs v) \<rparr>;
                    cache = omap_set venue_id v cache
                in case stoull16 (ReverseSerialNumber S) of
                     Inl e \<Rightarrow> (cache, Inl e)
                   | Inr RSN \<Rightarrow>
                       (let v = v \<lparr> Reverse_SNs :=
                              insert_at (lower_bound (Reverse_SNs v) RSN) RSN (Reverse_SNs v) \<rparr>
                        in (omap_set venue_id v cache, Inr ()))))"

definition DeleteSerialNumber :: "client_cache \<Rightarrow> string \<Rightarrow> string \<Rightarrow> client_cache \<times> unit cpp" where
  "DeleteSerialNumber cache venue_id S =
     (case stoull16 S of
        Inl e \<Rightarrow> (cache, Inl e)
      | Inr SN \<Rightarrow>
          (case map_of cache venue_id of
             None \<Rightarrow> (cache, Inr ())
           | Some v \<Rightarrow>
               if SN \<in> set (SNs v) then
                 (let v = v \<lparr> SNs := remove1 SN (SNs v) \<rparr>;
                      cache = omap_set venue_id v cache
                  in case stoull16 (ReverseSerialNumber S) of
                       Inl e \<Rightarrow> (cache, Inl e)
                     | Inr RSN \<Rightarrow>
                         (if RSN \<in> set (Reverse_SNs v)
                          then (omap_set venue_id (v \<lparr> Reverse_SNs := remove1 RSN (Reverse_SNs v) \<rparr>) cache,
                                Inr ())
                          else (cache, Inr ())))
               else (cache, Inr ())))"

text \<open>The timer's rebuild: \<open>None\<close> when the database query fails; an exception ends the loop.\<close>

fun add_all :: "client_cache \<Rightarrow> (string \<times> string) list \<Rightarrow> client_cache \<times> unit cpp" where
  "add_all cache [] = (cache, Inr ())"
| "add_all cache (mac # macs) =
     (case AddSerialNumber cache (snd mac) (fst mac) of
        (cache, Inl e) \<Rightarrow> (cache, Inl e)
      | (cache, Inr _) \<Rightarrow> add_all cache macs)"

definition onTimer :: "client_cache \<Rightarrow> (string \<times> string) list option \<Rightarrow> client_cache \<times> unit cpp" where
  "onTimer cache WifiClients =
     (case WifiClients of None \<Rightarrow> (cache, Inr ()) | Some macs \<Rightarrow> add_all [] macs)"

definition NumberExists :: "client_cache \<Rightarrow> string \<Rightarrow> u64 \<Rightarrow> bool" where
  "NumberExists cache venueId SerialNumber =
     (case map_of cache venueId of None \<Rightarrow> False | Some v \<Rightarrow> SerialNumber \<in> set (SNs v))"

fun reverse_loop :: "nat \<Rightarrow> u64 \<Rightarrow> u64 \<Rightarrow> u64" where
  "reverse_loop 0 Res N = Res"
| "reverse_loop (Suc k) Res N =
     reverse_loop k (push_bit 4 Res + and N 0x000000000000000f) (drop_bit 4 N)"

definition Reverse :: "u64 \<Rightarrow> u64" where
  "Reverse N = drop_bit 16 (reverse_loop 16 0 N)"

text \<open>The walk from the lower bound: stops at \<^verbatim>\<open>HowMany\<close> results or at the first mismatch.\<close>

fun prefix_walk :: "string \<Rightarrow> bool \<Rightarrow> nat \<Rightarrow> u64 list \<Rightarrow> u64 list" where
  "prefix_walk S ReverseResult HowMany [] = []"
| "prefix_walk S ReverseResult HowMany (LB # rest) =
     (if HowMany = 0 then []
      else if ReverseResult then
        (let TSN = ReverseSerialNumber (IntToSerialNumber (Reverse LB))
         in if S = take (length S) TSN
            then Reverse LB # prefix_walk S ReverseResult (HowMany - 1) rest else [])
      else
        (let TSN = IntToSerialNumber LB
         in if S = take (length S) TSN
            then LB # prefix_walk S ReverseResult (HowMany - 1) rest else []))"

definition ReturnNumbers :: "string \<Rightarrow> u32 \<Rightarrow> u64 list \<Rightarrow> bool \<Rightarrow> u64 list cpp" where
  "ReturnNumbers S HowMany SNArr ReverseResult =
     (if length S = 12 then
        bind (stoull16 S) (\<lambda>SN.
          Inr (if SN \<in> set SNArr then [if ReverseResult then Reverse SN else SN] else []))
      else if length S < 12 then
        bind (stoull16 (S @ replicate (12 - length S) (CHR ''0''))) (\<lambda>SN.
          Inr (prefix_walk S ReverseResult (unat HowMany) (drop (lower_bound SNArr SN) SNArr)))
      else Inr [])"

fun offset_walk :: "u64 \<Rightarrow> u64 \<Rightarrow> u64 \<Rightarrow> u64 list \<Rightarrow> u64 list" where
  "offset_walk Offset StartingOffset HowMany [] = []"
| "offset_walk Offset StartingOffset HowMany (x # xs) =
     (if HowMany = 0 then []
      else if Offset \<ge> StartingOffset
        then x # offset_walk (Offset + 1) StartingOffset (HowMany - 1) xs
        else offset_walk (Offset + 1) StartingOffset HowMany xs)"

definition FindNumbers :: "client_cache \<Rightarrow> string \<Rightarrow> string \<Rightarrow> u64 \<Rightarrow> u64 \<Rightarrow> u64 list cpp" where
  "FindNumbers cache venueId SerialNumber StartingOffset HowMany =
     (case map_of cache venueId of
        None \<Rightarrow> Inr []
      | Some v \<Rightarrow>
          (case SerialNumber of
             [] \<Rightarrow> Inr (offset_walk 0 StartingOffset HowMany (SNs v))
           | ch # rest \<Rightarrow>
               if ch = CHR ''*'' then
                 (if rest = [] then Inr []
                  else ReturnNumbers (rev rest) (ucast HowMany) (Reverse_SNs v) True)
               else ReturnNumbers SerialNumber (ucast HowMany) (SNs v) False))"

section \<open>Reversal\<close>

lemma reverse_loop_value:
  "reverse_loop k Res N
     = Res * 16 ^ k + of_nat (num_val 16 xdigit_val (rev (fixed_digits 16 xdigit_char k (unat N))))"
proof (induction k arbitrary: Res N)
  case (Suc k)
  have a: "and N 0xf = of_nat (unat N mod 16)"
  proof -
    have "and N 0xf = take_bit 4 N" by (simp add: take_bit_eq_mask mask_eq_exp_minus_1)
    moreover have "unat (take_bit 4 N) = unat N mod 16"
      by (simp add: unsigned_take_bit_eq take_bit_eq_mod[where ?'a = nat])
    ultimately show ?thesis by (metis of_nat_unat ucast_id)
  qed
  have d: "unat (drop_bit 4 N) = unat N div 16"
    by (simp add: unat_drop_bit_eq drop_bit_eq_div[where ?'a = nat])
  show ?case
    by (simp add: Suc.IH a d push_bit_eq_mult num_val_Cons algebra_simps)
qed simp

abbreviation digits12 :: "u64 \<Rightarrow> string" where
  "digits12 n \<equiv> fixed_digits 16 xdigit_char 12 (unat n)"

abbreviation hex_val :: "string \<Rightarrow> nat" where
  "hex_val \<equiv> num_val 16 xdigit_val"

lemma fixed_digits_add:
  "fixed_digits b ch (j + k) n = fixed_digits b ch j (n div b ^ k) @ fixed_digits b ch k n"
  by (induction k arbitrary: n) (auto simp: div_mult2_eq)

lemma fixed_digits_zero: "fixed_digits b ch k 0 = replicate k (ch 0)"
  by (induction k) (auto simp: replicate_append_same)

lemma xdigits_fixed: "\<forall>c \<in> set (fixed_digits 16 xdigit_char k n). isxdigit c"
  by (auto dest!: fixed_digits_set[rotated])

lemma unat_of_nat_hex_val:
  assumes "length s = 12" "\<forall>c \<in> set s. isxdigit c"
  shows "unat (of_nat (hex_val s) :: u64) = hex_val s" "hex_val s < 2 ^ 48"
proof -
  have "hex_val s < 16 ^ length s" using assms(2) by (intro num_val_bound) auto
  then show "hex_val s < 2 ^ 48" using assms(1) by simp
  then show "unat (of_nat (hex_val s) :: u64) = hex_val s" by (simp add: unat_of_nat)
qed

lemma zero_digits: "hex_val (replicate 4 (xdigit_char 0)) = 0"
  by (simp add: num_val_def numeral_eq_Suc)

lemma Reverse_value:
  assumes "unat n < 2 ^ 48"
  shows "Reverse n = of_nat (hex_val (rev (digits12 n)))"
proof -
  let ?r = "rev (digits12 n)"
  have "unat n div 16 ^ 12 = 0" using assms by simp
  then have fd: "fixed_digits 16 xdigit_char (4 + 12) (unat n)
      = replicate 4 (xdigit_char 0) @ digits12 n"
    by (simp only: fixed_digits_add fixed_digits_zero)
  have x: "\<forall>c \<in> set ?r. isxdigit c" using xdigits_fixed[of 12 "unat n"] unfolding set_rev .
  have r12: "length ?r = 12" by simp
  have rl: "rev (replicate 4 (xdigit_char 0) @ digits12 n) = ?r @ replicate 4 (xdigit_char 0)"
    by (simp only: rev_append rev_replicate)
  have "hex_val (?r @ replicate 4 (xdigit_char 0)) = hex_val ?r * 2 ^ 16"
    by (simp add: num_val_append zero_digits del: fixed_digits.simps)
  then have loop: "reverse_loop (4 + 12) 0 n = of_nat (hex_val ?r * 2 ^ 16)"
    unfolding reverse_loop_value fd rl by simp
  have lt: "hex_val ?r * 2 ^ 16 < 2 ^ LENGTH(64)"
    using unat_of_nat_hex_val(2)[OF r12 x] by simp
  have "unat (Reverse n) = unat (reverse_loop (4 + 12) 0 n) div 2 ^ 16"
    by (simp add: Reverse_def unat_drop_bit_eq drop_bit_eq_div[where ?'a = nat]
        del: reverse_loop.simps)
  also have "\<dots> = hex_val ?r"
    unfolding loop unat_of_nat mod_less[OF lt] by simp
  finally show ?thesis by (metis of_nat_unat ucast_id)
qed

lemma digits12_of_hex_val:
  assumes "length s = 12" "\<forall>c \<in> set s. isxdigit c \<and> tolower c = c"
  shows "digits12 (of_nat (hex_val s)) = s"
proof -
  have "fixed_digits 16 xdigit_char (length s) (hex_val s) = s"
    using assms(2) by (intro fixed_digits_num_val) (auto simp: xdigit_char_xdigit_val)
  then show ?thesis using assms unat_of_nat_hex_val(1)[of s] by simp
qed

lemma tolower_xdigit_char: "d < 16 \<Longrightarrow> tolower (xdigit_char d) = xdigit_char d"
  by (auto simp: tolower_def isupper_def xdigit_char_def char_code_char_of)

lemma digits12_lower: "\<forall>c \<in> set (digits12 n). isxdigit c \<and> tolower c = c"
  using fixed_digits_set[of 16 _ xdigit_char 12 "unat n"] by (fastforce simp: tolower_xdigit_char)

lemma digits12_Reverse:
  assumes "unat n < 2 ^ 48"
  shows "digits12 (Reverse n) = rev (digits12 n)" "unat (Reverse n) < 2 ^ 48"
proof -
  have x: "\<forall>c \<in> set (rev (digits12 n)). isxdigit c \<and> tolower c = c" using digits12_lower by simp
  show "digits12 (Reverse n) = rev (digits12 n)"
    unfolding Reverse_value[OF assms] by (rule digits12_of_hex_val) (use x in simp_all)
  show "unat (Reverse n) < 2 ^ 48"
    unfolding Reverse_value[OF assms] using unat_of_nat_hex_val[of "rev (digits12 n)"] x by simp
qed

lemma hex_val_digits12: "unat n < 2 ^ 48 \<Longrightarrow> hex_val (digits12 n) = unat n"
  using num_val_fixed_digits[of 16 xdigit_val xdigit_char 12 "unat n"] by simp

lemma digits12_inj: "unat a < 2 ^ 48 \<Longrightarrow> unat b < 2 ^ 48 \<Longrightarrow> digits12 a = digits12 b \<longleftrightarrow> a = b"
  by (metis hex_val_digits12 word_unat_eq_iff)

lemma Reverse_Reverse: "unat n < 2 ^ 48 \<Longrightarrow> Reverse (Reverse n) = n"
  using digits12_Reverse digits12_inj by (metis rev_rev_ident)

section \<open>Invariants\<close>

definition venue_sorted :: "Cache \<Rightarrow> bool" where
  "venue_sorted v \<longleftrightarrow> sorted (SNs v) \<and> distinct (SNs v) \<and> sorted (Reverse_SNs v)"

definition cache_sorted :: "client_cache \<Rightarrow> bool" where
  "cache_sorted c \<longleftrightarrow> omap_wf c \<and> (\<forall>k v. map_of c k = Some v \<longrightarrow> venue_sorted v)"

lemma cache_sorted_set: "cache_sorted c \<Longrightarrow> venue_sorted v \<Longrightarrow> cache_sorted (omap_set k v c)"
  by (auto simp: cache_sorted_def)

lemma venue_sorted_init: "venue_sorted Cache_init"
  by (simp add: venue_sorted_def Cache_init_def)

lemma sorted_insert_at: "sorted xs \<Longrightarrow> sorted (insert_at (lower_bound xs x) x xs)"
  by (simp add: insert_at_lower_bound sorted_insort)

lemma venue_sorted_add:
  "venue_sorted v \<Longrightarrow> n \<notin> set (SNs v) \<Longrightarrow> venue_sorted (v \<lparr> SNs := insert_at (lower_bound (SNs v) n) n (SNs v) \<rparr>)"
  by (simp add: venue_sorted_def insert_at_lower_bound sorted_insort distinct_insort)

lemma venue_sorted_add_rev:
  "venue_sorted v \<Longrightarrow> venue_sorted (v \<lparr> Reverse_SNs := insert_at (lower_bound (Reverse_SNs v) n) n (Reverse_SNs v) \<rparr>)"
  by (simp add: venue_sorted_def sorted_insert_at)

lemma venue_sorted_remove:
  "venue_sorted v \<Longrightarrow> venue_sorted (v \<lparr> SNs := remove1 n (SNs v) \<rparr>)"
  "venue_sorted v \<Longrightarrow> venue_sorted (v \<lparr> Reverse_SNs := remove1 m (Reverse_SNs v) \<rparr>)"
  by (simp_all add: venue_sorted_def sorted_remove1)

lemma cache_sorted_Nil: "cache_sorted []"
  by (simp add: cache_sorted_def)

lemma cache_sorted_get:
  "cache_sorted c \<Longrightarrow> venue_sorted (omap_get_or Cache_init k c)"
  by (cases "map_of c k") (auto simp: cache_sorted_def venue_sorted_init)

lemma cache_sorted_AddSerialNumber:
  assumes "cache_sorted c" shows "cache_sorted (fst (AddSerialNumber c venue S))"
proof -
  define c1 where "c1 = (if map_of c venue = None then omap_set venue Cache_init c else c)"
  have c1: "cache_sorted c1"
    using assms by (simp add: c1_def cache_sorted_set venue_sorted_init)
  note v = cache_sorted_get[OF c1, of venue]
  show ?thesis
    unfolding AddSerialNumber_def c1_def[symmetric] Let_def
    using c1 v
    by (auto split: sum.splits
        intro!: cache_sorted_set venue_sorted_add
          venue_sorted_add_rev[OF venue_sorted_add, simplified])
qed

lemma cache_sorted_DeleteSerialNumber:
  assumes "cache_sorted c" shows "cache_sorted (fst (DeleteSerialNumber c venue S))"
proof -
  have "venue_sorted v" if "map_of c venue = Some v" for v
    using assms that by (simp add: cache_sorted_def)
  then show ?thesis
    using assms unfolding DeleteSerialNumber_def Let_def
    by (auto split: sum.splits option.splits
        intro!: cache_sorted_set venue_sorted_remove
          venue_sorted_remove(2)[OF venue_sorted_remove(1), simplified])
qed

lemma cache_sorted_add_all: "cache_sorted c \<Longrightarrow> cache_sorted (fst (add_all c macs))"
proof (induction macs arbitrary: c)
  case (Cons m macs)
  then show ?case
    using cache_sorted_AddSerialNumber[OF Cons.prems, of "snd m" "fst m"]
    by (auto split: prod.split sum.split)
qed simp

text \<open>The caches the operations produce, whatever strings they are given and whether or not they throw.\<close>

inductive cache_reachable :: "client_cache \<Rightarrow> bool" where
  reach_empty: "cache_reachable []"
| reach_add: "cache_reachable c \<Longrightarrow> cache_reachable (fst (AddSerialNumber c venue S))"
| reach_delete: "cache_reachable c \<Longrightarrow> cache_reachable (fst (DeleteSerialNumber c venue S))"
| reach_timer: "cache_reachable c \<Longrightarrow> cache_reachable (fst (onTimer c WifiClients))"

text \<open>
  In every cache the operations can produce, with any strings and through exceptions, each venue
  occurs once, its serial numbers are sorted without repetition, and its reversed numbers are sorted:
  what the binary searches rely on.
\<close>

theorem cache_reachable_sorted:
  assumes "cache_reachable c"
  shows "cache_sorted c"
  using assms
proof induction
  case (reach_timer c WifiClients)
  then show ?case
    by (cases WifiClients) (auto simp: onTimer_def intro: cache_sorted_add_all cache_sorted_Nil)
qed (simp_all add: cache_sorted_Nil cache_sorted_AddSerialNumber cache_sorted_DeleteSerialNumber)

lemma cache_reachable_sorted_witness:
  "cache_reachable (fst (AddSerialNumber (fst (AddSerialNumber [] ''v'' ''12zz'')) ''v'' ''02''))
   \<and> cache_sorted (fst (AddSerialNumber (fst (AddSerialNumber [] ''v'' ''12zz'')) ''v'' ''02''))"
proof
  show r: "cache_reachable (fst (AddSerialNumber (fst (AddSerialNumber [] ''v'' ''12zz'')) ''v'' ''02''))"
    by (intro cache_reachable.intros)
  show "cache_sorted (fst (AddSerialNumber (fst (AddSerialNumber [] ''v'' ''12zz'')) ''v'' ''02''))"
    by (rule cache_reachable_sorted[OF r])
qed

section \<open>The cache as an index of client addresses\<close>

definition serial_ok :: "string \<Rightarrow> bool" where
  "serial_ok S \<longleftrightarrow> length S = 12 \<and> list_all isxdigit S"

definition serial_key :: "string \<Rightarrow> u64" where
  "serial_key S = of_nat (hex_val S)"

definition venue_ok :: "Cache \<Rightarrow> bool" where
  "venue_ok v \<longleftrightarrow> sorted (SNs v) \<and> distinct (SNs v) \<and> (\<forall>n \<in> set (SNs v). unat n < 2 ^ 48)
     \<and> Reverse_SNs v = sort (map Reverse (SNs v))"

definition cache_ok :: "client_cache \<Rightarrow> bool" where
  "cache_ok c \<longleftrightarrow> omap_wf c \<and> (\<forall>k v. map_of c k = Some v \<longrightarrow> venue_ok v)"

lemma serial_ok_key:
  assumes "serial_ok S"
  shows "stoull16 S = Inr (serial_key S)"
    and "stoull16 (ReverseSerialNumber S) = Inr (Reverse (serial_key S))"
    and "unat (serial_key S) < 2 ^ 48"
    and "IntToSerialNumber (serial_key S) = map tolower S"
proof -
  have x: "length S = 12" "\<forall>c \<in> set S. isxdigit c"
    using assms by (auto simp: serial_ok_def list_all_iff)
  show "stoull16 S = Inr (serial_key S)"
    using x unfolding serial_key_def by (intro stoull16_xdigits) auto
  show lt: "unat (serial_key S) < 2 ^ 48"
    using unat_of_nat_hex_val[OF x] by (simp add: serial_key_def)
  show i: "IntToSerialNumber (serial_key S) = map tolower S"
    using assms unfolding serial_key_def serial_ok_def by (intro IntToSerialNumber_num_val) auto
  have "hex_val (rev (map tolower S)) = hex_val (rev S)"
  proof -
    have "\<forall>c \<in> set t. isxdigit c \<Longrightarrow> hex_val (map tolower t) = hex_val t" for t
      by (induction t) (auto simp: num_val_Cons)
    from this[of "rev S"] x(2) show ?thesis by (simp add: rev_map)
  qed
  then have "Reverse (serial_key S) = of_nat (hex_val (rev S))"
    using Reverse_value[OF lt] i by (simp add: IntToSerialNumber_digits)
  then show "stoull16 (ReverseSerialNumber S) = Inr (Reverse (serial_key S))"
    unfolding ReverseSerialNumber_def using x by (subst stoull16_xdigits) auto
qed

lemma insort_sort: "insort x (sort xs) = sort (x # xs)"
  by simp

lemma venue_ok_add:
  assumes "venue_ok v" "n \<notin> set (SNs v)" "unat n < 2 ^ 48"
  shows "venue_ok (v \<lparr> SNs := insert_at (lower_bound (SNs v) n) n (SNs v),
    Reverse_SNs := insert_at (lower_bound (Reverse_SNs v) (Reverse n)) (Reverse n) (Reverse_SNs v) \<rparr>)"
proof -
  have "insort (Reverse n) (sort (map Reverse (SNs v))) = sort (map Reverse (insort n (SNs v)))"
    by (rule properties_for_sort[symmetric]) (simp_all add: sorted_insort)
  with assms show ?thesis
    by (auto simp: venue_ok_def insert_at_lower_bound sorted_insort distinct_insort set_insort_key)
qed

lemma venue_ok_remove:
  assumes "venue_ok v" "n \<in> set (SNs v)"
  shows "Reverse n \<in> set (Reverse_SNs v)"
    and "venue_ok (v \<lparr> SNs := remove1 n (SNs v), Reverse_SNs := remove1 (Reverse n) (Reverse_SNs v) \<rparr>)"
proof -
  show r: "Reverse n \<in> set (Reverse_SNs v)" using assms by (auto simp: venue_ok_def)
  have "mset (map Reverse (remove1 n (SNs v))) = mset (map Reverse (SNs v)) - {#Reverse n#}"
    using assms(2) by (simp add: image_mset_Diff)
  then have "remove1 (Reverse n) (sort (map Reverse (SNs v))) = sort (map Reverse (remove1 n (SNs v)))"
    by (intro properties_for_sort[symmetric]) (simp_all add: sorted_remove1)
  with assms show
    "venue_ok (v \<lparr> SNs := remove1 n (SNs v), Reverse_SNs := remove1 (Reverse n) (Reverse_SNs v) \<rparr>)"
    by (auto simp: venue_ok_def sorted_remove1 dest: in_set_remove1[THEN iffD1, rotated] notin_set_remove1)
qed

lemma venue_ok_init: "venue_ok Cache_init"
  by (simp add: venue_ok_def Cache_init_def)

lemma cache_ok_get: "cache_ok c \<Longrightarrow> venue_ok (omap_get_or Cache_init k c)"
  by (cases "map_of c k") (auto simp: cache_ok_def venue_ok_init)

lemma cache_ok_set: "cache_ok c \<Longrightarrow> venue_ok v \<Longrightarrow> cache_ok (omap_set k v c)"
  by (auto simp: cache_ok_def)

lemma NumberExists_set:
  "NumberExists (omap_set k v c) k' n = (if k' = k then n \<in> set (SNs v) else NumberExists c k' n)"
  by (simp add: NumberExists_def)

lemma NumberExists_get: "NumberExists c k n \<longleftrightarrow> n \<in> set (SNs (omap_get_or Cache_init k c))"
  by (cases "map_of c k") (auto simp: NumberExists_def Cache_init_def)

lemma AddSerialNumber_ok:
  assumes "cache_ok c" "serial_ok S"
  shows "snd (AddSerialNumber c venue S) = Inr ()" "cache_ok (fst (AddSerialNumber c venue S))"
    "NumberExists (fst (AddSerialNumber c venue S)) k n
      \<longleftrightarrow> (k = venue \<and> n = serial_key S) \<or> NumberExists c k n"
proof -
  define c1 where "c1 = (if map_of c venue = None then omap_set venue Cache_init c else c)"
  define v where "v = omap_get_or Cache_init venue c1"
  define v' where "v' = v \<lparr> SNs := insert_at (lower_bound (SNs v) (serial_key S)) (serial_key S) (SNs v),
    Reverse_SNs := insert_at (lower_bound (Reverse_SNs v) (Reverse (serial_key S)))
      (Reverse (serial_key S)) (Reverse_SNs v) \<rparr>"
  note k = serial_ok_key[OF assms(2)]
  have c1: "cache_ok c1" using assms(1) by (simp add: c1_def cache_ok_set venue_ok_init)
  have v: "venue_ok v" using cache_ok_get[OF c1] by (simp add: v_def)
  have same: "NumberExists c1 j n \<longleftrightarrow> NumberExists c j n" for j
    by (simp add: c1_def NumberExists_set NumberExists_def Cache_init_def)
  have A: "AddSerialNumber c venue S = (if serial_key S \<in> set (SNs v) then (c1, Inr ())
      else (omap_set venue v' (omap_set venue (v \<lparr> SNs := insert_at (lower_bound (SNs v) (serial_key S))
        (serial_key S) (SNs v) \<rparr>) c1), Inr ()))"
    by (simp add: AddSerialNumber_def c1_def[symmetric] v_def[symmetric] Let_def k v'_def)
  show "snd (AddSerialNumber c venue S) = Inr ()" by (simp add: A)
  have ok': "venue_ok v'" if "serial_key S \<notin> set (SNs v)"
    unfolding v'_def using venue_ok_add[OF v that k(3)] .
  have wf': "cache_ok (omap_set venue v' (omap_set venue x c1))" if "venue_ok v'" for x
    using that c1 by (auto simp: cache_ok_def)
  show "cache_ok (fst (AddSerialNumber c venue S))"
    using c1 ok' wf' by (simp add: A)
  have "n \<in> set (SNs v') \<longleftrightarrow> n = serial_key S \<or> n \<in> set (SNs v)"
    using v by (simp add: v'_def insert_at_lower_bound venue_ok_def set_insort_key)
  then show "NumberExists (fst (AddSerialNumber c venue S)) k n
      \<longleftrightarrow> (k = venue \<and> n = serial_key S) \<or> NumberExists c k n"
    by (auto simp: A NumberExists_set same NumberExists_get[of c1 venue] v_def[symmetric]
        simp flip: same)
qed

lemma DeleteSerialNumber_ok:
  assumes "cache_ok c" "serial_ok S"
  shows "snd (DeleteSerialNumber c venue S) = Inr ()" "cache_ok (fst (DeleteSerialNumber c venue S))"
    "NumberExists (fst (DeleteSerialNumber c venue S)) k n
      \<longleftrightarrow> NumberExists c k n \<and> \<not> (k = venue \<and> n = serial_key S)"
proof -
  note sk = serial_ok_key[OF assms(2)]
  have "snd (DeleteSerialNumber c venue S) = Inr () \<and> cache_ok (fst (DeleteSerialNumber c venue S))
    \<and> (NumberExists (fst (DeleteSerialNumber c venue S)) k n
      \<longleftrightarrow> NumberExists c k n \<and> \<not> (k = venue \<and> n = serial_key S))"
  proof (cases "map_of c venue")
    case None
    then show ?thesis using assms(1) by (auto simp: DeleteSerialNumber_def sk NumberExists_def)
  next
    case (Some v)
    then have v: "venue_ok v" using assms(1) by (simp add: cache_ok_def)
    define v' where "v' = v \<lparr> SNs := remove1 (serial_key S) (SNs v),
      Reverse_SNs := remove1 (Reverse (serial_key S)) (Reverse_SNs v) \<rparr>"
    show ?thesis
    proof (cases "serial_key S \<in> set (SNs v)")
      case False
      with Some assms(1) show ?thesis by (auto simp: DeleteSerialNumber_def sk NumberExists_def)
    next
      case True
      note r = venue_ok_remove[OF v True]
      have D: "DeleteSerialNumber c venue S
        = (omap_set venue v' (omap_set venue (v \<lparr> SNs := remove1 (serial_key S) (SNs v) \<rparr>) c), Inr ())"
        using Some True r(1) by (simp add: DeleteSerialNumber_def sk v'_def Let_def)
      have "cache_ok (omap_set venue v' (omap_set venue x c))" for x
        using assms(1) r(2) by (auto simp: cache_ok_def v'_def)
      moreover have "n \<in> set (SNs v') \<longleftrightarrow> n \<in> set (SNs v) \<and> n \<noteq> serial_key S"
        using v by (auto simp: v'_def venue_ok_def)
      ultimately show ?thesis
        using Some by (auto simp: D NumberExists_set) (auto simp: NumberExists_def)
    qed
  qed
  then show "snd (DeleteSerialNumber c venue S) = Inr ()"
    "cache_ok (fst (DeleteSerialNumber c venue S))"
    "NumberExists (fst (DeleteSerialNumber c venue S)) k n
      \<longleftrightarrow> NumberExists c k n \<and> \<not> (k = venue \<and> n = serial_key S)" by auto
qed

text \<open>
  The contract of the index its clients rely on (the access-point statistics add the stations they see,
  the history handler removes them), and the cache as its provider.
\<close>

locale client_index =
  fixes inv :: "'c \<Rightarrow> bool" and add del :: "'c \<Rightarrow> 'v \<Rightarrow> 's \<Rightarrow> 'c"
    and member :: "'c \<Rightarrow> 'v \<Rightarrow> 'n \<Rightarrow> bool" and key :: "'s \<Rightarrow> 'n" and valid :: "'s \<Rightarrow> bool"
  assumes inv_add: "inv c \<Longrightarrow> valid s \<Longrightarrow> inv (add c v s)"
    and inv_del: "inv c \<Longrightarrow> valid s \<Longrightarrow> inv (del c v s)"
    and member_add: "inv c \<Longrightarrow> valid s \<Longrightarrow>
      member (add c v s) w n \<longleftrightarrow> (w = v \<and> n = key s) \<or> member c w n"
    and member_del: "inv c \<Longrightarrow> valid s \<Longrightarrow>
      member (del c v s) w n \<longleftrightarrow> member c w n \<and> \<not> (w = v \<and> n = key s)"
begin

lemma add_list:
  assumes "inv c" "\<forall>(s, v) \<in> set ps. valid s"
  shows "inv (fold (\<lambda>(s, v) c. add c v s) ps c)
    \<and> (member (fold (\<lambda>(s, v) c. add c v s) ps c) w n
         \<longleftrightarrow> (\<exists>s. (s, w) \<in> set ps \<and> n = key s) \<or> member c w n)"
  using assms
proof (induction ps arbitrary: c)
  case (Cons p ps)
  obtain s v where p: "p = (s, v)" by fastforce
  then have "inv (add c v s)" using Cons.prems inv_add by auto
  with Cons p show ?case by (auto simp: member_add)
qed simp

lemma member_add_del:
  "inv c \<Longrightarrow> valid s \<Longrightarrow> member (add (del c v s) v s) w n \<longleftrightarrow> member (add c v s) w n"
  by (auto simp: member_add member_del inv_del)

end

interpretation cc: client_index cache_ok "\<lambda>c v s. fst (AddSerialNumber c v s)"
  "\<lambda>c v s. fst (DeleteSerialNumber c v s)" NumberExists serial_key serial_ok
  by unfold_locales (simp_all add: AddSerialNumber_ok DeleteSerialNumber_ok)

lemma add_all_fold:
  assumes "cache_ok c" "\<forall>(s, v) \<in> set macs. serial_ok s"
  shows "add_all c macs = (fold (\<lambda>(s, v) c. fst (AddSerialNumber c v s)) macs c, Inr ())"
  using assms
proof (induction macs arbitrary: c)
  case (Cons m macs)
  obtain s v where m: "m = (s, v)" by fastforce
  then have s: "serial_ok s" using Cons.prems by auto
  obtain c' r where A: "AddSerialNumber c v s = (c', r)" by fastforce
  with AddSerialNumber_ok[OF Cons.prems(1) s, of v] have "r = Inr ()" "cache_ok c'" by auto
  with Cons A m show ?case by simp
qed simp

lemma cache_ok_Nil: "cache_ok []"
  by (simp add: cache_ok_def)

text \<open>
  C11: On well-formed caches and 12-digit hexadecimal addresses the cache is a set per venue: adding and
  deleting never throw, keep the cache well formed, and change exactly the membership of that address
  at that venue; the timer's rebuild leaves exactly the stations the database listed.
\<close>

theorem client_cache_refines_sets:
  assumes "cache_ok c" "serial_ok S" "\<forall>(s, v) \<in> set macs. serial_ok s"
  shows "(\<exists>c'. AddSerialNumber c venue S = (c', Inr ()) \<and> cache_ok c'
        \<and> (\<forall>k n. NumberExists c' k n \<longleftrightarrow> (k = venue \<and> n = serial_key S) \<or> NumberExists c k n))
    \<and> (\<exists>c'. DeleteSerialNumber c venue S = (c', Inr ()) \<and> cache_ok c'
        \<and> (\<forall>k n. NumberExists c' k n \<longleftrightarrow> NumberExists c k n \<and> \<not> (k = venue \<and> n = serial_key S)))
    \<and> (\<exists>c'. onTimer c (Some macs) = (c', Inr ()) \<and> cache_ok c'
        \<and> (\<forall>k n. NumberExists c' k n \<longleftrightarrow> (\<exists>s. (s, k) \<in> set macs \<and> n = serial_key s)))"
proof (intro conjI)
  show "\<exists>c'. AddSerialNumber c venue S = (c', Inr ()) \<and> cache_ok c'
    \<and> (\<forall>k n. NumberExists c' k n \<longleftrightarrow> (k = venue \<and> n = serial_key S) \<or> NumberExists c k n)"
    using AddSerialNumber_ok[OF assms(1,2), of venue]
    by (intro exI[of _ "fst (AddSerialNumber c venue S)"]) (auto simp: prod_eq_iff)
  show "\<exists>c'. DeleteSerialNumber c venue S = (c', Inr ()) \<and> cache_ok c'
    \<and> (\<forall>k n. NumberExists c' k n \<longleftrightarrow> NumberExists c k n \<and> \<not> (k = venue \<and> n = serial_key S))"
    using DeleteSerialNumber_ok[OF assms(1,2), of venue]
    by (intro exI[of _ "fst (DeleteSerialNumber c venue S)"]) (auto simp: prod_eq_iff)
  show "\<exists>c'. onTimer c (Some macs) = (c', Inr ()) \<and> cache_ok c'
    \<and> (\<forall>k n. NumberExists c' k n \<longleftrightarrow> (\<exists>s. (s, k) \<in> set macs \<and> n = serial_key s))"
    using add_all_fold[OF cache_ok_Nil assms(3)] cc.add_list[OF cache_ok_Nil assms(3)]
    by (auto simp: onTimer_def NumberExists_def[of "[]"])
qed

lemma client_cache_refines_sets_witness:
  "\<exists>c'. onTimer [] (Some [(''aabbccddeeff'', ''venue'')]) = (c', Inr ())
     \<and> NumberExists c' ''venue'' (serial_key ''aabbccddeeff'')"
proof -
  have "serial_ok ''aabbccddeeff''" by (simp add: serial_ok_def ctype_simps)
  with client_cache_refines_sets[OF cache_ok_Nil, of "''aabbccddeeff''" "[(''aabbccddeeff'', ''venue'')]" "''venue''"]
  show ?thesis by auto
qed

section \<open>Searching\<close>

lemma filter_interval:
  assumes "sorted xs" "\<And>x y. x \<le> y \<Longrightarrow> R y \<Longrightarrow> R x"
    "\<And>x. x \<in> set xs \<Longrightarrow> P x \<longleftrightarrow> \<not> x < lo \<and> R x"
  shows "takeWhile P (drop (lower_bound xs lo) xs) = filter P (xs :: 'a::linorder list)"
proof -
  have "takeWhile P (dropWhile (\<lambda>x. x < lo) xs) = filter P xs"
    using assms(1,3)
  proof (induction xs)
    case (Cons a xs)
    then have IH: "takeWhile P (dropWhile (\<lambda>x. x < lo) xs) = filter P xs" by simp
    show ?case
    proof (cases "a < lo")
      case True
      then show ?thesis using IH Cons.prems(2)[of a] by simp
    next
      case False
      then have "dropWhile (\<lambda>x. x < lo) xs = xs"
        using Cons.prems(1) by (cases xs) auto
      moreover have "filter P xs = []" if "\<not> P a"
        using that False Cons.prems assms(2)[of a] by (auto simp: filter_empty_conv)
      ultimately show ?thesis using IH False by auto
    qed
  qed simp
  then show ?thesis by (simp add: lower_bound_def dropWhile_eq_drop)
qed

definition lower_hex :: "string \<Rightarrow> bool" where
  "lower_hex S \<longleftrightarrow> list_all (\<lambda>c. isxdigit c \<and> tolower c = c) S"

lemma take_digits12:
  assumes "k \<le> 12"
  shows "take k (digits12 n) = fixed_digits 16 xdigit_char k (unat n div 16 ^ (12 - k))"
  using fixed_digits_add[of 16 xdigit_char k "12 - k" "unat n"] assms by simp

lemma prefix_iff_value:
  assumes "lower_hex S" "length S \<le> 12" "unat n < 2 ^ 48"
  shows "take (length S) (digits12 n) = S \<longleftrightarrow> unat n div 16 ^ (12 - length S) = hex_val S"
proof -
  let ?m = "unat n div 16 ^ (12 - length S)"
  have "(2::nat) ^ 48 = 16 ^ length S * 16 ^ (12 - length S)"
    using assms(2) by (simp flip: power_add)
  then have m: "?m < 16 ^ length S" using assms(3) by (simp add: less_mult_imp_div_less)
  have S: "fixed_digits 16 xdigit_char (length S) (hex_val S) = S"
    using assms(1) by (intro fixed_digits_num_val)
      (auto simp: lower_hex_def list_all_iff xdigit_char_xdigit_val)
  have "hex_val (fixed_digits 16 xdigit_char (length S) ?m) = ?m"
    using num_val_fixed_digits[of 16 xdigit_val xdigit_char "length S" ?m] m by simp
  then show ?thesis unfolding take_digits12[OF assms(2)] using S by metis
qed

definition padded_key :: "string \<Rightarrow> u64" where
  "padded_key S = of_nat (hex_val (S @ replicate (12 - length S) (CHR ''0'')))"

lemma padded_key_props:
  assumes "lower_hex S" "length S < 12"
  shows "stoull16 (S @ replicate (12 - length S) (CHR ''0'')) = Inr (padded_key S)"
    and "unat (padded_key S) = hex_val S * 16 ^ (12 - length S)"
proof -
  let ?p = "S @ replicate (12 - length S) (CHR ''0'')"
  have z: "isxdigit (CHR ''0'')" "xdigit_val (CHR ''0'') = 0" by (simp_all add: ctype_simps)
  then have x: "\<forall>c \<in> set ?p. isxdigit c" and l: "length ?p = 12"
    using assms by (auto simp: lower_hex_def list_all_iff)
  show "stoull16 ?p = Inr (padded_key S)"
    unfolding padded_key_def using x l by (intro stoull16_xdigits) auto
  have "hex_val (replicate j (CHR ''0'')) = 0" for j
    by (induction j) (auto simp: num_val_Cons z)
  then have "hex_val ?p = hex_val S * 16 ^ (12 - length S)" by (simp add: num_val_append)
  then show "unat (padded_key S) = hex_val S * 16 ^ (12 - length S)"
    unfolding padded_key_def using unat_of_nat_hex_val(1)[OF l x] by simp
qed

lemma prefix_filter:
  assumes "sorted xs" "\<forall>n \<in> set xs. unat n < 2 ^ 48" "lower_hex S" "length S < 12"
  shows "takeWhile (\<lambda>n. take (length S) (digits12 n) = S) (drop (lower_bound xs (padded_key S)) xs)
    = filter (\<lambda>n. take (length S) (digits12 n) = S) xs"
proof (rule filter_interval[OF assms(1), where R = "\<lambda>n. unat n div 16 ^ (12 - length S) \<le> hex_val S"])
  let ?e = "16 ^ (12 - length S) :: nat"
  show "unat x div ?e \<le> hex_val S" if "x \<le> y" "unat y div ?e \<le> hex_val S" for x y :: u64
    using that by (meson div_le_mono le_trans word_le_nat_alt)
  show "take (length S) (digits12 n) = S \<longleftrightarrow> \<not> n < padded_key S \<and> unat n div ?e \<le> hex_val S"
    if "n \<in> set xs" for n
  proof -
    have "\<not> n < padded_key S \<longleftrightarrow> hex_val S \<le> unat n div ?e"
      unfolding word_less_nat_alt padded_key_props(2)[OF assms(3,4)]
      by (simp add: not_less less_eq_div_iff_mult_less_eq)
    then show ?thesis using prefix_iff_value[OF assms(3), of n] that assms(2,4) by auto
  qed
qed

lemma prefix_walk_forward:
  "prefix_walk S False h xs = take h (takeWhile (\<lambda>n. take (length S) (digits12 n) = S) xs)"
  by (induction xs arbitrary: h)
    (auto simp: IntToSerialNumber_digits Let_def take_Cons' simp del: fixed_digits.simps)

lemma prefix_walk_reverse:
  assumes "\<forall>n \<in> set xs. unat n < 2 ^ 48"
  shows "prefix_walk S True h xs
    = map Reverse (take h (takeWhile (\<lambda>n. take (length S) (digits12 n) = S) xs))"
  using assms
proof (induction xs arbitrary: h)
  case (Cons n xs)
  then have "ReverseSerialNumber (IntToSerialNumber (Reverse n)) = digits12 n"
    by (simp only: ReverseSerialNumber_def IntToSerialNumber_digits digits12_Reverse(1) rev_rev_ident
        list.set_intros)
  with Cons show ?case by (auto simp: Let_def take_Cons' simp del: fixed_digits.simps)
qed simp

lemma ReturnNumbers_spec:
  assumes "sorted xs" "distinct xs" "\<forall>n \<in> set xs. unat n < 2 ^ 48" "lower_hex S" "length S \<le> 12"
  defines "hits \<equiv> filter (\<lambda>n. take (length S) (digits12 n) = S) xs"
  shows "ReturnNumbers S h xs r
    = Inr (map (if r then Reverse else id) (if length S = 12 then hits else take (unat h) hits))"
proof (cases "length S = 12")
  case True
  then have ok: "serial_ok S" using assms(4) by (auto simp: serial_ok_def lower_hex_def list_all_iff)
  have low: "map tolower S = S"
    using assms(4) by (auto simp: lower_hex_def list_all_iff intro: map_idI)
  have key: "take 12 (digits12 n) = S \<longleftrightarrow> n = serial_key S" if "n \<in> set xs" for n
    using serial_ok_key(3,4)[OF ok] low digits12_inj[of n "serial_key S"] assms(3) that
    by (auto simp: IntToSerialNumber_digits simp del: fixed_digits.simps)
  have "hits = filter (\<lambda>n. n = serial_key S) xs"
    unfolding hits_def True using key by (intro filter_cong) auto
  also have "\<dots> = (if serial_key S \<in> set xs then [serial_key S] else [])"
    using assms(2) by (induction xs) (auto simp: filter_empty_conv)
  finally show ?thesis using True by (simp add: ReturnNumbers_def serial_ok_key(1)[OF ok])
next
  case False
  then have lt: "length S < 12" using assms(5) by simp
  have dr: "\<forall>n \<in> set (drop k xs). unat n < 2 ^ 48" for k using assms(3) in_set_dropD by fast
  show ?thesis
    using prefix_filter[OF assms(1,3,4) lt] lt
    by (cases r) (auto simp: ReturnNumbers_def padded_key_props(1)[OF assms(4) lt] hits_def
        prefix_walk_forward prefix_walk_reverse[OF dr] simp del: fixed_digits.simps)
qed

lemma Reverse_SNs_props:
  assumes "venue_ok v"
  shows "sorted (Reverse_SNs v)" "distinct (Reverse_SNs v)" "set (Reverse_SNs v) = Reverse ` set (SNs v)"
    "\<forall>n \<in> set (Reverse_SNs v). unat n < 2 ^ 48"
proof -
  have "inj_on Reverse (set (SNs v))"
    using assms by (intro inj_on_inverseI[of _ Reverse]) (auto simp: venue_ok_def Reverse_Reverse)
  then show "sorted (Reverse_SNs v)" "distinct (Reverse_SNs v)"
    "set (Reverse_SNs v) = Reverse ` set (SNs v)" "\<forall>n \<in> set (Reverse_SNs v). unat n < 2 ^ 48"
    using assms by (auto simp: venue_ok_def distinct_map digits12_Reverse(2)[simplified])
qed

lemma take_rev_digits:
  assumes "unat n < 2 ^ 48" "length S \<le> 12"
  shows "take (length S) (digits12 (Reverse n)) = rev S \<longleftrightarrow> drop (12 - length S) (digits12 n) = S"
proof -
  have "take (length S) (rev (digits12 n)) = rev (drop (12 - length S) (digits12 n))"
    using assms(2) by (simp add: take_rev del: fixed_digits.simps)
  then show ?thesis using assms(1) by (simp add: digits12_Reverse(1) del: fixed_digits.simps)
qed

lemma suffix_hits:
  assumes "venue_ok v" "length S \<le> 12"
  defines "R \<equiv> map Reverse (filter (\<lambda>n. take (length S) (digits12 n) = rev S) (Reverse_SNs v))"
  shows "distinct R" "set R = {n \<in> set (SNs v). drop (12 - length S) (IntToSerialNumber n) = S}"
proof -
  note R = Reverse_SNs_props[OF assms(1)]
  have RR: "Reverse (Reverse n) = n" if "n \<in> set (SNs v)" for n
    using that assms(1) by (auto simp: venue_ok_def Reverse_Reverse)
  have "inj_on Reverse (set (Reverse_SNs v))"
    by (intro inj_on_inverseI[of _ Reverse]) (use R(4) in \<open>auto simp: Reverse_Reverse\<close>)
  then show "distinct R" using R(2) by (auto simp: R_def distinct_map intro: inj_on_subset)
  have "set R = Reverse ` {m \<in> Reverse ` set (SNs v). take (length S) (digits12 m) = rev S}"
    unfolding R_def R(3)[symmetric] by auto
  also have "\<dots> = Reverse ` Reverse ` {n \<in> set (SNs v). take (length S) (digits12 (Reverse n)) = rev S}"
    by blast
  also have "\<dots> = {n \<in> set (SNs v). take (length S) (digits12 (Reverse n)) = rev S}"
    unfolding image_image using RR by (simp del: fixed_digits.simps)
  also have "\<dots> = {n \<in> set (SNs v). drop (12 - length S) (IntToSerialNumber n) = S}"
    using assms(1) take_rev_digits[OF _ assms(2)]
    by (auto simp: venue_ok_def IntToSerialNumber_digits simp del: fixed_digits.simps)
  finally show "set R = {n \<in> set (SNs v). drop (12 - length S) (IntToSerialNumber n) = S}" .
qed

lemma lower_hex_not_star: "lower_hex (c # S) \<Longrightarrow> c \<noteq> CHR ''*''"
  by (auto simp: lower_hex_def isxdigit_def isdigit_def char_code_def)

text \<open>
  On a well-formed cache, searching a venue for a lower-case hexadecimal prefix lists, in increasing
  order, exactly the stations whose address starts with it, and a search for \<^verbatim>\<open>*\<close> and a suffix exactly
  those whose address ends with it, each once; only a search of fewer than 12 digits is limited, to the low 32
  bits of the requested number.
\<close>

theorem FindNumbers_search:
  assumes "cache_ok c" "map_of c venue = Some v" "lower_hex S" "0 < length S" "length S \<le> 12"
  shows "FindNumbers c venue S off h
      = (let hits = filter (\<lambda>n. take (length S) (IntToSerialNumber n) = S) (SNs v)
         in Inr (if length S = 12 then hits else take (unat (ucast h :: u32)) hits))
    \<and> (\<exists>hits. distinct hits
        \<and> set hits = {n \<in> set (SNs v). drop (12 - length S) (IntToSerialNumber n) = S}
        \<and> FindNumbers c venue (CHR ''*'' # S) off h
            = Inr (if length S = 12 then hits else take (unat (ucast h :: u32)) hits))"
proof
  have v: "venue_ok v" using assms(1,2) by (simp add: cache_ok_def)
  obtain a T where S: "S = a # T" using assms(4) by (cases S) auto
  have "a \<noteq> CHR ''*''" using assms(3) S lower_hex_not_star by blast
  moreover have "ReturnNumbers S (ucast h) (SNs v) False
      = (let hits = filter (\<lambda>n. take (length S) (IntToSerialNumber n) = S) (SNs v)
         in Inr (if length S = 12 then hits else take (unat (ucast h :: u32)) hits))"
    using ReturnNumbers_spec[of "SNs v" S "ucast h" False] v assms(3,5)
    by (simp add: venue_ok_def IntToSerialNumber_digits Let_def del: fixed_digits.simps)
  ultimately show "FindNumbers c venue S off h
      = (let hits = filter (\<lambda>n. take (length S) (IntToSerialNumber n) = S) (SNs v)
         in Inr (if length S = 12 then hits else take (unat (ucast h :: u32)) hits))"
    using assms(2) by (simp add: FindNumbers_def S)
  let ?R = "map Reverse (filter (\<lambda>n. take (length S) (digits12 n) = rev S) (Reverse_SNs v))"
  have "lower_hex (rev S)" using assms(3) by (simp add: lower_hex_def)
  then have "ReturnNumbers (rev S) (ucast h) (Reverse_SNs v) True
      = Inr (if length S = 12 then ?R else take (unat (ucast h :: u32)) ?R)"
    using ReturnNumbers_spec[OF Reverse_SNs_props(1,2,4)[OF v], of "rev S" "ucast h" True] assms(5)
    by (simp add: take_map del: fixed_digits.simps)
  then have "FindNumbers c venue (CHR ''*'' # S) off h
      = Inr (if length S = 12 then ?R else take (unat (ucast h :: u32)) ?R)"
    using assms(2) S by (simp add: FindNumbers_def del: fixed_digits.simps)
  with suffix_hits[OF v assms(5)]
  show "\<exists>hits. distinct hits
      \<and> set hits = {n \<in> set (SNs v). drop (12 - length S) (IntToSerialNumber n) = S}
      \<and> FindNumbers c venue (CHR ''*'' # S) off h
          = Inr (if length S = 12 then hits else take (unat (ucast h :: u32)) hits)" by blast
qed

definition two_stations :: client_cache where
  "two_stations = [(''v'', \<lparr> SNs = [0x10, 0x21], Reverse_SNs = [0x010000000000, 0x120000000000] \<rparr>)]"

lemma FindNumbers_search_witness:
  "\<exists>hits. distinct hits \<and> set hits = {n \<in> set [0x10, 0x21]. drop 11 (IntToSerialNumber n) = ''1''}
     \<and> FindNumbers two_stations ''v'' ''*1'' 0 5 = Inr (take 5 hits)"
proof -
  have r: "Reverse 0x10 = 0x010000000000" "Reverse 0x21 = 0x120000000000" by code_simp+
  have ok: "cache_ok two_stations"
    by (simp add: two_stations_def cache_ok_def venue_ok_def omap_wf_def r)
  have m: "map_of two_stations ''v'' = Some \<lparr> SNs = [0x10, 0x21],
      Reverse_SNs = [0x010000000000, 0x120000000000] \<rparr>"
    by (simp add: two_stations_def)
  have S: "lower_hex ''1''" by (simp add: lower_hex_def ctype_simps)
  have l: "length ''1'' = 1" "0 < length ''1''" "length ''1'' \<le> 12" by simp_all
  have u: "unat (ucast (5 :: u64) :: u32) = 5" by simp
  show ?thesis
    using FindNumbers_search[OF ok m S l(2,3), of 0 5, THEN conjunct2] unfolding l(1) u by simp
qed

end
