(* ===== verification/ApParse.thy ===== *)
theory ApParse
  imports Json AnalyticsObjects WifiClientCache
begin

text \<open>
  The parsing half of \<^verbatim>\<open>AP::UpdateStats\<close> (\<^verbatim>\<open>src/src/APStats.cpp\<close>): the body of its \<^verbatim>\<open>try\<close> block, section by
  section.  The state is what outlives the block: the device information, the time point under
  construction, the client cache and the client-history records stored so far.
\<close>

record ap_run =
  run_DI :: DeviceInfo
  run_DTP :: DeviceTimePoint
  run_cache :: client_cache
  run_history :: "WifiClientHistory list"

definition mac_filter :: "string \<Rightarrow> string" where
  "mac_filter m = filter (\<lambda>c. c \<noteq> CHR '':'' \<and> c \<noteq> CHR ''-'') m"

definition BandToInt :: "string \<Rightarrow> int" where
  "BandToInt band = (if band = ''2G'' then 2 else if band = ''5G'' then 5 else if band = ''6G'' then 6 else 2)"

section \<open>Unit and memory\<close>

definition memory_pct :: "u64 \<Rightarrow> u64 \<Rightarrow> fp" where
  "memory_pct total_mem free_mem =
     (if total_mem \<noteq> 0
      then fp_mul binary64 (fp_div binary64 (fp_of_nat binary64 (unat (total_mem - free_mem)))
             (fp_of_nat binary64 (unat total_mem))) (Fin 100)
      else Fin 0)"

definition parse_memory :: "'j nlohmann \<Rightarrow> 'j \<Rightarrow> ap_run act" where
  "parse_memory L memory =
     with_val (GetJSON_val L (j_get_u64 L) ''free'' memory 0) (\<lambda>free_mem.
     with_val (GetJSON_val L (j_get_u64 L) ''total'' memory 0) (\<lambda>total_mem.
     assign (run_DI_update (di_memory_update (\<lambda>_. memory_pct total_mem free_mem))
             o run_DTP_update (dtp_resource_data_update (\<lambda>_.
                 \<lparr> res_memory_free = GetOptionalUInt64JSON L ''free'' memory,
                   res_memory_total = GetOptionalUInt64JSON L ''total'' memory,
                   res_memory_cached = GetOptionalUInt64JSON L ''cached'' memory,
                   res_memory_buffered = GetOptionalUInt64JSON L ''buffered'' memory \<rparr>)))))"

definition parse_unit :: "'j nlohmann \<Rightarrow> 'j \<Rightarrow> ap_run act" where
  "parse_unit L State =
     guarded (j_contains L State ''unit'')
      (with_val (j_at_mut L State ''unit'') (\<lambda>unit. runs
        [GetJSON L (j_get_u64 L) ''localtime'' unit (run_DI_update o di_lastState_update) 0,
         GetJSON L (j_get_u64 L) ''uptime'' unit (run_DI_update o di_uptime_update) 0,
         guarded (j_contains L unit ''memory'')
          (with_val (j_at_mut L unit ''memory'') (parse_memory L))]))"

section \<open>Radios\<close>

type_synonym radio_map = "(u32, u32 \<times> u32) omap"

definition ParseRadioTimePoint :: "'j nlohmann \<Rightarrow> 'j \<Rightarrow> RadioTimePoint act" where
  "ParseRadioTimePoint L radio =
     assign (radio_temperature_update (\<lambda>_. GetOptionalDoubleJSON L ''temperature'' radio))"

definition radio_band_step :: "'j nlohmann \<Rightarrow> 'j \<Rightarrow> RadioTimePoint act" where
  "radio_band_step L radio RTP =
     (if j_contains L radio ''band'' then
        with_val (j_at_const L radio ''band'') (\<lambda>BandArray.
          if j_is_array L BandArray then
            with_val (bind (j_front L BandArray) (j_get_string L)) (\<lambda>b.
              assign (radio_band_update (\<lambda>_. of_int (BandToInt b))))
          else assign (radio_band_update (\<lambda>_. if radio_channel RTP \<le> 16 then 2 else 5))) RTP
      else (radio_band_update (\<lambda>_. if radio_channel RTP \<le> 16 then 2 else 5) RTP, None))"

definition channel_width_step :: "'j nlohmann \<Rightarrow> 'j \<Rightarrow> RadioTimePoint act" where
  "channel_width_step L radio =
     guarded (j_contains L radio ''channel_width'')
      (with_val (j_at_const L radio ''channel_width'') (\<lambda>w.
         if j_is_null L w then ok
         else if j_is_string L w then
           with_val (j_get_string L w) (\<lambda>C. assign (radio_channel_width_update (\<lambda>_. strtoull10 C)))
         else if j_is_number_integer L w then
           with_val (j_get_u64 L w) (\<lambda>v. assign (radio_channel_width_update (\<lambda>_. v)))
         else assign (radio_channel_width_update (\<lambda>_. 20))))"

definition radio_rest :: "'j nlohmann \<Rightarrow> 'j \<Rightarrow> RadioTimePoint act" where
  "radio_rest L radio = runs
     [GetJSON L (j_get_u64 L) ''busy_ms'' radio radio_busy_ms_update 0,
      GetJSON L (j_get_u64 L) ''receive_ms'' radio radio_receive_ms_update 0,
      GetJSON L (j_get_u64 L) ''transmit_ms'' radio radio_transmit_ms_update 0,
      GetJSON L (j_get_u64 L) ''active_ms'' radio radio_active_ms_update 0,
      GetJSON L (j_get_u64 L) ''tx_power'' radio radio_tx_power_update 0,
      GetJSON L (j_get_u64 L) ''active_ms'' radio radio_active_ms_update 0,
      GetJSON L (j_get_u64 L) ''channel'' radio radio_channel_update 0,
      ParseRadioTimePoint L radio,
      channel_width_step L radio,
      GetJSON L (j_get_i64 L) ''noise'' radio radio_noise_update (- 90),
      assign (\<lambda>RTP. if radio_noise RTP = 0 then RTP \<lparr> radio_noise := - 90 \<rparr> else RTP)]"

text \<open>The loop's state carries the map from radio index to band and channel.\<close>

definition parse_radio :: "'j nlohmann \<Rightarrow> 'j \<Rightarrow> (ap_run \<times> radio_map \<times> u32) act" where
  "parse_radio L radio =
     guarded (j_contains L radio ''channel'')
      (build (runs [GetJSON L (j_get_u64 L) ''channel'' radio radio_channel_update 2,
                    radio_band_step L radio]) RadioTimePoint_init (\<lambda>RTP. runs
        [assign (\<lambda>(s, m, radio_index).
           (s, omap_set radio_index (ucast (radio_band RTP), ucast (radio_channel RTP)) m, radio_index + 1)),
         build (radio_rest L radio) RTP (\<lambda>RTP.
           assign (\<lambda>(s, m, i). (run_DTP_update (dtp_radio_data_update (\<lambda>rs. rs @ [RTP])) s, m, i)))]))"

definition parse_radios :: "'j nlohmann \<Rightarrow> 'j \<Rightarrow> (ap_run \<times> radio_map \<times> u32) act" where
  "parse_radios L State =
     guarded (j_contains L State ''radios'')
      (with_val (j_at_mut L State ''radios'') (\<lambda>radios.
         guarded (j_is_array L radios) (each (parse_radio L) (j_elems L radios))))"

section \<open>Interfaces\<close>

definition parse_counters :: "'j nlohmann \<Rightarrow> 'j \<Rightarrow> APTimePoint act" where
  "parse_counters L counters = runs
     [GetJSON L (j_get_u64 L) ''collisions'' counters ap_collisions_update 0,
      GetJSON L (j_get_u64 L) ''multicast'' counters ap_multicast_update 0,
      GetJSON L (j_get_u64 L) ''rx_bytes'' counters ap_rx_bytes_update 0,
      GetJSON L (j_get_u64 L) ''rx_dropped'' counters ap_rx_dropped_update 0,
      GetJSON L (j_get_u64 L) ''rx_errors'' counters ap_rx_errors_update 0,
      GetJSON L (j_get_u64 L) ''rx_packets'' counters ap_rx_packets_update 0,
      GetJSON L (j_get_u64 L) ''tx_bytes'' counters ap_tx_bytes_update 0,
      GetJSON L (j_get_u64 L) ''tx_dropped'' counters ap_tx_dropped_update 0,
      GetJSON L (j_get_u64 L) ''tx_errors'' counters ap_tx_errors_update 0,
      GetJSON L (j_get_u64 L) ''tx_packets'' counters ap_tx_packets_update 0]"

record InterfaceClientEntry =
  ipv4_addresses :: "string list"
  ipv6_addresses :: "string list"

type_synonym InterfaceClientEntryMap = "(string, InterfaceClientEntry) omap"

definition parse_addresses ::
  "'j nlohmann \<Rightarrow> string \<Rightarrow> 'j \<Rightarrow> ((string list \<Rightarrow> string list) \<Rightarrow> InterfaceClientEntry \<Rightarrow> InterfaceClientEntry) \<Rightarrow>
   InterfaceClientEntry act" where
  "parse_addresses L field client upd =
     guarded (j_contains L client field)
      (with_val (j_at_const L client field) (\<lambda>ips.
         guarded (j_is_array L ips)
          (each (\<lambda>ip. with_val (j_get_string L ip) (\<lambda>t. assign (upd (\<lambda>l. l @ [t])))) (j_elems L ips))))"

definition parse_client :: "'j nlohmann \<Rightarrow> 'j \<Rightarrow> InterfaceClientEntryMap act" where
  "parse_client L client =
     guarded (j_contains L client ''mac'')
      (with_val (j_at_const L client ''mac'') (\<lambda>mac.
         guarded (j_is_string L mac)
          (build (runs [parse_addresses L ''ipv4_addresses'' client ipv4_addresses_update,
                        parse_addresses L ''ipv6_addresses'' client ipv6_addresses_update])
                 \<lparr> ipv4_addresses = [], ipv6_addresses = [] \<rparr> (\<lambda>E.
             with_val (j_get_string L mac) (\<lambda>m. assign (omap_set (mac_filter m) E))))))"

definition parse_clients :: "'j nlohmann \<Rightarrow> 'j \<Rightarrow> InterfaceClientEntryMap act" where
  "parse_clients L interface =
     guarded (j_contains L interface ''clients'')
      (with_val (j_at_const L interface ''clients'') (\<lambda>Clients.
         guarded (j_is_array L Clients) (catch_all (each (parse_client L) (j_elems L Clients)))))"

section \<open>SSIDs\<close>

text \<open>\<^verbatim>\<open>$ref\<close> of a radio, as \<^verbatim>\<open>"#/radios/<n>"\<close>: the position, and what is done with the radio found there.\<close>

definition radio_ref ::
  "'j nlohmann \<Rightarrow> radio_map \<Rightarrow> 'j \<Rightarrow> (u32 \<times> u32 \<Rightarrow> SSIDTimePoint \<Rightarrow> SSIDTimePoint) \<Rightarrow> (SSIDTimePoint \<times> u32) act" where
  "radio_ref L radio_map radio use =
     guarded (j_contains L radio ''$ref'')
      (with_val (bind (j_at_mut L radio ''$ref'') (j_get_string L)) (\<lambda>ref.
         let radio_parts = tokenizer L ref ''/''
         in guarded (length radio_parts = 3)
             (assign (\<lambda>(p, _).
                let radio_location = of_int (strtol10 (radio_parts ! 2))
                in (case map_of radio_map radio_location of None \<Rightarrow> p | Some r \<Rightarrow> use r p, radio_location)))))"

definition ssid_radio :: "'j nlohmann \<Rightarrow> radio_map \<Rightarrow> 'j \<Rightarrow> (SSIDTimePoint \<times> u32) act" where
  "ssid_radio L radio_map ssid =
     (if j_contains L ssid ''band'' then
        with_val (bind (j_at_const L ssid ''band'') (j_get_string L)) (\<lambda>Band. runs
          [assign (\<lambda>(p, l). (p \<lparr> ssidtp_band := of_int (BandToInt Band) \<rparr>, l)),
           with_val (j_at_const L ssid ''radio'') (\<lambda>radio.
             radio_ref L radio_map radio (\<lambda>r p. p \<lparr> ssidtp_channel := ucast (snd r) \<rparr>))])
      else guarded (j_contains L ssid ''radio'')
        (with_val (j_at_const L ssid ''radio'') (\<lambda>radio.
           radio_ref L radio_map radio
             (\<lambda>r p. p \<lparr> ssidtp_band := ucast (fst r), ssidtp_channel := ucast (snd r) \<rparr>))))"

definition count_associations :: "radio_map \<Rightarrow> u32 \<Rightarrow> nat \<Rightarrow> DeviceInfo \<Rightarrow> DeviceInfo" where
  "count_associations radio_map radio_location n DI =
     (case map_of radio_map radio_location of
        None \<Rightarrow> DI
      | Some (the_radio, _) \<Rightarrow>
          if the_radio = 2 then DI \<lparr> di_associations_2g := di_associations_2g DI + of_nat n \<rparr>
          else if the_radio = 5 then DI \<lparr> di_associations_5g := di_associations_5g DI + of_nat n \<rparr>
          else if the_radio = 6 then DI \<lparr> di_associations_6g := di_associations_6g DI + of_nat n \<rparr>
          else DI)"

section \<open>Associations\<close>

definition ue_first :: "'j nlohmann \<Rightarrow> 'j \<Rightarrow> UETimePoint act" where
  "ue_first L association = runs
     [GetJSON L (j_get_string L) ''station'' association ue_station_update [],
      GetJSON L (j_get_i64 L) ''rssi'' association ue_rssi_update 0,
      assign (\<lambda>TP. let TxBytes = GetOptionalUInt64JSON L ''tx_bytes'' association
        in TP \<lparr> ue_tx_bytes_present := TxBytes \<noteq> None, ue_tx_bytes := case_option 0 id TxBytes \<rparr>),
      assign (\<lambda>TP. let RxBytes = GetOptionalUInt64JSON L ''rx_bytes'' association
        in TP \<lparr> ue_rx_bytes_present := RxBytes \<noteq> None, ue_rx_bytes := case_option 0 id RxBytes \<rparr>),
      GetJSON L (j_get_u64 L) ''tx_duration'' association ue_tx_duration_update 0,
      GetJSON L (j_get_u64 L) ''rx_packets'' association ue_rx_packets_update 0,
      GetJSON L (j_get_u64 L) ''tx_packets'' association ue_tx_packets_update 0,
      GetJSON L (j_get_u64 L) ''tx_retries'' association ue_tx_retries_update 0,
      GetJSON L (j_get_u64 L) ''tx_failed'' association ue_tx_failed_update 0,
      GetJSON L (j_get_u64 L) ''connected'' association ue_connected_update 0,
      GetJSON L (j_get_u64 L) ''inactive'' association ue_inactive_update 0,
      guarded (j_contains L association ''fingerprint'')
       (with_val (bind (j_at_const L association ''fingerprint'') (j_dump L)) (\<lambda>t.
          assign (ue_fingerprint_update (fprint_json_update (\<lambda>_. t)))))]"

definition client_addresses :: "InterfaceClientEntryMap \<Rightarrow> WifiClientHistory \<Rightarrow> WifiClientHistory" where
  "client_addresses ICEM WFH =
     (case map_of ICEM (wch_station_id WFH) of
        None \<Rightarrow> WFH
      | Some E \<Rightarrow>
          let WFH = (case ipv4_addresses E of [] \<Rightarrow> WFH | a # _ \<Rightarrow> WFH \<lparr> wch_ipv4 := a \<rparr>)
          in (case ipv6_addresses E of [] \<Rightarrow> WFH | a # _ \<Rightarrow> WFH \<lparr> wch_ipv6 := a \<rparr>))"

definition client_radio :: "RadioTimePoint list \<Rightarrow> u64 \<Rightarrow> WifiClientHistory \<Rightarrow> WifiClientHistory" where
  "client_radio radio_data band WFH =
     (case find (\<lambda>rd. radio_band rd = band) radio_data of
        None \<Rightarrow> WFH
      | Some rd \<Rightarrow> WFH \<lparr> wch_channel_width := radio_channel_width rd, wch_noise := radio_noise rd,
          wch_tx_power := radio_tx_power rd, wch_channel := radio_channel rd,
          wch_active_ms := radio_active_ms rd, wch_busy_ms := radio_busy_ms rd,
          wch_receive_ms := radio_receive_ms rd \<rparr>)"

definition history_entry ::
  "'j nlohmann \<Rightarrow> InterfaceClientEntryMap \<Rightarrow> RadioTimePoint list \<Rightarrow> SSIDTimePoint \<Rightarrow> UETimePoint \<Rightarrow> 'j \<Rightarrow>
   WifiClientHistory act" where
  "history_entry L ICEM radio_data SSIDTP TP association = runs
     [assign (\<lambda>WFH. WFH \<lparr> wch_station_id := mac_filter (ue_station TP),
        wch_bssid := mac_filter (ssidtp_bssid SSIDTP), wch_ssid := ssidtp_ssid SSIDTP,
        wch_rssi := ue_rssi TP \<rparr>),
      GetJSON2 L (j_get_u32 L) ''rx_rate'' ''bitrate'' association wch_rx_bitrate_update 0,
      GetJSON2 L (j_get_u32 L) ''rx_rate'' ''chwidth'' association wch_rx_chwidth_update 0,
      GetJSON2 L (j_get_u16 L) ''rx_rate'' ''mcs'' association wch_rx_mcs_update 0,
      GetJSON2 L (j_get_u16 L) ''rx_rate'' ''nss'' association wch_rx_nss_update 0,
      GetJSON2 L (j_get_bool L) ''rx_rate'' ''vht'' association wch_rx_vht_update False,
      GetJSON2 L (j_get_u32 L) ''tx_rate'' ''bitrate'' association wch_tx_bitrate_update 0,
      GetJSON2 L (j_get_u32 L) ''tx_rate'' ''chwidth'' association wch_tx_chwidth_update 0,
      GetJSON2 L (j_get_u16 L) ''tx_rate'' ''mcs'' association wch_tx_mcs_update 0,
      GetJSON2 L (j_get_u16 L) ''tx_rate'' ''nss'' association wch_tx_nss_update 0,
      GetJSON2 L (j_get_bool L) ''tx_rate'' ''vht'' association wch_tx_vht_update False,
      GetJSON L (j_get_u64 L) ''rx_bytes'' association wch_rx_bytes_update 0,
      GetJSON L (j_get_u64 L) ''tx_bytes'' association wch_tx_bytes_update 0,
      GetJSON L (j_get_u64 L) ''rx_duration'' association wch_rx_duration_update 0,
      GetJSON L (j_get_u64 L) ''tx_duration'' association wch_tx_duration_update 0,
      GetJSON L (j_get_u64 L) ''rx_packets'' association wch_rx_packets_update 0,
      GetJSON L (j_get_u64 L) ''tx_packets'' association wch_tx_packets_update 0,
      assign (client_addresses ICEM),
      assign (client_radio radio_data (ssidtp_band SSIDTP)),
      assign (wch_mode_update (\<lambda>_. ssidtp_mode SSIDTP)),
      GetJSON L (j_get_i64 L) ''ack_signal'' association wch_ack_signal_update 0,
      GetJSON L (j_get_i64 L) ''ack_signal_avg'' association wch_ack_signal_avg_update 0,
      GetJSON L (j_get_u64 L) ''connected'' association wch_connected_update 0,
      GetJSON L (j_get_u64 L) ''inactive'' association wch_inactive_update 0,
      GetJSON L (j_get_u64 L) ''tx_retries'' association wch_tx_retries_update 0]"

text \<open>\<^verbatim>\<open>WifiClientCache()->AddSerialNumber\<close>, which may throw, then \<^verbatim>\<open>CreateRecord\<close>.\<close>

definition store_client :: "string \<Rightarrow> WifiClientHistory \<Rightarrow> ap_run act" where
  "store_client venue WFH s =
     (case AddSerialNumber (run_cache s) venue (wch_station_id WFH) of
        (c, Inl e) \<Rightarrow> (s \<lparr> run_cache := c \<rparr>, Some e)
      | (c, Inr _) \<Rightarrow> (s \<lparr> run_cache := c,
                         run_history := run_history s @ [WFH \<lparr> wch_venue_id := venue \<rparr>] \<rparr>, None))"

definition parse_tid :: "'j nlohmann \<Rightarrow> 'j \<Rightarrow> UETimePoint act" where
  "parse_tid L tid_stat =
     build (runs
       [GetJSON L (j_get_u64 L) ''rx_msdu'' tid_stat tid_rx_msdu_update 0,
        GetJSON L (j_get_u64 L) ''tx_msdu'' tid_stat tid_tx_msdu_update 0,
        GetJSON L (j_get_u64 L) ''tx_msdu_failed'' tid_stat tid_tx_msdu_failed_update 0,
        GetJSON L (j_get_u64 L) ''tx_msdu_retries'' tid_stat tid_tx_msdu_retries_update 0])
       TIDstat_entry_init (\<lambda>E. assign (ue_tidstats_update (\<lambda>l. l @ [E])))"

definition parse_rate :: "'j nlohmann \<Rightarrow> 'j \<Rightarrow> UE_rate act" where
  "parse_rate L rate = runs
     [GetJSON L (j_get_u64 L) ''bitrate'' rate rate_bitrate_update 0,
      GetJSON L (j_get_u64 L) ''mcs'' rate rate_mcs_update 0,
      GetJSON L (j_get_u64 L) ''nss'' rate rate_nss_update 0,
      GetJSON L (j_get_u64 L) ''chwidth'' rate rate_chwidth_update 0,
      GetJSON L (j_get_bool L) ''ht'' rate rate_ht_update False,
      GetJSON L (j_get_bool L) ''sgi'' rate rate_sgi_update False]"

definition ue_rest :: "'j nlohmann \<Rightarrow> 'j \<Rightarrow> UETimePoint act" where
  "ue_rest L association = runs
     [guarded (j_contains L association ''tid_stats'')
       (with_val (j_at_const L association ''tid_stats'') (\<lambda>tid_stats.
          guarded (j_is_array L tid_stats) (each (parse_tid L) (j_elems L tid_stats)))),
      guarded (j_contains L association ''tx_rate'')
       (with_val (j_at_const L association ''tx_rate'') (\<lambda>tx_rate.
          zoom ue_tx_rate ue_tx_rate_update (parse_rate L tx_rate))),
      guarded (j_contains L association ''rx_rate'')
       (with_val (j_at_const L association ''rx_rate'') (\<lambda>rx_rate.
          zoom ue_rx_rate ue_rx_rate_update (parse_rate L rx_rate)))]"

definition association_steps ::
  "'j nlohmann \<Rightarrow> string \<Rightarrow> u64 \<Rightarrow> InterfaceClientEntryMap \<Rightarrow> 'j \<Rightarrow> RadioTimePoint list \<Rightarrow> SSIDTimePoint \<Rightarrow>
   (ap_run \<times> SSIDTimePoint) act" where
  "association_steps L venue now ICEM association radio_data SSIDTP =
     build (ue_first L association) UETimePoint_init (\<lambda>TP.
     build (history_entry L ICEM radio_data SSIDTP TP association) (WifiClientHistory_init now) (\<lambda>WFH. runs
       [zoom fst (\<lambda>f (s, p). (f s, p)) (store_client venue WFH),
        build (ue_rest L association) TP (\<lambda>TP.
          assign (\<lambda>(s, p). (s, ssidtp_associations_update (\<lambda>l. l @ [TP]) p)))]))"

definition parse_association ::
  "'j nlohmann \<Rightarrow> string \<Rightarrow> u64 \<Rightarrow> InterfaceClientEntryMap \<Rightarrow> 'j \<Rightarrow> (ap_run \<times> SSIDTimePoint) act" where
  "parse_association L venue now ICEM association st =
     association_steps L venue now ICEM association (dtp_radio_data (run_DTP (fst st))) (snd st) st"

section \<open>The whole message\<close>

definition ssid_names :: "'j nlohmann \<Rightarrow> 'j \<Rightarrow> SSIDTimePoint act" where
  "ssid_names L ssid = runs
     [GetJSON L (j_get_string L) ''bssid'' ssid ssidtp_bssid_update [],
      GetJSON L (j_get_string L) ''mode'' ssid ssidtp_mode_update [],
      GetJSON L (j_get_string L) ''ssid'' ssid ssidtp_ssid_update []]"

definition parse_associations ::
  "'j nlohmann \<Rightarrow> string \<Rightarrow> u64 \<Rightarrow> radio_map \<Rightarrow> InterfaceClientEntryMap \<Rightarrow> u32 \<Rightarrow> 'j \<Rightarrow>
   (ap_run \<times> SSIDTimePoint) act" where
  "parse_associations L venue now radio_map ICEM radio_location ssid =
     guarded (j_contains L ssid ''associations'')
      (with_val (j_at_const L ssid ''associations'') (\<lambda>associations.
         guarded (j_is_array L associations) (runs
          [assign (\<lambda>(s, p). (run_DI_update (count_associations radio_map radio_location
                                (j_size L associations)) s, p)),
           each (parse_association L venue now ICEM) (j_elems L associations)])))"

definition ssid_point ::
  "'j nlohmann \<Rightarrow> string \<Rightarrow> u64 \<Rightarrow> radio_map \<Rightarrow> InterfaceClientEntryMap \<Rightarrow> u32 \<Rightarrow> 'j \<Rightarrow> SSIDTimePoint \<Rightarrow>
   ap_run act" where
  "ssid_point L venue now radio_map ICEM radio_location ssid SSIDTP s =
     (case parse_associations L venue now radio_map ICEM radio_location ssid (s, SSIDTP) of
        ((s, SSIDTP), Some e) \<Rightarrow> (s, Some e)
      | ((s, SSIDTP), None) \<Rightarrow> (run_DTP_update (dtp_ssid_data_update (\<lambda>l. l @ [SSIDTP])) s, None))"

definition parse_ssid ::
  "'j nlohmann \<Rightarrow> string \<Rightarrow> u64 \<Rightarrow> radio_map \<Rightarrow> InterfaceClientEntryMap \<Rightarrow> 'j \<Rightarrow> ap_run act" where
  "parse_ssid L venue now radio_map ICEM ssid =
     build (ssid_radio L radio_map ssid) (SSIDTimePoint_init \<lparr> ssidtp_band := 2 \<rparr>, 0)
      (\<lambda>(SSIDTP, radio_location).
         build (ssid_names L ssid) SSIDTP (ssid_point L venue now radio_map ICEM radio_location ssid))"

definition parse_interface ::
  "'j nlohmann \<Rightarrow> string \<Rightarrow> u64 \<Rightarrow> radio_map \<Rightarrow> 'j \<Rightarrow> ap_run act" where
  "parse_interface L venue now radio_map interface = runs
     [guarded (j_contains L interface ''name'')
       (with_val (bind (j_at_const L interface ''name'') (j_dump L)) (\<lambda>_. ok)),
      guarded (j_contains L interface ''counters'')
       (with_val (j_at_const L interface ''counters'') (\<lambda>counters.
          zoom (dtp_ap_data o run_DTP) (run_DTP_update o dtp_ap_data_update) (parse_counters L counters))),
      build (parse_clients L interface) [] (\<lambda>ICEM.
        guarded (j_contains L interface ''ssids'')
         (with_val (j_at_const L interface ''ssids'') (\<lambda>ssids.
            each (parse_ssid L venue now radio_map ICEM) (j_elems L ssids))))]"

definition parse_interfaces :: "'j nlohmann \<Rightarrow> string \<Rightarrow> u64 \<Rightarrow> radio_map \<Rightarrow> 'j \<Rightarrow> ap_run act" where
  "parse_interfaces L venue now radio_map State =
     with_val (j_at_mut L State ''interfaces'') (\<lambda>interfaces. runs
       [assign (run_DI_update (\<lambda>DI. DI \<lparr> di_associations_2g := 0, di_associations_5g := 0,
                                        di_associations_6g := 0 \<rparr>)),
        each (parse_interface L venue now radio_map) (j_elems L interfaces)])"

text \<open>The \<^verbatim>\<open>try\<close> block of \<^verbatim>\<open>UpdateStats\<close>.\<close>

definition radios_then_interfaces :: "'j nlohmann \<Rightarrow> string \<Rightarrow> u64 \<Rightarrow> 'j \<Rightarrow> ap_run act" where
  "radios_then_interfaces L venue now State s =
     (case parse_radios L State (s, [], 0) of
        ((s, radio_map, _), Some e) \<Rightarrow> (s, Some e)
      | ((s, radio_map, _), None) \<Rightarrow> parse_interfaces L venue now radio_map State s)"

definition parse_state :: "'j nlohmann \<Rightarrow> string \<Rightarrow> u64 \<Rightarrow> 'j \<Rightarrow> ap_run act" where
  "parse_state L venue now State = runs
     [parse_unit L State,
      assign (\<lambda>s. run_DTP_update (dtp_timestamp_update (\<lambda>_. di_lastState (run_DI s))) s),
      radios_then_interfaces L venue now State,
      assign (\<lambda>s. run_DTP_update (dtp_device_info_update (\<lambda>_. run_DI s)) s)]"

section \<open>What parsing leaves alone\<close>

text \<open>
  The identity of the device, its connected flag, and the device information embedded in the time
  point (assigned last) are not touched by any parsing step, whether it ends normally or not.
\<close>

definition untouched :: "string \<Rightarrow> bool \<Rightarrow> DeviceInfo \<Rightarrow> ap_run \<Rightarrow> bool" where
  "untouched serial conn info s \<longleftrightarrow> di_serialNumber (run_DI s) = serial \<and> di_connected (run_DI s) = conn
     \<and> dtp_device_info (run_DTP s) = info"

lemma keeps_parse_unit: "keeps (untouched sn cn i) (parse_unit L State)"
  unfolding parse_unit_def parse_memory_def
  by (intro keeps_intros) (auto simp: untouched_def intro!: keeps_intros)

lemma keeps_parse_radio: "keeps (untouched sn cn i o fst) (parse_radio L radio)"
  unfolding parse_radio_def
  by (intro keeps_intros) (auto simp: untouched_def intro!: keeps_intros)

lemma keeps_parse_radios: "keeps (untouched sn cn i o fst) (parse_radios L State)"
  unfolding parse_radios_def by (intro keeps_intros keeps_parse_radio)

lemma keeps_store_client: "keeps (untouched sn cn i) (store_client venue WFH)"
  by (auto simp: keeps_def store_client_def untouched_def split: prod.split sum.split)

lemma keeps_zoom_fst:
  assumes "keeps P a" shows "keeps (P o fst) (zoom fst (\<lambda>f (s, p). (f s, p)) a)"
  using assms by (auto simp: keeps_def zoom_def split: prod.split)

lemma keeps_association_steps:
  "keeps (untouched sn cn i o fst) (association_steps L venue now ICEM association rd p)"
  unfolding association_steps_def
  by (intro keeps_intros) (auto intro!: keeps_intros keeps_zoom_fst keeps_store_client)

lemma keeps_parse_association:
  "keeps (untouched sn cn i o fst) (parse_association L venue now ICEM association)"
  unfolding keeps_def parse_association_def
  by (intro allI impI) (rule keeps_association_steps[unfolded keeps_def, rule_format])

lemma keeps_parse_associations:
  "keeps (untouched sn cn i o fst) (parse_associations L venue now rm ICEM loc ssid)"
  unfolding parse_associations_def
  by (intro keeps_intros)
    (auto simp: untouched_def count_associations_def intro!: keeps_intros keeps_parse_association
      split: option.split)

lemma keeps_ssid_point: "keeps (untouched sn cn i) (ssid_point L venue now rm ICEM loc ssid p)"
  unfolding keeps_def
proof (intro allI impI)
  fix s assume s: "untouched sn cn i s"
  obtain s' p' e where r: "parse_associations L venue now rm ICEM loc ssid (s, p) = ((s', p'), e)"
    by (metis prod.collapse)
  have "untouched sn cn i s'"
    using keeps_parse_associations[of sn cn i L venue now rm ICEM loc ssid] s r
    by (auto simp: keeps_def) (metis fst_conv)
  then show "untouched sn cn i (fst (ssid_point L venue now rm ICEM loc ssid p s))"
    by (cases e) (auto simp: ssid_point_def r untouched_def)
qed

lemma keeps_parse_ssid: "keeps (untouched sn cn i) (parse_ssid L venue now rm ICEM ssid)"
  unfolding parse_ssid_def
  by (rule keeps_build) (auto split: prod.split intro: keeps_build keeps_ssid_point)

lemma keeps_parse_interfaces:
  "keeps (untouched sn cn i) (parse_interfaces L venue now rm State)"
  unfolding parse_interfaces_def parse_interface_def
  by (intro keeps_intros) (auto simp: untouched_def intro!: keeps_intros keeps_parse_ssid)

lemma keeps_radios_then_interfaces:
  "keeps (untouched sn cn i) (radios_then_interfaces L venue now State)"
  unfolding keeps_def
proof (intro allI impI)
  fix s assume s: "untouched sn cn i s"
  obtain s' m k e where r: "parse_radios L State (s, [], 0) = ((s', m, k), e)" by (metis prod.collapse)
  then have "untouched sn cn i s'"
    using keeps_parse_radios[of sn cn i L State] s by (auto simp: keeps_def) (metis fst_conv)
  then show "untouched sn cn i (fst (radios_then_interfaces L venue now State s))"
    using keeps_parse_interfaces[of sn cn i L venue now m State] r
    by (auto simp: keeps_def radios_then_interfaces_def split: option.split)
qed

lemma keeps_assign_timestamp:
  "keeps (untouched sn cn i) (assign (\<lambda>s. run_DTP_update (dtp_timestamp_update (\<lambda>_. di_lastState (run_DI s))) s))"
  by (intro keeps_intros) (simp add: untouched_def)

lemmas keeps_steps = keeps_parse_unit keeps_assign_timestamp keeps_radios_then_interfaces

text \<open>An exception leaves the embedded device information as it was.\<close>

lemma parse_state_throws:
  assumes "parse_state L venue now State s = (s', Some e)" "untouched sn cn i s"
  shows "untouched sn cn i s'"
proof -
  define a where "a = runs [parse_unit L State,
    assign (\<lambda>s. run_DTP_update (dtp_timestamp_update (\<lambda>_. di_lastState (run_DI s))) s),
    radios_then_interfaces L venue now State]"
  have "keeps (untouched sn cn i) a" unfolding a_def
    by (rule keeps_runs) (auto intro: keeps_steps)
  moreover have "a s = (s', Some e)"
    using assms(1) unfolding parse_state_def a_def
    by (auto split: prod.splits option.splits)
  ultimately show ?thesis using assms(2) by (metis fst_conv keeps_def)
qed

abbreviation same_device :: "string \<Rightarrow> bool \<Rightarrow> ap_run \<Rightarrow> bool" where
  "same_device sn cn s \<equiv> di_serialNumber (run_DI s) = sn \<and> di_connected (run_DI s) = cn"

lemma keeps_same_device: "(\<And>i. keeps (untouched sn cn i) a) \<Longrightarrow> keeps (same_device sn cn) a"
  by (auto simp: keeps_def untouched_def)

lemma keeps_parse_state: "keeps (same_device sn cn) (parse_state L venue now State)"
  unfolding parse_state_def
proof (rule keeps_runs)
  fix a assume "a \<in> set [parse_unit L State,
      assign (\<lambda>s. run_DTP_update (dtp_timestamp_update (\<lambda>_. di_lastState (run_DI s))) s),
      radios_then_interfaces L venue now State,
      assign (\<lambda>s. run_DTP_update (dtp_device_info_update (\<lambda>_. run_DI s)) s)]"
  moreover have "keeps (same_device sn cn)
      (assign (\<lambda>s. run_DTP_update (dtp_device_info_update (\<lambda>_. run_DI s)) s))"
    by (intro keeps_intros) simp
  ultimately show "keeps (same_device sn cn) a"
    by (auto intro!: keeps_same_device[OF keeps_parse_unit] keeps_same_device[OF keeps_assign_timestamp]
        keeps_same_device[OF keeps_radios_then_interfaces])
qed

end
