(* ===== verification/ApStats.thy ===== *)
theory ApStats
  imports ApParse
begin

text \<open>
  The access-point object of \<^verbatim>\<open>src/src/APStats.cpp\<close> and \<^verbatim>\<open>APStats.h\<close>: how a stats message becomes a stored time
  point (rates and differences against the previous message), and the connection and health
  messages.  The world is what the handlers change outside the object: the client cache, the
  records handed to the database and the table of availability events, whose statements may fail.
  \<^verbatim>\<open>Utils::Now()\<close> and the created UUID are arguments.
\<close>

record AP =
  AP_venue_id :: string
  AP_boardId :: string
  AP_DI :: DeviceInfo
  AP_tp_base :: DeviceTimePoint
  AP_got_health :: bool
  AP_got_connection :: bool
  AP_got_base :: bool

definition AP_init :: "u64 \<Rightarrow> string \<Rightarrow> string \<Rightarrow> AP" where
  "AP_init mac venue BoardId =
     \<lparr> AP_venue_id = venue, AP_boardId = BoardId,
       AP_DI = DeviceInfo_init \<lparr> di_serialNumber := IntToSerialNumber mac \<rparr>,
       AP_tp_base = DeviceTimePoint_init, AP_got_health = False, AP_got_connection = False,
       AP_got_base = False \<rparr>"

text \<open>\<open>w_events\<close> is the table of availability events, \<open>w_asked\<close> the number of statements run on it and \<open>w_down\<close> those
  that fail.\<close>

record world =
  w_cache :: client_cache
  w_history :: "WifiClientHistory list"
  w_points :: "DeviceTimePoint list"
  w_events :: "DeviceAvailabilityEvent list"
  w_asked :: nat
  w_down :: "nat \<Rightarrow> bool"

section \<open>Rates and differences\<close>

definition u64_double :: "u64 \<Rightarrow> fp" where
  "u64_double a = fp_of_nat binary64 (unat a)"

definition safe_div :: "u64 \<Rightarrow> u64 \<Rightarrow> fp" where
  "safe_div a b = (if b = 0 then Fin 0 else fp_div binary64 (u64_double a) (u64_double b))"

definition safe_pct :: "u64 \<Rightarrow> u64 \<Rightarrow> fp" where
  "safe_pct a b =
     (if b = 0 then Fin 0
      else fp_div binary64 (fp_mul binary64 (Fin 100) (u64_double a)) (u64_double b))"

definition find_ue :: "string \<Rightarrow> SSIDTimePoint list \<Rightarrow> UETimePoint option" where
  "find_ue station tps =
     find (\<lambda>association. ue_station association = station) (concat (map ssidtp_associations tps))"

definition Average :: "('m \<Rightarrow> fp) \<Rightarrow> 'm list \<Rightarrow> fp" where
  "Average T Values =
     (if Values \<noteq> []
      then fp_div binary64 (fold (\<lambda>v acc. fp_add binary64 acc (T v)) Values (Fin 0))
             (fp_of_nat binary64 (length Values))
      else Fin 0)"

definition new_connection :: "UETimePoint \<Rightarrow> UETimePoint \<Rightarrow> bool" where
  "new_connection Existing_UE new_association \<longleftrightarrow>
     ue_tx_packets new_association < ue_tx_packets Existing_UE \<or>
     ue_rx_packets new_association < ue_rx_packets Existing_UE \<or>
     ue_tx_bytes new_association < ue_tx_bytes Existing_UE \<or>
     ue_rx_bytes new_association < ue_rx_bytes Existing_UE \<or>
     ue_tx_failed new_association < ue_tx_failed Existing_UE"

definition ap_deltas :: "APTimePoint \<Rightarrow> APTimePoint \<Rightarrow> APTimePoint" where
  "ap_deltas base a = a
     \<lparr> ap_tx_bytes_delta := ap_tx_bytes a - ap_tx_bytes base,
       ap_rx_bytes_delta := ap_rx_bytes a - ap_rx_bytes base,
       ap_tx_packets_delta := ap_tx_packets a - ap_tx_packets base,
       ap_rx_packets_delta := ap_rx_packets a - ap_rx_packets base,
       ap_tx_dropped_delta := ap_tx_dropped a - ap_tx_dropped base,
       ap_rx_dropped_delta := ap_rx_dropped a - ap_rx_dropped base,
       ap_tx_errors_delta := ap_tx_errors a - ap_tx_errors base,
       ap_rx_errors_delta := ap_rx_errors a - ap_rx_errors base \<rparr>"

definition ap_rates :: "u64 \<Rightarrow> APTimePoint \<Rightarrow> APTimePoint" where
  "ap_rates time_lapse a = a
     \<lparr> ap_tx_bytes_bw := safe_div (ap_tx_bytes_delta a) time_lapse,
       ap_rx_bytes_bw := safe_div (ap_rx_bytes_delta a) time_lapse,
       ap_tx_packets_bw := safe_div (ap_tx_packets_delta a) time_lapse,
       ap_rx_packets_bw := safe_div (ap_rx_packets_delta a) time_lapse,
       ap_tx_dropped_pct := safe_pct (ap_tx_dropped_delta a) (ap_tx_packets a),
       ap_rx_dropped_pct := safe_pct (ap_rx_dropped_delta a) (ap_rx_packets a),
       ap_tx_errors_pct := safe_pct (ap_tx_errors_delta a) (ap_tx_packets a),
       ap_rx_errors_pct := safe_pct (ap_rx_errors_delta a) (ap_rx_packets a) \<rparr>"

definition radio_pcts :: "u64 \<Rightarrow> RadioTimePoint \<Rightarrow> RadioTimePoint \<Rightarrow> RadioTimePoint" where
  "radio_pcts time_lapse base r = r
     \<lparr> radio_active_pct := safe_pct ((radio_active_ms r - radio_active_ms base) div 1000) time_lapse,
       radio_busy_pct := safe_pct ((radio_busy_ms r - radio_busy_ms base) div 1000) time_lapse,
       radio_receive_pct := safe_pct ((radio_receive_ms r - radio_receive_ms base) div 1000) time_lapse,
       radio_transmit_pct := safe_pct ((radio_transmit_ms r - radio_transmit_ms base) div 1000) time_lapse \<rparr>"

text \<open>Every radio of the base on the same channel is used: the last one wins.\<close>

definition radio_update :: "u64 \<Rightarrow> RadioTimePoint list \<Rightarrow> RadioTimePoint \<Rightarrow> RadioTimePoint" where
  "radio_update time_lapse bases radio =
     (case fold (\<lambda>base_radio (found, r).
             if radio_channel r = radio_channel base_radio then (True, radio_pcts time_lapse base_radio r)
             else (found, r)) bases (False, radio) of
        (True, r) \<Rightarrow> r
      | (False, r) \<Rightarrow> r
          \<lparr> radio_active_pct := safe_pct (radio_active_ms r div 1000) time_lapse,
            radio_busy_pct := safe_pct (radio_busy_ms r div 1000) time_lapse,
            radio_receive_pct := safe_pct (radio_receive_ms r div 1000) time_lapse,
            radio_transmit_pct := safe_pct (radio_transmit_ms r div 1000) time_lapse \<rparr>)"

definition ue_deltas :: "SSIDTimePoint list \<Rightarrow> UETimePoint \<Rightarrow> UETimePoint" where
  "ue_deltas base_ssids a =
     (case find_ue (ue_station a) base_ssids of
        Some ue_tp \<Rightarrow>
          if \<not> new_connection ue_tp a then a
            \<lparr> ue_tx_bytes_delta := ue_tx_bytes a - ue_tx_bytes ue_tp,
              ue_rx_bytes_delta := ue_rx_bytes a - ue_rx_bytes ue_tp,
              ue_tx_packets_delta := ue_tx_packets a - ue_tx_packets ue_tp,
              ue_rx_packets_delta := ue_rx_packets a - ue_rx_packets ue_tp,
              ue_tx_failed_delta := ue_tx_failed a - ue_tx_failed ue_tp,
              ue_tx_retries_delta := ue_tx_retries a - ue_tx_retries ue_tp,
              ue_tx_duration_delta := ue_tx_duration a - ue_tx_duration ue_tp \<rparr>
          else a
            \<lparr> ue_tx_bytes_delta := ue_tx_bytes a, ue_rx_bytes_delta := ue_rx_bytes a,
              ue_tx_packets_delta := ue_tx_packets a, ue_rx_packets_delta := ue_rx_packets a,
              ue_tx_failed_delta := ue_tx_failed a, ue_tx_retries_delta := ue_tx_retries a,
              ue_tx_duration_delta := ue_tx_duration a \<rparr>
      | None \<Rightarrow> a
            \<lparr> ue_tx_bytes_delta := ue_tx_bytes a, ue_rx_bytes_delta := ue_rx_bytes a,
              ue_tx_packets_delta := ue_tx_packets a, ue_rx_packets_delta := ue_rx_packets a,
              ue_tx_failed_delta := ue_tx_failed a, ue_tx_retries_delta := ue_tx_retries a,
              ue_tx_duration_delta := ue_tx_duration a \<rparr>)"

definition ue_rates :: "u64 \<Rightarrow> UETimePoint \<Rightarrow> UETimePoint" where
  "ue_rates time_lapse a = a
     \<lparr> ue_tx_bytes_bw := safe_div (ue_tx_bytes_delta a) time_lapse,
       ue_rx_bytes_bw := safe_div (ue_rx_bytes_delta a) time_lapse,
       ue_tx_packets_bw := safe_div (ue_tx_packets_delta a) time_lapse,
       ue_rx_packets_bw := safe_div (ue_rx_packets_delta a) time_lapse,
       ue_tx_failed_pct := safe_pct (ue_tx_failed_delta a) (ue_tx_packets a),
       ue_tx_retries_pct := safe_pct (ue_tx_retries_delta a) (ue_tx_packets a),
       ue_tx_duration_pct := safe_pct (ue_tx_duration_delta a div 1000000) time_lapse \<rparr>"

definition std_max :: "fp \<Rightarrow> fp \<Rightarrow> fp" where
  "std_max a b = (if fp_less a b then b else a)"

definition std_min :: "fp \<Rightarrow> fp \<Rightarrow> fp" where
  "std_min a b = (if fp_less b a then b else a)"

definition widen :: "fp \<Rightarrow> AveragePoint \<Rightarrow> AveragePoint" where
  "widen v p = p \<lparr> pt_max := std_max (pt_max p) v, pt_min := std_min (pt_min p) v \<rparr>"

definition ssid_widen :: "UETimePoint \<Rightarrow> SSIDTimePoint \<Rightarrow> SSIDTimePoint" where
  "ssid_widen a s = s
     \<lparr> ssidtp_tx_failed_pct := widen (ue_tx_failed_pct a) (ssidtp_tx_failed_pct s),
       ssidtp_tx_retries_pct := widen (ue_tx_retries_pct a) (ssidtp_tx_retries_pct s),
       ssidtp_tx_duration_pct := widen (ue_tx_duration_pct a) (ssidtp_tx_duration_pct s),
       ssidtp_tx_bytes_bw := widen (ue_tx_bytes_bw a) (ssidtp_tx_bytes_bw s),
       ssidtp_rx_bytes_bw := widen (ue_rx_bytes_bw a) (ssidtp_rx_bytes_bw s),
       ssidtp_tx_packets_bw := widen (ue_tx_packets_bw a) (ssidtp_tx_packets_bw s),
       ssidtp_rx_packets_bw := widen (ue_rx_packets_bw a) (ssidtp_rx_packets_bw s) \<rparr>"

definition ssid_averages :: "SSIDTimePoint \<Rightarrow> SSIDTimePoint" where
  "ssid_averages s = s
     \<lparr> ssidtp_tx_bytes_bw := (ssidtp_tx_bytes_bw s) \<lparr> pt_avg := Average ue_tx_bytes_bw (ssidtp_associations s) \<rparr>,
       ssidtp_rx_bytes_bw := (ssidtp_rx_bytes_bw s) \<lparr> pt_avg := Average ue_rx_bytes_bw (ssidtp_associations s) \<rparr>,
       ssidtp_tx_packets_bw := (ssidtp_tx_packets_bw s) \<lparr> pt_avg := Average ue_tx_packets_bw (ssidtp_associations s) \<rparr>,
       ssidtp_rx_packets_bw := (ssidtp_rx_packets_bw s) \<lparr> pt_avg := Average ue_rx_packets_bw (ssidtp_associations s) \<rparr>,
       ssidtp_tx_failed_pct := (ssidtp_tx_failed_pct s) \<lparr> pt_avg := Average ue_tx_failed_pct (ssidtp_associations s) \<rparr>,
       ssidtp_tx_retries_pct := (ssidtp_tx_retries_pct s) \<lparr> pt_avg := Average ue_tx_retries_pct (ssidtp_associations s) \<rparr>,
       ssidtp_tx_duration_pct := (ssidtp_tx_duration_pct s) \<lparr> pt_avg := Average ue_tx_duration_pct (ssidtp_associations s) \<rparr> \<rparr>"

definition ssid_update :: "u64 \<Rightarrow> SSIDTimePoint list \<Rightarrow> SSIDTimePoint \<Rightarrow> SSIDTimePoint" where
  "ssid_update time_lapse base_ssids ssid =
     (let as = map (\<lambda>a. ue_rates time_lapse (ue_deltas base_ssids a)) (ssidtp_associations ssid)
      in ssid_averages (fold ssid_widen as (ssid \<lparr> ssidtp_associations := as \<rparr>)))"

definition time_lapse :: "DeviceTimePoint \<Rightarrow> DeviceTimePoint \<Rightarrow> u64" where
  "time_lapse base DTP =
     (let t = dtp_timestamp DTP - dtp_timestamp base in if t = 0 then 1 else t)"

definition db_point :: "DeviceTimePoint \<Rightarrow> DeviceTimePoint \<Rightarrow> DeviceTimePoint" where
  "db_point base DTP =
     (let t = time_lapse base DTP
      in DTP \<lparr> dtp_ap_data := ap_rates t (ap_deltas (dtp_ap_data base) (dtp_ap_data DTP)),
               dtp_radio_data := map (radio_update t (dtp_radio_data base)) (dtp_radio_data DTP),
               dtp_ssid_data := map (ssid_update t (dtp_ssid_data base)) (dtp_ssid_data DTP) \<rparr>)"

section \<open>Messages\<close>

definition stamp_point :: "string \<Rightarrow> AP \<Rightarrow> DeviceTimePoint \<Rightarrow> DeviceTimePoint" where
  "stamp_point uuid A p =
     p \<lparr> dtp_id := uuid, dtp_boardId := AP_boardId A, dtp_venueId := AP_venue_id A,
         dtp_serialNumber := di_serialNumber (dtp_device_info p) \<rparr>"

text \<open>After the parsing: what \<^verbatim>\<open>UpdateStats\<close> does with the time point.\<close>

definition keep_point :: "string \<Rightarrow> DeviceTimePoint \<Rightarrow> AP \<times> world \<Rightarrow> AP \<times> world" where
  "keep_point uuid DTP st =
     (case st of (A, w) \<Rightarrow>
        if AP_got_base A then
          (let db_DTP = db_point (AP_tp_base A) DTP;
               w = (if AP_got_connection A \<and> AP_got_health A
                    then w \<lparr> w_points := w_points w @ [stamp_point uuid A db_DTP] \<rparr> else w)
           in (A \<lparr> AP_tp_base := DTP \<rparr>, w))
        else (A \<lparr> AP_tp_base := DTP, AP_got_base := True \<rparr>, w))"

definition UpdateStats :: "'j nlohmann \<Rightarrow> u64 \<Rightarrow> string \<Rightarrow> 'j \<Rightarrow> (AP \<times> world) act" where
  "UpdateStats L now uuid State st =
     (case st of (A, w) \<Rightarrow>
        let DI = (AP_DI A) \<lparr> di_states := di_states (AP_DI A) + 1, di_connected := True \<rparr>
        in case catch_all (parse_state L (AP_venue_id A) now State)
                  \<lparr> run_DI = DI, run_DTP = DeviceTimePoint_init, run_cache = w_cache w,
                    run_history = w_history w \<rparr> of
             (run, e) \<Rightarrow>
               let st = (A \<lparr> AP_DI := run_DI run \<rparr>,
                         w \<lparr> w_cache := run_cache run, w_history := run_history run \<rparr>)
               in case e of Some e \<Rightarrow> (st, Some e)
                          | None \<Rightarrow> (keep_point uuid (run_DTP run) st, None))"

definition BuildAvailabilityIdempotencyKey :: "'j nlohmann \<Rightarrow> string \<Rightarrow> 'j \<Rightarrow> u64 \<Rightarrow> string" where
  "BuildAvailabilityIdempotencyKey L SerialNumber Disconnection EventTime =
     (let SourceEventId = GetOptionalStringJSON L ''uuid'' Disconnection
      in if SourceEventId \<noteq> []
         then fmt_format L ''availability:{}:offline:uuid:{}'' [SerialNumber, SourceEventId]
         else fmt_format L ''availability:{}:offline:timestamp:{}'' [SerialNumber, dec_string (unat EventTime)])"

definition offline_event :: "'j nlohmann \<Rightarrow> string \<Rightarrow> string \<Rightarrow> DeviceInfo \<Rightarrow> 'j \<Rightarrow> u64 \<Rightarrow> DeviceAvailabilityEvent" where
  "offline_event L uuid BoardId Device Disconnection EventTime =
     \<lparr> dae_id = uuid, dae_board_id = BoardId, dae_serialNumber = di_serialNumber Device,
       dae_event_type = ''offline'', dae_event_time = EventTime,
       dae_reason = GetOptionalStringJSON L ''reason'' Disconnection,
       dae_connection_ip = (let ip = GetOptionalStringJSON L ''connectionIp'' Disconnection
                            in if ip = [] then di_connectionIp Device else ip),
       dae_session_id = (let sid = GetOptionalStringJSON L ''session_id'' Disconnection
                         in if sid = [] then GetOptionalStringJSON L ''sessionId'' Disconnection else sid),
       dae_event_id = GetOptionalStringJSON L ''uuid'' Disconnection,
       dae_idempotency_key =
         BuildAvailabilityIdempotencyKey L (di_serialNumber Device) Disconnection EventTime \<rparr>"

text \<open>\<^verbatim>\<open>Exists("idempotency_key", key)\<close> answers false when the query fails; \<^verbatim>\<open>CreateRecord\<close> fails when the statement
  does, and when the id or the key is taken: the id is the primary key, and \<^verbatim>\<open>Upgrade\<close> makes the idempotency key unique.\<close>

definition Events_Exists :: "string \<Rightarrow> world \<Rightarrow> world \<times> bool" where
  "Events_Exists key w =
     (w \<lparr> w_asked := w_asked w + 1 \<rparr>,
      \<not> w_down w (w_asked w) \<and> key \<in> dae_idempotency_key ` set (w_events w))"

definition Events_CreateRecord :: "DeviceAvailabilityEvent \<Rightarrow> world \<Rightarrow> world \<times> bool" where
  "Events_CreateRecord Event w =
     (let w' = w \<lparr> w_asked := w_asked w + 1 \<rparr>
      in if w_down w (w_asked w) \<or> dae_id Event \<in> dae_id ` set (w_events w)
            \<or> dae_idempotency_key Event \<in> dae_idempotency_key ` set (w_events w)
         then (w', False)
         else (w' \<lparr> w_events := w_events w @ [Event] \<rparr>, True))"

definition CreateEventIfAbsent :: "DeviceAvailabilityEvent \<Rightarrow> world \<Rightarrow> world \<times> bool" where
  "CreateEventIfAbsent Event w =
     (if dae_idempotency_key Event = [] then (w, False)
      else case Events_Exists (dae_idempotency_key Event) w of
             (w, True) \<Rightarrow> (w, True)
           | (w, False) \<Rightarrow>
               (case Events_CreateRecord Event w of
                  (w, True) \<Rightarrow> (w, True)
                | (w, False) \<Rightarrow> Events_Exists (dae_idempotency_key Event) w))"

text \<open>A failure to store the event is only logged.\<close>

definition PersistOfflineAvailabilityTransition ::
  "'j nlohmann \<Rightarrow> string \<Rightarrow> string \<Rightarrow> DeviceInfo \<Rightarrow> 'j \<Rightarrow> world act" where
  "PersistOfflineAvailabilityTransition L uuid BoardId Device Disconnection =
     guarded (di_connected Device)
      (with_val (GetJSON_val L (j_get_u64 L) ''timestamp'' Disconnection 0) (\<lambda>EventTime.
         if EventTime = 0 then ok
         else assign (\<lambda>w. fst (CreateEventIfAbsent (offline_event L uuid BoardId Device Disconnection EventTime) w))))"

abbreviation upd_DI :: "(DeviceInfo \<Rightarrow> DeviceInfo) \<Rightarrow> AP \<times> world \<Rightarrow> AP \<times> world" where
  "upd_DI f \<equiv> apfst (AP_DI_update f)"

definition firmware_step :: "'j nlohmann \<Rightarrow> u64 \<Rightarrow> 'j \<Rightarrow> (AP \<times> world) act" where
  "firmware_step L now doc =
     guarded (j_contains L doc ''firmware'')
      (with_val (j_at_mut L doc ''firmware'') (\<lambda>NewFirmware st.
         guarded (j_differs L NewFirmware (di_lastFirmware (AP_DI (fst st))))
          (with_val (j_get_string L NewFirmware) (\<lambda>t.
             assign (upd_DI (\<lambda>DI. DI \<lparr> di_lastFirmware := t, di_lastFirmwareUpdate := now \<rparr>)))) st))"

definition ping_step :: "'j nlohmann \<Rightarrow> u64 \<Rightarrow> 'j \<Rightarrow> (AP \<times> world) act" where
  "ping_step L now Connection = runs
     [assign (apfst (\<lambda>A. A \<lparr> AP_got_connection := True \<rparr>)),
      assign (upd_DI (\<lambda>DI. DI \<lparr> di_connected := True, di_lastPing := now \<rparr>)),
      with_val (j_at_mut L Connection ''ping'') (\<lambda>ping. runs
        [GetJSON L (j_get_string L) ''compatible'' ping (upd_DI o di_deviceType_update) [],
         GetJSON L (j_get_string L) ''platform'' ping (upd_DI o di_platform_update) [],
         GetJSON L (j_get_string L) ''connectionIp'' ping (upd_DI o di_connectionIp_update) [],
         GetJSON L (j_get_string L) ''locale'' ping (upd_DI o di_locale_update) [],
         GetJSON L (j_get_u64 L) ''timestamp'' ping (upd_DI o di_lastConnection_update) now,
         firmware_step L now ping])]"

definition disconnection_step :: "'j nlohmann \<Rightarrow> string \<Rightarrow> 'j \<Rightarrow> (AP \<times> world) act" where
  "disconnection_step L uuid Connection =
     with_val (j_at_mut L Connection ''disconnection'') (\<lambda>Disconnection. runs
       [GetJSON L (j_get_u64 L) ''timestamp'' Disconnection (upd_DI o di_lastDisconnection_update) 0,
        (\<lambda>st. zoom snd apsnd (PersistOfflineAvailabilityTransition L uuid (AP_boardId (fst st))
                                (AP_DI (fst st)) Disconnection) st),
        assign (apfst (\<lambda>A. A \<lparr> AP_got_base := False, AP_got_health := False, AP_got_connection := False \<rparr>)),
        assign (upd_DI (\<lambda>DI. DI \<lparr> di_connected := False \<rparr>))])"

definition capabilities_step :: "'j nlohmann \<Rightarrow> u64 \<Rightarrow> 'j \<Rightarrow> (AP \<times> world) act" where
  "capabilities_step L now Connection = runs
     [assign (apfst (\<lambda>A. A \<lparr> AP_got_connection := True \<rparr>)),
      assign (upd_DI (\<lambda>DI. DI \<lparr> di_connected := True, di_lastConnection := now \<rparr>)),
      with_val (j_at_mut L Connection ''capabilities'') (\<lambda>ConnectionData. runs
        [GetJSON L (j_get_string L) ''compatible'' ConnectionData (upd_DI o di_deviceType_update) [],
         GetJSON L (j_get_string L) ''platform'' ConnectionData (upd_DI o di_platform_update) [],
         firmware_step L now ConnectionData,
         GetJSON L (j_get_string L) ''connectionIp'' ConnectionData (upd_DI o di_connectionIp_update) [],
         GetJSON L (j_get_string L) ''locale'' ConnectionData (upd_DI o di_locale_update) []])]"

definition UpdateConnection :: "'j nlohmann \<Rightarrow> u64 \<Rightarrow> string \<Rightarrow> 'j \<Rightarrow> (AP \<times> world) act" where
  "UpdateConnection L now uuid Connection = runs
     [assign (upd_DI (\<lambda>DI. DI \<lparr> di_pings := di_pings DI + 1, di_lastContact := now \<rparr>)),
      catch_all
       (if j_contains L Connection ''ping'' then ping_step L now Connection
        else if j_contains L Connection ''disconnection'' then disconnection_step L uuid Connection
        else if j_contains L Connection ''capabilities'' then capabilities_step L now Connection
        else ok)]"

definition UpdateHealth :: "'j nlohmann \<Rightarrow> 'j \<Rightarrow> (AP \<times> world) act" where
  "UpdateHealth L Health =
     catch_all (runs
      [assign (apfst (\<lambda>A. A \<lparr> AP_got_health := True \<rparr>)),
       GetJSON L (j_get_u64 L) ''timestamp'' Health (upd_DI o di_lastHealth_update) 0,
       GetJSON L (j_get_u64 L) ''sanity'' Health (upd_DI o di_health_update) 0])"

section \<open>Association counters never wrap\<close>

definition counters :: "UETimePoint \<Rightarrow> u64 list" where
  "counters a = [ue_tx_bytes a, ue_rx_bytes a, ue_tx_packets a, ue_rx_packets a, ue_tx_failed a]"

definition counter_deltas :: "UETimePoint \<Rightarrow> u64 list" where
  "counter_deltas a = [ue_tx_bytes_delta a, ue_rx_bytes_delta a, ue_tx_packets_delta a,
     ue_rx_packets_delta a, ue_tx_failed_delta a]"

text \<open>What the station's counters are measured against: the values of the previous message, or zero for
  a station that was not in it or has reconnected since.\<close>

definition counters_before :: "SSIDTimePoint list \<Rightarrow> UETimePoint \<Rightarrow> u64 list" where
  "counters_before base a =
     (case find_ue (ue_station a) base of
        Some b \<Rightarrow> if list_all2 (\<le>) (counters b) (counters a) then counters b else replicate 5 0
      | None \<Rightarrow> replicate 5 0)"

lemma new_connection_iff: "new_connection b a \<longleftrightarrow> \<not> list_all2 (\<le>) (counters b) (counters a)"
  by (auto simp: new_connection_def counters_def)

lemma ue_deltas_counters:
  "counter_deltas (ue_deltas base a) = map2 (-) (counters a) (counters_before base a)"
  "list_all2 (\<le>) (counters_before base a) (counters a)"
  "counters (ue_deltas base a) = counters a" "ue_station (ue_deltas base a) = ue_station a"
proof -
  have z: "replicate 5 (0 :: u64) = [0, 0, 0, 0, 0]" by (simp add: numeral_eq_Suc)
  show "counter_deltas (ue_deltas base a) = map2 (-) (counters a) (counters_before base a)"
    "list_all2 (\<le>) (counters_before base a) (counters a)"
    "counters (ue_deltas base a) = counters a" "ue_station (ue_deltas base a) = ue_station a"
    by (cases "find_ue (ue_station a) base";
        auto simp: ue_deltas_def counter_deltas_def counters_before_def new_connection_iff z;
        auto simp: counters_def)+
qed

lemma ue_rates_counters:
  "counter_deltas (ue_rates t a) = counter_deltas a" "ue_station (ue_rates t a) = ue_station a"
  by (simp_all add: ue_rates_def counter_deltas_def)

lemma fold_ssid_widen_associations:
  "ssidtp_associations (fold ssid_widen as s) = ssidtp_associations s"
  by (induction as arbitrary: s) (auto simp: ssid_widen_def)

lemma ssid_update_associations:
  "ssidtp_associations (ssid_update t base s)
     = map (\<lambda>a. ue_rates t (ue_deltas base a)) (ssidtp_associations s)"
  by (simp add: ssid_update_def Let_def ssid_averages_def fold_ssid_widen_associations)

definition exact_delta :: "u64 list \<Rightarrow> u64 list \<Rightarrow> u64 list \<Rightarrow> bool" where
  "exact_delta before now d \<longleftrightarrow> length d = 5 \<and> length before = 5 \<and> length now = 5
     \<and> (\<forall>i < 5. unat (now ! i) = unat (before ! i) + unat (d ! i))"

lemma exact_delta_counters:
  "exact_delta (counters_before base a) (counters a) (counter_deltas (ue_deltas base a))"
proof -
  have le: "list_all2 (\<le>) (counters_before base a) (counters a)" by (rule ue_deltas_counters)
  then have len: "length (counters_before base a) = 5" by (auto dest: list_all2_lengthD simp: counters_def)
  have "unat (counters a ! i) = unat (counters_before base a ! i)
      + unat (counters a ! i - counters_before base a ! i)" if "i < 5" for i
    using list_all2_nthD[OF le, of i] that len by (simp add: unat_sub word_le_nat_alt)
  then show ?thesis
    unfolding exact_delta_def ue_deltas_counters(1) using len by (simp add: counters_def)
qed

text \<open>Retries and air time are not among the counters that are compared: they are subtracted as they are.\<close>

definition untested :: "UETimePoint \<Rightarrow> u64 list" where
  "untested a = [ue_tx_retries a, ue_tx_duration a]"

definition untested_deltas :: "UETimePoint \<Rightarrow> u64 list" where
  "untested_deltas a = [ue_tx_retries_delta a, ue_tx_duration_delta a]"

definition untested_before :: "SSIDTimePoint list \<Rightarrow> UETimePoint \<Rightarrow> u64 list" where
  "untested_before base a =
     (case find_ue (ue_station a) base of
        Some b \<Rightarrow> if list_all2 (\<le>) (counters b) (counters a) then untested b else [0, 0]
      | None \<Rightarrow> [0, 0])"

definition wrapping_delta :: "u64 list \<Rightarrow> u64 list \<Rightarrow> u64 list \<Rightarrow> bool" where
  "wrapping_delta before now d \<longleftrightarrow>
     list_all2 (\<lambda>(x, y) z. unat z = (if x \<le> y then unat y - unat x else 2 ^ 64 - (unat x - unat y))) (zip before now) d"

lemma ue_deltas_untested:
  "untested_deltas (ue_deltas base a) = map2 (-) (untested a) (untested_before base a)"
  by (cases "find_ue (ue_station a) base")
    (auto simp: ue_deltas_def untested_deltas_def untested_before_def new_connection_iff untested_def)

lemma wrapping_delta_untested:
  "wrapping_delta (untested_before base a) (untested a) (untested_deltas (ue_rates t (ue_deltas base a)))"
proof -
  have r: "untested_deltas (ue_rates t c) = untested_deltas c" for c by (simp add: ue_rates_def untested_deltas_def)
  have m: "unat (y - x) = (if x \<le> y then unat y - unat x else 2 ^ 64 - (unat x - unat y))" for x y :: u64
    using unsigned_less[of x, where ?'a = nat] by (auto simp: unat_sub_if_size word_size word_le_nat_alt)
  have "\<exists>x y. untested_before base a = [x, y]"
    by (cases "find_ue (ue_station a) base") (auto simp: untested_before_def untested_def)
  then obtain x y where xy: "untested_before base a = [x, y]" by blast
  show ?thesis unfolding r ue_deltas_untested xy by (simp add: wrapping_delta_def untested_def m)
qed

text \<open>
  C4: In a time point built for the database, the byte, packet and failure differences of every
  association are exact: each of these five counters is its previous value plus the difference, without
  wrap-around, where the previous value is that of the station in the last message if none of the five has gone
  down, and zero otherwise.  The differences of retries and air time are subtracted from the same message
  without being compared: one that has gone down while the five have not gives a difference near 2^64.
  Stations, SSIDs and their order are those of the message.
\<close>

theorem db_point_deltas_exact:
  "map (\<lambda>s. map ue_station (ssidtp_associations s)) (dtp_ssid_data (db_point base DTP))
     = map (\<lambda>s. map ue_station (ssidtp_associations s)) (dtp_ssid_data DTP)
   \<and> list_all2 (\<lambda>s s'. list_all2 (\<lambda>a a'.
        exact_delta (counters_before (dtp_ssid_data base) a) (counters a) (counter_deltas a')
        \<and> wrapping_delta (untested_before (dtp_ssid_data base) a) (untested a) (untested_deltas a'))
        (ssidtp_associations s) (ssidtp_associations s'))
      (dtp_ssid_data DTP) (dtp_ssid_data (db_point base DTP))"
  by (simp add: db_point_def Let_def ssid_update_associations o_def ue_rates_counters wrapping_delta_untested
      ue_deltas_counters exact_delta_counters[unfolded ue_deltas_counters(1)] list.rel_map list_all2_same)

text \<open>A station that has sent 50 bytes more while its retries fell from 10 to 3.\<close>

definition one_station :: "u64 \<Rightarrow> u64 \<Rightarrow> DeviceTimePoint" where
  "one_station sent retries = DeviceTimePoint_init \<lparr> dtp_ssid_data := [SSIDTimePoint_init
     \<lparr> ssidtp_associations := [UETimePoint_init \<lparr> ue_tx_bytes := sent, ue_tx_retries := retries \<rparr>] \<rparr>] \<rparr>"

lemma db_point_deltas_exact_witness:
  "\<exists>s a. dtp_ssid_data (db_point (one_station 100 10) (one_station 150 3)) = [s] \<and> ssidtp_associations s = [a]
     \<and> ue_tx_bytes_delta a = 50 \<and> ue_tx_retries_delta a = - 7"
proof -
  let ?B = "one_station 100 10" and ?D = "one_station 150 3"
  define u where "u = UETimePoint_init \<lparr> ue_tx_bytes := 150, ue_tx_retries := 3 \<rparr>"
  define s0 where "s0 = SSIDTimePoint_init \<lparr> ssidtp_associations := [u] \<rparr>"
  have D: "dtp_ssid_data ?D = [s0]" "ssidtp_associations s0 = [u]"
    by (simp_all add: one_station_def s0_def u_def)
  have b: "counters_before (dtp_ssid_data ?B) u = [100, 0, 0, 0, 0]" "untested_before (dtp_ssid_data ?B) u = [10, 0]"
    "counters u = [150, 0, 0, 0, 0]" "untested u = [3, 0]"
    by (simp_all add: counters_before_def untested_before_def one_station_def u_def find_ue_def counters_def untested_def
        UETimePoint_init_def)
  from db_point_deltas_exact[of ?B ?D, THEN conjunct2] obtain s a where r:
    "dtp_ssid_data (db_point ?B ?D) = [s]" "ssidtp_associations s = [a]"
    "exact_delta [100, 0, 0, 0, 0] [150, 0, 0, 0, 0] (counter_deltas a)" "wrapping_delta [10, 0] [3, 0] (untested_deltas a)"
    by (auto simp: D list_all2_Cons1 b)
  have "unat (ue_tx_bytes_delta a) = 50"
    using r(3) unfolding exact_delta_def by (elim conjE allE[of _ 0]) (simp add: counter_deltas_def)
  moreover have "unat (ue_tx_retries_delta a) = unat (- 7 :: u64)"
    using r(4) by (simp add: wrapping_delta_def untested_deltas_def)
  ultimately have "ue_tx_bytes_delta a = 50" "ue_tx_retries_delta a = - 7" by (simp_all add: word_unat_eq_iff)
  with r show ?thesis by blast
qed

section \<open>A message that does not parse\<close>

text \<open>
  C37: When the parsing of a stats message throws, the handler still goes on with what was parsed: for an
  access point that is reporting (base, connection and health seen) it stores a time point that has no
  serial number and default device information, and the partial point becomes the new base.
\<close>

theorem UpdateStats_parse_error:
  assumes "parse_state L (AP_venue_id A) now State
      \<lparr> run_DI = (AP_DI A) \<lparr> di_states := di_states (AP_DI A) + 1, di_connected := True \<rparr>,
        run_DTP = DeviceTimePoint_init, run_cache = w_cache w, run_history = w_history w \<rparr> = (run, Some e)"
    and "e \<noteq> Undefined" and "AP_got_base A" "AP_got_connection A" "AP_got_health A"
  shows "\<exists>A' w' p. UpdateStats L now uuid State (A, w) = ((A', w'), None)
      \<and> w_points w' = w_points w @ [p] \<and> dtp_serialNumber p = [] \<and> dtp_device_info p = DeviceInfo_init
      \<and> AP_tp_base A' = run_DTP run"
proof -
  have "dtp_device_info (run_DTP run) = DeviceInfo_init"
    using parse_state_throws[OF assms(1), of "di_serialNumber (AP_DI A)" True DeviceInfo_init]
    by (simp add: untouched_def DeviceTimePoint_init_def)
  then show ?thesis
    using assms
    by (cases e)
      (simp_all add: UpdateStats_def catch_all_def keep_point_def stamp_point_def db_point_def Let_def
        DeviceInfo_init_def)
qed

definition no_json :: "unit nlohmann" where
  "no_json = \<lparr> j_contains = \<lambda>_ _. False, j_at_const = \<lambda>_ _. Inl Type_error, j_at_mut = \<lambda>_ _. Inl Type_error,
     j_is_null = \<lambda>_. False, j_is_string = \<lambda>_. False, j_is_array = \<lambda>_. False, j_is_number = \<lambda>_. False,
     j_is_number_unsigned = \<lambda>_. False, j_is_number_integer = \<lambda>_. False, j_elems = \<lambda>_. [],
     j_size = \<lambda>_. 0, j_front = \<lambda>_. Inl Type_error, j_get_u64 = \<lambda>_. Inl Type_error,
     j_get_i64 = \<lambda>_. Inl Type_error, j_get_u32 = \<lambda>_. Inl Type_error, j_get_u16 = \<lambda>_. Inl Type_error,
     j_get_bool = \<lambda>_. Inl Type_error, j_get_double = \<lambda>_. Inl Type_error,
     j_get_string = \<lambda>_. Inl Type_error, j_dump = \<lambda>_. Inl Type_error, j_differs = \<lambda>_ _. True,
     tokenizer = \<lambda>_ _. [], fmt_format = \<lambda>_ _. [] \<rparr>"

definition reporting_AP :: AP where
  "reporting_AP = (AP_init 1 ''venue'' ''board'')
     \<lparr> AP_got_base := True, AP_got_connection := True, AP_got_health := True \<rparr>"

definition empty_world :: world where
  "empty_world = \<lparr> w_cache = [], w_history = [], w_points = [], w_events = [], w_asked = 0,
     w_down = (\<lambda>_. False) \<rparr>"

text \<open>The witness is a message without any member: reading the interfaces of a value that is not an object
  throws.\<close>

lemma UpdateStats_parse_error_witness:
  "\<exists>A' w' p. UpdateStats no_json 5 ''id'' () (reporting_AP, empty_world) = ((A', w'), None)
      \<and> w_points w' = [p] \<and> dtp_serialNumber p = []"
proof -
  define r where "r = \<lparr> run_DI = (AP_DI reporting_AP) \<lparr> di_states := di_states (AP_DI reporting_AP) + 1,
      di_connected := True \<rparr>, run_DTP = DeviceTimePoint_init, run_cache = w_cache empty_world,
      run_history = w_history empty_world \<rparr>"
  have "snd (parse_state no_json v 5 () r) = Some Type_error" for v
    by (simp add: parse_state_def parse_unit_def radios_then_interfaces_def parse_radios_def
        parse_interfaces_def no_json_def)
  then obtain run where "parse_state no_json (AP_venue_id reporting_AP) 5 () r = (run, Some Type_error)"
    by (metis prod.collapse)
  from UpdateStats_parse_error[OF this[unfolded r_def], of "''id''"] show ?thesis
    by (auto simp: reporting_AP_def empty_world_def)
qed

section \<open>Sequences of messages\<close>

datatype 'j message = StatsMsg 'j | ConnectionMsg 'j | HealthMsg 'j

fun deliver :: "'j nlohmann \<Rightarrow> u64 \<times> string \<times> 'j message \<Rightarrow> (AP \<times> world) act" where
  "deliver L (now, uuid, StatsMsg j) = UpdateStats L now uuid j"
| "deliver L (now, uuid, ConnectionMsg j) = UpdateConnection L now uuid j"
| "deliver L (now, uuid, HealthMsg j) = UpdateHealth L j"

datatype ap_event = EStats | EOnline | EOffline | EHealth | EIgnored

text \<open>A disconnection counts when its time stamp can be read (a missing one reads as 0).\<close>

definition disconnection_time :: "'j nlohmann \<Rightarrow> 'j \<Rightarrow> u64 cpp" where
  "disconnection_time L j =
     bind (j_at_mut L j ''disconnection'') (\<lambda>d. GetJSON_val L (j_get_u64 L) ''timestamp'' d 0)"

fun event_of :: "'j nlohmann \<Rightarrow> 'j message \<Rightarrow> ap_event" where
  "event_of L (StatsMsg j) = EStats"
| "event_of L (HealthMsg j) = EHealth"
| "event_of L (ConnectionMsg j) =
     (if j_contains L j ''ping'' then EOnline
      else if j_contains L j ''disconnection''
        then (case disconnection_time L j of Inl _ \<Rightarrow> EIgnored | Inr _ \<Rightarrow> EOffline)
      else if j_contains L j ''capabilities'' then EOnline
      else EIgnored)"

definition since_offline :: "ap_event list \<Rightarrow> ap_event list" where
  "since_offline es = takeWhile (\<lambda>e. e \<noteq> EOffline) (rev es)"

lemma since_offline_simps [simp]:
  "since_offline [] = []"
  "since_offline (es @ [e]) = (if e = EOffline then [] else e # since_offline es)"
  by (simp_all add: since_offline_def)

definition flags ::
  "string \<Rightarrow> string \<Rightarrow> string \<Rightarrow> bool \<Rightarrow> bool \<Rightarrow> bool \<Rightarrow> bool \<Rightarrow> AP \<times> world \<Rightarrow> bool" where
  "flags v b sn base conn health online st \<longleftrightarrow>
     AP_venue_id (fst st) = v \<and> AP_boardId (fst st) = b \<and> di_serialNumber (AP_DI (fst st)) = sn
     \<and> AP_got_base (fst st) = base \<and> AP_got_connection (fst st) = conn
     \<and> AP_got_health (fst st) = health \<and> di_connected (AP_DI (fst st)) = online"

definition tracks :: "string \<Rightarrow> string \<Rightarrow> string \<Rightarrow> ap_event list \<Rightarrow> AP \<times> world \<Rightarrow> bool" where
  "tracks v b sn es =
     flags v b sn (EStats \<in> set (since_offline es)) (EOnline \<in> set (since_offline es))
       (EHealth \<in> set (since_offline es)) (EStats \<in> set (since_offline es) \<or> EOnline \<in> set (since_offline es))"

lemma fst_catch_all [simp]: "fst (catch_all a s) = fst (a s)"
  by (auto simp: catch_all_def split: prod.split option.split cpp_exn.split)

lemma runs_single [simp]: "runs [a] = a"
  by (auto simp: fun_eq_iff split: prod.split option.split)

lemma keeps_firmware: "keeps (flags v b sn ba co he on) (firmware_step L now doc)"
proof -
  have "keeps (flags v b sn ba co he on)
      (\<lambda>st. guarded (j_differs L f (di_lastFirmware (AP_DI (fst st))))
        (with_val (j_get_string L f) (\<lambda>t. assign (upd_DI (\<lambda>DI. DI \<lparr> di_lastFirmware := t,
          di_lastFirmwareUpdate := now \<rparr>)))) st)" for f
    by (rule keeps_dup) (intro keeps_intros, simp add: flags_def)
  then show ?thesis unfolding firmware_step_def by (intro keeps_guarded keeps_with_val) 
qed

lemma flags_ping:
  assumes "flags v b sn ba co he on st"
  shows "flags v b sn ba True he True (fst (ping_step L now j st))"
proof -
  let ?rest = "with_val (j_at_mut L j ''ping'') (\<lambda>ping. runs
        [GetJSON L (j_get_string L) ''compatible'' ping (upd_DI o di_deviceType_update) [],
         GetJSON L (j_get_string L) ''platform'' ping (upd_DI o di_platform_update) [],
         GetJSON L (j_get_string L) ''connectionIp'' ping (upd_DI o di_connectionIp_update) [],
         GetJSON L (j_get_string L) ''locale'' ping (upd_DI o di_locale_update) [],
         GetJSON L (j_get_u64 L) ''timestamp'' ping (upd_DI o di_lastConnection_update) now,
         firmware_step L now ping])"
  have "keeps (flags v b sn ba True he True) ?rest"
    by (intro keeps_intros) (auto intro!: keeps_intros keeps_firmware simp: flags_def)
  moreover have "flags v b sn ba True he True
      (upd_DI (\<lambda>DI. DI \<lparr> di_connected := True, di_lastPing := now \<rparr>)
        (apfst (\<lambda>A. A \<lparr> AP_got_connection := True \<rparr>) st))"
    using assms by (simp add: flags_def)
  ultimately show ?thesis
    unfolding ping_step_def runs_assign runs_single by (rule keepsD)
qed

lemma flags_capabilities:
  assumes "flags v b sn ba co he on st"
  shows "flags v b sn ba True he True (fst (capabilities_step L now j st))"
proof -
  let ?rest = "with_val (j_at_mut L j ''capabilities'') (\<lambda>ConnectionData. runs
        [GetJSON L (j_get_string L) ''compatible'' ConnectionData (upd_DI o di_deviceType_update) [],
         GetJSON L (j_get_string L) ''platform'' ConnectionData (upd_DI o di_platform_update) [],
         firmware_step L now ConnectionData,
         GetJSON L (j_get_string L) ''connectionIp'' ConnectionData (upd_DI o di_connectionIp_update) [],
         GetJSON L (j_get_string L) ''locale'' ConnectionData (upd_DI o di_locale_update) []])"
  have "keeps (flags v b sn ba True he True) ?rest"
    by (intro keeps_intros) (auto intro!: keeps_intros keeps_firmware simp: flags_def)
  moreover have "flags v b sn ba True he True
      (upd_DI (\<lambda>DI. DI \<lparr> di_connected := True, di_lastConnection := now \<rparr>)
        (apfst (\<lambda>A. A \<lparr> AP_got_connection := True \<rparr>) st))"
    using assms by (simp add: flags_def)
  ultimately show ?thesis
    unfolding capabilities_step_def runs_assign runs_single by (rule keepsD)
qed

lemma disconnection_step_eq:
  "disconnection_step L uuid j (A, w) =
     (case disconnection_time L j of
        Inl e \<Rightarrow> ((A, w), Some e)
      | Inr t \<Rightarrow>
          ((A \<lparr> AP_got_base := False, AP_got_health := False, AP_got_connection := False,
                AP_DI := (AP_DI A) \<lparr> di_lastDisconnection := t, di_connected := False \<rparr> \<rparr>,
            if di_connected (AP_DI A) \<and> t \<noteq> 0
            then fst (CreateEventIfAbsent (offline_event L uuid (AP_boardId A)
                     ((AP_DI A) \<lparr> di_lastDisconnection := t \<rparr>)
                     (projr (j_at_mut L j ''disconnection'')) t) w)
            else w), None))"
proof (cases "j_at_mut L j ''disconnection''")
  case (Inl e)
  then show ?thesis by (simp add: disconnection_step_def disconnection_time_def)
next
  case (Inr d)
  then show ?thesis
    by (cases "GetJSON_val L (j_get_u64 L) ''timestamp'' d 0")
      (simp_all add: disconnection_step_def disconnection_time_def GetJSON_def zoom_def
        PersistOfflineAvailabilityTransition_def guarded_def)
qed


lemma flags_disconnection:
  assumes "flags v b sn ba co he on st" "disconnection_time L j = Inr t"
  shows "flags v b sn False False False False (fst (disconnection_step L uuid j st))"
  using assms by (cases st) (simp add: disconnection_step_eq flags_def)

lemma disconnection_fails:
  "disconnection_time L j = Inl e \<Longrightarrow> disconnection_step L uuid j st = (st, Some e)"
  by (cases st) (simp add: disconnection_step_eq)

lemma fst_UpdateConnection:
  "fst (UpdateConnection L now uuid j st) =
     fst ((if j_contains L j ''ping'' then ping_step L now j
        else if j_contains L j ''disconnection'' then disconnection_step L uuid j
        else if j_contains L j ''capabilities'' then capabilities_step L now j
        else ok) (upd_DI (\<lambda>DI. DI \<lparr> di_pings := di_pings DI + 1, di_lastContact := now \<rparr>) st))"
  by (simp add: UpdateConnection_def)

lemma tracks_UpdateConnection:
  assumes "tracks v b sn es st"
  shows "tracks v b sn (es @ [event_of L (ConnectionMsg j)]) (fst (UpdateConnection L now uuid j st))"
proof -
  let ?st = "upd_DI (\<lambda>DI. DI \<lparr> di_pings := di_pings DI + 1, di_lastContact := now \<rparr>) st"
  have f: "tracks v b sn es ?st" using assms by (simp add: tracks_def flags_def)
  note f' = f[unfolded tracks_def]
  show ?thesis
  proof (cases "j_contains L j ''disconnection'' \<and> \<not> j_contains L j ''ping''")
    case True
    then show ?thesis
      using f' flags_disconnection[OF f']
      by (cases "disconnection_time L j")
        (auto simp: fst_UpdateConnection tracks_def disconnection_fails)
  next
    case False
    then show ?thesis
      using f' flags_ping[OF f', of L now j] flags_capabilities[OF f', of L now j]
      by (auto simp: fst_UpdateConnection tracks_def)
  qed
qed

lemma tracks_UpdateHealth:
  assumes "tracks v b sn es st"
  shows "tracks v b sn (es @ [EHealth]) (fst (UpdateHealth L j st))"
proof -
  let ?P = "tracks v b sn (es @ [EHealth])"
  have "keeps ?P (runs
      [GetJSON L (j_get_u64 L) ''timestamp'' j (upd_DI o di_lastHealth_update) 0,
       GetJSON L (j_get_u64 L) ''sanity'' j (upd_DI o di_health_update) 0])"
    by (intro keeps_intros) (auto intro!: keeps_intros simp: tracks_def flags_def)
  moreover have "?P (apfst (\<lambda>A. A \<lparr> AP_got_health := True \<rparr>) st)"
    using assms by (simp add: tracks_def flags_def)
  ultimately show ?thesis
    unfolding UpdateHealth_def fst_catch_all runs_assign by (rule keepsD)
qed

lemma UpdateStats_ends:
  assumes "UpdateStats L now uuid j (A, w) = ((A', w'), None)"
  obtains run where
    "(A', w') = keep_point uuid (run_DTP run) (A \<lparr> AP_DI := run_DI run \<rparr>,
       w \<lparr> w_cache := run_cache run, w_history := run_history run \<rparr>)"
    "same_device (di_serialNumber (AP_DI A)) True run"
proof -
  define r where "r = \<lparr> run_DI = (AP_DI A) \<lparr> di_states := di_states (AP_DI A) + 1, di_connected := True \<rparr>,
      run_DTP = DeviceTimePoint_init, run_cache = w_cache w, run_history = w_history w \<rparr>"
  obtain run e where p: "catch_all (parse_state L (AP_venue_id A) now j) r = (run, e)" by fastforce
  have "same_device (di_serialNumber (AP_DI A)) True (fst (parse_state L (AP_venue_id A) now j r))"
    using keeps_parse_state[of "di_serialNumber (AP_DI A)" True L "AP_venue_id A" now j]
    by (simp add: keeps_def r_def)
  moreover have "fst (parse_state L (AP_venue_id A) now j r) = run"
    using p by (metis fst_catch_all fst_conv)
  moreover have "(A', w') = keep_point uuid (run_DTP run) (A \<lparr> AP_DI := run_DI run \<rparr>,
       w \<lparr> w_cache := run_cache run, w_history := run_history run \<rparr>)"
    using assms p unfolding UpdateStats_def r_def[symmetric]
    by (auto simp: Let_def r_def[symmetric] split: option.splits)
  ultimately show thesis using that by simp
qed

lemma tracks_UpdateStats:
  assumes "tracks v b sn es st" "UpdateStats L now uuid j st = (st', None)"
  shows "tracks v b sn (es @ [EStats]) st'"
proof -
  obtain A w A' w' where st: "st = (A, w)" "st' = (A', w')" by fastforce
  show ?thesis
    by (rule UpdateStats_ends[OF assms(2)[unfolded st]])
      (use assms(1) in \<open>auto simp: st keep_point_def tracks_def flags_def Let_def split: if_splits\<close>)
qed

lemma tracks_deliver:
  assumes "tracks v b sn es st" "deliver L (now, uuid, m) st = (st', None)"
  shows "tracks v b sn (es @ [event_of L m]) st'"
proof (cases m)
  case (StatsMsg j)
  then show ?thesis using assms tracks_UpdateStats by simp
next
  case (ConnectionMsg j)
  then show ?thesis
    using assms(2) tracks_UpdateConnection[OF assms(1), of L j now uuid] by simp
next
  case (HealthMsg j)
  then show ?thesis using assms(2) tracks_UpdateHealth[OF assms(1), of L j] by simp
qed

lemma tracks_run:
  assumes "tracks v b sn es st" "runs (map (deliver L) ms) st = (st', None)"
  shows "tracks v b sn (es @ map (\<lambda>(_, _, m). event_of L m) ms) st'"
  using assms
proof (induction ms arbitrary: es st)
  case (Cons x ms)
  obtain now uuid m where x: "x = (now, uuid, m)" by (metis prod.collapse)
  obtain s1 e where s1: "deliver L (now, uuid, m) st = (s1, e)" by fastforce
  with Cons.prems x have "e = None" "runs (map (deliver L) ms) s1 = (st', None)"
    by (auto split: option.splits)
  with tracks_deliver[OF Cons.prems(1)] s1 Cons.IH x show ?case by fastforce
qed simp

lemma tracks_init: "tracks v b (IntToSerialNumber mac) [] (AP_init mac v b, w)"
  by (simp add: tracks_def flags_def AP_init_def DeviceInfo_init_def)

text \<open>
  C2: After any sequence of messages, a stats message stores a time point exactly when, since the last
  disconnection, the access point has sent a stats message, a ping or capabilities message, and a health
  message; it stores one point, stamped with the access point's board and venue.
\<close>

theorem time_point_stored_iff:
  assumes "runs (map (deliver L) ms) (AP_init mac v b, w0) = ((A, w), None)"
    and "UpdateStats L now uuid j (A, w) = ((A', w'), None)"
  shows "let es = since_offline (map (\<lambda>(_, _, m). event_of L m) ms)
    in if EStats \<in> set es \<and> EOnline \<in> set es \<and> EHealth \<in> set es
       then \<exists>p. w_points w' = w_points w @ [p] \<and> dtp_boardId p = b \<and> dtp_venueId p = v \<and> dtp_id p = uuid
       else w_points w' = w_points w"
proof -
  have t: "tracks v b (IntToSerialNumber mac) (map (\<lambda>(_, _, m). event_of L m) ms) (A, w)"
    using tracks_run[OF tracks_init assms(1)] by simp
  show ?thesis
    by (rule UpdateStats_ends[OF assms(2)])
      (use t in \<open>auto simp: keep_point_def stamp_point_def tracks_def flags_def Let_def\<close>)
qed


text \<open>The witnesses use a library in which a message is the name of its only member.\<close>

fun fmt_fill :: "string \<Rightarrow> string list \<Rightarrow> string" where
  "fmt_fill [] Args = []"
| "fmt_fill (c # cs) Args =
     (if c = CHR ''{'' \<and> Args \<noteq> [] then hd Args @ fmt_fill (tl cs) (tl Args) else c # fmt_fill cs Args)"

definition tag_json :: "string nlohmann" where
  "tag_json = \<lparr> j_contains = (=), j_at_const = \<lambda>_ _. Inr ''value'', j_at_mut = \<lambda>_ _. Inr ''timestamp'',
     j_is_null = \<lambda>_. False, j_is_string = \<lambda>_. False, j_is_array = \<lambda>_. False, j_is_number = \<lambda>_. True,
     j_is_number_unsigned = \<lambda>_. True, j_is_number_integer = \<lambda>_. True, j_elems = \<lambda>_. [],
     j_size = \<lambda>_. 0, j_front = \<lambda>_. Inl Type_error, j_get_u64 = \<lambda>_. Inr 7,
     j_get_i64 = \<lambda>_. Inr 7, j_get_u32 = \<lambda>_. Inr 7, j_get_u16 = \<lambda>_. Inr 7,
     j_get_bool = \<lambda>_. Inl Type_error, j_get_double = \<lambda>_. Inl Type_error,
     j_get_string = \<lambda>_. Inl Type_error, j_dump = \<lambda>_. Inl Type_error, j_differs = \<lambda>_ _. True,
     tokenizer = \<lambda>_ _. [], fmt_format = fmt_fill \<rparr>"

lemmas message_defs = UpdateStats_def UpdateHealth_def UpdateConnection_def ping_step_def firmware_step_def
  disconnection_step_def PersistOfflineAvailabilityTransition_def disconnection_time_def
  parse_state_def parse_unit_def radios_then_interfaces_def parse_radios_def parse_interfaces_def each_def
  GetJSON_def GetJSON_val_def catch_all_def zoom_def keep_point_def Let_def guarded_def

lemma tag_stats:
  "snd (UpdateStats tag_json now uuid ''state'' st) = None"
  by (cases st) (simp add: message_defs tag_json_def)

lemma tag_ping: "snd (UpdateConnection tag_json now uuid ''ping'' st) = None"
  by (simp add: message_defs tag_json_def)

lemma tag_health: "snd (UpdateHealth tag_json ''health'' st) = None"
  by (simp add: message_defs tag_json_def)

lemma time_point_stored_iff_witness:
  "\<exists>A w A' w' p. runs (map (deliver tag_json)
        [(1, ''a'', ConnectionMsg ''ping''), (2, ''b'', StatsMsg ''state''), (3, ''c'', HealthMsg ''health'')])
      (AP_init 1 ''venue'' ''board'', empty_world) = ((A, w), None)
    \<and> UpdateStats tag_json 4 ''d'' ''state'' (A, w) = ((A', w'), None)
    \<and> w_points w' = w_points w @ [p] \<and> dtp_boardId p = ''board''"
proof -
  let ?ms = "[(1, ''a'', ConnectionMsg ''ping''), (2, ''b'', StatsMsg ''state''), (3, ''c'', HealthMsg ''health'')]"
  obtain s1 where s1: "deliver tag_json (1, ''a'', ConnectionMsg ''ping'') (AP_init 1 ''venue'' ''board'', empty_world)
      = (s1, None)" using tag_ping by (metis deliver.simps(2) prod.collapse)
  obtain s2 where s2: "deliver tag_json (2, ''b'', StatsMsg ''state'') s1 = (s2, None)"
    using tag_stats by (metis deliver.simps(1) prod.collapse)
  obtain A w where s3: "deliver tag_json (3, ''c'', HealthMsg ''health'') s2 = ((A, w), None)"
    using tag_health by (metis deliver.simps(3) prod.collapse)
  have run: "runs (map (deliver tag_json) ?ms) (AP_init 1 ''venue'' ''board'', empty_world) = ((A, w), None)"
    using s1 s2 s3 by simp
  obtain A' w' where u: "UpdateStats tag_json 4 ''d'' ''state'' (A, w) = ((A', w'), None)"
    using tag_stats by (metis prod.collapse)
  have es: "since_offline (map (\<lambda>(_, _, m). event_of tag_json m) ?ms) = [EHealth, EStats, EOnline]"
    by (simp add: since_offline_def tag_json_def)
  from time_point_stored_iff[OF run u] have
    "\<exists>p. w_points w' = w_points w @ [p] \<and> dtp_boardId p = ''board''"
    unfolding es by (auto simp: Let_def)
  with run u show ?thesis by blast
qed



end
