(* ===== verification/VenueWatcher.thy ===== *)
theory VenueWatcher
  imports Receivers ApStats
begin

text \<open>
  \<^verbatim>\<open>src/src/VenueWatcher\<close>: one watcher per board, with the state of every access point of the
  board's venue.  Starting, stopping and changing its serial numbers also changes the three registries of
  the receivers, which together are the record \<open>registries\<close>; the watcher's own address is the first
  argument of these operations.
\<close>

datatype MsgType = MT_connection | MT_state | MT_health

record 'j VenueMessage =
  vm_Payload :: 'j
  vm_Type :: MsgType
  vm_SerialNumber :: u64

record 'j VenueWatcher =
  vw_boardId :: string
  vw_venue_id :: string
  vw_Queue :: "'j VenueMessage list"
  vw_SerialNumbers :: "u64 list"
  vw_APs :: "(u64, AP) omap"

record registries =
  StateNotifiers :: state_registry
  StatusNotifiers :: device_registry
  HealthNotifiers :: device_registry

definition VenueWatcher_new :: "string \<Rightarrow> string \<Rightarrow> u64 list \<Rightarrow> 'j VenueWatcher" where
  "VenueWatcher_new board venue SerialNumbers =
     \<lparr> vw_boardId = board, vw_venue_id = venue, vw_Queue = [],
       vw_SerialNumbers = sort_unique SerialNumbers, vw_APs = [] \<rparr>"

definition enqueue :: "MsgType \<Rightarrow> u64 \<Rightarrow> 'j \<Rightarrow> 'j VenueWatcher \<Rightarrow> 'j VenueWatcher" where
  "enqueue T SerialNumber Msg W =
     W \<lparr> vw_Queue := vw_Queue W @ [\<lparr> vm_Payload = Msg, vm_Type = T, vm_SerialNumber = SerialNumber \<rparr>] \<rparr>"

definition PostState :: "u64 \<Rightarrow> 'j \<Rightarrow> 'j VenueWatcher \<Rightarrow> 'j VenueWatcher" where
  "PostState = enqueue MT_state"

definition PostConnection :: "u64 \<Rightarrow> 'j \<Rightarrow> 'j VenueWatcher \<Rightarrow> 'j VenueWatcher" where
  "PostConnection = enqueue MT_connection"

definition PostHealth :: "u64 \<Rightarrow> 'j \<Rightarrow> 'j VenueWatcher \<Rightarrow> 'j VenueWatcher" where
  "PostHealth = enqueue MT_health"

section \<open>Start, stop and change of the serial numbers\<close>

definition watch_device :: "u64 \<Rightarrow> 'j VenueWatcher \<Rightarrow> 'j VenueWatcher" where
  "watch_device mac W =
     W \<lparr> vw_APs := omap_set mac (AP_init mac (vw_venue_id W) (vw_boardId W)) (vw_APs W) \<rparr>"

definition Watcher_Start :: "watcher_id \<Rightarrow> 'j VenueWatcher \<times> registries \<Rightarrow> 'j VenueWatcher \<times> registries" where
  "Watcher_Start self = (\<lambda>(W, R).
     (fold watch_device (vw_SerialNumbers W) W,
      R \<lparr> StateNotifiers := fold (\<lambda>i. State_Register i self) (vw_SerialNumbers W) (StateNotifiers R),
          StatusNotifiers := Status_Register (vw_SerialNumbers W) self (StatusNotifiers R),
          HealthNotifiers := Health_Register (vw_SerialNumbers W) self (HealthNotifiers R) \<rparr>))"

definition Watcher_Stop :: "watcher_id \<Rightarrow> 'j VenueWatcher \<times> registries \<Rightarrow> 'j VenueWatcher \<times> registries" where
  "Watcher_Stop self = (\<lambda>(W, R).
     (W, R \<lparr> StateNotifiers := fold (\<lambda>i. State_DeRegister i self) (vw_SerialNumbers W) (StateNotifiers R),
             StatusNotifiers := Status_DeRegister self (StatusNotifiers R),
             HealthNotifiers := Health_DeRegister self (HealthNotifiers R) \<rparr>))"

definition remove_device :: "watcher_id \<Rightarrow> u64 \<Rightarrow> 'j VenueWatcher \<times> registries \<Rightarrow> 'j VenueWatcher \<times> registries" where
  "remove_device self i = (\<lambda>(W, R).
     (W \<lparr> vw_APs := omap_erase i (vw_APs W) \<rparr>,
      R \<lparr> StateNotifiers := State_DeRegister i self (StateNotifiers R) \<rparr>))"

definition add_device :: "watcher_id \<Rightarrow> u64 \<Rightarrow> 'j VenueWatcher \<times> registries \<Rightarrow> 'j VenueWatcher \<times> registries" where
  "add_device self i = (\<lambda>(W, R).
     (watch_device i W, R \<lparr> StateNotifiers := State_Register i self (StateNotifiers R) \<rparr>))"

definition ModifySerialNumbers ::
  "watcher_id \<Rightarrow> u64 list \<Rightarrow> 'j VenueWatcher \<times> registries \<Rightarrow> 'j VenueWatcher \<times> registries" where
  "ModifySerialNumbers self SerialNumbers S =
     (let Diff = set_symmetric_difference (vw_SerialNumbers (fst S)) SerialNumbers;
          ToRemove = set_intersection (vw_SerialNumbers (fst S)) Diff;
          ToAdd = set_intersection SerialNumbers Diff
      in case fold (add_device self) ToAdd (fold (remove_device self) ToRemove S) of
           (W, R) \<Rightarrow>
             (W \<lparr> vw_SerialNumbers := SerialNumbers \<rparr>,
              R \<lparr> HealthNotifiers := Health_Register SerialNumbers self (HealthNotifiers R),
                  StatusNotifiers := Status_Register SerialNumbers self (StatusNotifiers R) \<rparr>))"

definition Watcher_GetDevices :: "'j VenueWatcher \<Rightarrow> DeviceInfo list" where
  "Watcher_GetDevices W = map (\<lambda>(serialNumber, DI). AP_DI DI) (vw_APs W)"

section \<open>The thread that consumes the queue\<close>

text \<open>One message: the clock and the fresh UUID of the message are arguments.  A message for a device
  the watcher does not know is dropped, and an exception of the handler is caught.\<close>

definition handle :: "'j nlohmann \<Rightarrow> u64 \<times> string \<Rightarrow> 'j VenueMessage \<Rightarrow> (AP \<times> world) act" where
  "handle L e M =
     (case vm_Type M of
        MT_connection \<Rightarrow> UpdateConnection L (fst e) (snd e) (vm_Payload M)
      | MT_state \<Rightarrow> UpdateStats L (fst e) (snd e) (vm_Payload M)
      | MT_health \<Rightarrow> UpdateHealth L (vm_Payload M))"

definition dispatch ::
  "'j nlohmann \<Rightarrow> u64 \<times> string \<Rightarrow> 'j VenueMessage \<Rightarrow> ('j VenueWatcher \<times> world) act" where
  "dispatch L e M = (\<lambda>(W, Wd).
     case map_of (vw_APs W) (vm_SerialNumber M) of
       None \<Rightarrow> ((W, Wd), None)
     | Some A \<Rightarrow>
         (case catch_all (handle L e M) (A, Wd) of
            ((A', Wd'), x) \<Rightarrow> ((W \<lparr> vw_APs := omap_set (vm_SerialNumber M) A' (vw_APs W) \<rparr>, Wd'), x)))"

text \<open>The loop of \<^verbatim>\<open>run\<close> while \<^verbatim>\<open>Running_\<close> stays set: every queued message in order.\<close>

fun drain :: "'j nlohmann \<Rightarrow> (u64 \<times> string) list \<Rightarrow> ('j VenueWatcher \<times> world) act" where
  "drain L [] S = (S, None)"
| "drain L (e # es) (W, Wd) =
     (case vw_Queue W of
        [] \<Rightarrow> ((W, Wd), None)
      | M # Q \<Rightarrow>
          (case dispatch L e M (W \<lparr> vw_Queue := Q \<rparr>, Wd) of
             (S', None) \<Rightarrow> drain L es S'
           | (S', Some x) \<Rightarrow> (S', Some x)))"

abbreviation strictly_sorted :: "'a::linorder list \<Rightarrow> bool" where
  "strictly_sorted \<equiv> sorted_wrt (<)"

lemma strictly_sorted_sort_unique [simp]: "strictly_sorted (sort_unique xs)"
  by (simp add: strict_sorted_iff)

section \<open>The registrations of a watcher\<close>

definition regs_ok :: "registries \<Rightarrow> bool" where
  "regs_ok R \<longleftrightarrow> omap_wf (StatusNotifiers R) \<and> omap_wf (HealthNotifiers R)"

text \<open>Watcher \<open>w\<close> is registered with each receiver for exactly the devices of \<open>S\<close>, once.\<close>

definition registered_for :: "registries \<Rightarrow> watcher_id \<Rightarrow> u64 set \<Rightarrow> bool" where
  "registered_for R w S \<longleftrightarrow>
     (\<forall>s. count_list (state_targets (StateNotifiers R) s) w = (if s \<in> S then 1 else 0))
     \<and> registered_devices (StatusNotifiers R) w = S \<and> registered_devices (HealthNotifiers R) w = S"

definition same_registration :: "watcher_id \<Rightarrow> registries \<Rightarrow> registries \<Rightarrow> bool" where
  "same_registration w R R' \<longleftrightarrow> (\<forall>S. registered_for R w S \<longleftrightarrow> registered_for R' w S)"

definition watcher_ok :: "watcher_id \<Rightarrow> 'j VenueWatcher \<Rightarrow> registries \<Rightarrow> bool" where
  "watcher_ok self W R \<longleftrightarrow>
     strictly_sorted (vw_SerialNumbers W) \<and> omap_wf (vw_APs W)
     \<and> dom (map_of (vw_APs W)) = set (vw_SerialNumbers W)
     \<and> registered_for R self (set (vw_SerialNumbers W))"

lemma count_list_remove1:
  "count_list (remove1 x xs) y = (if x = y then count_list xs y - 1 else count_list xs y)"
  by (induction xs) (auto simp: count_notin)

lemma count_state_add:
  "distinct ss \<Longrightarrow> count_list (state_targets (fold (\<lambda>i. State_Register i self) ss N) s) w
     = count_list (state_targets N s) w + (if s \<in> set ss \<and> w = self then 1 else 0)"
  by (simp add: state_targets_Register_list)

lemma count_state_remove:
  "distinct ss \<Longrightarrow> count_list (state_targets (fold (\<lambda>i. State_DeRegister i self) ss N) s) w
     = count_list (state_targets N s) w - (if s \<in> set ss \<and> w = self then 1 else 0)"
  by (simp add: state_targets_DeRegister_list count_list_remove1)

lemmas registration_simps = status.devices_register status.devices_deregister health.devices_register
  health.devices_deregister count_state_add count_state_remove

lemma Watcher_Start_ok:
  assumes "strictly_sorted (vw_SerialNumbers W)" "vw_APs W = []" "registered_for R self {}" "regs_ok R"
    and "Watcher_Start self (W, R) = (W', R')"
  shows "watcher_ok self W' R'" "regs_ok R'" "vw_SerialNumbers W' = vw_SerialNumbers W"
    "w \<noteq> self \<Longrightarrow> same_registration w R R'"
proof -
  have W': "W' = fold watch_device (vw_SerialNumbers W) W" using assms(5) by (simp add: Watcher_Start_def)
  have f: "omap_wf (vw_APs V) \<Longrightarrow> vw_SerialNumbers (fold watch_device ss V) = vw_SerialNumbers V
      \<and> omap_wf (vw_APs (fold watch_device ss V))
      \<and> dom (map_of (vw_APs (fold watch_device ss V))) = dom (map_of (vw_APs V)) \<union> set ss"
    for ss and V :: "'a VenueWatcher"
    by (induction ss arbitrary: V) (auto simp: watch_device_def)
  have d: "distinct (vw_SerialNumbers W)" using assms(1) by (simp add: strict_sorted_iff)
  show "vw_SerialNumbers W' = vw_SerialNumbers W" using f[of W] assms(2) by (simp add: W')
  show "watcher_ok self W' R'"
    using f[of W "vw_SerialNumbers W"] assms d
    by (auto simp: watcher_ok_def W' registered_for_def Watcher_Start_def registration_simps)
  show "regs_ok R'"
    using assms(4,5) by (auto simp: regs_ok_def Watcher_Start_def Status_Register_def Health_Register_def)
  show "same_registration w R R'" if "w \<noteq> self"
    using that assms(5) d
    by (auto simp: same_registration_def registered_for_def Watcher_Start_def registration_simps)
qed

lemma Watcher_Stop_ok:
  assumes "watcher_ok self W R" "regs_ok R" "Watcher_Stop self (W, R) = (W', R')"
  shows "registered_for R' self {}" "regs_ok R'" "w \<noteq> self \<Longrightarrow> same_registration w R R'"
proof -
  have d: "distinct (vw_SerialNumbers W)" using assms(1) by (simp add: watcher_ok_def strict_sorted_iff)
  show "registered_for R' self {}"
    using assms(1,3) d
    by (auto simp: watcher_ok_def registered_for_def Watcher_Stop_def registration_simps)
  show "regs_ok R'"
    using assms(2,3) by (auto simp: regs_ok_def Watcher_Stop_def Status_DeRegister_def Health_DeRegister_def)
  show "same_registration w R R'" if "w \<noteq> self"
    using that assms(3) d
    by (auto simp: same_registration_def registered_for_def Watcher_Stop_def registration_simps)
qed

section \<open>Changing the serial numbers\<close>

lemma fold_remove_device:
  assumes "fold (remove_device self) ss (W, R) = (W', R')"
  shows "W' = W \<lparr> vw_APs := vw_APs W' \<rparr>" "map_of (vw_APs W') = (map_of (vw_APs W)) |` (- set ss)"
    "omap_wf (vw_APs W) \<Longrightarrow> omap_wf (vw_APs W')"
    "R' = R \<lparr> StateNotifiers := fold (\<lambda>i. State_DeRegister i self) ss (StateNotifiers R) \<rparr>"
  using assms
proof (induction ss arbitrary: W R)
  case (Cons i ss)
  { case 1 then show ?case using Cons.IH(1)[of "fst (remove_device self i (W, R))"]
      by (cases W) (auto simp: remove_device_def) }
  { case 2 then show ?case using Cons.IH(2)[of "fst (remove_device self i (W, R))"]
      by (auto simp: remove_device_def restrict_map_def fun_eq_iff) }
  { case 3 then show ?case using Cons.IH(3)[of "fst (remove_device self i (W, R))"]
      by (auto simp: remove_device_def) }
  { case 4 then show ?case using Cons.IH(4)[of "fst (remove_device self i (W, R))" "snd (remove_device self i (W, R))"]
      by (auto simp: remove_device_def) }
qed (auto simp: restrict_map_def)

lemma fold_add_device:
  assumes "fold (add_device self) ss (W, R) = (W', R')"
  shows "W' = W \<lparr> vw_APs := vw_APs W' \<rparr>"
    "map_of (vw_APs W') s = (if s \<in> set ss then Some (AP_init s (vw_venue_id W) (vw_boardId W)) else map_of (vw_APs W) s)"
    "omap_wf (vw_APs W) \<Longrightarrow> omap_wf (vw_APs W')"
    "R' = R \<lparr> StateNotifiers := fold (\<lambda>i. State_Register i self) ss (StateNotifiers R) \<rparr>"
  using assms
proof (induction ss arbitrary: W R)
  case (Cons i ss)
  { case 1 then show ?case using Cons.IH(1)[of "fst (add_device self i (W, R))"]
      by (cases W) (auto simp: add_device_def watch_device_def) }
  { case 2 then show ?case using Cons.IH(2)[of "fst (add_device self i (W, R))"]
      by (auto simp: add_device_def watch_device_def) }
  { case 3 then show ?case using Cons.IH(3)[of "fst (add_device self i (W, R))"]
      by (auto simp: add_device_def watch_device_def) }
  { case 4 then show ?case using Cons.IH(4)[of "fst (add_device self i (W, R))" "snd (add_device self i (W, R))"]
      by (auto simp: add_device_def watch_device_def) }
qed auto

text \<open>What the change does, in terms of the set of devices: the same for the receivers as starting afresh with
  the new list, while the access points that stay keep their state.\<close>

lemma ModifySerialNumbers_effect:
  assumes "strictly_sorted (vw_SerialNumbers W)" "strictly_sorted ds"
    and "ModifySerialNumbers self ds (W, R) = (W', R')"
  obtains Rm Ad where "set Rm = set (vw_SerialNumbers W) - set ds" "set Ad = set ds - set (vw_SerialNumbers W)"
    "distinct Rm" "distinct Ad"
    "W' = W \<lparr> vw_APs := vw_APs W', vw_SerialNumbers := ds \<rparr>" "omap_wf (vw_APs W) \<Longrightarrow> omap_wf (vw_APs W')"
    "\<And>s. map_of (vw_APs W') s = (if s \<in> set Ad then Some (AP_init s (vw_venue_id W) (vw_boardId W))
        else if s \<in> set Rm then None else map_of (vw_APs W) s)"
    "R' = R \<lparr> StateNotifiers := fold (\<lambda>i. State_Register i self) Ad
                (fold (\<lambda>i. State_DeRegister i self) Rm (StateNotifiers R)),
              HealthNotifiers := Health_Register ds self (HealthNotifiers R),
              StatusNotifiers := Status_Register ds self (StatusNotifiers R) \<rparr>"
proof -
  let ?old = "vw_SerialNumbers W"
  define Diff where "Diff = set_symmetric_difference ?old ds"
  define Rm where "Rm = set_intersection ?old Diff"
  define Ad where "Ad = set_intersection ds Diff"
  have D: "set Diff = (set ?old - set ds) \<union> (set ds - set ?old)" "strictly_sorted Diff"
    using set_symmetric_difference_set[OF assms(1,2)] set_symmetric_difference_sorted[OF assms(1,2)]
    by (simp_all add: Diff_def)
  have Rm: "set Rm = set ?old - set ds" "distinct Rm" and Ad: "set Ad = set ds - set ?old" "distinct Ad"
    using set_intersection_set[OF assms(1) D(2)] set_intersection_set[OF assms(2) D(2)]
      set_intersection_sorted[OF assms(1) D(2)] set_intersection_sorted[OF assms(2) D(2)] D(1)
    by (auto simp: Rm_def Ad_def strict_sorted_iff)
  obtain W1 R1 W2 R2 where f: "fold (remove_device self) Rm (W, R) = (W1, R1)"
    "fold (add_device self) Ad (W1, R1) = (W2, R2)" by (meson surj_pair)
  have W': "W' = W2 \<lparr> vw_SerialNumbers := ds \<rparr>"
    "R' = R2 \<lparr> HealthNotifiers := Health_Register ds self (HealthNotifiers R2),
               StatusNotifiers := Status_Register ds self (StatusNotifiers R2) \<rparr>"
    using assms(3) f by (simp_all add: ModifySerialNumbers_def Let_def Diff_def Rm_def Ad_def)
  note r = fold_remove_device[OF f(1)] and a = fold_add_device[OF f(2)]
  have "vw_venue_id W1 = vw_venue_id W" "vw_boardId W1 = vw_boardId W"
    by (subst r(1), simp)+
  moreover have "W' = W \<lparr> vw_APs := vw_APs W', vw_SerialNumbers := ds \<rparr>"
    using W'(1) by (subst W'(1), subst a(1), subst r(1)) simp
  ultimately show thesis
    using that[OF Rm(1) Ad(1) Rm(2) Ad(2)] r(2-4) a(2-4) W'
    by (simp add: restrict_map_def)
qed

lemma ModifySerialNumbers_ok:
  assumes "watcher_ok self W R" "regs_ok R" "strictly_sorted ds"
    and "ModifySerialNumbers self ds (W, R) = (W', R')"
  shows "watcher_ok self W' R' \<and> regs_ok R' \<and> vw_SerialNumbers W' = ds \<and> vw_Queue W' = vw_Queue W
    \<and> (\<forall>s. map_of (vw_APs W') s =
          (if s \<notin> set ds then None
           else if s \<in> set (vw_SerialNumbers W) then map_of (vw_APs W) s
           else Some (AP_init s (vw_venue_id W) (vw_boardId W))))
    \<and> (\<forall>w. w \<noteq> self \<longrightarrow> same_registration w R R')"
proof -
  have ok: "strictly_sorted (vw_SerialNumbers W)" "omap_wf (vw_APs W)"
    "dom (map_of (vw_APs W)) = set (vw_SerialNumbers W)" "registered_for R self (set (vw_SerialNumbers W))"
    using assms(1) by (simp_all add: watcher_ok_def)
  obtain Rm Ad where e: "set Rm = set (vw_SerialNumbers W) - set ds" "set Ad = set ds - set (vw_SerialNumbers W)"
    "distinct Rm" "distinct Ad"
    and W': "W' = W \<lparr> vw_APs := vw_APs W', vw_SerialNumbers := ds \<rparr>" and wf: "omap_wf (vw_APs W')"
    and aps: "\<And>s. map_of (vw_APs W') s = (if s \<in> set Ad then Some (AP_init s (vw_venue_id W) (vw_boardId W))
        else if s \<in> set Rm then None else map_of (vw_APs W) s)"
    and R': "R' = R \<lparr> StateNotifiers := fold (\<lambda>i. State_Register i self) Ad
                (fold (\<lambda>i. State_DeRegister i self) Rm (StateNotifiers R)),
              HealthNotifiers := Health_Register ds self (HealthNotifiers R),
              StatusNotifiers := Status_Register ds self (StatusNotifiers R) \<rparr>"
    using ModifySerialNumbers_effect[OF ok(1) assms(3,4)] ok(2) by metis
  have none: "s \<notin> set (vw_SerialNumbers W) \<Longrightarrow> map_of (vw_APs W) s = None" for s
    using ok(3) by auto
  have serials: "vw_SerialNumbers W' = ds" "vw_Queue W' = vw_Queue W" by (subst W', simp)+
  have aps': "map_of (vw_APs W') s =
      (if s \<notin> set ds then None
       else if s \<in> set (vw_SerialNumbers W) then map_of (vw_APs W) s
       else Some (AP_init s (vw_venue_id W) (vw_boardId W)))" for s
    using none by (simp add: aps e)
  have "\<exists>y. map_of (vw_APs W) s = Some y" if "s \<in> set (vw_SerialNumbers W)" for s
    using that ok(3) by (metis domD)
  then have dom: "dom (map_of (vw_APs W')) = set ds"
    by (auto simp: aps' split: if_splits)
  have reg: "registered_for R' self (set ds)"
    using ok(4) e by (auto simp: registered_for_def R' registration_simps)
  have others: "w \<noteq> self \<Longrightarrow> same_registration w R R'" for w
    using e by (simp add: same_registration_def registered_for_def R' registration_simps)
  have "regs_ok R'" using assms(2) by (simp add: regs_ok_def R' Status_Register_def Health_Register_def)
  then show ?thesis
    using reg others dom wf assms(3) aps' serials by (simp add: watcher_ok_def)
qed

text \<open>
  C29: Changing the devices of a running watcher to a sorted list keeps it consistent: afterwards it is
  registered with all three receivers for exactly the new devices, once each, and holds one access
  point per device; a device that stays keeps its collected state, a new one starts afresh, and the
  registrations of every other watcher are what they were.
\<close>

theorem ModifySerialNumbers_consistent:
  assumes "watcher_ok self W R" "regs_ok R" "strictly_sorted ds"
    and "ModifySerialNumbers self ds (W, R) = (W', R')"
  shows "watcher_ok self W' R' \<and> regs_ok R' \<and> vw_SerialNumbers W' = ds \<and> vw_Queue W' = vw_Queue W
    \<and> (\<forall>s. map_of (vw_APs W') s =
          (if s \<notin> set ds then None
           else if s \<in> set (vw_SerialNumbers W) then map_of (vw_APs W) s
           else Some (AP_init s (vw_venue_id W) (vw_boardId W))))
    \<and> (\<forall>w. w \<noteq> self \<longrightarrow> same_registration w R R')"
  using ModifySerialNumbers_ok[OF assms] .

definition empty_registries :: registries where
  "empty_registries = \<lparr> StateNotifiers = [], StatusNotifiers = [], HealthNotifiers = [] \<rparr>"

lemma empty_registries [simp]: "regs_ok empty_registries" "registered_for empty_registries w {}"
  by (simp_all add: empty_registries_def regs_ok_def registered_for_def state_targets_def registered_devices_def)

lemma ModifySerialNumbers_consistent_witness:
  "\<exists>(W :: unit VenueWatcher) R W' R'. Watcher_Start 7 (VenueWatcher_new ''b'' ''v'' [3, 1, 3], empty_registries) = (W, R)
     \<and> ModifySerialNumbers 7 [2, 3] (W, R) = (W', R') \<and> registered_for R' 7 {2, 3}
     \<and> map_of (vw_APs W') 1 = None \<and> map_of (vw_APs W') 2 = Some (AP_init 2 ''v'' ''b'')"
proof -
  let ?W0 = "VenueWatcher_new ''b'' ''v'' [3, 1, 3] :: unit VenueWatcher"
  have srt: "sort_unique [3, 1, 3 :: u64] = [1, 3]" by code_simp
  obtain W R where st: "Watcher_Start 7 (?W0, empty_registries) = (W, R)" by fastforce
  have ok: "watcher_ok 7 W R" "regs_ok R" and sn: "vw_SerialNumbers W = [1, 3]"
    using Watcher_Start_ok[OF _ _ _ _ st] by (simp_all add: VenueWatcher_new_def srt)
  have vb: "vw_venue_id W = ''v''" "vw_boardId W = ''b''"
    using st by (auto simp: Watcher_Start_def VenueWatcher_new_def srt watch_device_def)
  obtain W' R' where m: "ModifySerialNumbers 7 [2, 3] (W, R) = (W', R')" by fastforce
  have "watcher_ok 7 W' R' \<and> vw_SerialNumbers W' = [2, 3] \<and> map_of (vw_APs W') 1 = None
      \<and> map_of (vw_APs W') 2 = Some (AP_init 2 ''v'' ''b'')"
    using ModifySerialNumbers_consistent[OF ok _ m] by (auto simp: sn vb)
  then show ?thesis using st m by (auto simp: watcher_ok_def)
qed

section \<open>Devices do not disturb each other\<close>

definition message_of :: "'j VenueMessage \<Rightarrow> 'j message" where
  "message_of M = (case vm_Type M of MT_connection \<Rightarrow> ConnectionMsg (vm_Payload M)
     | MT_state \<Rightarrow> StatsMsg (vm_Payload M) | MT_health \<Rightarrow> HealthMsg (vm_Payload M))"

lemma handle_deliver: "handle L e M = deliver L (fst e, snd e, message_of M)"
  by (simp add: handle_def message_of_def split: MsgType.split)

text \<open>The handlers catch their own exceptions, so the outer handler of the loop never sees one.\<close>

lemma catch_all_throws: "snd (catch_all a s) = None \<or> snd (catch_all a s) = Some Undefined"
  by (auto simp: catch_all_def split: prod.split option.split cpp_exn.split)

lemma deliver_throws: "snd (deliver L x st) = None \<or> snd (deliver L x st) = Some Undefined"
proof -
  obtain now uuid m where x: "x = (now, uuid, m)" by (metis prod.collapse)
  show ?thesis
  proof (cases m)
    case (StatsMsg j)
    obtain A w where st: "st = (A, w)" by fastforce
    obtain run e where p: "catch_all (parse_state L (AP_venue_id A) now j)
        \<lparr> run_DI = (AP_DI A) \<lparr> di_states := di_states (AP_DI A) + 1, di_connected := True \<rparr>,
          run_DTP = DeviceTimePoint_init, run_cache = w_cache w, run_history = w_history w \<rparr> = (run, e)" by fastforce
    then have "e = None \<or> e = Some Undefined" by (metis catch_all_throws snd_conv)
    with p StatsMsg x st show ?thesis by (auto simp: UpdateStats_def Let_def)
  next
    case (ConnectionMsg j)
    show ?thesis
      unfolding x ConnectionMsg deliver.simps UpdateConnection_def runs_assign runs_single
      by (rule catch_all_throws)
  next
    case (HealthMsg j)
    then show ?thesis using catch_all_throws x by (simp add: UpdateHealth_def)
  qed
qed

definition events_for :: "'j nlohmann \<Rightarrow> u64 \<Rightarrow> 'j VenueMessage list \<Rightarrow> ap_event list" where
  "events_for L s Q = map (event_of L \<circ> message_of) (filter (\<lambda>M. vm_SerialNumber M = s) Q)"

text \<open>Every access point is in the state its own events put it in.\<close>

definition aps_track :: "(u64 \<Rightarrow> ap_event list) \<Rightarrow> 'j VenueWatcher \<Rightarrow> bool" where
  "aps_track es W \<longleftrightarrow> (\<forall>s A Wd. map_of (vw_APs W) s = Some A \<longrightarrow>
     tracks (vw_venue_id W) (vw_boardId W) (IntToSerialNumber s) (es s) (A, Wd))"

lemma tracks_world: "tracks v b sn es (A, w) = tracks v b sn es (A, w')"
  by (simp add: tracks_def flags_def)

lemma dispatch_tracks:
  assumes "aps_track es W" "dispatch L e M (W, Wd) = ((W', Wd'), None)"
  shows "aps_track (es(vm_SerialNumber M := es (vm_SerialNumber M) @ [event_of L (message_of M)])) W'
      \<and> W' = W \<lparr> vw_APs := vw_APs W' \<rparr> \<and> dom (map_of (vw_APs W')) = dom (map_of (vw_APs W))"
proof (cases "map_of (vw_APs W) (vm_SerialNumber M)")
  case None
  with assms show ?thesis by (auto simp: dispatch_def aps_track_def)
next
  case (Some A)
  obtain A1 w1 x where h: "handle L e M (A, Wd) = ((A1, w1), x)" by (metis prod.collapse)
  have "x = None \<or> x = Some Undefined" using deliver_throws h by (metis handle_deliver snd_conv)
  then have d: "x = None" "W' = W \<lparr> vw_APs := omap_set (vm_SerialNumber M) A1 (vw_APs W) \<rparr>"
    using assms(2) Some h by (auto simp: dispatch_def catch_all_def)
  have "tracks (vw_venue_id W) (vw_boardId W) (IntToSerialNumber (vm_SerialNumber M))
      (es (vm_SerialNumber M)) (A, Wd)" using assms(1) Some by (simp add: aps_track_def)
  from tracks_deliver[OF this, of L "fst e" "snd e" "message_of M" "(A1, w1)"] h d(1)
  have "tracks (vw_venue_id W) (vw_boardId W) (IntToSerialNumber (vm_SerialNumber M))
      (es (vm_SerialNumber M) @ [event_of L (message_of M)]) (A1, w)" for w
    by (metis handle_deliver tracks_world)
  with assms(1) Some show ?thesis
    by (auto simp: d(2) aps_track_def)
qed

lemma drain_tracks:
  assumes "aps_track es0 W" "drain L es (W, Wd) = ((W', Wd'), None)"
  shows "aps_track (\<lambda>s. es0 s @ events_for L s (take (length es) (vw_Queue W))) W'
      \<and> vw_Queue W' = drop (length es) (vw_Queue W)
      \<and> dom (map_of (vw_APs W')) = dom (map_of (vw_APs W))
      \<and> vw_venue_id W' = vw_venue_id W \<and> vw_boardId W' = vw_boardId W"
  using assms
proof (induction es arbitrary: es0 W Wd)
  case (Cons e es)
  show ?case
  proof (cases "vw_Queue W")
    case Nil
    with Cons.prems show ?thesis by (simp add: events_for_def)
  next
    case (Cons M Q)
    let ?W = "W \<lparr> vw_Queue := Q \<rparr>"
    obtain W1 Wd1 where d: "dispatch L e M (?W, Wd) = ((W1, Wd1), None)"
      and r: "drain L es (W1, Wd1) = ((W', Wd'), None)"
      using Cons.prems(2) Cons by (auto split: prod.splits option.splits)
    have "aps_track es0 ?W" using Cons.prems(1) by (simp add: aps_track_def)
    note t = dispatch_tracks[OF this d]
    then obtain aps where "W1 = W \<lparr> vw_Queue := Q, vw_APs := aps \<rparr>" by blast
    with t have f: "vw_Queue W1 = Q" "vw_venue_id W1 = vw_venue_id W" "vw_boardId W1 = vw_boardId W"
      "dom (map_of (vw_APs W1)) = dom (map_of (vw_APs W))" by simp_all
    have "(es0(vm_SerialNumber M := es0 (vm_SerialNumber M) @ [event_of L (message_of M)])) s
        @ events_for L s (take (length es) Q) = es0 s @ events_for L s (take (length (e # es)) (M # Q))" for s
      by (simp add: events_for_def)
    with Cons.IH[OF conjunct1[OF t] r] show ?thesis by (auto simp: f Cons aps_track_def)
  qed
qed (simp add: events_for_def)

lemma Watcher_Start_fresh:
  assumes "vw_APs W = []" "Watcher_Start self (W, R) = (W', R')"
  shows "map_of (vw_APs W') s = (if s \<in> set (vw_SerialNumbers W)
      then Some (AP_init s (vw_venue_id W) (vw_boardId W)) else None)"
    and "vw_Queue W' = vw_Queue W" "vw_venue_id W' = vw_venue_id W" "vw_boardId W' = vw_boardId W"
proof -
  have "map_of (vw_APs (fold watch_device ss V)) s = (if s \<in> set ss
      then Some (AP_init s (vw_venue_id V) (vw_boardId V)) else map_of (vw_APs V) s)
    \<and> vw_Queue (fold watch_device ss V) = vw_Queue V
    \<and> vw_venue_id (fold watch_device ss V) = vw_venue_id V
    \<and> vw_boardId (fold watch_device ss V) = vw_boardId V" for ss and V :: "'a VenueWatcher"
    by (induction ss arbitrary: V) (auto simp: watch_device_def)
  with assms show "map_of (vw_APs W') s = (if s \<in> set (vw_SerialNumbers W)
      then Some (AP_init s (vw_venue_id W) (vw_boardId W)) else None)"
    and "vw_Queue W' = vw_Queue W" "vw_venue_id W' = vw_venue_id W" "vw_boardId W' = vw_boardId W"
    by (auto simp: Watcher_Start_def)
qed

text \<open>
  C28: However the messages of the devices of a venue are interleaved in the queue of a freshly started
  watcher, each device ends in the state its own messages put it in: whether it has a base point, has
  been seen connected and healthy since its last disconnection depends on the messages with its serial
  number alone, and it keeps its serial number, venue and board.  The loop takes the messages in order
  and no message creates or removes a device.
\<close>

theorem devices_isolated:
  assumes "Watcher_Start self (VenueWatcher_new b v ss, R) = (W, R')"
    and "drain L es (W \<lparr> vw_Queue := Q \<rparr>, Wd) = ((W', Wd'), None)" "length es = length Q"
  shows "dom (map_of (vw_APs W')) = set ss \<and> vw_Queue W' = []
    \<and> (\<forall>s A. map_of (vw_APs W') s = Some A \<longrightarrow>
          (let own = since_offline (events_for L s Q)
           in di_serialNumber (AP_DI A) = IntToSerialNumber s \<and> AP_venue_id A = v \<and> AP_boardId A = b
              \<and> AP_got_base A = (EStats \<in> set own) \<and> AP_got_connection A = (EOnline \<in> set own)
              \<and> AP_got_health A = (EHealth \<in> set own)
              \<and> di_connected (AP_DI A) = (EStats \<in> set own \<or> EOnline \<in> set own)))"
proof -
  have n: "vw_APs (VenueWatcher_new b v ss) = []" by (simp add: VenueWatcher_new_def)
  note f = Watcher_Start_fresh[OF n assms(1)]
  have W: "map_of (vw_APs W) s = (if s \<in> set ss then Some (AP_init s v b) else None)"
    "vw_venue_id W = v" "vw_boardId W = b" for s
    using f by (simp_all add: VenueWatcher_new_def)
  have "aps_track (\<lambda>_. []) (W \<lparr> vw_Queue := Q \<rparr>)"
    by (auto simp: aps_track_def W intro: tracks_init split: if_splits)
  from drain_tracks[OF this assms(2)] have t: "aps_track (\<lambda>s. events_for L s Q) W'" "vw_Queue W' = []"
    "dom (map_of (vw_APs W')) = dom (map_of (vw_APs W))" "vw_venue_id W' = v" "vw_boardId W' = b"
    using assms(3) by (simp_all add: W)
  moreover have "dom (map_of (vw_APs W)) = set ss" by (auto simp: W split: if_splits)
  ultimately show ?thesis by (auto simp: aps_track_def tracks_def flags_def Let_def)
qed

text \<open>The witness: two devices, with their messages interleaved and one of them disconnecting.\<close>

lemma drain_total:
  assumes "\<And>e M st. M \<in> set (vw_Queue W) \<Longrightarrow> snd (handle L e M st) = None"
  shows "\<exists>S'. drain L es (W, Wd) = (S', None)"
  using assms
proof (induction es arbitrary: W Wd)
  case (Cons e es)
  show ?case
  proof (cases "vw_Queue W")
    case (Cons M Q)
    let ?W = "W \<lparr> vw_Queue := Q \<rparr>"
    have ok: "snd (handle L e M st) = None" for e st using Cons.prems Cons by simp
    have "snd (catch_all (handle L e M) st) = None" for st
      by (cases "handle L e M st") (use ok[of e st] in \<open>simp add: catch_all_def\<close>)
    then have "snd (dispatch L e M (?W, Wd)) = None"
      by (auto simp: dispatch_def split: option.split prod.split) (metis snd_conv)
    then obtain W1 Wd1 where d: "dispatch L e M (?W, Wd) = ((W1, Wd1), None)"
      by (metis prod.collapse)
    then have "vw_Queue W1 = Q" by (auto simp: dispatch_def split: option.splits prod.splits)
    then have "\<exists>S'. drain L es (W1, Wd1) = (S', None)"
      using Cons.IH[of W1 Wd1] Cons.prems Cons by auto
    with d Cons show ?thesis by simp
  qed simp
qed simp

lemma devices_isolated_witness:
  "\<exists>W R' W' Wd' A1 A2. Watcher_Start 7 (VenueWatcher_new ''b'' ''v'' [1, 2], empty_registries) = (W, R')
     \<and> drain tag_json [(1, ''p''), (2, ''q''), (3, ''r'')] (W \<lparr> vw_Queue :=
          [\<lparr> vm_Payload = ''ping'', vm_Type = MT_connection, vm_SerialNumber = 1 \<rparr>,
           \<lparr> vm_Payload = ''health'', vm_Type = MT_health, vm_SerialNumber = 2 \<rparr>,
           \<lparr> vm_Payload = ''state'', vm_Type = MT_state, vm_SerialNumber = 1 \<rparr>] \<rparr>, empty_world) = ((W', Wd'), None)
     \<and> map_of (vw_APs W') 1 = Some A1 \<and> AP_got_base A1 \<and> AP_got_connection A1 \<and> \<not> AP_got_health A1
     \<and> map_of (vw_APs W') 2 = Some A2 \<and> \<not> AP_got_base A2 \<and> \<not> AP_got_connection A2 \<and> AP_got_health A2"
proof -
  let ?Q = "[\<lparr> vm_Payload = ''ping'', vm_Type = MT_connection, vm_SerialNumber = 1 \<rparr>,
           \<lparr> vm_Payload = ''health'', vm_Type = MT_health, vm_SerialNumber = 2 \<rparr>,
           \<lparr> vm_Payload = ''state'', vm_Type = MT_state, vm_SerialNumber = 1 \<rparr>] :: string VenueMessage list"
  let ?es = "[(1, ''p''), (2, ''q''), (3, ''r'')] :: (u64 \<times> string) list"
  obtain W R' where s: "Watcher_Start 7 (VenueWatcher_new ''b'' ''v'' [1, 2] :: string VenueWatcher, empty_registries)
      = (W, R')" by fastforce
  have "snd (handle tag_json e M st) = None" if "M \<in> set ?Q" for e M st
    by (cases st) (use that in \<open>auto simp: handle_def tag_stats tag_ping tag_health\<close>)
  then obtain W' Wd' where d: "drain tag_json ?es (W \<lparr> vw_Queue := ?Q \<rparr>, empty_world) = ((W', Wd'), None)"
    using drain_total[of "W \<lparr> vw_Queue := ?Q \<rparr>" tag_json ?es empty_world] by (auto simp del: drain.simps)
  have own: "since_offline (events_for tag_json 1 ?Q) = [EStats, EOnline]"
    "since_offline (events_for tag_json 2 ?Q) = [EHealth]"
    by (simp_all add: events_for_def message_of_def since_offline_def tag_json_def)
  note iso = devices_isolated[OF s d, simplified]
  from iso have dm: "dom (map_of (vw_APs W')) = {1, 2}" by blast
  then obtain A1 A2 where A: "map_of (vw_APs W') 1 = Some A1" "map_of (vw_APs W') 2 = Some A2" by blast
  with iso own have "AP_got_base A1 \<and> AP_got_connection A1 \<and> \<not> AP_got_health A1"
    "\<not> AP_got_base A2 \<and> \<not> AP_got_connection A2 \<and> AP_got_health A2"
    by (auto simp: Let_def)
  with s d A show ?thesis by blast
qed

end
