(* ===== verification/Deletions.thy ===== *)
theory Deletions
  imports Orm
begin

text \<open>
  The deletions by a clause: \<^verbatim>\<open>DeleteRecords\<close> of \<^verbatim>\<open>src/src/framework/orm.h\<close>, and the statements that delete what is
  stored for a board, of \<^verbatim>\<open>src/src/storage/storage_timepoints.cpp\<close> and
  \<^verbatim>\<open>src/src/storage/storage_device_availability_events.cpp\<close>.  The first takes the board's id as it is, the second
  escapes it.
\<close>

text \<open>A database that runs a statement on the rows of a table, or raises.  The assertion on the clause is not part of
  a release build.\<close>

type_synonym 'r commands = "string \<Rightarrow> 'r list \<Rightarrow> 'r list cpp"

definition DeleteRecords :: "'r commands \<Rightarrow> string \<Rightarrow> string \<Rightarrow> 'r list \<Rightarrow> 'r list \<times> bool" where
  "DeleteRecords run T WhereClause rows =
     (case run (''delete from '' @ T @ '' where '' @ WhereClause) rows of
        Inl _ \<Rightarrow> (rows, False)
      | Inr rows' \<Rightarrow> (rows', True))"

definition quoted :: "string \<Rightarrow> string" where
  "quoted v = quote # Escape v @ [quote]"

definition raw :: "string \<Rightarrow> string" where
  "raw v = quote # v @ [quote]"

definition TimePoints_DeleteBoard :: "'r commands \<Rightarrow> string \<Rightarrow> 'r list \<Rightarrow> 'r list \<times> bool" where
  "TimePoints_DeleteBoard run boardId = DeleteRecords run ''timepoints'' ('' boardId='' @ raw boardId @ '' '')"

definition DeleteEventsForBoard :: "'r commands \<Rightarrow> string \<Rightarrow> 'r list \<Rightarrow> 'r list \<times> bool" where
  "DeleteEventsForBoard run boardId =
     DeleteRecords run ''device_availability_events'' ('' board_id='' @ quoted boardId @ '' '')"

lemma raw_plain: "quote \<notin> set v \<Longrightarrow> raw v = quoted v"
  by (simp add: raw_def quoted_def Escape_plain)

end
