(* ===== verification/VenueCoordinator.thy ===== *)
theory VenueCoordinator
  imports VenueWatcher Provisioning Deletions
begin

text \<open>
  \<^verbatim>\<open>src/src/VenueCoordinator\<close>: which boards are watched, and by which watcher.  The state of the coordinator
  is a record with the registries of the receivers and the tables it deletes from.  A watcher object is
  held with its address; the allocator, the provisioning service, whether the database answers and how it runs the
  statements that delete time points and events are the fields of the environment, which may answer differently at
  every call: the calls are numbered.
\<close>

record 'j coordinator =
  vc_BoardsToWatch :: "(string, BoardInfo) omap"
  vc_Watchers :: "(string, watcher_id \<times> 'j VenueWatcher) omap"
  vc_ExistingBoards :: "(string, u64 list) omap"
  vc_registries :: registries
  vc_BoardsDB :: "BoardInfo list"
  vc_TimePointsDB :: "DeviceTimePoint list"
  vc_EventsDB :: "DeviceAvailabilityEvent list"
  vc_calls :: nat

record ('o, 'v) environment =
  env_json :: "('o, 'v) poco"
  env_api :: "nat \<Rightarrow> 'o api"
  env_db :: "nat \<Rightarrow> bool"
  env_timepoints :: "nat \<Rightarrow> DeviceTimePoint commands"
  env_events :: "nat \<Rightarrow> DeviceAvailabilityEvent commands"
  env_alloc :: "nat \<Rightarrow> watcher_id list \<Rightarrow> watcher_id"

text \<open>A call with a result, or an exception.\<close>

type_synonym ('s, 'a) call = "'s \<Rightarrow> 's \<times> 'a cpp"

definition board_id :: "BoardInfo \<Rightarrow> string" where
  "board_id B = info_id (board_info B)"

definition live_watchers :: "'j coordinator \<Rightarrow> watcher_id list" where
  "live_watchers S = map (fst \<circ> snd) (vc_Watchers S)"

definition Watching :: "string \<Rightarrow> 'j coordinator \<Rightarrow> bool" where
  "Watching bid S \<longleftrightarrow> map_of (vc_ExistingBoards S) bid \<noteq> None"

definition Coordinator_GetDevices :: "string \<Rightarrow> 'j coordinator \<Rightarrow> DeviceInfo list" where
  "Coordinator_GetDevices bid S =
     (case map_of (vc_Watchers S) bid of None \<Rightarrow> [] | Some (_, W) \<Rightarrow> Watcher_GetDevices W)"

text \<open>\<^verbatim>\<open>BoardsDB().GetRecord("id", id, B)\<close>.\<close>

definition GetBoard :: "('o, 'v) environment \<Rightarrow> string \<Rightarrow> ('j coordinator, BoardInfo option) call" where
  "GetBoard E bid S =
     (S \<lparr> vc_calls := vc_calls S + 1 \<rparr>,
      Inr (if env_db E (vc_calls S) then find (\<lambda>B. board_id B = bid) (vc_BoardsDB S) else None))"

definition watch_insert :: "BoardInfo \<Rightarrow> (string, BoardInfo) omap \<Rightarrow> (string, BoardInfo) omap" where
  "watch_insert B N = (if map_of N (board_id B) = None then omap_set (board_id B) B N else N)"

text \<open>\<^verbatim>\<open>BoardsDB().Iterate\<close> reads the table in pages of 50 rows and stops at the first page that fails or is not full;
  what it has read before stays.  The pages are taken to be those of one order of the rows, which SQL does not promise for
  a statement without an order.\<close>

function board_pages :: "('o, 'v) environment \<Rightarrow> nat \<Rightarrow> BoardInfo list \<Rightarrow> nat \<times> BoardInfo list" where
  "board_pages E n rows =
     (if \<not> env_db E n \<or> rows = [] then (n + 1, [])
      else if length rows < 50 then (n + 1, rows)
      else case board_pages E (n + 1) (drop 50 rows) of (n', rest) \<Rightarrow> (n', take 50 rows @ rest))"
  by pat_completeness auto
termination
  by (relation "measure (\<lambda>(E, n, rows). length rows)") auto

declare board_pages.simps [simp del]

definition GetBoardList :: "('o, 'v) environment \<Rightarrow> 'j coordinator \<Rightarrow> 'j coordinator" where
  "GetBoardList E S =
     (case board_pages E (vc_calls S) (vc_BoardsDB S) of
        (n, Records) \<Rightarrow> S \<lparr> vc_calls := n, vc_BoardsToWatch := fold watch_insert Records [] \<rparr>)"

definition StopBoard :: "string \<Rightarrow> 'j coordinator \<Rightarrow> 'j coordinator" where
  "StopBoard bid S =
     (case map_of (vc_Watchers S) bid of
        None \<Rightarrow> S
      | Some (self, W) \<Rightarrow>
          S \<lparr> vc_registries := snd (Watcher_Stop self (W, vc_registries S)),
              vc_Watchers := omap_erase bid (vc_Watchers S) \<rparr>)"

definition RetireBoard :: "('o, 'v) environment \<Rightarrow> BoardInfo \<Rightarrow> ('j coordinator, unit) call" where
  "RetireBoard E B S =
     (if board_venueList B = [] then (S, Inl Undefined)
      else let S = StopBoard (board_id B) S;
               n = vc_calls S
           in (S \<lparr> vc_calls := n + 3,
                   vc_BoardsDB := (if env_db E n then filter (\<lambda>R. board_id R \<noteq> board_id B) (vc_BoardsDB S)
                     else vc_BoardsDB S),
                   vc_TimePointsDB := fst (DeleteRecords (env_timepoints E (n + 1)) ''timepoints''
                     ('' boardId='' @ raw (board_id B) @ '' '') (vc_TimePointsDB S)),
                   vc_EventsDB := fst (DeleteEventsForBoard (env_events E (n + 2)) (board_id B) (vc_EventsDB S)) \<rparr>,
               Inr ()))"

fun serials_to_ints :: "string list \<Rightarrow> u64 list cpp" where
  "serials_to_ints [] = Inr []"
| "serials_to_ints (d # ds) = bind (SerialNumberToInt d) (\<lambda>n. bind (serials_to_ints ds) (\<lambda>ns. Inr (n # ns)))"

text \<open>The answer, the devices and whether the venue exists.\<close>

definition GetDevicesForBoard ::
  "('o, 'v) environment \<Rightarrow> BoardInfo \<Rightarrow> ('j coordinator, bool \<times> u64 list \<times> bool) call" where
  "GetDevicesForBoard E B S =
     (case board_venueList B of
        [] \<Rightarrow> (S, Inl Undefined)
      | V # _ \<Rightarrow>
          (let S' = S \<lparr> vc_calls := vc_calls S + 1 \<rparr>
           in case Venue_GetDevices (env_json E) (env_api E (vc_calls S)) [] (venue_id V) (venue_monitorSubVenues V) of
                (True, VDL, VenueExists) \<Rightarrow>
                  (S', bind (serials_to_ints (vdl_devices VDL)) (\<lambda>Devices. Inr (True, sort_unique Devices, VenueExists)))
              | (False, VDL, True) \<Rightarrow> (S', Inr (False, [], True))
              | (False, VDL, False) \<Rightarrow>
                  (case RetireBoard E B S' of
                     (S'', Inl e) \<Rightarrow> (S'', Inl e)
                   | (S'', Inr _) \<Rightarrow> (S'', Inr (False, [], False)))))"

definition StartBoard :: "('o, 'v) environment \<Rightarrow> BoardInfo \<Rightarrow> ('j coordinator, bool) call" where
  "StartBoard E B S =
     (case board_venueList B of
        [] \<Rightarrow> (S, Inr True)
      | V # _ \<Rightarrow>
          (case GetDevicesForBoard E B S of
             (S, Inl e) \<Rightarrow> (S, Inl e)
           | (S, Inr (True, Devices, _)) \<Rightarrow>
               (let self = env_alloc E (vc_calls S) (live_watchers S)
                in case Watcher_Start self (VenueWatcher_new (board_id B) (venue_id V) Devices, vc_registries S) of
                     (W, R) \<Rightarrow>
                       (S \<lparr> vc_calls := vc_calls S + 1,
                            vc_ExistingBoards := omap_set (board_id B) Devices (vc_ExistingBoards S),
                            vc_Watchers := omap_set (board_id B) (self, W) (vc_Watchers S),
                            vc_registries := R \<rparr>, Inr True))
           | (S, Inr (False, _, VenueExists)) \<Rightarrow>
               if \<not> VenueExists
               then (case RetireBoard E B S of (S, Inl e) \<Rightarrow> (S, Inl e) | (S, Inr _) \<Rightarrow> (S, Inr False))
               else (S, Inr False)))"

definition modify_board :: "string \<Rightarrow> u64 list \<Rightarrow> 'j coordinator \<Rightarrow> 'j coordinator" where
  "modify_board bid Devices S =
     (case map_of (vc_ExistingBoards S) bid of
        None \<Rightarrow> S
      | Some old \<Rightarrow>
          if old \<noteq> Devices then
            (case map_of (vc_Watchers S) bid of
               None \<Rightarrow> S
             | Some (self, W) \<Rightarrow>
                 (case ModifySerialNumbers self Devices (W, vc_registries S) of
                    (W', R) \<Rightarrow> S \<lparr> vc_Watchers := omap_set bid (self, W') (vc_Watchers S), vc_registries := R \<rparr>))
              \<lparr> vc_ExistingBoards := omap_set bid Devices (vc_ExistingBoards S) \<rparr>
          else S)"

definition UpdateBoard :: "('o, 'v) environment \<Rightarrow> string \<Rightarrow> ('j coordinator, unit) call" where
  "UpdateBoard E bid S =
     (case GetBoard E bid S of
        (S, Inr (Some B)) \<Rightarrow>
          (case GetDevicesForBoard E B S of
             (S, Inl e) \<Rightarrow> (S, Inl e)
           | (S, Inr (True, Devices, _)) \<Rightarrow> (modify_board bid Devices S, Inr ())
           | (S, Inr (False, _, VenueExists)) \<Rightarrow>
               if \<not> VenueExists then RetireBoard E B S else (S, Inr ()))
      | (S, _) \<Rightarrow> (S, Inr ()))"

definition AddBoard :: "('o, 'v) environment \<Rightarrow> string \<Rightarrow> 'j coordinator \<Rightarrow> 'j coordinator" where
  "AddBoard E bid S =
     (case GetBoard E bid S of
        (S, Inr (Some B)) \<Rightarrow> S \<lparr> vc_BoardsToWatch := watch_insert B (vc_BoardsToWatch S) \<rparr>
      | (S, _) \<Rightarrow> S)"

section \<open>The two periodic activities\<close>

text \<open>One board in the loop of \<^verbatim>\<open>run\<close>.\<close>

definition visit_board :: "('o, 'v) environment \<Rightarrow> BoardInfo \<Rightarrow> ('j coordinator, unit) call" where
  "visit_board E B S =
     (if \<not> Watching (board_id B) S
      then (case StartBoard E B S of (S, Inl e) \<Rightarrow> (S, Inl e) | (S, Inr _) \<Rightarrow> (S, Inr ()))
      else case board_venueList B of
             [] \<Rightarrow> (S, Inl Undefined)
           | V # _ \<Rightarrow>
               (let S' = S \<lparr> vc_calls := vc_calls S + 1 \<rparr>
                in case Venue_Exists (env_api E (vc_calls S)) [] (venue_id V) of
                     (answered, VenueExists) \<Rightarrow>
                       if answered \<and> \<not> VenueExists then RetireBoard E B S' else (S', Inr ())))"

fun visit_boards :: "('o, 'v) environment \<Rightarrow> BoardInfo list \<Rightarrow> ('j coordinator, unit) call" where
  "visit_boards E [] S = (S, Inr ())"
| "visit_boards E (B # Bs) S =
     (case visit_board E B S of (S', Inl e) \<Rightarrow> (S', Inl e) | (S', Inr _) \<Rightarrow> visit_boards E Bs S')"

definition run_once :: "('o, 'v) environment \<Rightarrow> ('j coordinator, unit) call" where
  "run_once E S =
     (let S = GetBoardList E S in visit_boards E (map snd (vc_BoardsToWatch S)) S)"

text \<open>\<^verbatim>\<open>onReconcileTimer\<close> iterates over the watchers; erasing the one it stands on would be undefined.\<close>

fun update_all :: "('o, 'v) environment \<Rightarrow> string list \<Rightarrow> ('j coordinator, unit) call" where
  "update_all E [] S = (S, Inr ())"
| "update_all E (bid # bids) S =
     (case UpdateBoard E bid S of
        (S', Inl e) \<Rightarrow> (S', Inl e)
      | (S', Inr _) \<Rightarrow> if map_of (vc_Watchers S') bid = None then (S', Inl Undefined) else update_all E bids S')"

definition onReconcileTimer :: "('o, 'v) environment \<Rightarrow> ('j coordinator, unit) call" where
  "onReconcileTimer E S = update_all E (map fst (vc_Watchers S)) S"

section \<open>The invariant\<close>

definition live :: "'j coordinator \<Rightarrow> watcher_id set" where
  "live S = {w. \<exists>k W. map_of (vc_Watchers S) k = Some (w, W)}"

text \<open>Every watcher is held under one board, is registered for exactly its devices, which are those recorded for
  the board, and nobody else is registered.\<close>

definition coord_ok :: "'j coordinator \<Rightarrow> bool" where
  "coord_ok S \<longleftrightarrow> omap_wf (vc_Watchers S) \<and> regs_ok (vc_registries S)
     \<and> (\<forall>k k' w W W'. map_of (vc_Watchers S) k = Some (w, W) \<longrightarrow> map_of (vc_Watchers S) k' = Some (w, W') \<longrightarrow> k = k')
     \<and> (\<forall>k w W. map_of (vc_Watchers S) k = Some (w, W) \<longrightarrow>
          watcher_ok w W (vc_registries S) \<and> map_of (vc_ExistingBoards S) k = Some (vw_SerialNumbers W))
     \<and> (\<forall>w. w \<notin> live S \<longrightarrow> registered_for (vc_registries S) w {})"

lemma coord_okD:
  assumes "coord_ok S"
  shows "omap_wf (vc_Watchers S)" "regs_ok (vc_registries S)"
    "map_of (vc_Watchers S) k = Some (w, W) \<Longrightarrow> map_of (vc_Watchers S) k' = Some (w, W') \<Longrightarrow> k = k'"
    "map_of (vc_Watchers S) k = Some (w, W) \<Longrightarrow> watcher_ok w W (vc_registries S)"
    "map_of (vc_Watchers S) k = Some (w, W) \<Longrightarrow> map_of (vc_ExistingBoards S) k = Some (vw_SerialNumbers W)"
    "w \<notin> live S \<Longrightarrow> registered_for (vc_registries S) w {}"
  using assms unfolding coord_ok_def by blast+

lemma live_watchers_set: "omap_wf (vc_Watchers S) \<Longrightarrow> set (live_watchers S) = live S"
  by (force simp: live_watchers_def live_def omap_in_set_iff[symmetric])

lemma coord_ok_simps [simp]:
  "coord_ok (S \<lparr> vc_calls := n \<rparr>) = coord_ok S" "coord_ok (S \<lparr> vc_BoardsToWatch := b \<rparr>) = coord_ok S"
  "coord_ok (S \<lparr> vc_BoardsDB := d \<rparr>) = coord_ok S" "coord_ok (S \<lparr> vc_TimePointsDB := t \<rparr>) = coord_ok S"
  "coord_ok (S \<lparr> vc_EventsDB := v \<rparr>) = coord_ok S"
  by (simp_all add: coord_ok_def live_def)

lemma watcher_ok_same: "same_registration w R R' \<Longrightarrow> watcher_ok w W R \<Longrightarrow> watcher_ok w W R'"
  by (simp add: watcher_ok_def same_registration_def)

lemma registered_same: "same_registration w R R' \<Longrightarrow> registered_for R w D \<Longrightarrow> registered_for R' w D"
  by (simp add: same_registration_def)

lemma coord_okI:
  assumes "omap_wf (vc_Watchers S)" "regs_ok (vc_registries S)"
    and "\<And>k k' w W W'. map_of (vc_Watchers S) k = Some (w, W) \<Longrightarrow> map_of (vc_Watchers S) k' = Some (w, W') \<Longrightarrow> k = k'"
    and "\<And>k w W. map_of (vc_Watchers S) k = Some (w, W) \<Longrightarrow> watcher_ok w W (vc_registries S)"
    and "\<And>k w W. map_of (vc_Watchers S) k = Some (w, W) \<Longrightarrow> map_of (vc_ExistingBoards S) k = Some (vw_SerialNumbers W)"
    and "\<And>w. w \<notin> live S \<Longrightarrow> registered_for (vc_registries S) w {}"
  shows "coord_ok S"
  using assms unfolding coord_ok_def by blast

text \<open>Replacing the watcher of one board, or removing it, while the registrations of all others stay.\<close>

lemma coord_ok_replace:
  assumes "coord_ok S" and "omap_wf N" "map_of N = (map_of (vc_Watchers S))(k := v)"
    and "regs_ok R" "\<And>u. u \<noteq> w \<Longrightarrow> same_registration u (vc_registries S) R"
    and "\<And>k' W'. map_of (vc_Watchers S) k' = Some (w, W') \<Longrightarrow> k' = k"
    and "\<And>u W'. map_of (vc_Watchers S) k = Some (u, W') \<Longrightarrow> u = w"
    and "case v of None \<Rightarrow> registered_for R w {}
       | Some (u, W) \<Rightarrow> u = w \<and> watcher_ok w W R \<and> map_of X k = Some (vw_SerialNumbers W)"
    and "\<And>k'. k' \<noteq> k \<Longrightarrow> map_of X k' = map_of (vc_ExistingBoards S) k'"
    and "vc_Watchers S' = N" "vc_registries S' = R" "vc_ExistingBoards S' = X"
  shows "coord_ok S'"
proof (rule coord_okI, unfold assms(10-12))
  note D = coord_okD[OF assms(1)]
  show "omap_wf N" "regs_ok R" by (rule assms(2), rule assms(4))
  have v: "v = Some (u, W) \<Longrightarrow> u = w \<and> watcher_ok w W R \<and> map_of X k = Some (vw_SerialNumbers W)" for u W
    using assms(8) by auto
  show "k1 = k2" if "map_of N k1 = Some (u, V)" "map_of N k2 = Some (u, V')" for k1 k2 u V V'
    using that v D(3) assms(6) by (auto simp: assms(3) split: if_splits)
  fix k1 u V assume "map_of N k1 = Some (u, V)"
  then consider "k1 = k" "v = Some (u, V)" | "k1 \<noteq> k" "map_of (vc_Watchers S) k1 = Some (u, V)"
    by (auto simp: assms(3) split: if_splits)
  then have "watcher_ok u V R \<and> map_of X k1 = Some (vw_SerialNumbers V)"
  proof cases
    case 2
    then have "u \<noteq> w" using assms(6) by blast
    then have "watcher_ok u V R" by (rule watcher_ok_same[OF assms(5) D(4)[OF 2(2)]])
    then show ?thesis using D(5)[OF 2(2)] assms(9)[OF 2(1)] by simp
  qed (use v in auto)
  then show "watcher_ok u V R" "map_of X k1 = Some (vw_SerialNumbers V)" by auto
next
  note D = coord_okD[OF assms(1)]
  fix u assume u: "u \<notin> live S'"
  show "registered_for R u {}"
  proof (cases "u = w")
    case True
    then have "v = None" using u assms(3,8,10) by (cases v) (auto simp: live_def split: if_splits)
    with True assms(8) show ?thesis by simp
  next
    case False
    have "u \<notin> live S"
    proof
      assume "u \<in> live S"
      then obtain k1 V where "map_of (vc_Watchers S) k1 = Some (u, V)" by (auto simp: live_def)
      then show False using u False assms(3,7,10) by (auto simp: live_def split: if_splits)
    qed
    then show ?thesis using registered_same[OF assms(5)[OF False] D(6)] by blast
  qed
qed

lemma StopBoard_ok:
  assumes "coord_ok S"
  shows "coord_ok (StopBoard k S)"
proof (cases "map_of (vc_Watchers S) k")
  case None
  with assms show ?thesis by (simp add: StopBoard_def)
next
  case (Some p)
  obtain w W where p: "map_of (vc_Watchers S) k = Some (w, W)" using Some by (cases p) auto
  obtain W1 R1 where st: "Watcher_Stop w (W, vc_registries S) = (W1, R1)" by fastforce
  note D = coord_okD[OF assms]
  note st_ok = Watcher_Stop_ok[OF D(4)[OF p] D(2) st]
  show ?thesis
  proof (rule coord_ok_replace[OF assms, where k = k and w = w and v = None and R = R1
        and N = "omap_erase k (vc_Watchers S)" and X = "vc_ExistingBoards S"])
    show "\<And>k' W'. map_of (vc_Watchers S) k' = Some (w, W') \<Longrightarrow> k' = k" using D(3)[OF p] by metis
  qed (use p st st_ok D(1) in \<open>auto simp: StopBoard_def\<close>)
qed

lemma RetireBoard_ok: "coord_ok S \<Longrightarrow> coord_ok (fst (RetireBoard E B S))"
  using StopBoard_ok[of S "board_id B"] by (simp add: RetireBoard_def Let_def)

text \<open>The provisioning client never reports a missing venue as a failure, so the two calls of \<^verbatim>\<open>RetireBoard\<close> that
  follow a failed \<^verbatim>\<open>GetDevices\<close> are never reached.\<close>

lemma Venue_GetDevices_fails: "Venue_GetDevices J Do token v c = (False, VDL, x) \<Longrightarrow> x"
  by (auto simp: Venue_GetDevices_def split: prod.splits if_splits)

lemma GetDevicesForBoard_effect:
  assumes "GetDevicesForBoard E B S = (S', r)"
  shows "S' = S \<lparr> vc_calls := vc_calls S' \<rparr>" "r = Inr (True, ds, x) \<Longrightarrow> strictly_sorted ds"
    "r = Inr (False, ds, x) \<Longrightarrow> x"
proof -
  obtain V Vs where V: "board_venueList B = V # Vs \<or> board_venueList B = []" by (cases "board_venueList B") auto
  obtain f VDL e where g: "Venue_GetDevices (env_json E) (env_api E (vc_calls S)) [] (venue_id V) (venue_monitorSubVenues V)
      = (f, VDL, e)" by (metis prod.collapse)
  have e: "f \<or> e" using g by (cases f) (auto dest: Venue_GetDevices_fails)
  show "S' = S \<lparr> vc_calls := vc_calls S' \<rparr>" "r = Inr (True, ds, x) \<Longrightarrow> strictly_sorted ds"
    "r = Inr (False, ds, x) \<Longrightarrow> x"
    using assms V g e
    by (auto simp: GetDevicesForBoard_def Let_def bind_def split: if_splits sum.splits bool.splits)
qed

definition env_ok :: "('o, 'v) environment \<Rightarrow> bool" where
  "env_ok E \<longleftrightarrow> (\<forall>n ws. env_alloc E n ws \<notin> set ws)"

lemma StartBoard_ok:
  fixes S :: "'j coordinator"
  assumes "env_ok E" "coord_ok S" "map_of (vc_Watchers S) (board_id B) = None"
  shows "coord_ok (fst (StartBoard E B S))"
proof (cases "board_venueList B")
  case Nil
  with assms show ?thesis by (simp add: StartBoard_def)
next
  case (Cons V Vs)
  obtain S1 r where g: "GetDevicesForBoard E B S = (S1, r)" by fastforce
  note ge = GetDevicesForBoard_effect[OF g]
  have ok1: "coord_ok S1" using assms(2) by (subst ge(1)) simp
  have w1: "vc_Watchers S1 = vc_Watchers S" by (subst ge(1)) simp
  show ?thesis
  proof (cases r)
    case (Inl e)
    with g Cons ok1 show ?thesis by (simp add: StartBoard_def)
  next
    case (Inr a)
    then obtain f ds x where r: "r = Inr (f, ds, x)" by (cases a) auto
    show ?thesis
    proof (cases f)
      case False
      with ge(3) r g Cons ok1 show ?thesis by (simp add: StartBoard_def)
    next
      case True
      let ?w = "env_alloc E (vc_calls S1) (live_watchers S1)"
      let ?W0 = "VenueWatcher_new (board_id B) (venue_id V) ds :: 'j VenueWatcher"
      obtain W R where st: "Watcher_Start ?w (?W0, vc_registries S1) = (W, R)" by fastforce
      note D = coord_okD[OF ok1]
      have fresh: "?w \<notin> live S1" using assms(1) live_watchers_set[OF D(1)] by (auto simp: env_ok_def)
      have srt: "strictly_sorted ds" using ge(2) r True by simp
      then have u: "sort_unique ds = ds" by (simp add: sort_unique_id strict_sorted_iff)
      have ws: "strictly_sorted (vw_SerialNumbers ?W0)" "vw_APs ?W0 = []" "vw_SerialNumbers ?W0 = ds"
        using srt by (simp_all add: VenueWatcher_new_def u)
      note s_ok = Watcher_Start_ok[OF ws(1,2) D(6)[OF fresh] D(2) st]
      show ?thesis
      proof (rule coord_ok_replace[OF ok1, where k = "board_id B" and w = ?w and v = "Some (?w, W)" and R = R
            and N = "omap_set (board_id B) (?w, W) (vc_Watchers S1)"
            and X = "omap_set (board_id B) ds (vc_ExistingBoards S1)"])
        show "\<And>k' W'. map_of (vc_Watchers S1) k' = Some (?w, W') \<Longrightarrow> k' = board_id B"
          using fresh by (auto simp: live_def)
        show "\<And>u W'. map_of (vc_Watchers S1) (board_id B) = Some (u, W') \<Longrightarrow> u = ?w"
          using assms(3) w1 by simp
      qed (use g r True Cons st s_ok ws(3) D(1) in \<open>auto simp: StartBoard_def Let_def\<close>)
    qed
  qed
qed

lemma modify_board_ok:
  assumes "coord_ok S" "strictly_sorted ds"
  shows "coord_ok (modify_board k ds S)"
proof (cases "map_of (vc_ExistingBoards S) k = None \<or> map_of (vc_ExistingBoards S) k = Some ds")
  case True
  with assms(1) show ?thesis by (auto simp: modify_board_def)
next
  case False
  then obtain old where old: "map_of (vc_ExistingBoards S) k = Some old" "old \<noteq> ds" by auto
  note D = coord_okD[OF assms(1)]
  show ?thesis
  proof (cases "map_of (vc_Watchers S) k")
    case None
    have "modify_board k ds S = S \<lparr> vc_ExistingBoards := omap_set k ds (vc_ExistingBoards S) \<rparr>"
      using old None by (simp add: modify_board_def)
    moreover have "coord_ok (S \<lparr> vc_ExistingBoards := omap_set k ds (vc_ExistingBoards S) \<rparr>)"
      using D None by (intro coord_okI) (auto simp: live_def split: if_splits)
    ultimately show ?thesis by simp
  next
    case (Some p)
    then obtain w W where p: "map_of (vc_Watchers S) k = Some (w, W)" by (cases p) auto
    obtain W' R where m: "ModifySerialNumbers w ds (W, vc_registries S) = (W', R)" by fastforce
    note m_ok = ModifySerialNumbers_ok[OF D(4)[OF p] D(2) assms(2) m]
    show ?thesis
    proof (rule coord_ok_replace[OF assms(1), where k = k and w = w and v = "Some (w, W')" and R = R
          and N = "omap_set k (w, W') (vc_Watchers S)" and X = "omap_set k ds (vc_ExistingBoards S)"])
      show "\<And>k' W'. map_of (vc_Watchers S) k' = Some (w, W') \<Longrightarrow> k' = k" using D(3)[OF p] by metis
    qed (use old p m m_ok D(1) in \<open>auto simp: modify_board_def\<close>)
  qed
qed

lemma GetDevicesForBoard_ok: "coord_ok S \<Longrightarrow> GetDevicesForBoard E B S = (S', r) \<Longrightarrow> coord_ok S'"
  using GetDevicesForBoard_effect(1)[of E B S S' r] by (metis coord_ok_simps(1))

lemma UpdateBoard_ok:
  assumes "coord_ok S"
  shows "coord_ok (fst (UpdateBoard E k S))"
proof (cases "snd (GetBoard E k S)")
  case (Inr ob)
  obtain S0 where g0: "GetBoard E k S = (S0, Inr ob)" "coord_ok S0"
    using Inr assms by (auto simp: GetBoard_def)
  show ?thesis
  proof (cases ob)
    case None
    with g0 show ?thesis by (simp add: UpdateBoard_def)
  next
    case (Some B)
    obtain S1 r where g: "GetDevicesForBoard E B S0 = (S1, r)" by fastforce
    note ge = GetDevicesForBoard_effect[OF g] and ok1 = GetDevicesForBoard_ok[OF g0(2) g]
    show ?thesis
    proof (cases r)
      case (Inl e)
      with g0 g Some ok1 show ?thesis by (simp add: UpdateBoard_def)
    next
      case (Inr a)
      then obtain f ds x where r: "r = Inr (f, ds, x)" by (cases a) auto
      with g0 g Some ok1 ge modify_board_ok[OF ok1] RetireBoard_ok[OF ok1] show ?thesis
        by (cases f) (auto simp: UpdateBoard_def)
    qed
  qed
qed (simp add: GetBoard_def)

lemma AddBoard_ok: "coord_ok S \<Longrightarrow> coord_ok (AddBoard E k S)"
  by (auto simp: AddBoard_def GetBoard_def split: option.split)

lemma GetBoardList_ok: "coord_ok S \<Longrightarrow> coord_ok (GetBoardList E S)"
  by (simp add: GetBoardList_def split: prod.split)

lemma visit_board_ok:
  assumes "env_ok E" "coord_ok S"
  shows "coord_ok (fst (visit_board E B S))"
proof (cases "Watching (board_id B) S")
  case False
  then have "map_of (vc_Watchers S) (board_id B) = None"
    using coord_okD(5)[OF assms(2)] by (cases "map_of (vc_Watchers S) (board_id B)") (force simp: Watching_def)+
  from StartBoard_ok[OF assms this] False show ?thesis
    by (auto simp: visit_board_def split: prod.split sum.split)
next
  case True
  then show ?thesis using assms(2) RetireBoard_ok[of "S \<lparr> vc_calls := vc_calls S + 1 \<rparr>" E B]
    by (auto simp: visit_board_def Let_def split: list.split prod.split)
qed

lemma visit_boards_ok: "env_ok E \<Longrightarrow> coord_ok S \<Longrightarrow> coord_ok (fst (visit_boards E Bs S))"
proof (induction Bs arbitrary: S)
  case (Cons B Bs)
  obtain S1 r where v: "visit_board E B S = (S1, r)" by fastforce
  then have "coord_ok S1" using visit_board_ok[OF Cons.prems, of B] by simp
  with v Cons show ?case by (cases r) auto
qed simp

lemma run_once_ok: "env_ok E \<Longrightarrow> coord_ok S \<Longrightarrow> coord_ok (fst (run_once E S))"
  by (simp add: run_once_def Let_def visit_boards_ok GetBoardList_ok)

lemma update_all_ok: "coord_ok S \<Longrightarrow> coord_ok (fst (update_all E ks S))"
proof (induction ks arbitrary: S)
  case (Cons k ks)
  obtain S1 r where v: "UpdateBoard E k S = (S1, r)" by fastforce
  then have "coord_ok S1" using UpdateBoard_ok[OF Cons.prems, of E k] by simp
  with v Cons show ?case by (cases r) auto
qed simp

lemma onReconcileTimer_ok: "coord_ok S \<Longrightarrow> coord_ok (fst (onReconcileTimer E S))"
  by (simp add: onReconcileTimer_def update_all_ok)

lemma dispatch_watcher_ok:
  assumes "watcher_ok w W R" "dispatch L e M (W, Wd) = ((W', Wd'), x)"
  shows "watcher_ok w W' R" "vw_SerialNumbers W' = vw_SerialNumbers W"
proof -
  have "watcher_ok w W' R \<and> vw_SerialNumbers W' = vw_SerialNumbers W"
  proof (cases "map_of (vw_APs W) (vm_SerialNumber M)")
    case None
    with assms show ?thesis by (simp add: dispatch_def)
  next
    case (Some A)
    then have "vm_SerialNumber M \<in> dom (map_of (vw_APs W))" by blast
    moreover obtain A' where "W' = W \<lparr> vw_APs := omap_set (vm_SerialNumber M) A' (vw_APs W) \<rparr>"
      using assms(2) Some by (auto simp: dispatch_def split: prod.splits)
    ultimately show ?thesis using assms(1) by (simp add: watcher_ok_def insert_absorb)
  qed
  then show "watcher_ok w W' R" "vw_SerialNumbers W' = vw_SerialNumbers W" by auto
qed

section \<open>Everything that can happen\<close>

text \<open>The steps of the service: the two periodic activities, the calls of the REST handlers, changes of the
  boards table, and the messages of the watchers' queues.\<close>

inductive coord_step :: "('o, 'v) environment \<Rightarrow> 'j nlohmann \<Rightarrow> 'j coordinator \<Rightarrow> 'j coordinator \<Rightarrow> bool"
  for E :: "('o, 'v) environment" and L :: "'j nlohmann" where
  step_run: "coord_step E L S (fst (run_once E S))"
| step_timer: "coord_step E L S (fst (onReconcileTimer E S))"
| step_stop: "coord_step E L S (StopBoard k S)"
| step_update: "coord_step E L S (fst (UpdateBoard E k S))"
| step_add: "coord_step E L S (AddBoard E k S)"
| step_table: "coord_step E L S (S \<lparr> vc_BoardsDB := rows \<rparr>)"
| step_post: "map_of (vc_Watchers S) k = Some (w, W) \<Longrightarrow>
     coord_step E L S (S \<lparr> vc_Watchers := omap_set k (w, enqueue T sn j W) (vc_Watchers S) \<rparr>)"
| step_message: "map_of (vc_Watchers S) k = Some (w, W) \<Longrightarrow> dispatch L e M (W, Wd) = ((W', Wd'), x) \<Longrightarrow>
     coord_step E L S (S \<lparr> vc_Watchers := omap_set k (w, W') (vc_Watchers S) \<rparr>)"

definition coordinator_init :: "BoardInfo list \<Rightarrow> 'j coordinator" where
  "coordinator_init rows = \<lparr> vc_BoardsToWatch = [], vc_Watchers = [], vc_ExistingBoards = [],
     vc_registries = empty_registries, vc_BoardsDB = rows, vc_TimePointsDB = [], vc_EventsDB = [], vc_calls = 0 \<rparr>"

lemma coord_ok_init: "coord_ok (coordinator_init rows)"
  by (rule coord_okI) (simp_all add: coordinator_init_def)

lemma coord_ok_same_devices:
  assumes "coord_ok S" "map_of (vc_Watchers S) k = Some (w, W)" "watcher_ok w W' (vc_registries S)"
    "vw_SerialNumbers W' = vw_SerialNumbers W"
  shows "coord_ok (S \<lparr> vc_Watchers := omap_set k (w, W') (vc_Watchers S) \<rparr>)"
proof (rule coord_ok_replace[OF assms(1), where k = k and w = w and v = "Some (w, W')" and R = "vc_registries S"
      and N = "omap_set k (w, W') (vc_Watchers S)" and X = "vc_ExistingBoards S"])
  note D = coord_okD[OF assms(1)]
  show "\<And>k' W'. map_of (vc_Watchers S) k' = Some (w, W') \<Longrightarrow> k' = k" using D(3)[OF assms(2)] by metis
  show "omap_wf (omap_set k (w, W') (vc_Watchers S))" "regs_ok (vc_registries S)" using D(1,2) by simp_all
  show "case Some (w, W') of None \<Rightarrow> registered_for (vc_registries S) w {}
     | Some (u, W) \<Rightarrow> u = w \<and> watcher_ok w W (vc_registries S) \<and> map_of (vc_ExistingBoards S) k = Some (vw_SerialNumbers W)"
    using D(5)[OF assms(2)] assms(3,4) by simp
qed (use assms(2) in \<open>simp_all add: same_registration_def\<close>)

lemma coord_step_ok: "coord_step E L S S' \<Longrightarrow> env_ok E \<Longrightarrow> coord_ok S \<Longrightarrow> coord_ok S'"
proof (induction rule: coord_step.induct)
  case (step_post S k w W T sn j)
  then show ?case
    using coord_okD(4)[OF step_post(3,1)] by (intro coord_ok_same_devices) (auto simp: watcher_ok_def enqueue_def)
next
  case (step_message S k w W e M Wd W' Wd' x)
  then show ?case
    using dispatch_watcher_ok[OF coord_okD(4)[OF step_message(4,1)] step_message(2)] by (intro coord_ok_same_devices)
qed (auto intro: run_once_ok onReconcileTimer_ok StopBoard_ok UpdateBoard_ok AddBoard_ok)

lemma coord_reachable_ok:
  assumes "(coord_step E L)\<^sup>*\<^sup>* (coordinator_init rows) S" "env_ok E"
  shows "coord_ok S"
  using assms(1) by (induction rule: rtranclp_induct) (auto intro: coord_ok_init coord_step_ok assms(2))

text \<open>
  C1: No receiver ever holds a dangling pointer: in every state the service can reach, whatever the
  provisioning service, the database and the devices answered on the way, each watcher a state, connection
  or health message would be posted to is one the coordinator holds, under exactly one board, and the
  device of the message is one of its devices and has an access point there.
\<close>

theorem receivers_point_to_live_watchers:
  assumes "(coord_step E L)\<^sup>*\<^sup>* (coordinator_init rows) S" "env_ok E"
    and "w \<in> set (state_targets (StateNotifiers (vc_registries S)) sn)
      \<or> first_watcher sn (StatusNotifiers (vc_registries S)) = Some w
      \<or> first_watcher sn (HealthNotifiers (vc_registries S)) = Some w"
  shows "\<exists>!k. \<exists>W. map_of (vc_Watchers S) k = Some (w, W) \<and> sn \<in> set (vw_SerialNumbers W)
    \<and> map_of (vw_APs W) sn \<noteq> None \<and> map_of (vc_ExistingBoards S) k = Some (vw_SerialNumbers W)"
proof -
  have ok: "coord_ok S" by (rule coord_reachable_ok[OF assms(1,2)])
  note D = coord_okD[OF ok]
  let ?R = "vc_registries S"
  have reg: "sn \<in> X" if "registered_for ?R w X" for X
    using assms(3)
  proof (elim disjE)
    assume "w \<in> set (state_targets (StateNotifiers ?R) sn)"
    then have "count_list (state_targets (StateNotifiers ?R) sn) w \<noteq> 0" by (simp add: count_list_0_iff)
    with that show ?thesis by (auto simp: registered_for_def split: if_splits)
  next
    assume "first_watcher sn (StatusNotifiers ?R) = Some w"
    with status.target_Some[of "StatusNotifiers ?R" sn w] that D(2) show ?thesis
      by (auto simp: registered_for_def regs_ok_def)
  next
    assume "first_watcher sn (HealthNotifiers ?R) = Some w"
    with health.target_Some[of "HealthNotifiers ?R" sn w] that D(2) show ?thesis
      by (auto simp: registered_for_def regs_ok_def)
  qed
  then have "w \<in> live S" using D(6) by blast
  then obtain k W where k: "map_of (vc_Watchers S) k = Some (w, W)" by (auto simp: live_def)
  have wok: "registered_for ?R w (set (vw_SerialNumbers W))" "dom (map_of (vw_APs W)) = set (vw_SerialNumbers W)"
    using D(4)[OF k] by (simp_all add: watcher_ok_def)
  have sn: "sn \<in> set (vw_SerialNumbers W)" by (rule reg[OF wok(1)])
  then have "map_of (vw_APs W) sn \<noteq> None" using wok(2) by (metis domIff)
  with sn k D(5)[OF k] have "\<exists>W. map_of (vc_Watchers S) k = Some (w, W) \<and> sn \<in> set (vw_SerialNumbers W)
    \<and> map_of (vw_APs W) sn \<noteq> None \<and> map_of (vc_ExistingBoards S) k = Some (vw_SerialNumbers W)" by blast
  then show ?thesis
  proof (rule ex1I)
    fix k' assume "\<exists>W. map_of (vc_Watchers S) k' = Some (w, W) \<and> sn \<in> set (vw_SerialNumbers W)
      \<and> map_of (vw_APs W) sn \<noteq> None \<and> map_of (vc_ExistingBoards S) k' = Some (vw_SerialNumbers W)"
    then show "k' = k" using D(3)[OF _ k] by blast
  qed
qed

section \<open>Boards that are not watched\<close>

definition gone :: "string \<Rightarrow> 'j coordinator \<Rightarrow> bool" where
  "gone k S \<longleftrightarrow> map_of (vc_Watchers S) k = None \<and> Watching k S"

lemma gone_simps [simp]:
  "gone k (S \<lparr> vc_calls := n \<rparr>) = gone k S" "gone k (S \<lparr> vc_BoardsToWatch := b \<rparr>) = gone k S"
  "gone k (S \<lparr> vc_BoardsDB := d \<rparr>) = gone k S" "gone k (S \<lparr> vc_TimePointsDB := t \<rparr>) = gone k S"
  "gone k (S \<lparr> vc_EventsDB := v \<rparr>) = gone k S"
  by (simp_all add: gone_def Watching_def)

lemma gone_StopBoard: "gone k S \<Longrightarrow> gone k (StopBoard k' S)"
  by (auto simp: gone_def Watching_def StopBoard_def split: option.split)

lemma gone_RetireBoard: "gone k S \<Longrightarrow> gone k (fst (RetireBoard E B S))"
  using gone_StopBoard[of k S "board_id B"] by (simp add: RetireBoard_def Let_def)

lemma gone_GetDevicesForBoard: "gone k S \<Longrightarrow> GetDevicesForBoard E B S = (S', r) \<Longrightarrow> gone k S'"
  using GetDevicesForBoard_effect(1)[of E B S S' r] by (metis gone_simps(1))

lemma gone_StartBoard:
  assumes "gone k S" "board_id B \<noteq> k"
  shows "gone k (fst (StartBoard E B S))"
proof -
  obtain S1 r where g: "GetDevicesForBoard E B S = (S1, r)" by fastforce
  have "gone k S1" by (rule gone_GetDevicesForBoard[OF assms(1) g])
  with g assms gone_RetireBoard[of k S1 E B] show ?thesis
    by (auto simp: StartBoard_def Let_def gone_def Watching_def split: list.split sum.split prod.split bool.split)
qed

lemma gone_UpdateBoard:
  assumes "gone k S"
  shows "gone k (fst (UpdateBoard E k' S))"
proof -
  have m: "gone k V \<Longrightarrow> gone k (modify_board k' ds V)" for V :: "'a coordinator" and ds
    by (auto simp: modify_board_def gone_def Watching_def split: option.split prod.split)
  obtain S0 ob where g0: "GetBoard E k' S = (S0, Inr ob)" by (simp add: GetBoard_def)
  then have S0: "gone k S0" using assms by (auto simp: GetBoard_def)
  show ?thesis
  proof (cases ob)
    case (Some B)
    obtain S1 r where g: "GetDevicesForBoard E B S0 = (S1, r)" by fastforce
    have S1: "gone k S1" by (rule gone_GetDevicesForBoard[OF S0 g])
    show ?thesis
      using g0 Some g m[OF S1] gone_RetireBoard[OF S1, of E B] S1
      by (auto simp: UpdateBoard_def split: sum.split bool.split)
  qed (use g0 S0 in \<open>simp add: UpdateBoard_def\<close>)
qed

lemma gone_visit_boards: "gone k S \<Longrightarrow> gone k (fst (visit_boards E Bs S))"
proof (induction Bs arbitrary: S)
  case (Cons B Bs)
  have "gone k (fst (visit_board E B S))"
  proof (cases "Watching (board_id B) S")
    case True
    then show ?thesis using Cons.prems gone_RetireBoard[of k "S \<lparr> vc_calls := vc_calls S + 1 \<rparr>" E B]
      by (auto simp: visit_board_def Let_def split: list.split prod.split)
  next
    case False
    then have "board_id B \<noteq> k" using Cons.prems by (auto simp: gone_def)
    from gone_StartBoard[OF Cons.prems this, of E] False show ?thesis
      by (auto simp: visit_board_def split: prod.split sum.split)
  qed
  with Cons.IH show ?case by (auto split: prod.split sum.split)
qed simp

lemma gone_update_all: "gone k S \<Longrightarrow> gone k (fst (update_all E ks S))"
proof (induction ks arbitrary: S)
  case (Cons k' ks)
  from gone_UpdateBoard[OF Cons.prems, of E k'] Cons.IH show ?case by (auto split: prod.split sum.split)
qed simp

lemma gone_step: "coord_step E L S S' \<Longrightarrow> gone k S \<Longrightarrow> gone k S'"
proof (induction rule: coord_step.induct)
  case (step_add S k')
  then show ?case by (auto simp: AddBoard_def GetBoard_def split: option.split)
qed (auto simp: run_once_def onReconcileTimer_def GetBoardList_def Let_def gone_visit_boards gone_update_all
    gone_StopBoard gone_UpdateBoard split: prod.split, auto simp: gone_def Watching_def)

text \<open>
  C39: Once a watched board has been stopped (deleted, or retired because its venue disappeared), no later
  activity of the service starts a watcher for its id again: \<^verbatim>\<open>StopBoard\<close> leaves the id among the existing
  boards, so the coordinator goes on taking it for watched.
\<close>

theorem stopped_board_never_restarts:
  assumes "coord_ok S" "map_of (vc_Watchers S) k \<noteq> None" "(coord_step E L)\<^sup>*\<^sup>* (StopBoard k S) S'"
  shows "map_of (vc_Watchers S') k = None \<and> Watching k S'"
proof -
  have "gone k (StopBoard k S)"
    using assms(2) coord_okD(5)[OF assms(1)] by (auto simp: gone_def StopBoard_def Watching_def split: prod.split)
  from assms(3) this have "gone k S'" by (induction rule: rtranclp_induct) (auto intro: gone_step)
  then show ?thesis by (simp add: gone_def)
qed

text \<open>
  A board whose venue does not exist is not retired when it is started: provisioning's 404 is taken for an
  empty list of devices, and the board gets a watcher that watches nothing.  Its rows stay in the tables.
\<close>

theorem StartBoard_missing_venue:
  assumes "board_venueList B = V # Vs"
    and "fst (env_api E (vc_calls S) (''/api/v1/venue/'' @ venue_id V)
          (if venue_monitorSubVenues V then [(''getDevices'', ''true''), (''getChildren'', ''true'')]
           else [(''getDevices'', ''true'')]) []) = HTTP_NOT_FOUND"
    and "StartBoard E B S = (S', r)"
  shows "r = Inr True \<and> Watching (board_id B) S' \<and> vc_BoardsDB S' = vc_BoardsDB S
    \<and> (\<exists>w W. map_of (vc_Watchers S') (board_id B) = Some (w, W) \<and> vw_SerialNumbers W = [])"
proof -
  have "Venue_GetDevices (env_json E) (env_api E (vc_calls S)) [] (venue_id V) (venue_monitorSubVenues V)
      = (True, VenueDeviceList_init, False)"
    using assms(2) by (simp add: Venue_GetDevices_def case_prod_unfold)
  then have "GetDevicesForBoard E B S = (S \<lparr> vc_calls := vc_calls S + 1 \<rparr>, Inr (True, [], False))"
    using assms(1) by (simp add: GetDevicesForBoard_def VenueDeviceList_init_def sort_unique_def bind_def Let_def)
  then show ?thesis
    using assms(1,3)
    by (auto simp: StartBoard_def Let_def Watching_def Watcher_Start_def VenueWatcher_new_def sort_unique_def)
qed

section \<open>Witnesses\<close>

text \<open>An environment with one venue of one device, and a board for it; deletions by a clause fail.\<close>

definition small_env :: "((string \<times> tree) list, tree) environment" where
  "small_env = \<lparr> env_json = tree_lib,
     env_api = (\<lambda>_ ep q t. if ep = ''/api/v1/venue/v1''
        then (200, [(''devices'', TArray [TString (IntToSerialNumber 10)])]) else (404, [])),
     env_db = (\<lambda>_. True), env_timepoints = (\<lambda>_ txt rows. Inl Type_error), env_events = (\<lambda>_ txt rows. Inl Type_error),
     env_alloc = (\<lambda>_ ws. Suc (fold max ws 0)) \<rparr>"

definition small_board :: "string \<Rightarrow> BoardInfo" where
  "small_board v = \<lparr> board_info = ObjectInfo_init \<lparr> info_id := ''b1'' \<rparr>,
     board_venueList = [VenueInfo_init \<lparr> venue_id := v \<rparr>] \<rparr>"

lemma small_env_ok: "env_ok small_env"
proof -
  have "\<forall>w \<in> set ws. w \<le> fold max ws 0" for ws :: "nat list"
    by (metis Max_ge List.finite_set Max.set_eq_fold insertCI list.set(2))
  then show ?thesis by (force simp: env_ok_def small_env_def)
qed

lemma small_run:
  defines "S \<equiv> fst (run_once small_env (coordinator_init [small_board ''v1''] :: unit coordinator))"
  shows "StateNotifiers (vc_registries S) = [(10, [1])]" "map_of (vc_Watchers S) ''b1'' \<noteq> None"
  by (simp_all add: S_def run_once_def Let_def GetBoardList_def board_pages.simps coordinator_init_def small_env_def small_board_def
      watch_insert_def board_id_def ObjectInfo_init_def VenueInfo_init_def visit_board_def Watching_def StartBoard_def GetDevicesForBoard_def
      Venue_GetDevices_def VenueDeviceList_from_json_def try_all_def field_from_json_def list_from_json_def each_def
      present_def tree_lib_def VenueDeviceList_init_def SerialNumberToInt_IntToSerialNumber bind_def sort_unique_def
      live_watchers_def Watcher_Start_def VenueWatcher_new_def State_Register_def empty_registries_def)

lemma receivers_point_to_live_watchers_witness:
  "\<exists>(S :: unit coordinator) W. (coord_step small_env no_json)\<^sup>*\<^sup>* (coordinator_init [small_board ''v1'']) S
     \<and> 1 \<in> set (state_targets (StateNotifiers (vc_registries S)) 10)
     \<and> (\<exists>k. map_of (vc_Watchers S) k = Some (1, W)) \<and> 10 \<in> set (vw_SerialNumbers W)"
proof -
  let ?S = "fst (run_once small_env (coordinator_init [small_board ''v1''] :: unit coordinator))"
  have r: "(coord_step small_env no_json)\<^sup>*\<^sup>* (coordinator_init [small_board ''v1'']) ?S"
    by (rule r_into_rtranclp) (rule step_run)
  have t: "1 \<in> set (state_targets (StateNotifiers (vc_registries ?S)) 10)"
    by (simp add: small_run state_targets_def)
  from receivers_point_to_live_watchers[OF r small_env_ok disjI1[OF t]]
  obtain k W where "map_of (vc_Watchers ?S) k = Some (1, W)" "10 \<in> set (vw_SerialNumbers W)" by blast
  with r t show ?thesis by blast
qed

lemma stopped_board_never_restarts_witness:
  "\<exists>(S :: unit coordinator) S'. map_of (vc_Watchers S) ''b1'' \<noteq> None
     \<and> S' = fst (run_once small_env (StopBoard ''b1'' S))
     \<and> map_of (vc_Watchers S') ''b1'' = None \<and> Watching ''b1'' S'"
proof -
  let ?S = "fst (run_once small_env (coordinator_init [small_board ''v1''] :: unit coordinator))"
  let ?S' = "fst (run_once small_env (StopBoard ''b1'' ?S))"
  have ok: "coord_ok ?S" by (rule run_once_ok[OF small_env_ok coord_ok_init])
  have "(coord_step small_env no_json)\<^sup>*\<^sup>* (StopBoard ''b1'' ?S) ?S'"
    by (rule r_into_rtranclp) (rule step_run)
  from stopped_board_never_restarts[OF ok small_run(2) this] small_run(2) show ?thesis by blast
qed

lemma StartBoard_missing_venue_witness:
  "\<exists>S' r. StartBoard small_env (small_board ''v2'') (coordinator_init [] :: unit coordinator) = (S', r)
     \<and> r = Inr True \<and> Watching ''b1'' S'"
proof -
  obtain S' r where s: "StartBoard small_env (small_board ''v2'') (coordinator_init [] :: unit coordinator) = (S', r)"
    by fastforce
  have "board_venueList (small_board ''v2'') = VenueInfo_init \<lparr> venue_id := ''v2'' \<rparr> # []" by (simp add: small_board_def)
  from StartBoard_missing_venue[OF this _ s] have "r = Inr True" "Watching ''b1'' S'"
    by (simp_all add: small_env_def small_board_def board_id_def)
  with s show ?thesis by blast
qed

end
