(* ===== verification/TimePoints.thy ===== *)
theory TimePoints
  imports Sql ObjectsJson VenueCoordinator
begin

text \<open>
  \<^verbatim>\<open>src/src/storage/storage_timepoints.cpp\<close> and \<^verbatim>\<open>storage_rssi_parser.cpp\<close>: the table of time points, the
  statements that read and clear it, and the rows turned back into time points.
\<close>

fun traverse :: "('a \<Rightarrow> 'b cpp) \<Rightarrow> 'a list \<Rightarrow> 'b list cpp" where
  "traverse f [] = Inr []"
| "traverse f (x # xs) = bind (f x) (\<lambda>y. bind (traverse f xs) (\<lambda>ys. Inr (y # ys)))"

lemma traverse_Inr: "traverse f xs = Inr ys \<longleftrightarrow> list_all2 (\<lambda>x y. f x = Inr y) xs ys"
  by (induction xs arbitrary: ys) (auto simp: bind_Inr_iff list_all2_Cons1)

lemma traverse_total: "\<forall>x \<in> set xs. f x = Inr (g x) \<Longrightarrow> traverse f xs = Inr (map g xs)"
  by (induction xs) auto

lemma traverse_length: "traverse f xs = Inr ys \<Longrightarrow> length ys = length xs"
  by (auto simp: traverse_Inr dest: list_all2_lengthD)

text \<open>\<^verbatim>\<open>Join\<close>: the rows of an answer extracted into tuples; it answers false on an exception.\<close>

definition Join :: "cell list database \<Rightarrow> (cell list \<Rightarrow> 'row cpp) \<Rightarrow> string \<Rightarrow> 'row list option" where
  "Join db into stmt = (case bind (db stmt) (traverse into) of Inl _ \<Rightarrow> None | Inr records \<Rightarrow> Some records)"

section \<open>The table\<close>

definition TimePoint_Fields :: "Field list" where
  "TimePoint_Fields =
     [Field_sized ''id'' 64 True, Field_typed ''boardId'' FT_TEXT, Field_typed ''timestamp'' FT_BIGINT,
      Field_typed ''ap_data'' FT_TEXT, Field_typed ''ssid_data'' FT_TEXT, Field_typed ''radio_data'' FT_TEXT,
      Field_typed ''device_info'' FT_TEXT, Field_typed ''serialNumber'' FT_TEXT,
      Field_typed ''resource_data'' FT_TEXT, Field_typed ''venueId'' FT_TEXT]"

record TimePointDBRecordType =
  tpr_id :: string
  tpr_boardId :: string
  tpr_timestamp :: u64
  tpr_ap_data :: string
  tpr_ssid_data :: string
  tpr_radio_data :: string
  tpr_device_info :: string
  tpr_serialNumber :: string
  tpr_resource_data :: string
  tpr_venueId :: string

definition timepoints_table :: "DBType \<Rightarrow> table" where
  "timepoints_table T =
     \<lparr> TableName = ''timepoints'', Type = T, Select_Fields = SelectFields (map tolower) TimePoint_Fields \<rparr>"

definition tp_column :: "string \<Rightarrow> TimePointDBRecordType \<Rightarrow> cell" where
  "tp_column f r =
     (if f = ''id'' then Text (tpr_id r) else if f = ''boardid'' then Text (tpr_boardId r)
      else if f = ''timestamp'' then Num (unat (tpr_timestamp r)) else if f = ''ap_data'' then Text (tpr_ap_data r)
      else if f = ''ssid_data'' then Text (tpr_ssid_data r) else if f = ''radio_data'' then Text (tpr_radio_data r)
      else if f = ''device_info'' then Text (tpr_device_info r)
      else if f = ''serialnumber'' then Text (tpr_serialNumber r)
      else if f = ''resource_data'' then Text (tpr_resource_data r)
      else if f = ''venueid'' then Text (tpr_venueId r) else Text [])"

text \<open>Extraction raises when the answer has other columns.\<close>

fun timepoint_row :: "cell list \<Rightarrow> TimePointDBRecordType cpp" where
  "timepoint_row [Text i, Text b, Num t, Text a, Text s, Text r, Text d, Text sn, Text rs, Text v] =
     Inr \<lparr> tpr_id = i, tpr_boardId = b, tpr_timestamp = of_nat t, tpr_ap_data = a, tpr_ssid_data = s,
           tpr_radio_data = r, tpr_device_info = d, tpr_serialNumber = sn, tpr_resource_data = rs, tpr_venueId = v \<rparr>"
| "timepoint_row _ = Inl Type_error"

fun timepoint_part :: "cell list \<Rightarrow> (string \<times> u64 \<times> string) cpp" where
  "timepoint_part [Text i, Num t, Text d] = Inr (i, of_nat t, d)"
| "timepoint_part _ = Inl Type_error"

section \<open>Rows and time points\<close>

definition timepoint_of_row :: "('o, 'v) poco \<Rightarrow> TimePointDBRecordType \<Rightarrow> DeviceTimePoint cpp" where
  "timepoint_of_row J In =
     bind (to_object J (APTimePoint_from_json J) APTimePoint_init (tpr_ap_data In)) (\<lambda>ap_data.
     bind (to_object J (DeviceInfo_from_json J) DeviceInfo_init (tpr_device_info In)) (\<lambda>device_info.
     bind (to_object J (DeviceResourceTimePoint_from_json J) DeviceResourceTimePoint_init (tpr_resource_data In))
       (\<lambda>resource_data.
     Inr \<lparr> dtp_id = tpr_id In, dtp_boardId = tpr_boardId In, dtp_venueId = tpr_venueId In,
           dtp_timestamp = tpr_timestamp In, dtp_ap_data = ap_data,
           dtp_ssid_data = to_object_array J (SSIDTimePoint_from_json J) SSIDTimePoint_init (tpr_ssid_data In),
           dtp_radio_data = to_object_array J (RadioTimePoint_from_json J) RadioTimePoint_init (tpr_radio_data In),
           dtp_resource_data = resource_data, dtp_device_info = device_info,
           dtp_serialNumber = tpr_serialNumber In \<rparr>)))"

definition row_of_timepoint :: "('o, 'v) poco \<Rightarrow> DeviceTimePoint \<Rightarrow> TimePointDBRecordType" where
  "row_of_timepoint J In =
     \<lparr> tpr_id = dtp_id In, tpr_boardId = dtp_boardId In, tpr_timestamp = dtp_timestamp In,
       tpr_ap_data = to_string_object J (APTimePoint_to_json J) (dtp_ap_data In),
       tpr_ssid_data = to_string_array J (SSIDTimePoint_to_json J) (dtp_ssid_data In),
       tpr_radio_data = to_string_array J (RadioTimePoint_to_json J) (dtp_radio_data In),
       tpr_device_info = to_string_object J (DeviceInfo_to_json J) (dtp_device_info In),
       tpr_serialNumber = dtp_serialNumber In,
       tpr_resource_data = to_string_object J (DeviceResourceTimePoint_to_json J) (dtp_resource_data In),
       tpr_venueId = dtp_venueId In \<rparr>"

text \<open>The columns of the row of a time point.\<close>

definition dtp_column :: "('o, 'v) poco \<Rightarrow> string \<Rightarrow> DeviceTimePoint \<Rightarrow> cell" where
  "dtp_column J f p = tp_column f (row_of_timepoint J p)"

text \<open>The two parsers that skip a row instead of raising.\<close>

definition ParseRadioData :: "('o, 'v) poco \<Rightarrow> string \<Rightarrow> RadioTimePoint list option" where
  "ParseRadioData J Json =
     (if Json = [] then Some []
      else case bind (bind (p_parse J Json) (v_array J))
                  (traverse (\<lambda>Item. bind (v_object J Item) (\<lambda>ob. Inr (RadioTimePoint_from_json J ob RadioTimePoint_init)))) of
             Inl _ \<Rightarrow> None
           | Inr rs \<Rightarrow> Some (map fst (filter snd rs)))"

definition clean_associations :: "('o, 'v) poco \<Rightarrow> 'v list \<Rightarrow> 'v list" where
  "clean_associations J Associations =
     concat (map (\<lambda>AssociationItem.
       case v_object J AssociationItem of
         Inl _ \<Rightarrow> []
       | Inr AssociationObject \<Rightarrow>
           if snd (UETimePoint_from_json J AssociationObject UETimePoint_init)
           then [mk_object J AssociationObject] else []) Associations)"

definition parse_ssid_item :: "('o, 'v) poco \<Rightarrow> 'v \<Rightarrow> SSIDTimePoint list" where
  "parse_ssid_item J Item =
     (case v_object J Item of
        Inl _ \<Rightarrow> []
      | Inr ob \<Rightarrow>
          (let ob' = (if p_isArray J ob ''associations'' \<and> \<not> p_isNull J ob ''associations''
                      then p_set J ''associations'' (mk_array J (clean_associations J (p_array J ob ''associations''))) ob
                      else ob)
           in case SSIDTimePoint_from_json J ob' SSIDTimePoint_init of
                (SSID, parsed) \<Rightarrow> if parsed then [SSID] else []))"

definition ParseSsidDataForRssi :: "('o, 'v) poco \<Rightarrow> string \<Rightarrow> SSIDTimePoint list option" where
  "ParseSsidDataForRssi J Json =
     (if Json = [] then Some []
      else case bind (p_parse J Json) (v_array J) of
             Inl _ \<Rightarrow> None
           | Inr Items \<Rightarrow> Some (concat (map (parse_ssid_item J) Items)))"

definition RssiSsidRecordCountExceedsLimit :: "nat \<Rightarrow> u64 \<Rightarrow> bool" where
  "RssiSsidRecordCountExceedsLimit RawRecordCount MaxRecords \<longleftrightarrow> MaxRecords > 0 \<and> RawRecordCount > unat MaxRecords"

section \<open>Queries\<close>

definition LimitWithOverflowSentinel :: "u64 \<Rightarrow> u64" where
  "LimitWithOverflowSentinel MaxRecords = (if MaxRecords = U64_MAX then MaxRecords else MaxRecords + 1)"

definition range_clause :: "DBType \<Rightarrow> u64 \<Rightarrow> string" where
  "range_clause T maxRecords =
     (if maxRecords > 0 then ComputeRange T 0 (LimitWithOverflowSentinel maxRecords) else [])"

abbreviation u64_text :: "u64 \<Rightarrow> string" where
  "u64_text n \<equiv> dec_string (unat n)"

definition window_clause :: "string \<Rightarrow> string \<Rightarrow> u64 \<Rightarrow> u64 \<Rightarrow> string" where
  "window_clause boardId serialNumber StartTime EndTime =
     '' boardId='' @ quoted boardId @ '' and serialNumber='' @ quoted serialNumber
       @ '' and (timestamp >= '' @ u64_text StartTime @ '') and (timestamp < '' @ u64_text EndTime @ '') ''"

text \<open>The common part of the four window queries: the statement, the rows and whether there were too many.\<close>

definition window_statement ::
  "DBType \<Rightarrow> string \<Rightarrow> string \<Rightarrow> string \<Rightarrow> u64 \<Rightarrow> u64 \<Rightarrow> u64 \<Rightarrow> string" where
  "window_statement T cols boardId serialNumber StartTime EndTime maxRecords =
     ''select '' @ cols @ '' from timepoints where '' @ window_clause boardId serialNumber StartTime EndTime
       @ '' order by timestamp, id ASC'' @ range_clause T maxRecords"

text \<open>The answer is false, or the records with the limit flag; an exception of \<^verbatim>\<open>Convert\<close> leaves the function.\<close>

type_synonym selected = "(DeviceTimePoint list \<times> bool) option cpp"

definition SelectRecordsBySerial ::
  "cell list database \<Rightarrow> DBType \<Rightarrow> ('o, 'v) poco \<Rightarrow> string \<Rightarrow> string \<Rightarrow> u64 \<Rightarrow> u64 \<Rightarrow> u64 \<Rightarrow> selected" where
  "SelectRecordsBySerial db T J boardId serialNumber StartTime EndTime maxRecords =
     (if EndTime \<le> StartTime then Inr (Some ([], False))
      else case Join db timepoint_row (window_statement T (SelectFields (map tolower) TimePoint_Fields)
                  boardId serialNumber StartTime EndTime maxRecords) of
             None \<Rightarrow> Inr None
           | Some RawRecords \<Rightarrow>
               bind (traverse (timepoint_of_row J) RawRecords)
                 (\<lambda>Recs. Inr (Some (Recs, maxRecords > 0 \<and> length RawRecords > unat maxRecords))))"

definition SelectResourceRecordsBySerial ::
  "cell list database \<Rightarrow> DBType \<Rightarrow> ('o, 'v) poco \<Rightarrow> string \<Rightarrow> string \<Rightarrow> u64 \<Rightarrow> u64 \<Rightarrow> u64 \<Rightarrow> selected" where
  "SelectResourceRecordsBySerial db T J boardId serialNumber StartTime EndTime maxRecords =
     (if EndTime \<le> StartTime then Inr (Some ([], False))
      else case Join db timepoint_part (window_statement T ''id, timestamp, resource_data''
                  boardId serialNumber StartTime EndTime maxRecords) of
             None \<Rightarrow> Inr None
           | Some RawRecords \<Rightarrow>
               bind (traverse (\<lambda>(i, t, d).
                   bind (to_object J (DeviceResourceTimePoint_from_json J) DeviceResourceTimePoint_init d)
                     (\<lambda>r. Inr (DeviceTimePoint_init \<lparr> dtp_id := i, dtp_timestamp := t, dtp_resource_data := r \<rparr>))) RawRecords)
                 (\<lambda>Recs. Inr (Some (Recs, maxRecords > 0 \<and> length RawRecords > unat maxRecords))))"

definition SelectRadioRecordsBySerial ::
  "cell list database \<Rightarrow> DBType \<Rightarrow> ('o, 'v) poco \<Rightarrow> string \<Rightarrow> string \<Rightarrow> u64 \<Rightarrow> u64 \<Rightarrow> u64 \<Rightarrow> selected" where
  "SelectRadioRecordsBySerial db T J boardId serialNumber StartTime EndTime maxRecords =
     (if EndTime \<le> StartTime then Inr (Some ([], False))
      else case Join db timepoint_part (window_statement T ''id, timestamp, radio_data''
                  boardId serialNumber StartTime EndTime maxRecords) of
             None \<Rightarrow> Inr None
           | Some RawRecords \<Rightarrow>
               Inr (Some (concat (map (\<lambda>(i, t, d).
                   case ParseRadioData J d of
                     None \<Rightarrow> []
                   | Some r \<Rightarrow> [DeviceTimePoint_init \<lparr> dtp_id := i, dtp_timestamp := t, dtp_radio_data := r \<rparr>]) RawRecords),
                 maxRecords > 0 \<and> length RawRecords > unat maxRecords)))"

definition SelectSsidRecordsBySerial ::
  "cell list database \<Rightarrow> DBType \<Rightarrow> ('o, 'v) poco \<Rightarrow> string \<Rightarrow> string \<Rightarrow> u64 \<Rightarrow> u64 \<Rightarrow> u64 \<Rightarrow> selected" where
  "SelectSsidRecordsBySerial db T J boardId serialNumber StartTime EndTime maxRecords =
     (if EndTime \<le> StartTime then Inr (Some ([], False))
      else case Join db timepoint_part (window_statement T ''id, timestamp, ssid_data''
                  boardId serialNumber StartTime EndTime maxRecords) of
             None \<Rightarrow> Inr None
           | Some RawRecords \<Rightarrow>
               if RssiSsidRecordCountExceedsLimit (length RawRecords) maxRecords then Inr (Some ([], True))
               else Inr (Some (concat (map (\<lambda>(i, t, d).
                   case ParseSsidDataForRssi J d of
                     None \<Rightarrow> []
                   | Some s \<Rightarrow> [DeviceTimePoint_init \<lparr> dtp_id := i, dtp_timestamp := t, dtp_ssid_data := s \<rparr>]) RawRecords), False)))"

text \<open>The two boundary queries: at most one time point.\<close>

definition boundary ::
  "cell list database \<Rightarrow> ('o, 'v) poco \<Rightarrow> string \<Rightarrow> DeviceTimePoint option option cpp" where
  "boundary db J Sql =
     (case Join db timepoint_row Sql of
        None \<Rightarrow> Inr None
      | Some [] \<Rightarrow> Inr (Some None)
      | Some (R # _) \<Rightarrow> bind (timepoint_of_row J R) (\<lambda>Point. Inr (Some (Some Point))))"

definition latest_statement :: "DBType \<Rightarrow> string \<Rightarrow> string \<Rightarrow> u64 \<Rightarrow> u64 \<Rightarrow> string" where
  "latest_statement T boardId serialNumber minimumTime boundaryTime =
     ''select '' @ SelectFields (map tolower) TimePoint_Fields @ '' from timepoints where ''
       @ '' boardId='' @ quoted boardId @ '' and serialNumber='' @ quoted serialNumber
       @ '' and (timestamp >= '' @ u64_text minimumTime @ '') and (timestamp <= '' @ u64_text boundaryTime @ '') ''
       @ '' order by timestamp desc, id desc'' @ ComputeRange T 0 1"

definition SelectLatestRecordAtOrBeforeBySerial ::
  "cell list database \<Rightarrow> DBType \<Rightarrow> ('o, 'v) poco \<Rightarrow> string \<Rightarrow> string \<Rightarrow> u64 \<Rightarrow> u64 \<Rightarrow> DeviceTimePoint option option cpp" where
  "SelectLatestRecordAtOrBeforeBySerial db T J boardId serialNumber minimumTime boundaryTime =
     (if boundaryTime < minimumTime then Inr (Some None)
      else boundary db J (latest_statement T boardId serialNumber minimumTime boundaryTime))"

definition earliest_statement :: "DBType \<Rightarrow> string \<Rightarrow> string \<Rightarrow> u64 \<Rightarrow> string" where
  "earliest_statement T boardId serialNumber boundaryTime =
     ''select '' @ SelectFields (map tolower) TimePoint_Fields @ '' from timepoints where ''
       @ '' boardId='' @ quoted boardId @ '' and serialNumber='' @ quoted serialNumber
       @ '' and (timestamp >= '' @ u64_text boundaryTime @ '') ''
       @ '' order by timestamp asc, id asc'' @ ComputeRange T 0 1"

definition SelectEarliestRecordAtOrAfterBySerial ::
  "cell list database \<Rightarrow> DBType \<Rightarrow> ('o, 'v) poco \<Rightarrow> string \<Rightarrow> string \<Rightarrow> u64 \<Rightarrow> DeviceTimePoint option option cpp" where
  "SelectEarliestRecordAtOrAfterBySerial db T J boardId serialNumber boundaryTime =
     boundary db J (earliest_statement T boardId serialNumber boundaryTime)"

section \<open>What the statements read as\<close>

lemma tokens_quoted:
  "rest = [] \<or> hd rest \<noteq> quote \<Longrightarrow> tokens (quoted v @ rest) = map_option (Cons (TLit v)) (tokens rest)"
  using tokens_literal by (simp add: quoted_def)

lemma tokens_pieces:
  "tokens ''select id, timestamp, resource_data from timepoints where  boardId='' =
     Some [TWord ''select'', TWord ''id'', TSym '','', TWord ''timestamp'', TSym '','', TWord ''resource_data'', TWord ''from'',
           TWord ''timepoints'', TWord ''where'', TWord ''boardid'', TSym ''='']"
  "tokens ''select id, timestamp, radio_data from timepoints where  boardId='' =
     Some [TWord ''select'', TWord ''id'', TSym '','', TWord ''timestamp'', TSym '','', TWord ''radio_data'', TWord ''from'',
           TWord ''timepoints'', TWord ''where'', TWord ''boardid'', TSym ''='']"
  "tokens ''select id, timestamp, ssid_data from timepoints where  boardId='' =
     Some [TWord ''select'', TWord ''id'', TSym '','', TWord ''timestamp'', TSym '','', TWord ''ssid_data'', TWord ''from'',
           TWord ''timepoints'', TWord ''where'', TWord ''boardid'', TSym ''='']"
  "tokens '' and serialNumber='' = Some [TWord ''and'', TWord ''serialnumber'', TSym ''='']"
  "tokens '' and (timestamp >= '' = Some [TWord ''and'', TSym ''('', TWord ''timestamp'', TSym ''>='']"
  "tokens '') and (timestamp < '' = Some [TSym '')'', TWord ''and'', TSym ''('', TWord ''timestamp'', TSym ''<'']"
  "tokens '') and (timestamp <= '' = Some [TSym '')'', TWord ''and'', TSym ''('', TWord ''timestamp'', TSym ''<='']"
  "tokens '')  order by timestamp, id ASC'' = Some [TSym '')'', TWord ''order'', TWord ''by'', TWord ''timestamp'', TSym '','',
     TWord ''id'', TWord ''asc'']"
  "tokens '')  order by timestamp desc, id desc'' = Some [TSym '')'', TWord ''order'', TWord ''by'', TWord ''timestamp'',
     TWord ''desc'', TSym '','', TWord ''id'', TWord ''desc'']"
  "tokens '')  order by timestamp asc, id asc'' = Some [TSym '')'', TWord ''order'', TWord ''by'', TWord ''timestamp'',
     TWord ''asc'', TSym '','', TWord ''id'', TWord ''asc'']"
  "tokens '' LIMIT '' = Some [TWord ''limit'']" "tokens '' OFFSET '' = Some [TWord ''offset'']"
  "tokens '', '' = Some [TSym '','']" "tokens '' '' = Some []"
  by (simp_all add: token_simps)

fun range_toks :: "DBType \<Rightarrow> u64 \<Rightarrow> u64 \<Rightarrow> token list" where
  "range_toks sqlite m n = [TWord ''limit'', TNum (unat m), TSym '','', TNum (unat n)]"
| "range_toks _ m n = [TWord ''limit'', TNum (unat n), TWord ''offset'', TNum (unat m)]"

lemma tokens_num:
  "rest = [] \<or> hd rest \<in> set '' ),'' \<Longrightarrow> tokens (dec_string n @ rest) = map_option (Cons (TNum n)) (tokens rest)"
  by (rule tokens_number) (auto simp: isdigit_bits)

lemma tokens_ComputeRange: "tokens (ComputeRange T m n) = Some (range_toks T m n)"
proof -
  note c = tokens_constant[OF tokens_pieces(11)] tokens_constant[OF tokens_pieces(12)] tokens_constant[OF tokens_pieces(13)]
  show ?thesis
    by (cases T) (simp_all add: ComputeRange_def c[simplified] ends_def tokens_num[simplified])
qed

lemma hd_ComputeRange: "hd (ComputeRange T m n) = CHR '' ''" "ComputeRange T m n \<noteq> []"
  by (cases T; simp add: ComputeRange_def)+

definition range_read :: "u64 \<Rightarrow> (nat \<times> nat) option" where
  "range_read m = (if m = 0 then None else Some (0, unat (LimitWithOverflowSentinel m)))"

lemma tokens_range_clause:
  "\<exists>ts. tokens (range_clause T m) = Some ts \<and> read_range ts = Some (range_read m) \<and> read_direction ts = (False, ts)
     \<and> (ts = [] \<or> hd ts \<noteq> TSym '','')"
  by (cases T) (auto simp: range_clause_def tokens_ComputeRange range_read_def word_gt_0)

text \<open>The condition every query of one device starts with.\<close>

definition header :: "string \<Rightarrow> string" where
  "header cols = ''select '' @ cols @ '' from timepoints where  boardId=''"

definition header_read :: "string list \<Rightarrow> token list" where
  "header_read fs = TWord ''select'' # comma_toks fs @ [TWord ''from'', TWord ''timepoints'', TWord ''where'', TWord ''boardid'', TSym ''='']"

definition device_toks :: "string \<Rightarrow> string \<Rightarrow> token list" where
  "device_toks boardId serialNumber =
     [TLit boardId, TWord ''and'', TWord ''serialnumber'', TSym ''='', TLit serialNumber]"

definition time_toks :: "string \<Rightarrow> u64 \<Rightarrow> token list" where
  "time_toks c t = [TWord ''and'', TSym ''('', TWord ''timestamp'', TSym c, TNum (unat t), TSym '')'']"

lemma tokens_device:
  assumes "tokens (header cols) = Some (header_read fs)" "quote \<notin> set cols"
    and "rest = [] \<or> hd rest \<noteq> quote" "tokens rest = Some ts"
  shows "tokens (header cols @ quoted b @ '' and serialNumber='' @ quoted s @ rest) = Some (header_read fs @ device_toks b s @ ts)"
proof -
  have "tokens (quoted s @ rest) = Some (TLit s # ts)" using assms(3,4) by (simp add: tokens_quoted)
  then have "tokens ('' and serialNumber='' @ quoted s @ rest) = Some ([TWord ''and'', TWord ''serialnumber'', TSym ''='', TLit s] @ ts)"
    by (subst tokens_constant[OF tokens_pieces(4)]) (simp_all add: ends_def)
  then have "tokens (quoted b @ '' and serialNumber='' @ quoted s @ rest) = Some (device_toks b s @ ts)"
    by (subst tokens_quoted) (simp_all add: device_toks_def)
  then show ?thesis
    using assms(1,2) by (subst tokens_constant[OF assms(1)]) (simp_all add: ends_def header_def)
qed

text \<open>A time bound, up to its closing parenthesis.\<close>

lemma tokens_time:
  assumes "tokens p = Some [TWord ''and'', TSym ''('', TWord ''timestamp'', TSym c]" "p \<noteq> []" "last p = CHR '' ''" "quote \<notin> set p"
    and "tokens (CHR '')'' # rest) = Some (TSym '')'' # ts)"
  shows "tokens (p @ u64_text t @ CHR '')'' # rest) = Some (time_toks c t @ ts)"
proof -
  have "tokens (u64_text t @ CHR '')'' # rest) = Some (TNum (unat t) # TSym '')'' # ts)"
    using assms(5) by (simp add: tokens_num)
  then show ?thesis
    using assms(1-4) by (subst tokens_constant[OF assms(1)]) (simp_all add: ends_def time_toks_def)
qed

lemma tokens_close: "tokens rest = Some ts \<Longrightarrow> tokens (CHR '')'' # rest) = Some (TSym '')'' # ts)"
  by (simp add: token_simps)

lemma read_device:
  assumes "fs \<noteq> []" "hd fs \<noteq> ''distinct''" "hd fs \<noteq> ''count''"
    and "read_conds ts = Some (conds, rest)" "read_order_part rest = Some (keys, rest')" "read_range rest' = Some rg"
    and "tokens txt = Some (header_read fs @ device_toks b s @ TWord ''and'' # ts)"
  shows "read_statement txt = Some (Select \<lparr> q_columns = Columns fs, q_table = ''timepoints'',
     q_where = (''boardid'', ''='', Text b) # (''serialnumber'', ''='', Text s) # conds, q_order = keys, q_range = rg \<rparr>)"
proof -
  obtain f gs where f: "comma_toks fs = TWord f # gs" "f = hd fs"
    using assms(1) by (cases fs rule: comma_toks.cases) auto
  have "read_selection (comma_toks fs @ TWord ''from'' # us) = Some (Columns fs, TWord ''from'' # us)" for us
    using read_columns_toks[OF assms(1), of "''from''" us] assms(2,3) f by simp
  moreover have "read_conds (TWord ''boardid'' # TSym ''='' # device_toks b s @ TWord ''and'' # ts)
      = Some ((''boardid'', ''='', Text b) # (''serialnumber'', ''='', Text s) # conds, rest)"
    using assms(4) by (simp add: device_toks_def read_conds.simps[of "_ # _"])
  ultimately show ?thesis
    using assms(5-7)
    by (simp add: read_statement_def header_read_def read_select_def read_where_part_def)
qed

definition device_conds :: "string \<Rightarrow> string \<Rightarrow> condition list \<Rightarrow> condition list" where
  "device_conds b s conds = (''boardid'', ''='', Text b) # (''serialnumber'', ''='', Text s) # conds"

text \<open>The four column lists.\<close>

definition readable :: "string \<Rightarrow> string list \<Rightarrow> bool" where
  "readable cols fs \<longleftrightarrow> fs \<noteq> [] \<and> hd fs \<noteq> ''distinct'' \<and> hd fs \<noteq> ''count'' \<and> quote \<notin> set cols
     \<and> tokens (header cols) = Some (header_read fs)"

definition row_columns :: "string list" where
  "row_columns = [''id'', ''boardid'', ''timestamp'', ''ap_data'', ''ssid_data'', ''radio_data'', ''device_info'', ''serialnumber'',
     ''resource_data'', ''venueid'']"

lemma readable_parts:
  "readable ''id, timestamp, resource_data'' [''id'', ''timestamp'', ''resource_data'']"
  "readable ''id, timestamp, radio_data'' [''id'', ''timestamp'', ''radio_data'']"
  "readable ''id, timestamp, ssid_data'' [''id'', ''timestamp'', ''ssid_data'']"
  by (simp_all add: readable_def header_def header_read_def token_simps)

lemma row_SelectFields:
  "SelectFields (map tolower) TimePoint_Fields =
     ''id, boardid, timestamp, ap_data, ssid_data, radio_data, device_info, serialnumber, resource_data, venueid''"
  by (simp add: SelectFields_def TimePoint_Fields_def Field_sized_def Field_typed_def tolower_bits isupper_bits)

lemma readable_row: "readable (SelectFields (map tolower) TimePoint_Fields) row_columns"
  by (simp add: readable_def header_def header_read_def token_simps row_SelectFields row_columns_def)

lemma read_time: "read_conds (tl (time_toks c t @ ts)) =
    (if ts \<noteq> [] \<and> hd ts = TWord ''and'' then map_option (apfst (Cons (''timestamp'', c, Num (unat t)))) (read_conds (tl ts))
     else Some ([(''timestamp'', c, Num (unat t))], ts))"
  by (simp add: time_toks_def read_conds.simps[of "TSym _ # _"])

lemma window_statement_text:
  "window_statement T cols b s t t' m = header cols @ quoted b @ '' and serialNumber='' @ quoted s
     @ '' and (timestamp >= '' @ u64_text t @ CHR '')'' # '' and (timestamp < '' @ u64_text t' @ CHR '')''
       # ''  order by timestamp, id ASC'' @ range_clause T m"
  by (simp add: window_statement_def window_clause_def header_def)

lemma bounds_read:
  assumes "readable cols fs" "tokens ord = Some os" "os \<noteq> []" "hd os \<noteq> TWord ''and''"
    and "read_order_part os = Some (keys, rs)" "read_range rs = Some rg"
  shows "tokens p = Some [TWord ''and'', TSym ''('', TWord ''timestamp'', TSym c] \<Longrightarrow> p \<noteq> [] \<Longrightarrow> last p = CHR '' '' \<Longrightarrow> quote \<notin> set p \<Longrightarrow>
      read_statement (header cols @ quoted b @ '' and serialNumber='' @ quoted s
        @ '' and (timestamp >= '' @ u64_text t @ CHR '')'' # p @ u64_text t' @ CHR '')'' # ord) =
      Some (Select \<lparr> q_columns = Columns fs, q_table = ''timepoints'',
        q_where = device_conds b s [(''timestamp'', ''>='', Num (unat t)), (''timestamp'', c, Num (unat t'))],
        q_order = keys, q_range = rg \<rparr>)"
    and "read_statement (header cols @ quoted b @ '' and serialNumber='' @ quoted s
        @ '' and (timestamp >= '' @ u64_text t @ CHR '')'' # ord) =
      Some (Select \<lparr> q_columns = Columns fs, q_table = ''timepoints'',
        q_where = device_conds b s [(''timestamp'', ''>='', Num (unat t))], q_order = keys, q_range = rg \<rparr>)"
proof -
  note ge = tokens_time[of "'' and (timestamp >= ''" "''>=''", OF tokens_pieces(5)]
  note close = tokens_close[OF assms(2)]
  have one: "read_conds (tl (time_toks x t' @ os)) = Some ([(''timestamp'', x, Num (unat t'))], os)" for x t'
    using assms(4) by (simp add: read_time)
  {
    assume p: "tokens p = Some [TWord ''and'', TSym ''('', TWord ''timestamp'', TSym c]" "p \<noteq> []" "last p = CHR '' ''" "quote \<notin> set p"
    note tokens_close[OF tokens_time[OF p close, of t']]
    note tokens_device[OF _ _ _ ge[OF _ _ _ this, of t], of cols fs b s]
    then have "tokens (header cols @ quoted b @ '' and serialNumber='' @ quoted s
        @ '' and (timestamp >= '' @ u64_text t @ CHR '')'' # p @ u64_text t' @ CHR '')'' # ord)
      = Some (header_read fs @ device_toks b s @ time_toks ''>='' t @ time_toks c t' @ os)"
      using assms(1) by (simp add: readable_def)
    moreover have "read_conds (tl (time_toks ''>='' t @ time_toks c t' @ os))
        = Some ([(''timestamp'', ''>='', Num (unat t)), (''timestamp'', c, Num (unat t'))], os)"
      using one[of c t'] by (subst read_time) (simp add: time_toks_def)
    ultimately show "read_statement (header cols @ quoted b @ '' and serialNumber='' @ quoted s
        @ '' and (timestamp >= '' @ u64_text t @ CHR '')'' # p @ u64_text t' @ CHR '')'' # ord) =
      Some (Select \<lparr> q_columns = Columns fs, q_table = ''timepoints'',
        q_where = device_conds b s [(''timestamp'', ''>='', Num (unat t)), (''timestamp'', c, Num (unat t'))],
        q_order = keys, q_range = rg \<rparr>)"
      using assms unfolding device_conds_def by (intro read_device) (auto simp: readable_def time_toks_def)
  }
  note tokens_device[OF _ _ _ ge[OF _ _ _ close, of t], of cols fs b s]
  then have "tokens (header cols @ quoted b @ '' and serialNumber='' @ quoted s
      @ '' and (timestamp >= '' @ u64_text t @ CHR '')'' # ord) = Some (header_read fs @ device_toks b s @ time_toks ''>='' t @ os)"
    using assms(1) by (simp add: readable_def)
  then show "read_statement (header cols @ quoted b @ '' and serialNumber='' @ quoted s
        @ '' and (timestamp >= '' @ u64_text t @ CHR '')'' # ord) =
      Some (Select \<lparr> q_columns = Columns fs, q_table = ''timepoints'',
        q_where = device_conds b s [(''timestamp'', ''>='', Num (unat t))], q_order = keys, q_range = rg \<rparr>)"
    using assms one[of "''>=''" t] unfolding device_conds_def by (intro read_device) (auto simp: readable_def time_toks_def)
qed

lemma window_reads:
  assumes "readable cols fs"
  shows "read_statement (window_statement T cols b s t t' m) =
    Some (Select \<lparr> q_columns = Columns fs, q_table = ''timepoints'',
      q_where = device_conds b s [(''timestamp'', ''>='', Num (unat t)), (''timestamp'', ''<'', Num (unat t'))],
      q_order = [(''timestamp'', False), (''id'', False)], q_range = range_read m \<rparr>)"
proof -
  obtain rs where r: "tokens (range_clause T m) = Some rs" "read_range rs = Some (range_read m)"
    "read_direction rs = (False, rs)" "rs = [] \<or> hd rs \<noteq> TSym '','' "
    using tokens_range_clause by blast
  have hr: "range_clause T m = [] \<or> hd (range_clause T m) = CHR '' ''"
    using hd_ComputeRange by (auto simp: range_clause_def)
  have "tokens (''  order by timestamp, id ASC'' @ range_clause T m)
      = Some ([TWord ''order'', TWord ''by'', TWord ''timestamp'', TSym '','', TWord ''id'', TWord ''asc''] @ rs)"
    by (subst tokens_constant[where ts = "[TWord ''order'', TWord ''by'', TWord ''timestamp'', TSym '','', TWord ''id'', TWord ''asc'']"])
      (use r(1) hr in \<open>auto simp: ends_def token_simps\<close>)
  moreover have "read_order_part ([TWord ''order'', TWord ''by'', TWord ''timestamp'', TSym '','', TWord ''id'', TWord ''asc''] @ rs)
      = Some ([(''timestamp'', False), (''id'', False)], rs)"
    using r(4) by (auto simp: read_order_part_def read_order.simps(2))
  ultimately show ?thesis
    unfolding window_statement_text using r(2) tokens_pieces(6)
    by (intro bounds_read(1)[OF assms]) (simp_all add: token_simps)
qed

text \<open>The two boundary queries.\<close>

definition boundary_text :: "DBType \<Rightarrow> string \<Rightarrow> string" where
  "boundary_text T d = ''  order by timestamp '' @ d @ '', id '' @ d @ ComputeRange T 0 1"

lemma boundary_order:
  assumes "d = ''desc'' \<and> x \<or> d = ''asc'' \<and> \<not> x"
  shows "\<exists>os rs. tokens (boundary_text T d) = Some os \<and> os \<noteq> [] \<and> hd os \<noteq> TWord ''and''
    \<and> read_order_part os = Some ([(''timestamp'', x), (''id'', x)], rs) \<and> read_range rs = Some (Some (0, 1))"
proof -
  let ?ts = "[TWord ''order'', TWord ''by'', TWord ''timestamp'', TWord d, TSym '','', TWord ''id'', TWord d]"
  have "tokens ((''  order by timestamp '' @ d @ '', id '' @ d) @ ComputeRange T 0 1) = Some (?ts @ range_toks T 0 1)"
    by (subst tokens_constant[where ts = ?ts])
      (use assms hd_ComputeRange in \<open>auto simp: ends_def token_simps tokens_ComputeRange\<close>)
  then show ?thesis
    using assms
    by (intro exI[of _ "?ts @ range_toks T 0 1"] exI[of _ "range_toks T 0 1"])
      (cases T; auto simp: boundary_text_def read_order_part_def read_order.simps(2))
qed

lemma latest_reads:
  "read_statement (latest_statement T b s t t') = Some (Select \<lparr> q_columns = Columns row_columns, q_table = ''timepoints'',
      q_where = device_conds b s [(''timestamp'', ''>='', Num (unat t)), (''timestamp'', ''<='', Num (unat t'))],
      q_order = [(''timestamp'', True), (''id'', True)], q_range = Some (0, 1) \<rparr>)"
proof -
  obtain os rs where o: "tokens (boundary_text T ''desc'') = Some os" "os \<noteq> []" "hd os \<noteq> TWord ''and''"
    "read_order_part os = Some ([(''timestamp'', True), (''id'', True)], rs)" "read_range rs = Some (Some (0, 1))"
    using boundary_order[of "''desc''" True T] by blast
  have "tokens '' and (timestamp <= '' = Some [TWord ''and'', TSym ''('', TWord ''timestamp'', TSym ''<='']"
    by (simp add: token_simps)
  from bounds_read(1)[OF readable_row o this, of b s t t'] show ?thesis
    by (simp add: latest_statement_def header_def boundary_text_def)
qed

lemma earliest_reads:
  "read_statement (earliest_statement T b s t) = Some (Select \<lparr> q_columns = Columns row_columns, q_table = ''timepoints'',
      q_where = device_conds b s [(''timestamp'', ''>='', Num (unat t))],
      q_order = [(''timestamp'', False), (''id'', False)], q_range = Some (0, 1) \<rparr>)"
proof -
  obtain os rs where o: "tokens (boundary_text T ''asc'') = Some os" "os \<noteq> []" "hd os \<noteq> TWord ''and''"
    "read_order_part os = Some ([(''timestamp'', False), (''id'', False)], rs)" "read_range rs = Some (Some (0, 1))"
    using boundary_order[of "''asc''" False T] by blast
  from bounds_read(2)[OF readable_row o, of b s t] show ?thesis
    by (simp add: earliest_statement_def header_def boundary_text_def)
qed

section \<open>What the queries return\<close>

definition in_window :: "string \<Rightarrow> string \<Rightarrow> u64 \<Rightarrow> u64 \<Rightarrow> TimePointDBRecordType \<Rightarrow> bool" where
  "in_window b s t t' r \<longleftrightarrow>
     tpr_boardId r = b \<and> tpr_serialNumber r = s \<and> t \<le> tpr_timestamp r \<and> tpr_timestamp r < t'"

text \<open>The rows of a device in a window, in the order of their times.\<close>

definition window_rows :: "TimePointDBRecordType list \<Rightarrow> string \<Rightarrow> string \<Rightarrow> u64 \<Rightarrow> u64 \<Rightarrow> TimePointDBRecordType list \<Rightarrow> bool" where
  "window_rows tbl b s t t' rows \<longleftrightarrow> mset rows = mset (filter (in_window b s t t') tbl)
     \<and> sorted_wrt (\<lambda>x y. tpr_timestamp x \<le> tpr_timestamp y) rows"

lemma matches_window:
  "matches tp_column (device_conds b s [(''timestamp'', ''>='', Num (unat t)), (''timestamp'', ''<'', Num (unat t'))])
     = in_window b s t t'"
  by (auto simp: fun_eq_iff matches_def device_conds_def in_window_def tp_column_def word_le_nat_alt word_less_nat_alt)

lemma sorted_window:
  "sorted_wrt (before tp_column collate ((''timestamp'', False) # keys)) rows \<Longrightarrow>
     sorted_wrt (\<lambda>x y. tpr_timestamp x \<le> tpr_timestamp y) rows"
  by (erule sorted_wrt_mono_rel[rotated]) (auto simp: tp_column_def word_le_nat_alt)

lemma window_query:
  assumes "obeys db ''timepoints'' tp_column collate tbl" "readable cols fs"
    and "Join db into (window_statement T cols b s t t' m) = Some Raw"
    and "\<And>r. into (map (\<lambda>f. tp_column f r) fs) = Inr (g r)"
  obtains rows where "window_rows tbl b s t t' rows"
    "Raw = map g (if m = 0 then rows else take (unat (LimitWithOverflowSentinel m)) rows)"
proof -
  obtain out where o: "db (window_statement T cols b s t t' m) = Inr out" "traverse into out = Inr Raw"
    using assms(3) by (auto simp: Join_def bind_Inr_iff split: sum.splits)
  have "answers tp_column collate tbl \<lparr> q_columns = Columns fs, q_table = ''timepoints'',
      q_where = device_conds b s [(''timestamp'', ''>='', Num (unat t)), (''timestamp'', ''<'', Num (unat t'))],
      q_order = [(''timestamp'', False), (''id'', False)], q_range = range_read m \<rparr> out"
    using assms(1) o(1) window_reads[OF assms(2), of T b s t t' m] unfolding obeys_def by fastforce
  then obtain rows where r: "mset rows = mset (filter (in_window b s t t') tbl)"
    "sorted_wrt (before tp_column collate [(''timestamp'', False), (''id'', False)]) rows"
    "out = map (\<lambda>r. map (\<lambda>f. tp_column f r) fs) (in_range (range_read m) rows)"
    by (auto simp: answers_def matches_window select_rows_def)
  have "traverse into out = Inr (map g (in_range (range_read m) rows))"
    unfolding r(3) by (subst traverse_Inr) (simp add: list_all2_map1 list_all2_map2 list_all2_same assms(4))
  then have "Raw = map g (if m = 0 then rows else take (unat (LimitWithOverflowSentinel m)) rows)"
    using o(2) by (simp add: in_range_def range_read_def)
  moreover have "window_rows tbl b s t t' rows"
    using r(1) sorted_window[OF r(2)] by (simp add: window_rows_def)
  ultimately show thesis using that by blast
qed

lemma window_rows_length: "window_rows tbl b s t t' rows \<Longrightarrow> length rows = length (filter (in_window b s t t') tbl)"
  unfolding window_rows_def by (metis size_mset)

text \<open>The extra row that is asked for makes the limit observable.\<close>

definition too_many :: "u64 \<Rightarrow> 'a list \<Rightarrow> bool" where
  "too_many m rows \<longleftrightarrow> m > 0 \<and> length rows > unat m"

lemma limit_detected:
  assumes "m \<noteq> U64_MAX" "Raw = (if m = 0 then rows else take (unat (LimitWithOverflowSentinel m)) rows)"
  shows "(m > 0 \<and> length Raw > unat m) \<longleftrightarrow> too_many m rows" "\<not> too_many m rows \<Longrightarrow> Raw = rows"
proof -
  have u: "unat (LimitWithOverflowSentinel m) = unat m + 1"
    using assms(1) by (simp add: LimitWithOverflowSentinel_def unatSuc add.commute)
      (metis add.commute add_eq_0_iff unatSuc Suc_eq_plus1)
  show "(m > 0 \<and> length Raw > unat m) \<longleftrightarrow> too_many m rows" "\<not> too_many m rows \<Longrightarrow> Raw = rows"
    using assms(2) u by (auto simp: too_many_def word_gt_0)
qed

lemma into_part:
  "f = ''resource_data'' \<and> g = tpr_resource_data \<or> f = ''radio_data'' \<and> g = tpr_radio_data \<or> f = ''ssid_data'' \<and> g = tpr_ssid_data \<Longrightarrow>
   timepoint_part (map (\<lambda>f. tp_column f r) [''id'', ''timestamp'', f]) = Inr (tpr_id r, tpr_timestamp r, g r)"
  by (auto simp: tp_column_def)

lemma into_row: "timepoint_row (map (\<lambda>f. tp_column f r) row_columns) = Inr r"
  by (simp add: tp_column_def row_columns_def)

text \<open>The record a row becomes in each query; the parsers of the last two skip rows.\<close>

definition resource_point :: "('o, 'v) poco \<Rightarrow> TimePointDBRecordType \<Rightarrow> DeviceTimePoint cpp" where
  "resource_point J r =
     bind (to_object J (DeviceResourceTimePoint_from_json J) DeviceResourceTimePoint_init (tpr_resource_data r))
       (\<lambda>d. Inr (DeviceTimePoint_init \<lparr> dtp_id := tpr_id r, dtp_timestamp := tpr_timestamp r, dtp_resource_data := d \<rparr>))"

definition radio_points :: "('o, 'v) poco \<Rightarrow> TimePointDBRecordType \<Rightarrow> DeviceTimePoint list" where
  "radio_points J r =
     (case ParseRadioData J (tpr_radio_data r) of
        None \<Rightarrow> []
      | Some d \<Rightarrow> [DeviceTimePoint_init \<lparr> dtp_id := tpr_id r, dtp_timestamp := tpr_timestamp r, dtp_radio_data := d \<rparr>])"

definition ssid_points :: "('o, 'v) poco \<Rightarrow> TimePointDBRecordType \<Rightarrow> DeviceTimePoint list" where
  "ssid_points J r =
     (case ParseSsidDataForRssi J (tpr_ssid_data r) of
        None \<Rightarrow> []
      | Some d \<Rightarrow> [DeviceTimePoint_init \<lparr> dtp_id := tpr_id r, dtp_timestamp := tpr_timestamp r, dtp_ssid_data := d \<rparr>])"

lemma traverse_map: "traverse f (map g xs) = traverse (f \<circ> g) xs"
  by (induction xs) (simp_all add: bind_def)

lemma SelectRecordsBySerial_rows:
  assumes "obeys db ''timepoints'' tp_column collate tbl" "m \<noteq> U64_MAX" "\<not> t' \<le> t"
    and "SelectRecordsBySerial db T J b s t t' m = Inr (Some (Recs, ex))"
  obtains rows where "window_rows tbl b s t t' rows" "ex \<longleftrightarrow> too_many m rows"
    "\<not> ex \<Longrightarrow> traverse (timepoint_of_row J) rows = Inr Recs"
proof -
  obtain Raw where j: "Join db timepoint_row (window_statement T (SelectFields (map tolower) TimePoint_Fields) b s t t' m) = Some Raw"
    using assms(3,4) by (auto simp: SelectRecordsBySerial_def split: option.splits)
  then obtain rows where r: "window_rows tbl b s t t' rows"
    "Raw = map id (if m = 0 then rows else take (unat (LimitWithOverflowSentinel m)) rows)"
    using window_query[OF assms(1) readable_row, of timepoint_row _ _ _ _ _ _ _ id] into_row by (metis id_apply)
  have e: "traverse (timepoint_of_row J) Raw = Inr Recs" "ex \<longleftrightarrow> m > 0 \<and> length Raw > unat m"
    using assms(3,4) j by (auto simp: SelectRecordsBySerial_def bind_Inr_iff split: if_splits)
  note l = limit_detected[OF assms(2) r(2)[unfolded list.map_id]]
  show thesis by (rule that[OF r(1)]) (use e l in auto)
qed

lemma SelectResourceRecordsBySerial_rows:
  assumes "obeys db ''timepoints'' tp_column collate tbl" "m \<noteq> U64_MAX" "\<not> t' \<le> t"
    and "SelectResourceRecordsBySerial db T J b s t t' m = Inr (Some (Recs, ex))"
  obtains rows where "window_rows tbl b s t t' rows" "ex \<longleftrightarrow> too_many m rows"
    "\<not> ex \<Longrightarrow> traverse (resource_point J) rows = Inr Recs"
proof -
  let ?g = "\<lambda>r. (tpr_id r, tpr_timestamp r, tpr_resource_data r)"
  obtain Raw where j: "Join db timepoint_part (window_statement T ''id, timestamp, resource_data'' b s t t' m) = Some Raw"
    using assms(3,4) by (auto simp: SelectResourceRecordsBySerial_def split: option.splits)
  obtain rows where r: "window_rows tbl b s t t' rows"
    "Raw = map ?g (if m = 0 then rows else take (unat (LimitWithOverflowSentinel m)) rows)"
    by (rule window_query[OF assms(1) readable_parts(1) j, of ?g]) (use into_part in auto)
  have e: "traverse (\<lambda>(i, t, d). bind (to_object J (DeviceResourceTimePoint_from_json J) DeviceResourceTimePoint_init d)
        (\<lambda>r. Inr (DeviceTimePoint_init \<lparr> dtp_id := i, dtp_timestamp := t, dtp_resource_data := r \<rparr>))) Raw = Inr Recs"
    "ex \<longleftrightarrow> m > 0 \<and> length Raw > unat m"
    using assms(3,4) j by (auto simp: SelectResourceRecordsBySerial_def bind_Inr_iff split: if_splits)
  note l = limit_detected[OF assms(2) refl, of rows]
  show thesis
  proof (rule that[OF r(1)])
    show "ex \<longleftrightarrow> too_many m rows" using e(2) l(1) r(2) by simp
    show "traverse (resource_point J) rows = Inr Recs" if "\<not> ex"
      using e(1) l(2) that \<open>ex \<longleftrightarrow> too_many m rows\<close> r(2) by (simp add: traverse_map o_def resource_point_def[abs_def])
  qed
qed

lemma SelectRadioRecordsBySerial_rows:
  assumes "obeys db ''timepoints'' tp_column collate tbl" "m \<noteq> U64_MAX" "\<not> t' \<le> t"
    and "SelectRadioRecordsBySerial db T J b s t t' m = Inr (Some (Recs, ex))"
  obtains rows where "window_rows tbl b s t t' rows" "ex \<longleftrightarrow> too_many m rows"
    "\<not> ex \<Longrightarrow> Recs = concat (map (radio_points J) rows)"
proof -
  let ?g = "\<lambda>r. (tpr_id r, tpr_timestamp r, tpr_radio_data r)"
  obtain Raw where j: "Join db timepoint_part (window_statement T ''id, timestamp, radio_data'' b s t t' m) = Some Raw"
    using assms(3,4) by (auto simp: SelectRadioRecordsBySerial_def split: option.splits)
  obtain rows where r: "window_rows tbl b s t t' rows"
    "Raw = map ?g (if m = 0 then rows else take (unat (LimitWithOverflowSentinel m)) rows)"
    by (rule window_query[OF assms(1) readable_parts(2) j, of ?g]) (use into_part in auto)
  note l = limit_detected[OF assms(2) refl, of rows]
  show thesis
    by (rule that[OF r(1)])
      (use assms(3,4) j r(2) l in \<open>auto simp: SelectRadioRecordsBySerial_def radio_points_def[abs_def] o_def split: if_splits\<close>)
qed

lemma SelectSsidRecordsBySerial_rows:
  assumes "obeys db ''timepoints'' tp_column collate tbl" "m \<noteq> U64_MAX" "\<not> t' \<le> t"
    and "SelectSsidRecordsBySerial db T J b s t t' m = Inr (Some (Recs, ex))"
  obtains rows where "window_rows tbl b s t t' rows" "ex \<longleftrightarrow> too_many m rows"
    "\<not> ex \<Longrightarrow> Recs = concat (map (ssid_points J) rows)"
proof -
  let ?g = "\<lambda>r. (tpr_id r, tpr_timestamp r, tpr_ssid_data r)"
  obtain Raw where j: "Join db timepoint_part (window_statement T ''id, timestamp, ssid_data'' b s t t' m) = Some Raw"
    using assms(3,4) by (auto simp: SelectSsidRecordsBySerial_def split: option.splits)
  obtain rows where r: "window_rows tbl b s t t' rows"
    "Raw = map ?g (if m = 0 then rows else take (unat (LimitWithOverflowSentinel m)) rows)"
    by (rule window_query[OF assms(1) readable_parts(3) j, of ?g]) (use into_part in auto)
  note l = limit_detected[OF assms(2) refl, of rows]
  show thesis
    by (rule that[OF r(1)])
      (use assms(3,4) j r(2) l in \<open>auto simp: SelectSsidRecordsBySerial_def RssiSsidRecordCountExceedsLimit_def
         ssid_points_def[abs_def] o_def split: if_splits\<close>)
qed

definition of_device :: "string \<Rightarrow> string \<Rightarrow> TimePointDBRecordType \<Rightarrow> bool" where
  "of_device b s r \<longleftrightarrow> tpr_boardId r = b \<and> tpr_serialNumber r = s"

lemma boundary_query:
  assumes "obeys db ''timepoints'' tp_column collate tbl"
    and "read_statement txt = Some (Select \<lparr> q_columns = Columns row_columns, q_table = ''timepoints'', q_where = conds,
      q_order = [(''timestamp'', d), (''id'', d)], q_range = Some (0, 1) \<rparr>)"
    and "matches tp_column conds = P" "boundary db J txt = Inr (Some Rec)"
  shows "case Rec of
      None \<Rightarrow> \<forall>r \<in> set tbl. \<not> P r
    | Some Point \<Rightarrow> \<exists>r \<in> set tbl. P r \<and> timepoint_of_row J r = Inr Point
        \<and> (\<forall>r' \<in> set tbl. P r' \<longrightarrow> (if d then tpr_timestamp r' \<le> tpr_timestamp r else tpr_timestamp r \<le> tpr_timestamp r'))"
proof -
  obtain out Raw where o: "db txt = Inr out" "traverse timepoint_row out = Inr Raw"
    using assms(4) by (auto simp: boundary_def Join_def bind_Inr_iff split: option.splits sum.splits)
  then have j: "Join db timepoint_row txt = Some Raw" by (simp add: Join_def)
  from assms(1,2) o(1) have "answers tp_column collate tbl \<lparr> q_columns = Columns row_columns, q_table = ''timepoints'',
      q_where = conds, q_order = [(''timestamp'', d), (''id'', d)], q_range = Some (0, 1) \<rparr> out"
    unfolding obeys_def by fastforce
  then obtain rows where r: "mset rows = mset (filter P tbl)"
    "sorted_wrt (before tp_column collate [(''timestamp'', d), (''id'', d)]) rows"
    "out = map (\<lambda>r. map (\<lambda>f. tp_column f r) row_columns) (take 1 rows)"
    by (auto simp: answers_def assms(3) select_rows_def in_range_def)
  have "traverse timepoint_row out = Inr (map id (take 1 rows))"
    unfolding r(3) by (subst traverse_Inr) (simp add: list_all2_map1 list_all2_map2 list_all2_same into_row)
  then have raw: "Raw = take 1 rows" using o(2) by simp
  have st: "set rows = {r \<in> set tbl. P r}" using r(1) by (metis set_filter set_mset_mset)
  show ?thesis
  proof (cases rows)
    case Nil
    then show ?thesis using assms(4) j raw st by (auto simp: boundary_def)
  next
    case (Cons x xs)
    then obtain Point where p: "Rec = Some Point" "timepoint_of_row J x = Inr Point"
      using assms(4) j raw by (auto simp: boundary_def bind_Inr_iff)
    have "\<forall>r' \<in> set rows. if d then tpr_timestamp r' \<le> tpr_timestamp x else tpr_timestamp x \<le> tpr_timestamp r'"
      using r(2) Cons by (auto simp: tp_column_def word_le_nat_alt)
    moreover have "x \<in> set tbl" "P x" using st Cons by auto
    ultimately show ?thesis using p st by auto
  qed
qed

lemma SelectLatest_row:
  assumes "obeys db ''timepoints'' tp_column collate tbl" "\<not> t' < t"
    and "SelectLatestRecordAtOrBeforeBySerial db T J b s t t' = Inr (Some Rec)"
  shows "case Rec of
      None \<Rightarrow> \<forall>r \<in> set tbl. \<not> (of_device b s r \<and> t \<le> tpr_timestamp r \<and> tpr_timestamp r \<le> t')
    | Some Point \<Rightarrow> \<exists>r \<in> set tbl. (of_device b s r \<and> t \<le> tpr_timestamp r \<and> tpr_timestamp r \<le> t')
        \<and> timepoint_of_row J r = Inr Point
        \<and> (\<forall>r' \<in> set tbl. of_device b s r' \<and> t \<le> tpr_timestamp r' \<and> tpr_timestamp r' \<le> t'
             \<longrightarrow> (if True then tpr_timestamp r' \<le> tpr_timestamp r else tpr_timestamp r \<le> tpr_timestamp r'))"
  by (rule boundary_query[OF assms(1) latest_reads[of T b s t t']])
    (use assms(2,3) in \<open>auto simp: fun_eq_iff SelectLatestRecordAtOrBeforeBySerial_def matches_def device_conds_def of_device_def
       tp_column_def word_le_nat_alt\<close>)

lemma SelectEarliest_row:
  assumes "obeys db ''timepoints'' tp_column collate tbl"
    and "SelectEarliestRecordAtOrAfterBySerial db T J b s t = Inr (Some Rec)"
  shows "case Rec of
      None \<Rightarrow> \<forall>r \<in> set tbl. \<not> (of_device b s r \<and> t \<le> tpr_timestamp r)
    | Some Point \<Rightarrow> \<exists>r \<in> set tbl. (of_device b s r \<and> t \<le> tpr_timestamp r) \<and> timepoint_of_row J r = Inr Point
        \<and> (\<forall>r' \<in> set tbl. of_device b s r' \<and> t \<le> tpr_timestamp r'
             \<longrightarrow> (if False then tpr_timestamp r' \<le> tpr_timestamp r else tpr_timestamp r \<le> tpr_timestamp r'))"
  by (rule boundary_query[OF assms(1) earliest_reads[of T b s t]])
    (use assms(2) in \<open>auto simp: fun_eq_iff SelectEarliestRecordAtOrAfterBySerial_def matches_def device_conds_def of_device_def
       tp_column_def word_le_nat_alt\<close>)

end
