(* ===== verification/Retention.thy ===== *)
theory Retention
  imports TimePoints
begin

text \<open>
  The queries and deletions of \<^verbatim>\<open>src/src/storage/storage_device_availability_events.cpp\<close> (its insertion is in \<open>ApStats\<close>), the
  deletion of time points between two dates, and the periodic clean-up of \<^verbatim>\<open>src/src/StorageService.cpp\<close>; what the statements of
  \<open>Deletions\<close> delete.
\<close>

section \<open>Statements built from constants, literals and numbers\<close>

datatype piece = Con string | Lit string | Dec nat

fun piece_text :: "piece \<Rightarrow> string" where
  "piece_text (Con p) = p" | "piece_text (Lit v) = quoted v" | "piece_text (Dec n) = dec_string n"

fun piece_toks :: "piece \<Rightarrow> token list" where
  "piece_toks (Con p) = the (tokens p)" | "piece_toks (Lit v) = [TLit v]" | "piece_toks (Dec n) = [TNum n]"

abbreviation pieces_text :: "piece list \<Rightarrow> string" where
  "pieces_text ps \<equiv> concat (map piece_text ps)"

fun pieces_ok :: "piece list \<Rightarrow> bool" where
  "pieces_ok [] \<longleftrightarrow> True"
| "pieces_ok (Con p # ps) \<longleftrightarrow> p \<noteq> [] \<and> quote \<notin> set p \<and> tokens p \<noteq> None \<and> (last p \<in> set '' (),='' \<or> ps = [] \<or> (last p \<in> set ''<>'' \<and> (\<exists>n qs. ps = Dec n # qs))) \<and> pieces_ok ps"
| "pieces_ok (Lit v # ps) \<longleftrightarrow> (ps = [] \<or> (\<exists>p qs. ps = Con p # qs \<and> p \<noteq> [] \<and> hd p \<in> set '' ),'')) \<and> pieces_ok ps"
| "pieces_ok (Dec n # ps) \<longleftrightarrow> (ps = [] \<or> (\<exists>p qs. ps = Con p # qs \<and> p \<noteq> [] \<and> hd p \<in> set '' ),'')) \<and> pieces_ok ps"

lemma tokens_pieces_text:
  "pieces_ok ps \<Longrightarrow> tokens (pieces_text ps) = Some (concat (map piece_toks ps))"
proof (induction ps rule: pieces_ok.induct)
  case (2 p ps)
  then obtain ts where "tokens p = Some ts" by auto
  moreover have "hd (dec_string n @ xs) \<noteq> CHR ''=''" for n xs
    using dec_string_digits[of "hd (dec_string n)" n] by (auto simp: hd_append isdigit_bits)
  ultimately show ?case using 2 tokens_constant[of p ts "pieces_text ps"] by (auto simp: ends_def)
next
  case (3 v ps)
  then have "pieces_text ps = [] \<or> hd (pieces_text ps) \<noteq> quote" by auto
  with 3 show ?case by (simp add: tokens_quoted)
next
  case (4 n ps)
  then have "pieces_text ps = [] \<or> hd (pieces_text ps) \<in> set '' ),''" by auto
  with 4 show ?case by (simp add: tokens_num)
qed simp

lemma read_pieces:
  assumes "txt = pieces_text ps" "pieces_ok ps" "ps \<noteq> []" "concat (map piece_toks ps) \<noteq> []"
  shows "hd (concat (map piece_toks ps)) = TWord ''delete'' \<Longrightarrow> read_delete (tl (concat (map piece_toks ps))) = Some st \<Longrightarrow>
      read_statement txt = Some st"
    and "hd (concat (map piece_toks ps)) = TWord ''select'' \<Longrightarrow> read_select (tl (concat (map piece_toks ps))) = Some st \<Longrightarrow>
      read_statement txt = Some st"
proof -
  have t: "tokens txt = Some (hd (concat (map piece_toks ps)) # tl (concat (map piece_toks ps)))"
    unfolding assms(1) tokens_pieces_text[OF assms(2)] list.collapse[OF assms(4)] ..
  show "hd (concat (map piece_toks ps)) = TWord ''delete'' \<Longrightarrow> read_delete (tl (concat (map piece_toks ps))) = Some st \<Longrightarrow>
      read_statement txt = Some st"
    unfolding read_statement_def t by simp
  show "hd (concat (map piece_toks ps)) = TWord ''select'' \<Longrightarrow> read_select (tl (concat (map piece_toks ps))) = Some st \<Longrightarrow>
      read_statement txt = Some st"
    unfolding read_statement_def t by simp
qed

section \<open>Deleting time points\<close>

text \<open>With no date the clause is empty.\<close>

definition timeline_clause :: "string \<Rightarrow> u64 \<Rightarrow> u64 \<Rightarrow> string" where
  "timeline_clause boardId FromDate LastDate =
     (if FromDate \<noteq> 0 \<and> LastDate \<noteq> 0
      then '' boardId='' @ raw boardId @ '' and (timestamp >= '' @ u64_text FromDate @ '' ) and ( timestamp <= ''
             @ u64_text LastDate @ '' ) ''
      else if FromDate \<noteq> 0 then '' boardId='' @ raw boardId @ '' and (timestamp >= '' @ u64_text FromDate @ '') ''
      else if LastDate \<noteq> 0 then '' boardId='' @ raw boardId @ '' and (timestamp <= '' @ u64_text LastDate @ '') ''
      else [])"

definition DeleteTimeLine :: "'r commands \<Rightarrow> string \<Rightarrow> u64 \<Rightarrow> u64 \<Rightarrow> 'r list \<Rightarrow> 'r list \<times> bool" where
  "DeleteTimeLine run boardId FromDate LastDate rows =
     (fst (DeleteRecords run ''timepoints'' (timeline_clause boardId FromDate LastDate) rows), True)"

section \<open>Availability events\<close>

definition DeviceAvailabilityEvent_Fields :: "Field list" where
  "DeviceAvailabilityEvent_Fields =
     [Field_sized ''id'' 64 True, Field_typed ''board_id'' FT_TEXT, Field_typed ''serialNumber'' FT_TEXT,
      Field_typed ''event_type'' FT_TEXT, Field_typed ''event_time'' FT_BIGINT, Field_typed ''reason'' FT_TEXT,
      Field_typed ''connection_ip'' FT_TEXT, Field_typed ''session_id'' FT_TEXT, Field_typed ''event_id'' FT_TEXT,
      Field_typed ''idempotency_key'' FT_TEXT]"

text \<open>The columns are the members: \<^verbatim>\<open>Convert\<close> copies them one by one, both ways.\<close>

definition ev_column :: "string \<Rightarrow> DeviceAvailabilityEvent \<Rightarrow> cell" where
  "ev_column f e =
     (if f = ''id'' then Text (dae_id e) else if f = ''board_id'' then Text (dae_board_id e)
      else if f = ''serialnumber'' then Text (dae_serialNumber e) else if f = ''event_type'' then Text (dae_event_type e)
      else if f = ''event_time'' then Num (unat (dae_event_time e)) else if f = ''reason'' then Text (dae_reason e)
      else if f = ''connection_ip'' then Text (dae_connection_ip e)
      else if f = ''session_id'' then Text (dae_session_id e) else if f = ''event_id'' then Text (dae_event_id e)
      else if f = ''idempotency_key'' then Text (dae_idempotency_key e) else Text [])"

fun count_row :: "cell list \<Rightarrow> (u64 \<times> u64 \<times> u64) cpp" where
  "count_row [Num a, Num b, Num c] = Inr (of_nat a, of_nat b, of_nat c)"
| "count_row _ = Inl Type_error"

definition offline_statement :: "string \<Rightarrow> string \<Rightarrow> u64 \<Rightarrow> u64 \<Rightarrow> string" where
  "offline_statement boardId serialNumber StartTime EndTime =
     ''select count(*), coalesce(min(event_time), 0), coalesce(max(event_time), 0) from device_availability_events where ''
       @ '' board_id='' @ quoted boardId @ '' and serialNumber='' @ quoted serialNumber
       @ '' and event_type='' @ raw ''offline'' @ '' and (event_time >= '' @ u64_text StartTime
       @ '') and (event_time < '' @ u64_text EndTime @ '') ''"

text \<open>The number of events with the first and the last time, or false.\<close>

definition CountOfflineEventsByBoardAndSerial ::
  "cell list database \<Rightarrow> string \<Rightarrow> string \<Rightarrow> u64 \<Rightarrow> u64 \<Rightarrow> (u64 \<times> u64 option \<times> u64 option) option" where
  "CountOfflineEventsByBoardAndSerial db boardId serialNumber StartTime EndTime =
     (if EndTime \<le> StartTime then Some (0, None, None)
      else case Join db count_row (offline_statement boardId serialNumber StartTime EndTime) of
             None \<Rightarrow> None
           | Some [] \<Rightarrow> Some (0, None, None)
           | Some ((offlineCount, first_time, last_time) # _) \<Rightarrow>
               if offlineCount > 0 then Some (offlineCount, Some first_time, Some last_time)
               else Some (offlineCount, None, None))"

definition DeleteExpiredEventsForBoard ::
  "DeviceAvailabilityEvent commands \<Rightarrow> string \<Rightarrow> u64 \<Rightarrow> DeviceAvailabilityEvent list \<Rightarrow> DeviceAvailabilityEvent list \<times> bool" where
  "DeleteExpiredEventsForBoard run boardId cutoffTime =
     DeleteRecords run ''device_availability_events''
       ('' board_id='' @ quoted boardId @ '' and event_time<'' @ u64_text cutoffTime @ '' '')"

section \<open>The periodic clean-up\<close>

definition EffectiveBoardRetention :: "BoardInfo \<Rightarrow> u64" where
  "EffectiveBoardRetention Board =
     fold (\<lambda>Venue Retention. if venue_retention Venue > Retention then venue_retention Venue else Retention)
       (board_venueList Board) 0"

definition RetentionCutoff :: "u64 \<Rightarrow> u64 \<Rightarrow> u64" where
  "RetentionCutoff Now Retention = (if Retention = 0 \<or> Retention \<ge> Now then 0 else Now - Retention)"

text \<open>\<open>ce_boards\<close> is \<^verbatim>\<open>BoardsDB().GetRecords\<close>; \<open>ce_now\<close> is the clock when the page at an offset has been read, \<open>ce_end\<close> the
  clock at the end of the run.\<close>

record cleanup_env =
  ce_boards :: "u64 \<Rightarrow> u64 \<Rightarrow> BoardInfo list \<times> bool"
  ce_timepoints :: "TimePointDBRecordType commands"
  ce_events :: "DeviceAvailabilityEvent commands"
  ce_clients :: "WifiClientHistory commands"
  ce_now :: "u64 \<Rightarrow> u64"
  ce_end :: u64
  ce_max_days :: u64

record tables =
  tb_timepoints :: "TimePointDBRecordType list"
  tb_events :: "DeviceAvailabilityEvent list"
  tb_clients :: "WifiClientHistory list"

definition expired_clause :: "string \<Rightarrow> u64 \<Rightarrow> string" where
  "expired_clause boardId Cutoff = '' boardId='' @ quoted boardId @ '' and timestamp<'' @ u64_text Cutoff @ '' ''"

text \<open>One board; a failure is only logged.\<close>

definition clean_board :: "cleanup_env \<Rightarrow> u64 \<Rightarrow> BoardInfo \<Rightarrow> tables \<Rightarrow> tables" where
  "clean_board E Now Board S =
     (let Retention = EffectiveBoardRetention Board
      in if Retention = 0 then S
         else let Cutoff = RetentionCutoff Now Retention;
                  S = S \<lparr> tb_timepoints := fst (DeleteRecords (ce_timepoints E) ''timepoints''
                            (expired_clause (board_id Board) Cutoff) (tb_timepoints S)) \<rparr>
              in S \<lparr> tb_events := fst (DeleteExpiredEventsForBoard (ce_events E) (board_id Board) Cutoff (tb_events S)) \<rparr>)"

partial_function (option) clean_loop :: "cleanup_env \<Rightarrow> u64 \<Rightarrow> tables \<Rightarrow> tables option" where
  "clean_loop E Start S =
     (case ce_boards E Start 100 of
        (BoardList, found) \<Rightarrow>
          if \<not> found then Some S
          else if length BoardList < 100 then Some (fold (clean_board E (ce_now E Start)) BoardList S)
          else clean_loop E (Start + of_nat (length BoardList)) (fold (clean_board E (ce_now E Start)) BoardList S))"

definition clients_clause :: "u64 \<Rightarrow> string" where
  "clients_clause LowerDate = '' timestamp<'' @ u64_text LowerDate @ '' ''"

definition Storage_onTimer :: "cleanup_env \<Rightarrow> tables \<Rightarrow> tables option" where
  "Storage_onTimer E S =
     (case clean_loop E 0 S of
        None \<Rightarrow> None
      | Some S \<Rightarrow>
          (let LowerDate = ce_end E - ce_max_days E * 60 * 60 * 24
           in Some (S \<lparr> tb_clients := fst (DeleteRecords (ce_clients E) ''wificlienthistory'' (clients_clause LowerDate) (tb_clients S)) \<rparr>)))"

section \<open>What the statements delete\<close>

lemma DeleteRecords_effect:
  assumes "deletes run T col" "read_statement (''delete from '' @ T @ '' where '' @ Where) = Some (Delete T conds)"
  shows "DeleteRecords run T Where rows = (rows', x) \<Longrightarrow>
    rows' = (if x then filter (\<lambda>r. \<not> matches col conds r) rows else rows)"
    and "\<forall>txt rows. \<exists>rows'. run txt rows = Inr rows' \<Longrightarrow> snd (DeleteRecords run T Where rows)"
proof -
  show "rows' = (if x then filter (\<lambda>r. \<not> matches col conds r) rows else rows)"
    if "DeleteRecords run T Where rows = (rows', x)"
    using that assms unfolding deletes_def by (fastforce simp: DeleteRecords_def split: sum.splits)
  show "\<forall>txt rows. \<exists>rows'. run txt rows = Inr rows' \<Longrightarrow> snd (DeleteRecords run T Where rows)"
    by (auto simp: DeleteRecords_def split: sum.splits) (metis sum.distinct(1))
qed

lemma expired_reads:
  "read_statement (''delete from '' @ ''timepoints'' @ '' where '' @ expired_clause b c) =
     Some (Delete ''timepoints'' [(''boardid'', ''='', Text b), (''timestamp'', ''<'', Num (unat c))])"
  by (rule read_pieces(1)[of _ "[Con ''delete from timepoints where  boardId='', Lit b, Con '' and timestamp<'', Dec (unat c), Con '' '']"])
    (simp_all add: expired_clause_def token_simps read_delete_def read_conds.simps[of "TWord _ # _"])

lemma expired_events_read:
  "read_statement (''delete from '' @ ''device_availability_events'' @ '' where '' @ '' board_id='' @ quoted b @ '' and event_time<''
       @ u64_text c @ '' '') =
     Some (Delete ''device_availability_events'' [(''board_id'', ''='', Text b), (''event_time'', ''<'', Num (unat c))])"
  by (rule read_pieces(1)[of _ "[Con ''delete from device_availability_events where  board_id='', Lit b, Con '' and event_time<'',
        Dec (unat c), Con '' '']"])
    (simp_all add: token_simps read_delete_def read_conds.simps[of "TWord _ # _"])

text \<open>The id of a board in the two statements that delete what is stored for it.  Time points: an id with a quote is read as
  something else, for instance as a condition on the device.\<close>

lemma board_points_read:
  "quote \<notin> set b \<Longrightarrow> read_statement (''delete from '' @ ''timepoints'' @ '' where '' @ '' boardId='' @ raw b @ '' '') =
     Some (Delete ''timepoints'' [(''boardid'', ''='', Text b)])"
  by (rule read_pieces(1)[of _ "[Con ''delete from timepoints where  boardId='', Lit b, Con '' '']"])
    (simp_all add: raw_plain token_simps read_delete_def read_conds.simps[of "TWord _ # _"])

lemma injected_points_read:
  assumes "quote \<notin> set b" "quote \<notin> set d"
  shows "read_statement (''delete from '' @ ''timepoints'' @ '' where '' @ '' boardId=''
      @ raw (b @ quote # '' and serialNumber='' @ quote # d) @ '' '') =
     Some (Delete ''timepoints'' [(''boardid'', ''='', Text b), (''serialnumber'', ''='', Text d)])"
proof -
  have "raw (b @ quote # '' and serialNumber='' @ quote # d) = quoted b @ '' and serialNumber='' @ quoted d"
    using assms by (simp add: raw_def quoted_def Escape_plain)
  then show ?thesis
    by (intro read_pieces(1)[of _ "[Con ''delete from timepoints where  boardId='', Lit b, Con '' and serialNumber='', Lit d, Con '' '']"])
      (simp_all add: token_simps read_delete_def read_conds.simps[of "TWord _ # _"])
qed

lemma board_events_read:
  "read_statement (''delete from '' @ ''device_availability_events'' @ '' where '' @ '' board_id='' @ quoted b @ '' '') =
     Some (Delete ''device_availability_events'' [(''board_id'', ''='', Text b)])"
  by (rule read_pieces(1)[of _ "[Con ''delete from device_availability_events where  board_id='', Lit b, Con '' '']"])
    (simp_all add: token_simps read_delete_def read_conds.simps[of "TWord _ # _"])

lemma clients_read:
  "read_statement (''delete from '' @ ''wificlienthistory'' @ '' where '' @ clients_clause c) =
     Some (Delete ''wificlienthistory'' [(''timestamp'', ''<'', Num (unat c))])"
  by (rule read_pieces(1)[of _ "[Con ''delete from wificlienthistory where  timestamp<'', Dec (unat c), Con '' '']"])
    (simp_all add: clients_clause_def token_simps read_delete_def read_conds.simps[of "TWord _ # _"])

lemma offline_reads:
  "read_statement (offline_statement b s t t') =
     Some (Select \<lparr> q_columns = CountRange ''event_time'', q_table = ''device_availability_events'',
       q_where = [(''board_id'', ''='', Text b), (''serialnumber'', ''='', Text s), (''event_type'', ''='', Text ''offline''),
         (''event_time'', ''>='', Num (unat t)), (''event_time'', ''<'', Num (unat t'))],
       q_order = [], q_range = None \<rparr>)"
  by (rule read_pieces(2)[of _ "[Con ''select count(*), coalesce(min(event_time), 0), coalesce(max(event_time), 0) from device_availability_events where  board_id='',
        Lit b, Con '' and serialNumber='', Lit s, Con '' and event_type='', Lit ''offline'', Con '' and (event_time >= '', Dec (unat t),
        Con '') and (event_time < '', Dec (unat t'), Con '') '']"])
    (simp_all add: offline_statement_def raw_def quoted_def Escape_def token_simps digit_val_def char_code_def num_val_def
       read_select_def read_where_part_def read_order_part_def read_conds.simps[of "TWord _ # _"] read_conds.simps[of "TSym _ # _"])

section \<open>What the clean-up removes\<close>

text \<open>The columns of the client history its statements name.\<close>

definition wc_column :: "string \<Rightarrow> WifiClientHistory \<Rightarrow> cell" where
  "wc_column f h =
     (if f = ''timestamp'' then Num (unat (wch_timestamp h)) else if f = ''station_id'' then Text (wch_station_id h)
      else if f = ''venue_id'' then Text (wch_venue_id h) else Text [])"

text \<open>What the clean-up relies on: the engine runs a deletion as it reads, and a page has at most the 100 rows asked for.\<close>

abbreviation board_page :: "cleanup_env \<Rightarrow> nat \<Rightarrow> BoardInfo list \<times> bool" where
  "board_page E i \<equiv> ce_boards E (of_nat (100 * i)) 100"

definition cleanup_ok :: "cleanup_env \<Rightarrow> bool" where
  "cleanup_ok E \<longleftrightarrow> deletes (ce_timepoints E) ''timepoints'' tp_column
     \<and> deletes (ce_events E) ''device_availability_events'' ev_column
     \<and> deletes (ce_clients E) ''wificlienthistory'' wc_column
     \<and> (\<forall>i. length (fst (board_page E i)) \<le> 100)"

text \<open>The loop goes on after a page it could read that is full; the boards it visits are those of the pages it reads, whatever
  these are.\<close>

definition full_page :: "cleanup_env \<Rightarrow> nat \<Rightarrow> bool" where
  "full_page E i \<longleftrightarrow> snd (board_page E i) \<and> length (fst (board_page E i)) = 100"

definition visited :: "cleanup_env \<Rightarrow> nat \<Rightarrow> BoardInfo \<Rightarrow> bool" where
  "visited E i B \<longleftrightarrow> (\<forall>j < i. full_page E j) \<and> snd (board_page E i) \<and> B \<in> set (fst (board_page E i))"

definition never_fails :: "'r commands \<Rightarrow> bool" where
  "never_fails run \<longleftrightarrow> (\<forall>txt rows. \<exists>rows'. run txt rows = Inr rows')"

text \<open>A row of a board one of whose venues keeps its records for a limited time, and that is older than every one of them asks.\<close>

definition expired :: "string \<Rightarrow> u64 \<Rightarrow> u64 \<Rightarrow> BoardInfo \<Rightarrow> bool" where
  "expired b t Now B \<longleftrightarrow> b = board_id B \<and> (\<exists>V \<in> set (board_venueList B). venue_retention V \<noteq> 0)
     \<and> (\<forall>V \<in> set (board_venueList B). unat t + unat (venue_retention V) < unat Now)"

lemma EffectiveBoardRetention_greatest:
  "(\<forall>V \<in> set (board_venueList B). venue_retention V \<le> EffectiveBoardRetention B)
   \<and> (EffectiveBoardRetention B = 0 \<or> (\<exists>V \<in> set (board_venueList B). venue_retention V = EffectiveBoardRetention B))"
proof -
  let ?f = "\<lambda>V. max (venue_retention V)"
  have "(\<forall>V \<in> set Vs. venue_retention V \<le> fold ?f Vs R) \<and> R \<le> fold ?f Vs R
      \<and> (fold ?f Vs R = R \<or> (\<exists>V \<in> set Vs. venue_retention V = fold ?f Vs R))" for Vs R
  proof (induction Vs arbitrary: R)
    case (Cons V Vs)
    from Cons[of "max (venue_retention V) R"] show ?case by (cases "venue_retention V \<le> R") (auto simp: max_def)
  qed simp
  moreover have "EffectiveBoardRetention B = fold ?f (board_venueList B) 0"
    unfolding EffectiveBoardRetention_def by (rule arg_cong[where f = "\<lambda>f. fold f _ _"]) (auto simp: fun_eq_iff max_def)
  ultimately show ?thesis by metis
qed

lemma expired_cutoff:
  "expired b t Now B \<longleftrightarrow> b = board_id B \<and> EffectiveBoardRetention B \<noteq> 0 \<and> t < RetentionCutoff Now (EffectiveBoardRetention B)"
proof -
  let ?R = "EffectiveBoardRetention B"
  note g = EffectiveBoardRetention_greatest[of B]
  have "(\<exists>V \<in> set (board_venueList B). venue_retention V \<noteq> 0) \<longleftrightarrow> ?R \<noteq> 0"
    using g by (metis word_le_0_iff)
  moreover have "(\<forall>V \<in> set (board_venueList B). unat t + unat (venue_retention V) < unat Now) \<longleftrightarrow> unat t + unat ?R < unat Now"
    if "?R \<noteq> 0"
  proof -
    from that g obtain V where V: "V \<in> set (board_venueList B)" "venue_retention V = ?R" by blast
    have "unat (venue_retention W) \<le> unat ?R" if "W \<in> set (board_venueList B)" for W using g that by (simp add: word_le_nat_alt)
    with V show ?thesis by (metis add_le_cancel_left le_less_trans)
  qed
  moreover have "unat t + unat ?R < unat Now \<longleftrightarrow> t < RetentionCutoff Now ?R" if "?R \<noteq> 0"
    using that by (auto simp: RetentionCutoff_def word_less_nat_alt word_le_nat_alt unat_sub_if_size)
  ultimately show ?thesis unfolding expired_def by blast
qed

lemma clean_board_timepoints:
  assumes "deletes (ce_timepoints E) ''timepoints'' tp_column"
  shows "\<exists>D \<subseteq> {B}. tb_timepoints (clean_board E Now B S)
      = filter (\<lambda>r. \<forall>B \<in> D. \<not> expired (tpr_boardId r) (tpr_timestamp r) Now B) (tb_timepoints S)
    \<and> (never_fails (ce_timepoints E) \<longrightarrow> D = {B})"
proof -
  let ?W = "expired_clause (board_id B) (RetentionCutoff Now (EffectiveBoardRetention B))"
  obtain rows' x where d: "DeleteRecords (ce_timepoints E) ''timepoints'' ?W (tb_timepoints S) = (rows', x)" by fastforce
  have m: "EffectiveBoardRetention B \<noteq> 0 \<Longrightarrow>
      matches tp_column [(''boardid'', ''='', Text (board_id B)), (''timestamp'', ''<'', Num (unat (RetentionCutoff Now (EffectiveBoardRetention B))))]
      = (\<lambda>r. expired (tpr_boardId r) (tpr_timestamp r) Now B)"
    by (auto simp: fun_eq_iff matches_def tp_column_def expired_cutoff word_less_nat_alt)
  note e = DeleteRecords_effect[OF assms expired_reads]
  show ?thesis
  proof (cases "EffectiveBoardRetention B = 0")
    case True
    then show ?thesis by (intro exI[of _ "{B}"]) (simp add: clean_board_def expired_cutoff)
  next
    case False
    then have "tb_timepoints (clean_board E Now B S) = rows'" using d by (simp add: clean_board_def Let_def)
    moreover have "rows' = (if x then filter (\<lambda>r. \<not> expired (tpr_boardId r) (tpr_timestamp r) Now B) (tb_timepoints S) else tb_timepoints S)"
      using e(1)[OF d] unfolding m[OF False] .
    moreover have "never_fails (ce_timepoints E) \<Longrightarrow> x"
      using e(2)[of "board_id B" "RetentionCutoff Now (EffectiveBoardRetention B)" "tb_timepoints S"] d by (simp add: never_fails_def)
    ultimately show ?thesis by (cases x) (force intro: exI[of _ "{B}"], force intro: exI[of _ "{}"])
  qed
qed

lemma clean_board_events:
  assumes "deletes (ce_events E) ''device_availability_events'' ev_column"
  shows "\<exists>D \<subseteq> {B}. tb_events (clean_board E Now B S)
      = filter (\<lambda>r. \<forall>B \<in> D. \<not> expired (dae_board_id r) (dae_event_time r) Now B) (tb_events S)
    \<and> (never_fails (ce_events E) \<longrightarrow> D = {B})"
proof -
  let ?c = "RetentionCutoff Now (EffectiveBoardRetention B)"
  obtain rows' x where d: "DeleteExpiredEventsForBoard (ce_events E) (board_id B) ?c (tb_events S) = (rows', x)" by fastforce
  have m: "EffectiveBoardRetention B \<noteq> 0 \<Longrightarrow>
      matches ev_column [(''board_id'', ''='', Text (board_id B)), (''event_time'', ''<'', Num (unat ?c))]
      = (\<lambda>r. expired (dae_board_id r) (dae_event_time r) Now B)"
    by (auto simp: fun_eq_iff matches_def ev_column_def expired_cutoff word_less_nat_alt)
  note e = DeleteRecords_effect[OF assms expired_events_read]
  show ?thesis
  proof (cases "EffectiveBoardRetention B = 0")
    case True
    then show ?thesis by (intro exI[of _ "{B}"]) (simp add: clean_board_def expired_cutoff)
  next
    case False
    then have "tb_events (clean_board E Now B S) = rows'" using d by (simp add: clean_board_def Let_def)
    moreover have "rows' = (if x then filter (\<lambda>r. \<not> expired (dae_board_id r) (dae_event_time r) Now B) (tb_events S) else tb_events S)"
      using e(1)[OF d[unfolded DeleteExpiredEventsForBoard_def]] unfolding m[OF False] .
    moreover have "never_fails (ce_events E) \<Longrightarrow> x"
      using e(2)[of "board_id B" ?c "tb_events S"] d by (simp add: never_fails_def DeleteExpiredEventsForBoard_def)
    ultimately show ?thesis by (cases x) (force intro: exI[of _ "{B}"], force intro: exI[of _ "{}"])
  qed
qed

lemma fold_clean:
  assumes "\<And>p S. \<exists>D \<subseteq> {p}. get (f p S) = filter (\<lambda>r. \<forall>q \<in> D. \<not> old q r) (get S) \<and> (sure \<longrightarrow> D = {p})"
  shows "\<exists>D \<subseteq> set ps. get (fold f ps S) = filter (\<lambda>r. \<forall>q \<in> D. \<not> old q r) (get S) \<and> (sure \<longrightarrow> D = set ps)"
proof (induction ps arbitrary: S)
  case (Cons p ps)
  obtain D where D: "D \<subseteq> {p}" "get (f p S) = filter (\<lambda>r. \<forall>q \<in> D. \<not> old q r) (get S)" "sure \<longrightarrow> D = {p}"
    using assms by blast
  obtain D' where D': "D' \<subseteq> set ps" "get (fold f ps (f p S)) = filter (\<lambda>r. \<forall>q \<in> D'. \<not> old q r) (get (f p S))"
    "sure \<longrightarrow> D' = set ps"
    using Cons.IH by blast
  have "get (fold f (p # ps) S) = filter (\<lambda>r. \<forall>q \<in> D \<union> D'. \<not> old q r) (get S)"
    using D(2) D'(2) by (auto simp: conj_commute intro!: filter_cong)
  with D D' show ?case by (intro exI[of _ "D \<union> D'"]) auto
qed (intro exI[of _ "{}"], simp)

text \<open>The loop visits the boards of its pages in order, each with the clock of its page, up to the first page that is not full.\<close>

definition page_now :: "cleanup_env \<Rightarrow> nat \<Rightarrow> u64" where
  "page_now E i = ce_now E (of_nat (100 * i))"

definition clean_from :: "cleanup_env \<Rightarrow> nat \<times> BoardInfo \<Rightarrow> tables \<Rightarrow> tables" where
  "clean_from E = (\<lambda>(i, B). clean_board E (page_now E i) B)"

definition page_visits :: "cleanup_env \<Rightarrow> nat \<Rightarrow> (nat \<times> BoardInfo) list" where
  "page_visits E i = (if snd (board_page E i) then map (Pair i) (fst (board_page E i)) else [])"

lemma fold_page:
  "snd (board_page E i) \<Longrightarrow> fold (clean_board E (ce_now E (of_nat (100 * i)))) (fst (board_page E i)) = fold (clean_from E) (page_visits E i)"
  by (simp add: page_visits_def fold_map o_def clean_from_def page_now_def)

lemma clean_loop_visits:
  assumes "\<forall>i. length (fst (board_page E i)) \<le> 100" "\<not> full_page E n" "\<forall>j < n. full_page E j" "k \<le> n"
  shows "clean_loop E (of_nat (100 * k)) S = Some (fold (clean_from E) (concat (map (page_visits E) [k..<Suc n])) S)"
  using assms(4)
proof (induction "n - k" arbitrary: k S)
  case 0
  then have k: "k = n" by simp
  obtain Bs f where p: "board_page E n = (Bs, f)" by fastforce
  have "f \<Longrightarrow> length Bs < 100" using assms(1)[rule_format, of n] assms(2) p by (auto simp: full_page_def)
  then show ?case using p fold_page[of E n] by (subst clean_loop.simps) (cases f; simp add: k page_visits_def[of E n])
next
  case (Suc m)
  then have f: "full_page E k" using assms(3) by simp
  then have p: "snd (board_page E k)" "length (fst (board_page E k)) = 100" by (simp_all add: full_page_def)
  have off: "of_nat (100 * k) + of_nat 100 = (of_nat (100 * Suc k) :: u64)" by (simp add: algebra_simps)
  have "clean_loop E (of_nat (100 * k)) S = clean_loop E (of_nat (100 * Suc k)) (fold (clean_from E) (page_visits E k) S)"
    using p fold_page[OF p(1)] off by (subst clean_loop.simps) (simp add: case_prod_beta add.commute del: of_nat_mult)
  also have "\<dots> = Some (fold (clean_from E) (concat (map (page_visits E) [Suc k..<Suc n])) (fold (clean_from E) (page_visits E k) S))"
    using Suc by (intro Suc.hyps(1)) simp_all
  finally show ?case using Suc.prems by (simp add: upt_conv_Cons del: upt_Suc)
qed

lemma visits_set:
  assumes "\<not> full_page E n" "\<forall>j < n. full_page E j"
  shows "set (concat (map (page_visits E) [0..<Suc n])) = {(i, B). visited E i B}"
proof -
  have "(i, B) \<in> set (page_visits E k) \<longleftrightarrow> i = k \<and> snd (board_page E k) \<and> B \<in> set (fst (board_page E k))" for i B k
    by (auto simp: page_visits_def)
  then have "set (concat (map (page_visits E) [0..<Suc n])) = {(i, B). i \<le> n \<and> snd (board_page E i) \<and> B \<in> set (fst (board_page E i))}"
    unfolding set_concat set_map set_upt by auto
  moreover have "visited E i B \<longleftrightarrow> i \<le> n \<and> snd (board_page E i) \<and> B \<in> set (fst (board_page E i))" for i B
    using assms unfolding visited_def by (meson le_less_trans not_le order_refl less_le_trans)
  ultimately show ?thesis by simp
qed

definition old_for :: "cleanup_env \<Rightarrow> nat \<times> BoardInfo \<Rightarrow> string \<Rightarrow> u64 \<Rightarrow> bool" where
  "old_for E q b t \<longleftrightarrow> expired b t (page_now E (fst q)) (snd q)"

lemma clean_from_one:
  assumes "cleanup_ok E"
  shows "\<exists>D \<subseteq> {q}. tb_timepoints (clean_from E q S) = filter (\<lambda>r. \<forall>q \<in> D. \<not> old_for E q (tpr_boardId r) (tpr_timestamp r)) (tb_timepoints S)
      \<and> (never_fails (ce_timepoints E) \<longrightarrow> D = {q})"
    and "\<exists>D \<subseteq> {q}. tb_events (clean_from E q S) = filter (\<lambda>r. \<forall>q \<in> D. \<not> old_for E q (dae_board_id r) (dae_event_time r)) (tb_events S)
      \<and> (never_fails (ce_events E) \<longrightarrow> D = {q})"
    and "tb_clients (clean_from E q S) = tb_clients S"
proof -
  obtain i B where q: "q = (i, B)" by fastforce
  note c = assms[unfolded cleanup_ok_def]
  obtain K where "K \<subseteq> {B}" "tb_timepoints (clean_board E (page_now E i) B S)
      = filter (\<lambda>r. \<forall>B \<in> K. \<not> expired (tpr_boardId r) (tpr_timestamp r) (page_now E i) B) (tb_timepoints S)"
    "never_fails (ce_timepoints E) \<longrightarrow> K = {B}"
    using clean_board_timepoints[where E = E and Now = "page_now E i" and B = B and S = S] c by blast
  then show "\<exists>D \<subseteq> {q}. tb_timepoints (clean_from E q S) = filter (\<lambda>r. \<forall>q \<in> D. \<not> old_for E q (tpr_boardId r) (tpr_timestamp r)) (tb_timepoints S)
      \<and> (never_fails (ce_timepoints E) \<longrightarrow> D = {q})"
    using q by (intro exI[of _ "Pair i ` K"]) (auto simp: clean_from_def old_for_def)
  obtain K where "K \<subseteq> {B}" "tb_events (clean_board E (page_now E i) B S)
      = filter (\<lambda>r. \<forall>B \<in> K. \<not> expired (dae_board_id r) (dae_event_time r) (page_now E i) B) (tb_events S)"
    "never_fails (ce_events E) \<longrightarrow> K = {B}"
    using clean_board_events[where E = E and Now = "page_now E i" and B = B and S = S] c by blast
  then show "\<exists>D \<subseteq> {q}. tb_events (clean_from E q S) = filter (\<lambda>r. \<forall>q \<in> D. \<not> old_for E q (dae_board_id r) (dae_event_time r)) (tb_events S)
      \<and> (never_fails (ce_events E) \<longrightarrow> D = {q})"
    using q by (intro exI[of _ "Pair i ` K"]) (auto simp: clean_from_def old_for_def)
  show "tb_clients (clean_from E q S) = tb_clients S" by (simp add: q clean_from_def clean_board_def Let_def)
qed

definition client_limit :: "cleanup_env \<Rightarrow> u64" where
  "client_limit E = ce_end E - ce_max_days E * 60 * 60 * 24"

lemma clean_clients:
  assumes "deletes (ce_clients E) ''wificlienthistory'' wc_column"
  shows "\<exists>x. fst (DeleteRecords (ce_clients E) ''wificlienthistory'' (clients_clause (client_limit E)) rows)
      = (if x then filter (\<lambda>h. client_limit E \<le> wch_timestamp h) rows else rows) \<and> (never_fails (ce_clients E) \<longrightarrow> x)"
proof -
  obtain rows' x where d: "DeleteRecords (ce_clients E) ''wificlienthistory'' (clients_clause (client_limit E)) rows = (rows', x)"
    by fastforce
  have m: "matches wc_column [(''timestamp'', ''<'', Num (unat (client_limit E)))] = (\<lambda>h. wch_timestamp h < client_limit E)"
    by (auto simp: fun_eq_iff matches_def wc_column_def word_less_nat_alt)
  show ?thesis
    using DeleteRecords_effect(1)[OF assms clients_read d] DeleteRecords_effect(2)[OF assms clients_read, of "client_limit E" rows] d
    by (intro exI[of _ x]) (auto simp: m never_fails_def not_less)
qed

lemma cleanup_result:
  assumes "cleanup_ok E" "\<exists>n. \<not> full_page E n"
  obtains S' D D' x where "Storage_onTimer E S = Some S'" "D \<subseteq> {(i, B). visited E i B}" "D' \<subseteq> {(i, B). visited E i B}"
    "tb_timepoints S' = filter (\<lambda>r. \<forall>q \<in> D. \<not> old_for E q (tpr_boardId r) (tpr_timestamp r)) (tb_timepoints S)"
    "tb_events S' = filter (\<lambda>r. \<forall>q \<in> D'. \<not> old_for E q (dae_board_id r) (dae_event_time r)) (tb_events S)"
    "tb_clients S' = (if x then filter (\<lambda>h. client_limit E \<le> wch_timestamp h) (tb_clients S) else tb_clients S)"
    "never_fails (ce_timepoints E) \<longrightarrow> D = {(i, B). visited E i B}" "never_fails (ce_events E) \<longrightarrow> D' = {(i, B). visited E i B}"
    "never_fails (ce_clients E) \<longrightarrow> x"
proof -
  define n where "n = (LEAST n. \<not> full_page E n)"
  have n: "\<not> full_page E n" "\<forall>j < n. full_page E j"
    unfolding n_def using assms(2) LeastI_ex[of "\<lambda>n. \<not> full_page E n"] not_less_Least[of _ "\<lambda>n. \<not> full_page E n"] by blast+
  define ps where "ps = concat (map (page_visits E) [0..<Suc n])"
  have V: "set ps = {(i, B). visited E i B}" unfolding ps_def by (rule visits_set[OF n])
  define T where "T = fold (clean_from E) ps S"
  have loop: "clean_loop E 0 S = Some T"
    using clean_loop_visits[OF _ n, of 0 S] assms(1) by (simp add: cleanup_ok_def T_def ps_def)
  obtain D where D: "D \<subseteq> set ps" "tb_timepoints T = filter (\<lambda>r. \<forall>q \<in> D. \<not> old_for E q (tpr_boardId r) (tpr_timestamp r)) (tb_timepoints S)"
    "never_fails (ce_timepoints E) \<longrightarrow> D = set ps"
    unfolding T_def using fold_clean[of tb_timepoints "clean_from E", OF clean_from_one(1)[OF assms(1)]] by blast
  obtain D' where D': "D' \<subseteq> set ps" "tb_events T = filter (\<lambda>r. \<forall>q \<in> D'. \<not> old_for E q (dae_board_id r) (dae_event_time r)) (tb_events S)"
    "never_fails (ce_events E) \<longrightarrow> D' = set ps"
    unfolding T_def using fold_clean[of tb_events "clean_from E", OF clean_from_one(2)[OF assms(1)]] by blast
  have cl: "tb_clients T = tb_clients S"
    unfolding T_def by (induction ps arbitrary: S) (simp_all add: clean_from_one(3)[OF assms(1)])
  obtain x where x: "fst (DeleteRecords (ce_clients E) ''wificlienthistory'' (clients_clause (client_limit E)) (tb_clients S))
      = (if x then filter (\<lambda>h. client_limit E \<le> wch_timestamp h) (tb_clients S) else tb_clients S)" "never_fails (ce_clients E) \<longrightarrow> x"
    using clean_clients[of E "tb_clients S"] assms(1) by (auto simp: cleanup_ok_def)
  define S' where "S' = T \<lparr> tb_clients := fst (DeleteRecords (ce_clients E) ''wificlienthistory'' (clients_clause (client_limit E)) (tb_clients S)) \<rparr>"
  have "Storage_onTimer E S = Some S'" by (simp add: Storage_onTimer_def Let_def loop S'_def cl client_limit_def)
  then show thesis
    using D D' x by (intro that[of S' D D' x]) (simp_all add: S'_def V)
qed

lemma visited_all:
  assumes "length bs < 2 ^ 63" "\<forall>Start. ce_boards E Start 100 = (take 100 (drop (unat Start) bs), unat Start < length bs)"
  shows "{B. \<exists>i. visited E i B} = set bs"
proof -
  have page: "board_page E j = (take 100 (drop (100 * j) bs), 100 * j < length bs)" if "100 * j \<le> length bs" for j
  proof -
    have "unat (of_nat (100 * j) :: u64) = 100 * j" using that assms(1) by (simp only: unat_of_nat) (simp add: take_bit_nat_eq_self)
    then show ?thesis using assms(2) by simp
  qed
  have full: "full_page E j" if "100 * Suc j \<le> length bs" for j using that page[of j] by (simp add: full_page_def)
  have "\<exists>i. visited E i B" if "B \<in> set bs" for B
  proof -
    from that obtain k where k: "k < length bs" "bs ! k = B" by (auto simp: in_set_conv_nth)
    let ?i = "k div 100"
    have m: "100 * ?i + k mod 100 = k" "k mod 100 < 100" by simp_all
    have "B \<in> set (take 100 (drop (100 * ?i) bs))"
    proof -
      have "k mod 100 < length bs - 100 * ?i" using k(1) m(1) by linarith
      then have "take 100 (drop (100 * ?i) bs) ! (k mod 100) = B" "k mod 100 < length (take 100 (drop (100 * ?i) bs))"
        using k m by simp_all
      then show ?thesis by (metis nth_mem)
    qed
    moreover have "\<forall>j < ?i. full_page E j" using k(1) m(1) by (auto intro!: full)
    ultimately show ?thesis using page[of ?i] k(1) m(1) by (auto simp: visited_def intro!: exI[of _ ?i])
  qed
  moreover have "B \<in> set bs" if "visited E i B" for i B
    using that assms(2) by (auto simp: visited_def dest!: in_set_takeD in_set_dropD)
  ultimately show ?thesis by blast
qed

text \<open>
  C10: The periodic clean-up ends when some page of boards it reads is not full or cannot be read.  It removes a time point or an
  availability event only if a board of a page it has read lets it expire: the board has a limited retention and the record is older
  than every retention of its venues, at the clock of the page.  From the client history it removes only what is older than the limit
  in days, subtracted in 64 bits.  On a table whose deletions never fail it removes all of these.  When the pages are those of one
  list of boards, so that no read fails and the order of the rows stays, the boards it has read are all of that list.
\<close>

theorem cleanup_removes_expired:
  assumes "cleanup_ok E" "\<exists>n. \<not> full_page E n"
  shows "\<exists>S'. Storage_onTimer E S = Some S'
    \<and> (\<forall>r. r \<in> set (tb_timepoints S) - set (tb_timepoints S') \<longrightarrow>
         (\<exists>i B. visited E i B \<and> expired (tpr_boardId r) (tpr_timestamp r) (ce_now E (of_nat (100 * i))) B))
    \<and> (\<forall>v. v \<in> set (tb_events S) - set (tb_events S') \<longrightarrow>
         (\<exists>i B. visited E i B \<and> expired (dae_board_id v) (dae_event_time v) (ce_now E (of_nat (100 * i))) B))
    \<and> (\<forall>h. h \<in> set (tb_clients S) - set (tb_clients S') \<longrightarrow> wch_timestamp h < ce_end E - ce_max_days E * 86400)
    \<and> (never_fails (ce_timepoints E) \<longrightarrow> tb_timepoints S' = filter (\<lambda>r.
         \<nexists>i B. visited E i B \<and> expired (tpr_boardId r) (tpr_timestamp r) (ce_now E (of_nat (100 * i))) B) (tb_timepoints S))
    \<and> (never_fails (ce_events E) \<longrightarrow> tb_events S' = filter (\<lambda>v.
         \<nexists>i B. visited E i B \<and> expired (dae_board_id v) (dae_event_time v) (ce_now E (of_nat (100 * i))) B) (tb_events S))
    \<and> (never_fails (ce_clients E) \<longrightarrow>
         tb_clients S' = filter (\<lambda>h. ce_end E - ce_max_days E * 86400 \<le> wch_timestamp h) (tb_clients S))
    \<and> (\<forall>bs. length bs < 2 ^ 63
         \<and> (\<forall>Start. ce_boards E Start 100 = (take 100 (drop (unat Start) bs), unat Start < length bs)) \<longrightarrow>
         {B. \<exists>i. visited E i B} = set bs)"
proof -
  obtain S' D D' x where r: "Storage_onTimer E S = Some S'" "D \<subseteq> {(i, B). visited E i B}" "D' \<subseteq> {(i, B). visited E i B}"
    "tb_timepoints S' = filter (\<lambda>r. \<forall>q \<in> D. \<not> old_for E q (tpr_boardId r) (tpr_timestamp r)) (tb_timepoints S)"
    "tb_events S' = filter (\<lambda>r. \<forall>q \<in> D'. \<not> old_for E q (dae_board_id r) (dae_event_time r)) (tb_events S)"
    "tb_clients S' = (if x then filter (\<lambda>h. client_limit E \<le> wch_timestamp h) (tb_clients S) else tb_clients S)"
    "never_fails (ce_timepoints E) \<longrightarrow> D = {(i, B). visited E i B}" "never_fails (ce_events E) \<longrightarrow> D' = {(i, B). visited E i B}"
    "never_fails (ce_clients E) \<longrightarrow> x"
    by (rule cleanup_result[OF assms, of S]) (rule that; assumption)
  have limit: "client_limit E = ce_end E - ce_max_days E * 86400" by (simp add: client_limit_def mult.assoc)
  have lost: "\<exists>i B. visited E i B \<and> expired b t (ce_now E (of_nat (100 * i))) B"
    if "K \<subseteq> {(i, B). visited E i B}" "\<not> (\<forall>q \<in> K. \<not> old_for E q b t)" for K b t
    using that by (fastforce simp: old_for_def page_now_def)
  have all: "(\<forall>q \<in> {(i, B). visited E i B}. \<not> old_for E q b t)
      \<longleftrightarrow> (\<nexists>i B. visited E i B \<and> expired b t (ce_now E (of_nat (100 * i))) B)" for b t
    by (auto simp: old_for_def page_now_def)
  show ?thesis
  proof (intro exI[of _ S'] conjI)
    show "\<forall>r. r \<in> set (tb_timepoints S) - set (tb_timepoints S') \<longrightarrow>
        (\<exists>i B. visited E i B \<and> expired (tpr_boardId r) (tpr_timestamp r) (ce_now E (of_nat (100 * i))) B)"
      using r(4) lost[OF r(2)] by auto
    show "\<forall>v. v \<in> set (tb_events S) - set (tb_events S') \<longrightarrow>
        (\<exists>i B. visited E i B \<and> expired (dae_board_id v) (dae_event_time v) (ce_now E (of_nat (100 * i))) B)"
      using r(5) lost[OF r(3)] by auto
    show "never_fails (ce_timepoints E) \<longrightarrow> tb_timepoints S' = filter (\<lambda>r.
         \<nexists>i B. visited E i B \<and> expired (tpr_boardId r) (tpr_timestamp r) (ce_now E (of_nat (100 * i))) B) (tb_timepoints S)"
      using r(4,7) all by simp
    show "never_fails (ce_events E) \<longrightarrow> tb_events S' = filter (\<lambda>v.
         \<nexists>i B. visited E i B \<and> expired (dae_board_id v) (dae_event_time v) (ce_now E (of_nat (100 * i))) B) (tb_events S)"
      using r(5,8) all by simp
  qed (use r(1,6,9) limit visited_all in \<open>auto split: if_splits\<close>)
qed

text \<open>The witness: a database that reads the statements, one board that keeps its records for an hour, and three
  time points of which one is too old and one belongs to no board.  The client history is to be kept for a day, but the clock
  reads less than a day, so that the limit wraps around and the history is lost.\<close>

definition run_delete :: "(string \<Rightarrow> 'r \<Rightarrow> cell) \<Rightarrow> string \<Rightarrow> 'r commands" where
  "run_delete col T txt rows =
     (case read_statement txt of
        Some (Delete T' conds) \<Rightarrow> Inr (if T' = T then filter (\<lambda>r. \<not> matches col conds r) rows else rows)
      | _ \<Rightarrow> Inr rows)"

lemma run_delete_ok: "deletes (run_delete col T) T col" "never_fails (run_delete col T)"
  by (auto simp: deletes_def never_fails_def run_delete_def split: option.splits statement.splits)

definition hour_board :: BoardInfo where
  "hour_board = BoardInfo_init \<lparr> board_info := ObjectInfo_init \<lparr> info_id := ''b1'' \<rparr>,
     board_venueList := [VenueInfo_init \<lparr> venue_id := ''v1'', venue_retention := 3600 \<rparr>] \<rparr>"

definition point_row :: "string \<Rightarrow> u64 \<Rightarrow> TimePointDBRecordType" where
  "point_row b t = \<lparr> tpr_id = [], tpr_boardId = b, tpr_timestamp = t, tpr_ap_data = [], tpr_ssid_data = [], tpr_radio_data = [],
     tpr_device_info = [], tpr_serialNumber = [], tpr_resource_data = [], tpr_venueId = [] \<rparr>"

definition hour_env :: cleanup_env where
  "hour_env = \<lparr> ce_boards = (\<lambda>Start HowMany. if Start = 0 then ([hour_board], True) else ([], False)),
     ce_timepoints = run_delete tp_column ''timepoints'', ce_events = run_delete ev_column ''device_availability_events'',
     ce_clients = run_delete wc_column ''wificlienthistory'', ce_now = (\<lambda>_. 10000), ce_end = 10000, ce_max_days = 1 \<rparr>"

lemma cleanup_removes_expired_witness:
  "\<exists>S'. Storage_onTimer hour_env \<lparr> tb_timepoints = [point_row ''b1'' 10, point_row ''b1'' 9000, point_row ''b2'' 10],
         tb_events = [], tb_clients = [WifiClientHistory_init 0 \<lparr> wch_timestamp := 9999 \<rparr>] \<rparr> = Some S'
     \<and> tb_timepoints S' = [point_row ''b1'' 9000, point_row ''b2'' 10] \<and> tb_clients S' = []"
proof -
  let ?h = "WifiClientHistory_init 0 \<lparr> wch_timestamp := 9999 \<rparr>"
  let ?S = "\<lparr> tb_timepoints = [point_row ''b1'' 10, point_row ''b1'' 9000, point_row ''b2'' 10], tb_events = [], tb_clients = [?h] \<rparr>"
  have page: "board_page hour_env 0 = ([hour_board], True)" by (simp add: hour_env_def)
  have ok: "cleanup_ok hour_env" by (auto simp: cleanup_ok_def hour_env_def run_delete_ok)
  have last: "\<not> full_page hour_env 0" by (simp add: full_page_def hour_env_def)
  have v: "visited hour_env i B \<longleftrightarrow> i = 0 \<and> B = hour_board" for i B
    using last page by (cases "i = 0") (auto simp: visited_def)
  have x: "expired b t (ce_now hour_env s) hour_board \<longleftrightarrow> b = ''b1'' \<and> unat t < 6400" for b t s
    by (auto simp: expired_def hour_env_def hour_board_def board_id_def BoardInfo_init_def ObjectInfo_init_def VenueInfo_init_def)
  have n: "never_fails (ce_timepoints hour_env)" "never_fails (ce_clients hour_env)" by (simp_all add: hour_env_def run_delete_ok)
  have d: "tpr_boardId (point_row b t) = b" "tpr_timestamp (point_row b t) = t" for b t by (simp_all add: point_row_def)
  have l: "ce_end hour_env - ce_max_days hour_env * 86400 = 10000 - 86400" by (simp add: hour_env_def)
  have w: "\<not> 10000 - 86400 \<le> wch_timestamp ?h" by simp
  from cleanup_removes_expired[OF ok exI[of "\<lambda>n. \<not> full_page hour_env n" 0, OF last], of ?S] n obtain S' where
    "Storage_onTimer hour_env ?S = Some S'"
    "tb_timepoints S' = filter (\<lambda>r. \<nexists>i B. visited hour_env i B \<and>
       expired (tpr_boardId r) (tpr_timestamp r) (ce_now hour_env (of_nat (100 * i))) B) (tb_timepoints ?S)"
    "tb_clients S' = filter (\<lambda>h. ce_end hour_env - ce_max_days hour_env * 86400 \<le> wch_timestamp h) (tb_clients ?S)" by blast
  then show ?thesis unfolding l using w by (intro exI[of _ S']) (simp add: v x d)
qed

section \<open>Counting offline events\<close>

definition offline_in :: "string \<Rightarrow> string \<Rightarrow> u64 \<Rightarrow> u64 \<Rightarrow> DeviceAvailabilityEvent \<Rightarrow> bool" where
  "offline_in b s t t' e \<longleftrightarrow> dae_board_id e = b \<and> dae_serialNumber e = s \<and> dae_event_type e = ''offline''
     \<and> t \<le> dae_event_time e \<and> dae_event_time e < t'"

lemma CountOffline_events:
  assumes "obeys db ''device_availability_events'' ev_column collate events" "length events < 2 ^ 64" "\<not> t' \<le> t"
    and "CountOfflineEventsByBoardAndSerial db b s t t' = Some (n, first_time, last_time)"
  shows "let es = filter (offline_in b s t t') events; ts = map dae_event_time es
    in unat n = length es \<and> first_time = (if es = [] then None else Some (Min (set ts)))
       \<and> last_time = (if es = [] then None else Some (Max (set ts)))"
proof -
  let ?es = "filter (offline_in b s t t') events"
  obtain Raw where j: "Join db count_row (offline_statement b s t t') = Some Raw"
    using assms(3,4) by (auto simp: CountOfflineEventsByBoardAndSerial_def split: option.splits)
  then obtain out where o: "db (offline_statement b s t t') = Inr out" "traverse count_row out = Inr Raw"
    by (auto simp: Join_def bind_Inr_iff split: sum.splits)
  have "matches ev_column [(''board_id'', ''='', Text b), (''serialnumber'', ''='', Text s), (''event_type'', ''='', Text ''offline''),
         (''event_time'', ''>='', Num (unat t)), (''event_time'', ''<'', Num (unat t'))] = offline_in b s t t'"
    by (auto simp: fun_eq_iff matches_def offline_in_def ev_column_def word_le_nat_alt word_less_nat_alt)
  moreover from assms(1) o(1) offline_reads have "answers ev_column collate events
      \<lparr> q_columns = CountRange ''event_time'', q_table = ''device_availability_events'',
       q_where = [(''board_id'', ''='', Text b), (''serialnumber'', ''='', Text s), (''event_type'', ''='', Text ''offline''),
         (''event_time'', ''>='', Num (unat t)), (''event_time'', ''<'', Num (unat t'))],
       q_order = [], q_range = None \<rparr> out"
    unfolding obeys_def by fastforce
  ultimately obtain es where es: "mset es = mset ?es"
    "out = [[Num (length es), Num (if es = [] then 0 else Min (set (map (num_of \<circ> ev_column ''event_time'') es))),
       Num (if es = [] then 0 else Max (set (map (num_of \<circ> ev_column ''event_time'') es)))]]"
    by (auto simp: answers_def select_rows_def Let_def)
  have st: "set es = set ?es" "length es = length ?es" using es(1) by (metis set_mset_mset, metis size_mset)
  have times: "num_of \<circ> ev_column ''event_time'' = unat \<circ> dae_event_time" by (simp add: fun_eq_iff ev_column_def)
  have mn: "of_nat (Min (unat ` X)) = Min X" "of_nat (Max (unat ` X)) = Max X" if "finite X" "X \<noteq> {}" for X :: "u64 set"
  proof -
    have m: "mono (unat :: u64 \<Rightarrow> nat)" by (simp add: mono_def word_le_nat_alt)
    show "of_nat (Min (unat ` X)) = Min X" "of_nat (Max (unat ` X)) = Max X"
      by (simp_all flip: mono_Min_commute[OF m that] mono_Max_commute[OF m that])
  qed
  have l: "length ?es < 2 ^ 64" using assms(2) length_filter_le[of "offline_in b s t t'" events] by linarith
  have raw: "Raw = [(of_nat (length es), if es = [] then 0 else Min (dae_event_time ` set es), if es = [] then 0 else Max (dae_event_time ` set es))]"
    using o(2) mn[of "dae_event_time ` set es"] unfolding es(2) times by (auto simp: image_comp)
  have un: "unat (of_nat (length es) :: u64) = length ?es" using l st(2) by (simp add: unat_of_nat take_bit_nat_eq_self)
  have z: "(of_nat (length es) :: u64) > 0 \<longleftrightarrow> ?es \<noteq> []" using un by (metis length_0_conv unat_eq_zero word_gt_0)
  show ?thesis
    using assms(3,4) j raw un z st by (auto simp: CountOfflineEventsByBoardAndSerial_def Let_def split: if_splits)
qed

end
