(* ===== verification/BoardApi.thy ===== *)
theory BoardApi
  imports Rest Retention
begin

text \<open>
  The requests on boards: \<^verbatim>\<open>src/src/RESTAPI/RESTAPI_board_handler.cpp\<close>, \<^verbatim>\<open>RESTAPI_board_list_handler.cpp\<close>,
  \<^verbatim>\<open>RESTAPI_board_devices_handler.cpp\<close> and \<^verbatim>\<open>RESTAPI_analytics_db_helpers.h\<close>, with the boards table of
  \<^verbatim>\<open>src/src/storage/storage_boards.cpp\<close>.  The requests act on the state of the venue coordinator, whose table of boards
  holds what \<^verbatim>\<open>Convert\<close> reads of every row.
\<close>

section \<open>The boards table\<close>

definition Boards_Fields :: "Field list" where
  "Boards_Fields =
     [Field_sized ''id'' 64 True, Field_typed ''name'' FT_TEXT, Field_typed ''description'' FT_TEXT, Field_typed ''notes'' FT_TEXT,
      Field_typed ''created'' FT_BIGINT, Field_typed ''modified'' FT_BIGINT, Field_typed ''venueId'' FT_TEXT,
      Field_typed ''venueName'' FT_TEXT, Field_typed ''venueDescription'' FT_TEXT, Field_typed ''retention'' FT_BIGINT,
      Field_typed ''interval'' FT_BIGINT, Field_typed ''monitorSubVenues'' FT_BOOLEAN]"

definition boards_table :: "DBType \<Rightarrow> table" where
  "boards_table T = \<lparr> TableName = ''boards'', Type = T, Select_Fields = SelectFields (map tolower) Boards_Fields \<rparr>"

record BoardDBRecordType =
  brd_id :: string
  brd_name :: string
  brd_description :: string
  brd_notes :: string
  brd_created :: u64
  brd_modified :: u64
  brd_venueId :: string
  brd_venueName :: string
  brd_venueDescription :: string
  brd_retention :: u64
  brd_interval :: u64
  brd_monitorSubVenues :: bool

definition board_of_row :: "('o, 'v) poco \<Rightarrow> BoardDBRecordType \<Rightarrow> BoardInfo" where
  "board_of_row J In =
     \<lparr> board_info = \<lparr> info_id = brd_id In, info_name = brd_name In, info_description = brd_description In,
         info_notes = to_object_array J (NoteInfo_from_json J) NoteInfo_init (brd_notes In),
         info_created = brd_created In, info_modified = brd_modified In, info_tags = info_tags ObjectInfo_init \<rparr>,
       board_venueList =
         (if brd_venueId In \<noteq> []
          then [\<lparr> venue_id = brd_venueId In, venue_name = brd_venueName In, venue_description = brd_venueDescription In,
                  venue_retention = brd_retention In, venue_interval = brd_interval In,
                  venue_monitorSubVenues = brd_monitorSubVenues In \<rparr>]
          else []) \<rparr>"

definition row_of_board :: "('o, 'v) poco \<Rightarrow> BoardInfo \<Rightarrow> BoardDBRecordType" where
  "row_of_board J In =
     (let Venue = (case board_venueList In of [] \<Rightarrow> VenueInfo_init | V # _ \<Rightarrow> V)
      in \<lparr> brd_id = info_id (board_info In), brd_name = info_name (board_info In),
           brd_description = info_description (board_info In),
           brd_notes = to_string_array J (NoteInfo_to_json J) (info_notes (board_info In)),
           brd_created = info_created (board_info In), brd_modified = info_modified (board_info In),
           brd_venueId = venue_id Venue, brd_venueName = venue_name Venue, brd_venueDescription = venue_description Venue,
           brd_retention = venue_retention Venue, brd_interval = venue_interval Venue,
           brd_monitorSubVenues = venue_monitorSubVenues Venue \<rparr>)"

definition stored_board :: "('o, 'v) poco \<Rightarrow> BoardInfo \<Rightarrow> BoardInfo" where
  "stored_board J B = board_of_row J (row_of_board J B)"

text \<open>\<^verbatim>\<open>FindBoardsByVenue\<close>: at most 100 rows of the venue, or a failure.\<close>

definition of_venue :: "string \<Rightarrow> BoardInfo \<Rightarrow> bool" where
  "of_venue v B \<longleftrightarrow> (case board_venueList B of [] \<Rightarrow> False | V # _ \<Rightarrow> venue_id V = v)"

definition FindBoardsByVenue :: "('o, 'v) environment \<Rightarrow> string \<Rightarrow> 'j coordinator \<Rightarrow> 'j coordinator \<times> BoardInfo list option" where
  "FindBoardsByVenue E venueId S =
     (if venueId = [] then (S, Some [])
      else (S \<lparr> vc_calls := vc_calls S + 1 \<rparr>,
            if env_db E (vc_calls S) then Some (take 100 (filter (of_venue venueId) (vc_BoardsDB S))) else None))"

text \<open>\<^verbatim>\<open>CreateRecord\<close>, \<^verbatim>\<open>UpdateRecord("id", \<dots>)\<close> and \<^verbatim>\<open>DeleteRecord("id", \<dots>)\<close>; the id is the primary key.\<close>

definition CreateBoard :: "('o, 'v) environment \<Rightarrow> BoardInfo \<Rightarrow> 'j coordinator \<Rightarrow> 'j coordinator \<times> bool" where
  "CreateBoard E B S =
     (let S' = S \<lparr> vc_calls := vc_calls S + 1 \<rparr>
      in if env_db E (vc_calls S) \<and> board_id B \<notin> board_id ` set (vc_BoardsDB S)
         then (S' \<lparr> vc_BoardsDB := vc_BoardsDB S @ [stored_board (env_json E) B] \<rparr>, True)
         else (S', False))"

definition UpdateBoardRecord :: "('o, 'v) environment \<Rightarrow> BoardInfo \<Rightarrow> 'j coordinator \<Rightarrow> 'j coordinator \<times> bool" where
  "UpdateBoardRecord E B S =
     (let S' = S \<lparr> vc_calls := vc_calls S + 1 \<rparr>
      in if env_db E (vc_calls S)
         then (S' \<lparr> vc_BoardsDB := map (\<lambda>R. if board_id R = board_id B then stored_board (env_json E) B else R) (vc_BoardsDB S) \<rparr>,
               True)
         else (S', False))"

text \<open>The three deletions of a board: its row, its time points, its events; their answers are not used.  The row is deleted with
  the id as a parameter of the statement, the others by a clause.\<close>

definition delete_board_rows :: "('o, 'v) environment \<Rightarrow> string \<Rightarrow> 'j coordinator \<Rightarrow> 'j coordinator" where
  "delete_board_rows E bid S =
     (let n = vc_calls S
      in S \<lparr> vc_calls := n + 3,
             vc_BoardsDB := (if env_db E n then filter (\<lambda>R. board_id R \<noteq> bid) (vc_BoardsDB S) else vc_BoardsDB S),
             vc_TimePointsDB := fst (TimePoints_DeleteBoard (env_timepoints E (n + 1)) bid (vc_TimePointsDB S)),
             vc_EventsDB := fst (DeleteEventsForBoard (env_events E (n + 2)) bid (vc_EventsDB S)) \<rparr>)"

section \<open>The information of an object\<close>

text \<open>\<^verbatim>\<open>CreateObjectInfo\<close> and \<^verbatim>\<open>UpdateObjectInfo\<close> of \<^verbatim>\<open>RESTObjects/RESTAPI_ProvObjects.cpp\<close>: the new value and the answer; the
  text of a member may throw.\<close>

definition read_text :: "('o, 'v) poco \<Rightarrow> 'o \<Rightarrow> string \<Rightarrow> string \<Rightarrow> string cpp" where
  "read_text J Ob k old = (if p_has J Ob k then v_string J (p_get J Ob k) else Inr old)"

definition CreateObjectInfo ::
  "('o, 'v) poco \<Rightarrow> u64 \<Rightarrow> string \<Rightarrow> 'o \<Rightarrow> UserInfo \<Rightarrow> ObjectInfo \<Rightarrow> (ObjectInfo \<times> bool) cpp" where
  "CreateObjectInfo J Now uuid Ob U I =
     bind (read_text J Ob ''name'' (info_name I)) (\<lambda>name.
       let I = I \<lparr> info_name := name \<rparr>
       in if name = [] then Inr (I, False)
          else bind (read_text J Ob ''description'' (info_description I)) (\<lambda>description.
            Inr (I \<lparr> info_description := description,
                     info_notes := map (\<lambda>i. \<lparr> note_created = Now, note_createdBy = user_email U, note_note = note_note i \<rparr>)
                       (filter (\<lambda>i. note_note i \<noteq> []) (info_notes I)),
                     info_modified := Now, info_created := Now, info_id := uuid \<rparr>, True)))"

definition UpdateObjectInfo ::
  "('o, 'v) poco \<Rightarrow> u64 \<Rightarrow> (nat \<Rightarrow> u64) \<Rightarrow> 'o \<Rightarrow> UserInfo \<Rightarrow> ObjectInfo \<Rightarrow> (ObjectInfo \<times> bool) cpp" where
  "UpdateObjectInfo J Now clock Ob U I =
     bind (read_text J Ob ''name'' (info_name I)) (\<lambda>name.
       let I = I \<lparr> info_name := name \<rparr>
       in if name = [] then Inr (I, False)
          else bind (read_text J Ob ''description'' (info_description I)) (\<lambda>description.
            Inr (I \<lparr> info_description := description,
                     info_notes := fst (MergeNotes_json J clock Ob U (info_notes I)), info_modified := Now \<rparr>, True)))"

section \<open>The board requests\<close>

text \<open>\<open>bq_clock n i\<close> is the \<open>i\<close>-th reading of the clock, and \<open>bq_uuid n\<close> the identifier made, after \<open>n\<close> calls of the
  services.\<close>

record ('o, 'v) board_env =
  bq_env :: "('o, 'v) environment"
  bq_rest :: rest_env
  bq_clock :: "nat \<Rightarrow> nat \<Rightarrow> u64"
  bq_uuid :: "nat \<Rightarrow> string"

definition MissingUUID :: msg where "MissingUUID = (1000, ''Missing UUID.'')"
definition InvalidJSONDocument :: msg where "InvalidJSONDocument = (1003, ''Invalid JSON document.'')"
definition UnknownId :: msg where "UnknownId = (1009, ''Unknown UUID.'')"
definition RecordNotCreated :: msg where "RecordNotCreated = (1011, ''Record could not be created.'')"
definition RecordNotUpdated :: msg where "RecordNotUpdated = (1012, ''Record could not be updated.'')"
definition VenueMustExist :: msg where "VenueMustExist = (1023, ''Venue does not exist.'')"

definition HasExactlyOneVenue :: "BoardInfo \<Rightarrow> bool" where
  "HasExactlyOneVenue Board \<longleftrightarrow> length (board_venueList Board) = 1 \<and> venue_id (board_venueList Board ! 0) \<noteq> []"

abbreviation bq_json :: "('o, 'v) board_env \<Rightarrow> ('o, 'v) poco" where
  "bq_json M \<equiv> env_json (bq_env M)"

abbreviation bad :: "('o, 'v) board_env \<Rightarrow> 'o handler \<Rightarrow> msg \<Rightarrow> string \<Rightarrow> response cpp" where
  "bad M H E Extra \<equiv> Inr (BadRequest (bq_json M) (bq_rest M) (h_Request H) E Extra)"

abbreviation broken :: "('o, 'v) board_env \<Rightarrow> 'o handler \<Rightarrow> msg \<Rightarrow> response cpp" where
  "broken M H E \<equiv> Inr (InternalError (bq_json M) (bq_rest M) (h_Request H) E)"

definition return_board :: "('o, 'v) board_env \<Rightarrow> 'o handler \<Rightarrow> BoardInfo option cpp \<Rightarrow> response cpp" where
  "return_board M H r =
     Inr (Return_to_json (bq_json M) (bq_rest M) (h_Request H) (BoardInfo_to_json (bq_json M))
            (case r of Inr (Some B) \<Rightarrow> B | _ \<Rightarrow> BoardInfo_init))"

text \<open>\<^verbatim>\<open>GetRecord("id", id, B)\<close> before the rest of a request.\<close>

definition with_board ::
  "('o, 'v) board_env \<Rightarrow> 'o handler \<Rightarrow> (string \<Rightarrow> BoardInfo \<Rightarrow> 'j coordinator \<Rightarrow> response cpp \<times> 'j coordinator) \<Rightarrow>
     'j coordinator \<Rightarrow> response cpp \<times> 'j coordinator" where
  "with_board M H f S =
     (let bid = GetBinding (h_Bindings H) ''id'' []
      in if bid = [] then (bad M H MissingUUID [], S)
         else case GetBoard (bq_env M) bid S of
                (S, Inr (Some B)) \<Rightarrow> f bid B S
              | (S, _) \<Rightarrow> (Inr (Rest_NotFound (bq_json M) (bq_rest M) (h_Request H)), S))"

definition board_DoGet :: "('o, 'v) board_env \<Rightarrow> 'o handler \<Rightarrow> 'j coordinator \<Rightarrow> response cpp \<times> 'j coordinator" where
  "board_DoGet M H = with_board M H (\<lambda>bid B S. (return_board M H (Inr (Some B)), S))"

definition board_DoDelete :: "('o, 'v) board_env \<Rightarrow> 'o handler \<Rightarrow> 'j coordinator \<Rightarrow> response cpp \<times> 'j coordinator" where
  "board_DoDelete M H = with_board M H (\<lambda>bid B S.
     (Inr (Rest_OK (bq_json M) (bq_rest M) (h_Request H)), delete_board_rows (bq_env M) bid (StopBoard bid S)))"

text \<open>The part of \<open>DoPost\<close> that holds \<^verbatim>\<open>BoardCreateMutex\<close>, and what follows it.\<close>

definition insert_board ::
  "('o, 'v) board_env \<Rightarrow> 'o handler \<Rightarrow> BoardInfo \<Rightarrow> 'j coordinator \<Rightarrow> response cpp \<times> 'j coordinator" where
  "insert_board M H NewObject S =
     (case FindBoardsByVenue (bq_env M) (venue_id (board_venueList NewObject ! 0)) S of
        (S, None) \<Rightarrow> (broken M H RecordNotCreated, S)
      | (S, Some ExistingBoards) \<Rightarrow>
          if ExistingBoards \<noteq> [] then (bad M H RecordNotCreated ''Venue is already assigned to another board'', S)
          else (case CreateBoard (bq_env M) NewObject S of
                  (S, False) \<Rightarrow> (broken M H RecordNotCreated, S)
                | (S, True) \<Rightarrow>
                    (case GetBoard (bq_env M) (board_id NewObject) (AddBoard (bq_env M) (board_id NewObject) S) of
                       (S, r) \<Rightarrow> (return_board M H r, S))))"

definition board_DoPost :: "('o, 'v) board_env \<Rightarrow> 'o handler \<Rightarrow> 'j coordinator \<Rightarrow> response cpp \<times> 'j coordinator" where
  "board_DoPost M H S =
     (if GetBinding (h_Bindings H) ''id'' [] = [] then (bad M H MissingUUID [], S)
      else case h_ParsedBody H of
             None \<Rightarrow> (bad M H InvalidJSONDocument [], S)
           | Some RawObject \<Rightarrow>
               (case BoardInfo_from_json (bq_json M) RawObject BoardInfo_init of
                  (NewObject, parsed) \<Rightarrow>
                    if \<not> parsed then (bad M H InvalidJSONDocument [], S)
                    else if \<not> HasExactlyOneVenue NewObject then (bad M H VenueMustExist [], S)
                    else (case CreateObjectInfo (bq_json M) (bq_clock M (vc_calls S) 0) (bq_uuid M (vc_calls S)) RawObject
                                 (uip_userinfo (h_UserInfo H)) (board_info NewObject) of
                            Inl e \<Rightarrow> (Inl e, S)
                          | Inr (info, _) \<Rightarrow> insert_board M H (NewObject \<lparr> board_info := info \<rparr>) S)))"

definition replace_board ::
  "('o, 'v) board_env \<Rightarrow> 'o handler \<Rightarrow> BoardInfo \<Rightarrow> 'j coordinator \<Rightarrow> response cpp \<times> 'j coordinator" where
  "replace_board M H Existing S =
     (case UpdateBoardRecord (bq_env M) Existing S of
        (S, False) \<Rightarrow> (broken M H RecordNotUpdated, S)
      | (S, True) \<Rightarrow>
          (case UpdateBoard (bq_env M) (board_id Existing) S of
             (S, Inl e) \<Rightarrow> (Inl e, S)
           | (S, Inr _) \<Rightarrow>
               (case GetBoard (bq_env M) (board_id Existing) S of (S, r) \<Rightarrow> (return_board M H r, S))))"

definition put_board ::
  "('o, 'v) board_env \<Rightarrow> 'o handler \<Rightarrow> string \<Rightarrow> BoardInfo \<Rightarrow> 'j coordinator \<Rightarrow> response cpp \<times> 'j coordinator" where
  "put_board M H bid Existing S =
     (case h_ParsedBody H of
        None \<Rightarrow> (bad M H InvalidJSONDocument [], S)
      | Some RawObject \<Rightarrow>
          (case BoardInfo_from_json (bq_json M) RawObject BoardInfo_init of
             (NewObject, parsed) \<Rightarrow>
               if \<not> parsed then (bad M H InvalidJSONDocument [], S)
               else (case UpdateObjectInfo (bq_json M) (bq_clock M (vc_calls S) 0) (\<lambda>i. bq_clock M (vc_calls S) (Suc i)) RawObject
                            (uip_userinfo (h_UserInfo H)) (board_info Existing) of
                       Inl e \<Rightarrow> (Inl e, S)
                     | Inr (info, _) \<Rightarrow>
                         (let Existing = Existing \<lparr> board_info := info \<rparr>
                          in if \<not> p_has (bq_json M) RawObject ''venueList'' then replace_board M H Existing S
                             else if \<not> HasExactlyOneVenue NewObject \<or> \<not> HasExactlyOneVenue Existing
                             then (bad M H VenueMustExist [], S)
                             else if venue_id (board_venueList NewObject ! 0) \<noteq> venue_id (board_venueList Existing ! 0)
                             then (bad M H RecordNotUpdated ''Venue reassignment is not supported'', S)
                             else replace_board M H (Existing \<lparr> board_venueList := board_venueList NewObject \<rparr>) S))))"

definition board_DoPut :: "('o, 'v) board_env \<Rightarrow> 'o handler \<Rightarrow> 'j coordinator \<Rightarrow> response cpp \<times> 'j coordinator" where
  "board_DoPut M H = with_board M H (put_board M H)"

text \<open>The class over the state of the service: the authentication client and the coordinator.\<close>

definition on_coordinator ::
  "('o handler \<Rightarrow> 'j coordinator \<Rightarrow> response cpp \<times> 'j coordinator) \<Rightarrow> 'o handler \<Rightarrow> 'a \<times> 'j coordinator \<Rightarrow>
     response cpp \<times> 'a \<times> 'j coordinator" where
  "on_coordinator f H st = (case st of (A, S) \<Rightarrow> case f H S of (r, S) \<Rightarrow> (r, A, S))"

definition board_class :: "('o, 'v) board_env \<Rightarrow> ('o, 'a \<times> 'j coordinator) rest_class" where
  "board_class M =
     \<lparr> rc_Methods = [''GET'', ''POST'', ''PUT'', ''DELETE'', ''OPTIONS''], rc_AlwaysAuthorize = True, rc_RateLimited = False,
       rc_Interval = 1000, rc_MaxCalls = 100, rc_SubOnlyService = False, rc_DoGet = on_coordinator (board_DoGet M),
       rc_DoPost = on_coordinator (board_DoPost M), rc_DoPut = on_coordinator (board_DoPut M),
       rc_DoDelete = on_coordinator (board_DoDelete M) \<rparr>"

section \<open>The devices of a board, and lists of boards\<close>

definition devices_DoGet :: "('o, 'v) board_env \<Rightarrow> 'o handler \<Rightarrow> 'j coordinator \<Rightarrow> response cpp \<times> 'j coordinator" where
  "devices_DoGet M H = with_board M H (\<lambda>bid B S.
     (Inr (Return_to_json (bq_json M) (bq_rest M) (h_Request H) (DeviceInfoList_to_json (bq_json M))
             \<lparr> dil_devices = Coordinator_GetDevices bid S \<rparr>), S))"

text \<open>\<^verbatim>\<open>MakeJSONObjectArray\<close>: an object with one member, the array of the records.\<close>

definition MakeJSONObjectArray ::
  "('o, 'v) poco \<Rightarrow> rest_env \<Rightarrow> request \<Rightarrow> ('a \<Rightarrow> 'o \<Rightarrow> 'o) \<Rightarrow> string \<Rightarrow> 'a list \<Rightarrow> response" where
  "MakeJSONObjectArray J Env Request to ArrayName V =
     ReturnObject J Env Request (set_all J [(ArrayName, objects_to_json J to V)] (p_new J))"

text \<open>\<^verbatim>\<open>ReturnRecordList\<close>: the first unknown id ends the request.\<close>

fun records_of :: "(string \<Rightarrow> 's \<Rightarrow> 's \<times> 'a option) \<Rightarrow> string list \<Rightarrow> 's \<Rightarrow> 's \<times> 'a list option" where
  "records_of GetRecord [] S = (S, Some [])"
| "records_of GetRecord (i # ids) S =
     (case GetRecord i S of
        (S, None) \<Rightarrow> (S, None)
      | (S, Some Rec) \<Rightarrow> (case records_of GetRecord ids S of (S, rs) \<Rightarrow> (S, map_option (Cons Rec) rs)))"

definition ReturnRecordList ::
  "('o, 'v) poco \<Rightarrow> rest_env \<Rightarrow> 'o handler \<Rightarrow> ('a \<Rightarrow> 'o \<Rightarrow> 'o) \<Rightarrow> string \<Rightarrow> (string \<Rightarrow> 's \<Rightarrow> 's \<times> 'a option) \<Rightarrow> 's \<Rightarrow>
     response \<times> 's" where
  "ReturnRecordList J Env H to ArrayName GetRecord S =
     (case records_of GetRecord (qb_Select (h_QB H)) S of
        (S, None) \<Rightarrow> (BadRequest J Env (h_Request H) UnknownId [], S)
      | (S, Some Recs) \<Rightarrow> (MakeJSONObjectArray J Env (h_Request H) to ArrayName Recs, S))"

text \<open>\<open>counted\<close> is \<^verbatim>\<open>Count()\<close> and \<open>page\<close> the records \<^verbatim>\<open>GetRecords\<close> finds, none when it fails.\<close>

definition ListHandler ::
  "('o, 'v) poco \<Rightarrow> rest_env \<Rightarrow> 'o handler \<Rightarrow> ('a \<Rightarrow> 'o \<Rightarrow> 'o) \<Rightarrow> string \<Rightarrow> (string \<Rightarrow> 's \<Rightarrow> 's \<times> 'a option) \<Rightarrow> ('s \<Rightarrow> u64) \<Rightarrow>
     (u64 \<Rightarrow> u64 \<Rightarrow> 's \<Rightarrow> 'a list) \<Rightarrow> 's \<Rightarrow> response \<times> 's" where
  "ListHandler J Env H to BlockName GetRecord counted page S =
     (if qb_Select (h_QB H) \<noteq> [] then ReturnRecordList J Env H to BlockName GetRecord S
      else if qb_CountOnly (h_QB H) then (ReturnCountOnly J Env (h_Request H) (counted S), S)
      else (MakeJSONObjectArray J Env (h_Request H) to BlockName (page (qb_Offset (h_QB H)) (qb_Limit (h_QB H)) S), S))"

text \<open>\<open>db\<close> is the engine over a table of boards; without an end of the iteration there is no answer.\<close>

definition has_venue :: "string \<Rightarrow> BoardInfo \<Rightarrow> bool" where
  "has_venue forVenue B \<longleftrightarrow> list_ex (\<lambda>venue. venue_id venue = forVenue) (board_venueList B)"

definition collect_boards :: "string \<Rightarrow> BoardInfo \<Rightarrow> BoardInfo list \<Rightarrow> BoardInfo list \<times> bool" where
  "collect_boards forVenue B Boards = (if has_venue forVenue B then Boards @ [B] else Boards, True)"

definition list_DoGet ::
  "('o, 'v) board_env \<Rightarrow> (BoardInfo list \<Rightarrow> BoardDBRecordType database) \<Rightarrow> ('j coordinator \<Rightarrow> u64) \<Rightarrow> DBType \<Rightarrow> 'o handler \<Rightarrow> 'j coordinator \<Rightarrow>
     (response \<times> 'j coordinator) option" where
  "list_DoGet M db counted T H S =
     (let J = bq_json M;
          forVenue = GetParameter (rq_parameters (h_Request H)) ''forVenue'' []
      in if forVenue \<noteq> []
         then (case Iterate (db (vc_BoardsDB S)) (board_of_row J) (boards_table T) [] (collect_boards forVenue) [] of
                 None \<Rightarrow> None
               | Some Boards \<Rightarrow> Some (MakeJSONObjectArray J (bq_rest M) (h_Request H) (BoardInfo_to_json J) ''boards'' Boards, S))
         else Some (ListHandler J (bq_rest M) H (BoardInfo_to_json J) ''boards''
                (\<lambda>i S. case GetBoard (bq_env M) i S of (S, Inr r) \<Rightarrow> (S, r) | (S, Inl _) \<Rightarrow> (S, None)) counted
                (\<lambda>Offset Limit S. fst (GetRecords (db (vc_BoardsDB S)) (board_of_row J) (boards_table T) Offset Limit [] [] []))
                S))"

section \<open>One board for each venue\<close>

definition board_venue :: "BoardInfo \<Rightarrow> string" where
  "board_venue B = venue_id (board_venueList B ! 0)"

definition boards_ok :: "BoardInfo list \<Rightarrow> bool" where
  "boards_ok bs \<longleftrightarrow> list_all HasExactlyOneVenue bs \<and> distinct (map board_venue bs) \<and> distinct (map board_id bs)"

lemma stored_board_fields:
  "board_id (stored_board J B) = board_id B"
  "HasExactlyOneVenue B \<Longrightarrow> board_venueList (stored_board J B) = board_venueList B"
proof -
  show "board_id (stored_board J B) = board_id B"
    by (simp add: stored_board_def board_of_row_def row_of_board_def board_id_def Let_def)
  assume "HasExactlyOneVenue B"
  then obtain V where "board_venueList B = [V]" "venue_id V \<noteq> []"
    by (auto simp: HasExactlyOneVenue_def length_Suc_conv)
  then show "board_venueList (stored_board J B) = board_venueList B"
    by (simp add: stored_board_def board_of_row_def row_of_board_def Let_def)
qed

lemma stored_board_venue:
  "HasExactlyOneVenue B \<Longrightarrow> HasExactlyOneVenue (stored_board J B)"
  "HasExactlyOneVenue B \<Longrightarrow> board_venue (stored_board J B) = board_venue B"
  using stored_board_fields(2)[of B J] by (simp_all add: HasExactlyOneVenue_def board_venue_def)

text \<open>The coordinator only removes rows.\<close>

definition table_ok :: "'j coordinator \<Rightarrow> bool" where
  "table_ok S \<longleftrightarrow> boards_ok (vc_BoardsDB S)"

lemma boards_ok_filter: "boards_ok bs \<Longrightarrow> boards_ok (filter P bs)"
  unfolding boards_ok_def by (auto simp: list_all_iff distinct_map_filter)

lemma table_ok_simps [simp]:
  "table_ok (S \<lparr> vc_calls := n \<rparr>) = table_ok S" "table_ok (S \<lparr> vc_Watchers := ws \<rparr>) = table_ok S"
  "table_ok (S \<lparr> vc_BoardsToWatch := N \<rparr>) = table_ok S" "table_ok (S \<lparr> vc_registries := R \<rparr>) = table_ok S"
  "table_ok (S \<lparr> vc_ExistingBoards := N' \<rparr>) = table_ok S" "table_ok (StopBoard bid S) = table_ok S"
  "table_ok (AddBoard E bid S) = table_ok S" "table_ok (modify_board bid ds S) = table_ok S"
  by (auto simp: table_ok_def StopBoard_def AddBoard_def GetBoard_def modify_board_def Let_def split: option.split prod.split)

lemma table_ok_RetireBoard: "table_ok S \<Longrightarrow> table_ok (fst (RetireBoard E B S))"
  using boards_ok_filter[of "vc_BoardsDB (StopBoard (board_id B) S)" "\<lambda>R. board_id R \<noteq> board_id B"]
    table_ok_simps(6)[of "board_id B" S, unfolded table_ok_def]
  by (auto simp: RetireBoard_def Let_def table_ok_def)

lemma table_ok_GetDevicesForBoard: "table_ok S \<Longrightarrow> GetDevicesForBoard E B S = (S', r) \<Longrightarrow> table_ok S'"
  using GetDevicesForBoard_effect(1)[of E B S S' r] by (metis table_ok_simps(1))

lemma table_ok_StartBoard:
  assumes "table_ok S"
  shows "table_ok (fst (StartBoard E B S))"
proof -
  obtain S1 r where g: "GetDevicesForBoard E B S = (S1, r)" by fastforce
  have "table_ok S1" by (rule table_ok_GetDevicesForBoard[OF assms g])
  with g assms table_ok_RetireBoard[of S1 E B] show ?thesis
    by (auto simp: StartBoard_def Let_def table_ok_def split: list.split sum.split prod.split bool.split)
qed

lemma table_ok_UpdateBoard:
  assumes "table_ok S"
  shows "table_ok (fst (UpdateBoard E bid S))"
proof -
  obtain S0 ob where g0: "GetBoard E bid S = (S0, Inr ob)" by (simp add: GetBoard_def)
  then have S0: "table_ok S0" using assms by (auto simp: GetBoard_def)
  show ?thesis
  proof (cases ob)
    case (Some B)
    obtain S1 r where g: "GetDevicesForBoard E B S0 = (S1, r)" by fastforce
    have S1: "table_ok S1" by (rule table_ok_GetDevicesForBoard[OF S0 g])
    show ?thesis
      using g0 Some g table_ok_RetireBoard[OF S1, of E B] S1 by (auto simp: UpdateBoard_def split: sum.split bool.split)
  qed (use g0 S0 in \<open>simp add: UpdateBoard_def\<close>)
qed

lemma table_ok_visit_boards: "table_ok S \<Longrightarrow> table_ok (fst (visit_boards E Bs S))"
proof (induction Bs arbitrary: S)
  case (Cons B Bs)
  have "table_ok (fst (visit_board E B S))"
    using Cons.prems table_ok_StartBoard[OF Cons.prems, of E B] table_ok_RetireBoard[of "S \<lparr> vc_calls := vc_calls S + 1 \<rparr>" E B]
    by (auto simp: visit_board_def Let_def split: list.split prod.split sum.split)
  with Cons.IH show ?case by (auto split: prod.split sum.split)
qed simp

lemma table_ok_update_all: "table_ok S \<Longrightarrow> table_ok (fst (update_all E ks S))"
proof (induction ks arbitrary: S)
  case (Cons k ks)
  from table_ok_UpdateBoard[OF Cons.prems, of E k] Cons.IH show ?case by (auto split: prod.split sum.split)
qed simp

lemma table_ok_periodic: "table_ok S \<Longrightarrow> table_ok (fst (run_once E S))" "table_ok S \<Longrightarrow> table_ok (fst (onReconcileTimer E S))"
  by (simp_all add: run_once_def GetBoardList_def Let_def table_ok_visit_boards onReconcileTimer_def table_ok_update_all split: prod.split)

text \<open>The requests insert a board for a venue that has none, and replace a row by one of the same venue.\<close>

lemma table_ok_CreateBoard:
  assumes "table_ok S" "HasExactlyOneVenue B" "\<forall>R \<in> set (vc_BoardsDB S). \<not> of_venue (board_venue B) R"
  shows "table_ok (fst (CreateBoard E B S))"
proof -
  have "list_all HasExactlyOneVenue (vc_BoardsDB S)" using assms(1) by (simp add: table_ok_def boards_ok_def)
  then have "board_venue B \<notin> board_venue ` set (vc_BoardsDB S)"
    using assms(3) by (fastforce simp: list_all_iff of_venue_def HasExactlyOneVenue_def board_venue_def length_Suc_conv)
  then show ?thesis
    using assms(1,2)
    by (auto simp: table_ok_def CreateBoard_def Let_def boards_ok_def list_all_iff stored_board_fields(1) stored_board_venue image_iff)
qed

lemma table_ok_UpdateBoardRecord:
  assumes "table_ok S" "B \<in> set (vc_BoardsDB S)" "board_id B' = board_id B" "HasExactlyOneVenue B'" "board_venue B' = board_venue B"
  shows "table_ok (fst (UpdateBoardRecord E B' S))"
proof -
  let ?f = "\<lambda>R. if board_id R = board_id B then stored_board (env_json E) B' else R"
  have ok: "boards_ok (vc_BoardsDB S)" using assms(1) by (simp add: table_ok_def)
  have "board_venue (?f R) = board_venue R" "board_id (?f R) = board_id R" if "R \<in> set (vc_BoardsDB S)" for R
    using that ok assms(2-) by (auto simp: boards_ok_def distinct_map inj_on_def stored_board_fields(1) stored_board_venue)
  then have "map board_venue (map ?f (vc_BoardsDB S)) = map board_venue (vc_BoardsDB S)"
    "map board_id (map ?f (vc_BoardsDB S)) = map board_id (vc_BoardsDB S)" by simp_all
  moreover have "list_all HasExactlyOneVenue (map ?f (vc_BoardsDB S))"
    using ok assms(4) by (auto simp: boards_ok_def list_all_iff stored_board_venue)
  ultimately have "boards_ok (map ?f (vc_BoardsDB S))" using ok by (simp only: boards_ok_def)
  then show ?thesis using assms(1,3) by (simp add: table_ok_def UpdateBoardRecord_def Let_def)
qed

lemma table_ok_insert_board:
  assumes "table_ok S" "HasExactlyOneVenue B"
  shows "table_ok (snd (insert_board M H B S))"
proof -
  obtain S1 r where f: "FindBoardsByVenue (bq_env M) (venue_id (board_venueList B ! 0)) S = (S1, r)" by fastforce
  then have S1: "table_ok S1" using assms(1) by (auto simp: FindBoardsByVenue_def split: if_splits)
  show ?thesis
  proof (cases "r = Some []")
    case True
    then have "\<forall>R \<in> set (vc_BoardsDB S1). \<not> of_venue (board_venue B) R"
      using f assms(2) by (auto simp: FindBoardsByVenue_def HasExactlyOneVenue_def board_venue_def filter_empty_conv split: if_splits)
    from table_ok_CreateBoard[OF S1 assms(2) this, of "bq_env M"] show ?thesis
      using f True by (auto simp: insert_board_def GetBoard_def split: prod.split bool.split)
  qed (use f S1 in \<open>auto simp: insert_board_def split: option.split\<close>)
qed

lemma CreateObjectInfo_venue: "HasExactlyOneVenue (B \<lparr> board_info := i \<rparr>) = HasExactlyOneVenue B"
  by (simp add: HasExactlyOneVenue_def)

lemma UpdateObjectInfo_id: "UpdateObjectInfo J Now clock Ob U I = Inr (I', x) \<Longrightarrow> info_id I' = info_id I"
  by (auto simp: UpdateObjectInfo_def bind_Inr_iff Let_def split: if_splits)

lemma table_ok_DoPost: "table_ok S \<Longrightarrow> table_ok (snd (board_DoPost M H S))"
  by (auto simp: board_DoPost_def table_ok_insert_board CreateObjectInfo_venue split: option.split prod.split sum.split)

lemma with_board_cases:
  assumes "with_board M H f S = (r, S')"
  obtains "S' = S \<or> S' = S \<lparr> vc_calls := vc_calls S + 1 \<rparr>"
  | bid B where "find (\<lambda>B. board_id B = bid) (vc_BoardsDB S) = Some B" "f bid B (S \<lparr> vc_calls := vc_calls S + 1 \<rparr>) = (r, S')"
    "env_db (bq_env M) (vc_calls S)" "bid = GetBinding (h_Bindings H) ''id'' []" "bid \<noteq> []"
proof -
  define bid where "bid = GetBinding (h_Bindings H) ''id'' []"
  define ob where "ob = (if env_db (bq_env M) (vc_calls S) then find (\<lambda>B. board_id B = bid) (vc_BoardsDB S) else None)"
  have g: "GetBoard (bq_env M) bid S = (S \<lparr> vc_calls := vc_calls S + 1 \<rparr>, Inr ob)" by (simp add: GetBoard_def ob_def)
  consider "bid = []" | "bid \<noteq> []" "ob = None" | B where "bid \<noteq> []" "ob = Some B" by fastforce
  then show thesis
  proof cases
    case 3
    then have "f bid B (S \<lparr> vc_calls := vc_calls S + 1 \<rparr>) = (r, S')"
      using assms g by (simp add: with_board_def bid_def[symmetric])
    then show thesis using 3 that(2)[of bid B] by (simp add: ob_def bid_def split: if_splits)
  qed (use assms g in \<open>auto simp: with_board_def bid_def[symmetric] intro: that(1)\<close>)
qed

lemma found_board: "find (\<lambda>B. board_id B = bid) bs = Some B \<Longrightarrow> B \<in> set bs \<and> board_id B = bid"
  by (induction bs) (auto split: if_splits)

lemma table_ok_replace_board:
  assumes "table_ok S" "B \<in> set (vc_BoardsDB S)" "board_id B' = board_id B" "HasExactlyOneVenue B'" "board_venue B' = board_venue B"
  shows "table_ok (snd (replace_board M H B' S))"
proof -
  obtain S' x where u: "UpdateBoardRecord (bq_env M) B' S = (S', x)" by fastforce
  then have "table_ok S'" using table_ok_UpdateBoardRecord[OF assms, of "bq_env M"] by simp
  from table_ok_UpdateBoard[OF this, of "bq_env M" "board_id B'"] this u show ?thesis
    by (auto simp: replace_board_def GetBoard_def split: bool.split prod.split sum.split)
qed

lemma board_info_update:
  "HasExactlyOneVenue (B \<lparr> board_info := info \<rparr>) = HasExactlyOneVenue B"
  "board_venue (B \<lparr> board_info := info \<rparr>) = board_venue B"
  "HasExactlyOneVenue (B \<lparr> board_info := info, board_venueList := board_venueList N \<rparr>) = HasExactlyOneVenue N"
  "board_venue (B \<lparr> board_info := info, board_venueList := board_venueList N \<rparr>) = board_venue N"
  "board_id (B \<lparr> board_info := info \<rparr>) = info_id info"
  "board_id (B \<lparr> board_info := info, board_venueList := board_venueList N \<rparr>) = info_id info"
  by (simp_all add: HasExactlyOneVenue_def board_venue_def board_id_def)

text \<open>The four ways \<open>put_board\<close> ends.\<close>

lemma put_board_cases:
  assumes "put_board M H bid B S = (r, S')"
  obtains "S' = S"
  | info where "info_id info = board_id B" "replace_board M H (B \<lparr> board_info := info \<rparr>) S = (r, S')"
  | info N where "info_id info = board_id B" "HasExactlyOneVenue N" "HasExactlyOneVenue B" "board_venue N = board_venue B"
    "replace_board M H (B \<lparr> board_info := info, board_venueList := board_venueList N \<rparr>) S = (r, S')"
proof (cases "h_ParsedBody H")
  case None
  with assms that(1) show thesis by (simp add: put_board_def)
next
  case (Some Ob)
  obtain N parsed where n: "BoardInfo_from_json (bq_json M) Ob BoardInfo_init = (N, parsed)" by fastforce
  note e = assms[unfolded put_board_def Some option.case n prod.case]
  show thesis
  proof (cases "UpdateObjectInfo (bq_json M) (bq_clock M (vc_calls S) 0) (\<lambda>i. bq_clock M (vc_calls S) (Suc i)) Ob
        (uip_userinfo (h_UserInfo H)) (board_info B)")
    case (Inl x)
    with e that(1) show thesis by (cases parsed) simp_all
  next
    case (Inr ix)
    obtain info x where ix: "ix = (info, x)" by (cases ix)
    from UpdateObjectInfo_id[OF Inr[unfolded ix]] have info: "info_id info = board_id B" by (simp add: board_id_def)
    note e = e[unfolded Inr ix sum.case prod.case Let_def]
    consider "\<not> parsed" | "parsed" "\<not> p_has (bq_json M) Ob ''venueList''"
      | "parsed" "p_has (bq_json M) Ob ''venueList''" "HasExactlyOneVenue N" "HasExactlyOneVenue B" "board_venue N = board_venue B"
      | "parsed" "p_has (bq_json M) Ob ''venueList''" "\<not> HasExactlyOneVenue N \<or> \<not> HasExactlyOneVenue B \<or> board_venue N \<noteq> board_venue B"
      by blast
    then show thesis
    proof cases
      case 1
      with e that(1) show thesis by simp
    next
      case 2
      with e that(2)[OF info] show thesis by simp
    next
      case 3
      with e that(3)[OF info 3(3-5)] show thesis by (simp add: board_info_update(1) board_venue_def)
    next
      case 4
      with e that(1) show thesis by (auto simp: board_info_update(1) board_venue_def split: if_splits)
    qed
  qed
qed

lemma table_ok_put_board:
  assumes "table_ok S" "B \<in> set (vc_BoardsDB S)"
  shows "table_ok (snd (put_board M H bid B S))"
proof -
  have B: "HasExactlyOneVenue B" using assms by (simp add: table_ok_def boards_ok_def list_all_iff)
  obtain r S' where p: "put_board M H bid B S = (r, S')" by fastforce
  note rep = table_ok_replace_board[OF assms]
  have "table_ok S'"
  proof (cases rule: put_board_cases[OF p])
    case (2 info)
    have "table_ok (snd (replace_board M H (B \<lparr> board_info := info \<rparr>) S))"
      by (rule rep) (simp_all add: board_info_update 2(1) B)
    then show ?thesis by (simp add: 2(2))
  next
    case (3 info N)
    have "table_ok (snd (replace_board M H (B \<lparr> board_info := info, board_venueList := board_venueList N \<rparr>) S))"
      by (rule rep) (simp_all only: board_info_update 3)
    then show ?thesis by (simp only: 3(5) snd_conv)
  qed (simp add: assms)
  then show ?thesis by (simp only: p snd_conv)
qed

lemma table_ok_DoPut:
  assumes "table_ok S"
  shows "table_ok (snd (board_DoPut M H S))"
proof -
  obtain r S' where p: "board_DoPut M H S = (r, S')" by fastforce
  show ?thesis
  proof (cases rule: with_board_cases[OF p[unfolded board_DoPut_def]])
    case (2 bid B)
    have "table_ok (snd (put_board M H bid B (S \<lparr> vc_calls := vc_calls S + 1 \<rparr>)))"
      using assms found_board[OF 2(1)] by (intro table_ok_put_board) simp_all
    then show ?thesis using 2(2) p by simp
  qed (use assms p in auto)
qed

lemma table_ok_DoDelete:
  fixes S :: "'j coordinator"
  assumes S: "table_ok S"
  shows "table_ok (snd (board_DoDelete M H S))"
proof -
  have del: "table_ok (delete_board_rows E bid C)" if "table_ok C" for E bid and C :: "'j coordinator"
    using that boards_ok_filter by (auto simp: delete_board_rows_def Let_def table_ok_def)
  obtain r S' where p: "board_DoDelete M H S = (r, S')" by fastforce
  show ?thesis
    by (cases rule: with_board_cases[OF p[unfolded board_DoDelete_def]]) (use S p in \<open>auto intro: del\<close>)
qed

lemma table_ok_DoGet: "table_ok S \<Longrightarrow> table_ok (snd (board_DoGet M H S))"
proof -
  assume S: "table_ok S"
  obtain r S' where p: "board_DoGet M H S = (r, S')" by fastforce
  show ?thesis
    by (cases rule: with_board_cases[OF p[unfolded board_DoGet_def]]) (use S p in auto)
qed

text \<open>Whatever the code of a class keeps of its state, a request keeps.\<close>

lemma handleRequest_keeps:
  assumes "\<And>f H A w. f \<in> {rc_DoGet T, rc_DoPost T, rc_DoPut T, rc_DoDelete T} \<Longrightarrow> P w \<Longrightarrow> P (snd (snd (f H (A, w))))"
    and "P w" "handleRequest J Env X L Do Now ms T H (S, rates, w) = (out, S', rates', w')"
  shows "P w'"
proof -
  have "P (snd (snd (dispatch_method J Env T H' (A, w))))" for H' A
    using assms(1)[of "rc_DoGet T" w H' A] assms(1)[of "rc_DoPost T" w H' A] assms(1)[of "rc_DoPut T" w H' A]
      assms(1)[of "rc_DoDelete T" w H' A] assms(2)
    by (auto simp: dispatch_method_def Let_def split: prod.split)
  then have "parse_and_dispatch J Env T H' (A, w) = (x, A', w'') \<Longrightarrow> P w''" for H' A x A' w''
    using assms(2) unfolding parse_and_dispatch_def by (auto split: sum.splits) (metis snd_conv)
  note p = this
  show ?thesis
    using assms(2,3) unfolding handleRequest_def Let_def prod.case
    by (auto split: sum.splits prod.splits if_splits dest: p)
qed

lemma board_request_keeps:
  fixes w :: "'j coordinator" and M :: "('o, 'v) board_env" and S :: "('c, 'd) auth_client"
  assumes "table_ok w" "handleRequest J Env X L Do Now ms (board_class M) H (S, rates, w) = (out, S', rates', w')"
  shows "table_ok w'"
proof (rule handleRequest_keeps[where P = table_ok, OF _ assms])
  fix f :: "'o handler \<Rightarrow> ('c, 'd) auth_client \<times> 'j coordinator \<Rightarrow> response cpp \<times> ('c, 'd) auth_client \<times> 'j coordinator"
    and H A and w :: "'j coordinator"
  assume "f \<in> {rc_DoGet (board_class M), rc_DoPost (board_class M), rc_DoPut (board_class M), rc_DoDelete (board_class M)}" "table_ok w"
  then show "table_ok (snd (snd (f H (A, w))))"
    using table_ok_DoGet[of w M H] table_ok_DoPost[of w M H] table_ok_DoPut[of w M H] table_ok_DoDelete[of w M H]
    by (auto simp: board_class_def on_coordinator_def split: prod.split)
qed

text \<open>
  The service from an empty table: a request on boards, a round of the coordinator or of its reconciliation, a message given to
  a watcher or handled by it.
\<close>

inductive board_service ::
  "('o, 'v) board_env \<Rightarrow> ('c, 'd) auth_caches \<Rightarrow> ('l, u64, ClientCacheEntry) expire_cache \<Rightarrow> 'j nlohmann \<Rightarrow>
     ('c, 'd) auth_client \<Rightarrow> 'l \<Rightarrow> 'j coordinator \<Rightarrow> bool"
  for M :: "('o, 'v) board_env" and X :: "('c, 'd) auth_caches" and L :: "('l, u64, ClientCacheEntry) expire_cache"
    and N :: "'j nlohmann" where
  begins: "board_service M X L N A rates (coordinator_init [])"
| request: "board_service M X L N A rates w \<Longrightarrow>
     handleRequest (bq_json M) (bq_rest M) X L Do Now ms (board_class M) H (A, rates, w) = (out, A', rates', w') \<Longrightarrow>
     board_service M X L N A' rates' w'"
| round: "board_service M X L N A rates w \<Longrightarrow> board_service M X L N A rates (fst (run_once (bq_env M) w))"
| timer: "board_service M X L N A rates w \<Longrightarrow> board_service M X L N A rates (fst (onReconcileTimer (bq_env M) w))"
| given: "board_service M X L N A rates w \<Longrightarrow> map_of (vc_Watchers w) k = Some (self, W) \<Longrightarrow>
     board_service M X L N A rates (w \<lparr> vc_Watchers := omap_set k (self, enqueue T sn j W) (vc_Watchers w) \<rparr>)"
| handled: "board_service M X L N A rates w \<Longrightarrow> map_of (vc_Watchers w) k = Some (self, W) \<Longrightarrow>
     dispatch N e msg (W, Wd) = ((W', Wd'), x) \<Longrightarrow>
     board_service M X L N A rates (w \<lparr> vc_Watchers := omap_set k (self, W') (vc_Watchers w) \<rparr>)"

lemma table_ok_service: "board_service M X L N A rates w \<Longrightarrow> table_ok w"
proof (induction rule: board_service.induct)
  case (begins A rates)
  show ?case by (simp add: table_ok_def boards_ok_def coordinator_init_def)
next
  case (request A rates w Do Now ms H out A' rates' w')
  from board_request_keeps[OF request.IH request.hyps(2)] show ?case .
qed (simp_all add: table_ok_periodic)

text \<open>
  C8: Whatever requests arrive, in whatever order with the periodic rounds and the messages, and whichever database calls fail,
  every stored board has exactly one venue with a name, no two boards have the same venue, and no two have the same id.
\<close>

theorem one_board_per_venue:
  assumes "board_service M X L N A rates w"
  shows "list_all HasExactlyOneVenue (vc_BoardsDB w) \<and> distinct (map board_venue (vc_BoardsDB w))
    \<and> distinct (map board_id (vc_BoardsDB w))"
  using table_ok_service[OF assms] by (simp add: table_ok_def boards_ok_def)

section \<open>What a request stores and removes\<close>

text \<open>The rows the venue of a new board is looked up in.\<close>

lemma FindBoardsByVenue_none:
  assumes "table_ok S" "v \<noteq> []"
  shows "FindBoardsByVenue E v S = (S \<lparr> vc_calls := vc_calls S + 1 \<rparr>, Some []) \<longleftrightarrow>
    env_db E (vc_calls S) \<and> v \<notin> board_venue ` set (vc_BoardsDB S)"
proof -
  have one: "list_all HasExactlyOneVenue (vc_BoardsDB S)" using assms(1) by (simp add: table_ok_def boards_ok_def)
  have "of_venue v R \<longleftrightarrow> board_venue R = v" if "R \<in> set (vc_BoardsDB S)" for R
    using one that by (auto simp: list_all_iff of_venue_def HasExactlyOneVenue_def board_venue_def length_Suc_conv)
  then have "filter (of_venue v) (vc_BoardsDB S) = [] \<longleftrightarrow> v \<notin> board_venue ` set (vc_BoardsDB S)"
    by (auto simp: filter_empty_conv)
  then show ?thesis using assms(2) by (simp add: FindBoardsByVenue_def)
qed

lemma insert_board_stores:
  assumes "table_ok S" "HasExactlyOneVenue B" "insert_board M H B S = (r, S')"
  shows "vc_BoardsDB S' = (if env_db (bq_env M) (vc_calls S) \<and> board_venue B \<notin> board_venue ` set (vc_BoardsDB S)
      \<and> env_db (bq_env M) (vc_calls S + 1) \<and> board_id B \<notin> board_id ` set (vc_BoardsDB S)
    then vc_BoardsDB S @ [stored_board (bq_json M) B] else vc_BoardsDB S)"
proof -
  have v: "board_venue B \<noteq> []" "venue_id (board_venueList B ! 0) = board_venue B"
    using assms(2) by (simp_all add: HasExactlyOneVenue_def board_venue_def)
  let ?S = "S \<lparr> vc_calls := vc_calls S + 1 \<rparr>"
  obtain ob where f: "FindBoardsByVenue (bq_env M) (board_venue B) S = (?S, ob)" using v by (simp add: FindBoardsByVenue_def)
  show ?thesis
  proof (cases "ob = Some []")
    case True
    obtain S1 x where c: "CreateBoard (bq_env M) B ?S = (S1, x)" by fastforce
    have "vc_BoardsDB S' = vc_BoardsDB S1"
      using assms(3) c f True
      by (auto simp: insert_board_def v GetBoard_def AddBoard_def split: bool.splits option.splits)
    moreover have "env_db (bq_env M) (vc_calls S) \<and> board_venue B \<notin> board_venue ` set (vc_BoardsDB S)"
      using FindBoardsByVenue_none[OF assms(1) v(1), of "bq_env M"] f True by simp
    ultimately show ?thesis using c by (auto simp: CreateBoard_def Let_def split: if_splits)
  next
    case False
    then have "vc_BoardsDB S' = vc_BoardsDB S"
      using assms(3) f by (auto simp: insert_board_def v split: option.splits)
    moreover have "\<not> (env_db (bq_env M) (vc_calls S) \<and> board_venue B \<notin> board_venue ` set (vc_BoardsDB S))"
      using FindBoardsByVenue_none[OF assms(1) v(1), of "bq_env M"] f False by simp
    ultimately show ?thesis by auto
  qed
qed

text \<open>The board a request describes, with the id the service gives it.\<close>

definition described ::
  "('o, 'v) board_env \<Rightarrow> 'o handler \<Rightarrow> nat \<Rightarrow> BoardInfo \<Rightarrow> bool" where
  "described M H n B \<longleftrightarrow> GetBinding (h_Bindings H) ''id'' [] \<noteq> []
     \<and> (\<exists>Ob New info x. h_ParsedBody H = Some Ob \<and> BoardInfo_from_json (bq_json M) Ob BoardInfo_init = (New, True)
          \<and> CreateObjectInfo (bq_json M) (bq_clock M n 0) (bq_uuid M n) Ob (uip_userinfo (h_UserInfo H)) (board_info New) = Inr (info, x)
          \<and> B = New \<lparr> board_info := info \<rparr> \<and> HasExactlyOneVenue B)"

definition accepted :: "('o, 'v) board_env \<Rightarrow> 'o handler \<Rightarrow> 'j coordinator \<Rightarrow> BoardInfo \<Rightarrow> bool" where
  "accepted M H S B \<longleftrightarrow> described M H (vc_calls S) B
     \<and> env_db (bq_env M) (vc_calls S) \<and> env_db (bq_env M) (vc_calls S + 1)
     \<and> board_venue B \<notin> board_venue ` set (vc_BoardsDB S) \<and> board_id B \<notin> board_id ` set (vc_BoardsDB S)"

lemma DoPost_described:
  assumes "board_DoPost M H S = (r, S')"
  shows "(\<exists>B. described M H (vc_calls S) B \<and> insert_board M H B S = (r, S'))
    \<or> (S' = S \<and> (\<forall>B. \<not> described M H (vc_calls S) B))"
  using assms
  by (auto simp: board_DoPost_def described_def CreateObjectInfo_venue split: if_splits option.splits prod.splits sum.splits)

lemma described_unique: "described M H n B \<Longrightarrow> described M H n B' \<Longrightarrow> B' = B"
  by (auto simp: described_def)

text \<open>
  C21: A request to create a board adds at most one row, at the end: that of the board it describes, exactly when the body reads
  as a board with one venue, no board has that venue or that id, and the database answers both the search and the insertion.
  In every other case the table is as it was.
\<close>

theorem board_created_iff:
  assumes "board_service M X L N A rates S" "board_DoPost M H S = (r, S')"
  shows "if \<exists>B. accepted M H S B
    then \<exists>B. accepted M H S B \<and> vc_BoardsDB S' = vc_BoardsDB S @ [stored_board (bq_json M) B]
    else vc_BoardsDB S' = vc_BoardsDB S"
  using DoPost_described[OF assms(2)]
proof (elim disjE exE conjE)
  fix B
  assume d: "described M H (vc_calls S) B" and i: "insert_board M H B S = (r, S')"
  have u: "described M H (vc_calls S) B' \<longleftrightarrow> B' = B" for B'
    using described_unique[OF d] d by blast
  have "HasExactlyOneVenue B" using d by (auto simp: described_def)
  from insert_board_stores[OF table_ok_service[OF assms(1)] this i] show ?thesis by (auto simp: u accepted_def)
qed (simp add: accepted_def)

lemma DeleteBoard_points:
  assumes "deletes run ''timepoints'' (dtp_column J)" "never_fails run"
  shows "quote \<notin> set b \<Longrightarrow> fst (TimePoints_DeleteBoard run b ps) = filter (\<lambda>p. dtp_boardId p \<noteq> b) ps"
    and "quote \<notin> set b \<Longrightarrow> quote \<notin> set d \<Longrightarrow> fst (TimePoints_DeleteBoard run (b @ quote # '' and serialNumber='' @ quote # d) ps)
      = filter (\<lambda>p. \<not> (dtp_boardId p = b \<and> dtp_serialNumber p = d)) ps"
proof -
  have m: "matches (dtp_column J) [(''boardid'', ''='', Text b)] = (\<lambda>p. dtp_boardId p = b)"
    "matches (dtp_column J) [(''boardid'', ''='', Text b), (''serialnumber'', ''='', Text d)] = (\<lambda>p. dtp_boardId p = b \<and> dtp_serialNumber p = d)"
    by (auto simp: fun_eq_iff matches_def dtp_column_def tp_column_def row_of_timepoint_def)
  note e = DeleteRecords_effect[OF assms(1)] and n = assms(2)[unfolded never_fails_def]
  show "fst (TimePoints_DeleteBoard run b ps) = filter (\<lambda>p. dtp_boardId p \<noteq> b) ps" if "quote \<notin> set b"
    using e(1)[OF board_points_read[OF that] surjective_pairing, of ps] e(2)[OF board_points_read[OF that] n, of ps]
    by (simp add: TimePoints_DeleteBoard_def m)
  show "fst (TimePoints_DeleteBoard run (b @ quote # '' and serialNumber='' @ quote # d) ps)
      = filter (\<lambda>p. \<not> (dtp_boardId p = b \<and> dtp_serialNumber p = d)) ps" if q: "quote \<notin> set b" "quote \<notin> set d"
    using e(1)[OF injected_points_read[OF q] surjective_pairing, of ps] e(2)[OF injected_points_read[OF q] n, of ps]
    by (simp add: TimePoints_DeleteBoard_def m)
qed

lemma DeleteBoard_events:
  assumes "deletes run ''device_availability_events'' ev_column" "never_fails run"
  shows "fst (DeleteEventsForBoard run b es) = filter (\<lambda>e. dae_board_id e \<noteq> b) es"
proof -
  have m: "matches ev_column [(''board_id'', ''='', Text b)] = (\<lambda>e. dae_board_id e = b)"
    by (auto simp: fun_eq_iff matches_def ev_column_def)
  show ?thesis
    using DeleteRecords_effect(1)[OF assms(1) board_events_read surjective_pairing, of b es]
      DeleteRecords_effect(2)[OF assms(1) board_events_read assms(2)[unfolded never_fails_def], of b es]
    by (simp add: DeleteEventsForBoard_def m)
qed

text \<open>
  C22: When the database answers, and runs the statements as they read, a request to delete a stored board answers OK and removes its
  row, its events and its watcher, and no row or event of another board.  Its time points are removed, and no other, if its id has no
  quote: the id goes into that statement as it is.  An id \<open>b' and serialNumber='d\<close>, which a board created without a name can be given,
  deletes the time points of device \<open>d\<close> of board \<open>b\<close> instead.
\<close>

theorem board_deleted:
  assumes "board_service M X L N A rates S" "B \<in> set (vc_BoardsDB S)" "GetBinding (h_Bindings H) ''id'' [] = board_id B"
    and "board_id B \<noteq> []" "env_db (bq_env M) (vc_calls S)" "env_db (bq_env M) (vc_calls S + 1)"
    and "deletes (env_timepoints (bq_env M) (vc_calls S + 2)) ''timepoints'' (dtp_column (bq_json M))"
    and "never_fails (env_timepoints (bq_env M) (vc_calls S + 2))"
    and "deletes (env_events (bq_env M) (vc_calls S + 3)) ''device_availability_events'' ev_column"
    and "never_fails (env_events (bq_env M) (vc_calls S + 3))" "board_DoDelete M H S = (r, S')"
  shows "r = Inr (Rest_OK (bq_json M) (bq_rest M) (h_Request H))
    \<and> vc_BoardsDB S' = filter (\<lambda>R. board_id R \<noteq> board_id B) (vc_BoardsDB S)
    \<and> vc_EventsDB S' = filter (\<lambda>e. dae_board_id e \<noteq> board_id B) (vc_EventsDB S)
    \<and> map_of (vc_Watchers S') = (map_of (vc_Watchers S)) (board_id B := None)
    \<and> (quote \<notin> set (board_id B) \<longrightarrow>
         vc_TimePointsDB S' = filter (\<lambda>p. dtp_boardId p \<noteq> board_id B) (vc_TimePointsDB S))
    \<and> (\<forall>b d. board_id B = b @ quote # '' and serialNumber='' @ quote # d \<and> quote \<notin> set b \<and> quote \<notin> set d \<longrightarrow>
         vc_TimePointsDB S' = filter (\<lambda>p. \<not> (dtp_boardId p = b \<and> dtp_serialNumber p = d)) (vc_TimePointsDB S))"
proof -
  let ?n = "vc_calls S"
  obtain B' where f: "find (\<lambda>R. board_id R = board_id B) (vc_BoardsDB S) = Some B'"
    using assms(2) by (cases "find (\<lambda>R. board_id R = board_id B) (vc_BoardsDB S)") (auto simp: find_None_iff)
  define T where "T = StopBoard (board_id B) (S \<lparr> vc_calls := ?n + 1 \<rparr>)"
  have same: "vc_calls T = ?n + 1" "vc_BoardsDB T = vc_BoardsDB S" "vc_TimePointsDB T = vc_TimePointsDB S" "vc_EventsDB T = vc_EventsDB S"
    by (simp_all add: T_def StopBoard_def split: option.split)
  have w: "map_of (vc_Watchers T) = (map_of (vc_Watchers S)) (board_id B := None)"
    by (auto simp: T_def StopBoard_def fun_eq_iff split: option.split)
  have r: "r = Inr (Rest_OK (bq_json M) (bq_rest M) (h_Request H))" "S' = delete_board_rows (bq_env M) (board_id B) T"
    using assms(3,4,5,11) f by (auto simp: board_DoDelete_def with_board_def GetBoard_def Let_def T_def)
  note points = DeleteBoard_points[OF assms(7,8)]
  have tp: "vc_TimePointsDB S' = fst (TimePoints_DeleteBoard (env_timepoints (bq_env M) (?n + 2)) (board_id B) (vc_TimePointsDB S))"
    by (simp add: r(2) delete_board_rows_def Let_def same)
  have injected: "vc_TimePointsDB S' = filter (\<lambda>p. \<not> (dtp_boardId p = b \<and> dtp_serialNumber p = d)) (vc_TimePointsDB S)"
    if "board_id B = b @ quote # '' and serialNumber='' @ quote # d" "quote \<notin> set b" "quote \<notin> set d" for b d
    unfolding tp that(1) by (rule points(2)[OF that(2,3)])
  show ?thesis
    using r(1) w assms(6) DeleteBoard_events[OF assms(9,10)] points(1)[of "board_id B" "vc_TimePointsDB S"] tp injected
    by (simp add: r(2) delete_board_rows_def Let_def same numeral_3_eq_3)
qed

section \<open>The answers\<close>

definition answer_status :: "nat \<Rightarrow> bool" where
  "answer_status n \<longleftrightarrow> n \<in> {HTTP_OK, HTTP_BAD_REQUEST, HTTP_FORBIDDEN, HTTP_NOT_FOUND, HTTP_INTERNAL_SERVER_ERROR}"

lemma rest_statuses [simp]:
  "rs_status (BadRequest J Env R E x) = HTTP_BAD_REQUEST" "rs_status (InternalError J Env R E) = HTTP_INTERNAL_SERVER_ERROR"
  "rs_status (UnAuthorized J Env R E) = HTTP_FORBIDDEN" "rs_status (Rest_NotFound J Env R) = HTTP_NOT_FOUND"
  "rs_status (Rest_OK J Env R) = HTTP_OK" "rs_status (ProcessOptions Env R ms) = HTTP_OK"
  "rs_status (Return_to_json J Env R to y) = HTTP_OK"
  by (auto simp: BadRequest_def InternalError_def UnAuthorized_def Rest_NotFound_def Rest_OK_def ProcessOptions_def Return_to_json_def
      ReturnObject_def ReturnRawJSON_def send_object_def PrepareResponse_def Let_def split: option.split)

fun status_ok :: "response cpp \<Rightarrow> bool" where
  "status_ok (Inr R) = answer_status (rs_status R)"
| "status_ok (Inl e) = True"

lemma status_simps [simp]:
  "answer_status HTTP_OK" "answer_status HTTP_BAD_REQUEST" "answer_status HTTP_FORBIDDEN" "answer_status HTTP_NOT_FOUND"
  "answer_status HTTP_INTERNAL_SERVER_ERROR"
  by (simp_all add: answer_status_def)

lemma status_with_board:
  assumes "\<And>bid B S. status_ok (fst (f bid B S))"
  shows "status_ok (fst (with_board M H f S))"
proof -
  obtain S0 ob where "GetBoard (bq_env M) (GetBinding (h_Bindings H) ''id'' []) S = (S0, Inr ob)" by (simp add: GetBoard_def)
  then show ?thesis using assms by (cases ob) (simp_all add: with_board_def Let_def)
qed

lemma status_return_board [simp]: "status_ok (return_board M H r)"
  by (simp add: return_board_def)

lemma status_insert_board: "status_ok (fst (insert_board M H B S))"
  by (auto simp: insert_board_def split: prod.split option.split bool.split)

lemma status_replace_board: "status_ok (fst (replace_board M H B S))"
  by (auto simp: replace_board_def split: prod.split sum.split bool.split)

lemma status_put_board: "status_ok (fst (put_board M H bid B S))"
  using status_replace_board[of M H] by (auto simp: put_board_def Let_def split: prod.split sum.split option.split)

lemma status_methods:
  "status_ok (fst (board_DoGet M H S))" "status_ok (fst (board_DoPost M H S))" "status_ok (fst (board_DoPut M H S))"
  "status_ok (fst (board_DoDelete M H S))"
proof -
  show "status_ok (fst (board_DoGet M H S))" unfolding board_DoGet_def by (rule status_with_board) simp
  show "status_ok (fst (board_DoPut M H S))" unfolding board_DoPut_def by (rule status_with_board) (rule status_put_board)
  show "status_ok (fst (board_DoDelete M H S))" unfolding board_DoDelete_def by (rule status_with_board) simp
  show "status_ok (fst (board_DoPost M H S))"
    using status_insert_board[of M H] by (auto simp: board_DoPost_def Let_def split: prod.split sum.split option.split)
qed

text \<open>The statuses of a class are those of its own code and of the framework.\<close>

definition outcome_ok :: "outcome \<Rightarrow> bool" where
  "outcome_ok out \<longleftrightarrow> (case out of Answered R \<Rightarrow> answer_status (rs_status R) | Escaped e \<Rightarrow> e \<noteq> Type_error)"

lemma outcome_catch: "status_ok r \<Longrightarrow> outcome_ok (catch_poco J Env R r)"
  by (cases r) (auto simp: outcome_ok_def catch_poco_def)

lemma outcome_answered [simp]: "outcome_ok (Answered R) = answer_status (rs_status R)"
  by (simp add: outcome_ok_def)

lemma handleRequest_statuses:
  assumes "\<And>f H' s. f \<in> {rc_DoGet T, rc_DoPost T, rc_DoPut T, rc_DoDelete T} \<Longrightarrow> status_ok (fst (f H' s))"
    and "handleRequest J Env X L Do Now ms T H (S, rates, w) = (out, S', rates', w')"
  shows "outcome_ok out"
proof -
  have d: "outcome_ok (fst (dispatch_method J Env T H' s))" for H' s
    using assms(1)[of "rc_DoGet T" H' s] assms(1)[of "rc_DoPost T" H' s] assms(1)[of "rc_DoPut T" H' s] assms(1)[of "rc_DoDelete T" H' s]
    by (auto simp: dispatch_method_def Let_def outcome_catch split: prod.split)
  have p: "outcome_ok x" if "parse_and_dispatch J Env T H' s = (x, A', w'')" for H' s x A' w''
  proof (cases "InitQueryBlock Env (rq_parameters (h_Request H'))")
    case (Inr QB)
    with that d[of "H' \<lparr> h_QB := QB \<rparr>" s] show ?thesis by (simp add: parse_and_dispatch_def)
  qed (use that in \<open>auto simp: parse_and_dispatch_def intro!: outcome_catch\<close>)
  show ?thesis
    using assms(2) unfolding handleRequest_def Let_def prod.case by (auto split: sum.splits prod.splits if_splits dest: p)
qed

text \<open>
  C23: Whatever a request on boards holds and whatever the services answer, its answer has one of the statuses 200, 400, 403, 404 and
  500; what escapes the handler is never an exception of the Poco library.
\<close>

theorem board_answer_statuses:
  assumes "handleRequest J Env X L Do Now ms (board_class M) H (S, rates, w) = (out, S', rates', w')"
  shows "case out of Answered R \<Rightarrow> rs_status R \<in> {HTTP_OK, HTTP_BAD_REQUEST, HTTP_FORBIDDEN, HTTP_NOT_FOUND, HTTP_INTERNAL_SERVER_ERROR}
    | Escaped e \<Rightarrow> e \<noteq> Type_error"
proof -
  have "status_ok (fst (f H' s))" if "f \<in> {rc_DoGet (board_class M), rc_DoPost (board_class M), rc_DoPut (board_class M), rc_DoDelete (board_class M)}"
    for f H' s
  proof -
    obtain A C where s: "s = (A, C)" by (cases s)
    show ?thesis using that status_methods[of M H' C] by (auto simp: board_class_def on_coordinator_def s split: prod.split)
  qed
  with assms have "outcome_ok out" by (rule handleRequest_statuses[rotated])
  then show ?thesis by (cases out) (simp_all add: outcome_ok_def answer_status_def)
qed

section \<open>Witnesses\<close>

text \<open>A service that answers, and a request of another service of the system to create a board.\<close>

definition board_site :: "((string \<times> tree) list, tree) board_env" where
  "board_site = \<lparr> bq_env = small_env
       \<lparr> env_timepoints := \<lambda>_. run_delete (dtp_column tree_lib) ''timepoints'',
         env_events := \<lambda>_. run_delete ev_column ''device_availability_events'' \<rparr>,
     bq_rest = plain_env, bq_clock = (\<lambda>n i. 1700000000), bq_uuid = (\<lambda>n. ''b9'') \<rparr>"

definition board_body :: "(string \<times> tree) list" where
  "board_body = [(''name'', TString ''n''), (''venueList'', TArray [TObject [(''id'', TString ''v1'')]])]"

definition board_request :: "string \<Rightarrow> string \<Rightarrow> (string \<times> tree) list handler" where
  "board_request m i = (plain_handler ((plain_request m []) \<lparr> rq_get := [''X-INTERNAL-NAME'' \<mapsto> ''s'', ''X-API-KEY'' \<mapsto> ''k''] \<rparr>)
     [(''id'', i)]) \<lparr> h_Internal := True, h_ParsedBody := Some board_body \<rparr>"

definition named_board :: "string \<Rightarrow> u64 \<Rightarrow> BoardInfo" where
  "named_board i t = \<lparr> board_info = ObjectInfo_init \<lparr> info_id := i, info_name := ''n'', info_created := t, info_modified := t \<rparr>,
     board_venueList = [VenueInfo_init \<lparr> venue_id := ''v1'' \<rparr>] \<rparr>"

lemma board_body_read: "BoardInfo_from_json tree_lib board_body BoardInfo_init = (named_board [] 0, True)"
  by (simp add: board_body_def BoardInfo_from_json_def named_board_def try_all_def ObjectInfo_from_json_def VenueInfo_from_json_def
      field_from_json_def list_from_json_def objects_from_json_def each_def present_def assign_def tree_lib_def BoardInfo_init_def
      ObjectInfo_init_def VenueInfo_init_def bind_def)

lemma described_site:
  assumes "h_ParsedBody H = Some board_body" "h_Bindings H = [(''id'', i)]" "i \<noteq> []"
  shows "described board_site H n (named_board ''b9'' 1700000000)"
proof -
  have c: "CreateObjectInfo tree_lib 1700000000 ''b9'' board_body U (board_info (named_board [] 0))
      = Inr (board_info (named_board ''b9'' 1700000000), True)" for U
    by (simp add: CreateObjectInfo_def read_text_def board_body_def tree_lib_def bind_def Let_def named_board_def ObjectInfo_init_def)
  have u: "named_board [] 0 \<lparr> board_info := board_info (named_board ''b9'' 1700000000) \<rparr> = named_board ''b9'' 1700000000"
    by (simp add: named_board_def)
  have one: "HasExactlyOneVenue (named_board ''b9'' 1700000000)"
    by (simp add: HasExactlyOneVenue_def named_board_def VenueInfo_init_def)
  have b: "bq_json board_site = tree_lib" "bq_clock board_site n 0 = 1700000000" "bq_uuid board_site n = ''b9''"
    by (simp_all add: board_site_def small_env_def)
  have i: "GetBinding (h_Bindings H) ''id'' [] \<noteq> []" using assms(2,3) by (simp add: GetBinding_def ctype_simps)
  show ?thesis
    unfolding described_def b
    by (intro conjI exI[of _ board_body] exI[of _ "named_board [] 0"] exI[of _ "board_info (named_board ''b9'' 1700000000)"]
        exI[of _ True] i assms(1) board_body_read c u[symmetric] one)
qed

abbreviation site_row :: BoardInfo where
  "site_row \<equiv> named_board ''b9'' 1700000000"

lemma site_row_stored: "stored_board tree_lib site_row = site_row"
  by (simp add: stored_board_def board_of_row_def row_of_board_def named_board_def ObjectInfo_init_def VenueInfo_init_def Let_def
      to_string_array_def to_object_array_def tree_lib_def bind_def)

lemma site_post:
  assumes "h_ParsedBody H = Some board_body" "h_Bindings H = [(''id'', i)]" "i \<noteq> []"
    and "board_DoPost board_site H (coordinator_init [] :: unit coordinator) = (r, S)"
  shows "vc_BoardsDB S = [site_row]"
proof -
  note d = described_site[OF assms(1-3)]
  from DoPost_described[OF assms(4)] d described_unique[OF d]
  have "insert_board board_site H site_row (coordinator_init []) = (r, S)" by blast
  moreover have "HasExactlyOneVenue site_row" using d by (auto simp: described_def)
  moreover have "table_ok (coordinator_init [] :: unit coordinator)" by (simp add: table_ok_def boards_ok_def coordinator_init_def)
  ultimately have "vc_BoardsDB S = [stored_board (bq_json board_site) site_row]"
    using insert_board_stores[of "coordinator_init []" site_row board_site H r S]
    by (simp add: coordinator_init_def board_site_def small_env_def)
  then show ?thesis by (simp add: board_site_def small_env_def site_row_stored)
qed

lemma board_created_iff_witness:
  "\<exists>r S. board_DoPost board_site (board_request ''POST'' ''new'') (coordinator_init [] :: unit coordinator) = (r, S)
     \<and> vc_BoardsDB S = [site_row]"
proof -
  let ?H = "board_request ''POST'' ''new''"
  let ?w = "coordinator_init [] :: unit coordinator"
  obtain r S where p: "board_DoPost board_site ?H ?w = (r, S)" by fastforce
  have "described board_site ?H (vc_calls ?w) site_row"
    by (rule described_site[where i = "''new''"]) (simp_all add: board_request_def plain_handler_def)
  then have a: "accepted board_site ?H ?w B \<longleftrightarrow> B = site_row" for B
    using described_unique[of board_site ?H "vc_calls ?w" site_row B]
    by (auto simp: accepted_def coordinator_init_def board_site_def small_env_def)
  have s: "board_service board_site map_caches (map_cache :: (u64 \<rightharpoonup> ClientCacheEntry, _, _) expire_cache) no_json no_tokens Map.empty ?w"
    by (rule begins)
  have e: "vc_BoardsDB ?w = []" "bq_json board_site = tree_lib" by (simp_all add: coordinator_init_def board_site_def small_env_def)
  from board_created_iff[OF s p] have "vc_BoardsDB S = [site_row]" by (simp add: a e site_row_stored)
  with p show ?thesis by blast
qed

lemma site_request:
  assumes "m \<in> {''GET'', ''POST'', ''PUT'', ''DELETE''}"
  obtains H' out where "h_ParsedBody H' = Some board_body" "h_Bindings H' = [(''id'', i)]"
    "handleRequest tree_lib plain_env X L Do Now ms (board_class board_site) (board_request m i) (A, rates, w)
       = (out, A, rates, snd ((if m = ''GET'' then board_DoGet else if m = ''POST'' then board_DoPost
            else if m = ''DELETE'' then board_DoDelete else board_DoPut) board_site H' w))"
proof -
  define H' where "H' = (board_request m i) \<lparr> h_Requester := ''s'',
    h_QB := h_QB (plain_handler (plain_request m []) []) \<lparr> qb_Limit := 100 \<rparr> \<rparr>"
  define f where "f = (if m = ''GET'' then board_DoGet else if m = ''POST'' then board_DoPost
    else if m = ''DELETE'' then board_DoDelete else board_DoPut) board_site H' w"
  have sel: "h_ParsedBody H' = Some board_body" "h_Bindings H' = [(''id'', i)]"
    by (simp_all add: H'_def board_request_def plain_handler_def)
  have "\<exists>out. handleRequest tree_lib plain_env X L Do Now ms (board_class board_site) (board_request m i) (A, rates, w)
      = (out, A, rates, snd f)"
    using assms plain_query[of "plain_request m []" "[]"]
    by (auto simp: handleRequest_def Let_def parse_and_dispatch_def dispatch_method_def board_class_def on_coordinator_def f_def H'_def
        Handler_IsAuthorized_def IsValidAPIKEY_def board_request_def plain_handler_def plain_request_def plain_env_def split: prod.split)
  then show thesis using that[OF sel] by (auto simp: f_def)
qed

lemma site_service:
  obtains S :: "unit coordinator"
  where "board_service board_site map_caches (map_cache :: (u64 \<rightharpoonup> ClientCacheEntry, _, _) expire_cache) no_json no_tokens Map.empty S"
    "vc_BoardsDB S = [site_row]"
proof -
  let ?w = "coordinator_init [] :: unit coordinator"
  obtain H' out where h: "h_ParsedBody H' = Some board_body" "h_Bindings H' = [(''id'', ''new'')]"
    "handleRequest tree_lib plain_env map_caches (map_cache :: (u64 \<rightharpoonup> ClientCacheEntry, _, _) expire_cache) one_token 1050 0
       (board_class board_site) (board_request ''POST'' ''new'') (no_tokens, Map.empty, ?w)
     = (out, no_tokens, Map.empty, snd (board_DoPost board_site H' ?w))"
    by (rule site_request[of "''POST''" "''new''" map_caches map_cache one_token 1050 0 no_tokens Map.empty ?w]) simp_all
  have e: "bq_json board_site = tree_lib" "bq_rest board_site = plain_env" by (simp_all add: board_site_def small_env_def)
  obtain r S where p: "board_DoPost board_site H' ?w = (r, S)" by fastforce
  show thesis
    by (rule that[OF request[OF begins h(3)[folded e]]]) (simp add: p site_post[OF h(1,2) _ p])
qed

lemma one_board_per_venue_witness:
  "\<exists>S :: unit coordinator. vc_BoardsDB S = [site_row] \<and> list_all HasExactlyOneVenue (vc_BoardsDB S)"
proof -
  obtain S :: "unit coordinator" where s:
    "board_service board_site map_caches (map_cache :: (u64 \<rightharpoonup> ClientCacheEntry, _, _) expire_cache) no_json no_tokens Map.empty S"
    "vc_BoardsDB S = [site_row]" by (rule site_service)
  from one_board_per_venue[OF s(1)] s(2) show ?thesis by blast
qed

lemma board_deleted_witness:
  "\<exists>(S :: unit coordinator) r S'. vc_BoardsDB S = [site_row]
     \<and> board_DoDelete board_site (board_request ''DELETE'' ''b9'') S = (r, S') \<and> vc_BoardsDB S' = []
     \<and> vc_TimePointsDB S' = filter (\<lambda>p. dtp_boardId p \<noteq> ''b9'') (vc_TimePointsDB S)"
proof -
  obtain S :: "unit coordinator" where s:
    "board_service board_site map_caches (map_cache :: (u64 \<rightharpoonup> ClientCacheEntry, _, _) expire_cache) no_json no_tokens Map.empty S"
    "vc_BoardsDB S = [site_row]" by (rule site_service)
  obtain r S' where p: "board_DoDelete board_site (board_request ''DELETE'' ''b9'') S = (r, S')" by fastforce
  have i: "board_id site_row = ''b9''" by (simp add: board_id_def named_board_def)
  have g: "GetBinding (h_Bindings (board_request ''DELETE'' ''b9'')) ''id'' [] = board_id site_row"
    by (simp add: i board_request_def plain_handler_def GetBinding_def ctype_simps)
  have e: "site_row \<in> set (vc_BoardsDB S)" "board_id site_row \<noteq> []" "quote \<notin> set (board_id site_row)"
    "env_db (bq_env board_site) n" "bq_json board_site = tree_lib"
    "env_timepoints (bq_env board_site) n = run_delete (dtp_column tree_lib) ''timepoints''"
    "env_events (bq_env board_site) n = run_delete ev_column ''device_availability_events''" for n
    using s(2) by (simp_all add: i board_site_def small_env_def)
  have d: "deletes (env_timepoints (bq_env board_site) n) ''timepoints'' (dtp_column (bq_json board_site))"
    "never_fails (env_timepoints (bq_env board_site) n)"
    "deletes (env_events (bq_env board_site) n) ''device_availability_events'' ev_column"
    "never_fails (env_events (bq_env board_site) n)" for n
    unfolding e(5-7) by (rule run_delete_ok)+
  from board_deleted[OF s(1) e(1) g e(2,4,4) d p] s(2) e(3)
  have "vc_BoardsDB S' = []" "vc_TimePointsDB S' = filter (\<lambda>p. dtp_boardId p \<noteq> ''b9'') (vc_TimePointsDB S)"
    by (simp_all add: i)
  with s(2) p show ?thesis by blast
qed

lemma board_answer_statuses_witness:
  "\<exists>out S' rates' w'. handleRequest tree_lib plain_env map_caches (map_cache :: (u64 \<rightharpoonup> ClientCacheEntry, _, _) expire_cache) one_token 1050 0
       (board_class board_site) (board_request ''PATCH'' ''b9'') (no_tokens, Map.empty, coordinator_init [] :: unit coordinator)
     = (out, S', rates', w')
   \<and> (case out of Answered R \<Rightarrow> rs_status R \<in> {HTTP_OK, HTTP_BAD_REQUEST, HTTP_FORBIDDEN, HTTP_NOT_FOUND, HTTP_INTERNAL_SERVER_ERROR}
       | Escaped e \<Rightarrow> e \<noteq> Type_error)"
proof -
  obtain out S' rates' w' where h: "handleRequest tree_lib plain_env map_caches (map_cache :: (u64 \<rightharpoonup> ClientCacheEntry, _, _) expire_cache)
      one_token 1050 0 (board_class board_site) (board_request ''PATCH'' ''b9'') (no_tokens, Map.empty, coordinator_init [] :: unit coordinator)
      = (out, S', rates', w')"
    by (metis surj_pair)
  from board_answer_statuses[OF h] h show ?thesis by blast
qed

end
