(* ===== verification/McpWindow.thy ===== *)
theory McpWindow
  imports McpHelpers AnalyticsObjects
begin

text \<open>
  What the MCP summaries share: the requested window they report, the observed window they widen with
  every sample they use, and facts on the floating-point operations they average with.

  Every summary widens its observed window the same way: the first segment sets start and end, each
  later one takes the minimum and the maximum.  The locale \<open>obs_window\<close> states that contract and
  proves once that the result spans exactly the segments seen.
\<close>

definition requested_window :: "mcp_window \<Rightarrow> MCPRequestedWindow" where
  "requested_window Requested =
     \<lparr>rw_startTime = FormatTimestamp (startTime Requested), rw_endTime = FormatTimestamp (endTime Requested)\<rparr>"

definition observed_of :: "bool \<Rightarrow> u64 \<Rightarrow> u64 \<Rightarrow> MCPObservedWindow" where
  "observed_of Has Start End =
     (if Has then \<lparr>ow_startTime = Some (FormatTimestamp Start), ow_endTime = Some (FormatTimestamp End)\<rparr>
      else MCPObservedWindow_init)"

locale obs_window =
  fixes seen :: "'s \<Rightarrow> bool" and lo :: "'s \<Rightarrow> u64" and hi :: "'s \<Rightarrow> u64"
    and mark :: "u64 \<times> u64 \<Rightarrow> 's \<Rightarrow> 's"
  assumes mark_seen: "seen (mark seg s)"
    and mark_first: "\<not> seen s \<Longrightarrow> lo (mark seg s) = fst seg \<and> hi (mark seg s) = snd seg"
    and mark_again: "seen s \<Longrightarrow> lo (mark seg s) = min (lo s) (fst seg) \<and> hi (mark seg s) = max (hi s) (snd seg)"
begin

lemma fold_mark_seen: "seen (fold mark segs s) \<longleftrightarrow> seen s \<or> segs \<noteq> []"
  by (induction segs arbitrary: s) (auto simp: mark_seen)

lemma fold_mark_from_seen:
  assumes "seen s"
  shows "lo (fold mark segs s) = Min (insert (lo s) (fst ` set segs)) \<and>
         hi (fold mark segs s) = Max (insert (hi s) (snd ` set segs))"
  using assms
proof (induction segs arbitrary: s)
  case (Cons seg segs)
  then show ?case
    using mark_again[OF Cons.prems, of seg] mark_seen[of seg s]
    by (cases "segs = []") (auto simp: min.assoc min.commute min.left_commute max.assoc max.commute max.left_commute)
qed simp

lemma fold_mark_spans:
  assumes "\<not> seen s" "segs \<noteq> []"
  shows "lo (fold mark segs s) = Min (fst ` set segs)" "hi (fold mark segs s) = Max (snd ` set segs)"
proof -
  obtain seg rest where segs: "segs = seg # rest" using assms(2) by (cases segs) auto
  then show "lo (fold mark segs s) = Min (fst ` set segs)" "hi (fold mark segs s) = Max (snd ` set segs)"
    using fold_mark_from_seen[of "mark seg s" rest] mark_first[OF assms(1), of seg] mark_seen[of seg s] by auto
qed

end

text \<open>
  The last loop of the two per-client summaries: \<^verbatim>\<open>HasObservedWindow\<close>, \<^verbatim>\<open>ObservedStart\<close>, \<^verbatim>\<open>ObservedEnd\<close>
  over the segments of the reported clients.
\<close>

record obs_state =
  os_Has :: bool
  os_Start :: u64
  os_End :: u64

definition obs_init :: obs_state where
  "obs_init = \<lparr>os_Has = False, os_Start = 0, os_End = 0\<rparr>"

definition obs_mark :: "u64 \<times> u64 \<Rightarrow> obs_state \<Rightarrow> obs_state" where
  "obs_mark seg s =
     (if \<not> os_Has s then \<lparr>os_Has = True, os_Start = fst seg, os_End = snd seg\<rparr>
      else s\<lparr>os_Start := min (os_Start s) (fst seg), os_End := max (os_End s) (snd seg)\<rparr>)"

definition observed_segments :: "(u64 \<times> u64) list \<Rightarrow> MCPObservedWindow" where
  "observed_segments segs = (let s = fold obs_mark segs obs_init in observed_of (os_Has s) (os_Start s) (os_End s))"

interpretation obs: obs_window os_Has os_Start os_End obs_mark
  by unfold_locales (auto simp: obs_mark_def)

lemma observed_segments_spans:
  "observed_segments segs =
     (if segs = [] then MCPObservedWindow_init
      else observed_of True (Min (fst ` set segs)) (Max (snd ` set segs)))"
  using obs.fold_mark_spans[of obs_init segs] obs.fold_mark_seen[of segs obs_init]
  by (auto simp: observed_segments_def Let_def obs_init_def observed_of_def)

text \<open>Minimum and maximum as \<^verbatim>\<open>std::min\<close> and \<^verbatim>\<open>std::max\<close> compare.\<close>

lemma min_max_strict:
  fixes a b :: "'a :: linorder"
  shows "min a b = (if b < a then b else a)" "max a b = (if a < b then b else a)"
  by (auto simp: min_def max_def)

lemma Min_UN_Min:
  fixes A :: "'a \<Rightarrow> 'b :: linorder set"
  assumes "finite I" "I \<noteq> {}" "\<And>i. i \<in> I \<Longrightarrow> finite (A i) \<and> A i \<noteq> {}"
  shows "Min ((\<lambda>i. Min (A i)) ` I) = Min (\<Union>i \<in> I. A i)"
proof (rule Min_eqI[symmetric])
  show "finite (\<Union>i \<in> I. A i)" using assms by auto
  show "Min ((\<lambda>i. Min (A i)) ` I) \<in> (\<Union>i \<in> I. A i)"
  proof -
    obtain i where i: "i \<in> I" "Min ((\<lambda>i. Min (A i)) ` I) = Min (A i)"
      using assms Min_in[of "(\<lambda>i. Min (A i)) ` I"] by blast
    with assms(3)[OF i(1)] have "Min (A i) \<in> A i" by (intro Min_in) auto
    with i show ?thesis by auto
  qed
  show "Min ((\<lambda>i. Min (A i)) ` I) \<le> y" if "y \<in> (\<Union>i \<in> I. A i)" for y
    using that assms by (auto simp: Min_le_iff)
qed

lemma Max_UN_Max:
  fixes A :: "'a \<Rightarrow> 'b :: linorder set"
  assumes "finite I" "I \<noteq> {}" "\<And>i. i \<in> I \<Longrightarrow> finite (A i) \<and> A i \<noteq> {}"
  shows "Max ((\<lambda>i. Max (A i)) ` I) = Max (\<Union>i \<in> I. A i)"
proof (rule Max_eqI[symmetric])
  show "finite (\<Union>i \<in> I. A i)" using assms by auto
  show "Max ((\<lambda>i. Max (A i)) ` I) \<in> (\<Union>i \<in> I. A i)"
  proof -
    obtain i where i: "i \<in> I" "Max ((\<lambda>i. Max (A i)) ` I) = Max (A i)"
      using assms Max_in[of "(\<lambda>i. Max (A i)) ` I"] by blast
    with assms(3)[OF i(1)] have "Max (A i) \<in> A i" by (intro Max_in) auto
    with i show ?thesis by auto
  qed
  show "y \<le> Max ((\<lambda>i. Max (A i)) ` I)" if "y \<in> (\<Union>i \<in> I. A i)" for y
    using that assms by (auto simp: Max_ge_iff)
qed

lemma take_if_longer: "(if length xs > n then take n xs else xs) = take n xs"
  by simp

subsection \<open>Rounding of values far from the ends of the format\<close>

lemma fp_round_Fin:
  assumes "\<bar>fp_rnd f x\<bar> < 2 powi max_exp f"
  shows "fp_round f x = Fin (fp_rnd f x)"
  using assms by (auto simp: fp_round_def Let_def)

lemma long_double_power_exact: "- 16445 \<le> q \<Longrightarrow> fp_rnd binary80 (2 powi q) = 2 powi q"
  using long_double.fl_exact[of 1 q] by simp

lemma double_power_exact: "- 1074 \<le> q \<Longrightarrow> fp_rnd binary64 (2 powi q) = 2 powi q"
  using double.fl_exact[of 1 q] by simp

lemma long_double_round_bounded:
  assumes "\<bar>x\<bar> \<le> 2 powi q" "- 16445 \<le> q" "q < 16384"
  shows "fp_round binary80 x = Fin (fp_rnd binary80 x)" "\<bar>fp_rnd binary80 x\<bar> \<le> 2 powi q"
proof -
  have "fp_rnd binary80 x \<le> 2 powi q" "- (2 powi q) \<le> fp_rnd binary80 x"
    using long_double.fl_bounds[of "- (2 powi q)" "2 powi q" x] assms(1)
      long_double_power_exact[OF assms(2)] long_double.fl_neg[of "2 powi q"] by auto
  then show b: "\<bar>fp_rnd binary80 x\<bar> \<le> 2 powi q" by (simp add: abs_le_iff)
  also have "(2 :: rat) powi q < 2 powi 16384" using assms(3) by (simp only: powi_less_2)
  finally show "fp_round binary80 x = Fin (fp_rnd binary80 x)"
    by (intro fp_round_Fin) (simp only: binary80_def fmt.select_convs)
qed

lemma double_round_bounded:
  assumes "\<bar>x\<bar> \<le> 2 powi q" "- 1074 \<le> q" "q < 1024"
  shows "fp_round binary64 x = Fin (fp_rnd binary64 x)" "\<bar>fp_rnd binary64 x\<bar> \<le> 2 powi q"
proof -
  have "fp_rnd binary64 x \<le> 2 powi q" "- (2 powi q) \<le> fp_rnd binary64 x"
    using double.fl_bounds[of "- (2 powi q)" "2 powi q" x] assms(1)
      double_power_exact[OF assms(2)] double.fl_neg[of "2 powi q"] by auto
  then show b: "\<bar>fp_rnd binary64 x\<bar> \<le> 2 powi q" by (simp add: abs_le_iff)
  also have "(2 :: rat) powi q < 2 powi 1024" using assms(3) by (simp only: powi_less_2)
  finally show "fp_round binary64 x = Fin (fp_rnd binary64 x)"
    by (intro fp_round_Fin) (simp only: binary64_def fmt.select_convs)
qed

end
