(* ===== verification/McpMemory.thy ===== *)
theory McpMemory
  imports McpWindow
begin

text \<open>
  \<^verbatim>\<open>CalculateMemorySummary\<close>: minimum, maximum, latest and rounded average of the free memory of the
  records, with the window they span.  The local variables of the function are the fields of
  \<open>mem_state\<close>; \<open>mem_step\<close> is the body of its loop.
\<close>

record mem_state =
  mem_data :: MCPMemorySummaryData
  mem_observed :: MCPObservedWindow
  mem_Count :: u64
  mem_Sum :: fp
  mem_LatestTimestamp :: u64
  mem_ObservedStartTimestamp :: u64
  mem_ObservedEndTimestamp :: u64
  mem_LatestId :: string

definition mem_init :: mem_state where
  "mem_init = \<lparr>mem_data = MCPMemorySummaryData_init, mem_observed = MCPObservedWindow_init, mem_Count = 0,
     mem_Sum = Fin 0, mem_LatestTimestamp = 0, mem_ObservedStartTimestamp = 0,
     mem_ObservedEndTimestamp = 0, mem_LatestId = []\<rparr>"

text \<open>The branch \<^verbatim>\<open>Count == 0\<close> and the other branch of the loop body.\<close>

definition mem_first :: "DeviceTimePoint \<Rightarrow> u64 \<Rightarrow> mem_state \<Rightarrow> mem_state" where
  "mem_first Record Free s =
     s\<lparr>mem_data := (mem_data s)\<lparr>msd_min_memfree := Some Free, msd_max_memfree := Some Free,
                                 msd_latest_memfree := Some Free\<rparr>,
       mem_observed := \<lparr>ow_startTime = Some (FormatTimestamp (dtp_timestamp Record)),
                         ow_endTime = Some (FormatTimestamp (dtp_timestamp Record))\<rparr>,
       mem_LatestTimestamp := dtp_timestamp Record,
       mem_ObservedStartTimestamp := dtp_timestamp Record,
       mem_ObservedEndTimestamp := dtp_timestamp Record,
       mem_LatestId := dtp_id Record\<rparr>"

definition mem_is_later :: "DeviceTimePoint \<Rightarrow> u64 \<Rightarrow> mem_state \<Rightarrow> bool" where
  "mem_is_later Record Free s \<longleftrightarrow>
     dtp_timestamp Record > mem_LatestTimestamp s \<or>
     dtp_timestamp Record = mem_LatestTimestamp s \<and>
       (dtp_id Record > mem_LatestId s \<or>
        dtp_id Record = [] \<and> mem_LatestId s = [] \<and> Free > the (msd_latest_memfree (mem_data s)))"

definition mem_extremes :: "u64 \<Rightarrow> mem_state \<Rightarrow> mem_state" where
  "mem_extremes Free s =
     s\<lparr>mem_data := (mem_data s)
         \<lparr>msd_min_memfree := Some (min (the (msd_min_memfree (mem_data s))) Free),
          msd_max_memfree := Some (max (the (msd_max_memfree (mem_data s))) Free)\<rparr>\<rparr>"

definition mem_widen_start :: "DeviceTimePoint \<Rightarrow> mem_state \<Rightarrow> mem_state" where
  "mem_widen_start Record s =
     (if dtp_timestamp Record < mem_ObservedStartTimestamp s
      then s\<lparr>mem_observed := (mem_observed s)\<lparr>ow_startTime := Some (FormatTimestamp (dtp_timestamp Record))\<rparr>,
             mem_ObservedStartTimestamp := dtp_timestamp Record\<rparr>
      else s)"

definition mem_widen_end :: "DeviceTimePoint \<Rightarrow> mem_state \<Rightarrow> mem_state" where
  "mem_widen_end Record s =
     (if dtp_timestamp Record > mem_ObservedEndTimestamp s
      then s\<lparr>mem_observed := (mem_observed s)\<lparr>ow_endTime := Some (FormatTimestamp (dtp_timestamp Record))\<rparr>,
             mem_ObservedEndTimestamp := dtp_timestamp Record\<rparr>
      else s)"

definition mem_latest :: "DeviceTimePoint \<Rightarrow> u64 \<Rightarrow> mem_state \<Rightarrow> mem_state" where
  "mem_latest Record Free s =
     (if mem_is_later Record Free s
      then s\<lparr>mem_data := (mem_data s)\<lparr>msd_latest_memfree := Some Free\<rparr>,
             mem_LatestTimestamp := dtp_timestamp Record, mem_LatestId := dtp_id Record\<rparr>
      else s)"

definition mem_next :: "DeviceTimePoint \<Rightarrow> u64 \<Rightarrow> mem_state \<Rightarrow> mem_state" where
  "mem_next Record Free s =
     mem_latest Record Free (mem_widen_end Record (mem_widen_start Record (mem_extremes Free s)))"

definition mem_add :: "DeviceTimePoint \<Rightarrow> u64 \<Rightarrow> mem_state \<Rightarrow> mem_state" where
  "mem_add Record Free s =
     (let s' = (if mem_Count s = 0 then mem_first Record Free s else mem_next Record Free s)
      in s'\<lparr>mem_Sum := fp_add binary80 (mem_Sum s') (fp_of_nat binary80 (unat Free)),
            mem_Count := mem_Count s' + 1\<rparr>)"

text \<open>The two \<^verbatim>\<open>continue\<close>s at the head of the loop body: which records count, and with which value.\<close>

definition memory_sample :: "DeviceTimePoint \<Rightarrow> u64 option" where
  "memory_sample Record =
     (case res_memory_free (dtp_resource_data Record) of
        None \<Rightarrow> None
      | Some Free \<Rightarrow>
          (case res_memory_total (dtp_resource_data Record) of
             None \<Rightarrow> Some Free
           | Some MemTotal \<Rightarrow> if Free > MemTotal then None else Some Free))"

definition mem_step :: "DeviceTimePoint \<Rightarrow> mem_state \<Rightarrow> mem_state" where
  "mem_step Record s = (case memory_sample Record of None \<Rightarrow> s | Some Free \<Rightarrow> mem_add Record Free s)"

text \<open>\<^verbatim>\<open>static_cast<uint64_t>\<close> of a value in range: truncation.\<close>

fun fp_to_u64 :: "fp \<Rightarrow> u64" where
  "fp_to_u64 (Fin x) = word_of_int (if x \<ge> 0 then floor x else ceiling x)"
| "fp_to_u64 _ = 0"

definition rounded_average :: "fp \<Rightarrow> u64 \<Rightarrow> u64" where
  "rounded_average S Count =
     (let Average = fp_floor (fp_add binary80 (fp_div binary80 S (fp_of_nat binary80 (unat Count)))
                                (Fin (1 / 2)))
      in if fp_less (fp_of_nat binary80 (unat U64_MAX)) Average then U64_MAX else fp_to_u64 Average)"

definition CalculateMemorySummary :: "DeviceTimePoint list \<Rightarrow> mcp_window \<Rightarrow> MCPGatewayMemorySummary" where
  "CalculateMemorySummary Records Requested =
     (let s = fold mem_step Records mem_init
      in \<lparr>gms_data = (if mem_Count s > 0
                       then (mem_data s)\<lparr>msd_avg_memfree := Some (rounded_average (mem_Sum s) (mem_Count s))\<rparr>
                       else mem_data s),
          gms_meta = \<lparr>meta_requestedWindow = requested_window Requested,
                       meta_observedWindow = mem_observed s\<rparr>\<rparr>)"

subsection \<open>The loop\<close>

definition memory_samples :: "DeviceTimePoint list \<Rightarrow> (DeviceTimePoint \<times> u64) list" where
  "memory_samples rs = List.map_filter (\<lambda>r. map_option (Pair r) (memory_sample r)) rs"

lemma memory_samples_simps [simp]:
  "memory_samples [] = []"
  "memory_samples (r # rs) =
     (case memory_sample r of None \<Rightarrow> memory_samples rs | Some v \<Rightarrow> (r, v) # memory_samples rs)"
  by (simp_all add: memory_samples_def List.map_filter_simps split: option.split)

lemma fold_mem_step:
  "fold mem_step rs s = fold (\<lambda>(r, v). mem_add r v) (memory_samples rs) s"
  by (induction rs arbitrary: s) (auto simp: mem_step_def split: option.split)

lemma length_memory_samples: "length (memory_samples rs) \<le> length rs"
  by (induction rs) (auto split: option.split)

text \<open>
  The order in which \<^verbatim>\<open>CalculateMemorySummary\<close> looks for the latest sample: by time, then by record id,
  and among records without id by value.
\<close>

definition later_key :: "DeviceTimePoint \<times> u64 \<Rightarrow> u64 \<times> string \<times> u64" where
  "later_key p = (dtp_timestamp (fst p), dtp_id (fst p), if dtp_id (fst p) = [] then snd p else 0)"

text \<open>What the variables hold after the samples \<open>ps\<close> have been added.\<close>

definition mem_inv :: "(DeviceTimePoint \<times> u64) list \<Rightarrow> mem_state \<Rightarrow> bool" where
  "mem_inv ps s \<longleftrightarrow>
     mem_Count s = of_nat (length ps) \<and>
     (sum_list (map (unat \<circ> snd) ps) \<le> 2 ^ 64 \<longrightarrow>
        mem_Sum s = Fin (of_nat (sum_list (map (unat \<circ> snd) ps)))) \<and>
     (if ps = [] then s = mem_init
      else msd_min_memfree (mem_data s) = Some (Min (snd ` set ps)) \<and>
           msd_max_memfree (mem_data s) = Some (Max (snd ` set ps)) \<and>
           mem_ObservedStartTimestamp s = Min ((dtp_timestamp \<circ> fst) ` set ps) \<and>
           mem_ObservedEndTimestamp s = Max ((dtp_timestamp \<circ> fst) ` set ps) \<and>
           mem_observed s = observed_of True (mem_ObservedStartTimestamp s) (mem_ObservedEndTimestamp s) \<and>
           (\<exists>p \<in> set ps. msd_latest_memfree (mem_data s) = Some (snd p) \<and>
              mem_LatestTimestamp s = dtp_timestamp (fst p) \<and> mem_LatestId s = dtp_id (fst p) \<and>
              (\<forall>p' \<in> set ps. later_key p' \<le> later_key p)))"

lemma mem_is_later_iff:
  assumes "msd_latest_memfree (mem_data s) = Some (snd p)" "mem_LatestTimestamp s = dtp_timestamp (fst p)"
    and "mem_LatestId s = dtp_id (fst p)"
  shows "mem_is_later r v s \<longleftrightarrow> later_key (r, v) > later_key p"
  using assms by (auto simp: mem_is_later_def later_key_def less_prod_def' split: if_splits)

lemma mem_widen_fields [simp]:
  "mem_data (mem_widen_start r s) = mem_data s" "mem_data (mem_widen_end r s) = mem_data s"
  "mem_Count (mem_widen_start r s) = mem_Count s" "mem_Count (mem_widen_end r s) = mem_Count s"
  "mem_Sum (mem_widen_start r s) = mem_Sum s" "mem_Sum (mem_widen_end r s) = mem_Sum s"
  "mem_LatestTimestamp (mem_widen_start r s) = mem_LatestTimestamp s"
  "mem_LatestTimestamp (mem_widen_end r s) = mem_LatestTimestamp s"
  "mem_LatestId (mem_widen_start r s) = mem_LatestId s" "mem_LatestId (mem_widen_end r s) = mem_LatestId s"
  "mem_ObservedStartTimestamp (mem_widen_start r s) = min (mem_ObservedStartTimestamp s) (dtp_timestamp r)"
  "mem_ObservedStartTimestamp (mem_widen_end r s) = mem_ObservedStartTimestamp s"
  "mem_ObservedEndTimestamp (mem_widen_start r s) = mem_ObservedEndTimestamp s"
  "mem_ObservedEndTimestamp (mem_widen_end r s) = max (mem_ObservedEndTimestamp s) (dtp_timestamp r)"
  by (simp_all add: mem_widen_start_def mem_widen_end_def min_max_strict)

lemma mem_extremes_fields [simp]:
  "mem_Count (mem_extremes v s) = mem_Count s" "mem_Sum (mem_extremes v s) = mem_Sum s"
  "mem_LatestTimestamp (mem_extremes v s) = mem_LatestTimestamp s" "mem_LatestId (mem_extremes v s) = mem_LatestId s"
  "mem_ObservedStartTimestamp (mem_extremes v s) = mem_ObservedStartTimestamp s"
  "mem_ObservedEndTimestamp (mem_extremes v s) = mem_ObservedEndTimestamp s"
  "mem_observed (mem_extremes v s) = mem_observed s"
  "msd_latest_memfree (mem_data (mem_extremes v s)) = msd_latest_memfree (mem_data s)"
  by (simp_all add: mem_extremes_def)

lemma mem_widen_observed:
  assumes "mem_observed s = observed_of True (mem_ObservedStartTimestamp s) (mem_ObservedEndTimestamp s)"
  shows "mem_observed (mem_widen_end r (mem_widen_start r s)) =
     observed_of True (min (mem_ObservedStartTimestamp s) (dtp_timestamp r))
                      (max (mem_ObservedEndTimestamp s) (dtp_timestamp r))"
  using assms by (simp add: mem_widen_start_def mem_widen_end_def observed_of_def min_max_strict)

lemma mem_is_later_next [simp]:
  "mem_is_later r v (mem_widen_end r (mem_widen_start r (mem_extremes v s))) = mem_is_later r v s"
  by (simp add: mem_is_later_def)

text \<open>The fields of the state after \<open>mem_next\<close>.\<close>

lemma mem_next_fields:
  "msd_min_memfree (mem_data (mem_next r v s)) = Some (min (the (msd_min_memfree (mem_data s))) v)"
  "msd_max_memfree (mem_data (mem_next r v s)) = Some (max (the (msd_max_memfree (mem_data s))) v)"
  "mem_ObservedStartTimestamp (mem_next r v s) = min (mem_ObservedStartTimestamp s) (dtp_timestamp r)"
  "mem_ObservedEndTimestamp (mem_next r v s) = max (mem_ObservedEndTimestamp s) (dtp_timestamp r)"
  "mem_observed s = observed_of True (mem_ObservedStartTimestamp s) (mem_ObservedEndTimestamp s) \<Longrightarrow>
   mem_observed (mem_next r v s) =
     observed_of True (mem_ObservedStartTimestamp (mem_next r v s)) (mem_ObservedEndTimestamp (mem_next r v s))"
  "mem_Count (mem_next r v s) = mem_Count s" "mem_Sum (mem_next r v s) = mem_Sum s"
  "msd_latest_memfree (mem_data (mem_next r v s)) =
     (if mem_is_later r v s then Some v else msd_latest_memfree (mem_data s))"
  "mem_LatestTimestamp (mem_next r v s) = (if mem_is_later r v s then dtp_timestamp r else mem_LatestTimestamp s)"
  "mem_LatestId (mem_next r v s) = (if mem_is_later r v s then dtp_id r else mem_LatestId s)"
  by (simp_all add: mem_next_def mem_latest_def mem_widen_observed) (simp_all add: mem_extremes_def)

lemma fp_sum_step:
  assumes "a + v \<le> 2 ^ 64"
  shows "fp_add binary80 (Fin (of_nat a)) (fp_of_nat binary80 v) = Fin (of_nat (a + v))"
proof -
  have round: "fp_round binary80 (of_nat n) = Fin (of_nat n)" if "n \<le> 2 ^ 64" for n
  proof -
    have "rat_of_nat n \<le> rat_of_nat (2 ^ 64)" using that by (simp only: of_nat_le_iff)
    then have "\<bar>rat_of_nat n\<bar> \<le> 2 powi 64" by simp
    from long_double_round_bounded(1)[OF this] long_double.fl_nat[OF that] show ?thesis by simp
  qed
  from assms have "v \<le> 2 ^ 64" by simp
  then have "fp_add binary80 (Fin (of_nat a)) (fp_of_nat binary80 v) = fp_round binary80 (of_nat (a + v))"
    by (simp add: fp_of_nat_def round)
  then show ?thesis by (simp only: round[OF assms])
qed

lemma mem_add_inv:
  assumes inv: "mem_inv ps s" and len: "length ps < 2 ^ 64"
  shows "mem_inv (ps @ [(r, v)]) (mem_add r v s)"
proof -
  let ?ps = "ps @ [(r, v)]"
  have sum: "sum_list (map (unat \<circ> snd) ?ps) \<le> 2 ^ 64 \<longrightarrow>
      mem_Sum (mem_add r v s) = Fin (of_nat (sum_list (map (unat \<circ> snd) ?ps)))"
  proof
    assume le: "sum_list (map (unat \<circ> snd) ?ps) \<le> 2 ^ 64"
    then have "sum_list (map (unat \<circ> snd) ps) \<le> 2 ^ 64" by simp
    with inv have "mem_Sum s = Fin (of_nat (sum_list (map (unat \<circ> snd) ps)))"
      by (simp add: mem_inv_def)
    moreover have "mem_Sum (mem_add r v s) = fp_add binary80 (mem_Sum s) (fp_of_nat binary80 (unat v))"
      by (simp add: mem_add_def mem_first_def mem_next_fields Let_def)
    ultimately show "mem_Sum (mem_add r v s) = Fin (of_nat (sum_list (map (unat \<circ> snd) ?ps)))"
      using fp_sum_step[of "sum_list (map (unat \<circ> snd) ps)" "unat v"] le by simp
  qed
  have count: "mem_Count (mem_add r v s) = of_nat (length ?ps)"
    using inv by (simp add: mem_inv_def mem_add_def mem_first_def mem_next_fields Let_def)
  show ?thesis
  proof (cases "ps = []")
    case True
    with inv have "s = mem_init" by (simp add: mem_inv_def)
    then have "mem_Count s = 0" by (simp add: mem_init_def)
    then show ?thesis
      using sum count True
      by (simp add: mem_inv_def mem_add_def mem_first_def observed_of_def Let_def)
  next
    case False
    have "mem_Count s \<noteq> 0"
    proof
      assume "mem_Count s = 0"
      with inv have "(of_nat (length ps) :: u64) = 0" by (simp add: mem_inv_def)
      then have "unat (of_nat (length ps) :: u64) = 0" by simp
      with len have "length ps = 0" by (simp add: unat_of_nat)
      with False show False by simp
    qed
    then have add: "mem_add r v s = (let s' = mem_next r v s in
        s'\<lparr>mem_Sum := fp_add binary80 (mem_Sum s') (fp_of_nat binary80 (unat v)), mem_Count := mem_Count s' + 1\<rparr>)"
      by (simp add: mem_add_def Let_def)
    from inv False obtain p where p: "p \<in> set ps" "msd_latest_memfree (mem_data s) = Some (snd p)"
      "mem_LatestTimestamp s = dtp_timestamp (fst p)" "mem_LatestId s = dtp_id (fst p)"
      and max: "\<forall>p' \<in> set ps. later_key p' \<le> later_key p"
      by (auto simp: mem_inv_def)
    note later = mem_is_later_iff[OF p(2-4)]
    have latest: "\<exists>p \<in> set ?ps. msd_latest_memfree (mem_data (mem_next r v s)) = Some (snd p) \<and>
        mem_LatestTimestamp (mem_next r v s) = dtp_timestamp (fst p) \<and>
        mem_LatestId (mem_next r v s) = dtp_id (fst p) \<and> (\<forall>p' \<in> set ?ps. later_key p' \<le> later_key p)"
    proof (cases "later_key (r, v) > later_key p")
      case True
      then have "\<forall>p' \<in> set ?ps. later_key p' \<le> later_key (r, v)"
        using max by (auto intro: order_trans[OF _ less_imp_le])
      with True show ?thesis
        by (intro bexI[of _ "(r, v)"]) (auto simp: mem_next_fields later)
    next
      case False
      with max p show ?thesis
        by (intro bexI[of _ p]) (auto simp: mem_next_fields later)
    qed
    from inv False show ?thesis
      unfolding mem_inv_def
      using sum count latest
      by (simp add: add Let_def mem_next_fields min.commute max.commute)
  qed
qed

lemma fold_mem_inv:
  assumes "mem_inv qs s" "length qs + length ps \<le> 2 ^ 64"
  shows "mem_inv (qs @ ps) (fold (\<lambda>(r, v). mem_add r v) ps s)"
  using assms
proof (induction ps arbitrary: qs s)
  case (Cons p ps)
  then show ?case
    using mem_add_inv[of qs s "fst p" "snd p"] Cons.IH[of "qs @ [p]" "mem_add (fst p) (snd p) s"]
    by (simp add: case_prod_beta)
qed simp

lemma rounded_average_exact:
  assumes "0 < n" "8 * S \<le> 2 ^ 64" "8 * n \<le> 2 ^ 64"
  shows "rounded_average (Fin (of_nat S)) (of_nat n) = of_nat ((2 * S + n) div (2 * n))"
proof -
  define k where "k = (2 * S + n) div (2 * n)"
  define y where "y = fp_rnd binary80 (of_nat S / of_nat n)"
  have n: "unat (of_nat n :: u64) = n" using assms(3) by (simp add: unat_of_nat)
  have n_round: "fp_of_nat binary80 n = Fin (of_nat n)"
    using fp_sum_step[of 0 n] assms(3) long_double_round_bounded[of "of_nat n" 64]
      long_double.fl_nat[of n] by (simp add: fp_of_nat_def)
  have "rat_of_nat S / of_nat n \<le> rat_of_nat S / 1"
    using assms(1) by (intro divide_left_mono) (auto simp: Suc_le_eq)
  also have "\<dots> \<le> 2 powi 64"
    using assms(2) of_nat_le_iff[of "8 * S" "2 ^ 64", where 'a = rat] by simp
  finally have quot: "\<bar>rat_of_nat S / of_nat n\<bar> \<le> 2 powi 64" by simp
  from long_double_round_bounded[OF this] have y: "fp_round binary80 (of_nat S / of_nat n) = Fin y" "\<bar>y\<bar> \<le> 2 powi 64"
    by (simp_all add: y_def)
  then have "\<bar>y + 1 / 2\<bar> \<le> 2 powi 65" by (simp add: abs_le_iff)
  from long_double_round_bounded(1)[OF this] have z: "fp_round binary80 (y + 1 / 2) = Fin (fp_rnd binary80 (y + 1 / 2))"
    by simp
  have fl: "floor (fp_rnd binary80 (y + 1 / 2)) = int k"
    unfolding y_def k_def by (rule long_double.fl_round_mean[OF assms])
  have "k \<le> 2 * S + n" unfolding k_def by (rule div_le_dividend)
  then have k: "k < 2 ^ 63" using assms(2,3) by simp
  have max: "fp_of_nat binary80 (unat U64_MAX) = Fin (of_nat (2 ^ 64 - 1))"
    using fp_sum_step[of 0 "2 ^ 64 - 1"] long_double_round_bounded[of "of_nat (2 ^ 64 - 1)" 64]
      long_double.fl_nat[of "2 ^ 64 - 1"] by (simp add: fp_of_nat_def unat_U64_MAX)
  have "\<not> rat_of_nat (2 ^ 64 - 1) < rat_of_int (int k)"
    using k by (simp del: of_nat_diff of_nat_numeral of_nat_power)
  then show ?thesis
    using assms(1) by (simp add: rounded_average_def Let_def n n_round y(1) z fl max k_def[symmetric])
qed

lemma CalculateMemorySummary_inv:
  assumes "length rs \<le> 2 ^ 64"
  shows "mem_inv (memory_samples rs) (fold mem_step rs mem_init)"
proof -
  have "mem_inv [] mem_init" by (simp add: mem_inv_def mem_init_def)
  moreover have "length (memory_samples rs) \<le> 2 ^ 64"
    using length_memory_samples[of rs] assms by linarith
  ultimately show ?thesis
    using fold_mem_inv[of "[]" mem_init "memory_samples rs"] by (simp add: fold_mem_step)
qed

text \<open>
  over the records with a usable free-memory value (present, and not above the total when that is
  known) the summary reports the exact minimum and maximum, a latest value that no other sample
  follows in (time, record id, value) order, the exact observed window, and the mean rounded half up:
  the two \<^verbatim>\<open>long double\<close> roundings never change the integer reported as long as the values sum up to
  less than 2 to the 61.
\<close>

theorem CalculateMemorySummary_correct:
  fixes w :: mcp_window
  assumes "length rs \<le> 2 ^ 61" "memory_samples rs \<noteq> []"
  defines "S \<equiv> CalculateMemorySummary rs w"
    and "n \<equiv> length (memory_samples rs)" and "tot \<equiv> sum_list (map (unat \<circ> snd) (memory_samples rs))"
  shows "msd_min_memfree (gms_data S) = Some (Min (snd ` set (memory_samples rs))) \<and>
     msd_max_memfree (gms_data S) = Some (Max (snd ` set (memory_samples rs))) \<and>
     (\<exists>p \<in> set (memory_samples rs). msd_latest_memfree (gms_data S) = Some (snd p) \<and>
        (\<forall>p' \<in> set (memory_samples rs). later_key p' \<le> later_key p)) \<and>
     meta_observedWindow (gms_meta S) =
       observed_of True (Min ((dtp_timestamp \<circ> fst) ` set (memory_samples rs)))
                        (Max ((dtp_timestamp \<circ> fst) ` set (memory_samples rs))) \<and>
     (tot \<le> 2 ^ 61 \<longrightarrow> msd_avg_memfree (gms_data S) = Some (of_nat ((2 * tot + n) div (2 * n))))"
proof -
  define s where "s = fold mem_step rs mem_init"
  have inv: "mem_inv (memory_samples rs) s"
    using CalculateMemorySummary_inv[of rs] assms(1) by (simp add: s_def)
  have n: "0 < n" "n \<le> 2 ^ 61" "mem_Count s = of_nat n"
    using assms(2) length_memory_samples[of rs] assms(1) inv by (auto simp: n_def mem_inv_def)
  then have "mem_Count s > 0"
    by (simp add: word_less_nat_alt unat_of_nat)
  then have S: "gms_data S = (mem_data s)\<lparr>msd_avg_memfree := Some (rounded_average (mem_Sum s) (mem_Count s))\<rparr>"
    "meta_observedWindow (gms_meta S) = mem_observed s"
    by (simp_all add: S_def CalculateMemorySummary_def s_def Let_def)
  have "tot \<le> 2 ^ 61 \<longrightarrow> msd_avg_memfree (gms_data S) = Some (of_nat ((2 * tot + n) div (2 * n)))"
    using rounded_average_exact[OF n(1), of tot] n inv by (simp add: S mem_inv_def tot_def)
  with inv assms(2) show ?thesis
    by (simp add: S mem_inv_def) blast
qed

text \<open>Two samples of 100 and 201 bytes: the mean 150.5 is reported as 151, the later one is the latest.\<close>

definition memory_record :: "string \<Rightarrow> u64 \<Rightarrow> u64 \<Rightarrow> DeviceTimePoint" where
  "memory_record i t v = DeviceTimePoint_init
     \<lparr>dtp_id := i, dtp_timestamp := t, dtp_resource_data := DeviceResourceTimePoint_init\<lparr>res_memory_free := Some v\<rparr>\<rparr>"

theorem CalculateMemorySummary_correct_witness:
  "let S = CalculateMemorySummary [memory_record ''a'' 60 201, memory_record ''b'' 20 100]
       \<lparr>startTime = 0, endTime = 3600, lookbackHours = 1\<rparr>
   in msd_min_memfree (gms_data S) = Some 100 \<and> msd_max_memfree (gms_data S) = Some 201 \<and>
      msd_avg_memfree (gms_data S) = Some 151"
proof -
  let ?rs = "[memory_record ''a'' 60 201, memory_record ''b'' 20 100]"
  have ps: "memory_samples ?rs = [(memory_record ''a'' 60 201, 201), (memory_record ''b'' 20 100, 100)]"
    by (simp add: memory_sample_def memory_record_def DeviceResourceTimePoint_init_def)
  show ?thesis
    using CalculateMemorySummary_correct[of ?rs, where w = "\<lparr>startTime = 0, endTime = 3600, lookbackHours = 1\<rparr>",
        unfolded ps] by (simp add: Let_def)
qed

text \<open>
  with no usable sample the summary has no value and no observed window, and the requested window
  is always the formatted request.
\<close>

theorem CalculateMemorySummary_empty:
  "memory_samples rs = [] \<Longrightarrow>
     CalculateMemorySummary rs w =
       \<lparr>gms_data = MCPMemorySummaryData_init,
        gms_meta = \<lparr>meta_requestedWindow = requested_window w, meta_observedWindow = MCPObservedWindow_init\<rparr>\<rparr>"
  by (simp add: CalculateMemorySummary_def fold_mem_step mem_init_def Let_def)

theorem CalculateMemorySummary_empty_witness:
  "gms_data (CalculateMemorySummary [DeviceTimePoint_init]
     \<lparr>startTime = 0, endTime = 3600, lookbackHours = 1\<rparr>) = MCPMemorySummaryData_init"
  using CalculateMemorySummary_empty[of "[DeviceTimePoint_init]" "\<lparr>startTime = 0, endTime = 3600, lookbackHours = 1\<rparr>"]
  by (simp add: memory_sample_def DeviceTimePoint_init_def DeviceResourceTimePoint_init_def)

end
