(* ===== verification/McpTemperature.thy ===== *)
theory McpTemperature
  imports McpWindow
begin

text \<open>
  \<^verbatim>\<open>CalculateRadioTemperatureSummary\<close>: per-band minimum, maximum, latest and mean radio temperature of
  the records inside the requested half-open window.  \<open>BandStats\<close> and \<open>AddSample\<close> are the local struct
  and lambda of the function, \<open>temp_state\<close> its remaining local variables.
\<close>

record BandStats =
  bs_min :: "fp option"
  bs_max :: "fp option"
  bs_latest :: "fp option"
  bs_latestTimestamp :: u64
  bs_sum :: fp
  bs_count :: u64

definition BandStats_init :: BandStats where
  "BandStats_init = \<lparr>bs_min = None, bs_max = None, bs_latest = None, bs_latestTimestamp = 0,
     bs_sum = Fin 0, bs_count = 0\<rparr>"

definition AddSample :: "fp \<Rightarrow> u64 \<Rightarrow> BandStats \<Rightarrow> BandStats" where
  "AddSample Value Timestamp Stats =
     \<lparr>bs_min = (case bs_min Stats of None \<Rightarrow> Some Value
                | Some m \<Rightarrow> if fp_less Value m then Some Value else Some m),
      bs_max = (case bs_max Stats of None \<Rightarrow> Some Value
                | Some m \<Rightarrow> if fp_less m Value then Some Value else Some m),
      bs_latest = (if bs_latest Stats = None \<or> Timestamp \<ge> bs_latestTimestamp Stats
                   then Some Value else bs_latest Stats),
      bs_latestTimestamp = (if bs_latest Stats = None \<or> Timestamp \<ge> bs_latestTimestamp Stats
                            then Timestamp else bs_latestTimestamp Stats),
      bs_sum = fp_add binary80 (bs_sum Stats) (fp_convert binary80 Value),
      bs_count = bs_count Stats + 1\<rparr>"

record temp_state =
  ts_Band2G :: BandStats
  ts_Band5G :: BandStats
  ts_AnyValidSample :: bool
  ts_ObservedStartTimestamp :: u64
  ts_ObservedEndTimestamp :: u64

definition temp_init :: temp_state where
  "temp_init = \<lparr>ts_Band2G = BandStats_init, ts_Band5G = BandStats_init, ts_AnyValidSample = False,
     ts_ObservedStartTimestamp = 0, ts_ObservedEndTimestamp = 0\<rparr>"

text \<open>The guards of the inner loop: which radios count, and with which value.\<close>

definition radio_value :: "RadioTimePoint \<Rightarrow> fp option" where
  "radio_value Radio =
     (if radio_band Radio \<noteq> 2 \<and> radio_band Radio \<noteq> 5 then None
      else case radio_temperature Radio of
        None \<Rightarrow> None
      | Some Value \<Rightarrow>
          if \<not> fp_isfinite Value then None
          else if fp_less Value (Fin (- 40)) \<or> fp_less (Fin 125) Value then None
          else Some Value)"

definition temp_radio :: "u64 \<Rightarrow> RadioTimePoint \<Rightarrow> temp_state \<times> bool \<Rightarrow> temp_state \<times> bool" where
  "temp_radio Timestamp Radio acc =
     (case acc of (s, RecordContributed) \<Rightarrow>
        (case radio_value Radio of
           None \<Rightarrow> (s, RecordContributed)
         | Some Value \<Rightarrow>
             (if radio_band Radio = 2
              then s\<lparr>ts_Band2G := AddSample Value Timestamp (ts_Band2G s)\<rparr>
              else s\<lparr>ts_Band5G := AddSample Value Timestamp (ts_Band5G s)\<rparr>, True)))"

definition temp_mark :: "u64 \<times> u64 \<Rightarrow> temp_state \<Rightarrow> temp_state" where
  "temp_mark seg s =
     (if \<not> ts_AnyValidSample s
      then s\<lparr>ts_ObservedStartTimestamp := fst seg, ts_ObservedEndTimestamp := snd seg,
             ts_AnyValidSample := True\<rparr>
      else s\<lparr>ts_ObservedStartTimestamp := min (ts_ObservedStartTimestamp s) (fst seg),
             ts_ObservedEndTimestamp := max (ts_ObservedEndTimestamp s) (snd seg)\<rparr>)"

definition temp_record :: "mcp_window \<Rightarrow> DeviceTimePoint \<Rightarrow> temp_state \<Rightarrow> temp_state" where
  "temp_record Requested Record s =
     (if \<not> TimestampInHalfOpenWindow (dtp_timestamp Record) Requested then s
      else case fold (temp_radio (dtp_timestamp Record)) (dtp_radio_data Record) (s, False) of
        (s', RecordContributed) \<Rightarrow>
          if RecordContributed then temp_mark (dtp_timestamp Record, dtp_timestamp Record) s' else s')"

definition band_average :: "BandStats \<Rightarrow> fp" where
  "band_average Stats =
     fp_convert binary64 (fp_div binary80 (bs_sum Stats) (fp_of_nat binary80 (unat (bs_count Stats))))"

definition CalculateRadioTemperatureSummary ::
  "DeviceTimePoint list \<Rightarrow> mcp_window \<Rightarrow> MCPGatewayWifiTemperatureSummary" where
  "CalculateRadioTemperatureSummary Records Requested =
     (let s = fold (temp_record Requested) Records temp_init;
          d0 = MCPGatewayWifiTemperatureSummaryData_init;
          d1 = (if bs_count (ts_Band2G s) > 0
                then d0\<lparr>wtd_min_wifi_temp_2_4G := bs_min (ts_Band2G s),
                        wtd_max_wifi_temp_2_4G := bs_max (ts_Band2G s),
                        wtd_avg_wifi_temp_2_4G := Some (band_average (ts_Band2G s)),
                        wtd_latest_wifi_temp_2_4G := bs_latest (ts_Band2G s)\<rparr>
                else d0);
          d2 = (if bs_count (ts_Band5G s) > 0
                then d1\<lparr>wtd_min_wifi_temp_5G := bs_min (ts_Band5G s),
                        wtd_max_wifi_temp_5G := bs_max (ts_Band5G s),
                        wtd_avg_wifi_temp_5G := Some (band_average (ts_Band5G s)),
                        wtd_latest_wifi_temp_5G := bs_latest (ts_Band5G s)\<rparr>
                else d1)
      in \<lparr>gwt_data = d2,
          gwt_meta = \<lparr>meta_requestedWindow = requested_window Requested,
                       meta_observedWindow = observed_of (ts_AnyValidSample s)
                         (ts_ObservedStartTimestamp s) (ts_ObservedEndTimestamp s)\<rparr>\<rparr>)"

interpretation temp_window: obs_window ts_AnyValidSample ts_ObservedStartTimestamp
  ts_ObservedEndTimestamp temp_mark
  by unfold_locales (auto simp: temp_mark_def)

subsection \<open>One band\<close>

text \<open>The samples of a band are (timestamp, value) pairs in the order of the records.\<close>

definition add_samples :: "(u64 \<times> rat) list \<Rightarrow> BandStats \<Rightarrow> BandStats" where
  "add_samples ps = fold (\<lambda>(t, v). AddSample (Fin v) t) ps"

definition latest_sample :: "(u64 \<times> rat) list \<Rightarrow> u64 \<times> rat \<Rightarrow> bool" where
  "latest_sample ps p \<longleftrightarrow>
     (\<exists>as bs. ps = as @ p # bs \<and> (\<forall>q \<in> set as. fst q \<le> fst p) \<and> (\<forall>q \<in> set bs. fst q < fst p))"

lemma latest_sample_single: "latest_sample [p] p"
  unfolding latest_sample_def by (rule exI[of _ "[]"], rule exI[of _ "[]"]) simp

lemma latest_sample_snoc:
  assumes "latest_sample ps p"
  shows "latest_sample (ps @ [q]) (if fst q \<ge> fst p then q else p)"
proof -
  obtain as bs where ps: "ps = as @ p # bs" "\<forall>q \<in> set as. fst q \<le> fst p" "\<forall>q \<in> set bs. fst q < fst p"
    using assms by (auto simp: latest_sample_def)
  show ?thesis
  proof (cases "fst q \<ge> fst p")
    case True
    with ps have "\<forall>x \<in> set ps. fst x \<le> fst q" by auto
    with True show ?thesis by (auto simp: latest_sample_def intro: exI[of _ ps])
  next
    case False
    with ps have "ps @ [q] = as @ p # (bs @ [q])" "\<forall>x \<in> set (bs @ [q]). fst x < fst p" by auto
    with ps(2) have "latest_sample (ps @ [q]) p" unfolding latest_sample_def by blast
    with False show ?thesis by simp
  qed
qed

definition band_inv :: "(u64 \<times> rat) list \<Rightarrow> BandStats \<Rightarrow> bool" where
  "band_inv ps b \<longleftrightarrow>
     bs_count b = of_nat (length ps) \<and>
     (ps = [] \<longrightarrow> b = BandStats_init) \<and>
     (ps \<noteq> [] \<longrightarrow> bs_min b = Some (Fin (Min (snd ` set ps))) \<and> bs_max b = Some (Fin (Max (snd ` set ps))) \<and>
        (\<exists>p. latest_sample ps p \<and> bs_latest b = Some (Fin (snd p)) \<and> bs_latestTimestamp b = fst p))"

lemma AddSample_inv:
  assumes "band_inv ps b"
  shows "band_inv (ps @ [(t, v)]) (AddSample (Fin v) t b)"
proof (cases "ps = []")
  case True
  with assms show ?thesis
    using latest_sample_single[of "(t, v)"] by (auto simp: band_inv_def AddSample_def BandStats_init_def)
next
  case False
  with assms obtain p where p: "latest_sample ps p" "bs_latest b = Some (Fin (snd p))" "bs_latestTimestamp b = fst p"
    and minmax: "bs_min b = Some (Fin (Min (snd ` set ps)))" "bs_max b = Some (Fin (Max (snd ` set ps)))"
    by (auto simp: band_inv_def)
  have "\<exists>q. latest_sample (ps @ [(t, v)]) q \<and> bs_latest (AddSample (Fin v) t b) = Some (Fin (snd q)) \<and>
      bs_latestTimestamp (AddSample (Fin v) t b) = fst q"
    using latest_sample_snoc[OF p(1), of "(t, v)"] p(2,3)
    by (intro exI[of _ "if t \<ge> fst p then (t, v) else p"]) (auto simp: AddSample_def)
  moreover define lo hi where "lo = Min (snd ` set ps)" and "hi = Max (snd ` set ps)"
  have "Min (snd ` set (ps @ [(t, v)])) = (if v < lo then v else lo)"
    "Max (snd ` set (ps @ [(t, v)])) = (if hi < v then v else hi)"
  proof -
    have "Min (snd ` set (ps @ [(t, v)])) = min lo v" "Max (snd ` set (ps @ [(t, v)])) = max hi v"
      using False by (simp_all add: lo_def hi_def min.commute max.commute)
    then show "Min (snd ` set (ps @ [(t, v)])) = (if v < lo then v else lo)"
      "Max (snd ` set (ps @ [(t, v)])) = (if hi < v then v else hi)"
      by (simp_all only: min_max_strict)
  qed
  moreover have "bs_min (AddSample (Fin v) t b) = Some (Fin (if v < lo then v else lo))"
    "bs_max (AddSample (Fin v) t b) = Some (Fin (if hi < v then v else hi))"
    by (simp_all add: AddSample_def minmax flip: lo_def hi_def)
  moreover have "bs_count (AddSample (Fin v) t b) = of_nat (length (ps @ [(t, v)]))"
    using assms by (simp add: band_inv_def AddSample_def)
  ultimately show ?thesis by (simp add: band_inv_def del: set_append)
qed

lemma add_samples_inv:
  assumes "band_inv qs b"
  shows "band_inv (qs @ ps) (add_samples ps b)"
  using assms
proof (induction ps arbitrary: qs b)
  case (Cons p ps)
  then show ?case
    using Cons.IH[of "qs @ [p]" "AddSample (Fin (snd p)) (fst p) b"] AddSample_inv[of qs b "fst p" "snd p"]
    by (simp add: add_samples_def case_prod_beta)
qed (simp add: add_samples_def)

lemma add_samples_snoc: "add_samples (ps @ [(t, v)]) b = AddSample (Fin v) t (add_samples ps b)"
  by (simp add: add_samples_def)

definition in_range :: "(u64 \<times> rat) list \<Rightarrow> bool" where
  "in_range ps \<longleftrightarrow> list_all (\<lambda>p. - 40 \<le> snd p \<and> snd p \<le> 125 \<and> fp_rnd binary80 (snd p) = snd p) ps"

text \<open>The running sum stays between -40 and 125 times the count: no rounding leaves the interval.\<close>

lemma long_double_small:
  assumes "\<bar>x\<bar> \<le> 2 ^ 64"
  shows "fp_round binary80 x = Fin (fp_rnd binary80 x)"
proof -
  have "(2 :: rat) ^ 64 = 2 powi 64" by (simp only: power_int_numeral)
  with assms show ?thesis by (intro long_double_round_bounded(1)[of _ 64]) simp_all
qed

lemma band_sum:
  assumes "in_range ps" "length ps * 125 \<le> 2 ^ 63"
  shows "bs_sum (add_samples ps BandStats_init) = Fin (long_double.fl_sum (map snd ps))"
  using assms
proof (induction ps rule: rev_induct)
  case Nil
  then show ?case by (simp add: add_samples_def BandStats_init_def long_double.fl_sum_def)
next
  case (snoc p ps)
  obtain t v where p: "p = (t, v)" by (cases p)
  have r: "in_range ps" "length ps * 125 \<le> 2 ^ 63" and v: "- 40 \<le> v" "v \<le> 125" "fp_rnd binary80 v = v"
    using snoc.prems by (auto simp: in_range_def p)
  define S where "S = long_double.fl_sum (map snd ps)"
  have "int (length ps) * 125 \<le> 2 ^ 63"
    using r(2) of_nat_le_iff[of "length ps * 125" "2 ^ 63", where 'a = int] by simp
  then have len: "int (length (map snd ps)) * \<bar>- 40\<bar> \<le> 2 ^ 64" "int (length (map snd ps)) * \<bar>125\<bar> \<le> 2 ^ 64"
    by simp_all
  have "\<forall>v \<in> set (map snd ps). of_int (- 40) \<le> v \<and> v \<le> of_int 125"
    using r(1) by (auto simp: in_range_def list_all_iff)
  from long_double.fl_sum_bounds[OF this len]
  have S: "- 40 * rat_of_nat (length ps) \<le> S" "S \<le> 125 * rat_of_nat (length ps)"
    by (simp_all add: S_def mult.commute)
  have "rat_of_nat (length ps * 125) \<le> rat_of_nat (2 ^ 63)" using r(2) by (simp only: of_nat_le_iff)
  then have "rat_of_nat (length ps) * 125 \<le> 2 ^ 63" by simp
  with S v have "\<bar>S + v\<bar> \<le> 2 ^ 64" by (simp add: abs_le_iff)
  from long_double_small[OF this] have sv: "fp_round binary80 (S + v) = Fin (fp_rnd binary80 (S + v))" .
  have "fp_round binary80 v = Fin v"
    using v long_double_small[of v] by (simp add: abs_le_iff)
  with sv show ?case
    using snoc.IH[OF r] long_double.fl_sum_snoc[of "map snd ps" v]
    by (simp add: p add_samples_snoc AddSample_def S_def)
qed

lemma band_average_range:
  assumes "in_range ps" "ps \<noteq> []" "length ps * 125 \<le> 2 ^ 63"
  shows "\<exists>a. band_average (add_samples ps BandStats_init) = Fin a \<and> - 40 \<le> a \<and> a \<le> 125"
proof -
  define n where "n = length ps"
  have count: "bs_count (add_samples ps BandStats_init) = of_nat n"
    using add_samples_inv[of "[]" BandStats_init ps] by (simp add: band_inv_def BandStats_init_def n_def)
  have n: "n \<le> 2 ^ 64" "0 < n" "unat (of_nat n :: u64) = n"
    using assms(2,3) by (auto simp: n_def unat_of_nat)
  define m where "m = fp_rnd binary80 (long_double.fl_sum (map snd ps) / of_nat n)"
  have "int (length ps) * 125 \<le> 2 ^ 63"
    using assms(3) of_nat_le_iff[of "length ps * 125" "2 ^ 63", where 'a = int] by simp
  then have len: "int (length (map snd ps)) * \<bar>- 40\<bar> \<le> 2 ^ 64" "int (length (map snd ps)) * \<bar>125\<bar> \<le> 2 ^ 64"
    by simp_all
  have "\<forall>v \<in> set (map snd ps). of_int (- 40) \<le> v \<and> v \<le> of_int 125"
    using assms(1) by (auto simp: in_range_def list_all_iff)
  note bounds = long_double.fl_mean_bounds[OF this _ len] long_double.fl_sum_bounds[OF this len]
  have m: "- 40 \<le> m" "m \<le> 125" using bounds(1,2) assms(2) by (simp_all add: m_def n_def)
  have "- 40 \<le> long_double.fl_sum (map snd ps) / of_nat n" "long_double.fl_sum (map snd ps) / of_nat n \<le> 125"
    using bounds(3) n(2) by (simp_all add: n_def field_simps)
  then have "fp_round binary80 (long_double.fl_sum (map snd ps) / of_nat n) = Fin m"
    unfolding m_def by (intro long_double_small) (simp add: abs_le_iff)
  moreover have "fp_of_nat binary80 n = Fin (of_nat n)"
  proof -
    have "rat_of_nat n \<le> rat_of_nat (2 ^ 64)" using n(1) by (simp only: of_nat_le_iff)
    then show ?thesis
      using long_double_small[of "of_nat n"] long_double.fl_nat[OF n(1)] by (simp add: fp_of_nat_def)
  qed
  moreover have "fp_round binary64 m = Fin (fp_rnd binary64 m)"
  proof -
    have "(2 :: rat) powi 10 = 1024" by simp
    with m show ?thesis by (intro double_round_bounded(1)[of _ 10]) (simp_all add: abs_le_iff)
  qed
  moreover have "- 40 \<le> fp_rnd binary64 m" "fp_rnd binary64 m \<le> 125"
    using double.fl_bounds[of "- 40" 125 m] m double.fl_int[of "- 40"] double.fl_int[of 125] by simp_all
  ultimately show ?thesis
    using n(2) by (simp add: band_average_def band_sum[OF assms(1,3)] count n(3))
qed

subsection \<open>The loop over the records\<close>

text \<open>The samples of one band among some radios, and over all records of the window.\<close>

definition radio_samples :: "u64 \<Rightarrow> u64 \<Rightarrow> RadioTimePoint list \<Rightarrow> (u64 \<times> rat) list" where
  "radio_samples b t radios =
     List.map_filter (\<lambda>r. if radio_band r = b then case radio_value r of Some (Fin x) \<Rightarrow> Some (t, x) | _ \<Rightarrow> None
                          else None) radios"

definition in_window :: "mcp_window \<Rightarrow> DeviceTimePoint list \<Rightarrow> DeviceTimePoint list" where
  "in_window w rs = filter (\<lambda>r. TimestampInHalfOpenWindow (dtp_timestamp r) w) rs"

definition band_samples :: "mcp_window \<Rightarrow> u64 \<Rightarrow> DeviceTimePoint list \<Rightarrow> (u64 \<times> rat) list" where
  "band_samples w b rs = concat (map (\<lambda>r. radio_samples b (dtp_timestamp r) (dtp_radio_data r)) (in_window w rs))"

definition contributing :: "mcp_window \<Rightarrow> DeviceTimePoint list \<Rightarrow> u64 list" where
  "contributing w rs =
     map dtp_timestamp (filter (\<lambda>r. list_ex (\<lambda>d. radio_value d \<noteq> None) (dtp_radio_data r)) (in_window w rs))"

lemma radio_samples_simps [simp]:
  "radio_samples b t [] = []"
  "radio_samples b t (r # rs) =
     (if radio_band r = b then case radio_value r of Some (Fin x) \<Rightarrow> (t, x) # radio_samples b t rs
        | _ \<Rightarrow> radio_samples b t rs
      else radio_samples b t rs)"
  by (auto simp: radio_samples_def List.map_filter_simps split: option.split fp.split)

lemma radio_value_Some:
  "radio_value r = Some v \<Longrightarrow> radio_band r \<in> {2, 5} \<and> radio_temperature r = Some v \<and>
     (\<exists>x. v = Fin x \<and> - 40 \<le> x \<and> x \<le> 125)"
  by (auto simp: radio_value_def fp_isfinite_def not_less split: if_splits option.splits fp.splits)

lemma fold_temp_radio:
  "fold (temp_radio t) radios (s, c) =
     (s\<lparr>ts_Band2G := add_samples (radio_samples 2 t radios) (ts_Band2G s),
        ts_Band5G := add_samples (radio_samples 5 t radios) (ts_Band5G s)\<rparr>,
      c \<or> list_ex (\<lambda>d. radio_value d \<noteq> None) radios)"
proof (induction radios arbitrary: s c)
  case (Cons r radios)
  show ?case
  proof (cases "radio_value r")
    case None
    then have "temp_radio t r (s, c) = (s, c)" by (simp add: temp_radio_def)
    with None show ?thesis by (simp add: Cons.IH)
  next
    case (Some v)
    with radio_value_Some[OF Some] obtain x where "v = Fin x" "radio_band r \<in> {2, 5}" by blast
    moreover from this Some have "temp_radio t r (s, c) =
        (if radio_band r = 2 then s\<lparr>ts_Band2G := AddSample (Fin x) t (ts_Band2G s)\<rparr>
         else s\<lparr>ts_Band5G := AddSample (Fin x) t (ts_Band5G s)\<rparr>, True)"
      by (simp add: temp_radio_def)
    ultimately show ?thesis using Some by (auto simp: Cons.IH add_samples_def)
  qed
qed (simp add: add_samples_def)

lemma temp_record_eq:
  "temp_record w r s =
     (let s' = s\<lparr>ts_Band2G := add_samples (band_samples w 2 [r]) (ts_Band2G s),
                ts_Band5G := add_samples (band_samples w 5 [r]) (ts_Band5G s)\<rparr>
      in fold temp_mark (map (\<lambda>t. (t, t)) (contributing w [r])) s')"
  by (auto simp: temp_record_def fold_temp_radio band_samples_def contributing_def in_window_def
      add_samples_def Let_def)

lemma fold_temp_mark_bands [simp]:
  "ts_Band2G (fold temp_mark segs s) = ts_Band2G s" "ts_Band5G (fold temp_mark segs s) = ts_Band5G s"
  by (induction segs arbitrary: s) (auto simp: temp_mark_def)

lemma temp_mark_commute:
  "temp_mark seg (s\<lparr>ts_Band2G := a, ts_Band5G := b\<rparr>) = (temp_mark seg s)\<lparr>ts_Band2G := a, ts_Band5G := b\<rparr>"
  by (simp add: temp_mark_def)

lemma fold_temp_mark_commute:
  "fold temp_mark segs (s\<lparr>ts_Band2G := a, ts_Band5G := b\<rparr>) =
     (fold temp_mark segs s)\<lparr>ts_Band2G := a, ts_Band5G := b\<rparr>"
  by (induction segs arbitrary: s) (simp_all add: temp_mark_commute)

lemma fold_temp_record:
  "fold (temp_record w) rs s =
     (fold temp_mark (map (\<lambda>t. (t, t)) (contributing w rs)) s)
       \<lparr>ts_Band2G := add_samples (band_samples w 2 rs) (ts_Band2G s),
        ts_Band5G := add_samples (band_samples w 5 rs) (ts_Band5G s)\<rparr>"
proof (induction rs arbitrary: s)
  case Nil
  then show ?case by (simp add: contributing_def in_window_def band_samples_def add_samples_def)
next
  case (Cons r rs)
  have split: "band_samples w b (r # rs) = band_samples w b [r] @ band_samples w b rs"
    "contributing w (r # rs) = contributing w [r] @ contributing w rs" for b
    by (simp_all add: band_samples_def contributing_def in_window_def)
  have add: "add_samples (p @ q) b = add_samples q (add_samples p b)" for p q b
    by (simp add: add_samples_def)
  show ?case
    unfolding fold_Cons o_apply Cons.IH
    unfolding temp_record_eq Let_def split add map_append fold_append
    by (simp add: fold_temp_mark_commute)
qed

lemma band_samples_in_range:
  assumes "\<forall>r \<in> set rs. \<forall>d \<in> set (dtp_radio_data r). \<forall>v. radio_temperature d = Some v \<longrightarrow> is_double v"
  shows "in_range (band_samples w b rs)"
proof -
  have "in_range (radio_samples b t radios)"
    if "\<forall>d \<in> set radios. \<forall>v. radio_temperature d = Some v \<longrightarrow> is_double v" for t radios
    using that
  proof (induction radios)
    case (Cons d radios)
    then show ?case
      using radio_value_Some[of d]
      by (auto simp: in_range_def double_is_long_double split: option.splits fp.splits)
  qed (simp add: in_range_def)
  moreover have "in_range (concat xss) \<longleftrightarrow> (\<forall>xs \<in> set xss. in_range xs)" for xss
    by (auto simp: in_range_def list_all_iff)
  ultimately show ?thesis
    using assms by (auto simp: band_samples_def in_window_def)
qed

subsection \<open>The summary\<close>

text \<open>The four fields of a band: minimum, maximum, average, latest.\<close>

definition band_fields ::
  "MCPGatewayWifiTemperatureSummaryData \<Rightarrow> u64 \<Rightarrow> fp option \<times> fp option \<times> fp option \<times> fp option" where
  "band_fields d b =
     (if b = 2 then (wtd_min_wifi_temp_2_4G d, wtd_max_wifi_temp_2_4G d, wtd_avg_wifi_temp_2_4G d,
                     wtd_latest_wifi_temp_2_4G d)
      else (wtd_min_wifi_temp_5G d, wtd_max_wifi_temp_5G d, wtd_avg_wifi_temp_5G d, wtd_latest_wifi_temp_5G d))"

lemma band_fields_summary:
  assumes "b \<in> {2, 5}"
  shows "band_fields (gwt_data (CalculateRadioTemperatureSummary rs w)) b =
     (let st = add_samples (band_samples w b rs) BandStats_init
      in if bs_count st > 0 then (bs_min st, bs_max st, Some (band_average st), bs_latest st)
         else (None, None, None, None))"
  using assms
  by (auto simp: band_fields_def CalculateRadioTemperatureSummary_def fold_temp_record temp_init_def Let_def
      MCPGatewayWifiTemperatureSummaryData_init_def)

text \<open>
  for each band the summary reports the exact minimum and maximum of the in-range finite
  temperatures inside the half-open window, the value of the last record among those with the
  greatest timestamp, and an average that, in spite of the roundings of the running sum, of the
  division and of the conversion to \<^verbatim>\<open>double\<close>, never leaves the accepted range -40 to 125.  A band
  without samples reports nothing.
\<close>

theorem CalculateRadioTemperatureSummary_band:
  fixes w :: mcp_window
  assumes doubles: "\<forall>r \<in> set rs. \<forall>d \<in> set (dtp_radio_data r). \<forall>v. radio_temperature d = Some v \<longrightarrow> is_double v"
    and band: "b \<in> {2, 5}" and len: "length (band_samples w b rs) * 125 \<le> 2 ^ 63"
  defines "ps \<equiv> band_samples w b rs" and "S \<equiv> CalculateRadioTemperatureSummary rs w"
  shows "(ps = [] \<and> band_fields (gwt_data S) b = (None, None, None, None)) \<or>
     (ps \<noteq> [] \<and> (\<exists>p a. latest_sample ps p \<and> - 40 \<le> a \<and> a \<le> 125 \<and>
        band_fields (gwt_data S) b =
          (Some (Fin (Min (snd ` set ps))), Some (Fin (Max (snd ` set ps))), Some (Fin a), Some (Fin (snd p)))))"
proof -
  define st where "st = add_samples ps BandStats_init"
  have inv: "band_inv ps st"
    using add_samples_inv[of "[]" BandStats_init ps] by (simp add: band_inv_def BandStats_init_def st_def)
  have fields: "band_fields (gwt_data S) b =
      (if bs_count st > 0 then (bs_min st, bs_max st, Some (band_average st), bs_latest st)
       else (None, None, None, None))"
    unfolding S_def band_fields_summary[OF band] by (simp add: st_def ps_def Let_def)
  show ?thesis
  proof (cases "ps = []")
    case True
    with inv have "bs_count st = 0" by (simp add: band_inv_def BandStats_init_def)
    with True fields show ?thesis by simp
  next
    case False
    have "length ps < 2 ^ 64" using len by (simp add: ps_def)
    with inv False have "bs_count st > 0" by (simp add: band_inv_def word_less_nat_alt unat_of_nat)
    moreover obtain a where "band_average st = Fin a" "- 40 \<le> a" "a \<le> 125"
      using band_average_range[OF band_samples_in_range[OF doubles], of w b] len False
      by (auto simp: st_def ps_def)
    ultimately show ?thesis
      using inv False fields by (auto simp: band_inv_def)
  qed
qed

definition temperature_record :: "u64 \<Rightarrow> u64 \<Rightarrow> rat \<Rightarrow> DeviceTimePoint" where
  "temperature_record t b x = DeviceTimePoint_init\<lparr>dtp_timestamp := t,
     dtp_radio_data := [RadioTimePoint_init\<lparr>radio_band := b, radio_temperature := Some (Fin x)\<rparr>]\<rparr>"

theorem CalculateRadioTemperatureSummary_band_witness:
  "let S = CalculateRadioTemperatureSummary [temperature_record 10 5 50, temperature_record 20 5 30]
             \<lparr>startTime = 0, endTime = 3600, lookbackHours = 1\<rparr>
   in wtd_min_wifi_temp_5G (gwt_data S) = Some (Fin 30) \<and> wtd_latest_wifi_temp_5G (gwt_data S) = Some (Fin 30) \<and>
      wtd_max_wifi_temp_5G (gwt_data S) = Some (Fin 50)"
proof -
  let ?w = "\<lparr>startTime = 0, endTime = 3600, lookbackHours = 1\<rparr> :: mcp_window"
  let ?rs = "[temperature_record 10 5 50, temperature_record 20 5 30]"
  have ps: "band_samples ?w 5 ?rs = [(10, 50), (20, 30)]"
    by (simp add: band_samples_def in_window_def TimestampInHalfOpenWindow_def temperature_record_def
        DeviceTimePoint_init_def radio_value_def fp_isfinite_def RadioTimePoint_init_def)
  have doubles: "\<forall>r \<in> set ?rs. \<forall>d \<in> set (dtp_radio_data r). \<forall>v. radio_temperature d = Some v \<longrightarrow> is_double v"
    using double.fl_int[of 50] double.fl_int[of 30] by (simp add: temperature_record_def)
  have "latest_sample [(10, 50), (20, 30)] p \<Longrightarrow> p = (20, 30)" for p
    unfolding latest_sample_def by (auto simp: Cons_eq_append_conv)
  with CalculateRadioTemperatureSummary_band[OF doubles, of 5 ?w, unfolded ps] show ?thesis
    by (auto simp: Let_def band_fields_def)
qed

text \<open>
  the observed window spans exactly the records that contributed a temperature, and stays inside
  the requested half-open window; it is absent exactly when no record contributed.
\<close>

theorem CalculateRadioTemperatureSummary_window:
  fixes w :: mcp_window and rs :: "DeviceTimePoint list"
  defines "ts \<equiv> contributing w rs"
  shows "meta_observedWindow (gwt_meta (CalculateRadioTemperatureSummary rs w)) =
      observed_of (ts \<noteq> []) (Min (set ts)) (Max (set ts)) \<and>
    list_all (\<lambda>t. startTime w \<le> t \<and> t < endTime w) ts"
proof -
  define s where "s = fold temp_mark (map (\<lambda>t. (t, t)) ts) temp_init"
  have "meta_observedWindow (gwt_meta (CalculateRadioTemperatureSummary rs w)) =
      observed_of (ts_AnyValidSample s) (ts_ObservedStartTimestamp s) (ts_ObservedEndTimestamp s)"
    by (simp add: CalculateRadioTemperatureSummary_def fold_temp_record Let_def s_def ts_def)
  also have "\<dots> = observed_of (ts \<noteq> []) (Min (set ts)) (Max (set ts))"
  proof (cases "ts = []")
    case True
    then show ?thesis by (simp add: s_def temp_init_def observed_of_def)
  next
    case False
    have img: "fst ` set (map (\<lambda>t. (t, t)) ts) = set ts" "snd ` set (map (\<lambda>t. (t, t)) ts) = set ts"
      by (auto simp: image_iff)
    have "\<not> ts_AnyValidSample temp_init" by (simp add: temp_init_def)
    then show ?thesis
      using temp_window.fold_mark_spans[of temp_init "map (\<lambda>t. (t, t)) ts"]
        temp_window.fold_mark_seen[of "map (\<lambda>t. (t, t)) ts" temp_init] False
      unfolding img by (simp add: s_def)
  qed
  finally show ?thesis
    by (auto simp: ts_def contributing_def in_window_def TimestampInHalfOpenWindow_def list_all_iff)
qed

end
