(* ===== verification/McpMac.thy ===== *)
theory McpMac
  imports CppStd
begin

text \<open>
  \<^verbatim>\<open>NormalizeClientMac\<close>: the canonical form under which the per-client summaries group samples.  Its
  lambdas \<^verbatim>\<open>IsHex\<close>, \<^verbatim>\<open>LowerHex\<close> and \<^verbatim>\<open>AppendHex\<close> are the character functions used below, \<open>mac_Format\<close> is
  \<^verbatim>\<open>Format\<close>, and one function per notation is the loop of that branch.
\<close>

fun mac_Format :: "string \<Rightarrow> string \<Rightarrow> string" where
  "mac_Format Formatted [] = Formatted"
| "mac_Format Formatted [c] = (if Formatted \<noteq> [] then Formatted @ '':'' else Formatted) @ [c]"
| "mac_Format Formatted (c # d # Clean) =
     mac_Format ((if Formatted \<noteq> [] then Formatted @ '':'' else Formatted) @ [c, d]) Clean"

fun mac_separated :: "char \<Rightarrow> nat \<Rightarrow> string \<Rightarrow> string \<Rightarrow> string option" where
  "mac_separated Separator i [] Clean = Some Clean"
| "mac_separated Separator i (c # cs) Clean =
     (if (i + 1) mod 3 = 0
      then if c \<noteq> Separator then None else mac_separated Separator (i + 1) cs Clean
      else if isxdigit c then mac_separated Separator (i + 1) cs (Clean @ [tolower c])
      else None)"

fun mac_dotted :: "nat \<Rightarrow> string \<Rightarrow> string \<Rightarrow> string option" where
  "mac_dotted i [] Clean = Some Clean"
| "mac_dotted i (c # cs) Clean =
     (if i = 4 \<or> i = 9 then mac_dotted (i + 1) cs Clean
      else if \<not> isxdigit c then None
      else mac_dotted (i + 1) cs (Clean @ [tolower c]))"

fun mac_plain :: "string \<Rightarrow> string \<Rightarrow> string option" where
  "mac_plain [] Clean = Some Clean"
| "mac_plain (c # cs) Clean = (if \<not> isxdigit c then None else mac_plain cs (Clean @ [tolower c]))"

definition NormalizeClientMac :: "string \<Rightarrow> string option" where
  "NormalizeClientMac RawMac =
     (if length RawMac = 17 \<and> (RawMac ! 2 = CHR '':'' \<or> RawMac ! 2 = CHR ''-'')
      then map_option (mac_Format []) (mac_separated (RawMac ! 2) 0 RawMac [])
      else if length RawMac = 14 \<and> RawMac ! 4 = CHR ''.'' \<and> RawMac ! 9 = CHR ''.''
      then map_option (mac_Format []) (mac_dotted 0 RawMac [])
      else if length RawMac = 12
      then map_option (mac_Format []) (mac_plain RawMac [])
      else None)"

text \<open>The four ways to write twelve hexadecimal digits, and the canonical one.\<close>

fun by_pairs :: "char \<Rightarrow> string \<Rightarrow> string" where
  "by_pairs sep (a # b # c # cs) = a # b # sep # by_pairs sep (c # cs)"
| "by_pairs sep cs = cs"

definition mac_notations :: "string \<Rightarrow> string list" where
  "mac_notations ds =
     [ds, by_pairs CHR '':'' ds, by_pairs CHR ''-'' ds,
      take 4 ds @ ''.'' @ take 4 (drop 4 ds) @ ''.'' @ drop 8 ds]"

definition mac_canonical :: "string \<Rightarrow> string" where
  "mac_canonical ds = by_pairs CHR '':'' (map tolower ds)"

lemma length_12E:
  assumes "length ds = 12"
  obtains a b c d e f g h i j k l where "ds = [a, b, c, d, e, f, g, h, i, j, k, l]"
  using assms by (auto simp: eval_nat_numeral length_Suc_conv)

lemma NormalizeClientMac_notations:
  assumes "length ds = 12" "list_all isxdigit ds" "m \<in> set (mac_notations ds)"
  shows "NormalizeClientMac m = Some (mac_canonical ds)"
proof -
  obtain a b c d e f g h i j k l where ds: "ds = [a, b, c, d, e, f, g, h, i, j, k, l]"
    using assms(1) by (rule length_12E)
  show ?thesis
    using assms(2,3)
    by (auto simp: ds mac_notations_def NormalizeClientMac_def mac_canonical_def)
qed

lemma mac_separated_17:
  assumes "length m = 17" "mac_separated (m ! 2) 0 m [] = Some clean"
  obtains ds where "length ds = 12" "list_all isxdigit ds" "m = by_pairs (m ! 2) ds" "clean = map tolower ds"
proof -
  obtain a b s1 c d s2 e f s3 g h s4 i j s5 k l where
    m: "m = [a, b, s1, c, d, s2, e, f, s3, g, h, s4, i, j, s5, k, l]"
    using assms(1) by (auto simp: eval_nat_numeral length_Suc_conv)
  show thesis
    using assms(2) by (intro that[of "[a, b, c, d, e, f, g, h, i, j, k, l]"]) (auto simp: m split: if_splits)
qed

lemma mac_dotted_14:
  assumes "length m = 14" "m ! 4 = CHR ''.''" "m ! 9 = CHR ''.''" "mac_dotted 0 m [] = Some clean"
  obtains ds where "length ds = 12" "list_all isxdigit ds"
    "m = take 4 ds @ ''.'' @ take 4 (drop 4 ds) @ ''.'' @ drop 8 ds" "clean = map tolower ds"
proof -
  obtain a b c d s1 e f g h s2 i j k l where m: "m = [a, b, c, d, s1, e, f, g, h, s2, i, j, k, l]"
    using assms(1) by (auto simp: eval_nat_numeral length_Suc_conv)
  show thesis
    using assms(2-4) by (intro that[of "[a, b, c, d, e, f, g, h, i, j, k, l]"]) (auto simp: m split: if_splits)
qed

lemma mac_plain_Some: "mac_plain s acc = Some clean \<longleftrightarrow> list_all isxdigit s \<and> clean = acc @ map tolower s"
  by (induction s arbitrary: acc) auto

lemma mac_Format_12: "length ds = 12 \<Longrightarrow> mac_Format [] (map tolower ds) = mac_canonical ds"
  by (erule length_12E) (simp add: mac_canonical_def)

lemma NormalizeClientMac_Some:
  assumes "NormalizeClientMac m = Some n"
  obtains ds where "length ds = 12" "list_all isxdigit ds" "m \<in> set (mac_notations ds)" "n = mac_canonical ds"
proof -
  consider (sep) "length m = 17" "m ! 2 = CHR '':'' \<or> m ! 2 = CHR ''-''"
    | (dot) "length m = 14" "m ! 4 = CHR ''.''" "m ! 9 = CHR ''.''" | (plain) "length m = 12"
    using assms by (auto simp: NormalizeClientMac_def split: if_splits)
  then show thesis
  proof cases
    case sep
    with assms obtain clean where c: "mac_separated (m ! 2) 0 m [] = Some clean" "n = mac_Format [] clean"
      by (auto simp: NormalizeClientMac_def)
    obtain ds where "length ds = 12" "list_all isxdigit ds" "m = by_pairs (m ! 2) ds" "clean = map tolower ds"
      using sep(1) c(1) by (rule mac_separated_17)
    with sep(2) c(2) show thesis
      by (intro that[of ds]) (auto simp: mac_notations_def mac_Format_12)
  next
    case dot
    with assms obtain clean where c: "mac_dotted 0 m [] = Some clean" "n = mac_Format [] clean"
      by (auto simp: NormalizeClientMac_def)
    from dot c(1) obtain ds where "length ds = 12" "list_all isxdigit ds"
      "m = take 4 ds @ ''.'' @ take 4 (drop 4 ds) @ ''.'' @ drop 8 ds" "clean = map tolower ds"
      by (rule mac_dotted_14)
    with c(2) show thesis
      by (intro that[of ds]) (auto simp: mac_notations_def mac_Format_12)
  next
    case plain
    with assms show thesis
      by (intro that[of m]) (auto simp: NormalizeClientMac_def mac_plain_Some mac_notations_def mac_Format_12)
  qed
qed

text \<open>
  \<^verbatim>\<open>NormalizeClientMac\<close> accepts exactly twelve hexadecimal digits in plain, colon, hyphen or
  dotted notation, and maps every notation of the same digits, in either case, to the same lower-case
  colon form.
\<close>

theorem NormalizeClientMac_iff:
  "NormalizeClientMac m = Some n \<longleftrightarrow>
     (\<exists>ds. length ds = 12 \<and> list_all isxdigit ds \<and> m \<in> set (mac_notations ds) \<and> n = mac_canonical ds)"
  by (metis NormalizeClientMac_Some NormalizeClientMac_notations)

lemma NormalizeClientMac_idem:
  assumes "NormalizeClientMac m = Some n"
  shows "NormalizeClientMac n = Some n"
proof -
  obtain ds where ds: "length ds = 12" "list_all isxdigit ds" "n = mac_canonical ds"
    using assms by (rule NormalizeClientMac_Some)
  have "n \<in> set (mac_notations (map tolower ds))"
    by (simp add: ds(3) mac_canonical_def mac_notations_def)
  moreover have "list_all isxdigit (map tolower ds)" using ds(2) by (simp add: list_all_iff)
  ultimately have "NormalizeClientMac n = Some (mac_canonical (map tolower ds))"
    using ds(1) by (intro NormalizeClientMac_notations) simp_all
  also have "mac_canonical (map tolower ds) = n"
    by (simp add: ds(3) mac_canonical_def o_def)
  finally show ?thesis .
qed

end
