(* ===== verification/McpBandwidth.thy ===== *)
theory McpBandwidth
  imports McpWindow McpMac
begin

text \<open>
  \<^verbatim>\<open>CalculateBandwidthConsumptionSummary\<close>: how many bytes each client moved inside the window, from the
  byte counters of its associations.  Samples are grouped into streams (client, BSSID, SSID, band),
  sorted, cleared of duplicates and of conflicting readings of one instant, and the increases between
  consecutive readings that touch the window are added up, saturating; a counter that goes down starts
  anew.  \<^verbatim>\<open>fmt::format("{:.2f}", x)\<close> is library code: the parameter \<open>fmtMB\<close>.
\<close>

text \<open>The local \<^verbatim>\<open>Sample\<close> as a tuple (timestamp, id, rx, tx, inWindow), \<^verbatim>\<open>StreamKey\<close> as (mac, bssid, ssid, band).\<close>

type_synonym Sample = "u64 \<times> string \<times> u64 option \<times> u64 option \<times> bool"
type_synonym StreamKey = "string \<times> string \<times> string \<times> u64"

abbreviation smp_timestamp :: "Sample \<Rightarrow> u64" where "smp_timestamp s \<equiv> fst s"
abbreviation smp_rx :: "Sample \<Rightarrow> u64 option" where "smp_rx s \<equiv> fst (snd (snd s))"
abbreviation smp_tx :: "Sample \<Rightarrow> u64 option" where "smp_tx s \<equiv> fst (snd (snd (snd s)))"
abbreviation smp_inWindow :: "Sample \<Rightarrow> bool" where "smp_inWindow s \<equiv> snd (snd (snd (snd s)))"

record CounterSample =
  cs_timestamp :: u64
  cs_value :: u64
  cs_inWindow :: bool

record ClientTotals =
  ct_rx :: u64
  ct_tx :: u64
  ct_hasInWindowObservation :: bool
  ct_hasCalculableSegment :: bool
  ct_observedStart :: u64
  ct_observedEnd :: u64

definition ClientTotals_init :: ClientTotals where
  "ClientTotals_init = \<lparr>ct_rx = 0, ct_tx = 0, ct_hasInWindowObservation = False,
     ct_hasCalculableSegment = False, ct_observedStart = 0, ct_observedEnd = 0\<rparr>"

definition FormatDecimalMB :: "(fp \<Rightarrow> string) \<Rightarrow> u64 \<Rightarrow> string" where
  "FormatDecimalMB fmtMB Bytes =
     fmtMB (fp_div binary64 (fp_of_nat binary64 (unat Bytes)) (Fin 1000000)) @ '' MB''"

text \<open>The loops that fill \<^verbatim>\<open>Streams\<close>: the entry of one association of one SSID of one record.\<close>

definition stream_entry ::
  "mcp_window \<Rightarrow> DeviceTimePoint \<Rightarrow> SSIDTimePoint \<Rightarrow> UETimePoint \<Rightarrow> (StreamKey \<times> Sample) option" where
  "stream_entry Requested Record SSID Assoc =
     (case NormalizeClientMac (ue_station Assoc) of
        None \<Rightarrow> None
      | Some Mac \<Rightarrow>
          Some ((Mac, ssidtp_bssid SSID, ssidtp_ssid SSID, ssidtp_band SSID),
                (dtp_timestamp Record, dtp_id Record,
                 if ue_rx_bytes_present Assoc then Some (ue_rx_bytes Assoc) else None,
                 if ue_tx_bytes_present Assoc then Some (ue_tx_bytes Assoc) else None,
                 TimestampInHalfOpenWindow (dtp_timestamp Record) Requested)))"

definition stream_entries :: "mcp_window \<Rightarrow> DeviceTimePoint list \<Rightarrow> (StreamKey \<times> Sample) list" where
  "stream_entries Requested Records =
     concat (map (\<lambda>Record. concat (map (\<lambda>SSID.
       List.map_filter (stream_entry Requested Record SSID) (ssidtp_associations SSID))
         (dtp_ssid_data Record))) Records)"

definition push_sample ::
  "StreamKey \<times> Sample \<Rightarrow> (StreamKey, Sample list) omap \<Rightarrow> (StreamKey, Sample list) omap" where
  "push_sample e Streams = omap_set (fst e) (omap_get_or [] (fst e) Streams @ [snd e]) Streams"

definition build_streams :: "mcp_window \<Rightarrow> DeviceTimePoint list \<Rightarrow> (StreamKey, Sample list) omap" where
  "build_streams Requested Records = fold push_sample (stream_entries Requested Records) []"

definition sample_less :: "Sample \<Rightarrow> Sample \<Rightarrow> bool" where
  "sample_less A B \<longleftrightarrow>
     (fst A, fst (snd A), smp_rx A, smp_tx A) < (fst B, fst (snd B), smp_rx B, smp_tx B)"

text \<open>The de-duplication loop: one sample per timestamp, none where the readings conflict.\<close>

function dedupe :: "Sample list \<Rightarrow> Sample list" where
  "dedupe [] = []"
| "dedupe (s # Samples) =
     (let same = takeWhile (\<lambda>x. smp_timestamp x = smp_timestamp s) Samples;
          rest = dropWhile (\<lambda>x. smp_timestamp x = smp_timestamp s) Samples;
          Conflict = list_ex (\<lambda>x. smp_rx x \<noteq> smp_rx s \<or> smp_tx x \<noteq> smp_tx s) same
      in if Conflict then dedupe rest else s # dedupe rest)"
  by pat_completeness auto

termination
  by (relation "measure length") (auto simp: le_imp_less_Suc length_dropWhile_le)

definition MarkObservedSegment :: "u64 \<times> u64 \<Rightarrow> ClientTotals \<Rightarrow> ClientTotals" where
  "MarkObservedSegment seg Totals =
     (if \<not> ct_hasCalculableSegment Totals
      then Totals\<lparr>ct_observedStart := fst seg, ct_observedEnd := snd seg, ct_hasCalculableSegment := True\<rparr>
      else Totals\<lparr>ct_observedStart := min (ct_observedStart Totals) (fst seg),
                  ct_observedEnd := max (ct_observedEnd Totals) (snd seg)\<rparr>)"

text \<open>\<^verbatim>\<open>ApplyCounterSample\<close>; \<open>get\<close> and \<open>put\<close> are the counter it is handed a reference to.\<close>

definition ApplyCounterSample ::
  "(ClientTotals \<Rightarrow> u64) \<Rightarrow> (u64 \<Rightarrow> ClientTotals \<Rightarrow> ClientTotals) \<Rightarrow> Sample \<Rightarrow> u64 option \<Rightarrow>
   CounterSample option \<times> ClientTotals \<Rightarrow> CounterSample option \<times> ClientTotals" where
  "ApplyCounterSample get put Current CurrentValue acc =
     (case acc of (Previous, Totals) \<Rightarrow>
        (case CurrentValue of
           None \<Rightarrow> (Previous, Totals)
         | Some v \<Rightarrow>
             (let CurrentCounter = \<lparr>cs_timestamp = smp_timestamp Current, cs_value = v,
                                    cs_inWindow = smp_inWindow Current\<rparr>
              in case Previous of
                   None \<Rightarrow> (Some CurrentCounter, Totals)
                 | Some Prev \<Rightarrow>
                     (Some CurrentCounter,
                      if (cs_inWindow Prev \<or> cs_inWindow CurrentCounter)
                         \<and> cs_value CurrentCounter \<ge> cs_value Prev
                      then MarkObservedSegment (cs_timestamp Prev, cs_timestamp CurrentCounter)
                             (put (SaturatingAdd (get Totals) (cs_value CurrentCounter - cs_value Prev)) Totals)
                      else Totals))))"

definition put_rx :: "u64 \<Rightarrow> ClientTotals \<Rightarrow> ClientTotals" where "put_rx v t = t\<lparr>ct_rx := v\<rparr>"
definition put_tx :: "u64 \<Rightarrow> ClientTotals \<Rightarrow> ClientTotals" where "put_tx v t = t\<lparr>ct_tx := v\<rparr>"

definition apply_sample ::
  "Sample \<Rightarrow> CounterSample option \<times> CounterSample option \<times> ClientTotals
    \<Rightarrow> CounterSample option \<times> CounterSample option \<times> ClientTotals" where
  "apply_sample Current acc =
     (case acc of (PreviousRx, PreviousTx, Totals) \<Rightarrow>
        (case ApplyCounterSample ct_rx put_rx Current (smp_rx Current) (PreviousRx, Totals) of
           (PreviousRx', Totals1) \<Rightarrow>
             (case ApplyCounterSample ct_tx put_tx Current (smp_tx Current) (PreviousTx, Totals1) of
                (PreviousTx', Totals2) \<Rightarrow> (PreviousRx', PreviousTx', Totals2))))"

text \<open>The body of the loop over the streams.\<close>

definition stream_totals :: "Sample list \<Rightarrow> ClientTotals \<Rightarrow> ClientTotals" where
  "stream_totals Samples Totals =
     (let Deduped = dedupe (std_sort sample_less Samples);
          Totals1 = (if list_ex smp_inWindow Deduped then Totals\<lparr>ct_hasInWindowObservation := True\<rparr> else Totals)
      in if length Deduped < 2 then Totals1
         else snd (snd (fold apply_sample Deduped (None, None, Totals1))))"

definition add_stream ::
  "StreamKey \<times> Sample list \<Rightarrow> (string, ClientTotals) omap \<Rightarrow> (string, ClientTotals) omap" where
  "add_stream e TotalsByMac =
     omap_set (fst (fst e)) (stream_totals (snd e) (omap_get_or ClientTotals_init (fst (fst e)) TotalsByMac))
       TotalsByMac"

definition totals_by_mac :: "(StreamKey, Sample list) omap \<Rightarrow> (string, ClientTotals) omap" where
  "totals_by_mac Streams = fold add_stream Streams []"

definition usage_item :: "(fp \<Rightarrow> string) \<Rightarrow> string \<Rightarrow> ClientTotals \<Rightarrow> MCPClientUsageItem" where
  "usage_item fmtMB Mac Totals =
     (let tot = SaturatingAdd (ct_rx Totals) (ct_tx Totals)
      in \<lparr>cui_mac = Mac, cui_rx_bytes = ct_rx Totals, cui_tx_bytes = ct_tx Totals, cui_total_bytes = tot,
          cui_data_consume_rx = FormatDecimalMB fmtMB (ct_rx Totals),
          cui_data_consume_tx = FormatDecimalMB fmtMB (ct_tx Totals),
          cui_total_data_usage = FormatDecimalMB fmtMB tot\<rparr>)"

definition usage_before :: "MCPClientUsageItem \<Rightarrow> MCPClientUsageItem \<Rightarrow> bool" where
  "usage_before A B \<longleftrightarrow>
     (if cui_total_bytes A \<noteq> cui_total_bytes B then cui_total_bytes A > cui_total_bytes B
      else cui_mac A < cui_mac B)"

definition usage_items :: "(fp \<Rightarrow> string) \<Rightarrow> (string, ClientTotals) omap \<Rightarrow> MCPClientUsageItem list" where
  "usage_items fmtMB TotalsByMac =
     std_sort usage_before
       (List.map_filter (\<lambda>(Mac, Totals). if \<not> ct_hasInWindowObservation Totals then None
                                         else Some (usage_item fmtMB Mac Totals)) TotalsByMac)"

definition usage_segments ::
  "(string, ClientTotals) omap \<Rightarrow> MCPClientUsageItem list \<Rightarrow> (u64 \<times> u64) list" where
  "usage_segments TotalsByMac Items =
     List.map_filter (\<lambda>Item. case map_of TotalsByMac (cui_mac Item) of
         None \<Rightarrow> None
       | Some Totals \<Rightarrow> if \<not> ct_hasCalculableSegment Totals then None
                         else Some (ct_observedStart Totals, ct_observedEnd Totals)) Items"

definition CalculateBandwidthConsumptionSummary ::
  "(fp \<Rightarrow> string) \<Rightarrow> DeviceTimePoint list \<Rightarrow> mcp_window \<Rightarrow> MCPDeviceBandwidthConsumptionSummary" where
  "CalculateBandwidthConsumptionSummary fmtMB Records Requested =
     (let TotalsByMac = totals_by_mac (build_streams Requested Records);
          All = usage_items fmtMB TotalsByMac;
          Items = (if length All > 500 then take 500 All else All)
      in \<lparr>dbc_data = \<lparr>cus_items = Items, cus_totalClients = of_nat (length All),
                       cus_truncated = (length All > 500)\<rparr>,
          dbc_meta = \<lparr>meta_requestedWindow = requested_window Requested,
                       meta_observedWindow = observed_segments (usage_segments TotalsByMac Items)\<rparr>\<rparr>)"

interpretation totals_window: obs_window ct_hasCalculableSegment ct_observedStart ct_observedEnd
  MarkObservedSegment
  by unfold_locales (auto simp: MarkObservedSegment_def)

subsection \<open>The bytes of one stream\<close>

text \<open>
  The readings of one counter, and the increases between consecutive readings that touch the window:
  each with the segment of time it covers.
\<close>

type_synonym reading = "u64 \<times> u64 \<times> bool"

definition readings :: "(Sample \<Rightarrow> u64 option) \<Rightarrow> Sample list \<Rightarrow> reading list" where
  "readings f ds = List.map_filter (\<lambda>s. map_option (\<lambda>v. (smp_timestamp s, v, smp_inWindow s)) (f s)) ds"

fun deltas :: "reading option \<Rightarrow> reading list \<Rightarrow> ((u64 \<times> u64) \<times> u64) list" where
  "deltas p [] = []"
| "deltas None (r # rs) = deltas (Some r) rs"
| "deltas (Some (t, v, w)) ((t', v', w') # rs) =
     (if (w \<or> w') \<and> v' \<ge> v then [((t, t'), v' - v)] else []) @ deltas (Some (t', v', w')) rs"

definition saturate :: "u64 list \<Rightarrow> u64 \<Rightarrow> u64" where
  "saturate ds a = fold (\<lambda>d acc. SaturatingAdd acc d) ds a"

lemma unat_saturate: "unat (saturate ds a) = min (2 ^ 64 - 1) (unat a + sum_list (map unat ds))"
proof (induction ds arbitrary: a)
  case Nil
  then show ?case using unat_u64_less[of a] by (simp add: saturate_def)
next
  case (Cons d ds)
  have "saturate (d # ds) a = saturate ds (SaturatingAdd a d)" by (simp add: saturate_def)
  then have "unat (saturate (d # ds) a) = min (2 ^ 64 - 1) (unat (SaturatingAdd a d) + sum_list (map unat ds))"
    by (simp only: Cons.IH)
  then show ?case unfolding unat_SaturatingAdd by simp
qed

definition reading_of :: "CounterSample \<Rightarrow> reading" where
  "reading_of c = (cs_timestamp c, cs_value c, cs_inWindow c)"

lemma readings_simps [simp]:
  "readings f [] = []"
  "readings f (s # ds) = (case f s of None \<Rightarrow> readings f ds
     | Some v \<Rightarrow> (smp_timestamp s, v, smp_inWindow s) # readings f ds)"
  by (simp_all add: readings_def List.map_filter_simps split: option.split)

text \<open>What one \<^verbatim>\<open>ApplyCounterSample\<close> contributes: at most one increase.\<close>

definition delta_step :: "CounterSample option \<Rightarrow> Sample \<Rightarrow> u64 option \<Rightarrow> ((u64 \<times> u64) \<times> u64) list" where
  "delta_step p s v = (case v of None \<Rightarrow> [] | Some v \<Rightarrow>
     deltas (map_option reading_of p) [(smp_timestamp s, v, smp_inWindow s)])"

definition prev_step :: "CounterSample option \<Rightarrow> Sample \<Rightarrow> u64 option \<Rightarrow> CounterSample option" where
  "prev_step p s v = (case v of None \<Rightarrow> p | Some v \<Rightarrow>
     Some \<lparr>cs_timestamp = smp_timestamp s, cs_value = v, cs_inWindow = smp_inWindow s\<rparr>)"

lemma deltas_readings_step:
  "deltas (map_option reading_of p) (readings f (s # ds)) =
     delta_step p s (f s) @ deltas (map_option reading_of (prev_step p s (f s))) (readings f ds)"
  by (cases p) (auto simp: delta_step_def prev_step_def reading_of_def split: option.split)

lemma ApplyCounterSample_eq:
  "ApplyCounterSample get put s v (p, T) =
     (prev_step p s v,
      fold (\<lambda>d T. MarkObservedSegment (fst d) (put (SaturatingAdd (get T) (snd d)) T)) (delta_step p s v) T)"
  by (auto simp: ApplyCounterSample_def prev_step_def delta_step_def reading_of_def Let_def split: option.split)

lemma mark_put [simp]:
  "ct_rx (MarkObservedSegment seg T) = ct_rx T" "ct_tx (MarkObservedSegment seg T) = ct_tx T"
  "ct_hasInWindowObservation (MarkObservedSegment seg T) = ct_hasInWindowObservation T"
  by (simp_all add: MarkObservedSegment_def)

lemma mark_fold [simp]:
  "ct_rx (fold MarkObservedSegment segs T) = ct_rx T" "ct_tx (fold MarkObservedSegment segs T) = ct_tx T"
  "ct_hasInWindowObservation (fold MarkObservedSegment segs T) = ct_hasInWindowObservation T"
  by (induction segs arbitrary: T) simp_all

lemma mark_commute:
  "MarkObservedSegment seg (T\<lparr>ct_rx := a\<rparr>) = (MarkObservedSegment seg T)\<lparr>ct_rx := a\<rparr>"
  "MarkObservedSegment seg (T\<lparr>ct_tx := b\<rparr>) = (MarkObservedSegment seg T)\<lparr>ct_tx := b\<rparr>"
  "MarkObservedSegment seg (T\<lparr>ct_hasInWindowObservation := c\<rparr>) =
     (MarkObservedSegment seg T)\<lparr>ct_hasInWindowObservation := c\<rparr>"
  by (simp_all add: MarkObservedSegment_def)

lemma mark_fold_commute:
  "fold MarkObservedSegment segs (T\<lparr>ct_rx := a\<rparr>) = (fold MarkObservedSegment segs T)\<lparr>ct_rx := a\<rparr>"
  "fold MarkObservedSegment segs (T\<lparr>ct_tx := b\<rparr>) = (fold MarkObservedSegment segs T)\<lparr>ct_tx := b\<rparr>"
  "fold MarkObservedSegment segs (T\<lparr>ct_hasInWindowObservation := c\<rparr>) =
     (fold MarkObservedSegment segs T)\<lparr>ct_hasInWindowObservation := c\<rparr>"
  by (induction segs arbitrary: T) (simp_all add: mark_commute)

lemma fold_delta_rx:
  "fold (\<lambda>d T. MarkObservedSegment (fst d) (put_rx (SaturatingAdd (ct_rx T) (snd d)) T)) ds T =
     (fold MarkObservedSegment (map fst ds) T)\<lparr>ct_rx := saturate (map snd ds) (ct_rx T), ct_tx := ct_tx T\<rparr>"
  by (induction ds arbitrary: T) (simp_all add: put_rx_def mark_commute mark_fold_commute saturate_def)

lemma fold_delta_tx:
  "fold (\<lambda>d T. MarkObservedSegment (fst d) (put_tx (SaturatingAdd (ct_tx T) (snd d)) T)) ds T =
     (fold MarkObservedSegment (map fst ds) T)\<lparr>ct_rx := ct_rx T, ct_tx := saturate (map snd ds) (ct_tx T)\<rparr>"
  by (induction ds arbitrary: T) (simp_all add: put_tx_def mark_commute mark_fold_commute saturate_def)

lemma saturate_append: "saturate (ds @ es) a = saturate es (saturate ds a)"
  by (simp add: saturate_def)

lemma apply_samples:
  "\<exists>segs pr' pt'. set segs = fst ` (set (deltas (map_option reading_of pr) (readings smp_rx ds)) \<union>
                            set (deltas (map_option reading_of pt) (readings smp_tx ds))) \<and>
     fold apply_sample ds (pr, pt, T) =
       (pr', pt', (fold MarkObservedSegment segs T)
          \<lparr>ct_rx := saturate (map snd (deltas (map_option reading_of pr) (readings smp_rx ds))) (ct_rx T),
           ct_tx := saturate (map snd (deltas (map_option reading_of pt) (readings smp_tx ds))) (ct_tx T)\<rparr>)"
proof (induction ds arbitrary: pr pt T)
  case Nil
  then show ?case by (intro exI[of _ "[]"]) (simp add: saturate_def)
next
  case (Cons s ds)
  define dr dt where "dr = delta_step pr s (smp_rx s)" and "dt = delta_step pt s (smp_tx s)"
  define pr1 pt1 where "pr1 = prev_step pr s (smp_rx s)" and "pt1 = prev_step pt s (smp_tx s)"
  define T1 where "T1 = (fold MarkObservedSegment (map fst dr @ map fst dt) T)
      \<lparr>ct_rx := saturate (map snd dr) (ct_rx T), ct_tx := saturate (map snd dt) (ct_tx T)\<rparr>"
  have step: "apply_sample s (pr, pt, T) = (pr1, pt1, T1)"
    by (simp add: apply_sample_def ApplyCounterSample_eq fold_delta_rx fold_delta_tx mark_fold_commute
        dr_def dt_def pr1_def pt1_def T1_def)
  from Cons.IH[of pr1 pt1 T1] obtain segs pr' pt' where
    segs: "set segs = fst ` (set (deltas (map_option reading_of pr1) (readings smp_rx ds)) \<union>
                            set (deltas (map_option reading_of pt1) (readings smp_tx ds)))" and
    res: "fold apply_sample ds (pr1, pt1, T1) = (pr', pt', (fold MarkObservedSegment segs T1)
          \<lparr>ct_rx := saturate (map snd (deltas (map_option reading_of pr1) (readings smp_rx ds))) (ct_rx T1),
           ct_tx := saturate (map snd (deltas (map_option reading_of pt1) (readings smp_tx ds))) (ct_tx T1)\<rparr>)"
    by blast
  have T1: "ct_rx T1 = saturate (map snd dr) (ct_rx T)" "ct_tx T1 = saturate (map snd dt) (ct_tx T)"
    by (simp_all add: T1_def)
  show ?case
    unfolding deltas_readings_step
    using segs res
    by (intro exI[of _ "map fst dr @ map fst dt @ segs"] exI[of _ pr'] exI[of _ pt'])
      (auto simp: step T1 T1_def mark_fold_commute saturate_append
        dr_def[symmetric] dt_def[symmetric] pr1_def[symmetric] pt1_def[symmetric] image_Un)
qed

text \<open>The bytes of a stream and the segments they come from, by specification.\<close>

definition stream_deltas :: "(Sample \<Rightarrow> u64 option) \<Rightarrow> Sample list \<Rightarrow> ((u64 \<times> u64) \<times> u64) list" where
  "stream_deltas f Samples = deltas None (readings f (dedupe (std_sort sample_less Samples)))"

lemma deltas_single: "length rs \<le> 1 \<Longrightarrow> deltas None rs = []"
  by (cases rs) auto

lemma length_readings: "length (readings f ds) \<le> length ds"
  by (induction ds) (auto split: option.split)

lemma stream_totals_eq:
  obtains segs where "set segs = fst ` (set (stream_deltas smp_rx Samples) \<union> set (stream_deltas smp_tx Samples))"
    and "stream_totals Samples T = (fold MarkObservedSegment segs T)
      \<lparr>ct_rx := saturate (map snd (stream_deltas smp_rx Samples)) (ct_rx T),
       ct_tx := saturate (map snd (stream_deltas smp_tx Samples)) (ct_tx T),
       ct_hasInWindowObservation := ct_hasInWindowObservation T \<or>
         list_ex smp_inWindow (dedupe (std_sort sample_less Samples))\<rparr>"
proof -
  define D where "D = dedupe (std_sort sample_less Samples)"
  define b where "b = (ct_hasInWindowObservation T \<or> list_ex smp_inWindow D)"
  have T1: "(if list_ex smp_inWindow D then T\<lparr>ct_hasInWindowObservation := True\<rparr> else T) = T\<lparr>ct_hasInWindowObservation := b\<rparr>"
    by (auto simp: b_def)
  show thesis
  proof (cases "length D < 2")
    case True
    then have "length (readings f D) \<le> 1" for f using length_readings[of f D] by simp
    then have "deltas None (readings f D) = []" for f by (intro deltas_single)
    then have none: "stream_deltas f Samples = []" for f by (simp add: stream_deltas_def D_def)
    have "stream_totals Samples T = T\<lparr>ct_hasInWindowObservation := b\<rparr>"
      using True T1 by (simp add: stream_totals_def Let_def flip: D_def)
    then show thesis by (intro that[of "[]"]) (simp_all add: none saturate_def b_def D_def)
  next
    case False
    from apply_samples[of None D None "T\<lparr>ct_hasInWindowObservation := b\<rparr>"] obtain segs pr pt where
      segs: "set segs = fst ` (set (deltas None (readings smp_rx D)) \<union> set (deltas None (readings smp_tx D)))"
      and res: "fold apply_sample D (None, None, T\<lparr>ct_hasInWindowObservation := b\<rparr>) =
         (pr, pt, (fold MarkObservedSegment segs (T\<lparr>ct_hasInWindowObservation := b\<rparr>))
          \<lparr>ct_rx := saturate (map snd (deltas None (readings smp_rx D))) (ct_rx T),
           ct_tx := saturate (map snd (deltas None (readings smp_tx D))) (ct_tx T)\<rparr>)"
      by auto
    have "stream_totals Samples T = snd (snd (fold apply_sample D (None, None, T\<lparr>ct_hasInWindowObservation := b\<rparr>)))"
      using False T1 by (simp add: stream_totals_def Let_def flip: D_def)
    with segs res show thesis
      by (intro that[of segs]) (simp_all add: stream_deltas_def mark_fold_commute b_def D_def)
  qed
qed

subsection \<open>Streams and clients\<close>

definition stream_samples :: "mcp_window \<Rightarrow> DeviceTimePoint list \<Rightarrow> StreamKey \<Rightarrow> Sample list" where
  "stream_samples w rs k = map snd (filter (\<lambda>e. fst e = k) (stream_entries w rs))"

lemma fold_append_samples: "fold (\<lambda>e xs. xs @ [snd e]) es acc = acc @ map snd es"
  by (induction es arbitrary: acc) auto

lemma streams_lookup:
  "map_of (build_streams w rs) k =
     (if k \<in> fst ` set (stream_entries w rs) then Some (stream_samples w rs k) else None)"
  using omap.lookup_fold_update[where key = fst and f = "\<lambda>e xs. xs @ [snd e]" and d = "[]"
      and xs = "stream_entries w rs" and m = "[]" and k = k]
  by (auto simp: build_streams_def push_sample_def[abs_def] omap_get_or_def fold_append_samples stream_samples_def)

lemma streams_wf: "omap_wf (build_streams w rs)"
  unfolding build_streams_def push_sample_def[abs_def] by (rule omap.wf_fold_update) simp

lemma streams_entries:
  "build_streams w rs =
     map (\<lambda>k. (k, stream_samples w rs k)) (sorted_list_of_set (fst ` set (stream_entries w rs)))"
proof -
  have "dom (map_of (build_streams w rs)) = fst ` set (stream_entries w rs)"
    by (auto simp: dom_def streams_lookup split: if_splits)
  with omap_entries[OF streams_wf[of w rs]]
  have "build_streams w rs = map (\<lambda>k. (k, the (map_of (build_streams w rs) k)))
      (sorted_list_of_set (fst ` set (stream_entries w rs)))" by simp
  also have "\<dots> = map (\<lambda>k. (k, stream_samples w rs k)) (sorted_list_of_set (fst ` set (stream_entries w rs)))"
    by (intro map_cong refl) (simp add: streams_lookup)
  finally show ?thesis .
qed

definition client_totals :: "(StreamKey \<times> Sample list) list \<Rightarrow> string \<Rightarrow> ClientTotals" where
  "client_totals es m = fold (\<lambda>e. stream_totals (snd e)) (filter (\<lambda>e. fst (fst e) = m) es) ClientTotals_init"

lemma totals_lookup:
  "map_of (totals_by_mac es) m =
     (if m \<in> (fst \<circ> fst) ` set es then Some (client_totals es m) else None)"
  using omap.lookup_fold_update[where key = "fst \<circ> fst" and f = "\<lambda>e. stream_totals (snd e)"
      and d = ClientTotals_init and xs = es and m = "[]" and k = m]
  by (auto simp: totals_by_mac_def add_stream_def[abs_def] omap_get_or_def client_totals_def)

lemma totals_wf: "omap_wf (totals_by_mac es)"
  unfolding totals_by_mac_def add_stream_def[abs_def] by (rule omap.wf_fold_update) simp

text \<open>Bytes of a client: over all its streams.\<close>

definition client_bytes :: "(Sample \<Rightarrow> u64 option) \<Rightarrow> (StreamKey \<times> Sample list) list \<Rightarrow> string \<Rightarrow> nat" where
  "client_bytes f es m =
     (\<Sum>e \<leftarrow> filter (\<lambda>e. fst (fst e) = m) es. sum_list (map (unat \<circ> snd) (stream_deltas f (snd e))))"

definition client_segments :: "(StreamKey \<times> Sample list) list \<Rightarrow> string \<Rightarrow> (u64 \<times> u64) set" where
  "client_segments es m =
     (\<Union>e \<in> {e \<in> set es. fst (fst e) = m}. fst ` (set (stream_deltas smp_rx (snd e)) \<union> set (stream_deltas smp_tx (snd e))))"

definition client_observed :: "(StreamKey \<times> Sample list) list \<Rightarrow> string \<Rightarrow> bool" where
  "client_observed es m =
     list_ex (\<lambda>e. fst (fst e) = m \<and> list_ex smp_inWindow (dedupe (std_sort sample_less (snd e)))) es"

lemma fold_stream_totals:
  "\<exists>segs. set segs = (\<Union>e \<in> set es. fst ` (set (stream_deltas smp_rx (snd e)) \<union> set (stream_deltas smp_tx (snd e)))) \<and>
     fold (\<lambda>e. stream_totals (snd e)) es T = (fold MarkObservedSegment segs T)
       \<lparr>ct_rx := saturate (concat (map (\<lambda>e. map snd (stream_deltas smp_rx (snd e))) es)) (ct_rx T),
        ct_tx := saturate (concat (map (\<lambda>e. map snd (stream_deltas smp_tx (snd e))) es)) (ct_tx T),
        ct_hasInWindowObservation := ct_hasInWindowObservation T \<or>
          list_ex (\<lambda>e. list_ex smp_inWindow (dedupe (std_sort sample_less (snd e)))) es\<rparr>"
proof (induction es arbitrary: T)
  case Nil
  then show ?case by (intro exI[of _ "[]"]) (simp add: saturate_def)
next
  case (Cons e es)
  obtain s1 where s1: "set s1 = fst ` (set (stream_deltas smp_rx (snd e)) \<union> set (stream_deltas smp_tx (snd e)))"
    and T1: "stream_totals (snd e) T = (fold MarkObservedSegment s1 T)
      \<lparr>ct_rx := saturate (map snd (stream_deltas smp_rx (snd e))) (ct_rx T),
       ct_tx := saturate (map snd (stream_deltas smp_tx (snd e))) (ct_tx T),
       ct_hasInWindowObservation := ct_hasInWindowObservation T \<or>
         list_ex smp_inWindow (dedupe (std_sort sample_less (snd e)))\<rparr>"
    by (rule stream_totals_eq)
  from Cons.IH[of "stream_totals (snd e) T"] obtain s2 where
    s2: "set s2 = (\<Union>e \<in> set es. fst ` (set (stream_deltas smp_rx (snd e)) \<union> set (stream_deltas smp_tx (snd e))))" and
    res: "fold (\<lambda>e. stream_totals (snd e)) es (stream_totals (snd e) T) =
       (fold MarkObservedSegment s2 (stream_totals (snd e) T))
       \<lparr>ct_rx := saturate (concat (map (\<lambda>e. map snd (stream_deltas smp_rx (snd e))) es)) (ct_rx (stream_totals (snd e) T)),
        ct_tx := saturate (concat (map (\<lambda>e. map snd (stream_deltas smp_tx (snd e))) es)) (ct_tx (stream_totals (snd e) T)),
        ct_hasInWindowObservation := ct_hasInWindowObservation (stream_totals (snd e) T) \<or>
          list_ex (\<lambda>e. list_ex smp_inWindow (dedupe (std_sort sample_less (snd e)))) es\<rparr>"
    by blast
  have "fold (\<lambda>e. stream_totals (snd e)) (e # es) T = (fold MarkObservedSegment (s1 @ s2) T)
       \<lparr>ct_rx := saturate (concat (map (\<lambda>e. map snd (stream_deltas smp_rx (snd e))) (e # es))) (ct_rx T),
        ct_tx := saturate (concat (map (\<lambda>e. map snd (stream_deltas smp_tx (snd e))) (e # es))) (ct_tx T),
        ct_hasInWindowObservation := ct_hasInWindowObservation T \<or>
          list_ex (\<lambda>e. list_ex smp_inWindow (dedupe (std_sort sample_less (snd e)))) (e # es)\<rparr>"
    using res by (simp add: T1 mark_fold_commute saturate_append disj_assoc)
  moreover have "set (s1 @ s2) = (\<Union>e \<in> set (e # es). fst ` (set (stream_deltas smp_rx (snd e)) \<union> set (stream_deltas smp_tx (snd e))))"
    by (simp add: s1 s2)
  ultimately show ?case by blast
qed

lemma sum_list_concat: "sum_list (concat xss) = (\<Sum>xs \<leftarrow> xss. sum_list xs :: nat)"
  by (induction xss) auto

lemma client_totals_spec:
  "unat (ct_rx (client_totals es m)) = min (2 ^ 64 - 1) (client_bytes smp_rx es m)"
  "unat (ct_tx (client_totals es m)) = min (2 ^ 64 - 1) (client_bytes smp_tx es m)"
  "ct_hasInWindowObservation (client_totals es m) = client_observed es m"
  "ct_hasCalculableSegment (client_totals es m) \<longleftrightarrow> client_segments es m \<noteq> {}"
  "client_segments es m \<noteq> {} \<Longrightarrow> ct_observedStart (client_totals es m) = Min (fst ` client_segments es m)"
  "client_segments es m \<noteq> {} \<Longrightarrow> ct_observedEnd (client_totals es m) = Max (snd ` client_segments es m)"
proof -
  let ?es = "filter (\<lambda>e. fst (fst e) = m) es"
  from fold_stream_totals[of ?es ClientTotals_init] obtain segs where
    segs: "set segs = client_segments es m" and
    T: "client_totals es m = (fold MarkObservedSegment segs ClientTotals_init)
       \<lparr>ct_rx := saturate (concat (map (\<lambda>e. map snd (stream_deltas smp_rx (snd e))) ?es)) (ct_rx ClientTotals_init),
        ct_tx := saturate (concat (map (\<lambda>e. map snd (stream_deltas smp_tx (snd e))) ?es)) (ct_tx ClientTotals_init),
        ct_hasInWindowObservation := ct_hasInWindowObservation ClientTotals_init \<or>
          list_ex (\<lambda>e. list_ex smp_inWindow (dedupe (std_sort sample_less (snd e)))) ?es\<rparr>"
    unfolding client_totals_def client_segments_def by auto
  have bytes: "sum_list (map unat (concat (map (\<lambda>e. map snd (stream_deltas f (snd e))) ?es))) = client_bytes f es m" for f
    by (simp add: client_bytes_def map_concat sum_list_concat o_def)
  have sat: "ct_rx (client_totals es m) = saturate (concat (map (\<lambda>e. map snd (stream_deltas smp_rx (snd e))) ?es)) 0"
    "ct_tx (client_totals es m) = saturate (concat (map (\<lambda>e. map snd (stream_deltas smp_tx (snd e))) ?es)) 0"
    by (simp_all add: T ClientTotals_init_def)
  show "unat (ct_rx (client_totals es m)) = min (2 ^ 64 - 1) (client_bytes smp_rx es m)"
    "unat (ct_tx (client_totals es m)) = min (2 ^ 64 - 1) (client_bytes smp_tx es m)"
    unfolding sat unat_saturate bytes by simp_all
  show "ct_hasInWindowObservation (client_totals es m) = client_observed es m"
  proof -
    have "list_ex P (filter Q xs) = list_ex (\<lambda>x. Q x \<and> P x) xs" for P Q and xs :: "(StreamKey \<times> Sample list) list"
      by (induction xs) auto
    then show ?thesis by (simp add: T client_observed_def ClientTotals_init_def)
  qed
  have unseen: "\<not> ct_hasCalculableSegment ClientTotals_init" by (simp add: ClientTotals_init_def)
  show "ct_hasCalculableSegment (client_totals es m) \<longleftrightarrow> client_segments es m \<noteq> {}"
    using totals_window.fold_mark_seen[of segs ClientTotals_init] unseen segs by (auto simp: T)
  show "ct_observedStart (client_totals es m) = Min (fst ` client_segments es m)"
    "ct_observedEnd (client_totals es m) = Max (snd ` client_segments es m)" if "client_segments es m \<noteq> {}"
  proof -
    have "segs \<noteq> []" using that segs by auto
    with totals_window.fold_mark_spans[OF unseen, of segs] segs
    show "ct_observedStart (client_totals es m) = Min (fst ` client_segments es m)"
      "ct_observedEnd (client_totals es m) = Max (snd ` client_segments es m)" by (simp_all add: T)
  qed
qed

subsection \<open>The report\<close>

definition observed_clients :: "(StreamKey \<times> Sample list) list \<Rightarrow> string list" where
  "observed_clients es = filter (client_observed es) (sorted_list_of_set ((fst \<circ> fst) ` set es))"

lemma usage_items_unsorted:
  "List.map_filter (\<lambda>(Mac, Totals). if \<not> ct_hasInWindowObservation Totals then None
       else Some (usage_item fmtMB Mac Totals)) (totals_by_mac es) =
     map (\<lambda>m. usage_item fmtMB m (client_totals es m)) (observed_clients es)"
proof -
  have "dom (map_of (totals_by_mac es)) = (fst \<circ> fst) ` set es"
    by (auto simp: dom_def totals_lookup split: if_splits)
  with omap_entries[OF totals_wf[of es]]
  have "totals_by_mac es = map (\<lambda>k. (k, the (map_of (totals_by_mac es) k))) (sorted_list_of_set ((fst \<circ> fst) ` set es))"
    by simp
  also have "\<dots> = map (\<lambda>m. (m, client_totals es m)) (sorted_list_of_set ((fst \<circ> fst) ` set es))"
    by (intro map_cong refl) (auto simp: totals_lookup)
  finally have "totals_by_mac es = map (\<lambda>m. (m, client_totals es m)) (sorted_list_of_set ((fst \<circ> fst) ` set es))" .
  moreover have "List.map_filter (\<lambda>(Mac, Totals). if \<not> ct_hasInWindowObservation Totals then None
       else Some (usage_item fmtMB Mac Totals)) (map (\<lambda>m. (m, client_totals es m)) ms) =
     map (\<lambda>m. usage_item fmtMB m (client_totals es m)) (filter (client_observed es) ms)" for ms
    by (induction ms) (auto simp: List.map_filter_simps client_totals_spec(3))
  ultimately show ?thesis by (simp add: observed_clients_def)
qed

lemma usage_before_order:
  "\<not> usage_before a a" "usage_before a b \<Longrightarrow> usage_before b c \<Longrightarrow> usage_before a c"
  "cui_mac a \<noteq> cui_mac b \<Longrightarrow> usage_before a b \<or> usage_before b a"
  by (auto simp: usage_before_def split: if_splits)

lemma usage_items_sorted: "sorted_wrt (\<lambda>a b. \<not> usage_before b a) (usage_items fmtMB T)"
  unfolding usage_items_def by (rule sorted_std_sort) (auto simp: usage_before_def split: if_splits)

lemma distinct_map_iff_sorted_wrt: "distinct (map f xs) \<longleftrightarrow> sorted_wrt (\<lambda>a b. f a \<noteq> f b) xs"
  by (induction xs) auto

lemma sorted_wrt_conj: "sorted_wrt (\<lambda>a b. P a b \<and> Q a b) xs \<longleftrightarrow> sorted_wrt P xs \<and> sorted_wrt Q xs"
  by (induction xs) auto

lemma usage_items_set:
  "set (usage_items fmtMB (totals_by_mac es)) = (\<lambda>m. usage_item fmtMB m (client_totals es m)) ` set (observed_clients es)"
  "length (usage_items fmtMB (totals_by_mac es)) = length (observed_clients es)"
  by (simp_all add: usage_items_def usage_items_unsorted)

lemma usage_items_distinct: "distinct (map cui_mac (usage_items fmtMB (totals_by_mac es)))"
proof -
  have "mset (map cui_mac (usage_items fmtMB (totals_by_mac es))) =
      mset (map cui_mac (map (\<lambda>m. usage_item fmtMB m (client_totals es m)) (observed_clients es)))"
    unfolding usage_items_def usage_items_unsorted by (simp only: mset_map mset_std_sort)
  also have "map cui_mac (map (\<lambda>m. usage_item fmtMB m (client_totals es m)) (observed_clients es)) = observed_clients es"
    by (simp add: usage_item_def Let_def o_def)
  finally show ?thesis
    by (metis mset_eq_imp_distinct_iff observed_clients_def distinct_filter sorted_list_of_set.distinct_sorted_key_list_of_set)
qed

text \<open>
  C5: each client reported was observed inside the window, and its byte counts are exactly the sum,
  saturated at 64 bits, of the increases between consecutive de-duplicated readings of its streams
  that touch the window; a decrease (counter reset) adds nothing.  The total is their saturated sum.
\<close>

theorem CalculateBandwidthConsumptionSummary_bytes:
  fixes w :: mcp_window
  assumes "it \<in> set (cus_items (dbc_data (CalculateBandwidthConsumptionSummary fmtMB rs w)))"
  defines "es \<equiv> build_streams w rs"
  shows "client_observed es (cui_mac it) \<and>
     unat (cui_rx_bytes it) = min (2 ^ 64 - 1) (client_bytes smp_rx es (cui_mac it)) \<and>
     unat (cui_tx_bytes it) = min (2 ^ 64 - 1) (client_bytes smp_tx es (cui_mac it)) \<and>
     unat (cui_total_bytes it) =
       min (2 ^ 64 - 1) (client_bytes smp_rx es (cui_mac it) + client_bytes smp_tx es (cui_mac it))"
proof -
  have "it \<in> set (usage_items fmtMB (totals_by_mac es))"
    using assms(1) by (auto simp: CalculateBandwidthConsumptionSummary_def Let_def es_def
        split: if_splits dest: in_set_takeD)
  then obtain m where m: "m \<in> set (observed_clients es)" and it: "it = usage_item fmtMB m (client_totals es m)"
    by (auto simp: usage_items_set)
  have "client_observed es m" using m by (simp add: observed_clients_def)
  then show ?thesis
    by (simp add: it usage_item_def Let_def client_totals_spec unat_SaturatingAdd)
qed

text \<open>
  the report lists the observed clients once each, largest consumption first and ties by MAC,
  cut at 500: it is a prefix of a complete sorted list, so no client left out used more than one
  listed.  The total and the flag tell how many clients there are.
\<close>

theorem CalculateBandwidthConsumptionSummary_order:
  fixes w :: mcp_window and fmtMB :: "fp \<Rightarrow> string" and rs :: "DeviceTimePoint list"
  defines "d \<equiv> dbc_data (CalculateBandwidthConsumptionSummary fmtMB rs w)"
    and "clients \<equiv> observed_clients (build_streams w rs)"
  shows "\<exists>all. cus_items d = take 500 all \<and> mset (map cui_mac all) = mset clients \<and>
     sorted_wrt usage_before all \<and> cus_totalClients d = of_nat (length clients) \<and>
     cus_truncated d = (length clients > 500)"
proof -
  define all where "all = usage_items fmtMB (totals_by_mac (build_streams w rs))"
  have "sorted_wrt (\<lambda>a b. \<not> usage_before b a \<and> cui_mac a \<noteq> cui_mac b) all"
    using usage_items_sorted[of fmtMB "totals_by_mac (build_streams w rs)"]
      usage_items_distinct[of fmtMB "build_streams w rs"]
    unfolding all_def distinct_map_iff_sorted_wrt sorted_wrt_conj by simp
  then have "sorted_wrt usage_before all"
    by (rule sorted_wrt_mono_rel[rotated]) (use usage_before_order(3) in blast)
  moreover have "mset (map cui_mac all) = mset clients"
  proof -
    have "mset (map cui_mac all) = mset (map cui_mac (map (\<lambda>m. usage_item fmtMB m (client_totals (build_streams w rs) m)) clients))"
      unfolding all_def clients_def usage_items_def usage_items_unsorted by (simp only: mset_map mset_std_sort)
    then show ?thesis by (simp add: usage_item_def Let_def o_def)
  qed
  ultimately show ?thesis
    by (intro exI[of _ all])
      (simp add: d_def CalculateBandwidthConsumptionSummary_def Let_def all_def clients_def usage_items_set(2))
qed

subsection \<open>The report depends on the set of records only\<close>

definition sample_key :: "Sample \<Rightarrow> u64 \<times> string \<times> u64 option \<times> u64 option" where
  "sample_key s = (fst s, fst (snd s), smp_rx s, smp_tx s)"

lemma sample_key_mono: "sample_key a \<le> sample_key b \<Longrightarrow> smp_timestamp a \<le> smp_timestamp b"
  by (auto simp: sample_key_def)

lemma sorted_samples: "sorted (map sample_key (std_sort sample_less xs))"
proof -
  have lt: "sample_less = (\<lambda>a b. sample_key a < sample_key b)"
    by (intro ext) (simp only: sample_less_def sample_key_def)
  have "sorted_wrt (\<lambda>a b. \<not> sample_less b a) (std_sort sample_less xs)"
    unfolding lt by (rule sorted_std_sort) auto
  then show ?thesis
    by (simp only: sorted_wrt_map lt not_less)
qed

text \<open>The samples kept: the first of each timestamp, where all readings of that timestamp agree.\<close>

definition kept :: "Sample set \<Rightarrow> Sample set" where
  "kept X = {s \<in> X. \<forall>x \<in> X. smp_timestamp x = smp_timestamp s \<longrightarrow>
     sample_key s \<le> sample_key x \<and> smp_rx x = smp_rx s \<and> smp_tx x = smp_tx s}"

lemma kept_union:
  assumes "\<forall>a \<in> A. \<forall>b \<in> B. smp_timestamp a \<noteq> smp_timestamp b"
  shows "kept (A \<union> B) = kept A \<union> kept B"
proof -
  define P where "P s X \<longleftrightarrow> (\<forall>x \<in> X. smp_timestamp x = smp_timestamp s \<longrightarrow>
     sample_key s \<le> sample_key x \<and> smp_rx x = smp_rx s \<and> smp_tx x = smp_tx s)" for s X
  have k: "kept X = {s \<in> X. P s X}" for X by (simp only: kept_def P_def)
  have "P s (A \<union> B) \<longleftrightarrow> P s A \<and> P s B" for s by (simp only: P_def ball_Un)
  moreover have "s \<in> A \<Longrightarrow> P s B" "s \<in> B \<Longrightarrow> P s A" for s using assms unfolding P_def by metis+
  ultimately show ?thesis unfolding k by blast
qed

lemma kept_group:
  assumes "\<forall>x \<in> set same. smp_timestamp x = smp_timestamp s" "\<forall>x \<in> set same. sample_key s \<le> sample_key x"
    and "inj_on sample_key (set (s # same))"
  shows "kept (set (s # same)) =
    (if list_ex (\<lambda>x. smp_rx x \<noteq> smp_rx s \<or> smp_tx x \<noteq> smp_tx s) same then {} else {s})"
proof (cases "list_ex (\<lambda>x. smp_rx x \<noteq> smp_rx s \<or> smp_tx x \<noteq> smp_tx s) same")
  case True
  then obtain x where x: "x \<in> set same" "smp_rx x \<noteq> smp_rx s \<or> smp_tx x \<noteq> smp_tx s" by (auto simp: list_ex_iff)
  have "y \<notin> kept (set (s # same))" for y
  proof
    assume "y \<in> kept (set (s # same))"
    then have y: "y \<in> set (s # same)" "\<forall>x \<in> set (s # same). smp_timestamp x = smp_timestamp y \<longrightarrow>
        smp_rx x = smp_rx y \<and> smp_tx x = smp_tx y"
      by (auto simp: kept_def)
    from y(1) assms(1) have "smp_timestamp y = smp_timestamp s" by auto
    with y(2) x(1) assms(1) have "smp_rx x = smp_rx y" "smp_tx x = smp_tx y" "smp_rx s = smp_rx y" "smp_tx s = smp_tx y"
      by auto
    with x(2) show False by simp
  qed
  with True show ?thesis by auto
next
  case False
  then have agree: "smp_rx x = smp_rx s \<and> smp_tx x = smp_tx s" if "x \<in> set same" for x
    using that by (auto simp: list_ex_iff)
  have "y = s" if "y \<in> kept (set (s # same))" for y
  proof -
    from that assms(1) have "y \<in> set (s # same)" "sample_key y \<le> sample_key s"
      by (auto simp: kept_def)
    then have "sample_key y = sample_key s" using assms(2) by auto
    then show "y = s" using assms(3) \<open>y \<in> set (s # same)\<close> by (auto simp: inj_on_def)
  qed
  moreover have "s \<in> kept (set (s # same))"
    using assms(2) agree by (auto simp: kept_def)
  ultimately show ?thesis using False by auto
qed

lemma sorted_dropWhile_map: "sorted (map f (s # ss)) \<Longrightarrow> sorted (map f (dropWhile P ss))"
  by (induction ss) auto

lemma dropWhile_later:
  assumes "sorted (map sample_key (s # ss))" "x \<in> set (dropWhile (\<lambda>x. smp_timestamp x = smp_timestamp s) ss)"
  shows "smp_timestamp s < smp_timestamp x"
proof -
  obtain y ys where d: "dropWhile (\<lambda>x. smp_timestamp x = smp_timestamp s) ss = y # ys"
    using assms(2) by (cases "dropWhile (\<lambda>x. smp_timestamp x = smp_timestamp s) ss") auto
  then have y: "smp_timestamp y \<noteq> smp_timestamp s" by (simp add: dropWhile_eq_Cons_conv)
  have "y \<in> set ss" by (metis d list.set_intros(1) set_dropWhileD)
  then have "smp_timestamp s < smp_timestamp y"
    using assms(1) y sample_key_mono[of s y] by (auto simp: less_le)
  moreover have "sorted (map sample_key (y # ys))"
    unfolding d[symmetric] using assms(1) by (rule sorted_dropWhile_map)
  then have "smp_timestamp y \<le> smp_timestamp x"
    using assms(2) d sample_key_mono[of y x] by auto
  ultimately show ?thesis by simp
qed

lemma dedupe_props:
  assumes "sorted (map sample_key xs)" "inj_on sample_key (set xs)"
  shows "set (dedupe xs) = kept (set xs) \<and> sorted_wrt (<) (map smp_timestamp (dedupe xs))"
  using assms
proof (induction xs rule: dedupe.induct)
  case 1
  then show ?case by (simp add: kept_def)
next
  case (2 s ss)
  define same rest where "same = takeWhile (\<lambda>x. smp_timestamp x = smp_timestamp s) ss"
    and "rest = dropWhile (\<lambda>x. smp_timestamp x = smp_timestamp s) ss"
  define c where "c = list_ex (\<lambda>x. smp_rx x \<noteq> smp_rx s \<or> smp_tx x \<noteq> smp_tx s) same"
  have ss: "set ss = set same \<union> set rest"
    unfolding same_def rest_def by (metis set_append takeWhile_dropWhile_id)
  have later: "\<forall>x \<in> set rest. smp_timestamp s < smp_timestamp x"
    unfolding rest_def using dropWhile_later[OF 2(3)] by blast
  have same: "\<forall>x \<in> set same. smp_timestamp x = smp_timestamp s" "\<forall>x \<in> set same. sample_key s \<le> sample_key x"
    using 2(3) by (auto simp: same_def dest: set_takeWhileD)
  have rest: "sorted (map sample_key rest)" "inj_on sample_key (set rest)"
    using 2(3,4) ss by (auto simp: rest_def intro: inj_on_subset sorted_dropWhile_map)
  have IH: "set (dedupe rest) = kept (set rest)" "sorted_wrt (<) (map smp_timestamp (dedupe rest))"
    using 2(1)[OF same_def rest_def c_def _ rest] 2(2)[OF same_def rest_def c_def _ rest] by (cases c; blast)+
  have eq: "dedupe (s # ss) = (if c then dedupe rest else s # dedupe rest)"
    by (simp add: Let_def same_def rest_def c_def)
  have "kept (set (s # ss)) = kept (set (s # same)) \<union> kept (set rest)"
  proof -
    have "set (s # ss) = set (s # same) \<union> set rest" by (simp add: ss)
    moreover have "\<forall>a \<in> set (s # same). \<forall>b \<in> set rest. smp_timestamp a \<noteq> smp_timestamp b"
      using later same(1) by fastforce
    ultimately show ?thesis by (simp only: kept_union)
  qed
  moreover have "kept (set (s # same)) = (if c then {} else {s})"
    unfolding c_def using same 2(4) ss by (intro kept_group) (auto intro: inj_on_subset)
  ultimately have "set (dedupe (s # ss)) = kept (set (s # ss))"
    using IH(1) unfolding eq by auto
  moreover have "sorted_wrt (<) (map smp_timestamp (dedupe (s # ss)))"
    using IH later unfolding eq by (auto simp: kept_def)
  ultimately show ?case by blast
qed

lemma strict_sorted_map_eq:
  fixes f :: "'a \<Rightarrow> 'b :: linorder"
  assumes "sorted_wrt (<) (map f xs)" "sorted_wrt (<) (map f ys)" "set xs = set ys"
  shows "xs = ys"
proof -
  have "map f xs = map f ys"
    using assms by (metis strict_sorted_equal set_map)
  moreover have "inj_on f (set xs \<union> set ys)"
    using assms by (metis distinct_map strict_sorted_iff sup.idem)
  ultimately show ?thesis by (simp add: inj_on_map_eq_map)
qed

lemma dedupe_set_cong:
  assumes "set xs = set ys" "inj_on sample_key (set xs)"
  shows "dedupe (std_sort sample_less xs) = dedupe (std_sort sample_less ys)"
  using dedupe_props[OF sorted_samples, of xs] dedupe_props[OF sorted_samples, of ys] assms
  by (intro strict_sorted_map_eq[of smp_timestamp]) auto

lemma stream_totals_cong:
  assumes "set xs = set ys" "inj_on sample_key (set xs)"
  shows "stream_totals xs = stream_totals ys"
  using dedupe_set_cong[OF assms] by (simp add: fun_eq_iff stream_totals_def)

lemma stream_entries_set:
  "set (stream_entries w rs) = (\<Union>r \<in> set rs. set (stream_entries w [r]))"
  by (simp add: stream_entries_def)

lemma stream_samples_set: "set (stream_samples w rs k) = {s. (k, s) \<in> set (stream_entries w rs)}"
  by (force simp: stream_samples_def)

lemma map_filter_set: "set (List.map_filter f xs) = {y. \<exists>x \<in> set xs. f x = Some y}"
  by (induction xs) (auto simp: List.map_filter_simps split: option.split)

lemma stream_entry_window:
  "(k, s) \<in> set (stream_entries w rs) \<Longrightarrow> smp_inWindow s = TimestampInHalfOpenWindow (smp_timestamp s) w"
  by (auto simp: stream_entries_def map_filter_set stream_entry_def split: option.splits)

lemma stream_samples_inj: "inj_on sample_key (set (stream_samples w rs k))"
proof (rule inj_onI)
  fix a b assume "a \<in> set (stream_samples w rs k)" "b \<in> set (stream_samples w rs k)" "sample_key a = sample_key b"
  then have "smp_inWindow a = smp_inWindow b"
    unfolding stream_samples_set using stream_entry_window[of k a w rs] stream_entry_window[of k b w rs]
    by (simp add: sample_key_def)
  with \<open>sample_key a = sample_key b\<close> show "a = b"
    by (simp add: sample_key_def prod_eq_iff)
qed

lemma totals_set_cong:
  assumes "set rs = set rs'"
  shows "totals_by_mac (build_streams w rs) = totals_by_mac (build_streams w rs')"
proof -
  have entries: "set (stream_entries w rs) = set (stream_entries w rs')"
    using stream_entries_set[of w rs] stream_entries_set[of w rs'] assms by simp
  have "add_stream (k, stream_samples w rs k) = add_stream (k, stream_samples w rs' k)" for k
    unfolding add_stream_def snd_conv
    using stream_totals_cong[OF _ stream_samples_inj[of w rs k], of "stream_samples w rs' k"] entries
    by (simp add: stream_samples_set)
  then have "fold (\<lambda>k. add_stream (k, stream_samples w rs k)) ks [] = fold (\<lambda>k. add_stream (k, stream_samples w rs' k)) ks []" for ks
    by (intro fold_cong) auto
  then show ?thesis
    unfolding totals_by_mac_def streams_entries fold_map o_def entries by simp
qed

text \<open>
  C27: the report depends only on the set of records: neither their order nor repeated delivery of
  the same record changes it.
\<close>

theorem CalculateBandwidthConsumptionSummary_set:
  "set rs = set rs' \<Longrightarrow>
     CalculateBandwidthConsumptionSummary fmtMB rs w = CalculateBandwidthConsumptionSummary fmtMB rs' w"
  using totals_set_cong[of rs rs' w] by (simp add: CalculateBandwidthConsumptionSummary_def)

definition usage_record :: "u64 \<Rightarrow> u64 \<Rightarrow> DeviceTimePoint" where
  "usage_record t rx = DeviceTimePoint_init\<lparr>dtp_timestamp := t,
     dtp_ssid_data := [SSIDTimePoint_init\<lparr>ssidtp_associations :=
       [UETimePoint_init\<lparr>ue_station := ''aabbccddeeff'', ue_rx_bytes := rx, ue_rx_bytes_present := True\<rparr>]\<rparr>]\<rparr>"

theorem CalculateBandwidthConsumptionSummary_set_witness:
  "CalculateBandwidthConsumptionSummary (\<lambda>x. []) [usage_record 10 100, usage_record 20 350, usage_record 10 100]
     \<lparr>startTime = 0, endTime = 3600, lookbackHours = 1\<rparr> =
   CalculateBandwidthConsumptionSummary (\<lambda>x. []) [usage_record 20 350, usage_record 10 100]
     \<lparr>startTime = 0, endTime = 3600, lookbackHours = 1\<rparr>"
  by (rule CalculateBandwidthConsumptionSummary_set) auto

lemma usage_streams:
  "build_streams \<lparr>startTime = 0, endTime = 3600, lookbackHours = 1\<rparr> [usage_record 20 350, usage_record 10 100] =
     [((''aa:bb:cc:dd:ee:ff'', [], [], 0), [(20, [], Some 350, None, True), (10, [], Some 100, None, True)])]"
  by (simp add: build_streams_def stream_entries_def usage_record_def DeviceTimePoint_init_def SSIDTimePoint_init_def
      UETimePoint_init_def List.map_filter_simps stream_entry_def NormalizeClientMac_def ctype_simps
      TimestampInHalfOpenWindow_def push_sample_def)

lemma usage_deduped:
  "dedupe (std_sort sample_less [(20, [], Some 350, None, True), (10, [], Some 100, None, True)]) =
     [(10, [], Some 100, None, True), (20, [], Some 350, None, True)]"
  by (simp add: std_sort_def sample_less_def Let_def)

theorem CalculateBandwidthConsumptionSummary_bytes_witness:
  "\<exists>it. cus_items (dbc_data (CalculateBandwidthConsumptionSummary (\<lambda>x. []) [usage_record 20 350, usage_record 10 100]
       \<lparr>startTime = 0, endTime = 3600, lookbackHours = 1\<rparr>)) = [it] \<and>
     cui_mac it = ''aa:bb:cc:dd:ee:ff'' \<and> unat (cui_rx_bytes it) = 250 \<and> unat (cui_total_bytes it) = 250"
proof -
  let ?w = "\<lparr>startTime = 0, endTime = 3600, lookbackHours = 1\<rparr> :: mcp_window"
  let ?rs = "[usage_record 20 350, usage_record 10 100]"
  let ?S = "CalculateBandwidthConsumptionSummary (\<lambda>x. []) ?rs ?w"
  have obs: "observed_clients (build_streams ?w ?rs) = [''aa:bb:cc:dd:ee:ff'']"
    by (simp add: observed_clients_def client_observed_def usage_streams usage_deduped)
  have bytes: "client_bytes smp_rx (build_streams ?w ?rs) ''aa:bb:cc:dd:ee:ff'' = 250"
    "client_bytes smp_tx (build_streams ?w ?rs) ''aa:bb:cc:dd:ee:ff'' = 0"
    by (simp_all add: client_bytes_def usage_streams stream_deltas_def usage_deduped)
  have items: "cus_items (dbc_data ?S) = [usage_item (\<lambda>x. []) ''aa:bb:cc:dd:ee:ff''
      (client_totals (build_streams ?w ?rs) ''aa:bb:cc:dd:ee:ff'')]"
    by (simp add: CalculateBandwidthConsumptionSummary_def Let_def usage_items_def usage_items_unsorted obs std_sort_def)
  have mac: "cui_mac (usage_item f m T) = m" for f m T by (simp add: usage_item_def Let_def)
  show ?thesis
    using CalculateBandwidthConsumptionSummary_bytes[where rs = ?rs and w = ?w and fmtMB = "\<lambda>x. []"
        and it = "usage_item (\<lambda>x. []) ''aa:bb:cc:dd:ee:ff'' (client_totals (build_streams ?w ?rs) ''aa:bb:cc:dd:ee:ff'')"]
    by (simp add: items mac bytes)
qed

text \<open>
  the observed window of the report spans exactly the counted segments of the clients it lists.
\<close>

theorem CalculateBandwidthConsumptionSummary_window:
  fixes w :: mcp_window and fmtMB :: "fp \<Rightarrow> string" and rs :: "DeviceTimePoint list"
  defines "S \<equiv> CalculateBandwidthConsumptionSummary fmtMB rs w"
  defines "segs \<equiv> (\<Union>it \<in> set (cus_items (dbc_data S)). client_segments (build_streams w rs) (cui_mac it))"
  shows "meta_observedWindow (dbc_meta S) =
     (if segs = {} then MCPObservedWindow_init else observed_of True (Min (fst ` segs)) (Max (snd ` segs)))"
proof -
  define es where "es = build_streams w rs"
  define ms where "ms = filter (\<lambda>m. client_segments es m \<noteq> {}) (map cui_mac (cus_items (dbc_data S)))"
  let ?A = "\<lambda>m. client_segments es m"
  have fin: "finite (?A m)" for m by (simp add: client_segments_def)
  have items: "cus_items (dbc_data S) = take 500 (usage_items fmtMB (totals_by_mac es))"
    by (simp add: S_def CalculateBandwidthConsumptionSummary_def Let_def es_def)
  have known: "cui_mac it \<in> (fst \<circ> fst) ` set es" if "it \<in> set (cus_items (dbc_data S))" for it
  proof -
    from that have "it \<in> set (usage_items fmtMB (totals_by_mac es))"
      unfolding items by (rule in_set_takeD)
    then obtain m where m: "m \<in> set (observed_clients es)" "it = usage_item fmtMB m (client_totals es m)"
      unfolding usage_items_set(1) by blast
    then have "cui_mac it = m" by (simp add: usage_item_def Let_def)
    with m(1) show ?thesis by (simp add: observed_clients_def)
  qed
  have seg: "usage_segments (totals_by_mac es) its = map (\<lambda>m. (Min (fst ` ?A m), Max (snd ` ?A m)))
      (filter (\<lambda>m. ?A m \<noteq> {}) (map cui_mac its))" if "set its \<subseteq> set (cus_items (dbc_data S))" for its
    using that
  proof (induction its)
    case (Cons it its)
    then have "map_of (totals_by_mac es) (cui_mac it) = Some (client_totals es (cui_mac it))"
      using known[of it] totals_lookup[of es "cui_mac it"] by (simp only: if_True) auto
    with Cons show ?case
      by (simp add: usage_segments_def List.map_filter_simps client_totals_spec)
  qed (simp add: usage_segments_def List.map_filter_simps)
  have obs: "meta_observedWindow (dbc_meta S) = observed_segments (usage_segments (totals_by_mac es) (cus_items (dbc_data S)))"
    by (simp add: S_def CalculateBandwidthConsumptionSummary_def Let_def es_def)
  have segs: "segs = (\<Union>m \<in> set ms. ?A m)"
    by (auto simp: segs_def ms_def es_def)
  show ?thesis
  proof (cases "ms = []")
    case True
    then show ?thesis
      unfolding obs seg[OF subset_refl] ms_def[symmetric] segs by (simp add: observed_segments_spans)
  next
    case False
    have ne: "finite (f ` ?A m) \<and> f ` ?A m \<noteq> {}" if "m \<in> set ms" for m and f :: "u64 \<times> u64 \<Rightarrow> u64"
      using that fin by (auto simp: ms_def)
    obtain m where "m \<in> set ms" using False by (cases ms) auto
    then have "segs \<noteq> {}" unfolding segs by (auto simp: ms_def)
    moreover have "Min ((\<lambda>m. Min (fst ` ?A m)) ` set ms) = Min (\<Union>m \<in> set ms. fst ` ?A m)"
      using False ne by (intro Min_UN_Min) auto
    moreover have "Max ((\<lambda>m. Max (snd ` ?A m)) ` set ms) = Max (\<Union>m \<in> set ms. snd ` ?A m)"
      using False ne by (intro Max_UN_Max) auto
    ultimately show ?thesis
      unfolding obs seg[OF subset_refl] ms_def[symmetric] using False
      by (auto simp: observed_segments_spans image_image segs image_UN)
  qed
qed

end
