(* ===== verification/McpRssi.thy ===== *)
theory McpRssi
  imports McpWindow McpMac
begin

text \<open>
  \<^verbatim>\<open>CalculateDeviceRssiQualitySummary\<close>: per client, how many association samples inside the window fall
  in each of the four signal classes, as percentages with two decimals, and
  \<^verbatim>\<open>CalculateGatewayAvailabilitySummary\<close>.
\<close>

record RssiClientStats =
  rs_excellent :: u64
  rs_good :: u64
  rs_fair :: u64
  rs_poor :: u64
  rs_hasSample :: bool
  rs_observedStart :: u64
  rs_observedEnd :: u64

definition RssiClientStats_init :: RssiClientStats where
  "RssiClientStats_init = \<lparr>rs_excellent = 0, rs_good = 0, rs_fair = 0, rs_poor = 0, rs_hasSample = False,
     rs_observedStart = 0, rs_observedEnd = 0\<rparr>"

definition rssi_count :: "int \<Rightarrow> RssiClientStats \<Rightarrow> RssiClientStats" where
  "rssi_count Rssi Stats =
     (if Rssi \<ge> - 55 then Stats\<lparr>rs_excellent := rs_excellent Stats + 1\<rparr>
      else if Rssi \<ge> - 67 then Stats\<lparr>rs_good := rs_good Stats + 1\<rparr>
      else if Rssi \<ge> - 75 then Stats\<lparr>rs_fair := rs_fair Stats + 1\<rparr>
      else Stats\<lparr>rs_poor := rs_poor Stats + 1\<rparr>)"

definition rssi_mark :: "u64 \<times> u64 \<Rightarrow> RssiClientStats \<Rightarrow> RssiClientStats" where
  "rssi_mark seg Stats =
     (if \<not> rs_hasSample Stats
      then Stats\<lparr>rs_observedStart := fst seg, rs_observedEnd := snd seg, rs_hasSample := True\<rparr>
      else Stats\<lparr>rs_observedStart := min (rs_observedStart Stats) (fst seg),
                 rs_observedEnd := max (rs_observedEnd Stats) (snd seg)\<rparr>)"

text \<open>The body of the innermost loop for the record at \<open>Timestamp\<close>.\<close>

definition rssi_assoc ::
  "u64 \<Rightarrow> UETimePoint \<Rightarrow> (string, RssiClientStats) omap \<Rightarrow> (string, RssiClientStats) omap" where
  "rssi_assoc Timestamp Assoc ClientStatsByMac =
     (case NormalizeClientMac (ue_station Assoc) of
        None \<Rightarrow> ClientStatsByMac
      | Some Mac \<Rightarrow>
          (let Rssi = ue_rssi Assoc
           in if Rssi > - 1 \<or> Rssi < - 127 then ClientStatsByMac
              else omap_set Mac
                     (rssi_mark (Timestamp, Timestamp)
                        (rssi_count Rssi (omap_get_or RssiClientStats_init Mac ClientStatsByMac)))
                     ClientStatsByMac))"

definition rssi_record ::
  "mcp_window \<Rightarrow> DeviceTimePoint \<Rightarrow> (string, RssiClientStats) omap \<Rightarrow> (string, RssiClientStats) omap" where
  "rssi_record Requested Record ClientStatsByMac =
     (if \<not> TimestampInHalfOpenWindow (dtp_timestamp Record) Requested then ClientStatsByMac
      else fold (\<lambda>SSID. fold (rssi_assoc (dtp_timestamp Record)) (ssidtp_associations SSID))
             (dtp_ssid_data Record) ClientStatsByMac)"

definition RoundTwoDecimals :: "fp \<Rightarrow> fp" where
  "RoundTwoDecimals Value = fp_div binary64 (fp_round_away (fp_mul binary64 Value (Fin 100))) (Fin 100)"

definition rssi_pct :: "u64 \<Rightarrow> u64 \<Rightarrow> fp" where
  "rssi_pct n TotalSamples =
     RoundTwoDecimals (fp_div binary64 (fp_mul binary64 (fp_of_nat binary64 (unat n)) (Fin 100))
                         (fp_of_nat binary64 (unat TotalSamples)))"

definition rssi_total :: "RssiClientStats \<Rightarrow> u64" where
  "rssi_total Stats = rs_excellent Stats + rs_good Stats + rs_fair Stats + rs_poor Stats"

definition rssi_item :: "string \<Rightarrow> RssiClientStats \<Rightarrow> MCPClientRssiItem" where
  "rssi_item Mac Stats =
     \<lparr>cri_mac = Mac,
      cri_rssi_excellent_pct = rssi_pct (rs_excellent Stats) (rssi_total Stats),
      cri_rssi_good_pct = rssi_pct (rs_good Stats) (rssi_total Stats),
      cri_rssi_fair_pct = rssi_pct (rs_fair Stats) (rssi_total Stats),
      cri_rssi_poor_pct = rssi_pct (rs_poor Stats) (rssi_total Stats),
      cri_rssi_total_samples = rssi_total Stats\<rparr>"

definition rssi_items :: "(string, RssiClientStats) omap \<Rightarrow> MCPClientRssiItem list" where
  "rssi_items ClientStatsByMac =
     std_sort (\<lambda>A B. cri_mac A < cri_mac B)
       (List.map_filter (\<lambda>(Mac, Stats). if rssi_total Stats = 0 then None else Some (rssi_item Mac Stats))
          ClientStatsByMac)"

definition rssi_segments ::
  "(string, RssiClientStats) omap \<Rightarrow> MCPClientRssiItem list \<Rightarrow> (u64 \<times> u64) list" where
  "rssi_segments ClientStatsByMac Items =
     List.map_filter (\<lambda>Item. case map_of ClientStatsByMac (cri_mac Item) of
         None \<Rightarrow> None
       | Some Stats \<Rightarrow> if \<not> rs_hasSample Stats then None
                       else Some (rs_observedStart Stats, rs_observedEnd Stats)) Items"

definition CalculateDeviceRssiQualitySummary ::
  "DeviceTimePoint list \<Rightarrow> mcp_window \<Rightarrow> MCPClientRssiQualitySummary" where
  "CalculateDeviceRssiQualitySummary Records Requested =
     (let ClientStatsByMac = fold (rssi_record Requested) Records [];
          All = rssi_items ClientStatsByMac;
          Items = (if length All > 500 then take 500 All else All)
      in \<lparr>crq_requestedWindow = requested_window Requested,
          crq_observedWindow = observed_segments (rssi_segments ClientStatsByMac Items),
          crq_items = Items,
          crq_totalClients = of_nat (length All),
          crq_truncated = (length All > 500)\<rparr>)"

definition CalculateGatewayAvailabilitySummary ::
  "string \<Rightarrow> mcp_window \<Rightarrow> u64 \<Rightarrow> u64 option \<Rightarrow> u64 option \<Rightarrow> MCPGatewayAvailabilitySummary" where
  "CalculateGatewayAvailabilitySummary routerId Requested offlineCount observedStartTime observedEndTime =
     \<lparr>gas_meta = \<lparr>gam_requestedWindow = requested_window Requested,
                   gam_observedWindow = \<lparr>ow_startTime = map_option FormatTimestamp observedStartTime,
                                          ow_endTime = map_option FormatTimestamp observedEndTime\<rparr>\<rparr>,
      gas_data = MCPGatewayAvailabilityData_init
        \<lparr>gad_gw_uuid := routerId, gad_offlineEventCount := offlineCount\<rparr>\<rparr>"

interpretation rssi_window: obs_window rs_hasSample rs_observedStart rs_observedEnd rssi_mark
  by unfold_locales (auto simp: rssi_mark_def)

subsection \<open>Grouping by client\<close>

text \<open>The samples that count: canonical MAC, signal and time, in the order of the records.\<close>

type_synonym rssi_sample = "string \<times> int \<times> u64"

definition assoc_sample :: "u64 \<Rightarrow> UETimePoint \<Rightarrow> rssi_sample option" where
  "assoc_sample t a =
     (case NormalizeClientMac (ue_station a) of
        None \<Rightarrow> None
      | Some m \<Rightarrow> if ue_rssi a > - 1 \<or> ue_rssi a < - 127 then None else Some (m, ue_rssi a, t))"

definition rssi_samples :: "mcp_window \<Rightarrow> DeviceTimePoint list \<Rightarrow> rssi_sample list" where
  "rssi_samples w rs =
     concat (map (\<lambda>r. concat (map (\<lambda>s. List.map_filter (assoc_sample (dtp_timestamp r)) (ssidtp_associations s))
                       (dtp_ssid_data r)))
       (filter (\<lambda>r. TimestampInHalfOpenWindow (dtp_timestamp r) w) rs))"

definition rssi_add :: "rssi_sample \<Rightarrow> RssiClientStats \<Rightarrow> RssiClientStats" where
  "rssi_add p Stats = rssi_mark (snd (snd p), snd (snd p)) (rssi_count (fst (snd p)) Stats)"

definition rssi_insert ::
  "rssi_sample \<Rightarrow> (string, RssiClientStats) omap \<Rightarrow> (string, RssiClientStats) omap" where
  "rssi_insert p m =
     omap_set (fst p) (rssi_add p (case map_of m (fst p) of None \<Rightarrow> RssiClientStats_init | Some v \<Rightarrow> v)) m"

lemma fold_map_filter:
  "fold (\<lambda>x. case f x of None \<Rightarrow> id | Some y \<Rightarrow> g y) xs s = fold g (List.map_filter f xs) s"
  by (induction xs arbitrary: s) (auto simp: List.map_filter_simps split: option.split)

lemma rssi_assoc_eq: "rssi_assoc t a = (case assoc_sample t a of None \<Rightarrow> id | Some p \<Rightarrow> rssi_insert p)"
  by (auto simp: fun_eq_iff rssi_assoc_def assoc_sample_def rssi_insert_def rssi_add_def omap_get_or_def
      Let_def split: option.split)

lemma fold_rssi_assoc: "fold (rssi_assoc t) as = fold rssi_insert (List.map_filter (assoc_sample t) as)"
  unfolding rssi_assoc_eq by (rule ext) (rule fold_map_filter)

lemma fold_concat: "fold (\<lambda>x. fold f (g x)) xs s = fold f (concat (map g xs)) s"
  by (induction xs arbitrary: s) auto

lemma fold_rssi_record: "fold (rssi_record w) rs m = fold rssi_insert (rssi_samples w rs) m"
proof (induction rs arbitrary: m)
  case (Cons r rs)
  have "rssi_record w r m = fold rssi_insert (rssi_samples w [r]) m"
    by (simp add: rssi_record_def rssi_samples_def fold_rssi_assoc
        fold_concat[of rssi_insert])
  with Cons show ?case by (simp add: rssi_samples_def)
qed (simp add: rssi_samples_def)

definition client_stats :: "mcp_window \<Rightarrow> DeviceTimePoint list \<Rightarrow> string \<Rightarrow> RssiClientStats" where
  "client_stats w rs m = fold rssi_add (filter (\<lambda>p. fst p = m) (rssi_samples w rs)) RssiClientStats_init"

lemma stats_lookup:
  "map_of (fold (rssi_record w) rs []) m =
     (if m \<in> fst ` set (rssi_samples w rs) then Some (client_stats w rs m) else None)"
  using omap.lookup_fold_update[where key = fst and f = rssi_add and d = RssiClientStats_init
      and xs = "rssi_samples w rs" and m = "[]" and k = m]
  by (auto simp: fold_rssi_record client_stats_def rssi_insert_def[abs_def])

lemma stats_wf: "omap_wf (fold (rssi_record w) rs [])"
  unfolding fold_rssi_record rssi_insert_def[abs_def] by (rule omap.wf_fold_update) simp

subsection \<open>The statistics of a client\<close>

lemma rssi_count_mark: "rssi_mark seg (rssi_count i s) = rssi_count i (rssi_mark seg s)"
  by (simp add: rssi_count_def rssi_mark_def)

lemma fold_rssi_add:
  "fold rssi_add ps s =
     fold (rssi_count \<circ> fst \<circ> snd) ps (fold rssi_mark (map (\<lambda>p. (snd (snd p), snd (snd p))) ps) s)"
proof (induction ps arbitrary: s)
  case (Cons p ps)
  have "fold rssi_mark segs (rssi_count i s) = rssi_count i (fold rssi_mark segs s)" for segs i and s
    by (induction segs arbitrary: s) (simp_all add: rssi_count_mark)
  with Cons show ?case by (simp add: rssi_add_def rssi_count_mark)
qed simp

lemma fold_rssi_count_window [simp]:
  "rs_hasSample (fold (rssi_count \<circ> f) ps s) = rs_hasSample s"
  "rs_observedStart (fold (rssi_count \<circ> f) ps s) = rs_observedStart s"
  "rs_observedEnd (fold (rssi_count \<circ> f) ps s) = rs_observedEnd s"
  by (induction ps arbitrary: s) (simp_all add: rssi_count_def)

lemma rssi_mark_counts [simp]:
  "rs_excellent (fold rssi_mark segs s) = rs_excellent s" "rs_good (fold rssi_mark segs s) = rs_good s"
  "rs_fair (fold rssi_mark segs s) = rs_fair s" "rs_poor (fold rssi_mark segs s) = rs_poor s"
  by (induction segs arbitrary: s) (simp_all add: rssi_mark_def)

definition rssi_class :: "int \<Rightarrow> nat" where
  "rssi_class i = (if i \<ge> - 55 then 0 else if i \<ge> - 67 then 1 else if i \<ge> - 75 then 2 else 3)"

definition class_count :: "nat \<Rightarrow> rssi_sample list \<Rightarrow> nat" where
  "class_count k ps = length (filter (\<lambda>p. rssi_class (fst (snd p)) = k) ps)"

lemma fold_rssi_count:
  "rs_excellent (fold (rssi_count \<circ> fst \<circ> snd) ps s) = rs_excellent s + of_nat (class_count 0 ps)"
  "rs_good (fold (rssi_count \<circ> fst \<circ> snd) ps s) = rs_good s + of_nat (class_count 1 ps)"
  "rs_fair (fold (rssi_count \<circ> fst \<circ> snd) ps s) = rs_fair s + of_nat (class_count 2 ps)"
  "rs_poor (fold (rssi_count \<circ> fst \<circ> snd) ps s) = rs_poor s + of_nat (class_count 3 ps)"
  by (induction ps arbitrary: s) (simp_all add: rssi_count_def rssi_class_def class_count_def)

lemma class_count_total:
  "class_count 0 ps + class_count 1 ps + class_count 2 ps + class_count 3 ps = length ps"
  by (induction ps) (auto simp: class_count_def rssi_class_def)

definition client_samples :: "mcp_window \<Rightarrow> DeviceTimePoint list \<Rightarrow> string \<Rightarrow> rssi_sample list" where
  "client_samples w rs m = filter (\<lambda>p. fst p = m) (rssi_samples w rs)"

lemma client_stats_counts:
  "rs_excellent (client_stats w rs m) = of_nat (class_count 0 (client_samples w rs m))"
  "rs_good (client_stats w rs m) = of_nat (class_count 1 (client_samples w rs m))"
  "rs_fair (client_stats w rs m) = of_nat (class_count 2 (client_samples w rs m))"
  "rs_poor (client_stats w rs m) = of_nat (class_count 3 (client_samples w rs m))"
  "rssi_total (client_stats w rs m) = of_nat (length (client_samples w rs m))"
proof -
  show "rs_excellent (client_stats w rs m) = of_nat (class_count 0 (client_samples w rs m))"
    "rs_good (client_stats w rs m) = of_nat (class_count 1 (client_samples w rs m))"
    "rs_fair (client_stats w rs m) = of_nat (class_count 2 (client_samples w rs m))"
    "rs_poor (client_stats w rs m) = of_nat (class_count 3 (client_samples w rs m))"
    by (simp_all add: client_stats_def client_samples_def fold_rssi_add fold_rssi_count RssiClientStats_init_def)
  then show "rssi_total (client_stats w rs m) = of_nat (length (client_samples w rs m))"
    unfolding rssi_total_def class_count_total[symmetric] by simp
qed

lemma client_stats_window:
  assumes "client_samples w rs m \<noteq> []"
  shows "rs_hasSample (client_stats w rs m)"
    "rs_observedStart (client_stats w rs m) = Min ((snd \<circ> snd) ` set (client_samples w rs m))"
    "rs_observedEnd (client_stats w rs m) = Max ((snd \<circ> snd) ` set (client_samples w rs m))"
proof -
  define segs where "segs = map (\<lambda>p. (snd (snd p), snd (snd p))) (client_samples w rs m)"
  have st: "client_stats w rs m = fold (rssi_count \<circ> fst \<circ> snd) (client_samples w rs m) (fold rssi_mark segs RssiClientStats_init)"
    by (simp add: client_stats_def client_samples_def fold_rssi_add segs_def)
  have segs: "segs \<noteq> []" "fst ` set segs = (snd \<circ> snd) ` set (client_samples w rs m)"
      "snd ` set segs = (snd \<circ> snd) ` set (client_samples w rs m)"
    using assms by (simp_all add: segs_def image_image)
  have "\<not> rs_hasSample RssiClientStats_init" by (simp add: RssiClientStats_init_def)
  note spans = rssi_window.fold_mark_spans[OF this segs(1)] rssi_window.fold_mark_seen[of segs RssiClientStats_init]
  show "rs_hasSample (client_stats w rs m)"
    "rs_observedStart (client_stats w rs m) = Min ((snd \<circ> snd) ` set (client_samples w rs m))"
    "rs_observedEnd (client_stats w rs m) = Max ((snd \<circ> snd) ` set (client_samples w rs m))"
    using spans segs by (simp_all add: st comp_assoc)
qed

subsection \<open>Percentages\<close>

lemma double_small:
  assumes "\<bar>x\<bar> \<le> 2 ^ 53"
  shows "fp_round binary64 x = Fin (fp_rnd binary64 x)"
proof -
  have "(2 :: rat) ^ 53 = 2 powi 53" by (simp only: power_int_numeral)
  with assms show ?thesis by (intro double_round_bounded(1)[of _ 53]) simp_all
qed

lemma double_small_nat: "n \<le> 2 ^ 53 \<Longrightarrow> fp_round binary64 (of_nat n) = Fin (of_nat n)"
proof -
  assume n: "n \<le> 2 ^ 53"
  then have "rat_of_nat n \<le> rat_of_nat (2 ^ 53)" by (simp only: of_nat_le_iff)
  with double_small[of "of_nat n"] double.fl_nat[OF n] show ?thesis by simp
qed

lemma round_away_bounds: "0 \<le> x \<Longrightarrow> x \<le> of_int k \<Longrightarrow> 0 \<le> round_away x \<and> round_away x \<le> k"
  by (auto simp: round_away_def floor_le_iff)

lemma rssi_pct_range:
  assumes "n \<le> t" "0 < t" "t * 100 \<le> 2 ^ 53"
  shows "\<exists>p. rssi_pct (of_nat n) (of_nat t) = Fin p \<and> 0 \<le> p \<and> p \<le> 100"
proof -
  have un: "unat (of_nat n :: u64) = n" "unat (of_nat t :: u64) = t"
    using assms by (simp_all add: unat_of_nat)
  have hundred: "fp_rnd binary64 100 = 100" using double.fl_int[of 100] by simp
  define x where "x = fp_rnd binary64 (of_nat (n * 100) / of_nat t)"
  have quot: "0 \<le> rat_of_nat (n * 100) / of_nat t" "rat_of_nat (n * 100) / of_nat t \<le> 100"
    using assms(1,2) of_nat_le_iff[of n t, where 'a = rat] by (simp_all add: divide_le_eq)
  have x: "0 \<le> x" "x \<le> 100"
    unfolding x_def using double.fl_bounds[OF double.fl_0 hundred quot] by simp_all
  define y where "y = fp_rnd binary64 (x * 100)"
  have y: "0 \<le> y" "y \<le> of_int 10000"
    unfolding y_def using double.fl_bounds[of 0 10000 "x * 100"] double.fl_int[of 10000] x by simp_all
  define k where "k = round_away y"
  have k: "0 \<le> k" "k \<le> 10000" using round_away_bounds[OF y] by (simp_all add: k_def)
  define z where "z = fp_rnd binary64 (of_int k / 100)"
  have "0 \<le> rat_of_int k / 100" "rat_of_int k / 100 \<le> 100" using k by (simp_all add: divide_le_eq)
  then have z: "0 \<le> z" "z \<le> 100"
    unfolding z_def using double.fl_bounds[OF double.fl_0 hundred] by simp_all
  have r1: "fp_round binary64 (of_nat n) = Fin (of_nat n)" "fp_round binary64 (of_nat t) = Fin (of_nat t)"
    "fp_round binary64 (of_nat (n * 100)) = Fin (of_nat (n * 100))"
    using assms by (intro double_small_nat; simp)+
  have r2: "fp_round binary64 (of_nat (n * 100) / of_nat t) = Fin x"
    unfolding x_def using quot by (intro double_small) simp
  have r3: "fp_round binary64 (x * 100) = Fin y"
    unfolding y_def using x by (intro double_small) (simp add: abs_le_iff)
  have r4: "fp_round binary64 (of_int k / 100) = Fin z"
    unfolding z_def using k by (intro double_small) (simp add: abs_le_iff)
  have "rssi_pct (of_nat n) (of_nat t) = Fin z"
    using assms(2) r1(3) r2 r3 r4
    by (simp add: rssi_pct_def RoundTwoDecimals_def un fp_of_nat_def r1(1,2) k_def)
  with z show ?thesis by blast
qed

subsection \<open>The summary\<close>

definition rssi_clients :: "mcp_window \<Rightarrow> DeviceTimePoint list \<Rightarrow> string list" where
  "rssi_clients w rs = sorted_list_of_set (fst ` set (rssi_samples w rs))"

lemma stats_entries:
  "fold (rssi_record w) rs [] = map (\<lambda>m. (m, client_stats w rs m)) (rssi_clients w rs)"
proof -
  let ?m = "fold (rssi_record w) rs []"
  have "dom (map_of ?m) = fst ` set (rssi_samples w rs)"
    by (auto simp: dom_def stats_lookup split: if_splits)
  with omap_entries[OF stats_wf[of w rs]]
  have "?m = map (\<lambda>k. (k, the (map_of ?m k))) (rssi_clients w rs)"
    by (simp add: rssi_clients_def)
  also have "\<dots> = map (\<lambda>m. (m, client_stats w rs m)) (rssi_clients w rs)"
    by (intro map_cong refl) (simp add: stats_lookup rssi_clients_def)
  finally show ?thesis .
qed

lemma client_samples_nonempty:
  assumes "m \<in> set (rssi_clients w rs)"
  shows "client_samples w rs m \<noteq> []"
  using assms by (auto simp: rssi_clients_def client_samples_def filter_empty_conv)

lemma length_client_samples: "length (client_samples w rs m) \<le> length (rssi_samples w rs)"
  by (simp add: client_samples_def)

lemma rssi_items_clients:
  assumes "length (rssi_samples w rs) < 2 ^ 64"
  shows "rssi_items (fold (rssi_record w) rs []) =
     map (\<lambda>m. rssi_item m (client_stats w rs m)) (rssi_clients w rs)"
proof -
  have nz: "rssi_total (client_stats w rs m) \<noteq> 0" if "m \<in> set (rssi_clients w rs)" for m
  proof
    assume "rssi_total (client_stats w rs m) = 0"
    then have "unat (of_nat (length (client_samples w rs m)) :: u64) = 0"
      by (simp add: client_stats_counts)
    with assms length_client_samples[of w rs m] client_samples_nonempty[OF that] show False
      by (simp add: unat_of_nat)
  qed
  have "List.map_filter (\<lambda>(Mac, Stats). if rssi_total Stats = 0 then None else Some (rssi_item Mac Stats))
      (map (\<lambda>m. (m, client_stats w rs m)) ms) = map (\<lambda>m. rssi_item m (client_stats w rs m)) ms"
    if "set ms \<subseteq> set (rssi_clients w rs)" for ms
    using that nz by (induction ms) (auto simp: List.map_filter_simps)
  moreover have "sorted_wrt (\<lambda>A B. cri_mac A < cri_mac B)
      (map (\<lambda>m. rssi_item m (client_stats w rs m)) (rssi_clients w rs))"
    by (simp add: sorted_wrt_map rssi_item_def rssi_clients_def)
  ultimately show ?thesis
    by (simp add: rssi_items_def stats_entries std_sort_sorted)
qed

lemma rssi_summary_items:
  assumes "length (rssi_samples w rs) < 2 ^ 64"
  shows "crq_items (CalculateDeviceRssiQualitySummary rs w) =
     map (\<lambda>m. rssi_item m (client_stats w rs m)) (take 500 (rssi_clients w rs))"
  unfolding CalculateDeviceRssiQualitySummary_def Let_def take_if_longer rssi_items_clients[OF assms]
  by (simp add: take_map)

text \<open>
  C32: the clients reported are exactly those with a valid sample inside the window, in the order of
  their canonical MAC, cut at 500; the total and the truncation flag tell how many there are.  Each
  item counts exactly the client's samples, split into the four signal classes.
\<close>

theorem CalculateDeviceRssiQualitySummary_items:
  fixes w :: mcp_window
  assumes "length (rssi_samples w rs) < 2 ^ 64"
  defines "S \<equiv> CalculateDeviceRssiQualitySummary rs w"
  shows "map cri_mac (crq_items S) = take 500 (rssi_clients w rs) \<and>
     crq_totalClients S = of_nat (length (rssi_clients w rs)) \<and>
     crq_truncated S = (length (rssi_clients w rs) > 500) \<and>
     list_all (\<lambda>it. let ps = client_samples w rs (cri_mac it); n = of_nat (length ps) in
        cri_rssi_total_samples it = n \<and>
        cri_rssi_excellent_pct it = rssi_pct (of_nat (class_count 0 ps)) n \<and>
        cri_rssi_good_pct it = rssi_pct (of_nat (class_count 1 ps)) n \<and>
        cri_rssi_fair_pct it = rssi_pct (of_nat (class_count 2 ps)) n \<and>
        cri_rssi_poor_pct it = rssi_pct (of_nat (class_count 3 ps)) n) (crq_items S)"
proof -
  have items: "crq_items S = map (\<lambda>m. rssi_item m (client_stats w rs m)) (take 500 (rssi_clients w rs))"
    unfolding S_def by (rule rssi_summary_items[OF assms(1)])
  then have "map cri_mac (crq_items S) = take 500 (rssi_clients w rs)"
    by (simp add: rssi_item_def o_def)
  moreover have "crq_totalClients S = of_nat (length (rssi_clients w rs))"
      "crq_truncated S = (length (rssi_clients w rs) > 500)"
    by (simp_all add: S_def CalculateDeviceRssiQualitySummary_def rssi_items_clients[OF assms(1)] Let_def)
  ultimately show ?thesis
    by (simp add: items list_all_iff rssi_item_def client_stats_counts Let_def)
qed

definition rssi_test_record :: "u64 \<Rightarrow> string \<Rightarrow> int \<Rightarrow> DeviceTimePoint" where
  "rssi_test_record t station i = DeviceTimePoint_init\<lparr>dtp_timestamp := t,
     dtp_ssid_data := [SSIDTimePoint_init\<lparr>ssidtp_associations := [UETimePoint_init\<lparr>ue_station := station, ue_rssi := i\<rparr>]\<rparr>]\<rparr>"

lemma rssi_test_samples:
  "rssi_samples \<lparr>startTime = 0, endTime = 3600, lookbackHours = 1\<rparr>
     [rssi_test_record 10 ''aabbccddeeff'' (- 50), rssi_test_record 20 ''aa:bb:cc:dd:ee:ff'' (- 70)] =
   [(''aa:bb:cc:dd:ee:ff'', - 50, 10), (''aa:bb:cc:dd:ee:ff'', - 70, 20)]"
  by (simp add: rssi_samples_def rssi_test_record_def TimestampInHalfOpenWindow_def DeviceTimePoint_init_def
      SSIDTimePoint_init_def UETimePoint_init_def assoc_sample_def NormalizeClientMac_def List.map_filter_simps
      ctype_simps)

theorem CalculateDeviceRssiQualitySummary_items_witness:
  "map (\<lambda>it. (cri_mac it, cri_rssi_total_samples it))
     (crq_items (CalculateDeviceRssiQualitySummary
        [rssi_test_record 10 ''aabbccddeeff'' (- 50), rssi_test_record 20 ''aa:bb:cc:dd:ee:ff'' (- 70)]
        \<lparr>startTime = 0, endTime = 3600, lookbackHours = 1\<rparr>)) = [(''aa:bb:cc:dd:ee:ff'', 2)]"
proof -
  let ?w = "\<lparr>startTime = 0, endTime = 3600, lookbackHours = 1\<rparr> :: mcp_window"
  let ?rs = "[rssi_test_record 10 ''aabbccddeeff'' (- 50), rssi_test_record 20 ''aa:bb:cc:dd:ee:ff'' (- 70)]"
  have clients: "rssi_clients ?w ?rs = [''aa:bb:cc:dd:ee:ff'']"
    by (simp add: rssi_clients_def rssi_test_samples)
  show ?thesis
    using CalculateDeviceRssiQualitySummary_items[of ?w ?rs]
    by (auto simp: clients client_samples_def rssi_test_samples Let_def map_eq_Cons_conv)
qed

text \<open>
  every percentage of the report is a finite number between 0 and 100, whatever the roundings
  of its three floating-point steps.
\<close>

theorem CalculateDeviceRssiQualitySummary_percentages:
  fixes w :: mcp_window
  assumes "length (rssi_samples w rs) * 100 \<le> 2 ^ 53"
    and "it \<in> set (crq_items (CalculateDeviceRssiQualitySummary rs w))"
    and "p \<in> {cri_rssi_excellent_pct it, cri_rssi_good_pct it, cri_rssi_fair_pct it, cri_rssi_poor_pct it}"
  shows "\<exists>x. p = Fin x \<and> 0 \<le> x \<and> x \<le> 100"
proof -
  have len: "length (rssi_samples w rs) < 2 ^ 64" using assms(1) by simp
  obtain m where m: "m \<in> set (rssi_clients w rs)" and it: "it = rssi_item m (client_stats w rs m)"
    using assms(2) by (auto simp: rssi_summary_items[OF len] dest: in_set_takeD)
  define ps where "ps = client_samples w rs m"
  have ps: "0 < length ps" "length ps * 100 \<le> 2 ^ 53"
    using client_samples_nonempty[OF m] length_client_samples[of w rs m] assms(1) by (auto simp: ps_def)
  from assms(3) obtain k where "p = rssi_pct (of_nat (class_count k ps)) (of_nat (length ps))"
    by (auto simp: it rssi_item_def client_stats_counts ps_def)
  moreover have "class_count k ps \<le> length ps" by (simp add: class_count_def)
  ultimately show ?thesis
    using rssi_pct_range[OF _ ps] by simp
qed

theorem CalculateDeviceRssiQualitySummary_percentages_witness:
  "\<exists>x. rssi_pct 1 2 = Fin x \<and> 0 \<le> x \<and> x \<le> 100"
proof -
  let ?w = "\<lparr>startTime = 0, endTime = 3600, lookbackHours = 1\<rparr> :: mcp_window"
  let ?rs = "[rssi_test_record 10 ''aabbccddeeff'' (- 50), rssi_test_record 20 ''aa:bb:cc:dd:ee:ff'' (- 70)]"
  let ?it = "rssi_item ''aa:bb:cc:dd:ee:ff'' (client_stats ?w ?rs ''aa:bb:cc:dd:ee:ff'')"
  have "rssi_clients ?w ?rs = [''aa:bb:cc:dd:ee:ff'']"
    by (simp add: rssi_clients_def rssi_test_samples)
  then have it: "?it \<in> set (crq_items (CalculateDeviceRssiQualitySummary ?rs ?w))"
    by (simp add: rssi_summary_items rssi_test_samples)
  have "cri_rssi_excellent_pct ?it = rssi_pct 1 2"
    by (simp add: rssi_item_def client_stats_counts client_samples_def rssi_test_samples class_count_def rssi_class_def)
  then show ?thesis
    using CalculateDeviceRssiQualitySummary_percentages[OF _ it, of "rssi_pct 1 2"]
    by (simp add: rssi_test_samples)
qed

text \<open>
  the observed window of the report spans exactly the samples of the clients it lists.
\<close>

theorem CalculateDeviceRssiQualitySummary_window:
  fixes w :: mcp_window
  assumes "length (rssi_samples w rs) < 2 ^ 64"
  defines "shown \<equiv> filter (\<lambda>p. fst p \<in> set (take 500 (rssi_clients w rs))) (rssi_samples w rs)"
  shows "crq_observedWindow (CalculateDeviceRssiQualitySummary rs w) =
     (if rssi_samples w rs = [] then MCPObservedWindow_init
      else observed_of True (Min ((snd \<circ> snd) ` set shown)) (Max ((snd \<circ> snd) ` set shown)))"
proof -
  define ms where "ms = take 500 (rssi_clients w rs)"
  let ?lo = "\<lambda>m. Min ((snd \<circ> snd) ` set (client_samples w rs m))"
  let ?hi = "\<lambda>m. Max ((snd \<circ> snd) ` set (client_samples w rs m))"
  have sub: "set ms \<subseteq> set (rssi_clients w rs)" by (auto simp: ms_def dest: in_set_takeD)
  have seg: "(case map_of (fold (rssi_record w) rs []) m of None \<Rightarrow> None
       | Some Stats \<Rightarrow> if \<not> rs_hasSample Stats then None else Some (rs_observedStart Stats, rs_observedEnd Stats))
      = Some (?lo m, ?hi m)" if "m \<in> set (rssi_clients w rs)" for m
    using that client_stats_window[OF client_samples_nonempty[OF that]]
    by (simp add: stats_lookup rssi_clients_def)
  have "rssi_segments (fold (rssi_record w) rs []) (map (\<lambda>m. rssi_item m (client_stats w rs m)) ms) =
      map (\<lambda>m. (?lo m, ?hi m)) ms"
    using sub by (induction ms) (auto simp: rssi_segments_def List.map_filter_simps rssi_item_def seg)
  then have obs: "crq_observedWindow (CalculateDeviceRssiQualitySummary rs w) =
      observed_segments (map (\<lambda>m. (?lo m, ?hi m)) ms)"
    unfolding CalculateDeviceRssiQualitySummary_def Let_def take_if_longer rssi_items_clients[OF assms(1)]
    by (simp add: take_map ms_def)
  show ?thesis
  proof (cases "rssi_samples w rs = []")
    case True
    then show ?thesis unfolding obs by (simp add: ms_def rssi_clients_def observed_segments_spans)
  next
    case False
    then have "ms \<noteq> []" by (simp add: ms_def rssi_clients_def)
    have shown: "set shown = (\<Union>m \<in> set ms. set (client_samples w rs m))"
      by (auto simp: shown_def ms_def client_samples_def)
    have ne: "client_samples w rs m \<noteq> []" if "m \<in> set ms" for m
      using that sub client_samples_nonempty by blast
    have "Min (?lo ` set ms) = Min (\<Union>m \<in> set ms. (snd \<circ> snd) ` set (client_samples w rs m))"
      using ne \<open>ms \<noteq> []\<close> by (intro Min_UN_Min) auto
    moreover have "Max (?hi ` set ms) = Max (\<Union>m \<in> set ms. (snd \<circ> snd) ` set (client_samples w rs m))"
      using ne \<open>ms \<noteq> []\<close> by (intro Max_UN_Max) auto
    ultimately show ?thesis
      using False \<open>ms \<noteq> []\<close> unfolding obs observed_segments_spans shown image_UN
      by (simp add: image_image)
  qed
qed

theorem CalculateDeviceRssiQualitySummary_window_witness:
  "crq_observedWindow (CalculateDeviceRssiQualitySummary
     [rssi_test_record 10 ''aabbccddeeff'' (- 50), rssi_test_record 20 ''aa:bb:cc:dd:ee:ff'' (- 70)]
     \<lparr>startTime = 0, endTime = 3600, lookbackHours = 1\<rparr>) = observed_of True 10 20"
proof -
  let ?w = "\<lparr>startTime = 0, endTime = 3600, lookbackHours = 1\<rparr> :: mcp_window"
  let ?rs = "[rssi_test_record 10 ''aabbccddeeff'' (- 50), rssi_test_record 20 ''aa:bb:cc:dd:ee:ff'' (- 70)]"
  have "rssi_clients ?w ?rs = [''aa:bb:cc:dd:ee:ff'']"
    by (simp add: rssi_clients_def rssi_test_samples)
  then show ?thesis
    using CalculateDeviceRssiQualitySummary_window[of ?w ?rs] by (simp add: rssi_test_samples)
qed

end
