(* ===== verification/McpHandlers.thy ===== *)
theory McpHandlers
  imports Rest Retention McpMemory McpTemperature McpBandwidth McpRssi
begin

text \<open>
  The five MCP end points (\<^verbatim>\<open>src/src/RESTAPI/RESTAPI_device_*_handler.cpp\<close>) and \<^verbatim>\<open>RESTAPI_mcp_helpers.cpp\<close>, from the
  request to the answer, over the provisioning service, the tables and the clock.
\<close>

section \<open>The environment\<close>

text \<open>\<open>me_now n\<close> is the \<open>n\<close>-th reading of the clock of a request, the first \<open>n\<close> being 0; the readings \<open>me_auth_now\<close> inside
  the check of the token come before.  \<open>me_FindBoards\<close> is \<^verbatim>\<open>FindBoardVenueRecordsByVenue\<close> on the boards table.\<close>

record ('o, 'v, 'c, 'd) mcp_env =
  me_json :: "('o, 'v) poco"
  me_rest :: rest_env
  me_caches :: "('c, 'd) auth_caches"
  me_security :: "'o api"
  me_provisioning :: "'o api"
  me_auth_now :: u64
  me_now :: "nat \<Rightarrow> u64"
  me_ClockSkewSeconds :: u64
  me_ConfiguredMaxSamples :: u64
  me_FindBoards :: "string \<Rightarrow> BoardVenueRecord list option"
  me_db :: "cell list database"
  me_DBType :: DBType
  me_format_MB :: "fp \<Rightarrow> string"

section \<open>RESTAPI\_mcp\_helpers.cpp\<close>

definition SendError :: "('o, 'v) poco \<Rightarrow> rest_env \<Rightarrow> request \<Rightarrow> mcp_error \<Rightarrow> response" where
  "SendError J Env Request E =
     send_object J [(''error'', mk_string J (error E)), (''message'', mk_string J (message E))]
       (PrepareResponse Env Request (status E) False)"

definition AuthenticateBearerToken ::
  "('o, 'v, 'c, 'd) mcp_env \<Rightarrow> 'o handler \<Rightarrow> ('c, 'd) auth_client \<Rightarrow> (mcp_error + unit) \<times> 'o handler \<times> ('c, 'd) auth_client" where
  "AuthenticateBearerToken M H S =
     (case ExtractBearerToken (rq_get (h_Request H) ''Authorization'') of
        Inl E \<Rightarrow> (Inl E, H, S)
      | Inr Token \<Rightarrow>
          (case Auth_IsAuthorized (me_json M) (me_caches M) (me_security M) (me_auth_now M) Token False
              \<lparr> vd_allowed = False, vd_UInfo = h_UserInfo H, vd_Expired = False, vd_Contacted = False \<rparr> S of
             (V, S) \<Rightarrow>
               (if \<not> vd_allowed V then Inl (SetError HTTP_UNAUTHORIZED ''unauthorized'' UnauthorizedMessage) else Inr (),
                H \<lparr> h_UserInfo := vd_UInfo V \<rparr>, S)))"

section \<open>The end points\<close>

text \<open>What the five have in common: the token, the router id, the window, the board and its retention.\<close>

definition mcp_window_and_board ::
  "('o, 'v, 'c, 'd) mcp_env \<Rightarrow> 'o handler \<Rightarrow> ('c, 'd) auth_client \<Rightarrow>
     (mcp_error + string \<times> mcp_window \<times> resolver_result) \<times> ('c, 'd) auth_client" where
  "mcp_window_and_board M H S =
     (case AuthenticateBearerToken M H S of
        (Inl E, H, S) \<Rightarrow> (Inl E, S)
      | (Inr _, H, S) \<Rightarrow>
          (let routerId = GetBinding (h_Bindings H) ''routerId'' []
           in (case ValidateRouterId routerId of
                 Inl E \<Rightarrow> Inl E
               | Inr _ \<Rightarrow>
                   case ValidateWindowQuery (rq_parameters (h_Request H)) (me_now M 0) (me_ClockSkewSeconds M) of
                     Inl E \<Rightarrow> Inl E
                   | Inr Window \<Rightarrow>
                       case Resolve (me_json M) (me_provisioning M) (me_FindBoards M)
                              (tok_access_token (uip_webtoken (h_UserInfo H))) routerId resolver_result_init of
                         Inl E \<Rightarrow> Inl E
                       | Inr Resolved \<Rightarrow>
                           if rr_retention Resolved = 0
                           then Inl (SetError HTTP_NOT_FOUND ''not_found'' ''Router was not found'')
                           else case ValidateRetention Window (rr_retention Resolved) (me_now M 1) (me_ClockSkewSeconds M) of
                                  Inl E \<Rightarrow> Inl E
                                | Inr _ \<Rightarrow> Inr (routerId, Window, Resolved), S)))"

text \<open>What the four that read time points add: the budget of samples.\<close>

definition mcp_budget ::
  "('o, 'v, 'c, 'd) mcp_env \<Rightarrow> 'o handler \<Rightarrow> ('c, 'd) auth_client \<Rightarrow>
     (mcp_error + string \<times> mcp_window \<times> resolver_result \<times> u64) \<times> ('c, 'd) auth_client" where
  "mcp_budget M H S =
     (case mcp_window_and_board M H S of
        (Inl E, S) \<Rightarrow> (Inl E, S)
      | (Inr (routerId, Window, Resolved), S) \<Rightarrow>
          (case ValidateConfiguredMaxSamples (me_ConfiguredMaxSamples M) of
             Inl E \<Rightarrow> Inl E
           | Inr MaxSamples \<Rightarrow>
               case ValidateExpectedSampleCount Window (rr_interval Resolved) MaxSamples of
                 Inl E \<Rightarrow> Inl E
               | Inr _ \<Rightarrow> Inr (routerId, Window, Resolved, MaxSamples), S))"

definition exceeds_max_samples :: mcp_error where
  "exceeds_max_samples = SetError HTTP_BAD_REQUEST ''exceeds_max_samples''
     ''Requested query window exceeds maximum allowed telemetry sample count''"

text \<open>The records of a window, or why there are none; an exception leaves the end point.\<close>

definition mcp_records ::
  "mcp_error \<Rightarrow> selected \<Rightarrow> (mcp_error + DeviceTimePoint list) cpp" where
  "mcp_records query_failed sel =
     bind sel (\<lambda>r. Inr (case r of
        None \<Rightarrow> Inl query_failed
      | Some (Records, LimitExceeded) \<Rightarrow> if LimitExceeded then Inl exceeds_max_samples else Inr Records))"

definition memory_summary ::
  "('o, 'v, 'c, 'd) mcp_env \<Rightarrow> 'o handler \<Rightarrow> ('c, 'd) auth_client \<Rightarrow>
     (mcp_error + MCPGatewayMemorySummary) cpp \<times> ('c, 'd) auth_client" where
  "memory_summary M H S =
     (case mcp_budget M H S of
        (Inl E, S) \<Rightarrow> (Inr (Inl E), S)
      | (Inr (routerId, Window, Resolved, MaxSamples), S) \<Rightarrow>
          (bind (mcp_records
              (SetError HTTP_INTERNAL_SERVER_ERROR ''memory_summary_query_failed'' ''Unable to retrieve gateway memory history'')
              (SelectResourceRecordsBySerial (me_db M) (me_DBType M) (me_json M) (rr_resolvedBoardId Resolved) routerId
                 (startTime Window) (endTime Window) MaxSamples))
             (\<lambda>r. Inr (map_sum id (\<lambda>Records. CalculateMemorySummary Records Window) r)), S))"

definition temperature_summary ::
  "('o, 'v, 'c, 'd) mcp_env \<Rightarrow> 'o handler \<Rightarrow> ('c, 'd) auth_client \<Rightarrow>
     (mcp_error + MCPGatewayWifiTemperatureSummary) cpp \<times> ('c, 'd) auth_client" where
  "temperature_summary M H S =
     (case mcp_budget M H S of
        (Inl E, S) \<Rightarrow> (Inr (Inl E), S)
      | (Inr (routerId, Window, Resolved, MaxSamples), S) \<Rightarrow>
          (bind (mcp_records
              (SetError HTTP_INTERNAL_SERVER_ERROR ''radio_temperature_summary_query_failed''
                 ''Unable to retrieve gateway radio temperature history'')
              (SelectRadioRecordsBySerial (me_db M) (me_DBType M) (me_json M) (rr_resolvedBoardId Resolved) routerId
                 (startTime Window) (endTime Window) MaxSamples))
             (\<lambda>r. Inr (map_sum id (\<lambda>Records. CalculateRadioTemperatureSummary Records Window) r)), S))"

definition rssi_summary ::
  "('o, 'v, 'c, 'd) mcp_env \<Rightarrow> 'o handler \<Rightarrow> ('c, 'd) auth_client \<Rightarrow>
     (mcp_error + MCPClientRssiQualitySummary) cpp \<times> ('c, 'd) auth_client" where
  "rssi_summary M H S =
     (case mcp_budget M H S of
        (Inl E, S) \<Rightarrow> (Inr (Inl E), S)
      | (Inr (routerId, Window, Resolved, MaxSamples), S) \<Rightarrow>
          (bind (mcp_records
              (SetError HTTP_INTERNAL_SERVER_ERROR ''wifi_client_rssi_query_failed'' ''Unable to retrieve Wi-Fi client RSSI history'')
              (SelectSsidRecordsBySerial (me_db M) (me_DBType M) (me_json M) (rr_resolvedBoardId Resolved) routerId
                 (startTime Window) (endTime Window) MaxSamples))
             (\<lambda>r. Inr (map_sum id (\<lambda>Records. CalculateDeviceRssiQualitySummary Records Window) r)), S))"





definition availability_summary ::
  "('o, 'v, 'c, 'd) mcp_env \<Rightarrow> 'o handler \<Rightarrow> ('c, 'd) auth_client \<Rightarrow>
     (mcp_error + MCPGatewayAvailabilitySummary) cpp \<times> ('c, 'd) auth_client" where
  "availability_summary M H S =
     (case mcp_window_and_board M H S of
        (Inl E, S) \<Rightarrow> (Inr (Inl E), S)
      | (Inr (routerId, Window, Resolved), S) \<Rightarrow>
          (Inr (case CountOfflineEventsByBoardAndSerial (me_db M) (rr_resolvedBoardId Resolved) routerId
                  (startTime Window) (endTime Window) of
                  None \<Rightarrow> Inl (SetError HTTP_INTERNAL_SERVER_ERROR ''availability_query_failed''
                    ''Unable to retrieve gateway availability history'')
                | Some (OfflineCount, ObservedStartTime, ObservedEndTime) \<Rightarrow>
                    Inr (CalculateGatewayAvailabilitySummary routerId Window OfflineCount ObservedStartTime ObservedEndTime)), S))"

text \<open>\<^verbatim>\<open>Object(Summary)\<close>, \<^verbatim>\<open>SendError\<close> or the exception, as \<open>DoGet\<close> of the class of the end point.\<close>

definition mcp_DoGet ::
  "('o, 'v, 'c, 'd) mcp_env \<Rightarrow> ('a \<Rightarrow> 'o \<Rightarrow> 'o) \<Rightarrow>
     ('o handler \<Rightarrow> ('c, 'd) auth_client \<Rightarrow> (mcp_error + 'a) cpp \<times> ('c, 'd) auth_client) \<Rightarrow>
     'o handler \<Rightarrow> ('c, 'd) auth_client \<times> 'w \<Rightarrow> response cpp \<times> ('c, 'd) auth_client \<times> 'w" where
  "mcp_DoGet M to summary H st =
     (case st of (S, w) \<Rightarrow>
        case summary H S of
          (r, S) \<Rightarrow>
            (bind r (\<lambda>answer. Inr (case answer of
               Inl E \<Rightarrow> SendError (me_json M) (me_rest M) (h_Request H) E
             | Inr Summary \<Rightarrow> Return_to_json (me_json M) (me_rest M) (h_Request H) to Summary)), S, w))"

definition mcp_class ::
  "('o handler \<Rightarrow> ('c, 'd) auth_client \<times> 'w \<Rightarrow> response cpp \<times> ('c, 'd) auth_client \<times> 'w) \<Rightarrow>
     ('o, ('c, 'd) auth_client \<times> 'w) rest_class" where
  "mcp_class DoGet =
     (let nothing = (\<lambda>H st. (Inr \<lparr> rs_status = HTTP_OK, rs_headers = Map.empty, rs_body = None \<rparr>, st))
      in \<lparr> rc_Methods = [''GET'', ''OPTIONS''], rc_AlwaysAuthorize = False, rc_RateLimited = False, rc_Interval = 1000,
           rc_MaxCalls = 100, rc_SubOnlyService = False, rc_DoGet = DoGet, rc_DoPost = nothing, rc_DoPut = nothing,
           rc_DoDelete = nothing \<rparr>)"

section \<open>Which requests are answered\<close>

text \<open>The arguments of the token check, before it.\<close>

definition unauthorised :: "'o handler \<Rightarrow> verdict" where
  "unauthorised H = \<lparr> vd_allowed = False, vd_UInfo = h_UserInfo H, vd_Expired = False, vd_Contacted = False \<rparr>"

lemma ExtractBearerToken_iff: "ExtractBearerToken h = Inr tok \<longleftrightarrow> h = Some (''Bearer '' @ tok) \<and> tok \<noteq> []"
proof (cases h)
  case (Some a)
  define p where "p = ''Bearer ''"
  have "ExtractBearerToken h = Inr tok \<longleftrightarrow> \<not> (take (length p) a \<noteq> p \<or> length a = length p) \<and> tok = drop (length p) a"
    by (auto simp: ExtractBearerToken_def Some Let_def p_def)
  also have "\<dots> \<longleftrightarrow> h = Some (p @ tok) \<and> tok \<noteq> []"
    unfolding prefix_rest Some by auto
  finally show ?thesis by (simp add: p_def)
qed (simp add: ExtractBearerToken_def)

lemma AuthenticateBearerToken_iff:
  "AuthenticateBearerToken M H S = (Inr u, H', S') \<longleftrightarrow>
     (\<exists>tok V. rq_get (h_Request H) ''Authorization'' = Some (''Bearer '' @ tok) \<and> tok \<noteq> []
        \<and> Auth_IsAuthorized (me_json M) (me_caches M) (me_security M) (me_auth_now M) tok False (unauthorised H) S = (V, S')
        \<and> vd_allowed V \<and> H' = H \<lparr> h_UserInfo := vd_UInfo V \<rparr>)"
proof (cases "ExtractBearerToken (rq_get (h_Request H) ''Authorization'')")
  case (Inl e)
  then show ?thesis using ExtractBearerToken_iff[of "rq_get (h_Request H) ''Authorization''"]
    by (auto simp: AuthenticateBearerToken_def)
next
  case (Inr tok)
  have uniq: "rq_get (h_Request H) ''Authorization'' = Some (''Bearer '' @ t) \<and> t \<noteq> [] \<longleftrightarrow> t = tok" for t
    using ExtractBearerToken_iff[of "rq_get (h_Request H) ''Authorization''" t] Inr by auto
  have "(\<exists>t V. rq_get (h_Request H) ''Authorization'' = Some (''Bearer '' @ t) \<and> t \<noteq> [] \<and> P t V) \<longleftrightarrow> (\<exists>V. P tok V)" for P
    unfolding conj_assoc[symmetric] uniq by simp
  note bearer = this
  show ?thesis
    unfolding bearer AuthenticateBearerToken_def Inr unauthorised_def[symmetric] by (auto split: prod.splits)
qed





text \<open>
  An MCP end point shows nothing without a token: whenever it has a window and a board to answer for, the security
  service has vouched for the bearer token of the request and the token has not expired.
\<close>

theorem mcp_answers_vouched:
  assumes "auth_run (me_json M) (me_caches M) asked S" "cache_sound (ac_tokens (me_caches M)) known"
    and "mcp_window_and_board M H S = (Inr x, S')"
  shows "\<exists>tok U. rq_get (h_Request H) ''Authorization'' = Some (''Bearer '' @ tok)
    \<and> (\<exists>(Do, Now, Sub) \<in> set ((me_security M, me_auth_now M, False) # asked). vouched (me_json M) Do Now Sub tok U)
    \<and> \<not> IsTokenExpired (me_auth_now M) (uip_webtoken U)"
proof -
  have "\<exists>H'. AuthenticateBearerToken M H S = (Inr (), H', S')"
    using assms(3) by (auto simp: mcp_window_and_board_def Let_def split: prod.splits sum.splits if_splits)
  then obtain tok V where t: "rq_get (h_Request H) ''Authorization'' = Some (''Bearer '' @ tok)"
    "Auth_IsAuthorized (me_json M) (me_caches M) (me_security M) (me_auth_now M) tok False (unauthorised H) S = (V, S')"
    "vd_allowed V"
    unfolding AuthenticateBearerToken_iff by blast
  from IsAuthorized_vouched(2)[OF assms(2) auth_run_vouched[OF assms(1,2)] t(2,3)] t(1) show ?thesis by blast
qed

section \<open>What the summaries are computed from\<close>

lemma window_and_board_window:
  assumes "mcp_window_and_board M H S = (Inr (r, W, Res), S')"
  shows "\<not> endTime W \<le> startTime W"
proof -
  have "\<exists>ps now skew. ValidateWindowQuery ps now skew = Inr W"
    using assms by (auto simp: mcp_window_and_board_def Let_def split: prod.splits sum.splits if_splits)
  then have "1 \<le> unat (lookbackHours W)" "unat (startTime W) + unat (lookbackHours W) * 3600 = unat (endTime W)"
    unfolding ValidateWindowQuery_iff by blast+
  then have "unat (startTime W) < unat (endTime W)" by linarith
  then show ?thesis by (simp add: word_le_nat_alt)
qed

lemma mcp_budget_facts:
  assumes "mcp_budget M H S = (Inr (r, W, Res, most), S')"
  shows "mcp_window_and_board M H S = (Inr (r, W, Res), S')" "\<not> endTime W \<le> startTime W"
    "0 < most" "unat most \<le> 100000" "most \<noteq> U64_MAX"
proof -
  show w: "mcp_window_and_board M H S = (Inr (r, W, Res), S')"
    using assms by (auto simp: mcp_budget_def split: prod.splits sum.splits)
  show "\<not> endTime W \<le> startTime W" by (rule window_and_board_window[OF w])
  have m: "ValidateConfiguredMaxSamples (me_ConfiguredMaxSamples M) = Inr most"
    using assms by (auto simp: mcp_budget_def split: prod.splits sum.splits)
  then have m: "\<not> most < 1" "most \<le> 100000"
    by (auto simp: ValidateConfiguredMaxSamples_def MinMaxSamples_def MaxMaxSamples_def not_less split: if_splits)
  show "0 < most" using m(1) by (auto simp: word_gt_0)
  show "unat most \<le> 100000" using m(2) by (simp add: word_le_nat_alt)
  then show "most \<noteq> U64_MAX" by (auto simp: unat_U64_MAX)
qed

lemma map_sum_Inr: "map_sum id f x = Inr y \<longleftrightarrow> (\<exists>a. x = Inr a \<and> y = f a)"
  by (cases x) auto

lemma mcp_records_Inr:
  "mcp_records e sel = Inr (Inr Recs) \<longleftrightarrow> sel = Inr (Some (Recs, False))"
  by (auto simp: mcp_records_def bind_Inr_iff split: option.splits)

text \<open>The free memory a stored point reports, when it is usable.\<close>

definition stored_memory :: "('o, 'v) poco \<Rightarrow> TimePointDBRecordType \<Rightarrow> u64 option" where
  "stored_memory J row = (case resource_point J row of Inl _ \<Rightarrow> None | Inr Point \<Rightarrow> memory_sample Point)"

lemma memory_of_rows:
  "list_all2 (\<lambda>row p. resource_point J row = Inr p) rows Recs \<Longrightarrow>
     snd ` set (memory_samples Recs) = {v. \<exists>row \<in> set rows. stored_memory J row = Some v}"
proof (induction rule: list_all2_induct)
  case (Cons row rows p Recs)
  then show ?case by (cases "memory_sample p") (auto simp: stored_memory_def)
qed simp

text \<open>
  C17: The memory end point answers from the table of time points: the minimum and maximum are those of the usable free
  memory values of the points stored for the board and the router in the half-open window, all of them, and there is none
  when no such point has one.  It does not answer when there are more points than it may read.
\<close>

theorem memory_summary_of_stored_points:
  assumes "obeys (me_db M) ''timepoints'' tp_column collate tbl"
    and "mcp_budget M H S = (Inr (r, W, Res, most), S1)" "memory_summary M H S = (Inr (Inr A), S2)"
  shows "let points = filter (TimePoints.in_window (rr_resolvedBoardId Res) r (startTime W) (endTime W)) tbl;
      vs = {v. \<exists>row \<in> set points. stored_memory (me_json M) row = Some v}
    in length points \<le> unat most
       \<and> msd_min_memfree (gms_data A) = (if vs = {} then None else Some (Min vs))
       \<and> msd_max_memfree (gms_data A) = (if vs = {} then None else Some (Max vs))"
proof -
  let ?P = "TimePoints.in_window (rr_resolvedBoardId Res) r (startTime W) (endTime W)"
  note f = mcp_budget_facts[OF assms(2)]
  obtain Recs where q: "SelectResourceRecordsBySerial (me_db M) (me_DBType M) (me_json M) (rr_resolvedBoardId Res) r
      (startTime W) (endTime W) most = Inr (Some (Recs, False))" and A: "A = CalculateMemorySummary Recs W"
    using assms(3) by (auto simp: memory_summary_def assms(2) bind_Inr_iff mcp_records_Inr map_sum_Inr)
  obtain rows where rows: "window_rows tbl (rr_resolvedBoardId Res) r (startTime W) (endTime W) rows"
    "False \<longleftrightarrow> too_many most rows" "\<not> False \<Longrightarrow> traverse (resource_point (me_json M)) rows = Inr Recs"
    by (rule SelectResourceRecordsBySerial_rows[OF assms(1) f(5,2) q]) (rule that; assumption)
  have e: "mset rows = mset (filter ?P tbl)" using rows(1) unfolding window_rows_def by blast
  have n: "length (filter ?P tbl) = length rows" "length rows \<le> unat most" "set (filter ?P tbl) = set rows"
    using mset_eq_length[OF e] mset_eq_setD[OF e] rows(2) f(3) by (simp_all add: too_many_def not_less)
  have recs: "list_all2 (\<lambda>row p. resource_point (me_json M) row = Inr p) rows Recs" using rows(3) by (simp add: traverse_Inr)
  have "length Recs \<le> 2 ^ 64" using list_all2_lengthD[OF recs] n(2) f(4) by simp
  note inv = CalculateMemorySummary_inv[OF this]
  note vals = memory_of_rows[OF recs]
  have "msd_min_memfree (gms_data A) = (if memory_samples Recs = [] then None else Some (Min (snd ` set (memory_samples Recs))))"
    "msd_max_memfree (gms_data A) = (if memory_samples Recs = [] then None else Some (Max (snd ` set (memory_samples Recs))))"
    using inv by (auto simp: A CalculateMemorySummary_def Let_def mem_inv_def mem_init_def MCPMemorySummaryData_init_def)
  moreover have "memory_samples Recs = [] \<longleftrightarrow> snd ` set (memory_samples Recs) = {}" by simp
  ultimately show ?thesis using n unfolding Let_def n(3) vals by simp
qed





text \<open>
  The availability end point counts every offline event stored for the board and the router in the half-open window, and
  gives the times of the first and the last of them.
\<close>

theorem availability_summary_of_stored_events:
  assumes "obeys (me_db M) ''device_availability_events'' ev_column collate events" "length events < 2 ^ 64"
    and "mcp_window_and_board M H S = (Inr (r, W, Res), S1)" "availability_summary M H S = (Inr (Inr A), S2)"
  shows "let es = filter (offline_in (rr_resolvedBoardId Res) r (startTime W) (endTime W)) events; ts = set (map dae_event_time es)
    in unat (gad_offlineEventCount (gas_data A)) = length es
       \<and> ow_startTime (gam_observedWindow (gas_meta A)) = (if es = [] then None else Some (FormatTimestamp (Min ts)))
       \<and> ow_endTime (gam_observedWindow (gas_meta A)) = (if es = [] then None else Some (FormatTimestamp (Max ts)))"
proof -
  obtain n t1 t2 where q: "CountOfflineEventsByBoardAndSerial (me_db M) (rr_resolvedBoardId Res) r (startTime W) (endTime W)
      = Some (n, t1, t2)" and A: "A = CalculateGatewayAvailabilitySummary r W n t1 t2"
    using assms(4) by (auto simp: availability_summary_def assms(3) split: option.splits)
  note c = CountOffline_events[OF assms(1,2) window_and_board_window[OF assms(3)] q]
  show ?thesis using c by (auto simp: A CalculateGatewayAvailabilitySummary_def Let_def MCPGatewayAvailabilityData_init_def)
qed

section \<open>The witnesses: one router, one point, one event\<close>

text \<open>A database that answers the statements on a table as they read.\<close>

definition run_select :: "(string \<Rightarrow> 'r \<Rightarrow> cell) \<Rightarrow> string \<Rightarrow> 'r list \<Rightarrow> cell list database" where
  "run_select col T rows txt =
     (case read_statement txt of
        Some (Select q) \<Rightarrow>
          if q_table q = T then Inr (select_rows col q (filter (matches col (q_where q)) rows)) else Inl Type_error
      | _ \<Rightarrow> Inl Type_error)"

lemma run_select_reads:
  "read_statement txt = Some (Select q) \<Longrightarrow> q_table q = T \<Longrightarrow>
     run_select col T rows txt = Inr (select_rows col q (filter (matches col (q_where q)) rows))"
  by (simp add: run_select_def)

lemma run_select_obeys: "obeys (run_select col T [row]) T col collate [row]"
  by (auto simp: obeys_def answers_def run_select_def split: if_splits)

definition demo_request :: request where
  "demo_request = (plain_request ''GET'' [(''timestampTill'', ''2020-01-01T01:00:00Z''), (''lookbackHours'', ''1'')])
     \<lparr> rq_get := (\<lambda>h. if h = ''Authorization'' then Some ''Bearer t1'' else None) \<rparr>"

definition demo_handler :: "(string \<times> tree) list handler" where
  "demo_handler = plain_handler demo_request [(''routerid'', ''abc'')]"

definition one_board :: "string \<Rightarrow> BoardVenueRecord list option" where
  "one_board v = Some [\<lparr> bvr_boardId = ''b1'', bvr_venueId = v, bvr_retention = 7200, bvr_interval = 60, bvr_monitorSubVenues = False \<rparr>]"

definition demo ::
  "cell list database \<Rightarrow> ((string \<times> tree) list, tree, string \<rightharpoonup> UserInfoAndPolicy, string \<rightharpoonup> ApiKeyCacheEntry) mcp_env" where
  "demo db = \<lparr> me_json = tree_lib, me_rest = plain_env, me_caches = map_caches, me_security = one_token,
     me_provisioning = one_router, me_auth_now = 1050, me_now = (\<lambda>_. 1577840400), me_ClockSkewSeconds = 300,
     me_ConfiguredMaxSamples = 10000, me_FindBoards = one_board, me_db = db, me_DBType = sqlite, me_format_MB = (\<lambda>_. []) \<rparr>"

definition demo_window :: mcp_window where
  "demo_window = \<lparr> startTime = 1577836800, endTime = 1577840400, lookbackHours = 1 \<rparr>"

definition demo_board :: resolver_result where
  "demo_board = \<lparr> rr_routerId = ''abc'', rr_resolvedBoardId = ''b1'', rr_resolvedVenueId = ''v1'', rr_retention = 7200,
     rr_interval = 60, rr_monitorSubVenues = False \<rparr>"

lemma demo_query:
  "ValidateWindowQuery [(''timestampTill'', ''2020-01-01T01:00:00Z''), (''lookbackHours'', ''1'')] 1577840400 300 = Inr demo_window"
  by code_simp

lemma demo_retention: "ValidateRetention demo_window 7200 1577840400 300 = Inr ()"
  by code_simp

lemma demo_samples:
  "ValidateConfiguredMaxSamples 10000 = Inr 10000" "ValidateExpectedSampleCount demo_window 60 10000 = Inr ()"
  by code_simp+

lemma demo_resolved: "Resolve tree_lib one_router one_board tok ''abc'' resolver_result_init = Inr demo_board"
proof -
  have d: "one_router (''/api/v1/inventory/'' @ ''abc'') [] tok = (200, [(''venue'', TString ''v1'')])"
    by (simp add: one_router_def)
  obtain D where f: "InventoryTag_from_json tree_lib [(''venue'', TString ''v1'')] InventoryTag_init = (D, True)"
    and v: "tag_venue D = ''v1''"
    by (simp add: InventoryTag_from_json_def ObjectInfo_from_json_def try_all_def field_from_json_def object_from_json_def
        objects_from_json_def list_from_json_def present_def tree_lib_def)
  have id: "ValidateRouterId ''abc'' = Inr ()" by code_simp
  show ?thesis
    using d f v id
    by (simp add: Resolve_def GetWithStatus_cases ClassifyDeviceFetchResult_def ResolveBoardForVenue_def one_board_def demo_board_def
        resolver_result_init_def)
qed

lemma demo_accepted:
  "mcp_window_and_board (demo db) demo_handler no_tokens =
     (Inr (''abc'', demo_window, demo_board), no_tokens \<lparr> au_Cache := [''t1'' \<mapsto> t1_user] \<rparr>)"
proof -
  let ?V = "unauthorised demo_handler"
  have "vd_UInfo ?V = UserInfoAndPolicy_init UNKNOWN 0"
    by (simp add: unauthorised_def demo_handler_def plain_handler_def)
  from t1_accepted[OF this, of 1050]
  have a: "Auth_IsAuthorized tree_lib map_caches one_token 1050 ''t1'' False ?V no_tokens =
    (?V \<lparr> vd_allowed := True, vd_UInfo := t1_user, vd_Expired := False, vd_Contacted := True \<rparr>,
     no_tokens \<lparr> au_Cache := [''t1'' \<mapsto> t1_user] \<rparr>)" by simp
  have h: "rq_get (h_Request demo_handler) ''Authorization'' = Some (''Bearer '' @ ''t1'')"
    "rq_parameters (h_Request demo_handler) = [(''timestampTill'', ''2020-01-01T01:00:00Z''), (''lookbackHours'', ''1'')]"
    by (simp_all add: demo_handler_def plain_handler_def demo_request_def plain_request_def)
  have auth: "AuthenticateBearerToken (demo db) demo_handler no_tokens =
      (Inr (), demo_handler \<lparr> h_UserInfo := t1_user \<rparr>, no_tokens \<lparr> au_Cache := [''t1'' \<mapsto> t1_user] \<rparr>)"
    unfolding AuthenticateBearerToken_iff h(1) by (simp add: demo_def a)
  have b: "GetBinding (h_Bindings (demo_handler \<lparr> h_UserInfo := t1_user \<rparr>)) ''routerId'' [] = ''abc''" by code_simp
  have q: "rq_parameters (h_Request (demo_handler \<lparr> h_UserInfo := t1_user \<rparr>)) = rq_parameters (h_Request demo_handler)" by simp
  have i: "ValidateRouterId ''abc'' = Inr ()" by code_simp
  have r: "rr_retention demo_board = 7200" by (simp add: demo_board_def)
  show ?thesis
    unfolding mcp_window_and_board_def auth prod.case sum.case Let_def b i q h(2) r
    by (simp add: demo_def demo_query demo_resolved r demo_retention)
qed

lemma demo_budget:
  "mcp_budget (demo db) demo_handler no_tokens =
     (Inr (''abc'', demo_window, demo_board, 10000), no_tokens \<lparr> au_Cache := [''t1'' \<mapsto> t1_user] \<rparr>)"
  unfolding mcp_budget_def demo_accepted by (simp add: demo_def demo_samples demo_board_def)

lemma mcp_answers_vouched_witness:
  "\<exists>U. vouched tree_lib one_token 1050 False ''t1'' U \<and> \<not> IsTokenExpired 1050 (uip_webtoken U)"
proof -
  let ?M = "demo (\<lambda>_. Inr [])"
  have M: "me_json ?M = tree_lib" "me_caches ?M = map_caches" "me_security ?M = one_token" "me_auth_now ?M = 1050"
    by (simp_all add: demo_def)
  have h: "rq_get (h_Request demo_handler) ''Authorization'' = Some (''Bearer '' @ ''t1'')"
    by (simp add: demo_handler_def plain_handler_def demo_request_def)
  show ?thesis
    using mcp_answers_vouched[of ?M "[]" no_tokens "\<lambda>c. c" demo_handler, unfolded M h, OF no_tokens_run map_caches_sel(3) demo_accepted]
    by auto
qed

definition demo_point :: TimePointDBRecordType where
  "demo_point = (point_row ''b1'' 1577838000) \<lparr> tpr_serialNumber := ''abc'', tpr_resource_data := ''M'' \<rparr>"

lemma demo_memory: "to_object tree_lib (DeviceResourceTimePoint_from_json tree_lib) DeviceResourceTimePoint_init ''M'' =
  Inr (DeviceResourceTimePoint_init \<lparr> res_memory_free := Some 512 \<rparr>)"
proof -
  have p: "parse_decimal_loop ''512'' 0 = Some 512" by code_simp
  have s: "dec_string 512 = ''512''" by code_simp
  have o: "OptionalUint64FromJson tree_lib [(''memory_free'', TU64 512)] ''memory_free'' = Inr (Some 512)"
    "OptionalUint64FromJson tree_lib [(''memory_free'', TU64 512)] ''memory_total'' = Inr None"
    "OptionalUint64FromJson tree_lib [(''memory_free'', TU64 512)] ''memory_cached'' = Inr None"
    "OptionalUint64FromJson tree_lib [(''memory_free'', TU64 512)] ''memory_buffered'' = Inr None"
    by (simp_all add: OptionalUint64FromJson_def present_def tree_lib_def p s del: parse_decimal_loop.simps)
  have "p_parse tree_lib ''M'' = Inr (TObject [(''memory_free'', TU64 512)])" "v_object tree_lib (TObject x) = Inr x" for x
    by (simp_all add: tree_lib_def)
  then show ?thesis
    by (simp add: to_object_def o DeviceResourceTimePoint_from_json_def try_all_def DeviceResourceTimePoint_init_def)
qed


lemma demo_fields:
  "tpr_id demo_point = []" "tpr_boardId demo_point = ''b1''" "tpr_timestamp demo_point = 1577838000" "tpr_ap_data demo_point = []"
  "tpr_ssid_data demo_point = []" "tpr_radio_data demo_point = []" "tpr_device_info demo_point = []"
  "tpr_serialNumber demo_point = ''abc''" "tpr_resource_data demo_point = ''M''" "tpr_venueId demo_point = []"
  by (simp_all add: demo_point_def point_row_def)

abbreviation "demo_tp \<equiv> demo (run_select tp_column ''timepoints'' [demo_point])"

lemma demo_window_rows:
  "TimePoints.in_window ''b1'' ''abc'' 1577836800 1577840400 demo_point"
  "matches tp_column (device_conds ''b1'' ''abc'' [(''timestamp'', ''>='', Num t), (''timestamp'', ''<='', Num 1577836800)]) demo_point = False"
  "matches tp_column (device_conds ''b1'' ''abc'' [(''timestamp'', ''>='', Num 1577840400)]) demo_point = False"
  by (simp_all add: TimePoints.in_window_def demo_point_def point_row_def matches_def device_conds_def tp_column_def)

lemma demo_select:
  "readable cols fs \<Longrightarrow> run_select tp_column ''timepoints'' [demo_point]
      (window_statement sqlite cols ''b1'' ''abc'' 1577836800 1577840400 10000) = Inr [map (\<lambda>f. tp_column f demo_point) fs]"
  by (subst run_select_reads[OF window_reads]) (simp_all only: query.simps matches_window select_rows_def
      selection.case filter.simps demo_window_rows(1) if_True range_read_def LimitWithOverflowSentinel_def Sql.in_range_def, simp_all)


lemma demo_values:
  "startTime demo_window = 1577836800" "endTime demo_window = 1577840400" "rr_resolvedBoardId demo_board = ''b1''"
  "rr_retention demo_board = 7200"
  "me_json (demo db) = tree_lib" "me_db (demo db) = db" "me_DBType (demo db) = sqlite" "me_now (demo db) n = 1577840400"
  by (simp_all add: demo_window_def demo_board_def demo_def)

lemma demo_memory_summary:
  "\<exists>A. memory_summary demo_tp demo_handler no_tokens = (Inr (Inr A), no_tokens \<lparr> au_Cache := [''t1'' \<mapsto> t1_user] \<rparr>)"
proof -
  show ?thesis
    unfolding memory_summary_def demo_budget prod.case sum.case demo_values SelectResourceRecordsBySerial_def Join_def
      demo_select[OF readable_parts(1)]
    by (simp add: tp_column_def demo_fields demo_memory mcp_records_def bind_def)
qed

lemma memory_summary_of_stored_points_witness:
  "\<exists>A. fst (memory_summary demo_tp demo_handler no_tokens) = Inr (Inr A) \<and> msd_min_memfree (gms_data A) = Some 512"
proof -
  obtain A where A: "memory_summary demo_tp demo_handler no_tokens = (Inr (Inr A), no_tokens \<lparr> au_Cache := [''t1'' \<mapsto> t1_user] \<rparr>)"
    using demo_memory_summary by blast
  have "stored_memory tree_lib demo_point = Some 512"
    unfolding stored_memory_def resource_point_def demo_fields demo_memory
    by (simp add: bind_def memory_sample_def DeviceResourceTimePoint_init_def)
  then have "msd_min_memfree (gms_data A) = Some 512"
    using memory_summary_of_stored_points[OF _ demo_budget A, of "\<lambda>_ _. False" "[demo_point]"]
    by (simp add: demo_values run_select_obeys demo_window_rows(1) Let_def cong: if_cong)
  then show ?thesis using A by simp
qed



definition demo_event :: DeviceAvailabilityEvent where
  "demo_event = \<lparr> dae_id = ''e1'', dae_board_id = ''b1'', dae_serialNumber = ''abc'', dae_event_type = ''offline'',
     dae_event_time = 1577838000, dae_reason = [], dae_connection_ip = [], dae_session_id = [], dae_event_id = [],
     dae_idempotency_key = [] \<rparr>"

abbreviation "demo_ev \<equiv> demo (run_select ev_column ''device_availability_events'' [demo_event])"

lemma demo_availability_summary:
  "\<exists>A. availability_summary demo_ev demo_handler no_tokens = (Inr (Inr A), no_tokens \<lparr> au_Cache := [''t1'' \<mapsto> t1_user] \<rparr>)"
  unfolding availability_summary_def demo_accepted prod.case sum.case demo_values CountOfflineEventsByBoardAndSerial_def Join_def
  by (subst run_select_reads[OF offline_reads]) (simp_all add: select_rows_def bind_def Let_def)

lemma availability_summary_of_stored_events_witness:
  "\<exists>A. fst (availability_summary demo_ev demo_handler no_tokens) = Inr (Inr A)
     \<and> unat (gad_offlineEventCount (gas_data A)) = 1
     \<and> ow_startTime (gam_observedWindow (gas_meta A)) = Some (FormatTimestamp 1577838000)"
proof -
  obtain A where A: "availability_summary demo_ev demo_handler no_tokens = (Inr (Inr A), no_tokens \<lparr> au_Cache := [''t1'' \<mapsto> t1_user] \<rparr>)"
    using demo_availability_summary by blast
  have "obeys (me_db demo_ev) ''device_availability_events'' ev_column (\<lambda>_ _. False) [demo_event]"
    by (simp add: demo_values run_select_obeys)
  moreover have "offline_in ''b1'' ''abc'' 1577836800 1577840400 demo_event" by (simp add: offline_in_def demo_event_def)
  moreover have "dae_event_time demo_event = 1577838000" by (simp add: demo_event_def)
  ultimately show ?thesis
    using availability_summary_of_stored_events[OF _ _ demo_accepted A, of "\<lambda>_ _. False" "[demo_event]"] A
    by (simp add: demo_values Let_def)
qed

end
