(* ===== verification/TimeSlots.thy ===== *)
theory TimeSlots
  imports ApStats
begin

text \<open>
  What \<^verbatim>\<open>src/src/RESTAPI/RESTAPI_board_timepoint_handler.cpp\<close> computes from a list of time points: the slots of \<^verbatim>\<open>NewSort\<close>, and
  the averages of each slot.  \<^verbatim>\<open>std::sort\<close> leaves the order of equal elements open, so the sort stays an argument.
\<close>

section \<open>Averages\<close>

text \<open>\<open>T\<close> is the member, converted to \<^verbatim>\<open>double\<close>.  The comparison of the maximum is that of the source.\<close>

definition ap_data_step :: "(APTimePoint \<Rightarrow> fp) \<Rightarrow> DeviceTimePoint \<Rightarrow> fp \<times> AveragePoint \<Rightarrow> fp \<times> AveragePoint" where
  "ap_data_step T v st =
     (case st of (acc, P) \<Rightarrow>
        let x = T (dtp_ap_data v);
            P = (if x \<noteq> Fin 0 then P \<lparr> pt_min := std_min (pt_min P) x \<rparr> else P)
        in (fp_add binary64 acc x, P \<lparr> pt_max := std_min (pt_max P) x \<rparr>))"

definition AverageAPData :: "(APTimePoint \<Rightarrow> fp) \<Rightarrow> DeviceTimePoint list \<Rightarrow> AveragePoint \<Rightarrow> AveragePoint" where
  "AverageAPData T Values P =
     (if Values = [] then P
      else case fold (ap_data_step T) Values (Fin 0, P) of
             (acc, P) \<Rightarrow> P \<lparr> pt_avg := fp_div binary64 acc (fp_of_nat binary64 (length Values)) \<rparr>)"

definition mean_of :: "fp \<Rightarrow> u32 \<Rightarrow> fp" where
  "mean_of acc num_values =
     (if num_values \<noteq> 0 then fp_div binary64 acc (fp_of_nat binary64 (unat num_values)) else Fin 0)"

definition radio_data_step ::
  "(RadioTimePoint \<Rightarrow> fp) \<Rightarrow> RadioTimePoint \<Rightarrow> fp \<times> u32 \<times> AveragePoint \<Rightarrow> fp \<times> u32 \<times> AveragePoint" where
  "radio_data_step T radio st =
     (case st of (acc, num_values, P) \<Rightarrow>
        let x = T radio;
            P = (if x \<noteq> Fin 0 then P \<lparr> pt_min := std_min (pt_min P) x \<rparr> else P)
        in (fp_add binary64 acc x, num_values + 1, P \<lparr> pt_max := std_max (pt_max P) x \<rparr>))"

definition AverageRadioData :: "(RadioTimePoint \<Rightarrow> fp) \<Rightarrow> DeviceTimePoint list \<Rightarrow> AveragePoint \<Rightarrow> AveragePoint" where
  "AverageRadioData T Values P =
     (if Values = [] then P
      else case fold (\<lambda>v. fold (radio_data_step T) (dtp_radio_data v)) Values (Fin 0, 0, P) of
             (acc, num_values, P) \<Rightarrow> P \<lparr> pt_avg := mean_of acc num_values \<rparr>)"

record optional_state =
  os_sum :: fp
  os_num :: u32
  os_HasValue :: bool
  os_point :: AveragePoint

definition optional_step :: "(RadioTimePoint \<Rightarrow> fp option) \<Rightarrow> RadioTimePoint \<Rightarrow> optional_state \<Rightarrow> optional_state" where
  "optional_step T radio s =
     (case T radio of
        None \<Rightarrow> s
      | Some x \<Rightarrow>
          (let s = s \<lparr> os_num := os_num s + 1, os_sum := fp_add binary64 (os_sum s) x \<rparr>;
               P = os_point s
           in if \<not> os_HasValue s then s \<lparr> os_point := P \<lparr> pt_min := x, pt_max := x \<rparr>, os_HasValue := True \<rparr>
              else s \<lparr> os_point := P \<lparr> pt_min := std_min (pt_min P) x, pt_max := std_max (pt_max P) x \<rparr> \<rparr>))"

definition AverageOptionalRadioData ::
  "(RadioTimePoint \<Rightarrow> fp option) \<Rightarrow> DeviceTimePoint list \<Rightarrow> AveragePoint \<Rightarrow> AveragePoint" where
  "AverageOptionalRadioData T Values P =
     (if Values = [] then P
      else let s = fold (\<lambda>value. fold (optional_step T) (dtp_radio_data value)) Values
                     \<lparr> os_sum = Fin 0, os_num = 0, os_HasValue = False, os_point = P \<rparr>
           in (os_point s) \<lparr> pt_avg := mean_of (os_sum s) (os_num s) \<rparr>)"

text \<open>One entry of the statistics: that of a slot that is not empty.\<close>

abbreviation u64_double :: "u64 \<Rightarrow> fp" where
  "u64_double n \<equiv> fp_of_nat binary64 (unat n)"

abbreviation int_double :: "int \<Rightarrow> fp" where
  "int_double k \<equiv> fp_round binary64 (of_int k)"

definition slot_analysis :: "DeviceTimePoint list \<Rightarrow> DeviceTimePointAnalysis" where
  "slot_analysis pl =
     (let A = AveragePoint_init in
      \<lparr> dta_timestamp = dtp_timestamp (pl ! 0),
        dta_noise = AverageRadioData (\<lambda>r. int_double (radio_noise r)) pl A,
        dta_temperature = AverageOptionalRadioData radio_temperature pl A,
        dta_active_pct = AverageRadioData radio_active_pct pl A,
        dta_busy_pct = AverageRadioData radio_busy_pct pl A,
        dta_receive_pct = AverageRadioData radio_receive_pct pl A,
        dta_transmit_pct = AverageRadioData radio_transmit_pct pl A,
        dta_tx_power = AverageRadioData (\<lambda>r. u64_double (radio_tx_power r)) pl A,
        dta_tx_bytes_bw = AverageAPData ap_tx_bytes_bw pl A,
        dta_rx_bytes_bw = AverageAPData ap_rx_bytes_bw pl A,
        dta_rx_dropped_pct = AverageAPData ap_rx_dropped_pct pl A,
        dta_tx_dropped_pct = AverageAPData ap_tx_dropped_pct pl A,
        dta_rx_packets_bw = AverageAPData ap_rx_packets_bw pl A,
        dta_tx_packets_bw = AverageAPData ap_tx_packets_bw pl A,
        dta_rx_errors_pct = AverageAPData ap_rx_errors_pct pl A,
        dta_tx_errors_pct = AverageAPData ap_tx_errors_pct pl A \<rparr>)"

definition slots_stats :: "DeviceTimePoint list list \<Rightarrow> DeviceTimePointAnalysis list" where
  "slots_stats sp = map slot_analysis (filter (\<lambda>pl. pl \<noteq> []) sp)"

section \<open>NewSort\<close>

definition sort_serial_ts :: "DeviceTimePoint \<Rightarrow> DeviceTimePoint \<Rightarrow> bool" where
  "sort_serial_ts lhs rhs \<longleftrightarrow>
     (if di_serialNumber (dtp_device_info lhs) < di_serialNumber (dtp_device_info rhs) then True
      else if di_serialNumber (dtp_device_info lhs) > di_serialNumber (dtp_device_info rhs) then False
      else dtp_timestamp lhs < dtp_timestamp rhs)"

text \<open>The search for an interval; \<open>ns_start_val\<close> is set before it is read.\<close>

record sort_state =
  ns_cur_ser :: string
  ns_cur_int :: u64
  ns_start_val :: u64
  ns_last_val :: u64
  ns_first_val :: u64

definition ns_step :: "DeviceTimePoint \<Rightarrow> sort_state \<Rightarrow> sort_state" where
  "ns_step point s =
     (let t = dtp_timestamp point in
      if ns_cur_ser s = [] then s \<lparr> ns_start_val := t, ns_cur_ser := dtp_serialNumber point, ns_first_val := t \<rparr>
      else let s = (if ns_cur_ser s = dtp_serialNumber point
                    then let this_int = t - ns_start_val s
                         in s \<lparr> ns_cur_int := (if ns_cur_int s \<noteq> 0
                                 then (if this_int < ns_cur_int s then this_int else ns_cur_int s) else this_int),
                              ns_start_val := t \<rparr>
                    else s \<lparr> ns_cur_ser := dtp_serialNumber point, ns_start_val := t \<rparr>)
           in s \<lparr> ns_last_val := t \<rparr>)"

definition ns_scan :: "DeviceTimePoint list \<Rightarrow> sort_state" where
  "ns_scan tmp =
     fold ns_step tmp \<lparr> ns_cur_ser = [], ns_cur_int = 0, ns_start_val = 0, ns_last_val = 0, ns_first_val = 0 \<rparr>"

partial_function (option) time_slots :: "u64 \<Rightarrow> u64 \<Rightarrow> u64 \<Rightarrow> u64 \<Rightarrow> (u64 \<times> u64) list option" where
  "time_slots cur_int last_val cur_first cur_end =
     (if cur_end < last_val
      then Option.bind (time_slots cur_int last_val (cur_first + cur_int - 1 + 1) (cur_first + cur_int - 1))
             (\<lambda>slots. Some ((cur_first, cur_first + cur_int - 1) # slots))
      else Some [])"

definition in_slot :: "u64 \<times> u64 \<Rightarrow> DeviceTimePoint \<Rightarrow> bool" where
  "in_slot slot point \<longleftrightarrow> fst slot \<le> dtp_timestamp point \<and> dtp_timestamp point \<le> snd slot"

definition place :: "(u64 \<times> u64) list \<Rightarrow> DeviceTimePoint \<Rightarrow> DeviceTimePoint list list \<Rightarrow> DeviceTimePoint list list" where
  "place slots point sp = map (\<lambda>(slot, pts). if in_slot slot point then pts @ [point] else pts) (zip slots sp)"

definition NewSort :: "(DeviceTimePoint list \<Rightarrow> DeviceTimePoint list) \<Rightarrow> DeviceTimePoint list \<Rightarrow> DeviceTimePoint list list option" where
  "NewSort sort_by l =
     (let tmp = sort_by l; s = ns_scan tmp
      in if ns_cur_int s = 0 then Some [tmp]
         else case time_slots (ns_cur_int s) (ns_last_val s) (ns_first_val s) 0 of
                None \<Rightarrow> None
              | Some slots \<Rightarrow> Some (fold (place slots) tmp (map (\<lambda>_. []) slots)))"

section \<open>Which points a slot holds\<close>

lemma fold_place:
  "length sp = length slots \<Longrightarrow>
     fold (place slots) tmp sp = map (\<lambda>(slot, pts). pts @ filter (in_slot slot) tmp) (zip slots sp)"
proof (induction tmp arbitrary: sp)
  case Nil
  then show ?case by (simp add: list_eq_iff_nth_eq)
next
  case (Cons p tmp)
  have "length (place slots p sp) = length slots" using Cons.prems by (simp add: place_def)
  from Cons.IH[OF this] Cons.prems show ?case
    by (auto simp: place_def list_eq_iff_nth_eq)
qed

lemma slots_hold:
  "fold (place slots) tmp (map (\<lambda>_. []) slots) = map (\<lambda>slot. filter (in_slot slot) tmp) slots"
  by (subst fold_place) (simp_all add: zip_map2 list_eq_iff_nth_eq)

text \<open>Below \<open>2 ^ 63\<close> the bounds of the slots do not wrap, and the loop ends.\<close>

definition slot_count :: "nat \<Rightarrow> nat \<Rightarrow> nat \<Rightarrow> nat" where
  "slot_count cur_int last_val first_val = (if last_val = 0 then 0 else (last_val - first_val) div cur_int + 1)"

lemma time_slots_run:
  assumes "0 < unat n" "unat n < 2 ^ 63" "unat l < 2 ^ 63" "unat f < 2 ^ 63" "e < l"
  shows "time_slots n l f e = Some (map (\<lambda>k. (f + of_nat k * n, f + of_nat k * n + n - 1)) [0 ..< (unat l - unat f) div unat n + 1])"
  using assms(4,5)
proof (induction "Suc (unat l) - unat f" arbitrary: f e rule: less_induct)
  case less
  let ?e = "f + n - 1" and ?N = "\<lambda>f. (unat l - unat f) div unat n + 1"
  have fn: "unat (f + n) = unat f + unat n"
    using assms(2) less.prems(1) by (simp add: unat_word_ariths)
  then have e: "unat ?e = unat f + unat n - 1" using assms(1) by (simp add: unat_sub word_le_nat_alt)
  have step: "time_slots n l f e = Option.bind (time_slots n l (f + n) ?e) (\<lambda>slots. Some ((f, ?e) # slots))"
    using less.prems(2) by (subst time_slots.simps) simp
  show ?case
  proof (cases "?e < l")
    case True
    then have lt: "unat f + unat n \<le> unat l" using e assms(1) by (simp add: word_less_nat_alt)
    have "time_slots n l (f + n) ?e = Some (map (\<lambda>k. (f + n + of_nat k * n, f + n + of_nat k * n + n - 1)) [0 ..< ?N (f + n)])"
      using less.hyps[of "f + n" ?e] lt assms(1,3) True fn by simp
    moreover have "?N f = Suc (?N (f + n))"
    proof -
      have "unat l - unat f = unat l - unat (f + n) + unat n" using lt fn by simp
      then show ?thesis using assms(1) by simp
    qed
    ultimately show ?thesis
      using step by (simp add: upt_conv_Cons map_Suc_upt[symmetric] algebra_simps del: upt_Suc)
  next
    case False
    then have "unat l - unat f < unat n" using e assms(1) by (simp add: word_less_nat_alt)
    with False show ?thesis using step by (simp add: time_slots.simps)
  qed
qed

lemma in_slot_unat:
  assumes "unat n < 2 ^ 63" "unat f + k * unat n < 2 ^ 63" "0 < unat n"
  shows "in_slot (f + of_nat k * n, f + of_nat k * n + n - 1) p \<longleftrightarrow>
    unat f + k * unat n \<le> unat (dtp_timestamp p) \<and> unat (dtp_timestamp p) < unat f + k * unat n + unat n"
proof -
  have m: "unat (of_nat m :: u64) = m" if "m < 2 ^ 63" for m
    using that by (simp add: unat_of_nat)
  have "f + of_nat k * n = of_nat (unat f + k * unat n)" by simp
  then have a: "unat (f + of_nat k * n) = unat f + k * unat n" using m[OF assms(2)] by (simp only:)
  have "unat (f + of_nat k * n + n) = unat f + k * unat n + unat n"
    using a assms(1,2) by (subst unat_plus_simple[THEN iffD1]) (simp_all add: no_olen_add_nat)
  then have "unat (f + of_nat k * n + n - 1) = unat f + k * unat n + unat n - 1"
    using assms(3) by (simp add: unat_sub word_le_nat_alt)
  with a assms(3) show ?thesis by (auto simp: in_slot_def word_le_nat_alt)
qed

section \<open>What the scan finds\<close>

definition sorts_time :: "(DeviceTimePoint list \<Rightarrow> DeviceTimePoint list) \<Rightarrow> bool" where
  "sorts_time sort_by \<longleftrightarrow> (\<forall>l. mset (sort_by l) = mset l \<and> sorted_wrt (\<lambda>a b. \<not> sort_serial_ts b a) (sort_by l))"

text \<open>Time points of devices that name themselves, before the year 292 billion.\<close>

definition timeline_ok :: "DeviceTimePoint list \<Rightarrow> bool" where
  "timeline_ok l \<longleftrightarrow> list_all (\<lambda>p. dtp_serialNumber p \<noteq> [] \<and> di_serialNumber (dtp_device_info p) = dtp_serialNumber p
     \<and> unat (dtp_timestamp p) < 2 ^ 63) l"

text \<open>In the order of the sort, the points of one device stand together, in the order of time.\<close>

definition serial_order :: "DeviceTimePoint \<Rightarrow> DeviceTimePoint \<Rightarrow> bool" where
  "serial_order a b \<longleftrightarrow> dtp_serialNumber a < dtp_serialNumber b
     \<or> (dtp_serialNumber a = dtp_serialNumber b \<and> dtp_timestamp a \<le> dtp_timestamp b)"

lemma sorted_timeline:
  assumes "sorts_time sort_by" "timeline_ok l"
  shows "timeline_ok (sort_by l)" "sorted_wrt serial_order (sort_by l)" "mset (sort_by l) = mset l"
proof -
  show m: "mset (sort_by l) = mset l" using assms(1) by (simp add: sorts_time_def)
  then have "set (sort_by l) = set l" by (metis set_mset_mset)
  then show t: "timeline_ok (sort_by l)" using assms(2) by (simp add: timeline_ok_def list_all_iff)
  have "sorted_wrt (\<lambda>a b. \<not> sort_serial_ts b a) (sort_by l)" using assms(1) by (simp add: sorts_time_def)
  then show "sorted_wrt serial_order (sort_by l)"
    by (rule sorted_wrt_mono_rel[rotated])
      (use t in \<open>auto simp: timeline_ok_def list_all_iff sort_serial_ts_def serial_order_def split: if_splits\<close>)
qed

text \<open>Two points of one device are at least \<open>n\<close> apart.\<close>

definition spaced :: "u64 \<Rightarrow> DeviceTimePoint \<Rightarrow> DeviceTimePoint \<Rightarrow> bool" where
  "spaced n a b \<longleftrightarrow> (dtp_serialNumber a = dtp_serialNumber b \<longrightarrow>
     n \<noteq> 0 \<and> unat (dtp_timestamp a) + unat n \<le> unat (dtp_timestamp b))"

lemma ns_scan_snoc: "ns_scan (ps @ [p]) = ns_step p (ns_scan ps)"
  by (simp add: ns_scan_def)

lemma ns_scan_values:
  assumes "timeline_ok ps" "sorted_wrt serial_order ps" "ps \<noteq> []"
  shows "ns_cur_ser (ns_scan ps) = dtp_serialNumber (last ps) \<and> ns_start_val (ns_scan ps) = dtp_timestamp (last ps)
    \<and> ns_first_val (ns_scan ps) = dtp_timestamp (hd ps) \<and> unat (ns_cur_int (ns_scan ps)) < 2 ^ 63
    \<and> ns_last_val (ns_scan ps) = (if length ps = 1 then 0 else dtp_timestamp (last ps))"
  using assms
proof (induction ps rule: rev_induct)
  case (snoc p ps)
  show ?case
  proof (cases "ps = []")
    case True
    then show ?thesis by (simp add: ns_scan_def ns_step_def Let_def)
  next
    case False
    have ok: "timeline_ok ps" "sorted_wrt serial_order ps" "dtp_serialNumber (last ps) \<noteq> []"
      and p: "unat (dtp_timestamp p) < 2 ^ 63" "serial_order (last ps) p"
      using snoc.prems(1,2) False by (auto simp: timeline_ok_def list_all_iff sorted_wrt_append)
    note IH = snoc.IH[OF ok(1,2) False]
    have "unat (dtp_timestamp p - dtp_timestamp (last ps)) < 2 ^ 63" if "dtp_serialNumber (last ps) = dtp_serialNumber p"
      using p that by (auto simp: serial_order_def unat_sub)
    with IH ok(3) False show ?thesis by (auto simp: ns_scan_snoc ns_step_def Let_def word_less_nat_alt)
  qed
qed simp

lemma ns_scan_spaced:
  assumes "timeline_ok ps" "sorted_wrt serial_order ps" "distinct (map (\<lambda>p. (dtp_serialNumber p, dtp_timestamp p)) ps)"
  shows "sorted_wrt (spaced (ns_cur_int (ns_scan ps))) ps"
  using assms
proof (induction ps rule: rev_induct)
  case (snoc p ps)
  have ok: "timeline_ok ps" "sorted_wrt serial_order ps" "distinct (map (\<lambda>p. (dtp_serialNumber p, dtp_timestamp p)) ps)"
    and before: "\<forall>x \<in> set ps. serial_order x p" "\<forall>x \<in> set ps. (dtp_serialNumber x, dtp_timestamp x) \<noteq> (dtp_serialNumber p, dtp_timestamp p)"
    using snoc.prems by (auto simp: timeline_ok_def list_all_iff sorted_wrt_append image_iff)
  note IH = snoc.IH[OF ok]
  define n n' where "n = ns_cur_int (ns_scan ps)" and "n' = ns_cur_int (ns_scan (ps @ [p]))"
  show ?case
  proof (cases "ps = []")
    case False
    note v = ns_scan_values[OF ok(1,2) False]
    have ser: "dtp_serialNumber (last ps) \<noteq> []" using ok(1) False by (auto simp: timeline_ok_def list_all_iff)
    have last: "\<forall>x \<in> set ps. x = last ps \<or> serial_order x (last ps)"
      using ok(2) False by (cases ps rule: rev_cases) (auto simp: sorted_wrt_append)
    show ?thesis
    proof (cases "dtp_serialNumber (last ps) = dtp_serialNumber p")
      case True
      have "dtp_timestamp (last ps) < dtp_timestamp p"
        using before[THEN bspec, OF last_in_set[OF False]] True by (auto simp: serial_order_def)
      then have d: "unat (dtp_timestamp p - dtp_timestamp (last ps)) = unat (dtp_timestamp p) - unat (dtp_timestamp (last ps))"
        "unat (dtp_timestamp (last ps)) < unat (dtp_timestamp p)"
        by (simp_all add: unat_sub[OF less_imp_le] word_less_nat_alt[symmetric])
      have n': "n' = (if n \<noteq> 0 \<and> n \<le> dtp_timestamp p - dtp_timestamp (last ps) then n else dtp_timestamp p - dtp_timestamp (last ps))"
        using v ser True by (auto simp: n_def n'_def ns_scan_snoc ns_step_def Let_def)
      then have small: "n' \<noteq> 0" "unat n' \<le> unat (dtp_timestamp p) - unat (dtp_timestamp (last ps))" "n \<noteq> 0 \<Longrightarrow> unat n' \<le> unat n"
        using d by (auto simp: word_le_nat_alt unat_eq_0[symmetric])
      have "sorted_wrt (spaced n') ps"
        using IH by (rule sorted_wrt_mono_rel[rotated]) (use small in \<open>auto simp: spaced_def n_def\<close>)
      moreover have "spaced n' x p" if "x \<in> set ps" for x
      proof -
        have "dtp_serialNumber x = dtp_serialNumber p \<Longrightarrow> unat (dtp_timestamp x) \<le> unat (dtp_timestamp (last ps))"
          using last that True by (auto simp: serial_order_def word_le_nat_alt)
        then show ?thesis using small(1,2) d(2) by (auto simp: spaced_def)
      qed
      ultimately show ?thesis by (simp add: sorted_wrt_append n'_def)
    next
      case False
      have "n' = n" using v ser False by (simp add: n_def n'_def ns_scan_snoc ns_step_def Let_def)
      moreover have "dtp_serialNumber x \<noteq> dtp_serialNumber p" if "x \<in> set ps" for x
        using last[THEN bspec, OF that] before(1)[THEN bspec, OF last_in_set[OF \<open>ps \<noteq> []\<close>]] False
        by (auto simp: serial_order_def)
      ultimately show ?thesis using IH by (simp add: sorted_wrt_append n_def n'_def spaced_def)
    qed
  qed simp
qed simp

section \<open>The slots\<close>

lemma slot_starts:
  assumes "k < slot_count n l f" "l < 2 ^ 63" "f < 2 ^ 63"
  shows "f + k * n < 2 ^ 63"
proof (cases "f \<le> l")
  case True
  have "k \<le> (l - f) div n" using assms(1) by (simp add: slot_count_def split: if_splits)
  then have "k * n \<le> (l - f) div n * n" by (rule mult_right_mono) simp
  also have "\<dots> \<le> l - f" by simp
  finally show ?thesis using True assms(2) by simp
next
  case False
  then show ?thesis using assms by (simp add: slot_count_def split: if_splits)
qed

lemma NewSort_value:
  assumes "sorts_time sort_by" "timeline_ok l"
  defines "s \<equiv> ns_scan (sort_by l)"
  shows "NewSort sort_by l = Some (if ns_cur_int s = 0 then [sort_by l]
    else map (\<lambda>k. filter (\<lambda>p. unat (ns_first_val s) + k * unat (ns_cur_int s) \<le> unat (dtp_timestamp p)
           \<and> unat (dtp_timestamp p) < unat (ns_first_val s) + k * unat (ns_cur_int s) + unat (ns_cur_int s)) (sort_by l))
      [0 ..< slot_count (unat (ns_cur_int s)) (unat (ns_last_val s)) (unat (ns_first_val s))])"
proof (cases "ns_cur_int s = 0")
  case True
  then show ?thesis by (simp add: NewSort_def s_def Let_def)
next
  case False
  note t = sorted_timeline[OF assms(1,2)]
  have ne: "sort_by l \<noteq> []" using False by (auto simp: s_def ns_scan_def)
  have below: "unat (dtp_timestamp p) < 2 ^ 63" if "p \<in> set (sort_by l)" for p
    using t(1) that by (auto simp: timeline_ok_def list_all_iff)
  have b: "unat (ns_first_val s) < 2 ^ 63" "unat (ns_last_val s) < 2 ^ 63" "unat (ns_cur_int s) < 2 ^ 63" "0 < unat (ns_cur_int s)"
    using ns_scan_values[OF t(1,2) ne] below[OF hd_in_set[OF ne]] below[OF last_in_set[OF ne]] False
    by (auto simp: s_def unat_gt_0)
  let ?bounds = "\<lambda>k. (ns_first_val s + of_nat k * ns_cur_int s, ns_first_val s + of_nat k * ns_cur_int s + ns_cur_int s - 1)"
  let ?count = "slot_count (unat (ns_cur_int s)) (unat (ns_last_val s)) (unat (ns_first_val s))"
  have "time_slots (ns_cur_int s) (ns_last_val s) (ns_first_val s) 0 = Some (map ?bounds [0 ..< ?count])"
  proof (cases "ns_last_val s = 0")
    case True
    then show ?thesis by (subst time_slots.simps) (simp add: slot_count_def)
  next
    case False
    then have "0 < ns_last_val s" by (simp add: word_neq_0_conv)
    from time_slots_run[OF b(4,3,2,1) this] False show ?thesis by (simp add: slot_count_def unat_eq_0)
  qed
  moreover have "in_slot (?bounds k) p \<longleftrightarrow> unat (ns_first_val s) + k * unat (ns_cur_int s) \<le> unat (dtp_timestamp p)
      \<and> unat (dtp_timestamp p) < unat (ns_first_val s) + k * unat (ns_cur_int s) + unat (ns_cur_int s)" if "k < ?count" for k p
    by (rule in_slot_unat[OF b(3) slot_starts[OF that b(2,1)] b(4)])
  then have "map (\<lambda>slot. filter (in_slot slot) (sort_by l)) (map ?bounds [0 ..< ?count])
    = map (\<lambda>k. filter (\<lambda>p. unat (ns_first_val s) + k * unat (ns_cur_int s) \<le> unat (dtp_timestamp p)
         \<and> unat (dtp_timestamp p) < unat (ns_first_val s) + k * unat (ns_cur_int s) + unat (ns_cur_int s)) (sort_by l)) [0 ..< ?count]"
    by (auto intro!: filter_cong)
  ultimately show ?thesis
    using False by (simp only: NewSort_def s_def[symmetric] Let_def slots_hold if_False option.case)
qed

text \<open>
  C24: The slots of a list of time points below the year 292 billion are found, whatever the order of equal points the sort leaves:
  without an interval there is one slot with everything; otherwise slot \<open>k\<close> holds, in the order of the sort, exactly the
  points from \<open>k\<close> to \<open>k + 1\<close> intervals after the first point, and the slots end with the one of the last point of the sort.  Points
  outside that range are in no slot.
\<close>

theorem NewSort_slots:
  assumes "sorts_time sort_by" "timeline_ok l"
    and "s = ns_scan (sort_by l)" "f = unat (ns_first_val s)" "n = unat (ns_cur_int s)" "last_val = unat (ns_last_val s)"
  shows "NewSort sort_by l = Some (if n = 0 then [sort_by l]
    else map (\<lambda>k. filter (\<lambda>p. f + k * n \<le> unat (dtp_timestamp p) \<and> unat (dtp_timestamp p) < f + k * n + n) (sort_by l))
      [0 ..< slot_count n last_val f])"
  using NewSort_value[OF assms(1,2)] unfolding assms(3-6) by (simp add: unat_eq_0)

lemma distinct_map_sorted_wrt: "distinct (map f xs) \<longleftrightarrow> sorted_wrt (\<lambda>a b. f a \<noteq> f b) xs"
  by (induction xs) (auto simp: image_iff)

text \<open>
  C25: When no device has two points of one time, no slot has two points of one device: the interval is the smallest distance of
  two points of a device.
\<close>

theorem slot_one_point_per_device:
  assumes "sorts_time sort_by" "timeline_ok l" "distinct (map (\<lambda>p. (dtp_serialNumber p, dtp_timestamp p)) l)"
  shows "\<exists>sp. NewSort sort_by l = Some sp \<and> (\<forall>slot \<in> set sp. distinct (map dtp_serialNumber slot))"
proof -
  note t = sorted_timeline[OF assms(1,2)]
  define s where "s = ns_scan (sort_by l)"
  have "mset (map (\<lambda>p. (dtp_serialNumber p, dtp_timestamp p)) (sort_by l)) = mset (map (\<lambda>p. (dtp_serialNumber p, dtp_timestamp p)) l)"
    using t(3) by (simp add: mset_map)
  from mset_eq_imp_distinct_iff[OF this] assms(3)
  have "distinct (map (\<lambda>p. (dtp_serialNumber p, dtp_timestamp p)) (sort_by l))" by (rule iffD2)
  from ns_scan_spaced[OF t(1,2) this] have sp: "sorted_wrt (spaced (ns_cur_int s)) (sort_by l)" by (simp add: s_def)
  have "distinct (map dtp_serialNumber (filter (\<lambda>p. a \<le> unat (dtp_timestamp p) \<and> unat (dtp_timestamp p) < a + unat (ns_cur_int s)) (sort_by l)))" for a
    unfolding distinct_map_sorted_wrt
    by (rule sorted_wrt_mono_rel[OF _ sorted_wrt_filter[OF sp]]) (auto simp: spaced_def)
  moreover have "distinct (map dtp_serialNumber (sort_by l))" if "ns_cur_int s = 0"
    unfolding distinct_map_sorted_wrt by (rule sorted_wrt_mono_rel[OF _ sp]) (auto simp: spaced_def that)
  ultimately show ?thesis
    using NewSort_value[OF assms(1,2)] unfolding s_def[symmetric] by (intro exI conjI) (auto split: if_splits)
qed

section \<open>The statistics of a slot\<close>

lemma fold_nested: "fold (\<lambda>v. fold g (h v)) xs s = fold g (concat (map h xs)) s"
  by (induction xs arbitrary: s) simp_all

definition optional_values :: "(RadioTimePoint \<Rightarrow> fp option) \<Rightarrow> RadioTimePoint list \<Rightarrow> fp list" where
  "optional_values T rs = List.map_filter T rs"

lemma optional_values_simps [simp]:
  "optional_values T [] = []"
  "optional_values T (rs @ [r]) = optional_values T rs @ (case T r of None \<Rightarrow> [] | Some x \<Rightarrow> [x])"
  by (auto simp: optional_values_def List.map_filter_def split: option.split)

lemma std_min_Fin [simp]: "std_min (Fin a) (Fin b) = Fin (min a b)"
  by (auto simp: std_min_def min_def)

lemma std_max_Fin [simp]: "std_max (Fin a) (Fin b) = Fin (max a b)"
  by (auto simp: std_max_def max_def)

lemma optional_fold:
  fixes P :: AveragePoint
  assumes "optional_values T rs = map Fin vs"
  defines "s \<equiv> fold (optional_step T) rs \<lparr> os_sum = Fin 0, os_num = 0, os_HasValue = False, os_point = P \<rparr>"
  shows "os_HasValue s = (vs \<noteq> []) \<and> (vs \<noteq> [] \<longrightarrow>
    pt_min (os_point s) = Fin (Min (set vs)) \<and> pt_max (os_point s) = Fin (Max (set vs)))"
  using assms(1) unfolding s_def
proof (induction rs arbitrary: vs rule: rev_induct)
  case (snoc r rs)
  show ?case
  proof (cases "T r")
    case None
    with snoc show ?thesis by (simp add: optional_step_def)
  next
    case (Some x)
    with snoc.prems obtain ws y where vs: "vs = ws @ [y]" "x = Fin y" "optional_values T rs = map Fin ws"
      by (cases vs rule: rev_cases) auto
    from snoc.IH[OF vs(3)] vs Some show ?thesis
      by (cases "ws = []") (simp_all add: optional_step_def Let_def Min_insert2 max.commute min.commute)
  qed
qed simp

text \<open>
  The temperature statistics of a slot are the least and the greatest of the temperatures its radios report; a radio that reports
  none has no part in them.
\<close>

theorem AverageOptionalRadioData_extremes:
  assumes "optional_values T (concat (map dtp_radio_data Values)) = map Fin vs" "vs \<noteq> []"
  shows "pt_min (AverageOptionalRadioData T Values P) = Fin (Min (set vs))
    \<and> pt_max (AverageOptionalRadioData T Values P) = Fin (Max (set vs))"
proof -
  have "Values \<noteq> []" using assms by auto
  then show ?thesis
    using optional_fold[OF assms(1), of P] assms(2) by (simp add: AverageOptionalRadioData_def Let_def fold_nested)
qed

lemma int_double_nonpos: "k \<le> 0 \<Longrightarrow> \<not> fp_less (Fin 0) (int_double k)"
proof -
  assume "k \<le> 0"
  then have "0 \<le> rnd 53 (min_exp binary64) (- of_int k)" by (intro rnd_nonneg) simp
  moreover have "\<not> (2 :: rat) powi max_exp binary64 \<le> 0" by (simp add: not_le)
  ultimately show ?thesis by (auto simp: fp_round_def fp_rnd_def Let_def rnd_neg binary64_def)
qed

lemma ap_extremes_fold:
  assumes "\<forall>v \<in> set Values. \<not> fp_less (T (dtp_ap_data v)) (Fin 0)" "pt_min P = Fin 0" "pt_max P = Fin 0"
  shows "pt_min (snd (fold (ap_data_step T) Values (a, P))) = Fin 0 \<and> pt_max (snd (fold (ap_data_step T) Values (a, P))) = Fin 0"
  using assms
proof (induction Values arbitrary: a P)
  case (Cons v Values)
  then show ?case by (simp add: ap_data_step_def Let_def std_min_def)
qed simp

lemma ap_extremes:
  assumes "\<forall>v \<in> set Values. \<not> fp_less (T (dtp_ap_data v)) (Fin 0)"
  shows "pt_min (AverageAPData T Values AveragePoint_init) = Fin 0 \<and> pt_max (AverageAPData T Values AveragePoint_init) = Fin 0"
  using ap_extremes_fold[OF assms, of AveragePoint_init "Fin 0"]
  by (auto simp: AverageAPData_def AveragePoint_init_def split: prod.split)

lemma radio_maximum_fold:
  assumes "\<forall>r \<in> set rs. \<not> fp_less (Fin 0) (T r)" "pt_max P = Fin 0"
  shows "pt_max (snd (snd (fold (radio_data_step T) rs (a, n, P)))) = Fin 0"
  using assms
proof (induction rs arbitrary: a n P)
  case (Cons r rs)
  then show ?case by (simp add: radio_data_step_def Let_def std_max_def)
qed simp

definition ap_members :: "(APTimePoint \<Rightarrow> fp) list" where
  "ap_members = [ap_tx_bytes_bw, ap_rx_bytes_bw, ap_rx_dropped_pct, ap_tx_dropped_pct, ap_rx_packets_bw, ap_tx_packets_bw,
     ap_rx_errors_pct, ap_tx_errors_pct]"

definition ap_results :: "(DeviceTimePointAnalysis \<Rightarrow> AveragePoint) list" where
  "ap_results = [dta_tx_bytes_bw, dta_rx_bytes_bw, dta_rx_dropped_pct, dta_tx_dropped_pct, dta_rx_packets_bw, dta_tx_packets_bw,
     dta_rx_errors_pct, dta_tx_errors_pct]"

text \<open>
  C38: The extremes of a slot say nothing where its values have one sign: when no rate of an access point is negative, the least and the
  greatest of each are 0 whatever the rates, and when no noise is positive, as
  noise in dBm is, the greatest noise is 0.
\<close>

theorem slot_extremes_lost:
  assumes "\<forall>p \<in> set pl. \<forall>T \<in> set ap_members. \<not> fp_less (T (dtp_ap_data p)) (Fin 0)"
    and "\<forall>p \<in> set pl. \<forall>r \<in> set (dtp_radio_data p). radio_noise r \<le> 0"
  shows "(\<forall>f \<in> set ap_results. pt_min (f (slot_analysis pl)) = Fin 0 \<and> pt_max (f (slot_analysis pl)) = Fin 0)
    \<and> pt_max (dta_noise (slot_analysis pl)) = Fin 0"
proof
  have "pt_min (AverageAPData T pl AveragePoint_init) = Fin 0 \<and> pt_max (AverageAPData T pl AveragePoint_init) = Fin 0"
    if "T \<in> set ap_members" for T
    by (rule ap_extremes) (use assms(1) that in blast)
  then show "\<forall>f \<in> set ap_results. pt_min (f (slot_analysis pl)) = Fin 0 \<and> pt_max (f (slot_analysis pl)) = Fin 0"
    by (simp add: ap_results_def ap_members_def slot_analysis_def Let_def)
  have "\<forall>r \<in> set (concat (map dtp_radio_data pl)). \<not> fp_less (Fin 0) (int_double (radio_noise r))"
    using assms(2) int_double_nonpos by auto
  from radio_maximum_fold[OF this, of AveragePoint_init "Fin 0" 0]
  show "pt_max (dta_noise (slot_analysis pl)) = Fin 0"
    by (auto simp: slot_analysis_def Let_def AverageRadioData_def fold_nested AveragePoint_init_def split: prod.split)
qed

section \<open>Witnesses\<close>

text \<open>Two devices with points every ten seconds; insertion sort is a sort.\<close>

definition insertion :: "DeviceTimePoint list \<Rightarrow> DeviceTimePoint list" where
  "insertion l = foldr (\<lambda>p. \<lambda>ps. takeWhile (\<lambda>q. sort_serial_ts q p) ps @ p # dropWhile (\<lambda>q. sort_serial_ts q p) ps) l []"

lemma sort_serial_ts_key:
  "sort_serial_ts a b \<longleftrightarrow> di_serialNumber (dtp_device_info a) < di_serialNumber (dtp_device_info b)
     \<or> (di_serialNumber (dtp_device_info a) = di_serialNumber (dtp_device_info b) \<and> dtp_timestamp a < dtp_timestamp b)"
  by (auto simp: sort_serial_ts_def)

lemma sort_serial_ts_trans: "\<not> sort_serial_ts q h \<Longrightarrow> \<not> sort_serial_ts h p \<Longrightarrow> \<not> sort_serial_ts q p"
  by (auto simp: sort_serial_ts_key)

lemma sort_serial_ts_asym: "sort_serial_ts q p \<Longrightarrow> \<not> sort_serial_ts p q"
  by (auto simp: sort_serial_ts_key)

lemma insert_sorted:
  assumes "sorted_wrt (\<lambda>a b. \<not> sort_serial_ts b a) qs"
  shows "sorted_wrt (\<lambda>a b. \<not> sort_serial_ts b a) (takeWhile (\<lambda>q. sort_serial_ts q p) qs @ p # dropWhile (\<lambda>q. sort_serial_ts q p) qs)"
  using assms
proof (induction qs)
  case (Cons q qs)
  show ?case
  proof (cases "sort_serial_ts q p")
    case True
    have "set (takeWhile (\<lambda>q. sort_serial_ts q p) qs) \<union> set (dropWhile (\<lambda>q. sort_serial_ts q p) qs) = set qs"
      by (metis set_append takeWhile_dropWhile_id)
    with True Cons sort_serial_ts_asym[OF True] show ?thesis by auto
  next
    case False
    with Cons.prems sort_serial_ts_trans[OF _ False] show ?thesis by simp
  qed
qed simp

lemma insertion_sorts: "sorts_time insertion"
proof -
  have "mset (insertion l) = mset l \<and> sorted_wrt (\<lambda>a b. \<not> sort_serial_ts b a) (insertion l)" for l
  proof (induction l)
    case (Cons p l)
    let ?P = "\<lambda>q. sort_serial_ts q p"
    have i: "insertion (p # l) = takeWhile ?P (insertion l) @ p # dropWhile ?P (insertion l)" by (simp add: insertion_def)
    have "mset (takeWhile ?P (insertion l)) + mset (dropWhile ?P (insertion l)) = mset (insertion l)"
      unfolding mset_append[symmetric] takeWhile_dropWhile_id ..
    then have "mset (insertion (p # l)) = mset (p # l)" using Cons.IH unfolding i by simp
    with insert_sorted[of "insertion l" p] Cons.IH show ?case unfolding i by blast
  qed (simp add: insertion_def)
  then show ?thesis by (simp add: sorts_time_def)
qed

definition time_point :: "string \<Rightarrow> u64 \<Rightarrow> DeviceTimePoint" where
  "time_point sn t = DeviceTimePoint_init \<lparr> dtp_serialNumber := sn, dtp_timestamp := t,
     dtp_device_info := DeviceInfo_init \<lparr> di_serialNumber := sn \<rparr> \<rparr>"

lemma time_point_sel [simp]:
  "dtp_serialNumber (time_point sn t) = sn" "dtp_timestamp (time_point sn t) = t"
  "di_serialNumber (dtp_device_info (time_point sn t)) = sn"
  by (simp_all add: time_point_def)

definition two_devices :: "DeviceTimePoint list" where
  "two_devices = [time_point ''a'' 110, time_point ''b'' 104, time_point ''a'' 100, time_point ''b'' 90]"

lemma two_devices_ok: "timeline_ok two_devices"
  by (simp add: two_devices_def timeline_ok_def)

lemma two_devices_sorted: "insertion two_devices = [time_point ''a'' 100, time_point ''a'' 110, time_point ''b'' 90, time_point ''b'' 104]"
  by (simp add: two_devices_def insertion_def sort_serial_ts_key)

text \<open>The point of the second device before the first point of the first is in no slot.\<close>

lemma NewSort_slots_witness:
  "NewSort insertion two_devices = Some [[time_point ''a'' 100, time_point ''b'' 104]]"
proof -
  have s: "ns_scan (insertion two_devices) =
    \<lparr> ns_cur_ser = ''b'', ns_cur_int = 10, ns_start_val = 104, ns_last_val = 104, ns_first_val = 100 \<rparr>"
    by (simp add: two_devices_sorted ns_scan_def ns_step_def Let_def)
  show ?thesis
    using NewSort_slots[OF insertion_sorts two_devices_ok s[symmetric] refl refl refl]
    by (simp add: two_devices_sorted slot_count_def)
qed

lemma slot_one_point_per_device_witness: "\<exists>sp. NewSort insertion two_devices = Some sp"
  using slot_one_point_per_device[OF insertion_sorts two_devices_ok] by (auto simp: two_devices_def)

lemma AverageOptionalRadioData_extremes_witness:
  "pt_max (AverageOptionalRadioData radio_temperature
     [DeviceTimePoint_init \<lparr> dtp_radio_data := [RadioTimePoint_init \<lparr> radio_temperature := Some (Fin 40) \<rparr>,
        RadioTimePoint_init, RadioTimePoint_init \<lparr> radio_temperature := Some (Fin 62) \<rparr>] \<rparr>] AveragePoint_init) = Fin 62"
  using AverageOptionalRadioData_extremes[where T = radio_temperature and vs = "[40, 62]" and P = AveragePoint_init and
      Values = "[DeviceTimePoint_init \<lparr> dtp_radio_data := [RadioTimePoint_init \<lparr> radio_temperature := Some (Fin 40) \<rparr>,
        RadioTimePoint_init, RadioTimePoint_init \<lparr> radio_temperature := Some (Fin 62) \<rparr>] \<rparr>]"]
  by (simp add: optional_values_def List.map_filter_def RadioTimePoint_init_def)

lemma slot_extremes_lost_witness:
  "pt_max (dta_tx_bytes_bw (slot_analysis [DeviceTimePoint_init \<lparr> dtp_ap_data := APTimePoint_init \<lparr> ap_tx_bytes_bw := Fin 500 \<rparr>,
      dtp_radio_data := [RadioTimePoint_init \<lparr> radio_noise := -95 \<rparr>] \<rparr>])) = Fin 0"
proof -
  let ?p = "DeviceTimePoint_init \<lparr> dtp_ap_data := APTimePoint_init \<lparr> ap_tx_bytes_bw := Fin 500 \<rparr>,
      dtp_radio_data := [RadioTimePoint_init \<lparr> radio_noise := -95 \<rparr>] \<rparr>"
  have "(\<forall>f \<in> set ap_results. pt_min (f (slot_analysis [?p])) = Fin 0 \<and> pt_max (f (slot_analysis [?p])) = Fin 0)
    \<and> pt_max (dta_noise (slot_analysis [?p])) = Fin 0"
    by (rule slot_extremes_lost) (simp_all add: ap_members_def APTimePoint_init_def RadioTimePoint_init_def)
  then show ?thesis by (simp add: ap_results_def)
qed

end
