(* ===== verification/TimepointApi.thy ===== *)
theory TimepointApi
  imports BoardApi McpHandlers TimeSlots
begin

text \<open>
  The requests on the time points of a board, \<^verbatim>\<open>src/src/RESTAPI/RESTAPI_board_timepoint_handler.cpp\<close>, with the queries of
  \<^verbatim>\<open>src/src/storage/storage_timepoints.cpp\<close> they make.  The engine answers statements over the time points the state holds.
\<close>

section \<open>The queries\<close>

record ('o, 'v) timepoint_env =
  tq_board :: "('o, 'v) board_env"
  tq_type :: DBType
  tq_db :: "DeviceTimePoint list \<Rightarrow> cell list database"
  tq_delete :: "DeviceTimePoint commands"
  tq_sort :: "DeviceTimePoint list \<Rightarrow> DeviceTimePoint list"
  tq_sort_newest :: "DeviceTimePoint list \<Rightarrow> DeviceTimePoint list"

abbreviation tq_json :: "('o, 'v) timepoint_env \<Rightarrow> ('o, 'v) poco" where
  "tq_json M \<equiv> bq_json (tq_board M)"

text \<open>A page with a row that does not convert counts as not found, and the iteration ends.\<close>

definition converted_rows :: "('o, 'v) poco \<Rightarrow> cell list database \<Rightarrow> DeviceTimePoint database" where
  "converted_rows J db stmt = bind (db stmt) (traverse (\<lambda>r. bind (timepoint_row r) (timepoint_of_row J)))"

definition stats_step :: "DeviceTimePoint \<Rightarrow> DeviceTimePointStats \<Rightarrow> DeviceTimePointStats \<times> bool" where
  "stats_step R S =
     (let S = S \<lparr> dtps_count := dtps_count S + 1 \<rparr>;
          S = (if dtps_firstPoint S = 0 then S \<lparr> dtps_firstPoint := dtp_timestamp R \<rparr> else S)
      in (S \<lparr> dtps_lastPoint := dtp_timestamp R \<rparr>, True))"

definition GetStats :: "('o, 'v) timepoint_env \<Rightarrow> string \<Rightarrow> 'j coordinator \<Rightarrow> DeviceTimePointStats option" where
  "GetStats M bid S =
     Iterate (converted_rows (tq_json M) (tq_db M (vc_TimePointsDB S))) id (timepoints_table (tq_type M)) ('' boardId='' @ raw bid)
       stats_step DeviceTimePointStats_init"

definition GetCurrentDeviceFromBoard :: "string \<Rightarrow> 'j coordinator \<Rightarrow> string set" where
  "GetCurrentDeviceFromBoard boardId S = set (map di_serialNumber (Coordinator_GetDevices boardId S))"

definition per_device_clause :: "string \<Rightarrow> u64 \<Rightarrow> u64 \<Rightarrow> string" where
  "per_device_clause boardId FromDate LastDate =
     ''boardId='' @ quoted boardId
       @ (if FromDate \<noteq> 0 \<or> LastDate \<noteq> 0
          then '' and '' @ (if FromDate \<noteq> 0 \<and> LastDate \<noteq> 0
                           then ''timestamp >= '' @ u64_text FromDate @ '' and timestamp <= '' @ u64_text LastDate
                           else if FromDate \<noteq> 0 then ''timestamp >= '' @ u64_text FromDate
                           else ''timestamp <= '' @ u64_text LastDate)
          else [])"

definition per_device_statement :: "DBType \<Rightarrow> string \<Rightarrow> u64 \<Rightarrow> u64 \<Rightarrow> u64 \<Rightarrow> string" where
  "per_device_statement T boardId FromDate LastDate MaxRecords =
     ''select distinct on (serialNumber) '' @ SelectFields (map tolower) TimePoint_Fields @ '' from timepoints where ''
       @ per_device_clause boardId FromDate LastDate @ '' order by serialNumber, timestamp DESC, id DESC'' @ ComputeRange T 0 MaxRecords"

text \<open>An exception of \<^verbatim>\<open>Convert\<close> leaves the function.\<close>

definition GetRecordsPerDevice ::
  "('o, 'v) timepoint_env \<Rightarrow> string \<Rightarrow> u64 \<Rightarrow> u64 \<Rightarrow> u64 \<Rightarrow> 'j coordinator \<Rightarrow> (DeviceTimePoint list \<times> bool) cpp" where
  "GetRecordsPerDevice M boardId FromDate LastDate MaxRecords S =
     (if MaxRecords = 0 then Inr ([], True)
      else case Join (tq_db M (vc_TimePointsDB S)) timepoint_row
                  (per_device_statement (tq_type M) boardId FromDate LastDate MaxRecords) of
             None \<Rightarrow> Inr ([], False)
           | Some rawRecords \<Rightarrow>
               (let currentSerials = GetCurrentDeviceFromBoard boardId S
                in if currentSerials = {} then Inr ([], True)
                   else bind (traverse (timepoint_of_row (tq_json M)) rawRecords) (\<lambda>points.
                          Inr (filter (\<lambda>point. dtp_serialNumber point \<in> currentSerials) points, True))))"

text \<open>\<^verbatim>\<open>GetRecords\<close> keeps the records read before a row that does not convert, and its answer is not used.\<close>

fun convert_while :: "('a \<Rightarrow> 'b cpp) \<Rightarrow> 'a list \<Rightarrow> 'b list" where
  "convert_while f [] = []"
| "convert_while f (x # xs) = (case f x of Inl _ \<Rightarrow> [] | Inr y \<Rightarrow> y # convert_while f xs)"

definition SelectRecords ::
  "('o, 'v) timepoint_env \<Rightarrow> string \<Rightarrow> u64 \<Rightarrow> u64 \<Rightarrow> u64 \<Rightarrow> bool \<Rightarrow> 'j coordinator \<Rightarrow> DeviceTimePoint list cpp" where
  "SelectRecords M boardId FromDate LastDate MaxRecords LatestPerDevice S =
     (if LatestPerDevice
      then bind (GetRecordsPerDevice M boardId FromDate LastDate MaxRecords S) (\<lambda>(tmp, found).
             Inr (if found then tq_sort_newest M tmp else []))
      else Inr (case bind (tq_db M (vc_TimePointsDB S)
                        (records_statement (timepoints_table (tq_type M)) 0 MaxRecords (timeline_clause boardId FromDate LastDate)
                           '' order by timestamp, serialNumber ASC '')) (traverse timepoint_row) of
                  Inl _ \<Rightarrow> []
                | Inr RL \<Rightarrow> convert_while (timepoint_of_row (tq_json M)) RL))"

section \<open>The requests\<close>

text \<open>\<open>None\<close> is a request that does not end.\<close>

definition points_array :: "('o, 'v) poco \<Rightarrow> DeviceTimePoint list list \<Rightarrow> 'v" where
  "points_array J sp =
     mk_array J (map (\<lambda>pl. mk_array J (map (\<lambda>p. mk_object J (DeviceTimePoint_to_json J p (p_new J))) pl)) sp)"

definition stats_array :: "('o, 'v) poco \<Rightarrow> DeviceTimePoint list list \<Rightarrow> 'v" where
  "stats_array J sp = mk_array J (map (\<lambda>a. mk_object J (DeviceTimePointAnalysis_to_json J a (p_new J))) (slots_stats sp))"

definition points_answer :: "('o, 'v) poco \<Rightarrow> bool \<Rightarrow> bool \<Rightarrow> DeviceTimePoint list list \<Rightarrow> 'o" where
  "points_answer J pointsStatsOnly pointsOnly sp =
     set_all J ((if \<not> pointsStatsOnly then [(''points'', points_array J sp)] else [])
         @ (if \<not> pointsOnly then [(''stats'', stats_array J sp)] else [])) (p_new J)"

definition with_uuid ::
  "('o, 'v) board_env \<Rightarrow> 'o handler \<Rightarrow> 'r \<Rightarrow> 'r \<Rightarrow> (string \<Rightarrow> 'j coordinator \<Rightarrow> 'j coordinator \<times> 'r) \<Rightarrow> 'j coordinator \<Rightarrow> 'j coordinator \<times> 'r" where
  "with_uuid M H missing absent f S =
     (let bid = GetBinding (h_Bindings H) ''id'' []
      in if bid = [] \<or> \<not> ValidUUID bid then (S, missing)
         else case GetBoard (bq_env M) bid S of
                (S, Inr (Some B)) \<Rightarrow> f bid S
              | (S, _) \<Rightarrow> (S, absent))"

definition timepoints_of ::
  "('o, 'v) timepoint_env \<Rightarrow> 'o handler \<Rightarrow> string \<Rightarrow> 'j coordinator \<Rightarrow> response cpp option" where
  "timepoints_of M H bid S =
     (let J = tq_json M; Env = bq_rest (tq_board M); Request = h_Request H; ps = rq_parameters Request
      in case bind (GetParameter_u64 ps ''fromDate'' 0) (\<lambda>fromDate.
              bind (GetParameter_u64 ps ''endDate'' 0) (\<lambda>endDate.
              bind (if rq_get Request ''limit'' \<noteq> None then Inr (qb_Limit (h_QB H)) else GetParameter_u64 ps ''maxRecords'' 1000)
                (\<lambda>maxRecords. Inr (fromDate, endDate, maxRecords)))) of
           Inl e \<Rightarrow> Some (Inl e)
         | Inr (fromDate, endDate, maxRecords) \<Rightarrow>
             if GetBoolParameter ps ''statsOnly'' False
             then map_option (\<lambda>DTPS. Inr (Return_to_json J Env Request (DeviceTimePointStats_to_json J) DTPS)) (GetStats M bid S)
             else (case SelectRecords M bid fromDate endDate maxRecords (GetBoolParameter ps ''LatestPerDevice'' False) S of
                     Inl e \<Rightarrow> Some (Inl e)
                   | Inr Points \<Rightarrow>
                       map_option (\<lambda>sp. Inr (ReturnObject J Env Request
                           (points_answer J (GetBoolParameter ps ''pointsStatsOnly'' False) (GetBoolParameter ps ''pointsOnly'' False) sp)))
                         (NewSort (tq_sort M) Points)))"

definition timepoint_DoGet ::
  "('o, 'v) timepoint_env \<Rightarrow> 'o handler \<Rightarrow> 'j coordinator \<Rightarrow> 'j coordinator \<times> response cpp option" where
  "timepoint_DoGet M H =
     with_uuid (tq_board M) H (Some (bad (tq_board M) H MissingUUID []))
       (Some (Inr (Rest_NotFound (tq_json M) (bq_rest (tq_board M)) (h_Request H))))
       (\<lambda>bid S. (S, timepoints_of M H bid S))"

definition timepoint_DoDelete ::
  "('o, 'v) timepoint_env \<Rightarrow> 'o handler \<Rightarrow> 'j coordinator \<Rightarrow> 'j coordinator \<times> response cpp" where
  "timepoint_DoDelete M H =
     with_uuid (tq_board M) H (bad (tq_board M) H MissingUUID [])
       (Inr (Rest_NotFound (tq_json M) (bq_rest (tq_board M)) (h_Request H)))
       (\<lambda>bid S.
          case bind (GetParameter_u64 (rq_parameters (h_Request H)) ''fromDate'' 0) (\<lambda>fromDate.
               bind (GetParameter_u64 (rq_parameters (h_Request H)) ''endDate'' 0) (\<lambda>endDate. Inr (fromDate, endDate))) of
            Inl e \<Rightarrow> (S, Inl e)
          | Inr (fromDate, endDate) \<Rightarrow>
              (S \<lparr> vc_TimePointsDB := fst (DeleteTimeLine (tq_delete M) bid fromDate endDate (vc_TimePointsDB S)) \<rparr>,
               Inr (Rest_OK (tq_json M) (bq_rest (tq_board M)) (h_Request H))))"

section \<open>What a deletion removes\<close>

definition in_timeline :: "string \<Rightarrow> u64 \<Rightarrow> u64 \<Rightarrow> DeviceTimePoint \<Rightarrow> bool" where
  "in_timeline bid lo hi p \<longleftrightarrow> dtp_boardId p = bid \<and> (lo = 0 \<or> lo \<le> dtp_timestamp p) \<and> (hi = 0 \<or> dtp_timestamp p \<le> hi)"

definition timeline_conds :: "string \<Rightarrow> u64 \<Rightarrow> u64 \<Rightarrow> condition list" where
  "timeline_conds bid lo hi = (''boardid'', ''='', Text bid)
     # (if lo \<noteq> 0 then [(''timestamp'', ''>='', Num (unat lo))] else [])
     @ (if hi \<noteq> 0 then [(''timestamp'', ''<='', Num (unat hi))] else [])"

lemma matches_timeline: "matches (dtp_column J) (timeline_conds bid lo hi) = in_timeline bid lo hi"
  by (auto simp: fun_eq_iff matches_def timeline_conds_def in_timeline_def dtp_column_def tp_column_def row_of_timepoint_def
      word_le_nat_alt)

text \<open>An identifier has no quote, so the text of the statement holds it as it is.\<close>

lemma quote_not_hex: "\<not> isxdigit quote"
  by (simp add: ctype_simps)

lemma raw_uuid: "ValidUUID bid \<Longrightarrow> raw bid = quoted bid"
proof -
  assume "ValidUUID bid"
  then have "list_all (\<lambda>i. i = CHR ''-'' \<or> isxdigit i) bid" by (simp add: ValidUUID_def split: if_splits)
  then have "quote \<notin> set bid" using quote_not_hex by (auto simp: list_all_iff)
  then show ?thesis by (rule raw_plain)
qed

lemma timeline_reads:
  assumes "ValidUUID bid" "lo \<noteq> 0 \<or> hi \<noteq> 0"
  shows "read_statement (''delete from '' @ ''timepoints'' @ '' where '' @ timeline_clause bid lo hi)
    = Some (Delete ''timepoints'' (timeline_conds bid lo hi))"
proof -
  note reads = token_simps read_delete_def read_conds.simps[of "TWord _ # _"] read_conds.simps[of "TSym _ # _"]
  note clause = timeline_clause_def timeline_conds_def raw_uuid[OF assms(1)]
  consider "lo \<noteq> 0" "hi \<noteq> 0" | "lo \<noteq> 0" "hi = 0" | "lo = 0" "hi \<noteq> 0" using assms(2) by blast
  then show ?thesis
  proof cases
    case 1
    then show ?thesis
      by (intro read_pieces(1)[of _ "[Con ''delete from timepoints where  boardId='', Lit bid, Con '' and (timestamp >= '', Dec (unat lo),
          Con '' ) and ( timestamp <= '', Dec (unat hi), Con '' ) '']"]) (simp_all add: clause reads)
  next
    case 2
    then show ?thesis
      by (intro read_pieces(1)[of _ "[Con ''delete from timepoints where  boardId='', Lit bid, Con '' and (timestamp >= '', Dec (unat lo),
          Con '') '']"]) (simp_all add: clause reads)
  next
    case 3
    then show ?thesis
      by (intro read_pieces(1)[of _ "[Con ''delete from timepoints where  boardId='', Lit bid, Con '' and (timestamp <= '', Dec (unat hi),
          Con '') '']"]) (simp_all add: clause reads)
  qed
qed

text \<open>
  C19: When a request to delete time points with a date is answered with OK, the engine being one that does what a statement says, exactly the time
  points of that board between the dates are removed, whatever the identifier in the path; a missing date is no bound.
\<close>

theorem timeline_deleted:
  assumes "deletes (tq_delete M) ''timepoints'' (dtp_column (tq_json M))" "never_fails (tq_delete M)"
    and "timepoint_DoDelete M H S = (S', Inr R)" "rs_status R = HTTP_OK"
    and "GetParameter_u64 (rq_parameters (h_Request H)) ''fromDate'' 0 = Inr lo"
    and "GetParameter_u64 (rq_parameters (h_Request H)) ''endDate'' 0 = Inr hi" "lo \<noteq> 0 \<or> hi \<noteq> 0"
  shows "vc_TimePointsDB S' = filter (\<lambda>p. \<not> in_timeline (GetBinding (h_Bindings H) ''id'' []) lo hi p) (vc_TimePointsDB S)"
proof -
  define bid where "bid = GetBinding (h_Bindings H) ''id'' []"
  have v: "ValidUUID bid" "bid \<noteq> []"
    using assms(3,4) by (auto simp: timepoint_DoDelete_def with_uuid_def bid_def[symmetric] Let_def split: if_splits)
  obtain ob where g: "GetBoard (bq_env (tq_board M)) bid S = (S \<lparr> vc_calls := vc_calls S + 1 \<rparr>, Inr ob)" by (simp add: GetBoard_def)
  obtain B where B: "ob = Some B"
    using assms(3,4) v g by (cases ob) (auto simp: timepoint_DoDelete_def with_uuid_def bid_def[symmetric] Let_def)
  have S': "vc_TimePointsDB S' = fst (DeleteTimeLine (tq_delete M) bid lo hi (vc_TimePointsDB S))"
    using assms(3,5,6) v g B by (auto simp: timepoint_DoDelete_def with_uuid_def bid_def[symmetric] Let_def)
  obtain rows x where d: "DeleteRecords (tq_delete M) ''timepoints'' (timeline_clause bid lo hi) (vc_TimePointsDB S) = (rows, x)" by fastforce
  note e = DeleteRecords_effect[OF assms(1) timeline_reads[OF v(1) assms(7)]]
  have "x" using e(2)[of "vc_TimePointsDB S"] d assms(2) by (simp add: never_fails_def)
  with e(1)[OF d] d S' show ?thesis by (simp add: DeleteTimeLine_def matches_timeline bid_def[symmetric])
qed

section \<open>The latest point of each device\<close>

definition date_pieces :: "u64 \<Rightarrow> u64 \<Rightarrow> piece list" where
  "date_pieces lo hi = (if lo \<noteq> 0 then [Con '' and timestamp >= '', Dec (unat lo)] else [])
     @ (if hi \<noteq> 0 then [Con '' and timestamp <= '', Dec (unat hi)] else [])"

fun newest_pieces :: "DBType \<Rightarrow> u64 \<Rightarrow> piece list" where
  "newest_pieces sqlite n = [Con '' order by serialNumber, timestamp DESC, id DESC LIMIT '', Dec 0, Con '', '', Dec (unat n), Con '' '']"
| "newest_pieces _ n = [Con '' order by serialNumber, timestamp DESC, id DESC LIMIT '', Dec (unat n), Con '' OFFSET '', Dec 0, Con '' '']"

definition newest_toks :: "token list" where
  "newest_toks = [TWord ''order'', TWord ''by'', TWord ''serialnumber'', TSym '','', TWord ''timestamp'', TWord ''desc'', TSym '','',
     TWord ''id'', TWord ''desc'']"

lemma newest_pieces_ok: "pieces_ok (newest_pieces T n)" "\<exists>p qs. newest_pieces T n = Con p # qs \<and> p \<noteq> [] \<and> hd p \<in> set '' ),''"
  by (cases T; simp add: token_simps)+

lemma newest_pieces_toks: "concat (map piece_toks (newest_pieces T n)) = newest_toks @ range_toks T 0 n"
  by (cases T) (simp_all add: newest_toks_def token_simps)

lemma newest_read: "read_order_part (newest_toks @ range_toks T 0 n)
    = Some ([(''serialnumber'', False), (''timestamp'', True), (''id'', True)], range_toks T 0 n)"
    "read_range (range_toks T 0 n) = Some (Some (0, unat n))"
  by (cases T; simp add: newest_toks_def read_order_part_def read_order.simps(2))+

definition per_device_pieces :: "DBType \<Rightarrow> string \<Rightarrow> u64 \<Rightarrow> u64 \<Rightarrow> u64 \<Rightarrow> piece list" where
  "per_device_pieces T bid lo hi n =
     [Con ''select distinct on (serialNumber) id, boardid, timestamp, ap_data, ssid_data, radio_data, device_info, serialnumber, resource_data, venueid from timepoints where boardId='',
      Lit bid] @ date_pieces lo hi @ newest_pieces T n"

lemma per_device_text: "per_device_statement T bid lo hi n = pieces_text (per_device_pieces T bid lo hi n)"
  by (cases T) (simp_all add: per_device_statement_def per_device_clause_def per_device_pieces_def date_pieces_def ComputeRange_def
      row_SelectFields)

lemma per_device_pieces_ok: "pieces_ok (per_device_pieces T bid lo hi n)"
  using newest_pieces_ok[of T n] by (auto simp: per_device_pieces_def date_pieces_def token_simps)

lemma per_device_reads:
  "read_statement (per_device_statement T bid lo hi n) = Some (Select \<lparr> q_columns = DistinctOn ''serialnumber'' row_columns,
      q_table = ''timepoints'', q_where = timeline_conds bid lo hi,
      q_order = [(''serialnumber'', False), (''timestamp'', True), (''id'', True)], q_range = Some (0, unat n) \<rparr>)"
proof -
  let ?ts = "concat (map piece_toks (per_device_pieces T bid lo hi n))"
  have "read_select (tl ?ts) = Some (Select \<lparr> q_columns = DistinctOn ''serialnumber'' row_columns,
      q_table = ''timepoints'', q_where = timeline_conds bid lo hi,
      q_order = [(''serialnumber'', False), (''timestamp'', True), (''id'', True)], q_range = Some (0, unat n) \<rparr>)"
    using newest_read[of T n]
    by (auto simp: per_device_pieces_def date_pieces_def timeline_conds_def token_simps newest_pieces_toks read_select_def
        read_where_part_def read_conds.simps[of "TWord _ # _"] row_columns_def newest_toks_def)
  moreover have "hd ?ts = TWord ''select''" "?ts \<noteq> []" by (simp_all add: per_device_pieces_def token_simps)
  ultimately show ?thesis
    by (intro read_pieces(2)[OF per_device_text per_device_pieces_ok]) (simp_all add: per_device_pieces_def)
qed

lemma first_of_each_keys:
  "distinct (map key (first_of_each key seen s))" "key ` set (first_of_each key seen s) = key ` set s - seen"
  by (induction s arbitrary: seen) (auto simp: insert_Diff_if)

lemma first_of_each_first:
  assumes "sorted_wrt P s" "r \<in> set (first_of_each key seen s)"
  shows "r \<in> set s \<and> key r \<notin> seen \<and> (\<forall>r' \<in> set s. key r' = key r \<longrightarrow> r' = r \<or> P r r')"
  using assms by (induction s arbitrary: seen) (fastforce split: if_splits)+

lemma into_dtp_row: "timepoint_row (map (\<lambda>f. dtp_column J f p) row_columns) = Inr (row_of_timepoint J p)"
  by (simp add: dtp_column_def into_row)

lemma traverse_dtp_rows:
  "traverse timepoint_row (map (\<lambda>r. map (\<lambda>f. dtp_column J f r) row_columns) ps) = Inr (map (row_of_timepoint J) ps)"
  by (induction ps) (simp_all add: into_dtp_row)

lemma list_all2_keys: "list_all2 P xs ys \<Longrightarrow> (\<And>x y. P x y \<Longrightarrow> f y = g x) \<Longrightarrow> map f ys = map g xs"
  by (induction rule: list_all2_induct) simp_all

lemma list_all2_source: "list_all2 P xs ys \<Longrightarrow> y \<in> set ys \<Longrightarrow> \<exists>x \<in> set xs. P x y"
  by (induction rule: list_all2_induct) auto

lemma converted_fields: "timepoint_of_row J (row_of_timepoint J p) = Inr r \<Longrightarrow>
    dtp_serialNumber r = dtp_serialNumber p \<and> dtp_timestamp r = dtp_timestamp p"
  by (auto simp: timepoint_of_row_def row_of_timepoint_def bind_Inr_iff)

text \<open>The rows of the answer: the newest of each device, in the order of the devices, cut to the limit.\<close>

lemma per_device_rows:
  assumes "obeys db ''timepoints'' (dtp_column J) collate tbl" "\<forall>a. \<not> collate a a"
    and "Join db timepoint_row (per_device_statement T bid lo hi n) = Some Raw"
  obtains ps where "Raw = map (row_of_timepoint J) (take (unat n) ps)" "distinct (map dtp_serialNumber ps)"
    "dtp_serialNumber ` set ps = dtp_serialNumber ` set (filter (in_timeline bid lo hi) tbl)"
    "\<forall>p \<in> set ps. p \<in> set tbl \<and> in_timeline bid lo hi p \<and>
       (\<forall>q \<in> set tbl. in_timeline bid lo hi q \<and> dtp_serialNumber q = dtp_serialNumber p \<longrightarrow> dtp_timestamp q \<le> dtp_timestamp p)"
proof -
  obtain out where o: "db (per_device_statement T bid lo hi n) = Inr out" "traverse timepoint_row out = Inr Raw"
    using assms(3) by (auto simp: Join_def bind_Inr_iff split: sum.splits)
  let ?order = "[(''serialnumber'', False), (''timestamp'', True), (''id'', True)]"
  have "answers (dtp_column J) collate tbl \<lparr> q_columns = DistinctOn ''serialnumber'' row_columns, q_table = ''timepoints'',
      q_where = timeline_conds bid lo hi, q_order = ?order, q_range = Some (0, unat n) \<rparr> out"
    using assms(1) o(1) per_device_reads[of T bid lo hi n] unfolding obeys_def by fastforce
  then obtain s where s: "mset s = mset (filter (in_timeline bid lo hi) tbl)" "sorted_wrt (before (dtp_column J) collate ?order) s"
    "out = map (\<lambda>r. map (\<lambda>f. dtp_column J f r) row_columns) (take (unat n) (first_of_each (dtp_column J ''serialnumber'') {} s))"
    by (auto simp: answers_def matches_timeline select_rows_def Sql.in_range_def)
  define ps where "ps = first_of_each (dtp_column J ''serialnumber'') {} s"
  have members: "set s = set (filter (in_timeline bid lo hi) tbl)" using s(1) by (metis set_mset_mset)
  have k: "dtp_column J ''serialnumber'' = Text \<circ> dtp_serialNumber" "dtp_column J ''timestamp'' = Num \<circ> unat \<circ> dtp_timestamp"
    by (auto simp: fun_eq_iff dtp_column_def tp_column_def row_of_timepoint_def)
  have "Raw = map (row_of_timepoint J) (take (unat n) ps)"
    using o(2) unfolding s(3) ps_def[symmetric] traverse_dtp_rows by simp
  moreover have "distinct (map (dtp_column J ''serialnumber'') ps)" unfolding ps_def by (rule first_of_each_keys(1))
  then have "distinct (map dtp_serialNumber ps)" unfolding k map_map[symmetric] by (simp only: distinct_map)
  moreover have "dtp_column J ''serialnumber'' ` set ps = dtp_column J ''serialnumber'' ` set s"
    unfolding ps_def first_of_each_keys(2) by simp
  then have "dtp_serialNumber ` set ps = dtp_serialNumber ` set (filter (in_timeline bid lo hi) tbl)"
    unfolding k(1) image_comp[symmetric] members by (simp add: inj_image_eq_iff inj_def)
  moreover have "p \<in> set tbl \<and> in_timeline bid lo hi p \<and>
       (\<forall>q \<in> set tbl. in_timeline bid lo hi q \<and> dtp_serialNumber q = dtp_serialNumber p \<longrightarrow> dtp_timestamp q \<le> dtp_timestamp p)"
    if "p \<in> set ps" for p
    using first_of_each_first[OF s(2), of p "dtp_column J ''serialnumber''" "{}"] that[unfolded ps_def] assms(2) members by (auto simp: k word_le_nat_alt)
  ultimately show thesis using that by blast
qed

text \<open>
  C18: Asked for the latest point of each device, the storage returns one point for a device at most, each the conversion of a stored point of the board
  between the dates than which the device has no newer one, and only for devices watched now; when the limit covers the devices of the
  board, every watched device with such a point is there.
\<close>

theorem latest_per_device:
  assumes "obeys (tq_db M (vc_TimePointsDB S)) ''timepoints'' (dtp_column (tq_json M)) collate (vc_TimePointsDB S)" "\<forall>a. \<not> collate a a"
    and "GetRecordsPerDevice M bid lo hi n S = Inr (Recs, True)"
  shows "distinct (map dtp_serialNumber Recs)
    \<and> (\<forall>r \<in> set Recs. dtp_serialNumber r \<in> GetCurrentDeviceFromBoard bid S
        \<and> (\<exists>p \<in> set (vc_TimePointsDB S). in_timeline bid lo hi p \<and> timepoint_of_row (tq_json M) (row_of_timepoint (tq_json M) p) = Inr r)
        \<and> (\<forall>q \<in> set (vc_TimePointsDB S). in_timeline bid lo hi q \<and> dtp_serialNumber q = dtp_serialNumber r
             \<longrightarrow> dtp_timestamp q \<le> dtp_timestamp r))
    \<and> (card (dtp_serialNumber ` set (filter (in_timeline bid lo hi) (vc_TimePointsDB S))) \<le> unat n \<longrightarrow>
         dtp_serialNumber ` set Recs = dtp_serialNumber ` set (filter (in_timeline bid lo hi) (vc_TimePointsDB S))
           \<inter> GetCurrentDeviceFromBoard bid S)"
proof (cases "n = 0 \<or> GetCurrentDeviceFromBoard bid S = {}")
  case True
  with assms(3) have "Recs = []" by (auto simp: GetRecordsPerDevice_def Let_def split: option.splits if_splits)
  with True show ?thesis by auto
next
  case False
  then obtain Raw where raw: "Join (tq_db M (vc_TimePointsDB S)) timepoint_row (per_device_statement (tq_type M) bid lo hi n) = Some Raw"
    using assms(3) by (auto simp: GetRecordsPerDevice_def split: option.splits)
  from per_device_rows[OF assms(1,2) raw] obtain ps where ps: "Raw = map (row_of_timepoint (tq_json M)) (take (unat n) ps)"
    "distinct (map dtp_serialNumber ps)"
    "dtp_serialNumber ` set ps = dtp_serialNumber ` set (filter (in_timeline bid lo hi) (vc_TimePointsDB S))"
    "\<forall>p \<in> set ps. p \<in> set (vc_TimePointsDB S) \<and> in_timeline bid lo hi p \<and> (\<forall>q \<in> set (vc_TimePointsDB S).
       in_timeline bid lo hi q \<and> dtp_serialNumber q = dtp_serialNumber p \<longrightarrow> dtp_timestamp q \<le> dtp_timestamp p)" .
  obtain points where p: "traverse (timepoint_of_row (tq_json M)) Raw = Inr points"
    "Recs = filter (\<lambda>point. dtp_serialNumber point \<in> GetCurrentDeviceFromBoard bid S) points"
    using assms(3) False raw by (auto simp: GetRecordsPerDevice_def Let_def bind_Inr_iff)
  have c: "list_all2 (\<lambda>x r. timepoint_of_row (tq_json M) (row_of_timepoint (tq_json M) x) = Inr r) (take (unat n) ps) points"
    using p(1) unfolding ps(1) traverse_Inr by (simp add: list_all2_map1)
  have serials: "map dtp_serialNumber points = map dtp_serialNumber (take (unat n) ps)"
    by (rule list_all2_keys[OF c]) (simp add: converted_fields)
  have whole: "take (unat n) ps = ps" if "card (dtp_serialNumber ` set ps) \<le> unat n"
    using that distinct_card[OF ps(2)] by simp
  have d: "distinct (map dtp_serialNumber Recs)"
    unfolding p(2) by (rule distinct_map_filter) (simp only: serials take_map[symmetric] distinct_take[OF ps(2)])
  have from_ps: "\<exists>x \<in> set ps. timepoint_of_row (tq_json M) (row_of_timepoint (tq_json M) x) = Inr r" if "r \<in> set points" for r
    using list_all2_source[OF c that] in_set_takeD by fast
  have each: "dtp_serialNumber r \<in> GetCurrentDeviceFromBoard bid S
        \<and> (\<exists>p \<in> set (vc_TimePointsDB S). in_timeline bid lo hi p \<and> timepoint_of_row (tq_json M) (row_of_timepoint (tq_json M) p) = Inr r)
        \<and> (\<forall>q \<in> set (vc_TimePointsDB S). in_timeline bid lo hi q \<and> dtp_serialNumber q = dtp_serialNumber r
             \<longrightarrow> dtp_timestamp q \<le> dtp_timestamp r)" if r: "r \<in> set Recs" for r
  proof -
    obtain x where x: "x \<in> set ps" "timepoint_of_row (tq_json M) (row_of_timepoint (tq_json M) x) = Inr r"
      using from_ps[of r] r unfolding p(2) by auto
    then show ?thesis using ps(4)[THEN bspec, OF x(1)] converted_fields[OF x(2)] r p(2) by auto
  qed
  have "dtp_serialNumber ` set Recs = dtp_serialNumber ` set ps \<inter> GetCurrentDeviceFromBoard bid S"
    if "card (dtp_serialNumber ` set ps) \<le> unat n"
  proof -
    have "dtp_serialNumber ` set points = dtp_serialNumber ` set ps"
      using arg_cong[OF serials, of set] whole[OF that] by (simp only: set_map)
    moreover have "dtp_serialNumber ` set Recs = dtp_serialNumber ` set points \<inter> GetCurrentDeviceFromBoard bid S"
      unfolding p(2) by auto
    ultimately show ?thesis by simp
  qed
  with d each show ?thesis unfolding ps(3) by blast
qed

section \<open>Witnesses\<close>

text \<open>A board with one device, which has one time point.\<close>

definition one_point :: DeviceTimePoint where
  "one_point = (time_point (IntToSerialNumber 10) 110) \<lparr> dtp_boardId := ''b-1'' \<rparr>"

definition points_site :: "((string \<times> tree) list, tree) timepoint_env" where
  "points_site = \<lparr> tq_board = board_site, tq_type = sqlite, tq_db = run_select (dtp_column tree_lib) ''timepoints'',
     tq_delete = run_delete (dtp_column tree_lib) ''timepoints'', tq_sort = insertion, tq_sort_newest = id \<rparr>"

definition one_device :: "unit coordinator" where
  "one_device = (coordinator_init [named_board ''b-1'' 0]) \<lparr> vc_TimePointsDB := [one_point],
     vc_Watchers := [(''b-1'', (1, (VenueWatcher_new ''b-1'' ''v1'' [10]) \<lparr> vw_APs := [(10, AP_init 10 ''v1'' ''b-1'')] \<rparr>))] \<rparr>"

lemma points_site_sel:
  "tq_json points_site = tree_lib" "tq_db points_site = run_select (dtp_column tree_lib) ''timepoints''"
  "tq_delete points_site = run_delete (dtp_column tree_lib) ''timepoints''" "tq_type points_site = sqlite"
  "env_json (bq_env board_site) = tree_lib" "bq_env (tq_board points_site) = bq_env board_site" "bq_rest (tq_board points_site) = plain_env"
  by (simp_all add: points_site_def board_site_def small_env_def)

lemma one_device_sel:
  "vc_TimePointsDB one_device = [one_point]" "GetCurrentDeviceFromBoard ''b-1'' one_device = {IntToSerialNumber 10}"
  "vc_BoardsDB one_device = [named_board ''b-1'' 0]" "env_db (bq_env board_site) n"
  by (simp_all add: one_device_def coordinator_init_def GetCurrentDeviceFromBoard_def Coordinator_GetDevices_def Watcher_GetDevices_def
      AP_init_def board_site_def small_env_def)

lemma one_point_in: "in_timeline ''b-1'' 100 120 one_point"
  by (simp add: in_timeline_def one_point_def)

lemma one_point_read: "\<exists>r. timepoint_of_row tree_lib (row_of_timepoint tree_lib one_point) = Inr r"
  by (simp add: timepoint_of_row_def row_of_timepoint_def to_string_object_def to_object_def bind_def tree_lib_def)

lemma latest_per_device_witness:
  "\<exists>Recs. GetRecordsPerDevice points_site ''b-1'' 100 120 10 one_device = Inr (Recs, True)
     \<and> dtp_serialNumber ` set Recs = {IntToSerialNumber 10}"
proof -
  let ?db = "run_select (dtp_column tree_lib) ''timepoints'' [one_point]"
  have "?db (per_device_statement sqlite ''b-1'' 100 120 10) = Inr [map (\<lambda>f. dtp_column tree_lib f one_point) row_columns]"
    using one_point_in by (subst run_select_reads[OF per_device_reads]) (simp_all add: matches_timeline select_rows_def Sql.in_range_def)
  then have "Join ?db timepoint_row (per_device_statement sqlite ''b-1'' 100 120 10) = Some [row_of_timepoint tree_lib one_point]"
    using traverse_dtp_rows[of tree_lib "[one_point]"] by (simp add: Join_def bind_def)
  with one_point_read obtain Recs where r: "GetRecordsPerDevice points_site ''b-1'' 100 120 10 one_device = Inr (Recs, True)"
    by (auto simp: GetRecordsPerDevice_def points_site_sel one_device_sel bind_def Let_def)
  have o: "obeys (tq_db points_site (vc_TimePointsDB one_device)) ''timepoints'' (dtp_column (tq_json points_site)) (\<lambda>_ _. False)
      (vc_TimePointsDB one_device)"
    by (simp add: points_site_sel one_device_sel run_select_obeys)
  from latest_per_device[OF o _ r] r show ?thesis using one_point_in
    by (auto simp: one_device_sel one_point_def)
qed

definition delete_request :: "(string \<times> tree) list handler" where
  "delete_request = plain_handler (plain_request ''DELETE'' [(''fromDate'', ''100''), (''endDate'', ''120'')]) [(''id'', ''b-1'')]"

lemma timeline_deleted_witness:
  "\<exists>S' R. timepoint_DoDelete points_site delete_request one_device = (S', Inr R) \<and> vc_TimePointsDB S' = []"
proof -
  have ps: "GetParameter_u64 (rq_parameters (h_Request delete_request)) ''fromDate'' 0 = Inr 100"
    "GetParameter_u64 (rq_parameters (h_Request delete_request)) ''endDate'' 0 = Inr 120"
    by (simp_all add: delete_request_def plain_handler_def plain_request_def GetParameter_u64_def is_number_def stoull_digits_def
        num_val_def ctype_simps)
  have i: "GetBinding (h_Bindings delete_request) ''id'' [] = ''b-1''" "ValidUUID ''b-1''"
    by (simp_all add: delete_request_def plain_handler_def GetBinding_def ValidUUID_def ctype_simps)
  have m: "h_Request delete_request = plain_request ''DELETE'' [(''fromDate'', ''100''), (''endDate'', ''120'')]"
    by (simp add: delete_request_def plain_handler_def)
  obtain S' R where r: "timepoint_DoDelete points_site delete_request one_device = (S', Inr R)" "rs_status R = HTTP_OK"
    by (simp add: timepoint_DoDelete_def with_uuid_def i points_site_sel GetBoard_def one_device_sel ps bind_def Let_def board_id_def
        named_board_def)
  have d: "deletes (tq_delete points_site) ''timepoints'' (dtp_column (tq_json points_site))" "never_fails (tq_delete points_site)"
    by (simp_all add: points_site_sel run_delete_ok)
  have "vc_TimePointsDB S' = []"
    using timeline_deleted[OF d r ps] one_point_in by (simp add: i one_device_sel)
  with r show ?thesis by blast
qed

end
