(* ===== verification/ClientHistory.thy ===== *)
theory ClientHistory
  imports BoardApi McpHandlers WifiClientCache
begin

text \<open>
  The requests on the history of Wi-Fi clients, \<^verbatim>\<open>src/src/RESTAPI/RESTAPI_wificlienthistory_handler.cpp\<close>, with the table of
  \<^verbatim>\<open>src/src/storage/storage_wificlients.cpp\<close>, and \<^verbatim>\<open>PrepareOrderBy\<close>, \<^verbatim>\<open>Count\<close> and \<^verbatim>\<open>GetFieldNames\<close> of
  \<^verbatim>\<open>src/src/framework/orm.h\<close>.
\<close>

section \<open>The table\<close>

definition WifiClientHistory_Fields :: "Field list" where
  "WifiClientHistory_Fields =
     [Field_typed ''timestamp'' FT_BIGINT, Field_typed ''station_id'' FT_TEXT, Field_typed ''bssid'' FT_TEXT,
      Field_typed ''ssid'' FT_TEXT, Field_typed ''rssi'' FT_BIGINT, Field_typed ''rx_bitrate'' FT_BIGINT,
      Field_typed ''rx_chwidth'' FT_BIGINT, Field_typed ''rx_mcs'' FT_BIGINT, Field_typed ''rx_nss'' FT_BIGINT,
      Field_typed ''rx_vht'' FT_BOOLEAN, Field_typed ''tx_bitrate'' FT_BIGINT, Field_typed ''tx_chwidth'' FT_BIGINT,
      Field_typed ''tx_mcs'' FT_BIGINT, Field_typed ''tx_nss'' FT_BIGINT, Field_typed ''tx_vht'' FT_BOOLEAN,
      Field_typed ''rx_bytes'' FT_BIGINT, Field_typed ''tx_bytes'' FT_BIGINT, Field_typed ''rx_duration'' FT_BIGINT,
      Field_typed ''tx_duration'' FT_BIGINT, Field_typed ''rx_packets'' FT_BIGINT, Field_typed ''tx_packets'' FT_BIGINT,
      Field_typed ''ipv4'' FT_TEXT, Field_typed ''ipv6'' FT_TEXT, Field_typed ''channel_width'' FT_BIGINT,
      Field_typed ''noise'' FT_BIGINT, Field_typed ''tx_power'' FT_BIGINT, Field_typed ''channel'' FT_BIGINT,
      Field_typed ''active_ms'' FT_BIGINT, Field_typed ''busy_ms'' FT_BIGINT, Field_typed ''receive_ms'' FT_BIGINT,
      Field_typed ''mode'' FT_TEXT, Field_typed ''ack_signal'' FT_BIGINT, Field_typed ''ack_signal_avg'' FT_BIGINT,
      Field_typed ''connected'' FT_BIGINT, Field_typed ''inactive'' FT_BIGINT, Field_typed ''tx_retries'' FT_BIGINT,
      Field_typed ''venue_id'' FT_TEXT]"

record WifiClientHistoryDBRecordType =
  whr_timestamp :: u64
  whr_station_id :: string
  whr_bssid :: string
  whr_ssid :: string
  whr_rssi :: int
  whr_rx_bitrate :: u32
  whr_rx_chwidth :: u32
  whr_rx_mcs :: u16
  whr_rx_nss :: u16
  whr_rx_vht :: bool
  whr_tx_bitrate :: u32
  whr_tx_chwidth :: u32
  whr_tx_mcs :: u16
  whr_tx_nss :: u16
  whr_tx_vht :: bool
  whr_rx_bytes :: u64
  whr_tx_bytes :: u64
  whr_rx_duration :: int
  whr_tx_duration :: u64
  whr_rx_packets :: u64
  whr_tx_packets :: u64
  whr_ipv4 :: string
  whr_ipv6 :: string
  whr_channel_width :: u64
  whr_noise :: int
  whr_tx_power :: u64
  whr_channel :: u64
  whr_active_ms :: u64
  whr_busy_ms :: u64
  whr_receive_ms :: u64
  whr_mode :: string
  whr_ack_signal :: int
  whr_ack_signal_avg :: int
  whr_connected :: int
  whr_inactive :: int
  whr_tx_retries :: int
  whr_venue_id :: string

definition history_of_row :: "WifiClientHistoryDBRecordType \<Rightarrow> WifiClientHistory" where
  "history_of_row In =
     \<lparr> wch_timestamp = whr_timestamp In, wch_station_id = whr_station_id In, wch_bssid = whr_bssid In,
       wch_ssid = whr_ssid In, wch_rssi = whr_rssi In, wch_rx_bitrate = whr_rx_bitrate In,
       wch_rx_chwidth = whr_rx_chwidth In, wch_rx_mcs = whr_rx_mcs In, wch_rx_nss = whr_rx_nss In,
       wch_rx_vht = whr_rx_vht In, wch_tx_bitrate = whr_tx_bitrate In, wch_tx_chwidth = whr_tx_chwidth In,
       wch_tx_mcs = whr_tx_mcs In, wch_tx_nss = whr_tx_nss In, wch_tx_vht = whr_tx_vht In, wch_rx_bytes = whr_rx_bytes In,
       wch_tx_bytes = whr_tx_bytes In, wch_rx_duration = of_int (whr_rx_duration In), wch_tx_duration = whr_tx_duration In,
       wch_rx_packets = whr_rx_packets In, wch_tx_packets = whr_tx_packets In, wch_ipv4 = whr_ipv4 In,
       wch_ipv6 = whr_ipv6 In, wch_channel_width = whr_channel_width In, wch_noise = whr_noise In,
       wch_tx_power = whr_tx_power In, wch_channel = whr_channel In, wch_active_ms = whr_active_ms In,
       wch_busy_ms = whr_busy_ms In, wch_receive_ms = whr_receive_ms In, wch_mode = whr_mode In,
       wch_ack_signal = whr_ack_signal In, wch_ack_signal_avg = whr_ack_signal_avg In,
       wch_connected = of_int (whr_connected In), wch_inactive = of_int (whr_inactive In),
       wch_tx_retries = of_int (whr_tx_retries In), wch_venue_id = whr_venue_id In \<rparr>"

definition row_of_history :: "WifiClientHistory \<Rightarrow> WifiClientHistoryDBRecordType" where
  "row_of_history In =
     \<lparr> whr_timestamp = wch_timestamp In, whr_station_id = wch_station_id In, whr_bssid = wch_bssid In,
       whr_ssid = wch_ssid In, whr_rssi = wch_rssi In, whr_rx_bitrate = wch_rx_bitrate In,
       whr_rx_chwidth = wch_rx_chwidth In, whr_rx_mcs = wch_rx_mcs In, whr_rx_nss = wch_rx_nss In,
       whr_rx_vht = wch_rx_vht In, whr_tx_bitrate = wch_tx_bitrate In, whr_tx_chwidth = wch_tx_chwidth In,
       whr_tx_mcs = wch_tx_mcs In, whr_tx_nss = wch_tx_nss In, whr_tx_vht = wch_tx_vht In, whr_rx_bytes = wch_rx_bytes In,
       whr_tx_bytes = wch_tx_bytes In, whr_rx_duration = sint (wch_rx_duration In), whr_tx_duration = wch_tx_duration In,
       whr_rx_packets = wch_rx_packets In, whr_tx_packets = wch_tx_packets In, whr_ipv4 = wch_ipv4 In,
       whr_ipv6 = wch_ipv6 In, whr_channel_width = wch_channel_width In, whr_noise = wch_noise In,
       whr_tx_power = wch_tx_power In, whr_channel = wch_channel In, whr_active_ms = wch_active_ms In,
       whr_busy_ms = wch_busy_ms In, whr_receive_ms = wch_receive_ms In, whr_mode = wch_mode In,
       whr_ack_signal = wch_ack_signal In, whr_ack_signal_avg = wch_ack_signal_avg In,
       whr_connected = sint (wch_connected In), whr_inactive = sint (wch_inactive In),
       whr_tx_retries = sint (wch_tx_retries In), whr_venue_id = wch_venue_id In \<rparr>"

definition history_table :: "DBType \<Rightarrow> table" where
  "history_table T =
     \<lparr> TableName = ''wificlienthistory'', Type = T, Select_Fields = SelectFields (map tolower) WifiClientHistory_Fields \<rparr>"

definition GetClientMacs :: "(string \<times> string) database \<Rightarrow> (string \<times> string) list option" where
  "GetClientMacs db =
     (case db ''Select distinct station_id, venue_id from wificlienthistory'' of Inl _ \<Rightarrow> None | Inr RecordList \<Rightarrow> Some RecordList)"

section \<open>Names, orders and counts\<close>

text \<open>The keys of \<^verbatim>\<open>FieldNames_\<close>, a map.\<close>

definition GetFieldNames :: "Field list \<Rightarrow> string list" where
  "GetFieldNames Fields = sort_unique (map (\<lambda>i. map tolower (Field_Name i)) Fields)"

fun order_items :: "(string \<Rightarrow> string \<Rightarrow> string list) \<Rightarrow> string list \<Rightarrow> string list \<Rightarrow> string \<Rightarrow> string option" where
  "order_items tokenize names [] ItemList = Some ItemList"
| "order_items tokenize names (i # items) ItemList =
     (let T = tokenize i '':''
      in if length T \<noteq> 2 then None
         else if T ! 1 \<noteq> ''a'' \<and> T ! 1 \<noteq> ''d'' then None
         else let ItemList = (if ItemList \<noteq> [] then ItemList @ '' , '' else ItemList)
              in if map tolower (T ! 0) \<notin> set names then None
                 else order_items tokenize names items (ItemList @ T ! 0 @ (if T ! 1 = ''a'' then '' ASC'' else '' DESC'')))"

definition PrepareOrderBy ::
  "(string \<Rightarrow> string \<Rightarrow> string list) \<Rightarrow> string list \<Rightarrow> string \<Rightarrow> string \<Rightarrow> string \<times> bool" where
  "PrepareOrderBy tokenize names OrderByList OrderByString =
     (case order_items tokenize names (tokenize OrderByList '','') [] of
        None \<Rightarrow> (OrderByString, False)
      | Some ItemList \<Rightarrow> (if ItemList \<noteq> [] then '' ORDER BY '' @ ItemList else OrderByString, True))"

definition Count :: "u64 database \<Rightarrow> string \<Rightarrow> string \<Rightarrow> u64" where
  "Count db T Where =
     (case db (''SELECT COUNT(*) FROM '' @ T @ '' '' @ (if Where = [] then [] else '' where '' @ Where)) of
        Inr [Cnt] \<Rightarrow> Cnt
      | _ \<Rightarrow> 0)"

section \<open>The requests\<close>

definition InvalidSerialNumber :: msg where "InvalidSerialNumber = (1020, ''Invalid Serial Number.'')"
definition InvalidLOrderBy :: msg where "InvalidLOrderBy = (1043, ''Invalid orderBy specification.'')"
definition MissingOrInvalidParameters :: msg where
  "MissingOrInvalidParameters = (1018, ''Invalid or missing parameters.'')"

record 'j history_state =
  hs_coordinator :: "'j coordinator"
  hs_cache :: client_cache
  hs_rows :: "WifiClientHistory list"

record ('o, 'v) history_env =
  hq_board :: "('o, 'v) board_env"
  hq_type :: DBType
  hq_db :: "WifiClientHistory list \<Rightarrow> WifiClientHistoryDBRecordType database"
  hq_count :: "WifiClientHistory list \<Rightarrow> u64 database"
  hq_delete :: "WifiClientHistory commands"

abbreviation hq_json :: "('o, 'v) history_env \<Rightarrow> ('o, 'v) poco" where
  "hq_json M \<equiv> bq_json (hq_board M)"

text \<open>\<open>venue\<close> is escaped before it gets here when it is a parameter, not when it is that of a board.\<close>

definition dates_clause :: "string \<Rightarrow> string \<Rightarrow> u64 \<Rightarrow> u64 \<Rightarrow> string" where
  "dates_clause venue stationId fromDate endDate =
     '' venue_id='' @ raw venue @ '' and station_id='' @ raw stationId
       @ (if fromDate \<noteq> 0 then '' and timestamp>='' @ u64_text fromDate else [])
       @ (if endDate \<noteq> 0 then '' and timestamp<='' @ u64_text endDate else []) @ '' ''"

text \<open>The venue of the request, or none.\<close>

definition history_venue ::
  "('o, 'v) history_env \<Rightarrow> 'o handler \<Rightarrow> 'j coordinator \<Rightarrow> 'j coordinator \<times> string option" where
  "history_venue M H S =
     (let ps = rq_parameters (h_Request H);
          venue = Escape (GetParameter ps ''venue'' []);
          boardId = GetParameter ps ''boardId'' []
      in if venue \<noteq> [] then (S, Some venue)
         else if boardId = [] then (S, None)
         else (case GetBoard (bq_env (hq_board M)) boardId S of
                 (S, Inr (Some B)) \<Rightarrow>
                   (S, case board_venueList B of [] \<Rightarrow> None | V # _ \<Rightarrow> if venue_id V = [] then None else Some (venue_id V))
               | (S, _) \<Rightarrow> (S, None)))"

definition history_macs :: "('o, 'v) history_env \<Rightarrow> 'o handler \<Rightarrow> string \<Rightarrow> client_cache \<Rightarrow> response cpp" where
  "history_macs M H venue cache =
     (let J = hq_json M
      in bind (FindNumbers cache venue (GetParameter (rq_parameters (h_Request H)) ''macFilter'' []) (qb_Offset (h_QB H)) (qb_Limit (h_QB H)))
           (\<lambda>Macs. Inr (ReturnObject J (bq_rest (hq_board M)) (h_Request H)
             (set_all J [(''entries'', mk_array J (map (\<lambda>mac. mk_string J (IntToSerialNumber mac)) Macs))] (p_new J)))))"

definition history_entries ::
  "('o, 'v) history_env \<Rightarrow> 'o handler \<Rightarrow> string \<Rightarrow> WifiClientHistory list \<Rightarrow> response cpp" where
  "history_entries M H venue rows =
     (let J = hq_json M; Env = bq_rest (hq_board M); Request = h_Request H; ps = rq_parameters Request;
          stationId = GetBinding (h_Bindings H) ''client'' []
      in if \<not> ValidSerialNumber stationId then bad (hq_board M) H InvalidSerialNumber []
         else case (case map_of ps ''orderBy'' of
                      None \<Rightarrow> ('' ORDER BY timestamp DESC '', True)
                    | Some arg \<Rightarrow> PrepareOrderBy (re_tokenizer Env) (GetFieldNames WifiClientHistory_Fields) arg
                                    '' ORDER BY timestamp DESC '') of
                (_, False) \<Rightarrow> bad (hq_board M) H InvalidLOrderBy []
              | (OrderBy, True) \<Rightarrow>
                  bind (GetParameter_u64 ps ''fromDate'' 0) (\<lambda>fromDate.
                  bind (GetParameter_u64 ps ''endDate'' 0) (\<lambda>endDate.
                    let Where = dates_clause venue stationId fromDate endDate
                    in if GetBoolParameter ps ''countOnly'' False
                       then Inr (ReturnCountOnly J Env Request (Count (hq_count M rows) ''wificlienthistory'' Where))
                       else Inr (MakeJSONObjectArray J Env Request (WifiClientHistory_to_json J) ''entries''
                         (fst (GetRecords (hq_db M rows) history_of_row (history_table (hq_type M)) (qb_Offset (h_QB H)) (qb_Limit (h_QB H))
                            Where OrderBy []))))))"

definition history_DoGet ::
  "('o, 'v) history_env \<Rightarrow> 'o handler \<Rightarrow> 'j history_state \<Rightarrow> response cpp \<times> 'j history_state" where
  "history_DoGet M H S =
     (let J = hq_json M; Env = bq_rest (hq_board M); Request = h_Request H; ps = rq_parameters Request
      in if GetBoolParameter ps ''orderSpec'' False
         then (Inr (ReturnObject J Env Request
                 (set_all J [(''list'', mk_array J (map (mk_string J) (GetFieldNames WifiClientHistory_Fields)))] (p_new J))), S)
         else case history_venue M H (hs_coordinator S) of
                (C, None) \<Rightarrow> (bad (hq_board M) H VenueMustExist [], S \<lparr> hs_coordinator := C \<rparr>)
              | (C, Some venue) \<Rightarrow>
                  (if GetBoolParameter ps ''macsOnly'' False then history_macs M H venue (hs_cache S)
                   else history_entries M H venue (hs_rows S), S \<lparr> hs_coordinator := C \<rparr>))"

text \<open>Without a date the format of the clause has two places and one argument: \<^verbatim>\<open>fmt\<close> throws.\<close>

definition delete_clause :: "string \<Rightarrow> string \<Rightarrow> u64 \<Rightarrow> u64 \<Rightarrow> string cpp" where
  "delete_clause venue stationId fromDate endDate =
     (if fromDate \<noteq> 0 \<or> endDate \<noteq> 0 then Inr (dates_clause venue stationId fromDate endDate) else Inl Format_error)"

definition history_DoDelete ::
  "('o, 'v) history_env \<Rightarrow> 'o handler \<Rightarrow> 'j history_state \<Rightarrow> response cpp \<times> 'j history_state" where
  "history_DoDelete M H S =
     (let Env = bq_rest (hq_board M); Request = h_Request H; ps = rq_parameters Request;
          role = user_userRole (uip_userinfo (h_UserInfo H));
          venue = Escape (GetParameter ps ''venue'' []);
          stationId = GetBinding (h_Bindings H) ''client'' []
      in if role \<noteq> ADMIN \<and> role \<noteq> ROOT then (Inr (UnAuthorized (hq_json M) Env Request ACCESS_DENIED), S)
         else if venue = [] then (bad (hq_board M) H VenueMustExist [], S)
         else if \<not> ValidSerialNumber stationId then (bad (hq_board M) H InvalidSerialNumber [], S)
         else case bind (GetParameter_u64 ps ''fromDate'' 0) (\<lambda>fromDate.
                   bind (GetParameter_u64 ps ''endDate'' 0) (\<lambda>endDate. delete_clause venue stationId fromDate endDate)) of
                Inl e \<Rightarrow> (Inl e, S)
              | Inr Where \<Rightarrow>
                  (case DeleteRecords (hq_delete M) ''wificlienthistory'' Where (hs_rows S) of
                     (rows, deleted) \<Rightarrow>
                       (if deleted then Inr (Rest_OK (hq_json M) Env Request) else bad (hq_board M) H MissingOrInvalidParameters [],
                        S \<lparr> hs_rows := rows \<rparr>)))"

section \<open>Rows and entries\<close>

text \<open>
  An entry of the client history written to its row and read back is the same entry, the counters the table keeps as signed numbers included.
\<close>

theorem history_row_roundtrip: "history_of_row (row_of_history h) = h"
  by (simp add: history_of_row_def row_of_history_def)

section \<open>The order of the entries\<close>

definition order_item :: "string \<times> bool \<Rightarrow> string" where
  "order_item k = fst k @ (if snd k then '' ASC'' else '' DESC'')"

fun separated :: "string list \<Rightarrow> string" where
  "separated [] = []"
| "separated [x] = x"
| "separated (x # y # xs) = x @ '' , '' @ separated (y # xs)"

lemma separated_snoc: "xs \<noteq> [] \<Longrightarrow> separated (xs @ [x]) = separated xs @ '' , '' @ x"
  by (induction xs rule: separated.induct) auto

lemma separated_empty: "separated (map order_item ks) = [] \<longleftrightarrow> ks = []" "[] = separated (map order_item ks) \<longleftrightarrow> ks = []"
  by (induction ks rule: induct_list012) (auto simp: order_item_def)

lemma order_items_list:
  assumes "order_items tokenize names items (separated (map order_item ks)) = Some R" "\<forall>k \<in> set ks. map tolower (fst k) \<in> set names"
  shows "\<exists>ks'. R = separated (map order_item (ks @ ks')) \<and> length ks' = length items \<and> (\<forall>k \<in> set ks'. map tolower (fst k) \<in> set names)"
  using assms
proof (induction items arbitrary: ks)
  case (Cons i items)
  let ?T = "tokenize i '':''"
  let ?k = "(?T ! 0, ?T ! 1 = ''a'')"
  have ok: "length ?T = 2" "map tolower (?T ! 0) \<in> set names"
    using Cons.prems(1) by (auto simp: Let_def split: if_splits)
  have "separated (map order_item (ks @ [?k])) = (if ks = [] then [] else separated (map order_item ks) @ '' , '')
      @ ?T ! 0 @ (if ?T ! 1 = ''a'' then '' ASC'' else '' DESC'')"
    using separated_snoc[of "map order_item ks" "order_item ?k"] by (simp add: order_item_def)
  then have "order_items tokenize names items (separated (map order_item (ks @ [?k]))) = Some R"
    using Cons.prems(1) ok by (simp add: Let_def separated_empty split: if_splits)
  from Cons.IH[OF this] Cons.prems(2) ok(2) obtain ks' where
    "R = separated (map order_item ((ks @ [?k]) @ ks'))" "length ks' = length items" "\<forall>k \<in> set ks'. map tolower (fst k) \<in> set names"
    by auto
  with ok(2) show ?case by (intro exI[of _ "?k # ks'"]) simp
qed simp

text \<open>
  C26: An order a request asks for is accepted only as a list of known columns, each with a direction: the text put into the statement is nothing else,
  whatever the request holds, and a rejected order changes nothing.
\<close>

theorem order_of_known_columns:
  assumes "PrepareOrderBy tokenize names OrderByList OrderByString = (R, found)"
  shows "if found \<and> tokenize OrderByList '','' \<noteq> []
    then \<exists>ks. ks \<noteq> [] \<and> length ks = length (tokenize OrderByList '','') \<and> (\<forall>k \<in> set ks. map tolower (fst k) \<in> set names)
           \<and> R = '' ORDER BY '' @ separated (map order_item ks)
    else R = OrderByString"
proof (cases "order_items tokenize names (tokenize OrderByList '','') []")
  case None
  with assms show ?thesis by (simp add: PrepareOrderBy_def)
next
  case (Some L)
  then have "\<exists>ks'. L = separated (map order_item ks') \<and> length ks' = length (tokenize OrderByList '','')
      \<and> (\<forall>k \<in> set ks'. map tolower (fst k) \<in> set names)"
    using order_items_list[of tokenize names "tokenize OrderByList '',''" "[]" L] by simp
  with Some assms show ?thesis by (auto simp: PrepareOrderBy_def separated_empty split: if_splits)
qed

section \<open>What a deletion removes\<close>

definition in_history :: "string \<Rightarrow> string \<Rightarrow> u64 \<Rightarrow> u64 \<Rightarrow> WifiClientHistory \<Rightarrow> bool" where
  "in_history venue station lo hi h \<longleftrightarrow> wch_venue_id h = venue \<and> wch_station_id h = station
     \<and> (lo = 0 \<or> lo \<le> wch_timestamp h) \<and> (hi = 0 \<or> wch_timestamp h \<le> hi)"

definition history_conds :: "string \<Rightarrow> string \<Rightarrow> u64 \<Rightarrow> u64 \<Rightarrow> condition list" where
  "history_conds venue station lo hi = (''venue_id'', ''='', Text venue) # (''station_id'', ''='', Text station)
     # (if lo \<noteq> 0 then [(''timestamp'', ''>='', Num (unat lo))] else []) @ (if hi \<noteq> 0 then [(''timestamp'', ''<='', Num (unat hi))] else [])"

lemma matches_history: "matches wc_column (history_conds venue station lo hi) = in_history venue station lo hi"
  by (auto simp: fun_eq_iff matches_def history_conds_def in_history_def wc_column_def word_le_nat_alt)

lemma raw_serial: "ValidSerialNumber s \<Longrightarrow> raw s = quoted s"
proof -
  assume "ValidSerialNumber s"
  moreover have "\<not> isxdigit quote" by (simp add: ctype_simps)
  ultimately have "quote \<notin> set s" by (auto simp: ValidSerialNumber_def list_all_iff)
  then show ?thesis by (simp add: raw_def quoted_def Escape_plain)
qed

lemma history_reads:
  assumes "ValidSerialNumber station" "lo \<noteq> 0 \<or> hi \<noteq> 0"
  shows "read_statement (''delete from '' @ ''wificlienthistory'' @ '' where '' @ dates_clause (Escape venue) station lo hi)
    = Some (Delete ''wificlienthistory'' (history_conds venue station lo hi))"
proof -
  have v: "raw (Escape venue) = quoted venue" by (simp add: raw_def quoted_def)
  note reads = token_simps read_delete_def read_conds.simps[of "TWord _ # _"]
  note clause = dates_clause_def history_conds_def v raw_serial[OF assms(1)]
  let ?start = "[Con ''delete from wificlienthistory where  venue_id='', Lit venue, Con '' and station_id='', Lit station]"
  consider "lo \<noteq> 0" "hi \<noteq> 0" | "lo \<noteq> 0" "hi = 0" | "lo = 0" "hi \<noteq> 0" using assms(2) by blast
  then show ?thesis
  proof cases
    case 1
    then show ?thesis
      by (intro read_pieces(1)[of _ "?start @ [Con '' and timestamp>='', Dec (unat lo), Con '' and timestamp<='', Dec (unat hi), Con '' '']"])
        (simp_all add: clause reads)
  next
    case 2
    then show ?thesis
      by (intro read_pieces(1)[of _ "?start @ [Con '' and timestamp>='', Dec (unat lo), Con '' '']"]) (simp_all add: clause reads)
  next
    case 3
    then show ?thesis
      by (intro read_pieces(1)[of _ "?start @ [Con '' and timestamp<='', Dec (unat hi), Con '' '']"]) (simp_all add: clause reads)
  qed
qed

text \<open>
  C20: A request to delete client history changes the table, or is answered with OK, only for an administrator, and then exactly the entries of
  the venue and the station it names between the dates it gives are gone, whatever text stands for the venue; without a date nothing is removed
  and the answer is not OK.
\<close>

theorem client_history_deleted:
  assumes "deletes (hq_delete M) ''wificlienthistory'' wc_column" "history_DoDelete M H S = (r, S')"
    and "GetParameter_u64 (rq_parameters (h_Request H)) ''fromDate'' 0 = Inr lo"
    and "GetParameter_u64 (rq_parameters (h_Request H)) ''endDate'' 0 = Inr hi"
  shows "(hs_rows S' \<noteq> hs_rows S \<or> (\<exists>R. r = Inr R \<and> rs_status R = HTTP_OK) \<longrightarrow> user_userRole (uip_userinfo (h_UserInfo H)) \<in> {ADMIN, ROOT} \<and>
      hs_rows S' = filter (\<lambda>h. \<not> in_history (GetParameter (rq_parameters (h_Request H)) ''venue'' [])
        (GetBinding (h_Bindings H) ''client'' []) lo hi h) (hs_rows S))
    \<and> (lo = 0 \<longrightarrow> hi = 0 \<longrightarrow> hs_rows S' = hs_rows S \<and> (\<forall>R. r = Inr R \<longrightarrow> rs_status R \<noteq> HTTP_OK))"
proof -
  let ?venue = "GetParameter (rq_parameters (h_Request H)) ''venue'' []" and ?station = "GetBinding (h_Bindings H) ''client'' []"
  let ?role = "user_userRole (uip_userinfo (h_UserInfo H))"
  show ?thesis
  proof (cases "?role \<in> {ADMIN, ROOT} \<and> Escape ?venue \<noteq> [] \<and> ValidSerialNumber ?station \<and> (lo \<noteq> 0 \<or> hi \<noteq> 0)")
    case True
    obtain rows x where d: "DeleteRecords (hq_delete M) ''wificlienthistory'' (dates_clause (Escape ?venue) ?station lo hi) (hs_rows S) = (rows, x)"
      by fastforce
    have "hs_rows S' = rows" "x \<or> r = bad (hq_board M) H MissingOrInvalidParameters []"
      using assms(2-4) True d by (auto simp: history_DoDelete_def Let_def delete_clause_def split: if_splits)
    moreover have "rows = (if x then filter (\<lambda>h. \<not> in_history ?venue ?station lo hi h) (hs_rows S) else hs_rows S)"
      using DeleteRecords_effect(1)[OF assms(1) history_reads d] True unfolding matches_history by blast
    ultimately show ?thesis using True by auto
  next
    case False
    then show ?thesis
      using assms(2-4) by (auto simp: history_DoDelete_def Let_def delete_clause_def split: if_splits)
  qed
qed

section \<open>Witnesses\<close>

lemma order_of_known_columns_witness:
  "fst (PrepareOrderBy (\<lambda>s d. if d = '','' then [''rssi:d''] else [''rssi'', ''d'']) [''rssi''] ''rssi:d'' []) \<noteq> []"
proof -
  let ?tok = "\<lambda>s d. if d = '','' then [''rssi:d''] else [''rssi'', ''d'']"
  obtain R x where r: "PrepareOrderBy ?tok [''rssi''] ''rssi:d'' [] = (R, x)" by fastforce
  then have "x" by (auto simp: PrepareOrderBy_def ctype_simps Let_def)
  with order_of_known_columns[OF r] r show ?thesis by auto
qed

text \<open>The venue of the request holds a quote.\<close>

definition odd_venue :: string where
  "odd_venue = [CHR ''v'', quote]"

definition old_entry :: WifiClientHistory where
  "old_entry = (WifiClientHistory_init 150) \<lparr> wch_station_id := ''aabbccddeeff'', wch_venue_id := odd_venue \<rparr>"

definition history_site :: "((string \<times> tree) list, tree) history_env" where
  "history_site = \<lparr> hq_board = board_site, hq_type = sqlite, hq_db = (\<lambda>_ _. Inr []), hq_count = (\<lambda>_ _. Inr [0]),
     hq_delete = run_delete wc_column ''wificlienthistory'' \<rparr>"

definition history_request :: "(string \<times> tree) list handler" where
  "history_request = (plain_handler (plain_request ''DELETE'' [(''venue'', odd_venue), (''fromDate'', ''100'')])
       [(''client'', ''aabbccddeeff'')])
     \<lparr> h_UserInfo := t1_user \<lparr> uip_userinfo := (uip_userinfo t1_user) \<lparr> user_userRole := ADMIN \<rparr> \<rparr> \<rparr>"

lemma history_request_values:
  "rq_parameters (h_Request history_request) = [(''venue'', odd_venue), (''fromDate'', ''100'')]"
  "GetBinding (h_Bindings history_request) ''client'' [] = ''aabbccddeeff''" "ValidSerialNumber ''aabbccddeeff''"
  "user_userRole (uip_userinfo (h_UserInfo history_request)) = ADMIN"
  by (simp_all add: history_request_def plain_handler_def plain_request_def GetBinding_def ValidSerialNumber_def SERIAL_NUMBER_LENGTH_def
      ctype_simps)

lemma client_history_deleted_witness:
  "\<exists>r S'. history_DoDelete history_site history_request \<lparr> hs_coordinator = coordinator_init [] :: unit coordinator, hs_cache = [],
       hs_rows = [old_entry] \<rparr> = (r, S') \<and> hs_rows S' = []"
proof -
  let ?S = "\<lparr> hs_coordinator = coordinator_init [] :: unit coordinator, hs_cache = [], hs_rows = [old_entry] \<rparr>"
  have ps: "GetParameter_u64 (rq_parameters (h_Request history_request)) ''fromDate'' 0 = Inr 100"
    "GetParameter_u64 (rq_parameters (h_Request history_request)) ''endDate'' 0 = Inr 0"
    by (simp_all add: history_request_values GetParameter_u64_def is_number_def stoull_digits_def num_val_def ctype_simps)
  have v: "GetParameter (rq_parameters (h_Request history_request)) ''venue'' [] = odd_venue" "Escape odd_venue \<noteq> []"
    by (simp_all add: history_request_values GetParameter_def odd_venue_def Escape_def)
  have d: "deletes (hq_delete history_site) ''wificlienthistory'' wc_column" "never_fails (hq_delete history_site)"
    by (simp_all add: history_site_def run_delete_ok)
  obtain rows x where del: "DeleteRecords (hq_delete history_site) ''wificlienthistory'' (dates_clause (Escape odd_venue) ''aabbccddeeff'' 100 0)
      [old_entry] = (rows, x)" by fastforce
  have "x"
    using DeleteRecords_effect(2)[OF d(1) history_reads[OF history_request_values(3)], of 100 0 odd_venue "[old_entry]"] d(2) del
    by (simp add: never_fails_def)
  then obtain R S' where r: "history_DoDelete history_site history_request ?S = (Inr R, S')" "rs_status R = HTTP_OK"
    using del by (simp add: history_DoDelete_def Let_def history_request_values(2-) ps v delete_clause_def)
  have "hs_rows S' = []"
    using client_history_deleted[OF d(1) r(1) ps] r(2)
    by (simp add: v history_request_values(2-) in_history_def old_entry_def WifiClientHistory_init_def)
  with r(1) show ?thesis by blast
qed

end
