(* ===== verification/Services.thy ===== *)
theory Services
  imports Auth
begin

text \<open>
  The register of services of \<^verbatim>\<open>src/src/framework/MicroService.cpp\<close>: each service announces itself on the bus
  (\<^verbatim>\<open>MakeSystemEventMessage\<close>, \<^verbatim>\<open>EventBusManager\<close>), and every other service keeps those it has heard of
  (\<^verbatim>\<open>BusMessageReceived\<close>).  The security service uses the same bus to revoke tokens.  The second part is
  \<^verbatim>\<open>src/src/framework/KafkaManager.cpp\<close>: who is called for the messages of a topic, and what is posted.
\<close>

section \<open>Messages of a service\<close>

record MicroServiceMeta =
  ms_Id :: u64
  ms_Type :: string
  ms_PrivateEndPoint :: string
  ms_PublicEndPoint :: string
  ms_AccessKey :: string
  ms_Version :: string
  ms_LastUpdate :: u64

text \<open>The members of a service its messages hold.\<close>

record microservice =
  my_ID :: u64
  my_AppName :: string
  my_PublicEndPoint :: string
  my_PrivateEndPoint :: string
  my_Hash :: string
  my_Version :: string

definition event_fields :: "('o, 'v) poco \<Rightarrow> microservice \<Rightarrow> string \<Rightarrow> (string \<times> 'v) list" where
  "event_fields J A Event =
     [(''event'', mk_string J Event), (''id'', mk_u64 J (my_ID A)), (''type'', mk_string J (map tolower (my_AppName A))),
      (''publicEndPoint'', mk_string J (my_PublicEndPoint A)), (''privateEndPoint'', mk_string J (my_PrivateEndPoint A)),
      (''key'', mk_string J (my_Hash A)), (''version'', mk_string J (my_Version A))]"

definition MakeSystemEventMessage :: "('o, 'v) poco \<Rightarrow> microservice \<Rightarrow> string \<Rightarrow> string" where
  "MakeSystemEventMessage J A Event = p_stringify J (set_all J (event_fields J A Event) (p_new J))"

section \<open>The register\<close>

record ('c, 'd) bus_state =
  bs_Services :: "(string, MicroServiceMeta) omap"
  bs_Auth :: "('c, 'd) auth_client"

text \<open>The conversions are those of the initialiser, in its order.\<close>

definition meta_of :: "('o, 'v) poco \<Rightarrow> u64 \<Rightarrow> u64 \<Rightarrow> 'o \<Rightarrow> MicroServiceMeta cpp" where
  "meta_of J Now ID Object =
     bind (v_string J (p_get J Object ''type'')) (\<lambda>t.
     bind (v_string J (p_get J Object ''privateEndPoint'')) (\<lambda>priv.
     bind (v_string J (p_get J Object ''publicEndPoint'')) (\<lambda>pub.
     bind (v_string J (p_get J Object ''key'')) (\<lambda>key.
     bind (v_string J (p_get J Object ''version'')) (\<lambda>version.
       Inr \<lparr> ms_Id = ID, ms_Type = map tolower t, ms_PrivateEndPoint = priv, ms_PublicEndPoint = pub, ms_AccessKey = key,
             ms_Version = version, ms_LastUpdate = Now \<rparr>)))))"

definition service_event :: "('o, 'v) poco \<Rightarrow> u64 \<Rightarrow> u64 \<Rightarrow> string \<Rightarrow> 'o \<Rightarrow> ('c, 'd) bus_state act" where
  "service_event J Now ID Event Object =
     guarded (p_has J Object ''type'' \<and> p_has J Object ''publicEndPoint'' \<and> p_has J Object ''privateEndPoint''
         \<and> p_has J Object ''version'' \<and> p_has J Object ''key'')
       (with_val (v_string J (p_get J Object ''privateEndPoint'')) (\<lambda>PrivateEndPoint.
          if Event = ''leave'' then assign (bs_Services_update (omap_erase PrivateEndPoint))
          else with_val (meta_of J Now ID Object) (\<lambda>ServiceInfo.
                 assign (bs_Services_update (omap_set PrivateEndPoint ServiceInfo)))))"

definition bus_event ::
  "('o, 'v) poco \<Rightarrow> ('c, 'd) auth_caches \<Rightarrow> u64 \<Rightarrow> u64 \<Rightarrow> 'o \<Rightarrow> ('c, 'd) bus_state act" where
  "bus_event J X Now own Object =
     guarded (p_has J Object ''id'' \<and> p_has J Object ''event'')
       (with_val (v_u64 J (p_get J Object ''id'')) (\<lambda>ID.
        with_val (v_string J (p_get J Object ''event'')) (\<lambda>Event.
          guarded (ID \<noteq> own)
            (if Event = ''join'' \<or> Event = ''keep-alive'' \<or> Event = ''leave'' then service_event J Now ID Event Object
             else if Event = ''remove-token''
             then guarded (p_has J Object ''token'')
                    (with_val (v_string J (p_get J Object ''token'')) (\<lambda>token.
                       assign (bs_Auth_update (RemovedCachedToken X token))))
             else ok))))"

definition remove_zombies :: "u64 \<Rightarrow> (string, MicroServiceMeta) omap \<Rightarrow> (string, MicroServiceMeta) omap" where
  "remove_zombies now = filter (\<lambda>(_, m). \<not> now - ms_LastUpdate m > 120)"

text \<open>\<open>now 0\<close> and \<open>now 1\<close> are the two readings of the clock.  Every exception the handler can meet is one of Poco, which it catches; the
  services that went silent then stay.\<close>

definition BusMessageReceived ::
  "('o, 'v) poco \<Rightarrow> ('c, 'd) auth_caches \<Rightarrow> (nat \<Rightarrow> u64) \<Rightarrow> u64 \<Rightarrow> string \<Rightarrow> ('c, 'd) bus_state \<Rightarrow> ('c, 'd) bus_state" where
  "BusMessageReceived J X now own Payload S =
     fst (with_val (bind (p_parse J Payload) (v_object J)) (\<lambda>Object.
            runs [bus_event J X (now 0) own Object, assign (bs_Services_update (remove_zombies (now 1)))]) S)"

definition GetServices_type :: "string \<Rightarrow> ('c, 'd) bus_state \<Rightarrow> MicroServiceMeta list" where
  "GetServices_type ServiceType S = filter (\<lambda>ServiceRec. ms_Type ServiceRec = map tolower ServiceType) (map snd (bs_Services S))"

definition GetServices :: "('c, 'd) bus_state \<Rightarrow> MicroServiceMeta list" where
  "GetServices S = map snd (bs_Services S)"

definition GetPrivateEndPointServiceKey :: "string \<Rightarrow> ('c, 'd) bus_state \<Rightarrow> MicroServiceMeta option" where
  "GetPrivateEndPointServiceKey ServicePrivateEndPoint S = map_of (bs_Services S) ServicePrivateEndPoint"

fun MakeServiceListString :: "string list \<Rightarrow> string \<Rightarrow> string" where
  "MakeServiceListString [] SvcList = SvcList"
| "MakeServiceListString (t # ts) SvcList = MakeServiceListString ts (if SvcList = [] then t else SvcList @ '', '' @ t)"

text \<open>\<^verbatim>\<open>MicroServiceGetServices\<close>; \<open>env\<close> is \<^verbatim>\<open>Poco::Environment::get\<close> with the empty default.\<close>

definition override_name :: "(char \<Rightarrow> char) \<Rightarrow> string \<Rightarrow> string" where
  "override_name toupper ServiceType =
     map (\<lambda>c. if c = CHR ''-'' then CHR ''_'' else c) (''FAKE_EXTERNAL_SERVICE_'' @ map toupper ServiceType)"

definition MicroServiceGetServices ::
  "(string \<Rightarrow> string) \<Rightarrow> (char \<Rightarrow> char) \<Rightarrow> string \<Rightarrow> ('c, 'd) bus_state \<Rightarrow> MicroServiceMeta list" where
  "MicroServiceGetServices env toupper ServiceType S =
     (let OverrideUrl = env (override_name toupper ServiceType)
      in if env ''CI_FAKE_EXTERNAL_SERVICES'' = ''1'' \<and> OverrideUrl \<noteq> []
         then [\<lparr> ms_Id = 0, ms_Type = ServiceType, ms_PrivateEndPoint = OverrideUrl, ms_PublicEndPoint = OverrideUrl,
                 ms_AccessKey = ''ci-fake-key'', ms_Version = ''ci-fake'', ms_LastUpdate = 0 \<rparr>]
         else GetServices_type ServiceType S)"

section \<open>Topics\<close>

record 'f kafka_consumer =
  kc_Notifiers :: "(string, ('f \<times> u32) list) omap"
  kc_FunctionId :: u64
  kc_Topics :: "string set"

definition kafka_consumer_init :: "'f kafka_consumer" where
  "kafka_consumer_init = \<lparr> kc_Notifiers = [], kc_FunctionId = 1, kc_Topics = {} \<rparr>"

text \<open>The identifier is kept as an \<^verbatim>\<open>int\<close>.\<close>

definition RegisterTopicWatcher :: "string \<Rightarrow> 'f \<Rightarrow> 'f kafka_consumer \<Rightarrow> u64 \<times> 'f kafka_consumer" where
  "RegisterTopicWatcher Topic F S =
     (kc_FunctionId S,
      S \<lparr> kc_Notifiers := omap_set Topic
            ((case map_of (kc_Notifiers S) Topic of None \<Rightarrow> [] | Some L \<Rightarrow> L) @ [(F, ucast (kc_FunctionId S))]) (kc_Notifiers S),
          kc_Topics := insert Topic (kc_Topics S), kc_FunctionId := kc_FunctionId S + 1 \<rparr>)"

fun erase_first :: "u32 \<Rightarrow> ('f \<times> u32) list \<Rightarrow> ('f \<times> u32) list" where
  "erase_first WId [] = []"
| "erase_first WId (p # L) = (if snd p = WId then L else p # erase_first WId L)"

definition UnregisterTopicWatcher :: "string \<Rightarrow> u32 \<Rightarrow> 'f kafka_consumer \<Rightarrow> 'f kafka_consumer" where
  "UnregisterTopicWatcher Topic WId S =
     (case map_of (kc_Notifiers S) Topic of
        None \<Rightarrow> S
      | Some L \<Rightarrow> S \<lparr> kc_Notifiers := omap_set Topic (erase_first WId L) (kc_Notifiers S) \<rparr>)"

definition Manager_Unregister :: "string \<Rightarrow> u64 \<Rightarrow> 'f kafka_consumer \<Rightarrow> 'f kafka_consumer" where
  "Manager_Unregister Topic WId S = UnregisterTopicWatcher Topic (ucast WId) S"

definition topic_functions :: "string \<Rightarrow> 'f kafka_consumer \<Rightarrow> 'f list" where
  "topic_functions Topic S = (case map_of (kc_Notifiers S) Topic of None \<Rightarrow> [] | Some FL \<Rightarrow> map fst FL)"

text \<open>The exceptions of the functions are swallowed.\<close>

definition consumer_message ::
  "('f \<Rightarrow> string \<Rightarrow> string \<Rightarrow> 'w act) \<Rightarrow> string \<Rightarrow> string \<Rightarrow> string \<Rightarrow> 'f kafka_consumer \<Rightarrow> 'w act" where
  "consumer_message call Topic Key Payload S = each (\<lambda>F. catch_all (call F Key Payload)) (topic_functions Topic S)"

section \<open>Posting\<close>

record kafka_producer =
  kp_Enabled :: bool
  kp_Queue :: "(string \<times> string \<times> string) list"

definition WrapSystemId :: "u64 \<Rightarrow> string \<Rightarrow> string \<Rightarrow> string" where
  "WrapSystemId ID host PayLoad =
     ''{ \"system\" : { \"id\" : '' @ dec_string (unat ID) @ '', \"host\" : \"'' @ host @ ''\" }, \"payload\" : '' @ PayLoad @ '' }''"

definition PostMessage ::
  "u64 \<Rightarrow> string \<Rightarrow> string \<Rightarrow> string \<Rightarrow> string \<Rightarrow> bool \<Rightarrow> kafka_producer \<Rightarrow> kafka_producer" where
  "PostMessage ID host topic key PayLoad WrapMessage K =
     (if kp_Enabled K
      then K \<lparr> kp_Queue := kp_Queue K @ [(topic, key, if WrapMessage then WrapSystemId ID host PayLoad else PayLoad)] \<rparr>
      else K)"

text \<open>\<^verbatim>\<open>EventBusManager::run\<close> with \<open>n\<close> periods before it is stopped.\<close>

definition post_event :: "('o, 'v) poco \<Rightarrow> microservice \<Rightarrow> string \<Rightarrow> kafka_producer \<Rightarrow> kafka_producer" where
  "post_event J A Event =
     PostMessage (my_ID A) (my_PrivateEndPoint A) ''service_events'' (my_PrivateEndPoint A) (MakeSystemEventMessage J A Event) False"

definition EventBus_run :: "('o, 'v) poco \<Rightarrow> microservice \<Rightarrow> nat \<Rightarrow> kafka_producer \<Rightarrow> kafka_producer" where
  "EventBus_run J A n K = post_event J A ''leave'' ((post_event J A ''keep-alive'' ^^ n) (post_event J A ''join'' K))"

section \<open>Which services are listed\<close>

definition service_meta :: "microservice \<Rightarrow> u64 \<Rightarrow> MicroServiceMeta" where
  "service_meta A t =
     \<lparr> ms_Id = my_ID A, ms_Type = map tolower (my_AppName A), ms_PrivateEndPoint = my_PrivateEndPoint A,
       ms_PublicEndPoint = my_PublicEndPoint A, ms_AccessKey = my_Hash A, ms_Version = my_Version A, ms_LastUpdate = t \<rparr>"

text \<open>The register of service \<open>own\<close> after messages of services, each with the sender, the event and the clock; the newest message
  comes last.\<close>

type_synonym heard = "microservice \<times> string \<times> (nat \<Rightarrow> u64)"

definition hears :: "('o, 'v) poco \<Rightarrow> ('c, 'd) auth_caches \<Rightarrow> u64 \<Rightarrow> heard list \<Rightarrow> ('c, 'd) bus_state \<Rightarrow> ('c, 'd) bus_state" where
  "hears J X own = fold (\<lambda>(A, Event, now). BusMessageReceived J X now own (MakeSystemEventMessage J A Event))"

definition clocks :: "heard list \<Rightarrow> u64 list" where
  "clocks msgs = concat (map (\<lambda>(A, Event, now). [now 0, now 1]) msgs)"

definition last_about :: "u64 \<Rightarrow> string \<Rightarrow> heard list \<Rightarrow> heard option" where
  "last_about own e msgs = find (\<lambda>(A, Event, now). my_PrivateEndPoint A = e \<and> my_ID A \<noteq> own) (rev msgs)"

definition service_events :: "string set" where
  "service_events = {''join'', ''keep-alive'', ''leave''}"

text \<open>The parser reads back what the stringifier wrote, of these messages.\<close>

definition read_back :: "('o, 'v) poco \<Rightarrow> microservice \<Rightarrow> string \<Rightarrow> bool" where
  "read_back J A Event \<longleftrightarrow>
     p_parse J (MakeSystemEventMessage J A Event) = Inr (mk_object J (set_all J (event_fields J A Event) (p_new J)))"

lemma event_object:
  assumes "poco_ok J" "ob = set_all J (event_fields J A Event) (p_new J)"
  shows "p_has J ob ''id''" "p_has J ob ''event''" "p_has J ob ''type''" "p_has J ob ''publicEndPoint''" "p_has J ob ''privateEndPoint''"
    "p_has J ob ''version''" "p_has J ob ''key''" "p_get J ob ''id'' = mk_u64 J (my_ID A)" "p_get J ob ''event'' = mk_string J Event"
    "p_get J ob ''type'' = mk_string J (map tolower (my_AppName A))" "p_get J ob ''publicEndPoint'' = mk_string J (my_PublicEndPoint A)"
    "p_get J ob ''privateEndPoint'' = mk_string J (my_PrivateEndPoint A)" "p_get J ob ''version'' = mk_string J (my_Version A)"
    "p_get J ob ''key'' = mk_string J (my_Hash A)"
  unfolding assms(2) event_fields_def by (simp_all add: poco_laws[OF assms(1)])

lemma message_heard:
  assumes "poco_ok J" "read_back J A Event" "Event \<in> service_events"
  shows "bs_Services (BusMessageReceived J X now own (MakeSystemEventMessage J A Event) S) = remove_zombies (now 1)
      (if my_ID A = own then bs_Services S
       else if Event = ''leave'' then omap_erase (my_PrivateEndPoint A) (bs_Services S)
       else omap_set (my_PrivateEndPoint A) (service_meta A (now 0)) (bs_Services S))"
proof -
  define ob where "ob = set_all J (event_fields J A Event) (p_new J)"
  note o' = event_object[OF assms(1) ob_def]
  have p: "p_parse J (MakeSystemEventMessage J A Event) = Inr (mk_object J ob)" using assms(2) by (simp add: read_back_def ob_def)
  have m: "meta_of J (now 0) (my_ID A) ob = Inr (service_meta A (now 0))"
    by (simp add: meta_of_def service_meta_def o' poco_laws[OF assms(1)])
  show ?thesis
    using assms(3) m
    by (auto simp: BusMessageReceived_def p bus_event_def service_event_def o' poco_laws[OF assms(1)] service_events_def)
qed

lemma map_of_zombies:
  assumes "omap_wf m"
  shows "map_of (remove_zombies n m) e = (case map_of m e of Some s \<Rightarrow> if n - ms_LastUpdate s > 120 then None else Some s | None \<Rightarrow> None)"
  using assms
proof (induction m)
  case (Cons p m)
  obtain k s where p: "p = (k, s)" by fastforce
  have "k \<notin> fst ` set m" "omap_wf m" using Cons.prems p by (auto simp: omap_wf_Cons)
  then have "map_of m k = None" by (simp add: map_of_eq_None_iff)
  with Cons.IH[OF \<open>omap_wf m\<close>] show ?case by (auto simp: p remove_zombies_def)
qed (simp add: remove_zombies_def)

lemma omap_wf_zombies: "omap_wf m \<Longrightarrow> omap_wf (remove_zombies n m)"
  by (induction m) (auto simp: omap_wf_Cons remove_zombies_def)

lemma last_about_snoc:
  "last_about own e (msgs @ [(A, Event, now)]) =
     (if my_PrivateEndPoint A = e \<and> my_ID A \<noteq> own then Some (A, Event, now) else last_about own e msgs)"
  by (simp add: last_about_def)

lemma find_in_set: "find P xs = Some x \<Longrightarrow> x \<in> set xs"
  by (induction xs) (auto split: if_splits)

lemma last_about_clock:
  assumes "last_about own e msgs = Some (A, Event, now)"
  shows "now 0 \<in> set (clocks msgs)"
proof -
  have "(A, Event, now) \<in> set msgs"
    using find_in_set[OF assms[unfolded last_about_def]] by simp
  then show ?thesis unfolding clocks_def by (auto intro!: bexI[of _ "(A, Event, now)"])
qed

lemma later_difference:
  fixes t :: u64
  assumes "t \<le> a" "a \<le> b" "a - t > 120"
  shows "b - t > 120"
  using assms by (simp add: word_less_nat_alt word_le_nat_alt unat_sub)

definition listed :: "u64 \<Rightarrow> string \<Rightarrow> heard list \<Rightarrow> u64 \<Rightarrow> MicroServiceMeta option" where
  "listed own e msgs t =
     (case last_about own e msgs of
        None \<Rightarrow> None
      | Some (A, Event, now) \<Rightarrow> if Event \<noteq> ''leave'' \<and> t - now 0 \<le> 120 then Some (service_meta A (now 0)) else None)"

lemma clocks_snoc: "clocks (msgs @ [(A, Event, now)]) = clocks msgs @ [now 0, now 1]"
  by (simp add: clocks_def)

lemma sorted_last: "sorted xs \<Longrightarrow> x \<in> set xs \<Longrightarrow> x \<le> last xs"
  by (induction xs) auto

lemma listed_later:
  assumes "sorted (clocks msgs @ [t])"
  shows "(case listed own e msgs (last (clocks msgs)) of
      Some s \<Rightarrow> if t - ms_LastUpdate s > 120 then None else Some s | None \<Rightarrow> None) = listed own e msgs t"
proof (cases "last_about own e msgs")
  case (Some h)
  obtain A Event now where h: "h = (A, Event, now)" by (cases h)
  have "now 0 \<in> set (clocks msgs)" using last_about_clock Some h by simp
  moreover from this have "clocks msgs \<noteq> []" by auto
  ultimately have "now 0 \<le> last (clocks msgs)" "last (clocks msgs) \<le> t"
    using assms sorted_last[of "clocks msgs" "now 0"] by (simp_all add: sorted_append)
  then have "t - now 0 \<le> 120 \<Longrightarrow> last (clocks msgs) - now 0 \<le> 120"
    using later_difference[of "now 0" "last (clocks msgs)" t] by (meson not_le)
  then show ?thesis by (auto simp: listed_def Some h service_meta_def not_less)
qed (simp add: listed_def)

lemma hears_listed:
  assumes "poco_ok J" "\<forall>(A, Event, now) \<in> set msgs. read_back J A Event \<and> Event \<in> service_events" "sorted (clocks msgs)"
    and "bs_Services S = []"
  shows "omap_wf (bs_Services (hears J X own msgs S)) \<and>
    (msgs \<noteq> [] \<longrightarrow> map_of (bs_Services (hears J X own msgs S)) e = listed own e msgs (last (clocks msgs)))"
  using assms(2,3)
proof (induction msgs rule: rev_induct)
  case Nil
  then show ?case using assms(4) by (simp add: hears_def)
next
  case (snoc h msgs)
  obtain A Event now where h: "h = (A, Event, now)" by (cases h)
  let ?S = "hears J X own msgs S"
  have IH: "omap_wf (bs_Services ?S)" "msgs \<noteq> [] \<Longrightarrow> map_of (bs_Services ?S) e = listed own e msgs (last (clocks msgs))"
    using snoc.IH snoc.prems by (auto simp: h clocks_snoc sorted_append)
  have up: "read_back J A Event" "Event \<in> service_events" using snoc.prems(1) h by auto
  have clk: "sorted (clocks msgs @ [now 1])" "now 0 \<le> now 1" using snoc.prems(2) by (auto simp: h clocks_snoc sorted_append)
  define m where "m = (if my_ID A = own then bs_Services ?S
       else if Event = ''leave'' then omap_erase (my_PrivateEndPoint A) (bs_Services ?S)
       else omap_set (my_PrivateEndPoint A) (service_meta A (now 0)) (bs_Services ?S))"
  have s: "bs_Services (hears J X own (msgs @ [h]) S) = remove_zombies (now 1) m"
    using message_heard[OF assms(1) up, of X now own ?S] by (simp add: hears_def h m_def)
  have wf: "omap_wf m" using IH(1) by (simp add: m_def)
  have before: "(case map_of (bs_Services ?S) e of Some s \<Rightarrow> if now 1 - ms_LastUpdate s > 120 then None else Some s | None \<Rightarrow> None)
      = listed own e msgs (now 1)"
  proof (cases "msgs = []")
    case True
    then show ?thesis using assms(4) by (simp add: hears_def listed_def last_about_def)
  next
    case False
    show ?thesis unfolding IH(2)[OF False] by (rule listed_later[OF clk(1)])
  qed
  have "map_of (remove_zombies (now 1) m) e = listed own e (msgs @ [h]) (now 1)"
  proof (cases "my_PrivateEndPoint A = e \<and> my_ID A \<noteq> own")
    case True
    then show ?thesis
      by (subst map_of_zombies[OF wf]) (auto simp: m_def listed_def h last_about_snoc service_meta_def not_less)
  next
    case False
    then have "map_of m e = map_of (bs_Services ?S) e" by (auto simp: m_def)
    moreover have "listed own e (msgs @ [h]) (now 1) = listed own e msgs (now 1)"
      using False by (auto simp: listed_def h last_about_snoc)
    ultimately show ?thesis using before by (simp only: map_of_zombies[OF wf])
  qed
  with s omap_wf_zombies[OF wf] show ?case by (simp add: h clocks_snoc)
qed

text \<open>
  C14: After messages of services, in the order of the clock, a service lists under an end point exactly the last service that announced
  itself there, if it has not left and was heard within two minutes of the last message; never itself.
\<close>

theorem services_listed:
  assumes "poco_ok J" "\<forall>(A, Event, now) \<in> set msgs. read_back J A Event \<and> Event \<in> service_events" "sorted (clocks msgs)"
    and "msgs \<noteq> []" "bs_Services S = []"
  shows "GetPrivateEndPointServiceKey e (hears J X own msgs S) = listed own e msgs (last (clocks msgs))
    \<and> set (GetServices_type T (hears J X own msgs S)) =
        {s. \<exists>e. listed own e msgs (last (clocks msgs)) = Some s \<and> ms_Type s = map tolower T}"
proof -
  note L = hears_listed[OF assms(1,2,3,5), of X own]
  then have wf: "omap_wf (bs_Services (hears J X own msgs S))"
    and m: "map_of (bs_Services (hears J X own msgs S)) e = listed own e msgs (last (clocks msgs))" for e
    using assms(4) by blast+
  have "s \<in> snd ` set (bs_Services (hears J X own msgs S)) \<longleftrightarrow> (\<exists>e. listed own e msgs (last (clocks msgs)) = Some s)" for s
    unfolding m[symmetric] using omap_in_set_iff[OF wf] by force
  then show ?thesis by (auto simp: GetPrivateEndPointServiceKey_def m GetServices_type_def)
qed

section \<open>Revoked tokens\<close>

text \<open>What can happen to the caches of the client after a state \<open>S0\<close>, with the services asked about tokens.\<close>

inductive auth_since ::
  "('o, 'v) poco \<Rightarrow> ('c, 'd) auth_caches \<Rightarrow> ('c, 'd) auth_client \<Rightarrow> ('o api \<times> u64 \<times> bool) list \<Rightarrow> ('c, 'd) auth_client \<Rightarrow> bool"
  for J X S0 where
  since_start: "auth_since J X S0 [] S0"
| since_token: "auth_since J X S0 asked S \<Longrightarrow> Auth_IsAuthorized J X Do Now tok Sub V S = (V', S') \<Longrightarrow>
    auth_since J X S0 ((Do, Now, Sub) # asked) S'"
| since_key: "auth_since J X S0 asked S \<Longrightarrow> IsValidApiKey J X Do Now tok V S = (V', S') \<Longrightarrow> auth_since J X S0 asked S'"
| since_removed: "auth_since J X S0 asked S \<Longrightarrow> auth_since J X S0 asked (RemovedCachedToken X tok S)"
| since_stopped: "auth_since J X S0 asked S \<Longrightarrow> auth_since J X S0 asked (Auth_Stop X S)"

definition vouched_since :: "('o, 'v) poco \<Rightarrow> string \<Rightarrow> ('o api \<times> u64 \<times> bool) list \<Rightarrow> UserInfoAndPolicy \<Rightarrow> bool" where
  "vouched_since J tok asked U \<longleftrightarrow> (\<exists>(Do, Now, Sub) \<in> set asked. vouched J Do Now Sub tok U)"

lemma vouched_since_Cons: "vouched_since J tok asked U \<Longrightarrow> vouched_since J tok (a # asked) U"
  by (auto simp: vouched_since_def)

text \<open>A check leaves of a token what was there, or what the service vouched for.\<close>

lemma IsAuthorized_since:
  assumes "cache_sound (ac_tokens X) holds" "Auth_IsAuthorized J X Do Now tok' Sub V S = (V', S')"
  shows "holds (au_Cache S') tok = Some U \<Longrightarrow> holds (au_Cache S) tok = Some U \<or> tok = tok' \<and> vouched J Do Now Sub tok U"
    "vd_allowed V' \<Longrightarrow> holds (au_Cache S) tok' = Some (vd_UInfo V') \<or> vouched J Do Now Sub tok' (vd_UInfo V')"
proof -
  obtain r c where g: "ec_get (ac_tokens X) (au_Cache S) tok' = (r, c)" by fastforce
  have sub: "holds c k = Some v \<Longrightarrow> holds (au_Cache S) k = Some v" for k v
    using cache_soundD(2)[OF assms(1) g] .
  show "holds (au_Cache S') tok = Some U \<Longrightarrow> holds (au_Cache S) tok = Some U \<or> tok = tok' \<and> vouched J Do Now Sub tok U"
  proof (cases r)
    case None
    assume u: "holds (au_Cache S') tok = Some U"
    from None have "RetrieveTokenInformation J X Do Now tok' Sub V (S \<lparr> au_Cache := c \<rparr>) = (V', S')"
      using assms(2) g by (simp add: Auth_IsAuthorized_def)
    from RetrieveToken_vouched[OF this] consider "au_Cache S' = c"
      | W where "vouched J Do Now Sub tok' W" "au_Cache S' = ec_update (ac_tokens X) tok' W c" by auto
    then show ?thesis
    proof cases
      case 2
      from cache_soundD(3)[OF assms(1) u[unfolded 2(2)]] show ?thesis
      proof
        assume "tok = tok' \<and> U = W"
        with 2(1) show ?thesis by simp
      next
        assume "holds c tok = Some U"
        then show ?thesis using sub by simp
      qed
    next
      case 1
      then show ?thesis using u sub[of tok U] by simp
    qed
  next
    case (Some W)
    assume u: "holds (au_Cache S') tok = Some U"
    from Some assms(2) g consider "au_Cache S' = c" | "au_Cache S' = ec_remove (ac_tokens X) tok' c"
      by (auto simp: Auth_IsAuthorized_def split: if_splits)
    then have "holds c tok = Some U" by cases (use u cache_soundD(4)[OF assms(1), of tok' c tok U] in auto)
    then show ?thesis using sub by simp
  qed
  show "vd_allowed V' \<Longrightarrow> holds (au_Cache S) tok' = Some (vd_UInfo V') \<or> vouched J Do Now Sub tok' (vd_UInfo V')"
  proof (cases r)
    case None
    assume "vd_allowed V'"
    then show ?thesis using assms(2) g None RetrieveToken_vouched[of J X Do Now tok' Sub V "S \<lparr> au_Cache := c \<rparr>" V' S']
      by (simp add: Auth_IsAuthorized_def)
  next
    case (Some W)
    assume "vd_allowed V'"
    then have "vd_UInfo V' = W" using assms(2) g Some by (auto simp: Auth_IsAuthorized_def split: if_splits)
    then show ?thesis using cache_soundD(1)[OF assms(1)] g Some by simp
  qed
qed

lemma auth_since_vouched:
  assumes "auth_since J X S0 asked S" "cache_sound (ac_tokens X) holds" "holds (au_Cache S0) tok = None"
  shows "\<forall>U. holds (au_Cache S) tok = Some U \<longrightarrow> vouched_since J tok asked U"
  using assms(1)
proof induction
  case (since_token asked S Do Now tok' Sub V V' S')
  show ?case
  proof (intro allI impI)
    fix U assume "holds (au_Cache S') tok = Some U"
    from IsAuthorized_since(1)[OF assms(2) since_token.hyps(2) this] since_token.IH
    show "vouched_since J tok ((Do, Now, Sub) # asked) U" by (auto simp: vouched_since_def)
  qed
next
  case (since_key asked S Do Now tok V V' S')
  then show ?case using IsValidApiKey_tokens by metis
next
  case (since_removed asked S tok')
  have "au_Cache (RemovedCachedToken X tok' S) = ec_remove (ac_tokens X) tok' (au_Cache S)"
    by (simp add: RemovedCachedToken_def)
  then show ?case using since_removed.IH cache_soundD(4)[OF assms(2)] by metis
next
  case (since_stopped asked S)
  then show ?case using cache_soundD(5)[OF assms(2)] by (simp add: Auth_Stop_def)
qed (use assms(3) in simp)

text \<open>
  C13: Once another service has announced that a token is removed, the token is accepted, whatever checks follow, only if the security service
  said after the announcement that it is valid; and only with the user of that answer.
\<close>

theorem revoked_token_asked_again:
  assumes "cache_sound (ac_tokens X) holds"
    and "bind (p_parse J Payload) (v_object J) = Inr ob" "p_has J ob ''id''" "p_has J ob ''event''" "p_has J ob ''token''"
    and "v_u64 J (p_get J ob ''id'') = Inr ID" "ID \<noteq> own" "v_string J (p_get J ob ''event'') = Inr ''remove-token''"
    and "v_string J (p_get J ob ''token'') = Inr tok"
    and "auth_since J X (bs_Auth (BusMessageReceived J X now own Payload S)) asked C"
    and "Auth_IsAuthorized J X Do Now tok Sub V C = (V', C')" "vd_allowed V'"
  shows "vouched_since J tok ((Do, Now, Sub) # asked) (vd_UInfo V')"
proof -
  have "bs_Auth (BusMessageReceived J X now own Payload S) = RemovedCachedToken X tok (bs_Auth S)"
    by (simp add: BusMessageReceived_def assms(2) bus_event_def assms(3-9))
  then have "au_Cache (bs_Auth (BusMessageReceived J X now own Payload S)) = ec_remove (ac_tokens X) tok (au_Cache (bs_Auth S))"
    by (simp add: RemovedCachedToken_def)
  then have gone: "holds (au_Cache (bs_Auth (BusMessageReceived J X now own Payload S))) tok = None"
    using cache_soundD(4)[OF assms(1), of tok _ tok] by (cases "holds (ec_remove (ac_tokens X) tok (au_Cache (bs_Auth S))) tok") auto
  from auth_since_vouched[OF assms(10,1) this] IsAuthorized_since(2)[OF assms(1,11,12)] show ?thesis
    by (auto simp: vouched_since_def)
qed

section \<open>Who is called\<close>

datatype 'f watch_op = Watch string 'f | Unwatch string u64

fun watch_step :: "'f watch_op \<Rightarrow> 'f kafka_consumer \<Rightarrow> 'f kafka_consumer" where
  "watch_step (Watch Topic F) S = snd (RegisterTopicWatcher Topic F S)"
| "watch_step (Unwatch Topic i) S = Manager_Unregister Topic i S"

text \<open>The registrations that were not withdrawn, each with its number.\<close>

fun watch_spec :: "'f watch_op \<Rightarrow> nat \<times> (string \<times> 'f \<times> nat) list \<Rightarrow> nat \<times> (string \<times> 'f \<times> nat) list" where
  "watch_spec (Watch Topic F) (n, L) = (n + 1, L @ [(Topic, F, n)])"
| "watch_spec (Unwatch Topic i) (n, L) = (n, filter (\<lambda>(t, F, k). \<not> (t = Topic \<and> k = unat i)) L)"

definition notifiers_of :: "(string \<times> 'f \<times> nat) list \<Rightarrow> string \<Rightarrow> ('f \<times> u32) list" where
  "notifiers_of L Topic = map (\<lambda>(t, F, k). (F, of_nat k)) (filter (\<lambda>(t, F, k). t = Topic) L)"

definition watch_rel :: "nat \<times> (string \<times> 'f \<times> nat) list \<Rightarrow> 'f kafka_consumer \<Rightarrow> bool" where
  "watch_rel NL S \<longleftrightarrow> (case NL of (n, L) \<Rightarrow>
     kc_FunctionId S = of_nat n \<and> (\<forall>(t, F, k) \<in> set L. k < n) \<and> distinct (map (\<lambda>(t, F, k). k) L)
     \<and> (\<forall>Topic. (case map_of (kc_Notifiers S) Topic of None \<Rightarrow> [] | Some FL \<Rightarrow> FL) = notifiers_of L Topic))"

lemma erase_first_filter: "distinct (map snd L) \<Longrightarrow> erase_first WId L = filter (\<lambda>p. snd p \<noteq> WId) L"
proof (induction L)
  case (Cons p L)
  show ?case
  proof (cases "snd p = WId")
    case True
    have "snd q \<noteq> WId" if "q \<in> set L" for q
    proof -
      have "snd q \<in> set (map snd L)" using that by simp
      moreover have "snd p \<notin> set (map snd L)" using Cons.prems unfolding list.map distinct.simps by (rule conjunct1)
      ultimately show ?thesis using True by metis
    qed
    with True show ?thesis by simp
  qed (use Cons in simp)
qed simp

lemma small_nat_word: "k < 2 ^ 31 \<Longrightarrow> unat (of_nat k :: u32) = k"
  by (simp add: unat_of_nat)

lemma notifiers_distinct:
  assumes "distinct (map (\<lambda>(t, F, k). k) L)" "\<forall>(t, F, k) \<in> set L. k < 2 ^ 31"
  shows "distinct (map snd (notifiers_of L Topic))"
proof -
  let ?L = "filter (\<lambda>(t, F, k). t = Topic) L"
  have "map snd (notifiers_of L Topic) = map (\<lambda>(t, F, k). of_nat k :: u32) ?L"
    by (simp add: notifiers_of_def o_def split_def)
  also have "\<dots> = map of_nat (map (\<lambda>(t, F, k). k) ?L)" by (simp add: o_def split_def)
  finally have m: "map snd (notifiers_of L Topic) = map of_nat (map (\<lambda>(t, F, k). k) ?L)" .
  have inj: "inj_on (of_nat :: nat \<Rightarrow> u32) (set (map (\<lambda>(t, F, k). k) ?L))"
    by (rule inj_on_inverseI[where g = unat], rule small_nat_word) (use assms(2) in auto)
  have d: "distinct (map (\<lambda>(t, F, k). k) ?L)" using assms(1) by (rule distinct_map_filter)
  show ?thesis unfolding m by (rule iffD2[OF distinct_map conjI[OF d inj]])
qed

lemma notifiers_erase:
  assumes "distinct (map (\<lambda>(t, F, k). k) L)" "\<forall>(t, F, k) \<in> set L. k < 2 ^ 31" "unat i < 2 ^ 31"
  shows "erase_first (ucast i) (notifiers_of L Topic) =
    notifiers_of (filter (\<lambda>(t, F, k). \<not> (t = Topic \<and> k = unat i)) L) Topic"
proof -
  have i: "ucast i = (of_nat (unat i) :: u32)" by simp
  have eq: "(of_nat k :: u32) = of_nat (unat i) \<longleftrightarrow> k = unat i" if "k < 2 ^ 31" for k
    using small_nat_word[OF that] small_nat_word[OF assms(3)] by metis
  have "erase_first (ucast i) (notifiers_of L Topic) = filter (\<lambda>p. snd p \<noteq> of_nat (unat i)) (notifiers_of L Topic)"
    unfolding i by (rule erase_first_filter[OF notifiers_distinct[OF assms(1,2)]])
  also have "\<dots> = notifiers_of (filter (\<lambda>(t, F, k). \<not> (t = Topic \<and> k = unat i)) L) Topic"
    unfolding notifiers_of_def filter_map filter_filter
    by (rule arg_cong[where f = "map _"], rule filter_cong) (use assms(2) eq in \<open>auto simp: o_def\<close>)
  finally show ?thesis .
qed

lemma notifiers_other: "Topic \<noteq> Topic' \<Longrightarrow> notifiers_of (filter (\<lambda>(t, F, k). \<not> (t = Topic' \<and> k = j)) L) Topic = notifiers_of L Topic"
  unfolding notifiers_of_def filter_filter by (rule arg_cong[where f = "map _"], rule filter_cong) auto

lemma watch_rel_step:
  assumes "watch_rel (n, L) S" "n < 2 ^ 31" "case op of Watch Topic F \<Rightarrow> True | Unwatch Topic i \<Rightarrow> unat i < 2 ^ 31"
  shows "watch_rel (watch_spec op (n, L)) (watch_step op S)"
proof (cases op)
  case (Watch Topic F)
  have "ucast (of_nat n :: u64) = (of_nat n :: u32)"
    using assms(2) by (simp add: unsigned_of_nat take_bit_nat_eq_self)
  with assms(1) show ?thesis
    by (auto simp: watch_rel_def Watch RegisterTopicWatcher_def notifiers_of_def split: option.splits)
next
  case (Unwatch Topic i)
  have L: "distinct (map (\<lambda>(t, F, k). k) L)" "\<forall>(t, F, k) \<in> set L. k < n"
    and m: "(case map_of (kc_Notifiers S) t of None \<Rightarrow> [] | Some FL \<Rightarrow> FL) = notifiers_of L t" for t
    using assms(1) by (auto simp: watch_rel_def)
  from L(2) assms(2) have small: "\<forall>(t, F, k) \<in> set L. k < 2 ^ 31" by fastforce
  let ?L = "filter (\<lambda>(t, F, k). \<not> (t = Topic \<and> k = unat i)) L"
  have erase: "erase_first (ucast i) (notifiers_of L Topic) = notifiers_of ?L Topic"
    using notifiers_erase[OF L(1) small] assms(3) Unwatch by simp
  have "(case map_of (kc_Notifiers (Manager_Unregister Topic i S)) t of None \<Rightarrow> [] | Some FL \<Rightarrow> FL) = notifiers_of ?L t" for t
  proof (cases "t = Topic")
    case True
    then show ?thesis using m[of Topic] erase
      by (auto simp: Manager_Unregister_def UnregisterTopicWatcher_def split: option.splits)
  next
    case False
    then show ?thesis using m[of t] notifiers_other[OF False, of "unat i" L]
      by (auto simp: Manager_Unregister_def UnregisterTopicWatcher_def split: option.splits)
  qed
  moreover have "kc_FunctionId (Manager_Unregister Topic i S) = kc_FunctionId S"
    by (simp add: Manager_Unregister_def UnregisterTopicWatcher_def split: option.splits)
  moreover have "distinct (map (\<lambda>(t, F, k). k) ?L)" using L(1) by (rule distinct_map_filter)
  ultimately show ?thesis using assms(1) L(2) by (simp add: watch_rel_def Unwatch)
qed

lemma watch_rel_run:
  assumes "watch_rel (n, L) S" "n + length ops \<le> 2 ^ 31" "\<forall>Topic i. Unwatch Topic i \<in> set ops \<longrightarrow> unat i < 2 ^ 31"
  shows "watch_rel (fold watch_spec ops (n, L)) (fold watch_step ops S)"
  using assms
proof (induction ops arbitrary: n L S)
  case (Cons op ops)
  obtain n' L' where s: "watch_spec op (n, L) = (n', L')" by fastforce
  have "n' \<le> n + 1" using s by (cases op) auto
  moreover have "watch_rel (n', L') (watch_step op S)"
    using watch_rel_step[OF Cons.prems(1), of op] Cons.prems(2,3) s by (auto split: watch_op.split)
  ultimately show ?case using Cons.IH[of n' L' "watch_step op S"] Cons.prems(2,3) s by simp
qed simp

text \<open>
  A message of a topic is given to exactly the functions registered for the topic and not withdrawn since, each once and in the order of their
  registration; withdrawing one leaves the others, of this topic and of any other.
\<close>

theorem topic_watchers_called:
  assumes "length ops < 2 ^ 31" "\<forall>Topic i. Unwatch Topic i \<in> set ops \<longrightarrow> unat i < 2 ^ 31"
    and "fold watch_spec ops (1, []) = (n, L)"
  shows "topic_functions Topic (fold watch_step ops kafka_consumer_init) = map (\<lambda>(t, F, k). F) (filter (\<lambda>(t, F, k). t = Topic) L)
    \<and> fst (RegisterTopicWatcher Topic F (fold watch_step ops kafka_consumer_init)) = of_nat n"
proof -
  have "watch_rel (1, []) (kafka_consumer_init :: 'a kafka_consumer)"
    by (simp add: watch_rel_def kafka_consumer_init_def notifiers_of_def)
  from watch_rel_run[OF this _ assms(2)] assms(1,3) have "watch_rel (n, L) (fold watch_step ops kafka_consumer_init)" by simp
  then have "kc_FunctionId (fold watch_step ops kafka_consumer_init) = of_nat n"
    and m: "(case map_of (kc_Notifiers (fold watch_step ops kafka_consumer_init)) Topic of None \<Rightarrow> [] | Some FL \<Rightarrow> FL) = notifiers_of L Topic"
    by (auto simp: watch_rel_def)
  moreover from m have "topic_functions Topic (fold watch_step ops kafka_consumer_init) = map fst (notifiers_of L Topic)"
    by (auto simp: topic_functions_def split: option.splits)
  ultimately show ?thesis by (simp add: RegisterTopicWatcher_def notifiers_of_def split_def o_def)
qed

section \<open>Witnesses\<close>

definition site_b :: microservice where
  "site_b = \<lparr> my_ID = 7, my_AppName = ''owprov'', my_PublicEndPoint = ''pub'', my_PrivateEndPoint = ''priv'', my_Hash = ''h'', my_Version = ''2'' \<rparr>"

definition b_object :: "string \<Rightarrow> (string \<times> tree) list" where
  "b_object Event = set_all tree_lib (event_fields tree_lib site_b Event) []"

text \<open>A library that can write and read two objects.\<close>

definition bus_lib :: "((string \<times> tree) list, tree) poco" where
  "bus_lib = tree_lib \<lparr> p_stringify := (\<lambda>ob. if ob = b_object ''join'' then ''J'' else ''T''),
     p_parse := (\<lambda>s. Inr (TObject (if s = ''J'' then b_object ''join''
       else [(''id'', TU64 3), (''event'', TString ''remove-token''), (''token'', TString ''t1'')]))) \<rparr>"

lemma bus_lib_ok: "poco_ok bus_lib"
  by (simp add: poco_ok_def tree_lib_def bus_lib_def)

lemma b_read_back: "read_back bus_lib site_b ''join''"
proof -
  have "set_all bus_lib (event_fields bus_lib site_b ''join'') (p_new bus_lib) = b_object ''join''"
    by (simp add: b_object_def bus_lib_def tree_lib_def event_fields_def)
  then show ?thesis by (simp add: read_back_def MakeSystemEventMessage_def) (simp add: bus_lib_def tree_lib_def)
qed

definition quiet_bus :: "(string \<rightharpoonup> UserInfoAndPolicy, string \<rightharpoonup> ApiKeyCacheEntry) bus_state" where
  "quiet_bus = \<lparr> bs_Services = [], bs_Auth = no_tokens \<lparr> au_Cache := [''t1'' \<mapsto> t1_user] \<rparr> \<rparr>"

lemma services_listed_witness:
  "GetPrivateEndPointServiceKey ''priv'' (hears bus_lib map_caches 1 [(site_b, ''join'', \<lambda>n. 1000 + of_nat n)] quiet_bus)
    = Some (service_meta site_b 1000)"
proof -
  have "listed 1 ''priv'' [(site_b, ''join'', \<lambda>n. 1000 + of_nat n)] 1001 = Some (service_meta site_b 1000)"
    by (simp add: listed_def last_about_def site_b_def)
  then show ?thesis
    using services_listed[OF bus_lib_ok, of "[(site_b, ''join'', \<lambda>n. 1000 + of_nat n)]" quiet_bus "''priv''" map_caches 1] b_read_back
    by (simp add: clocks_def quiet_bus_def service_events_def)
qed

lemma t1_bus: "vd_allowed (fst (Auth_IsAuthorized bus_lib map_caches one_token 1050 ''t1'' False fresh_verdict no_tokens))"
  by (simp add: Auth_IsAuthorized_def RetrieveTokenInformation_def map_caches_sel no_tokens_def one_token_def fresh_verdict_def
      bus_lib_def tree_lib_def IsTokenExpired_def UserInfoAndPolicy_from_json_def try_all_def object_from_json_def
      WebToken_from_json_def UserInfo_from_json_def field_from_json_def present_def objects_from_json_def list_from_json_def
      UserInfoAndPolicy_init_def WebToken_init_def Let_def)

lemma revoked_token_asked_again_witness:
  "\<exists>V C. Auth_IsAuthorized bus_lib map_caches one_token 1050 ''t1'' False fresh_verdict
       (bs_Auth (BusMessageReceived bus_lib map_caches (\<lambda>_. 0) 1 ''T'' quiet_bus)) = (V, C)
     \<and> vd_allowed V \<and> vouched_since bus_lib ''t1'' [(one_token, 1050, False)] (vd_UInfo V)"
proof -
  define S1 where "S1 = bs_Auth (BusMessageReceived bus_lib map_caches (\<lambda>_. 0) 1 ''T'' quiet_bus)"
  have sel: "v_string bus_lib (TString s) = Inr s" "v_u64 bus_lib (TU64 n) = Inr n" "p_get bus_lib = p_get tree_lib"
    "p_has bus_lib = p_has tree_lib" "p_parse bus_lib ''T'' = Inr (TObject [(''id'', TU64 3), (''event'', TString ''remove-token''), (''token'', TString ''t1'')])"
    "v_object bus_lib (TObject ob) = Inr ob" for s n ob
    by (simp_all add: bus_lib_def tree_lib_def)
  obtain V C where a: "Auth_IsAuthorized bus_lib map_caches one_token 1050 ''t1'' False fresh_verdict S1 = (V, C)" by fastforce
  have "S1 = no_tokens"
    by (simp add: S1_def BusMessageReceived_def sel bus_event_def tree_lib_def quiet_bus_def RemovedCachedToken_def map_caches_def map_cache_def
        no_tokens_def)
  then have ok: "vd_allowed V" using a t1_bus by simp
  have since: "auth_since bus_lib map_caches (bs_Auth (BusMessageReceived bus_lib map_caches (\<lambda>_. 0) 1 ''T'' quiet_bus)) [] S1"
    unfolding S1_def by (rule since_start)
  have "vouched_since bus_lib ''t1'' [(one_token, 1050, False)] (vd_UInfo V)"
    by (rule revoked_token_asked_again[where ob = "[(''id'', TU64 3), (''event'', TString ''remove-token''), (''token'', TString ''t1'')]"
          and ID = 3, OF map_caches_sel(3) _ _ _ _ _ _ _ _ since a ok]) (simp_all add: sel tree_lib_def)
  with a ok show ?thesis unfolding S1_def by blast
qed

lemma topic_watchers_called_witness:
  "topic_functions ''state'' (fold watch_step [Watch ''state'' (1::nat), Watch ''state'' 2, Watch ''health'' 3, Unwatch ''state'' 1]
      kafka_consumer_init) = [2]"
  using topic_watchers_called[of "[Watch ''state'' (1::nat), Watch ''state'' 2, Watch ''health'' 3, Unwatch ''state'' 1]"]
  by simp

end
