(* ===== verification/WebSockets.thy ===== *)
theory WebSockets
  imports Rest Utils
begin

text \<open>
  The web sockets of the user interface, \<^verbatim>\<open>src/src/framework/UI_WebSocketClientServer.cpp\<close>, and the request that opens one,
  \<^verbatim>\<open>RESTAPI_WebSocketServer.h\<close>, which needs no authorisation: a client shows its token in its first message.  The log of the
  service is sent to the clients (\<^verbatim>\<open>WebSocketLogger.h\<close>).  The mutex makes each function one step.  Poco's reactor
  calls the handlers of a socket until they are removed from it.
\<close>

section \<open>State\<close>

record ws_client =
  wc_Id :: string
  wc_UserName :: string
  wc_Authenticated :: bool
  wc_SocketRegistered :: bool
  wc_Filter :: "u64 list"
  wc_UserInfo :: UserInfoAndPolicy

text \<open>\<open>ws_ToBeRemoved\<close> holds iterators: the sockets that are their keys.\<close>

record ws_server =
  ws_Clients :: "(int, ws_client) omap"
  ws_ToBeRemoved :: "int list"
  ws_UsersConnected :: u64
  ws_NotificationTypes :: "(u64 \<times> string) list"

definition ws_init :: ws_server where
  "ws_init = \<lparr> ws_Clients = [], ws_ToBeRemoved = [], ws_UsersConnected = 0, ws_NotificationTypes = [] \<rparr>"

text \<open>What \<^verbatim>\<open>receiveFrame\<close> yields; \<open>FError\<close> when it throws.\<close>

datatype ws_frame = FEmpty | FPing | FPong | FClose | FText string | FOther | FError

type_synonym sent = "(int \<times> string) list"

section \<open>Operations\<close>

definition put_client :: "int \<Rightarrow> ws_client \<Rightarrow> ws_server \<Rightarrow> ws_server" where
  "put_client fd c W = W \<lparr> ws_Clients := omap_set fd c (ws_Clients W) \<rparr>"

definition NewClient :: "int \<Rightarrow> string \<Rightarrow> string \<Rightarrow> UserInfoAndPolicy \<Rightarrow> ws_server \<Rightarrow> ws_server" where
  "NewClient fd uuid UserName UserInfo W =
     (let W = put_client fd \<lparr> wc_Id = uuid, wc_UserName = UserName, wc_Authenticated = False, wc_SocketRegistered = True,
            wc_Filter = [], wc_UserInfo = UserInfo \<rparr> W
      in W \<lparr> ws_UsersConnected := of_nat (length (ws_Clients W)) \<rparr>)"

definition ws_DoGet :: "request \<Rightarrow> int \<Rightarrow> string \<Rightarrow> string \<Rightarrow> UserInfoAndPolicy \<Rightarrow> ws_server \<Rightarrow> ws_server" where
  "ws_DoGet Request fd uuid email UserInfo W =
     (case rq_get Request ''Upgrade'' of
        None \<Rightarrow> W
      | Some v \<Rightarrow> if map tolower v = ''websocket'' then NewClient fd uuid email UserInfo W else W)"

definition EndConnection :: "int \<Rightarrow> ws_server \<Rightarrow> ws_server" where
  "EndConnection fd W =
     (case map_of (ws_Clients W) fd of
        None \<Rightarrow> W
      | Some c \<Rightarrow> (put_client fd (c \<lparr> wc_SocketRegistered := False \<rparr>) W) \<lparr> ws_ToBeRemoved := ws_ToBeRemoved W @ [fd] \<rparr>)"

text \<open>One round of the cleaner.  Erasing an iterator whose element is gone is undefined.\<close>

fun erase_all :: "int list \<Rightarrow> (int, ws_client) omap \<Rightarrow> (int, ws_client) omap option" where
  "erase_all [] m = Some m"
| "erase_all (i # is) m = (if map_of m i = None then None else erase_all is (omap_erase i m))"

definition ws_round :: "ws_server \<Rightarrow> ws_server option" where
  "ws_round W =
     map_option (\<lambda>m. W \<lparr> ws_Clients := m, ws_ToBeRemoved := [], ws_UsersConnected := of_nat (length m) \<rparr>)
       (erase_all (ws_ToBeRemoved W) (ws_Clients W))"

text \<open>The first action of \<^verbatim>\<open>Stop\<close>, taken without the mutex.\<close>

definition ws_Stop_clear :: "ws_server \<Rightarrow> ws_server" where
  "ws_Stop_clear W = W \<lparr> ws_Clients := [] \<rparr>"

definition IsFiltered :: "u64 \<Rightarrow> ws_client \<Rightarrow> bool" where
  "IsFiltered nid Client \<longleftrightarrow> nid \<in> set (wc_Filter Client)"

definition SendToAll :: "u64 \<Rightarrow> string \<Rightarrow> ws_server \<Rightarrow> sent" where
  "SendToAll nid Payload W =
     map (\<lambda>(fd, c). (fd, Payload)) (filter (\<lambda>(fd, c). \<not> IsFiltered nid c \<and> wc_Authenticated c) (ws_Clients W))"

text \<open>\<open>whole fd\<close>: the socket takes the whole frame.  Only the first client of the name is considered.\<close>

definition SendToUser :: "(int \<Rightarrow> bool) \<Rightarrow> string \<Rightarrow> u64 \<Rightarrow> string \<Rightarrow> ws_server \<Rightarrow> sent \<times> bool" where
  "SendToUser whole UserName nid Payload W =
     (case find (\<lambda>(fd, c). wc_UserName c = UserName) (ws_Clients W) of
        None \<Rightarrow> ([], False)
      | Some (fd, c) \<Rightarrow> if \<not> IsFiltered nid c \<and> wc_Authenticated c then ([(fd, Payload)], whole fd) else ([], False))"

definition notification_types :: "('o, 'v) poco \<Rightarrow> (u64 \<times> string) list \<Rightarrow> 'o" where
  "notification_types J ns =
     p_set J ''notificationTypes''
       (mk_array J (map (\<lambda>(nid, helper). mk_object J (set_all J [(''id'', mk_u64 J nid), (''helper'', mk_string J helper)] (p_new J))) ns))
       (p_new J)"

definition RegisterNotifications :: "((u64 \<times> string) list \<Rightarrow> (u64 \<times> string) list) \<Rightarrow> (u64 \<times> string) list \<Rightarrow> ws_server \<Rightarrow> ws_server" where
  "RegisterNotifications sort_by Notifications W =
     W \<lparr> ws_NotificationTypes := sort_by (ws_NotificationTypes W @ Notifications) \<rparr>"

section \<open>Messages of a client\<close>

definition ws_welcome :: "('o, 'v) poco \<Rightarrow> ws_server \<Rightarrow> string" where
  "ws_welcome J W = p_stringify J (p_set J ''success'' (mk_string J ''Welcome! Bienvenue! Bienvenidos!'')
     (notification_types J (ws_NotificationTypes W)))"

definition refusal :: "('o, 'v) poco \<Rightarrow> string" where
  "refusal J = p_stringify J (p_set J ''error'' (mk_string J ''Invalid token. Closing connection.'') (p_new J))"

text \<open>\<open>sendable\<close> tells whether \<^verbatim>\<open>sendFrame\<close> returns; when it throws the connection is ended.\<close>

definition first_message ::
  "('o, 'v) poco \<Rightarrow> ('c, 'd) auth_caches \<Rightarrow> 'o api \<Rightarrow> u64 \<Rightarrow> bool \<Rightarrow> int \<Rightarrow> ws_client \<Rightarrow> string \<Rightarrow> ws_server \<times> ('c, 'd) auth_client \<Rightarrow>
     (ws_server \<times> ('c, 'd) auth_client) \<times> sent" where
  "first_message J X Do Now sendable fd c Frame S =
     (case S of (W, C) \<Rightarrow>
        let Tokens = Split Frame (CHR '':'')
        in if length Tokens = 2
           then (case Auth_IsAuthorized J X Do Now (Tokens ! 1) False
                     \<lparr> vd_allowed = False, vd_UInfo = wc_UserInfo c, vd_Expired = False, vd_Contacted = False \<rparr> C of
                   (V, C') \<Rightarrow>
                     (let c' = c \<lparr> wc_UserInfo := vd_UInfo V \<rparr>
                      in if vd_allowed V
                         then (let c' = c' \<lparr> wc_Authenticated := True, wc_UserName := user_email (uip_userinfo (vd_UInfo V)) \<rparr>;
                                   W' = put_client fd c' W
                               in ((if sendable then W' else EndConnection fd W', C'), [(fd, ws_welcome J W)]))
                         else ((EndConnection fd (put_client fd c' W), C'), [(fd, refusal J)])))
           else ((EndConnection fd W, C), [(fd, refusal J)]))"

text \<open>The numbers read before one that does not convert, and whether all did.\<close>

fun filters_of :: "('v \<Rightarrow> u64 cpp) \<Rightarrow> 'v list \<Rightarrow> u64 list \<times> bool" where
  "filters_of conv [] = ([], True)"
| "filters_of conv (v # vs) =
     (case conv v of Inl _ \<Rightarrow> ([], False) | Inr n \<Rightarrow> (case filters_of conv vs of (ns, all_read) \<Rightarrow> (n # ns, all_read)))"

type_synonym 'o processor = "'o \<Rightarrow> UserInfo \<Rightarrow> (string \<times> bool) cpp"

definition later_message ::
  "('o, 'v) poco \<Rightarrow> 'o processor option \<Rightarrow> bool \<Rightarrow> int \<Rightarrow> ws_client \<Rightarrow> string \<Rightarrow> ws_server \<Rightarrow> ws_server \<times> sent" where
  "later_message J proc sendable fd c Frame W =
     (case bind (p_parse J Frame) (v_object J) of
        Inl _ \<Rightarrow> (EndConnection fd W, [])
      | Inr Obj \<Rightarrow>
          if p_has J Obj ''drop-notifications'' \<and> p_isArray J Obj ''drop-notifications''
          then (case filters_of (v_u64 J) (p_array J Obj ''drop-notifications'') of
                  (ns, True) \<Rightarrow> (put_client fd (c \<lparr> wc_Filter := sort ns \<rparr>) W, [])
                | (ns, False) \<Rightarrow> (EndConnection fd (put_client fd (c \<lparr> wc_Filter := ns \<rparr>) W), []))
          else (case (case proc of None \<Rightarrow> Inr ([], False) | Some f \<Rightarrow> f Obj (uip_userinfo (wc_UserInfo c))) of
                  Inl _ \<Rightarrow> (EndConnection fd W, [])
                | Inr (Answer, CloseConnection) \<Rightarrow>
                    (if sendable \<and> \<not> CloseConnection then W else EndConnection fd W,
                     [(fd, if Answer \<noteq> [] then Answer else ''{}'')])))"

definition OnSocketReadable ::
  "('o, 'v) poco \<Rightarrow> ('c, 'd) auth_caches \<Rightarrow> 'o api \<Rightarrow> u64 \<Rightarrow> 'o processor option \<Rightarrow> bool \<Rightarrow> int \<Rightarrow> ws_frame \<Rightarrow>
     ws_server \<times> ('c, 'd) auth_client \<Rightarrow> (ws_server \<times> ('c, 'd) auth_client) \<times> sent" where
  "OnSocketReadable J X Do Now proc sendable fd frame S =
     (case S of (W, C) \<Rightarrow>
        case map_of (ws_Clients W) fd of
          None \<Rightarrow> (S, [])
        | Some c \<Rightarrow>
            (case frame of
               FPing \<Rightarrow> ((if sendable then W else EndConnection fd W, C), [(fd, [])])
             | FPong \<Rightarrow> (S, [])
             | FOther \<Rightarrow> (S, [])
             | FText bytes \<Rightarrow>
                 (let Frame = takeWhile (\<lambda>b. b \<noteq> CHR 0x00) bytes
                  in if \<not> wc_Authenticated c then first_message J X Do Now sendable fd c Frame S
                     else (case later_message J proc sendable fd c Frame W of (W', out) \<Rightarrow> ((W', C), out)))
             | _ \<Rightarrow> ((EndConnection fd W, C), [])))"

text \<open>\<^verbatim>\<open>OnSocketShutdown\<close> and \<^verbatim>\<open>OnSocketError\<close>.\<close>

definition OnSocketShutdown :: "int \<Rightarrow> ws_server \<Rightarrow> ws_server" where
  "OnSocketShutdown fd W = EndConnection fd W"

section \<open>Runs\<close>

text \<open>The security service is asked about a token when an unauthenticated client sends two parts.\<close>

definition asks :: "ws_client \<Rightarrow> ws_frame \<Rightarrow> bool" where
  "asks c frame \<longleftrightarrow> \<not> wc_Authenticated c
     \<and> (case frame of FText bytes \<Rightarrow> length (Split (takeWhile (\<lambda>b. b \<noteq> CHR 0x00) bytes) (CHR '':'')) = 2 | _ \<Rightarrow> False)"

text \<open>What can happen to the server and to the client of the security service, which other requests use too.  A new socket has a number of its
  own, because the sockets of all clients in the table are open; handlers run for registered sockets.\<close>

inductive ws_run ::
  "('o, 'v) poco \<Rightarrow> ('c, 'd) auth_caches \<Rightarrow> 'o processor option \<Rightarrow> ('o api \<times> u64 \<times> bool) list \<Rightarrow> ws_server \<times> ('c, 'd) auth_client \<Rightarrow> bool"
  for J X proc where
  ws_start: "auth_run J X asked C \<Longrightarrow> ws_run J X proc asked (ws_init, C)"
| ws_others: "ws_run J X proc asked (W, C) \<Longrightarrow> auth_run J X asked' C' \<Longrightarrow> set asked \<subseteq> set asked' \<Longrightarrow> ws_run J X proc asked' (W, C')"
| ws_open: "ws_run J X proc asked (W, C) \<Longrightarrow> map_of (ws_Clients W) fd = None \<Longrightarrow>
    ws_run J X proc asked (ws_DoGet Request fd uuid email UserInfo W, C)"
| ws_message: "ws_run J X proc asked (W, C) \<Longrightarrow> map_of (ws_Clients W) fd = Some c \<Longrightarrow> wc_SocketRegistered c \<Longrightarrow>
    OnSocketReadable J X Do Now proc sendable fd frame (W, C) = (S', out) \<Longrightarrow>
    ws_run J X proc (if asks c frame then (Do, Now, False) # asked else asked) S'"
| ws_down: "ws_run J X proc asked (W, C) \<Longrightarrow> map_of (ws_Clients W) fd = Some c \<Longrightarrow> wc_SocketRegistered c \<Longrightarrow>
    ws_run J X proc asked (OnSocketShutdown fd W, C)"
| ws_clean: "ws_run J X proc asked (W, C) \<Longrightarrow> ws_round W = Some W' \<Longrightarrow> ws_run J X proc asked (W', C)"
| ws_notify: "ws_run J X proc asked (W, C) \<Longrightarrow> ws_run J X proc asked (RegisterNotifications sort_by ns W, C)"

section \<open>Connections\<close>

text \<open>The iterators kept for removal are those of the clients whose handlers are gone, each once.\<close>

definition conn_ok :: "ws_server \<Rightarrow> bool" where
  "conn_ok W \<longleftrightarrow> omap_wf (ws_Clients W) \<and> distinct (ws_ToBeRemoved W)
     \<and> (\<forall>fd. fd \<in> set (ws_ToBeRemoved W) \<longleftrightarrow> (\<exists>c. map_of (ws_Clients W) fd = Some c \<and> \<not> wc_SocketRegistered c))"

text \<open>Every authenticated client showed a token that was vouched for, with the user it now has.\<close>

definition token_shown :: "('o, 'v) poco \<Rightarrow> ('o api \<times> u64 \<times> bool) list \<Rightarrow> ws_client \<Rightarrow> bool" where
  "token_shown J asked c \<longleftrightarrow> (\<exists>tok. \<exists>(Do, Now, Sub) \<in> set asked. vouched J Do Now Sub tok (wc_UserInfo c))"

definition auth_ok :: "('o, 'v) poco \<Rightarrow> ('o api \<times> u64 \<times> bool) list \<Rightarrow> ws_server \<Rightarrow> bool" where
  "auth_ok J asked W \<longleftrightarrow> (\<forall>fd c. map_of (ws_Clients W) fd = Some c \<longrightarrow> wc_Authenticated c \<longrightarrow> token_shown J asked c)"

lemma put_sel [simp]:
  "ws_Clients (put_client fd c W) = omap_set fd c (ws_Clients W)" "ws_ToBeRemoved (put_client fd c W) = ws_ToBeRemoved W"
  by (simp_all add: put_client_def)

lemma conn_ok_put:
  assumes "conn_ok W" "map_of (ws_Clients W) fd = Some c" "wc_SocketRegistered c" "wc_SocketRegistered c'"
  shows "conn_ok (put_client fd c' W)"
  using assms by (auto simp: conn_ok_def)

lemma conn_ok_end:
  assumes "conn_ok W" "map_of (ws_Clients W) fd = Some c" "wc_SocketRegistered c"
  shows "conn_ok (EndConnection fd W)"
  using assms by (auto simp: conn_ok_def EndConnection_def)

lemma auth_ok_put: "auth_ok J asked W \<Longrightarrow> (wc_Authenticated c \<Longrightarrow> token_shown J asked c) \<Longrightarrow> auth_ok J asked (put_client fd c W)"
  by (auto simp: auth_ok_def)

lemma auth_ok_end: "auth_ok J asked W \<Longrightarrow> auth_ok J asked (EndConnection fd W)"
  by (auto simp: auth_ok_def EndConnection_def token_shown_def split: option.split)

lemma token_shown_more: "token_shown J asked c \<Longrightarrow> set asked \<subseteq> set asked' \<Longrightarrow> token_shown J asked' c"
  unfolding token_shown_def by blast

lemma auth_ok_more: "auth_ok J asked W \<Longrightarrow> set asked \<subseteq> set asked' \<Longrightarrow> auth_ok J asked' W"
  unfolding auth_ok_def using token_shown_more by blast

lemma erase_all_filter:
  assumes "distinct is" "\<forall>i \<in> set is. map_of m i \<noteq> None"
  shows "erase_all is m = Some (filter (\<lambda>p. fst p \<notin> set is) m)"
  using assms
proof (induction "is" arbitrary: m)
  case (Cons i "is")
  have "erase_all is (omap_erase i m) = Some (filter (\<lambda>p. fst p \<notin> set is) (omap_erase i m))"
    by (rule Cons.IH) (use Cons.prems in auto)
  with Cons.prems(2) show ?case by (auto simp: omap_erase_def intro!: filter_cong)
qed simp

lemma ws_round_clients:
  assumes "conn_ok W"
  shows "ws_round W = Some (W \<lparr> ws_Clients := filter (\<lambda>(fd, c). wc_SocketRegistered c) (ws_Clients W), ws_ToBeRemoved := [],
    ws_UsersConnected := of_nat (length (filter (\<lambda>(fd, c). wc_SocketRegistered c) (ws_Clients W))) \<rparr>)"
proof -
  have wf: "omap_wf (ws_Clients W)" and d: "distinct (ws_ToBeRemoved W)"
    and r: "\<And>fd. fd \<in> set (ws_ToBeRemoved W) \<longleftrightarrow> (\<exists>c. map_of (ws_Clients W) fd = Some c \<and> \<not> wc_SocketRegistered c)"
    using assms by (auto simp: conn_ok_def)
  have "erase_all (ws_ToBeRemoved W) (ws_Clients W) = Some (filter (\<lambda>p. fst p \<notin> set (ws_ToBeRemoved W)) (ws_Clients W))"
    by (rule erase_all_filter[OF d]) (use r in auto)
  moreover have "filter (\<lambda>p. fst p \<notin> set (ws_ToBeRemoved W)) (ws_Clients W) = filter (\<lambda>(fd, c). wc_SocketRegistered c) (ws_Clients W)"
  proof (rule filter_cong[OF refl])
    fix p assume p: "p \<in> set (ws_Clients W)"
    obtain fd c where pc: "p = (fd, c)" by fastforce
    have "map_of (ws_Clients W) fd = Some c" using omap_in_set_iff[OF wf] p pc by blast
    then show "fst p \<notin> set (ws_ToBeRemoved W) \<longleftrightarrow> (case p of (fd, c) \<Rightarrow> wc_SocketRegistered c)"
      using r[of fd] pc by simp
  qed
  ultimately show ?thesis by (simp add: ws_round_def)
qed

lemma map_of_filter_wf:
  assumes "omap_wf m"
  shows "omap_wf (filter P m)" "map_of (filter P m) k = Some v \<longleftrightarrow> map_of m k = Some v \<and> P (k, v)"
proof -
  show wf: "omap_wf (filter P m)" using assms by (induction m) (auto simp: omap_wf_Cons)
  show "map_of (filter P m) k = Some v \<longleftrightarrow> map_of m k = Some v \<and> P (k, v)"
    using omap_in_set_iff[OF wf, of k v] omap_in_set_iff[OF assms, of k v] by auto
qed

lemma first_message_ok:
  assumes "conn_ok W" "auth_ok J asked W" "map_of (ws_Clients W) fd = Some c" "wc_SocketRegistered c" "auth_run J X asked C"
    and "cache_sound (ac_tokens X) holds" "\<not> wc_Authenticated c"
    and "first_message J X Do Now sendable fd c Frame (W, C) = ((W', C'), out)"
    and "asked' = (if length (Split Frame (CHR '':'')) = 2 then (Do, Now, False) # asked else asked)"
  shows "conn_ok W' \<and> auth_ok J asked' W' \<and> auth_run J X asked' C'"
proof (cases "length (Split Frame (CHR '':'')) = 2")
  case True
  let ?V = "\<lparr> vd_allowed = False, vd_UInfo = wc_UserInfo c, vd_Expired = False, vd_Contacted = False \<rparr>"
  let ?tok = "Split Frame (CHR '':'') ! 1"
  obtain V C1 where v: "Auth_IsAuthorized J X Do Now ?tok False ?V C = (V, C1)" by fastforce
  have run: "auth_run J X asked' C1" using auth_run.token[OF assms(5) v] assms(9) True by simp
  have more: "auth_ok J asked' W" by (rule auth_ok_more[OF assms(2)]) (simp add: assms(9) subset_insertI)
  define c1 where "c1 = c \<lparr> wc_UserInfo := vd_UInfo V \<rparr>"
  define c2 where "c2 = c1 \<lparr> wc_Authenticated := True, wc_UserName := user_email (uip_userinfo (vd_UInfo V)) \<rparr>"
  have c1: "wc_SocketRegistered c1" "\<not> wc_Authenticated c1" and c2: "wc_SocketRegistered c2"
    using assms(4,7) by (simp_all add: c1_def c2_def)
  have put: "conn_ok (put_client fd c' W) \<and> conn_ok (EndConnection fd (put_client fd c' W))" if "wc_SocketRegistered c'" for c'
    using conn_ok_put[OF assms(1,3,4) that] conn_ok_end[of "put_client fd c' W" fd c'] that by simp
  show ?thesis
  proof (cases "vd_allowed V")
    case False
    then have s: "W' = EndConnection fd (put_client fd c1 W)" "C' = C1"
      using assms(8) True v by (auto simp: first_message_def Let_def c1_def)
    have "auth_ok J asked' (put_client fd c1 W)" by (rule auth_ok_put[OF more]) (use c1 in simp)
    with s put[OF c1(1)] run show ?thesis by (simp add: auth_ok_end)
  next
    case ok: True
    have s: "W' = (if sendable then put_client fd c2 W else EndConnection fd (put_client fd c2 W))" "C' = C1"
      using assms(8) True v ok by (auto simp: first_message_def Let_def c1_def c2_def)
    have "\<exists>(Do, Now, Sub) \<in> set asked'. vouched J Do Now Sub ?tok (vd_UInfo V)"
      using IsAuthorized_vouched(2)[OF assms(6) auth_run_vouched[OF assms(5,6)] v ok] assms(9) True by simp
    then have "token_shown J asked' c2" unfolding token_shown_def by (auto simp: c1_def c2_def)
    then have "auth_ok J asked' (put_client fd c2 W)" by (rule auth_ok_put[OF more])
    with s put[OF c2] run show ?thesis by (simp add: auth_ok_end)
  qed
next
  case False
  then show ?thesis
    using assms(8,9,2,5) conn_ok_end[OF assms(1,3,4)] by (auto simp: first_message_def auth_ok_end)
qed

lemma later_message_ok:
  assumes "conn_ok W" "auth_ok J asked W" "map_of (ws_Clients W) fd = Some c" "wc_SocketRegistered c"
    and "later_message J proc sendable fd c Frame W = (W', out)"
  shows "conn_ok W' \<and> auth_ok J asked W'"
proof -
  define F where "F = (\<lambda>ns. put_client fd (c \<lparr> wc_Filter := ns \<rparr>) W)"
  have c: "conn_ok (F ns)" "conn_ok (EndConnection fd (F ns))" for ns
    unfolding F_def using conn_ok_put[OF assms(1,3,4)] conn_ok_end[of "put_client fd (c \<lparr> wc_Filter := ns \<rparr>) W" fd "c \<lparr> wc_Filter := ns \<rparr>"] assms(4)
    by simp_all
  have a: "auth_ok J asked (F ns)" for ns
    unfolding F_def by (rule auth_ok_put[OF assms(2)]) (use assms(2,3) in \<open>auto simp: auth_ok_def token_shown_def\<close>)
  have "W' = W \<or> W' = EndConnection fd W \<or> (\<exists>ns. W' = F ns \<or> W' = EndConnection fd (F ns))"
    using assms(5) unfolding later_message_def F_def by (auto split: sum.splits if_splits prod.splits bool.splits)
  then show ?thesis using assms(1,2) conn_ok_end[OF assms(1,3,4)] c a auth_ok_end[OF assms(2)] auth_ok_end[OF a] by blast
qed


lemma message_ok:
  assumes "conn_ok W" "auth_ok J asked W" "map_of (ws_Clients W) fd = Some c" "wc_SocketRegistered c" "auth_run J X asked C"
    and "cache_sound (ac_tokens X) holds" "OnSocketReadable J X Do Now proc sendable fd frame (W, C) = ((W', C'), out)"
  shows "conn_ok W' \<and> auth_ok J (if asks c frame then (Do, Now, False) # asked else asked) W'
    \<and> auth_run J X (if asks c frame then (Do, Now, False) # asked else asked) C'"
proof -
  have ended: "conn_ok (EndConnection fd W)" "auth_ok J asked (EndConnection fd W)"
    using conn_ok_end[OF assms(1,3,4)] auth_ok_end[OF assms(2)] by auto
  show ?thesis
  proof (cases frame)
    case (FText bytes)
    let ?Frame = "takeWhile (\<lambda>b. b \<noteq> CHR 0x00) bytes"
    show ?thesis
    proof (cases "wc_Authenticated c")
      case True
      then obtain out' where "later_message J proc sendable fd c ?Frame W = (W', out')" "C' = C"
        using assms(3,7) FText by (auto simp: OnSocketReadable_def split: prod.splits)
      with later_message_ok[OF assms(1-4)] assms(5) True show ?thesis by (simp add: asks_def)
    next
      case False
      then have "first_message J X Do Now sendable fd c ?Frame (W, C) = ((W', C'), out)"
        using assms(3,7) FText by (simp add: OnSocketReadable_def)
      from first_message_ok[OF assms(1-6) False this refl] False show ?thesis by (simp add: asks_def FText)
    qed
  qed (use assms(1,2,3,5,7) ended in \<open>auto simp: OnSocketReadable_def asks_def split: if_splits\<close>)
qed

lemma conn_ok_new:
  assumes "conn_ok W" "map_of (ws_Clients W) fd = None"
  shows "conn_ok (ws_DoGet Request fd uuid email UserInfo W)"
proof -
  have "fd \<notin> set (ws_ToBeRemoved W)" using assms by (auto simp: conn_ok_def)
  with assms show ?thesis by (auto simp: conn_ok_def ws_DoGet_def NewClient_def Let_def split: option.split)
qed

lemma auth_ok_new: "auth_ok J asked W \<Longrightarrow> auth_ok J asked (ws_DoGet Request fd uuid email UserInfo W)"
  by (auto simp: auth_ok_def ws_DoGet_def NewClient_def Let_def split: option.split)

lemma round_ok:
  assumes "conn_ok W" "auth_ok J asked W" "ws_round W = Some W'"
  shows "conn_ok W' \<and> auth_ok J asked W'"
proof -
  have wf: "omap_wf (ws_Clients W)" using assms(1) by (simp add: conn_ok_def)
  have "ws_Clients W' = filter (\<lambda>(fd, c). wc_SocketRegistered c) (ws_Clients W)" "ws_ToBeRemoved W' = []"
    using assms(3) ws_round_clients[OF assms(1)] by auto
  with map_of_filter_wf[OF wf] assms(2) show ?thesis by (auto simp: conn_ok_def auth_ok_def)
qed

lemma ws_run_ok:
  assumes "ws_run J X proc asked S" "cache_sound (ac_tokens X) holds"
  shows "conn_ok (fst S) \<and> auth_ok J asked (fst S) \<and> auth_run J X asked (snd S)"
  using assms(1)
proof induction
  case (ws_start asked C)
  then show ?case by (simp add: ws_init_def conn_ok_def auth_ok_def)
next
  case (ws_others asked W C asked' C')
  then show ?case using auth_ok_more[of J asked W asked'] by simp
next
  case (ws_open asked W C fd Request uuid email UserInfo)
  then show ?case by (simp add: conn_ok_new auth_ok_new)
next
  case (ws_message asked W C fd c Do Now sendable frame S' out)
  obtain W' C' where S': "S' = (W', C')" by fastforce
  show ?case
    unfolding S' fst_conv snd_conv
    by (rule message_ok[OF _ _ ws_message.hyps(2,3) _ assms(2) ws_message.hyps(4)[unfolded S']]) (use ws_message.IH in simp_all)
next
  case (ws_down asked W C fd c)
  then show ?case using conn_ok_end[of W fd c] auth_ok_end[of J asked W fd] by (simp add: OnSocketShutdown_def)
next
  case (ws_clean asked W C W')
  then show ?case using round_ok[of W J asked W'] by simp
next
  case (ws_notify asked W C sort_by ns)
  then show ?case by (simp add: RegisterNotifications_def conn_ok_def auth_ok_def)
qed

lemma find_holds: "find P xs = Some x \<Longrightarrow> x \<in> set xs \<and> P x"
  by (induction xs) (auto split: if_splits)

text \<open>
  C15: Whatever clients do, a notification, and so the log of the service, is sent only to a client that showed a token which the security service vouched
  for, with the user it vouched for, and that did not drop notifications of this kind; although a socket is opened without any authorisation.
\<close>

theorem notified_clients_vouched:
  assumes "ws_run J X proc asked (W, C)" "cache_sound (ac_tokens X) holds"
    and "(fd, frame) \<in> set (SendToAll nid Payload W @ fst (SendToUser whole UserName nid Payload W))"
  shows "\<exists>c. map_of (ws_Clients W) fd = Some c \<and> nid \<notin> set (wc_Filter c) \<and> token_shown J asked c"
proof -
  have ok: "conn_ok W" "auth_ok J asked W" using ws_run_ok[OF assms(1,2)] by auto
  then have wf: "omap_wf (ws_Clients W)" by (simp add: conn_ok_def)
  have "\<exists>c. (fd, c) \<in> set (ws_Clients W) \<and> \<not> IsFiltered nid c \<and> wc_Authenticated c"
    using assms(3) by (auto simp: SendToAll_def SendToUser_def dest!: find_holds split: option.splits if_splits)
  then obtain c where c: "(fd, c) \<in> set (ws_Clients W)" "\<not> IsFiltered nid c" "wc_Authenticated c" by blast
  have "map_of (ws_Clients W) fd = Some c" using omap_in_set_iff[OF wf] c(1) by blast
  with c ok(2) show ?thesis by (auto simp: auth_ok_def IsFiltered_def)
qed

text \<open>
  C16: The cleaner never erases an iterator twice or one that is gone: a round leaves exactly the clients whose connection has not ended.  But \<open>Stop\<close> clears the
  table first, and a round of the cleaner after that, with an ended connection waiting, is undefined.
\<close>

theorem ended_connections_removed:
  assumes "ws_run J X proc asked (W, C)" "cache_sound (ac_tokens X) holds"
  shows "(\<exists>W'. ws_round W = Some W' \<and> ws_Clients W' = filter (\<lambda>(fd, c). wc_SocketRegistered c) (ws_Clients W) \<and> ws_ToBeRemoved W' = [])
    \<and> (ws_ToBeRemoved W \<noteq> [] \<longleftrightarrow> ws_round (ws_Stop_clear W) = None)"
proof -
  have ok: "conn_ok W" using ws_run_ok[OF assms] by simp
  have "ws_ToBeRemoved W \<noteq> [] \<longleftrightarrow> ws_round (ws_Stop_clear W) = None"
    by (cases "ws_ToBeRemoved W") (simp_all add: ws_round_def ws_Stop_clear_def)
  with ws_round_clients[OF ok] show ?thesis by simp
qed

section \<open>Witnesses\<close>

definition upgrade_request :: request where
  "upgrade_request = \<lparr> rq_method = ''GET'', rq_uri_path = ''/api/v1/ws'', rq_parameters = [],
     rq_get = [''Upgrade'' \<mapsto> ''websocket''], rq_length = 0, rq_content_type = [], rq_text = [], rq_client_host = [] \<rparr>"

definition opened :: ws_server where
  "opened = ws_DoGet upgrade_request 5 ''u'' [] (UserInfoAndPolicy_init UNKNOWN 0) ws_init"

definition shown :: "ws_server \<times> (string \<rightharpoonup> UserInfoAndPolicy, string \<rightharpoonup> ApiKeyCacheEntry) auth_client" where
  "shown = fst (OnSocketReadable tree_lib map_caches one_token 1050 None True 5 (FText ''token:t1'') (opened, no_tokens))"

lemma opened_run: "ws_run tree_lib map_caches None [] (opened, no_tokens)"
  unfolding opened_def by (rule ws_open[OF ws_start[OF no_tokens_run]]) (simp add: ws_init_def)

lemma opened_client: "map_of (ws_Clients opened) 5 = Some \<lparr> wc_Id = ''u'', wc_UserName = [], wc_Authenticated = False, wc_SocketRegistered = True,
    wc_Filter = [], wc_UserInfo = UserInfoAndPolicy_init UNKNOWN 0 \<rparr>"
  by (simp add: opened_def ws_DoGet_def upgrade_request_def NewClient_def ws_init_def Let_def put_client_def tolower_def isupper_def char_code_def)

lemma token_parts: "Split ''token:t1'' (CHR '':'') = [''token'', ''t1'']"
  by (simp add: Split.simps)

lemma shown_run: "ws_run tree_lib map_caches None [(one_token, 1050, False)] shown"
proof -
  obtain S' out where m: "OnSocketReadable tree_lib map_caches one_token 1050 None True 5 (FText ''token:t1'') (opened, no_tokens) = (S', out)"
    by fastforce
  from ws_message[OF opened_run opened_client _ m] show ?thesis
    by (simp add: shown_def m asks_def token_parts)
qed

lemma shown_server: "fst shown = put_client 5 \<lparr> wc_Id = ''u'', wc_UserName = user_email (uip_userinfo t1_user), wc_Authenticated = True,
    wc_SocketRegistered = True, wc_Filter = [], wc_UserInfo = t1_user \<rparr> opened"
  by (simp add: shown_def OnSocketReadable_def opened_client first_message_def token_parts t1_accepted Let_def)

lemma shown_clients: "ws_Clients (fst shown) = [(5, \<lparr> wc_Id = ''u'', wc_UserName = user_email (uip_userinfo t1_user), wc_Authenticated = True,
    wc_SocketRegistered = True, wc_Filter = [], wc_UserInfo = t1_user \<rparr>)]"
  by (simp add: shown_server opened_def ws_DoGet_def upgrade_request_def NewClient_def ws_init_def Let_def put_client_def
      tolower_def isupper_def char_code_def)

lemma notified_clients_vouched_witness:
  "\<exists>c. map_of (ws_Clients (fst shown)) 5 = Some c \<and> 1 \<notin> set (wc_Filter c) \<and> token_shown tree_lib [(one_token, 1050, False)] c"
proof -
  have a: "SendToAll 1 ''log'' (fst shown) = [(5, ''log'')]"
    by (simp add: SendToAll_def shown_clients IsFiltered_def)
  have r: "ws_run tree_lib map_caches None [(one_token, 1050, False)] (fst shown, snd shown)" using shown_run by simp
  show ?thesis
    by (rule notified_clients_vouched[OF r map_caches_sel(3), of 5 "''log''" 1 "''log''" "\<lambda>_. True" "[]"]) (simp add: a)
qed

lemma ended_connections_removed_witness:
  "\<exists>W'. ws_round (OnSocketShutdown 5 (fst shown)) = Some W' \<and> ws_Clients W' = []"
proof -
  have "ws_run tree_lib map_caches None [(one_token, 1050, False)] (fst shown, snd shown)" using shown_run by simp
  moreover have "map_of (ws_Clients (fst shown)) 5 = Some (snd (hd (ws_Clients (fst shown))))" by (simp add: shown_clients)
  ultimately have r: "ws_run tree_lib map_caches None [(one_token, 1050, False)] (OnSocketShutdown 5 (fst shown), snd shown)"
    by (rule ws_down) (simp add: shown_clients)
  have "filter (\<lambda>(fd, c). wc_SocketRegistered c) (ws_Clients (OnSocketShutdown 5 (fst shown))) = []"
    by (simp add: OnSocketShutdown_def EndConnection_def shown_clients)
  with ended_connections_removed[OF r map_caches_sel(3)] show ?thesis by auto
qed

end
