(* ===== verification/Dictionaries.thy ===== *)
theory Dictionaries
  imports CppStd
begin

text \<open>
  The counters and dictionaries of \<^verbatim>\<open>src/src/StatFunc.h\<close>, \<^verbatim>\<open>dict_ssid.h\<close>, \<^verbatim>\<open>dict_bssid.h\<close> and \<^verbatim>\<open>dict_ue.h\<close>: small classes
  whose operations each hold the mutex of the object.
\<close>

section \<open>Relative counters\<close>

record RelativeCounter =
  rc_Value :: u64
  rc_inited :: bool
  rc_LastValue :: u64

definition RelativeCounter_init :: RelativeCounter where
  "RelativeCounter_init = \<lparr> rc_Value = 0, rc_inited = False, rc_LastValue = 0 \<rparr>"

definition RelativeCounter_of :: "u64 \<Rightarrow> RelativeCounter" where
  "RelativeCounter_of iv = RelativeCounter_init \<lparr> rc_inited := True, rc_LastValue := iv \<rparr>"

definition rc_set :: "u64 \<Rightarrow> RelativeCounter \<Rightarrow> u64 \<times> RelativeCounter" where
  "rc_set v C =
     (if \<not> rc_inited C then (v, C \<lparr> rc_inited := True, rc_LastValue := v \<rparr>)
      else if v \<ge> rc_LastValue C then (v - rc_LastValue C, C \<lparr> rc_Value := v - rc_LastValue C, rc_LastValue := v \<rparr>)
      else (v, C \<lparr> rc_Value := v, rc_LastValue := v \<rparr>))"

definition rc_get :: "RelativeCounter \<Rightarrow> u64" where
  "rc_get C = rc_Value C"

text \<open>The comparisons put the number on the left: \<open>C >= v\<close> tells whether \<open>v\<close> is at least the counter.\<close>

definition rc_eq :: "RelativeCounter \<Rightarrow> u64 \<Rightarrow> bool" where
  "rc_eq C v \<longleftrightarrow> v = rc_Value C"

definition rc_ge :: "RelativeCounter \<Rightarrow> u64 \<Rightarrow> bool" where
  "rc_ge C v \<longleftrightarrow> v \<ge> rc_Value C"

definition rc_gt :: "RelativeCounter \<Rightarrow> u64 \<Rightarrow> bool" where
  "rc_gt C v \<longleftrightarrow> v > rc_Value C"

definition rc_le :: "RelativeCounter \<Rightarrow> u64 \<Rightarrow> bool" where
  "rc_le C v \<longleftrightarrow> v \<le> rc_Value C"

definition rc_lt :: "RelativeCounter \<Rightarrow> u64 \<Rightarrow> bool" where
  "rc_lt C v \<longleftrightarrow> v < rc_Value C"

fun rc_sets :: "u64 list \<Rightarrow> RelativeCounter \<Rightarrow> u64 list" where
  "rc_sets [] C = []"
| "rc_sets (v # vs) C = (case rc_set v C of (d, C) \<Rightarrow> d # rc_sets vs C)"

section \<open>Dictionaries of names\<close>

record SSID_DICT =
  sd_Index :: u64
  sd_Dict :: "(string, u64) omap"

definition SSID_DICT_init :: SSID_DICT where
  "SSID_DICT_init = \<lparr> sd_Index = 1, sd_Dict = [] \<rparr>"

definition SSID_Add :: "string \<Rightarrow> SSID_DICT \<Rightarrow> u64 \<times> SSID_DICT" where
  "SSID_Add ssid D =
     (case map_of (sd_Dict D) ssid of
        None \<Rightarrow> (sd_Index D, D \<lparr> sd_Index := sd_Index D + 1, sd_Dict := omap_set ssid (sd_Index D) (sd_Dict D) \<rparr>)
      | Some i \<Rightarrow> (i, D))"

definition SSID_Remove :: "string \<Rightarrow> SSID_DICT \<Rightarrow> SSID_DICT" where
  "SSID_Remove ssid D = D \<lparr> sd_Dict := omap_erase ssid (sd_Dict D) \<rparr>"

definition SSID_Get :: "u64 \<Rightarrow> SSID_DICT \<Rightarrow> string" where
  "SSID_Get ssid_id D = (case find (\<lambda>(name, i). ssid_id = i) (sd_Dict D) of None \<Rightarrow> [] | Some (name, _) \<Rightarrow> name)"

record BSSID_DICT =
  bd_Index :: u32
  bd_Dict :: "(u64, u32) omap"

definition BSSID_DICT_init :: BSSID_DICT where
  "BSSID_DICT_init = \<lparr> bd_Index = 1, bd_Dict = [] \<rparr>"

definition BSSID_Get :: "u64 \<Rightarrow> BSSID_DICT \<Rightarrow> u32 \<times> BSSID_DICT" where
  "BSSID_Get bssid D =
     (case map_of (bd_Dict D) bssid of
        None \<Rightarrow> (bd_Index D, D \<lparr> bd_Index := bd_Index D + 1, bd_Dict := omap_set bssid (bd_Index D) (bd_Dict D) \<rparr>)
      | Some i \<Rightarrow> (i, D))"

definition BSSID_Remove :: "u64 \<Rightarrow> BSSID_DICT \<Rightarrow> BSSID_DICT" where
  "BSSID_Remove bssid D = D \<lparr> bd_Dict := omap_erase bssid (bd_Dict D) \<rparr>"

text \<open>The dictionary of stations holds pointers.\<close>

type_synonym 'p UE_DICT = "(u64, 'p) omap"

definition UE_Add :: "u64 \<Rightarrow> 'p \<Rightarrow> 'p UE_DICT \<Rightarrow> 'p UE_DICT" where
  "UE_Add station ue D = omap_set station ue D"

definition UE_Remove :: "u64 \<Rightarrow> 'p UE_DICT \<Rightarrow> 'p UE_DICT" where
  "UE_Remove station D = omap_erase station D"

definition UE_Get :: "u64 \<Rightarrow> 'p UE_DICT \<Rightarrow> 'p option" where
  "UE_Get station D = map_of D station"

section \<open>What a dictionary of identifiers promises\<close>

text \<open>Identifiers are given in order, so as long as the index has not come round none is used twice.\<close>

definition ids_below :: "('k \<Rightarrow> 'w::len word option) \<Rightarrow> 'w word \<Rightarrow> bool" where
  "ids_below m n \<longleftrightarrow> (\<forall>k i. m k = Some i \<longrightarrow> 0 < i \<and> i < n) \<and> inj_on m (dom m)"

lemma inj_on_update:
  assumes "inj_on m (dom m)" "\<And>y. m y \<noteq> Some v"
  shows "inj_on (m(k \<mapsto> v)) (dom (m(k \<mapsto> v)))"
proof (rule inj_onI)
  fix x y
  assume xy: "x \<in> dom (m(k \<mapsto> v))" "y \<in> dom (m(k \<mapsto> v))" "(m(k \<mapsto> v)) x = (m(k \<mapsto> v)) y"
  show "x = y"
  proof (cases "x = k \<or> y = k")
    case True
    with xy assms(2)[of x] assms(2)[of y] show ?thesis by (auto split: if_splits)
  next
    case False
    with xy assms(1) show ?thesis by (auto simp: inj_on_def)
  qed
qed

lemma find_value:
  "(x, i) \<in> set ps \<Longrightarrow> \<exists>y. find (\<lambda>(name, j). i = j) ps = Some (y, i) \<and> (y, i) \<in> set ps"
  by (induction ps) auto

locale id_dictionary =
  fixes look :: "'s \<Rightarrow> 'k \<Rightarrow> 'w::len word option" and index :: "'s \<Rightarrow> 'w word"
    and add :: "'k \<Rightarrow> 's \<Rightarrow> 'w word \<times> 's" and remove :: "'k \<Rightarrow> 's \<Rightarrow> 's" and start :: 's
  assumes add_known: "look s k = Some i \<Longrightarrow> add k s = (i, s)"
    and add_new: "look s k = None \<Longrightarrow> fst (add k s) = index s \<and> look (snd (add k s)) = (look s)(k \<mapsto> index s)
      \<and> index (snd (add k s)) = index s + 1"
    and removes: "look (remove k s) = (look s)(k := None)" "index (remove k s) = index s"
    and starts: "look start = Map.empty" "index start = 1"
begin

lemma ids_start: "ids_below (look start) (index start)"
  by (simp add: starts ids_below_def)

lemma ids_remove: "ids_below (look s) (index s) \<Longrightarrow> ids_below (look (remove k s)) (index (remove k s))"
  unfolding removes ids_below_def by (auto simp: inj_on_def dom_def split: if_splits)

lemma ids_add:
  assumes "ids_below (look s) (index s)" "0 < index s" "index s \<noteq> - 1"
  shows "ids_below (look (snd (add k s))) (index (snd (add k s))) \<and> look (snd (add k s)) k = Some (fst (add k s))"
proof (cases "look s k")
  case None
  have "1 + index s \<noteq> 0" using assms(3) by (simp add: add_eq_0_iff)
  then have "unat (index s + 1) = Suc (unat (index s))" by (simp add: add.commute unatSuc)
  then have top: "index s < index s + 1" and less: "i < index s \<Longrightarrow> i < index s + 1" for i
    by (simp_all add: word_less_nat_alt)
  have fresh: "look s y \<noteq> Some (index s)" for y
    using assms(1) unfolding ids_below_def by (metis less_irrefl)
  have bound: "0 < i \<and> i < index s + 1" if "((look s)(k \<mapsto> index s)) y = Some i" for y i
    using that assms(1,2) top less by (auto simp: ids_below_def split: if_splits)
  have "inj_on ((look s)(k \<mapsto> index s)) (dom ((look s)(k \<mapsto> index s)))"
    by (rule inj_on_update) (use assms(1) fresh in \<open>auto simp: ids_below_def\<close>)
  with add_new[OF None] bound show ?thesis by (simp add: ids_below_def)
next
  case (Some i)
  with assms(1) show ?thesis by (simp add: add_known)
qed

lemma index_bound:
  assumes "unat (index s) \<le> n" "Suc n < 2 ^ LENGTH('w)"
  shows "unat (index (snd (add k s))) \<le> Suc n"
proof (cases "look s k")
  case None
  with add_new[OF None] assms show ?thesis by (simp add: unat_word_ariths)
next
  case (Some i)
  with assms show ?thesis by (simp add: add_known)
qed

end

interpretation ssid: id_dictionary "\<lambda>D. map_of (sd_Dict D)" sd_Index SSID_Add SSID_Remove SSID_DICT_init
  by unfold_locales (auto simp: SSID_Add_def SSID_Remove_def SSID_DICT_init_def split: option.splits)

interpretation bssid: id_dictionary "\<lambda>D. map_of (bd_Dict D)" bd_Index BSSID_Get BSSID_Remove BSSID_DICT_init
  by unfold_locales (auto simp: BSSID_Get_def BSSID_Remove_def BSSID_DICT_init_def split: option.splits)

text \<open>A history of the dictionary of names.\<close>

inductive ssid_run :: "nat \<Rightarrow> SSID_DICT \<Rightarrow> bool" where
  ssid_start: "ssid_run 0 SSID_DICT_init"
| ssid_add: "ssid_run n D \<Longrightarrow> ssid_run (Suc n) (snd (SSID_Add ssid D))"
| ssid_remove: "ssid_run n D \<Longrightarrow> ssid_run n (SSID_Remove ssid D)"

lemma SSID_wf: "ssid_run n D \<Longrightarrow> omap_wf (sd_Dict D)"
  by (induction rule: ssid_run.induct) (auto simp: SSID_DICT_init_def SSID_Add_def SSID_Remove_def omap_wf_def[of "[]"] split: option.split)

lemma ssid_run_ids:
  assumes "ssid_run n D" "Suc n < 2 ^ 64"
  shows "ids_below (map_of (sd_Dict D)) (sd_Index D) \<and> 0 < sd_Index D \<and> unat (sd_Index D) \<le> Suc n"
  using assms
proof (induction rule: ssid_run.induct)
  case ssid_start
  show ?case using ssid.ids_start by (simp add: SSID_DICT_init_def)
next
  case (ssid_add n D ssid)
  then have IH: "ids_below (map_of (sd_Dict D)) (sd_Index D)" "0 < sd_Index D" "unat (sd_Index D) \<le> Suc n" by simp_all
  have top: "sd_Index D \<noteq> - 1"
  proof
    assume "sd_Index D = - 1"
    moreover have "unat (- 1 :: u64) = 2 ^ 64 - 1" by (simp add: unsigned_minus_1_eq_mask mask_eq_exp_minus_1)
    ultimately have "unat (sd_Index D) = 2 ^ 64 - 1" by (simp only:)
    with IH(3) ssid_add.prems show False by simp
  qed
  have succ: "sd_Index D + 1 \<noteq> 0"
  proof
    assume "sd_Index D + 1 = 0"
    then have "sd_Index D + 1 - 1 = 0 - 1" by (simp only:)
    with top show False by simp
  qed
  have "unat (sd_Index (snd (SSID_Add ssid D))) \<le> Suc (Suc n)"
    using ssid.index_bound[OF IH(3), of ssid] ssid_add.prems by simp
  moreover have "0 < sd_Index (snd (SSID_Add ssid D))"
    using IH(2) succ by (auto simp: SSID_Add_def word_gt_0 split: option.split)
  ultimately show ?case using ssid.ids_add[OF IH(1,2) top] by blast
next
  case (ssid_remove n D ssid)
  then have IH: "ids_below (map_of (sd_Dict D)) (sd_Index D)" "0 < sd_Index D \<and> unat (sd_Index D) \<le> Suc n" by simp_all
  show ?case using ssid.ids_remove[OF IH(1), of ssid] IH(2) unfolding ssid.removes(2) by blast
qed

text \<open>
  After any history with fewer than \<open>2 ^ 64 - 2\<close> additions, the identifier an addition gives is that of the name alone: looking it up gives the name back,
  and no other name has it.
\<close>

theorem ssid_identifies:
  assumes "ssid_run n D" "Suc (Suc n) < 2 ^ 64" "SSID_Add ssid D = (i, D')"
  shows "SSID_Get i D' = ssid \<and> (\<forall>other. map_of (sd_Dict D') other = Some i \<longrightarrow> other = ssid)"
proof -
  have "ssid_run (Suc n) D'" using ssid_run.ssid_add[OF assms(1), of ssid] assms(3) by simp
  from ssid_run_ids[OF this assms(2)] SSID_wf[OF this] have ids: "ids_below (map_of (sd_Dict D')) (sd_Index D')" "omap_wf (sd_Dict D')"
    by simp_all
  have i: "map_of (sd_Dict D') ssid = Some i"
    using assms(3) by (auto simp: SSID_Add_def split: option.splits)
  have inj: "inj_on (map_of (sd_Dict D')) (dom (map_of (sd_Dict D')))"
    using ids(1) by (simp add: ids_below_def)
  have only: "other = ssid" if "map_of (sd_Dict D') other = Some i" for other
    by (rule inj_onD[OF inj]) (use that i in \<open>auto simp: dom_def\<close>)
  obtain y where y: "find (\<lambda>(name, j). i = j) (sd_Dict D') = Some (y, i)" "(y, i) \<in> set (sd_Dict D')"
    using find_value[OF map_of_SomeD[OF i]] by blast
  have "map_of (sd_Dict D') y = Some i" using omap_in_set_iff[OF ids(2)] y(2) by blast
  with y(1) only show ?thesis by (simp add: SSID_Get_def)
qed

text \<open>
  The differences a counter reports for readings that do not decrease add up, modulo \<open>2 ^ 64\<close>, to the last reading: nothing is
  counted twice and nothing is lost.
\<close>

theorem counter_differences_add_up:
  assumes "sorted vs" "vs \<noteq> []"
  shows "sum_list (rc_sets vs RelativeCounter_init) = last vs"
proof -
  have "sum_list (rc_sets ws C) = last ws - rc_LastValue C" if "sorted ws" "ws \<noteq> []" "rc_inited C" "rc_LastValue C \<le> hd ws"
    for ws :: "u64 list" and C
    using that
  proof (induction ws arbitrary: C)
    case (Cons w ws)
    have s: "rc_set w C = (w - rc_LastValue C, C \<lparr> rc_Value := w - rc_LastValue C, rc_LastValue := w \<rparr>)"
      using Cons.prems by (simp add: rc_set_def)
    show ?case
    proof (cases "ws = []")
      case False
      then have "w \<le> hd ws" using Cons.prems(1) by (cases ws) auto
      with Cons.IH[of "C \<lparr> rc_Value := w - rc_LastValue C, rc_LastValue := w \<rparr>"] Cons.prems False s show ?thesis by simp
    qed (use s in simp)
  qed simp
  note rest = this
  obtain w ws where vs: "vs = w # ws" using assms(2) by (cases vs) auto
  show ?thesis
  proof (cases "ws = []")
    case False
    then have "w \<le> hd ws" using assms(1) vs by (cases ws) auto
    with rest[of ws "RelativeCounter_of w"] assms(1) vs False show ?thesis
      by (simp add: rc_set_def RelativeCounter_init_def RelativeCounter_of_def)
  qed (use vs in \<open>simp add: rc_set_def RelativeCounter_init_def\<close>)
qed

section \<open>Witnesses\<close>

lemma ssid_identifies_witness:
  "SSID_Get 2 (snd (SSID_Add ''guest'' (snd (SSID_Add ''home'' SSID_DICT_init)))) = ''guest''"
proof -
  have r: "ssid_run (Suc 0) (snd (SSID_Add ''home'' SSID_DICT_init))" by (rule ssid_add[OF ssid_start])
  have a: "SSID_Add ''guest'' (snd (SSID_Add ''home'' SSID_DICT_init))
    = (2, snd (SSID_Add ''guest'' (snd (SSID_Add ''home'' SSID_DICT_init))))"
    by (simp add: SSID_Add_def SSID_DICT_init_def)
  from ssid_identifies[OF r _ a] show ?thesis by simp
qed

lemma counter_differences_add_up_witness: "sum_list (rc_sets [5, 9, 12] RelativeCounter_init) = 12"
  using counter_differences_add_up[of "[5, 9, 12]"] by simp

end
