(* ===== verification/Codec.thy ===== *)
theory Codec
  imports Utils
begin

text \<open>
  The encoders of \<^verbatim>\<open>src/src/framework/utils.cpp\<close>: hexadecimal, Base64 in both directions, and the
  decompression loop \<^verbatim>\<open>ExtractBase64CompressedData\<close>, with Poco's Base64 stream and zlib's
  \<^verbatim>\<open>uncompress\<close> as arguments.
\<close>

section \<open>Hexadecimal\<close>

definition hex_table :: string where
  "hex_table = ''0123456789abcdef''"

definition ToHex :: "byte list \<Rightarrow> string" where
  "ToHex B = concat (map (\<lambda>i. [hex_table ! unat (drop_bit 4 (and i 0xf0)),
                               hex_table ! unat (and i 0x0f)]) B)"

text \<open>The read at the end of the file returns \<^verbatim>\<open>EOF\<close> before \<^verbatim>\<open>good()\<close> turns false: the loop runs once
  more than there are bytes, on \<^verbatim>\<open>0xff\<close>.  \<open>None\<close> is a file that cannot be opened.\<close>

fun hex_dump :: "nat \<Rightarrow> byte list \<Rightarrow> string" where
  "hex_dump Count [] = []"
| "hex_dump Count (C # Cs) =
     (if Count \<noteq> 0 then '', '' else []) @ (if Count mod 32 = 0 then [CHR 0x0D, CHR 0x0A] else [])
     @ ''0x'' @ ToHex [C] @ hex_dump (Count + 1) Cs"

definition BinaryFileToHexString :: "byte list option \<Rightarrow> string" where
  "BinaryFileToHexString F = (case F of None \<Rightarrow> [] | Some bs \<Rightarrow> hex_dump 0 (bs @ [0xff]))"

section \<open>Base64\<close>

definition kEncodeLookup :: string where
  "kEncodeLookup = ''ABCDEFGHIJKLMNOPQRSTUVWXYZabcdefghijklmnopqrstuvwxyz0123456789+/''"

definition kPadCharacter :: char where
  "kPadCharacter = CHR ''=''"

definition enc_char :: "u32 \<Rightarrow> char" where
  "enc_char i = kEncodeLookup ! unat i"

fun base64encode :: "byte list \<Rightarrow> string" where
  "base64encode (a # b # c # input) =
     (let temp = push_bit 16 (ucast a) + push_bit 8 (ucast b) + ucast c :: u32
      in [enc_char (drop_bit 18 (and temp 0x00FC0000)), enc_char (drop_bit 12 (and temp 0x0003F000)),
          enc_char (drop_bit 6 (and temp 0x00000FC0)), enc_char (and temp 0x0000003F)]
         @ base64encode input)"
| "base64encode [a] =
     (let temp = push_bit 16 (ucast a) :: u32
      in [enc_char (drop_bit 18 (and temp 0x00FC0000)), enc_char (drop_bit 12 (and temp 0x0003F000)),
          kPadCharacter, kPadCharacter])"
| "base64encode [a, b] =
     (let temp = push_bit 16 (ucast a) + push_bit 8 (ucast b) :: u32
      in [enc_char (drop_bit 18 (and temp 0x00FC0000)), enc_char (drop_bit 12 (and temp 0x0003F000)),
          enc_char (drop_bit 6 (and temp 0x00000FC0)), kPadCharacter])"
| "base64encode [] = []"

datatype b64_error = Invalid_length | Invalid_padding | Invalid_character

text \<open>The value \<^verbatim>\<open>or\<close>-ed into \<^verbatim>\<open>temp\<close> for an alphabet character.\<close>

definition sextet :: "char \<Rightarrow> u32 option" where
  "sextet ch =
     (let n = char_code ch
      in if 0x41 \<le> n \<and> n \<le> 0x5A then Some (of_nat (n - 0x41))
         else if 0x61 \<le> n \<and> n \<le> 0x7A then Some (of_nat (n - 0x47))
         else if 0x30 \<le> n \<and> n \<le> 0x39 then Some (of_nat (n + 0x04))
         else if n = 0x2B then Some 0x3E
         else if n = 0x2F then Some 0x3F
         else None)"

definition temp_byte :: "nat \<Rightarrow> u32 \<Rightarrow> byte" where
  "temp_byte n temp = ucast (and (drop_bit n temp) 0x000000FF)"

text \<open>\<open>i\<close> is the index of the inner loop, the list is what is left from \<^verbatim>\<open>it\<close>; \<^verbatim>\<open>temp\<close> is not reset
  between groups.\<close>

fun decode_loop :: "nat \<Rightarrow> u32 \<Rightarrow> byte list \<Rightarrow> string \<Rightarrow> b64_error + byte list" where
  "decode_loop i temp decoded [] = Inr decoded"
| "decode_loop i temp decoded (ch # it) =
     (let temp = push_bit 6 temp in
      case sextet ch of
        Some v \<Rightarrow>
          (let temp = or temp v in
           if i = 3
           then decode_loop 0 temp (decoded @ [temp_byte 16 temp, temp_byte 8 temp, temp_byte 0 temp]) it
           else decode_loop (i + 1) temp decoded it)
      | None \<Rightarrow>
          (if ch = kPadCharacter then
             (if length (ch # it) = 1 then Inr (decoded @ [temp_byte 16 temp, temp_byte 8 temp])
              else if length (ch # it) = 2 then Inr (decoded @ [temp_byte 10 temp])
              else Inl Invalid_padding)
           else Inl Invalid_character))"

definition base64decode :: "string \<Rightarrow> b64_error + byte list" where
  "base64decode input =
     (if length input mod 4 \<noteq> 0 then Inl Invalid_length else decode_loop 0 0 [] input)"

subsection \<open>Round trip\<close>

lemma kEncodeLookup_codes:
  "kEncodeLookup = map char_of ([65..<91] @ [97..<123] @ [48..<58] @ [43, 47 :: nat])"
  by code_simp

lemma enc_char_code:
  assumes "n < 64"
  shows "char_code (enc_char (of_nat n)) =
    (if n < 26 then 65 + n else if n < 52 then 71 + n else if n < 62 then n - 4
     else if n = 62 then 43 else 47)"
proof -
  have u: "unat (of_nat n :: u32) = n" using assms by (simp add: unat_of_nat)
  have "enc_char (of_nat n) = char_of (([65..<91] @ [97..<123] @ [48..<58] @ [43, 47]) ! n)"
    unfolding enc_char_def u kEncodeLookup_codes using assms by (intro nth_map) simp
  moreover have "([65..<91] @ [97..<123] @ [48..<58] @ [43, 47]) ! n =
    (if n < 26 then 65 + n else if n < 52 then 71 + n else if n < 62 then n - 4
     else if n = 62 then 43 else 47 :: nat)"
    using assms by (auto simp: nth_append nth_Cons' simp del: upt_conv_Cons upt_rec_numeral)
  ultimately show ?thesis using assms by (simp add: char_code_char_of)
qed

lemma sextet_of_code:
  assumes "n < 64" "char_code ch =
    (if n < 26 then 65 + n else if n < 52 then 71 + n else if n < 62 then n - 4
     else if n = 62 then 43 else 47)"
  shows "sextet ch = Some (of_nat n)"
proof (cases "52 \<le> n \<and> n < 62")
  case True
  then obtain m where "n = m + 52" "m < 10" by (intro that[of "n - 52"]) auto
  with assms show ?thesis by (simp add: sextet_def Let_def)
next
  case False
  then consider "n < 26" | "26 \<le> n" "n < 52" | "n = 62" | "n = 63" using assms(1) by linarith
  then show ?thesis by cases (use assms(2) in \<open>simp_all add: sextet_def Let_def of_nat_diff\<close>)
qed

lemma sextet_enc_char: "n < 64 \<Longrightarrow> sextet (enc_char (of_nat n)) = Some (of_nat n)"
  by (rule sextet_of_code[OF _ enc_char_code])

lemma sextet_mod: "sextet (enc_char (of_nat (n mod 64))) = Some (of_nat (n mod 64))"
  by (rule sextet_enc_char) simp

lemma sextet_pad: "sextet kPadCharacter = None"
  by (simp add: sextet_def kPadCharacter_def char_code_def Let_def)

lemma unat_and_shift:
  fixes t :: u32
  assumes "m = push_bit n (mask k)"
  shows "drop_bit n (and t m) = of_nat (unat t div 2 ^ n mod 2 ^ k)"
proof -
  have "drop_bit n (and t m) = take_bit k (drop_bit n t)"
    unfolding assms
    by (rule bit_eqI) (auto simp: bit_simps dest: bit_imp_le_length)
  moreover have "unat (take_bit k (drop_bit n t)) = unat t div 2 ^ n mod 2 ^ k"
    by (simp only: unsigned_take_bit_eq unat_drop_bit_eq
        take_bit_eq_mod[where ?'a = nat] drop_bit_eq_div[where ?'a = nat])
  ultimately show ?thesis by (metis of_nat_unat ucast_id)
qed

lemma push_or:
  fixes t :: u32
  assumes "n < 64" shows "unat (or (push_bit 6 t) (of_nat n)) = (unat t * 64 + n) mod 2 ^ 32"
proof -
  have "and (push_bit 6 t) (of_nat n) = 0"
  proof (rule bit_eqI)
    fix k
    have "take_bit 6 n = n" using assms by (simp add: take_bit_nat_eq_self)
    then have "\<not> bit n k" if "k \<ge> 6" using that by (metis bit_take_bit_iff not_less)
    then show "bit (and (push_bit 6 t) (of_nat n)) k = bit (0 :: u32) k"
      by (auto simp: bit_simps)
  qed
  then have "or (push_bit 6 t) (of_nat n) = push_bit 6 t + of_nat n"
    by (simp add: disjunctive_add_eq_or)
  also have "\<dots> = of_nat (unat t * 64 + n)"
    by (simp add: push_bit_eq_mult mult.commute)
  finally show ?thesis by (simp only: unat_of_nat) simp
qed

lemma unat_temp_byte: "unat (temp_byte n t) = unat t div 2 ^ n mod 256"
proof -
  have "and (drop_bit n t) 0xFF = take_bit 8 (drop_bit n t)"
    by (simp add: take_bit_eq_mask mask_eq_exp_minus_1)
  then have "unat (and (drop_bit n t) 0xFF) = unat t div 2 ^ n mod 2 ^ 8"
    by (simp only: unsigned_take_bit_eq unat_drop_bit_eq take_bit_eq_mod[where ?'a = nat]
        drop_bit_eq_div[where ?'a = nat])
  then show ?thesis
    by (simp add: temp_byte_def unsigned_ucast_eq take_bit_eq_mod[where ?'a = nat])
qed

lemma mod_div_nat: "x mod (a * b) div a = x div a mod (b :: nat)" if "a > 0"
  using that by (simp add: mod_mult2_eq)

text \<open>A byte of \<^verbatim>\<open>temp\<close> only depends on the low 24 bits, whatever was shifted above them.\<close>

lemma temp_byte_low:
  assumes "unat t mod 2 ^ k = T" "n + 8 \<le> k"
  shows "unat (temp_byte n t) = T div 2 ^ n mod 256"
proof -
  have "unat t mod 2 ^ k mod 2 ^ (n + 8) = unat t mod 2 ^ (n + 8)"
    using assms(2) by (intro mod_mod_cancel le_imp_power_dvd)
  then have "T mod (2 ^ n * 2 ^ 8) div 2 ^ n = unat t mod (2 ^ n * 2 ^ 8) div 2 ^ n"
    using assms(1) by (simp only: power_add)
  then show ?thesis by (simp add: mod_div_nat unat_temp_byte)
qed

lemma sextets_value:
  "((T div 262144 mod 64 * 64 + T div 4096 mod 64) * 64 + T div 64 mod 64) * 64 + T mod 64
     = T mod (2 ^ 24 :: nat)"
proof -
  have "T mod (64 * (64 * (64 * 64))) =
    64 * (64 * (64 * (T div 64 div 64 div 64 mod 64) + T div 64 div 64 mod 64) + T div 64 mod 64) + T mod 64"
    by (simp only: mod_mult2_eq)
  moreover have "T div 262144 = T div 64 div 64 div 64" "T div 4096 = T div 64 div 64"
    by (simp_all add: div_mult2_eq[symmetric])
  ultimately show ?thesis by simp
qed

lemma decode_sextet:
  assumes "n < 64" "i < 3"
  shows "decode_loop i t dec (enc_char (of_nat n) # it)
    = decode_loop (i + 1) (or (push_bit 6 t) (of_nat n)) dec it"
  using assms by (simp add: sextet_enc_char Let_def)

definition group_temp :: "nat \<Rightarrow> nat \<Rightarrow> nat \<Rightarrow> nat" where
  "group_temp a b c = a * 65536 + b * 256 + c"

lemma unat_temp:
  fixes a b c :: byte
  shows "unat (push_bit 16 (ucast a) + push_bit 8 (ucast b) + ucast c :: u32)
     = group_temp (unat a) (unat b) (unat c)"
proof -
  have "unat a < 256" "unat b < 256" "unat c < 256"
    using unsigned_less[of a] unsigned_less[of b] unsigned_less[of c] by simp_all
  then have lt: "group_temp (unat a) (unat b) (unat c) < 2 ^ LENGTH(32)"
    by (simp add: group_temp_def)
  have eq: "push_bit 16 (ucast a) + push_bit 8 (ucast b) + ucast c
      = (of_nat (group_temp (unat a) (unat b) (unat c)) :: u32)"
    by (simp add: group_temp_def push_bit_eq_mult mult.commute)
  show ?thesis unfolding eq unat_of_nat using lt by (rule mod_less)
qed

lemma enc_sextets:
  fixes t :: u32
  shows "drop_bit 18 (and t 0x00FC0000) = of_nat (unat t div 262144 mod 64)"
    "drop_bit 12 (and t 0x0003F000) = of_nat (unat t div 4096 mod 64)"
    "drop_bit 6 (and t 0x00000FC0) = of_nat (unat t div 64 mod 64)"
    "and t 0x0000003F = of_nat (unat t mod 64)"
  using unat_and_shift[of "0x00FC0000" 18 6 t] unat_and_shift[of "0x0003F000" 12 6 t]
    unat_and_shift[of "0x00000FC0" 6 6 t] unat_and_shift[of "0x0000003F" 0 6 t]
  by (simp_all add: mask_eq_exp_minus_1)

lemma group_bytes:
  assumes "a < 256" "b < 256" "c < 256"
  shows "group_temp a b c div 2 ^ 16 mod 256 = a" "group_temp a b c div 2 ^ 8 mod 256 = b"
    "group_temp a b c div 2 ^ 0 mod 256 = c" "group_temp a b c < 2 ^ 24"
proof -
  have eq: "group_temp a b c = (a * 256 + b) * 256 + c" by (simp add: group_temp_def)
  then have "group_temp a b c div 256 = a * 256 + b" using assms(3) by simp
  moreover have "group_temp a b c div 2 ^ 16 = group_temp a b c div 256 div 256"
    by (simp add: div_mult2_eq[symmetric])
  ultimately show "group_temp a b c div 2 ^ 16 mod 256 = a" "group_temp a b c div 2 ^ 8 mod 256 = b"
    using assms by simp_all
  have "group_temp a b c mod 256 = c"
    unfolding eq using assms(3) by (simp only: mod_mult_self3 mod_less)
  then show "group_temp a b c div 2 ^ 0 mod 256 = c" by simp
  show "group_temp a b c < 2 ^ 24" using assms by (simp add: eq)
qed

lemma unat_byte_less: "unat (a :: byte) < 256"
  using unsigned_less[of a] by simp

lemma byte_eqI: "unat (x :: byte) = unat a \<Longrightarrow> x = a"
  by (simp add: word_unat_eq_iff)

text \<open>Three alphabet characters and a fourth shift leave the first 18 bits of the group; four
  characters leave all 24.\<close>

lemma unat_push6: "unat (push_bit 6 t :: u32) = unat t * 64 mod 2 ^ 32"
  using push_or[of 0 t] by simp

lemma mod_step: "(x mod m * k + n) mod m = (x * k + n) mod (m :: nat)"
  by (metis mod_add_left_eq mod_mult_left_eq)

lemma temp_steps:
  assumes "n1 < 64" "n2 < 64"
  shows "unat (or (push_bit 6 (or (push_bit 6 t) (of_nat n1))) (of_nat n2) :: u32)
     = ((unat t * 64 + n1) * 64 + n2) mod 2 ^ 32"
  unfolding push_or[OF assms(2)] push_or[OF assms(1)] by (rule mod_step)

lemma mod_2_24: "x mod 2 ^ 32 mod 2 ^ 24 = x mod (2 ^ 24 :: nat)"
  by (rule mod_mod_cancel) simp

lemma temp4_low:
  assumes "n1 < 64" "n2 < 64" "n3 < 64" "n4 < 64"
    and "((n1 * 64 + n2) * 64 + n3) * 64 + n4 = T"
  defines "t2 \<equiv> \<lambda>t. or (push_bit 6 (or (push_bit 6 t) (of_nat n1))) (of_nat n2) :: u32"
  shows "unat (or (push_bit 6 (or (push_bit 6 (t2 t)) (of_nat n3))) (of_nat n4)) mod 2 ^ 24
     = T mod 2 ^ 24"
proof -
  have "unat (or (push_bit 6 (or (push_bit 6 (t2 t)) (of_nat n3))) (of_nat n4))
      = ((((unat t * 64 + n1) * 64 + n2) mod 2 ^ 32 * 64 + n3) * 64 + n4) mod 2 ^ 32"
    unfolding temp_steps[OF assms(3,4)] t2_def temp_steps[OF assms(1,2)] ..
  also have "\<dots> mod 2 ^ 24 = ((((unat t * 64 + n1) * 64 + n2) * 64 + n3) * 64 + n4) mod 2 ^ 24"
    unfolding mod_2_24
    by (metis (no_types) mod_2_24 mod_add_left_eq mod_mult_left_eq)
  also have "(((unat t * 64 + n1) * 64 + n2) * 64 + n3) * 64 + n4 = T + unat t * 2 ^ 24"
    using assms(5) by simp
  also have "(T + unat t * 2 ^ 24) mod 2 ^ 24 = T mod 2 ^ 24" by (rule mod_mult_self1)
  finally show ?thesis .
qed

lemma group_temp4:
  fixes a b c :: byte
  defines "T \<equiv> group_temp (unat a) (unat b) (unat c)"
  defines "t4 \<equiv> \<lambda>t. or (push_bit 6 (or (push_bit 6 (or (push_bit 6 (or (push_bit 6 t)
    (of_nat (T div 262144 mod 64)))) (of_nat (T div 4096 mod 64)))) (of_nat (T div 64 mod 64))))
    (of_nat (T mod 64)) :: u32"
  shows "temp_byte 16 (t4 t) = a" "temp_byte 8 (t4 t) = b" "temp_byte 0 (t4 t) = c"
proof -
  have T: "T < 2 ^ 24" unfolding T_def by (intro group_bytes unat_byte_less)
  have "((T div 262144 mod 64 * 64 + T div 4096 mod 64) * 64 + T div 64 mod 64) * 64 + T mod 64 = T"
    using sextets_value[of T] T by simp
  then have low: "unat (t4 t) mod 2 ^ 24 = T"
    unfolding t4_def
    by (subst temp4_low[where T = T]) (use T in \<open>simp_all del: mod_mult_self1\<close>)
  note bytes = group_bytes[OF unat_byte_less unat_byte_less unat_byte_less, of a b c, folded T_def]
  show "temp_byte 16 (t4 t) = a" "temp_byte 8 (t4 t) = b" "temp_byte 0 (t4 t) = c"
    using temp_byte_low[OF low, of 16] temp_byte_low[OF low, of 8] temp_byte_low[OF low, of 0] bytes
    by (auto intro!: byte_eqI)
qed

lemma decode_group:
  "\<exists>t'. decode_loop 0 t dec (base64encode (a # b # c # input))
      = decode_loop 0 t' (dec @ [a, b, c]) (base64encode input)"
proof -
  let ?T = "group_temp (unat a) (unat b) (unat c)"
  let ?n1 = "?T div 262144 mod 64" and ?n2 = "?T div 4096 mod 64"
    and ?n3 = "?T div 64 mod 64" and ?n4 = "?T mod 64"
  let ?t3 = "or (push_bit 6 (or (push_bit 6 (or (push_bit 6 t) (of_nat ?n1))) (of_nat ?n2))) (of_nat ?n3)"
  let ?t4 = "or (push_bit 6 ?t3) (of_nat ?n4)"
  have enc: "base64encode (a # b # c # input) = enc_char (of_nat ?n1) # enc_char (of_nat ?n2)
      # enc_char (of_nat ?n3) # enc_char (of_nat ?n4) # base64encode input"
    unfolding base64encode.simps Let_def enc_sextets unat_temp by simp
  have "decode_loop 0 t dec (base64encode (a # b # c # input))
      = decode_loop 3 ?t3 dec (enc_char (of_nat ?n4) # base64encode input)"
    unfolding enc
    by (subst decode_sextet, simp, simp, subst decode_sextet, simp, simp, subst decode_sextet, simp, simp)
      (simp only: numeral_3_eq_3 add_Suc_right add_0_right plus_1_eq_Suc One_nat_def add.right_neutral)
  also have "\<dots> = decode_loop 0 ?t4 (dec @ [temp_byte 16 ?t4, temp_byte 8 ?t4, temp_byte 0 ?t4])
      (base64encode input)"
    by (simp only: decode_loop.simps sextet_mod Let_def option.case if_True refl)
  finally show ?thesis unfolding group_temp4 by blast
qed

lemma decode_pads:
  "decode_loop i t dec [kPadCharacter]
     = Inr (dec @ [temp_byte 16 (push_bit 6 t), temp_byte 8 (push_bit 6 t)])"
  "decode_loop i t dec [kPadCharacter, kPadCharacter] = Inr (dec @ [temp_byte 10 (push_bit 6 t)])"
  by (simp_all add: sextet_pad Let_def)

lemma or_zero: "m = 0 \<Longrightarrow> push_bit 6 x = or (push_bit 6 x) (of_nat m :: u32)"
  by simp

lemma decode_tail2: "decode_loop 0 t dec (base64encode [a, b]) = Inr (dec @ [a, b])"
proof -
  let ?T = "group_temp (unat a) (unat b) (unat (0 :: byte))"
  let ?n1 = "?T div 262144 mod 64" and ?n2 = "?T div 4096 mod 64" and ?n3 = "?T div 64 mod 64"
  let ?t3 = "or (push_bit 6 (or (push_bit 6 (or (push_bit 6 t) (of_nat ?n1))) (of_nat ?n2))) (of_nat ?n3)"
  have temp: "unat (push_bit 16 (ucast a) + push_bit 8 (ucast b) :: u32) = ?T"
    using unat_temp[of a b 0] by simp
  have enc: "base64encode [a, b] = [enc_char (of_nat ?n1), enc_char (of_nat ?n2),
      enc_char (of_nat ?n3), kPadCharacter]"
    unfolding base64encode.simps Let_def enc_sextets temp by (rule refl)
  have "decode_loop 0 t dec (base64encode [a, b]) = decode_loop 3 ?t3 dec [kPadCharacter]"
    unfolding enc
    by (subst decode_sextet, simp, simp, subst decode_sextet, simp, simp, subst decode_sextet, simp, simp)
      (simp only: numeral_3_eq_3 add_Suc_right add_0_right plus_1_eq_Suc One_nat_def add.right_neutral)
  also have "\<dots> = Inr (dec @ [temp_byte 16 (push_bit 6 ?t3), temp_byte 8 (push_bit 6 ?t3)])"
    by (rule decode_pads)
  also have "push_bit 6 ?t3 = or (push_bit 6 ?t3) (of_nat (?T mod 64))"
  proof -
    have "?T = 64 * (unat a * 1024 + unat b * 4)" by (simp add: group_temp_def)
    then have "?T mod 64 = 0" by (simp only: mod_mult_self1_is_0)
    then show ?thesis by (rule or_zero)
  qed
  finally show ?thesis unfolding group_temp4 .
qed

lemma tail1_sextets:
  fixes a :: byte
  defines "T \<equiv> group_temp (unat a) (unat (0 :: byte)) (unat (0 :: byte))"
  shows "T div 262144 mod 64 * 64 + T div 4096 mod 64 = unat a * 16"
proof -
  have ab: "unat a < 256" by (rule unat_byte_less)
  have "T = unat a * 65536" by (simp add: T_def group_temp_def)
  then have "T div 4096 = unat a * 16" "T div 262144 = unat a * 16 div 64" by simp_all
  moreover have "unat a * 16 div 64 mod 64 = unat a * 16 div 64" using ab by (intro mod_less) simp
  ultimately show ?thesis by (simp only: div_mult_mod_eq)
qed

lemma temp_byte_10:
  assumes n12: "n1 mod 64 * 64 + n2 mod 64 = unat (a :: byte) * 16"
  shows "temp_byte 10 (push_bit 6 (or (push_bit 6 (or (push_bit 6 t) (of_nat (n1 mod 64))))
    (of_nat (n2 mod 64)))) = a"
proof (rule byte_eqI)
  let ?t2 = "or (push_bit 6 (or (push_bit 6 t) (of_nat (n1 mod 64)))) (of_nat (n2 mod 64))"
  have ab: "unat a < 256" by (rule unat_byte_less)
  have "unat (push_bit 6 ?t2) = ((unat t * 64 + n1 mod 64) * 64 + n2 mod 64) mod 2 ^ 32 * 64 mod 2 ^ 32"
    unfolding unat_push6 by (subst temp_steps) simp_all
  also have "\<dots> = (((unat t * 64 + n1 mod 64) * 64 + n2 mod 64) * 64) mod 2 ^ 32"
    by (rule mod_mult_left_eq)
  also have "((unat t * 64 + n1 mod 64) * 64 + n2 mod 64) * 64 = unat a * 1024 + unat t * 2 ^ 18"
    using n12 by simp
  finally have eq: "unat (push_bit 6 ?t2) = (unat a * 1024 + unat t * 2 ^ 18) mod 2 ^ 32" .
  have low: "unat (push_bit 6 ?t2) mod 2 ^ 18 = unat a * 1024"
  proof -
    have "(unat a * 1024 + unat t * 2 ^ 18) mod 2 ^ 32 mod 2 ^ 18
        = (unat a * 1024 + unat t * 2 ^ 18) mod 2 ^ 18" by (rule mod_mod_cancel) simp
    also have "\<dots> = unat a * 1024 mod 2 ^ 18" by (rule mod_mult_self1)
    also have "\<dots> = unat a * 1024" using ab by simp
    finally show ?thesis unfolding eq .
  qed
  show "unat (temp_byte 10 (push_bit 6 ?t2)) = unat a"
    using temp_byte_low[OF low, of 10] ab by simp
qed

lemma decode_tail1: "decode_loop 0 t dec (base64encode [a]) = Inr (dec @ [a])"
proof -
  let ?T = "group_temp (unat a) (unat (0 :: byte)) (unat (0 :: byte))"
  let ?n1 = "?T div 262144 mod 64" and ?n2 = "?T div 4096 mod 64"
  let ?t2 = "or (push_bit 6 (or (push_bit 6 t) (of_nat ?n1))) (of_nat ?n2)"
  have temp: "unat (push_bit 16 (ucast a) :: u32) = ?T"
    using unat_temp[of a 0 0] by simp
  have enc: "base64encode [a] = [enc_char (of_nat ?n1), enc_char (of_nat ?n2), kPadCharacter, kPadCharacter]"
    unfolding base64encode.simps Let_def enc_sextets temp by (rule refl)
  have "decode_loop 0 t dec (base64encode [a]) = decode_loop 2 ?t2 dec [kPadCharacter, kPadCharacter]"
    unfolding enc
    by (subst decode_sextet, simp, simp, subst decode_sextet, simp, simp)
      (simp only: numeral_2_eq_2 add_Suc_right add_0_right plus_1_eq_Suc One_nat_def add.right_neutral)
  also have "\<dots> = Inr (dec @ [temp_byte 10 (push_bit 6 ?t2)])"
    by (rule decode_pads)
  also have "temp_byte 10 (push_bit 6 ?t2) = a"
    by (rule temp_byte_10) (rule tail1_sextets)
  finally show ?thesis .
qed

lemma decode_encode: "decode_loop 0 t dec (base64encode bs) = Inr (dec @ bs)"
proof (induction bs arbitrary: t dec rule: base64encode.induct)
  case (1 a b c input)
  then show ?case using decode_group[of t dec a b c input] by auto
next
  case 4
  show ?case by simp
qed (rule decode_tail1 decode_tail2)+

lemma length_base64encode: "length (base64encode bs) = 4 * ((length bs + 2) div 3)"
proof (induction bs rule: base64encode.induct)
  case (1 a b c input)
  have "(length (a # b # c # input) + 2) div 3 = (length input + 2) div 3 + 1" by simp
  with 1 show ?case by (simp add: Let_def)
qed (simp_all add: Let_def)

text \<open>
  Base64 decoding gives back every encoded byte sequence, and the encoding has four characters for
  every started group of three bytes.
\<close>

theorem base64decode_base64encode:
  "base64decode (base64encode bs) = Inr bs \<and> length (base64encode bs) = 4 * ((length bs + 2) div 3)"
  using decode_encode[of 0 "[]" bs] by (simp add: base64decode_def length_base64encode)

section \<open>Decompression\<close>

datatype z_status = Z_OK "byte list" | Z_BUF_ERROR | Z_ERROR

text \<open>
  One round of the loop: \<open>None\<close> asks for a larger buffer.  The address of the first element of an empty
  buffer, and the terminator written behind a buffer that is full, are outside what the language
  defines.
\<close>

definition extract_attempt ::
  "(u64 \<Rightarrow> byte list \<Rightarrow> z_status) \<Rightarrow> byte list \<Rightarrow> u64 \<Rightarrow> string option cpp option" where
  "extract_attempt uncompress src MaxSize =
     (if MaxSize = 0 then Some (Inl Undefined)
      else case uncompress MaxSize src of
          Z_OK out \<Rightarrow>
            (if length out < unat MaxSize
             then Some (Inr (Some (c_string (map (\<lambda>b. char_of (unat b)) out))))
             else Some (Inl Undefined))
        | Z_BUF_ERROR \<Rightarrow> None
        | Z_ERROR \<Rightarrow> Some (Inr None))"

function extract_loop ::
  "(u64 \<Rightarrow> byte list \<Rightarrow> z_status) \<Rightarrow> byte list \<Rightarrow> nat \<Rightarrow> u64 \<Rightarrow> string option cpp" where
  "extract_loop uncompress src factor MaxSize =
     (case extract_attempt uncompress src MaxSize of
        Some r \<Rightarrow> r
      | None \<Rightarrow>
          if factor < 300
          then extract_loop uncompress src (factor + 10) (of_nat (length src) * of_nat (factor + 10))
          else Inr None)"
  by pat_completeness auto
termination by (relation "measure (\<lambda>(u, s, factor, m). 300 - factor)") auto

declare extract_loop.simps [simp del]

definition ExtractBase64CompressedData ::
  "(string \<Rightarrow> byte list) \<Rightarrow> (u64 \<Rightarrow> byte list \<Rightarrow> z_status) \<Rightarrow> string \<Rightarrow> u64 \<Rightarrow> string option cpp" where
  "ExtractBase64CompressedData b64 uncompress CompressedData compress_sz =
     (let src = b64 CompressedData;
          factor = 20;
          MaxSize = (if compress_sz \<noteq> 0 then compress_sz + 5000 else of_nat (length src) * of_nat factor)
      in extract_loop uncompress src factor MaxSize)"

text \<open>The buffer sizes tried, in order: at most 29.\<close>

definition buffer_sizes :: "byte list \<Rightarrow> u64 \<Rightarrow> u64 list" where
  "buffer_sizes src compress_sz =
     (if compress_sz \<noteq> 0 then compress_sz + 5000 else of_nat (length src) * 20)
     # map (\<lambda>k. of_nat (length src) * of_nat (10 * k)) [3..<31]"

fun first_some :: "('a \<Rightarrow> 'b option) \<Rightarrow> 'b \<Rightarrow> 'a list \<Rightarrow> 'b" where
  "first_some f d [] = d"
| "first_some f d (x # xs) = (case f x of Some r \<Rightarrow> r | None \<Rightarrow> first_some f d xs)"

lemma extract_loop_sizes:
  assumes "k \<le> 30"
  shows "extract_loop u src (10 * k) m
    = first_some (extract_attempt u src) (Inr None)
        (m # map (\<lambda>k. of_nat (length src) * of_nat (10 * k)) [Suc k..<31])"
  using assms
proof (induction "30 - k" arbitrary: k m)
  case 0
  then show ?case by (simp add: extract_loop.simps split: option.split)
next
  case (Suc n)
  then have k: "k < 30" "n = 30 - Suc k" by auto
  have up: "[Suc k..<31] = Suc k # [Suc (Suc k)..<31]" using k by (simp add: upt_conv_Cons)
  have f: "10 * k + 10 = 10 * Suc k" by simp
  show ?case
    using Suc.hyps(1)[OF k(2)] k
    by (subst extract_loop.simps) (simp add: up f del: mult_Suc_right of_nat_mult split: option.split)
qed

lemma extract_attempt_defined:
  assumes "m \<noteq> 0" "\<forall>out. u m src = Z_OK out \<longrightarrow> length out < unat m"
    "extract_attempt u src m = Some r"
  shows "\<exists>x. r = Inr x"
  using assms by (cases "u m src") (auto simp: extract_attempt_def split: if_splits)

lemma first_some_cases: "first_some f d xs = d \<or> (\<exists>x \<in> set xs. f x = Some (first_some f d xs))"
  by (induction xs) (auto split: option.split)

text \<open>
  The decompression loop stops: it answers with the first of at most 29 buffer sizes on which zlib
  does not ask for more room, and with failure when all of them do.  When zlib leaves room for the
  terminator in every buffer it fills, and no tried buffer is empty, the result is defined.
\<close>

theorem ExtractBase64CompressedData_sizes:
  fixes b64 u Data sz
  defines "src \<equiv> b64 Data"
  shows "ExtractBase64CompressedData b64 u Data sz
      = first_some (extract_attempt u src) (Inr None) (buffer_sizes src sz)
     \<and> length (buffer_sizes src sz) = 29
     \<and> ((\<forall>m \<in> set (buffer_sizes src sz). m \<noteq> 0 \<and> (\<forall>out. u m src = Z_OK out \<longrightarrow> length out < unat m))
         \<longrightarrow> (\<exists>r. ExtractBase64CompressedData b64 u Data sz = Inr r))"
proof -
  have eq: "ExtractBase64CompressedData b64 u Data sz
      = first_some (extract_attempt u src) (Inr None) (buffer_sizes src sz)"
  proof -
    have n: "10 * 2 = (20 :: nat)" "Suc 2 = 3" "of_nat 20 = (20 :: u64)" by simp_all
    show ?thesis
      unfolding ExtractBase64CompressedData_def Let_def buffer_sizes_def src_def n
      by (rule extract_loop_sizes[of 2 u "b64 Data", unfolded n]) simp
  qed
  moreover have "\<exists>r. first_some (extract_attempt u src) (Inr None) (buffer_sizes src sz) = Inr r"
    if ok: "\<forall>m \<in> set (buffer_sizes src sz). m \<noteq> 0 \<and> (\<forall>out. u m src = Z_OK out \<longrightarrow> length out < unat m)"
    using first_some_cases[of "extract_attempt u src" "Inr None" "buffer_sizes src sz"] ok
      extract_attempt_defined by metis
  moreover have "length (buffer_sizes src sz) = 29"
    unfolding buffer_sizes_def list.size length_map length_upt by simp
  ultimately show ?thesis by simp
qed

lemma ExtractBase64CompressedData_sizes_witness:
  "\<exists>r. ExtractBase64CompressedData (\<lambda>_. [1, 2])
        (\<lambda>m src. if m < 100 then Z_BUF_ERROR else Z_OK [104, 105]) ''AQI='' 0 = Inr r"
proof -
  let ?u = "\<lambda>m src. if m < 100 then Z_BUF_ERROR else Z_OK [104, 105 :: byte]"
  have pos: "m \<noteq> 0" if "m \<in> set (buffer_sizes [1, 2] 0)" for m
    using that by (auto simp: buffer_sizes_def upt_rec)
  have big: "Suc (Suc 0) < unat m" if "\<not> m < 100" for m :: u64
    using that by (simp add: word_less_nat_alt)
  show ?thesis
    using ExtractBase64CompressedData_sizes[of "\<lambda>_. [1, 2]" ?u "''AQI=''" 0] pos big
    by (auto split: if_splits)
qed

end
