(* ===== verification/Password.thy ===== *)
theory Password
  imports CppStd
begin

text \<open>
  \<^verbatim>\<open>generateStrongPassword\<close> of \<^verbatim>\<open>src/src/framework/utils.cpp\<close>.  The generator is the stream \<open>g\<close> of its
  outputs, the state is the number of outputs drawn and the password so far; \<^verbatim>\<open>std::shuffle\<close> is an
  argument that is given the generator's position.
\<close>

definition lowercaseChars :: string where
  "lowercaseChars = ''abcdefghijklmnopqrstuvwxyz''"

definition uppercaseChars :: string where
  "uppercaseChars = ''ABCDEFGHIJKLMNOPQRSTUVWXYZ''"

definition digitChars :: string where
  "digitChars = ''0123456789''"

definition specialChars :: string where
  "specialChars = ''!@#$%^&*()_+[]{}|;:,.<>?''"

lemmas char_sets = lowercaseChars_def uppercaseChars_def digitChars_def specialChars_def

definition draw_char :: "(nat \<Rightarrow> u32) \<Rightarrow> string \<Rightarrow> nat \<times> string \<Rightarrow> nat \<times> string" where
  "draw_char g chars st =
     (case st of (k, password) \<Rightarrow> (k + 1, password @ [chars ! (unat (g k) mod length chars)]))"

definition draw_any :: "(nat \<Rightarrow> u32) \<Rightarrow> nat \<times> string \<Rightarrow> nat \<times> string" where
  "draw_any g st =
     (case st of (k, password) \<Rightarrow>
        let category = unat (g k) mod 4
        in if category = 0 then draw_char g lowercaseChars (k + 1, password)
           else if category = 1 then draw_char g uppercaseChars (k + 1, password)
           else if category = 2 then draw_char g digitChars (k + 1, password)
           else draw_char g specialChars (k + 1, password))"

text \<open>\<^verbatim>\<open>for (int i = 0; i < n; ++i)\<close>: no iteration for a negative bound.\<close>

definition times :: "int \<Rightarrow> ('s \<Rightarrow> 's) \<Rightarrow> 's \<Rightarrow> 's" where
  "times n f = f ^^ nat n"

definition int32 :: "int \<Rightarrow> int cpp" where
  "int32 i = (if - (2 ^ 31) \<le> i \<and> i < 2 ^ 31 then Inr i else Inl Undefined)"

definition password_body ::
  "(nat \<Rightarrow> u32) \<Rightarrow> int \<Rightarrow> int \<Rightarrow> int \<Rightarrow> int \<Rightarrow> int \<Rightarrow> nat \<times> string" where
  "password_body g maxLength numDigits minLowercase minSpecial minUppercase =
     (let st = times minLowercase (draw_char g lowercaseChars) (0, []);
          st = times minUppercase (draw_char g uppercaseChars) st;
          st = times numDigits (draw_char g digitChars) st;
          st = times minSpecial (draw_char g specialChars) st;
          remainingLength = maxLength - int (length (snd st))
      in times remainingLength (draw_any g) st)"

definition generateStrongPassword ::
  "(nat \<Rightarrow> u32) \<Rightarrow> (nat \<Rightarrow> string \<Rightarrow> string) \<Rightarrow> int \<Rightarrow> int \<Rightarrow> int \<Rightarrow> int \<Rightarrow> int \<Rightarrow> int \<Rightarrow> string cpp" where
  "generateStrongPassword g shuffle minLength maxLength numDigits minLowercase minSpecial minUppercase =
     (if minLength < 1 \<or> minLength > maxLength then Inr ''Invalid parameters''
      else bind (int32 (minLowercase + minUppercase)) (\<lambda>a.
           bind (int32 (a + numDigits)) (\<lambda>b.
           bind (int32 (b + minSpecial)) (\<lambda>c.
           if c > maxLength then Inr ''Invalid parameters''
           else case password_body g maxLength numDigits minLowercase minSpecial minUppercase of
                  (k, password) \<Rightarrow> Inr (shuffle k password)))))"

definition occurs :: "string \<Rightarrow> string \<Rightarrow> nat" where
  "occurs chars p = length (filter (\<lambda>c. c \<in> set chars) p)"

lemma occurs_append [simp]: "occurs cs (p @ q) = occurs cs p + occurs cs q"
  by (simp add: occurs_def)

lemma occurs_mset: "mset p = mset q \<Longrightarrow> occurs cs p = occurs cs q"
  unfolding occurs_def by (metis mset_filter size_mset)

lemma char_sets_nonempty:
  "lowercaseChars \<noteq> []" "uppercaseChars \<noteq> []" "digitChars \<noteq> []" "specialChars \<noteq> []"
  by (simp_all add: char_sets)

lemma draw_char_in:
  assumes "chars \<noteq> []"
  shows "\<exists>c \<in> set chars. snd (draw_char g chars st) = snd st @ [c]"
  using assms by (cases st) (auto simp: draw_char_def intro!: nth_mem)

lemma times_draw_char:
  assumes "chars \<noteq> []"
  shows "\<exists>q. snd (times n (draw_char g chars) st) = snd st @ q \<and> length q = nat n \<and> set q \<subseteq> set chars"
proof -
  have "\<exists>q. snd ((draw_char g chars ^^ m) st) = snd st @ q \<and> length q = m \<and> set q \<subseteq> set chars" for m
  proof (induction m)
    case (Suc m)
    then obtain q where q: "snd ((draw_char g chars ^^ m) st) = snd st @ q" "length q = m"
      "set q \<subseteq> set chars" by blast
    obtain c where "c \<in> set chars"
      "snd (draw_char g chars ((draw_char g chars ^^ m) st)) = (snd st @ q) @ [c]"
      using draw_char_in[OF assms, of g "(draw_char g chars ^^ m) st"] q by auto
    with q show ?case by (intro exI[of _ "q @ [c]"]) auto
  qed simp
  then show ?thesis by (simp add: times_def)
qed

lemma times_draw_any: "\<exists>q. snd (times n (draw_any g) st) = snd st @ q \<and> length q = nat n"
proof -
  have step: "\<exists>c. snd (draw_any g s) = snd s @ [c]" for s
    by (cases s) (auto simp: draw_any_def draw_char_def Let_def)
  have "\<exists>q. snd ((draw_any g ^^ m) st) = snd st @ q \<and> length q = m" for m
  proof (induction m)
    case (Suc m)
    then obtain q c where "snd ((draw_any g ^^ m) st) = snd st @ q" "length q = m"
      "snd (draw_any g ((draw_any g ^^ m) st)) = (snd st @ q) @ [c]"
      using step by metis
    then show ?case by (intro exI[of _ "q @ [c]"]) auto
  qed simp
  then show ?thesis by (simp add: times_def)
qed

lemma occurs_all: "set q \<subseteq> set cs \<Longrightarrow> occurs cs q = length q"
  by (auto simp: occurs_def subset_iff intro: arg_cong[where f = length] filter_True)

lemma password_body_shape:
  "\<exists>l u d s r. snd (password_body g maxLength nd nl ns nu) = l @ u @ d @ s @ r
     \<and> length l = nat nl \<and> set l \<subseteq> set lowercaseChars
     \<and> length u = nat nu \<and> set u \<subseteq> set uppercaseChars
     \<and> length d = nat nd \<and> set d \<subseteq> set digitChars
     \<and> length s = nat ns \<and> set s \<subseteq> set specialChars
     \<and> length r = nat (maxLength - int (length (l @ u @ d @ s)))"
proof -
  define s1 where "s1 = times nl (draw_char g lowercaseChars) (0, [])"
  define s2 where "s2 = times nu (draw_char g uppercaseChars) s1"
  define s3 where "s3 = times nd (draw_char g digitChars) s2"
  define s4 where "s4 = times ns (draw_char g specialChars) s3"
  obtain l where l: "snd s1 = [] @ l" "length l = nat nl" "set l \<subseteq> set lowercaseChars"
    using times_draw_char[OF char_sets_nonempty(1), of nl g "(0, [])"] unfolding s1_def snd_conv
    by blast
  obtain u where u: "snd s2 = snd s1 @ u" "length u = nat nu" "set u \<subseteq> set uppercaseChars"
    using times_draw_char[OF char_sets_nonempty(2), of nu g s1] unfolding s2_def by blast
  obtain d where d: "snd s3 = snd s2 @ d" "length d = nat nd" "set d \<subseteq> set digitChars"
    using times_draw_char[OF char_sets_nonempty(3), of nd g s2] unfolding s3_def by blast
  obtain s where s: "snd s4 = snd s3 @ s" "length s = nat ns" "set s \<subseteq> set specialChars"
    using times_draw_char[OF char_sets_nonempty(4), of ns g s3] unfolding s4_def by blast
  obtain r where r: "snd (times (maxLength - int (length (snd s4))) (draw_any g) s4) = snd s4 @ r"
    "length r = nat (maxLength - int (length (snd s4)))"
    using times_draw_any by blast
  have body: "password_body g maxLength nd nl ns nu
      = times (maxLength - int (length (snd s4))) (draw_any g) s4"
    unfolding password_body_def Let_def s1_def s2_def s3_def s4_def by (rule refl)
  have s4: "snd s4 = l @ u @ d @ s" by (simp only: l(1) u(1) d(1) s(1) append_assoc append_Nil)
  have "snd (password_body g maxLength nd nl ns nu) = l @ u @ d @ s @ r"
    using r(1) by (simp only: body s4 append_assoc)
  moreover have "length r = nat (maxLength - int (length (l @ u @ d @ s)))"
    using r(2) by (simp only: s4)
  ultimately show ?thesis using l(2,3) u(2,3) d(2,3) s(2,3) by blast
qed

text \<open>
  With valid parameters the generator returns a password of exactly \<^verbatim>\<open>maxLength\<close> characters with at
  least the requested number of lower-case, upper-case, digit and special characters, for every stream
  of random numbers and every shuffle that permutes its argument.
\<close>

theorem generateStrongPassword_strength:
  assumes perm: "\<And>k p. mset (shuffle k p) = mset p"
    and len: "1 \<le> minLength" "minLength \<le> maxLength" "maxLength < 2 ^ 31"
    and req: "0 \<le> nd" "0 \<le> nl" "0 \<le> ns" "0 \<le> nu" "nl + nu + nd + ns \<le> maxLength"
  shows "\<exists>p. generateStrongPassword g shuffle minLength maxLength nd nl ns nu = Inr p
           \<and> int (length p) = maxLength
           \<and> nl \<le> int (occurs lowercaseChars p) \<and> nu \<le> int (occurs uppercaseChars p)
           \<and> nd \<le> int (occurs digitChars p) \<and> ns \<le> int (occurs specialChars p)"
proof -
  obtain k q where kq: "password_body g maxLength nd nl ns nu = (k, q)" by fastforce
  obtain l u d s r where q: "q = l @ u @ d @ s @ r"
      "length l = nat nl" "set l \<subseteq> set lowercaseChars"
      "length u = nat nu" "set u \<subseteq> set uppercaseChars"
      "length d = nat nd" "set d \<subseteq> set digitChars"
      "length s = nat ns" "set s \<subseteq> set specialChars"
      "length r = nat (maxLength - int (length (l @ u @ d @ s)))"
    using password_body_shape[of g maxLength nd nl ns nu] kq by auto
  have res: "generateStrongPassword g shuffle minLength maxLength nd nl ns nu = Inr (shuffle k q)"
    using len req by (simp add: generateStrongPassword_def int32_def kq)
  have occ: "occurs cs (shuffle k q) = occurs cs q" for cs
    by (rule occurs_mset) (rule perm)
  have "length (shuffle k q) = length q" by (metis perm size_mset)
  moreover have "int (length q) = maxLength" using q req by simp
  moreover have "nl \<le> int (occurs lowercaseChars q)" "nu \<le> int (occurs uppercaseChars q)"
    "nd \<le> int (occurs digitChars q)" "ns \<le> int (occurs specialChars q)"
    using q req by (simp_all add: occurs_all)
  ultimately show ?thesis using res occ by auto
qed

lemma generateStrongPassword_strength_witness:
  "\<exists>p. generateStrongPassword (\<lambda>k. of_nat (7 * k)) (\<lambda>k. rev) 8 12 2 3 1 2 = Inr p
     \<and> length p = 12 \<and> 2 \<le> occurs digitChars p"
  using generateStrongPassword_strength[of "\<lambda>k. rev" 8 12 2 3 1 2 "\<lambda>k. of_nat (7 * k)"] by force

text \<open>A negative request breaks the bound: the check passes and the password is longer than asked.\<close>

lemma generateStrongPassword_negative:
  "\<exists>p. generateStrongPassword g (\<lambda>k. id) 1 4 0 (- 6) 0 10 = Inr p \<and> length p = 10"
proof -
  obtain k q where kq: "password_body g 4 0 (- 6) 0 10 = (k, q)" by fastforce
  then show ?thesis
    using password_body_shape[of g 4 0 "- 6" 0 10]
    by (auto simp: generateStrongPassword_def int32_def)
qed

end
