(* ===== verification/Locks.thy ===== *)
theory Locks
  imports VenueWatcher
begin

text \<open>
  The order in which the receivers and the watchers take their mutexes.  Each operation is the sequence of
  its \<^verbatim>\<open>std::lock_guard\<close> scopes; threads interleave by the step relation.  The mutex of a receiver is
  a \<^verbatim>\<open>std::recursive_mutex\<close> (\<^verbatim>\<open>SubSystemServer::Mutex_\<close>), that of a watcher a \<^verbatim>\<open>std::mutex\<close>; no operation below
  takes a mutex it already holds, so one rule serves both.
\<close>

datatype mutex = StateReceiver_Mutex | DeviceStatusReceiver_Mutex | HealthReceiver_Mutex
  | VenueWatcher_Mutex watcher_id

datatype lock_op = Acquire mutex | Release mutex

definition locked :: "mutex \<Rightarrow> lock_op list \<Rightarrow> lock_op list" where
  "locked m p = Acquire m # p @ [Release m]"

text \<open>\<^verbatim>\<open>StateReceiver::run\<close> posts to every registered watcher under its own mutex, the two other receivers to
  at most one.\<close>

definition state_message_locks :: "(watcher_id \<times> u64 \<times> 'j) list \<Rightarrow> lock_op list" where
  "state_message_locks posts =
     locked StateReceiver_Mutex (concat (map (\<lambda>(i, _). locked (VenueWatcher_Mutex i) []) posts))"

definition device_message_locks :: "mutex \<Rightarrow> (watcher_id \<times> u64 \<times> 'j) option \<Rightarrow> lock_op list" where
  "device_message_locks m post =
     locked m (case post of None \<Rightarrow> [] | Some (venue, _) \<Rightarrow> locked (VenueWatcher_Mutex venue) [])"

definition Start_locks :: "watcher_id \<Rightarrow> 'j VenueWatcher \<Rightarrow> lock_op list" where
  "Start_locks self W =
     locked (VenueWatcher_Mutex self) []
     @ concat (map (\<lambda>_. locked StateReceiver_Mutex []) (vw_SerialNumbers W))
     @ locked DeviceStatusReceiver_Mutex [] @ locked HealthReceiver_Mutex []"

definition Stop_locks :: "'j VenueWatcher \<Rightarrow> lock_op list" where
  "Stop_locks W =
     concat (map (\<lambda>_. locked StateReceiver_Mutex []) (vw_SerialNumbers W))
     @ locked DeviceStatusReceiver_Mutex [] @ locked HealthReceiver_Mutex []"

definition dispatch_locks :: "watcher_id \<Rightarrow> lock_op list" where
  "dispatch_locks self = locked (VenueWatcher_Mutex self) []"

definition ModifySerialNumbers_locks :: "watcher_id \<Rightarrow> u64 list \<Rightarrow> 'j VenueWatcher \<Rightarrow> lock_op list" where
  "ModifySerialNumbers_locks self SerialNumbers W =
     (let Diff = set_symmetric_difference (vw_SerialNumbers W) SerialNumbers
      in locked (VenueWatcher_Mutex self)
           (concat (map (\<lambda>_. locked StateReceiver_Mutex [])
              (set_intersection (vw_SerialNumbers W) Diff @ set_intersection SerialNumbers Diff))
            @ locked HealthReceiver_Mutex [] @ locked DeviceStatusReceiver_Mutex []))"

section \<open>Interleaving\<close>

type_synonym thread = nat
type_synonym lock_state = "(thread \<Rightarrow> lock_op list) \<times> (mutex \<Rightarrow> thread option)"

inductive lock_step :: "lock_state \<Rightarrow> lock_state \<Rightarrow> bool" where
  acquire: "prog t = Acquire m # p \<Longrightarrow> owner m = None \<Longrightarrow>
     lock_step (prog, owner) (prog(t := p), owner(m := Some t))"
| release: "prog t = Release m # p \<Longrightarrow> owner m = Some t \<Longrightarrow>
     lock_step (prog, owner) (prog(t := p), owner(m := None))"

definition unlocked :: "mutex \<Rightarrow> thread option" where
  "unlocked = (\<lambda>_. None)"

definition deadlocked :: "lock_state \<Rightarrow> bool" where
  "deadlocked s \<longleftrightarrow> (\<exists>t. fst s t \<noteq> []) \<and> (\<nexists>s'. lock_step s s')"

section \<open>Operations that respect the order\<close>

fun rank :: "mutex \<Rightarrow> nat" where
  "rank (VenueWatcher_Mutex _) = 1"
| "rank _ = 0"

text \<open>A program that, holding \<open>H\<close>, only acquires above what it holds and ends holding nothing.\<close>

fun ordered :: "mutex set \<Rightarrow> lock_op list \<Rightarrow> bool" where
  "ordered H [] \<longleftrightarrow> H = {}"
| "ordered H (Acquire m # p) \<longleftrightarrow> (\<forall>h \<in> H. rank h < rank m) \<and> ordered (insert m H) p"
| "ordered H (Release m # p) \<longleftrightarrow> m \<in> H \<and> ordered (H - {m}) p"

lemma ordered_locked_append:
  assumes "\<forall>h \<in> H. rank h < rank m" "\<And>q. ordered (insert m H) (Release m # q) \<Longrightarrow> ordered (insert m H) (p @ Release m # q)"
    and "ordered H q"
  shows "ordered H (locked m p @ q)"
proof -
  have "m \<notin> H" using assms(1) by blast
  then have "ordered (insert m H) (Release m # q)" using assms(3) by simp
  with assms(1,2) show ?thesis by (simp add: locked_def)
qed

lemma ordered_concat_locked:
  assumes "\<And>x h. x \<in> set xs \<Longrightarrow> h \<in> H \<Longrightarrow> rank h < rank (f x)" "ordered H q"
  shows "ordered H (concat (map (\<lambda>x. locked (f x) []) xs) @ q)"
  using assms(1)
proof (induction xs)
  case (Cons x xs)
  then show ?case by (auto intro!: ordered_locked_append)
qed (simp add: assms(2))

lemma ordered_locked: "\<forall>h \<in> H. rank h < rank m \<Longrightarrow> ordered H q \<Longrightarrow> ordered H (locked m [] @ q)"
  by (rule ordered_locked_append) auto

lemma ordered_operations:
  "ordered {} (state_message_locks posts)"
  "m \<in> {HealthReceiver_Mutex, DeviceStatusReceiver_Mutex} \<Longrightarrow> ordered {} (device_message_locks m post)"
  "ordered {} (Start_locks self W)" "ordered {} (Stop_locks W)" "ordered {} (dispatch_locks self)"
proof -
  show "ordered {} (state_message_locks posts)"
    using ordered_locked_append[of "{}" StateReceiver_Mutex "concat (map (\<lambda>(i, _). locked (VenueWatcher_Mutex i) []) posts)" "[]"]
      ordered_concat_locked[of posts "{StateReceiver_Mutex}" "\<lambda>(i, _). VenueWatcher_Mutex i"]
    by (auto simp: state_message_locks_def case_prod_unfold)
  show "ordered {} (device_message_locks m post)" if "m \<in> {HealthReceiver_Mutex, DeviceStatusReceiver_Mutex}"
    using that by (auto simp: device_message_locks_def locked_def split: option.split)
  have tail: "ordered {} (locked DeviceStatusReceiver_Mutex [] @ locked HealthReceiver_Mutex [])"
    by (simp add: locked_def)
  have stop: "ordered {} (Stop_locks V)" for V :: "'x VenueWatcher"
    unfolding Stop_locks_def by (rule ordered_concat_locked) (use tail in auto)
  then show "ordered {} (Stop_locks W)" .
  show "ordered {} (Start_locks self W)"
    using stop[of W] unfolding Start_locks_def Stop_locks_def by (intro ordered_locked) auto
  show "ordered {} (dispatch_locks self)" by (simp add: dispatch_locks_def locked_def)
qed

definition lock_inv :: "lock_state \<Rightarrow> bool" where
  "lock_inv s \<longleftrightarrow> (\<forall>t. ordered {m. snd s m = Some t} (fst s t))"

lemma lock_inv_step: "lock_step s s' \<Longrightarrow> lock_inv s \<Longrightarrow> lock_inv s'"
proof (induction rule: lock_step.induct)
  case (acquire prog t m p owner)
  have "{m'. (owner(m := Some t)) m' = Some u} = (if u = t then insert m {m'. owner m' = Some t}
      else {m'. owner m' = Some u})" for u
    using acquire(2) by auto
  moreover have "ordered {m'. owner m' = Some u} (prog u)" for u
    using acquire(3) by (simp add: lock_inv_def)
  ultimately show ?case using acquire(1) by (auto simp: lock_inv_def) (metis ordered.simps(2))
next
  case (release prog t m p owner)
  have "{m'. (owner(m := None)) m' = Some u} = (if u = t then {m'. owner m' = Some t} - {m}
      else {m'. owner m' = Some u})" for u
    using release(2) by auto
  moreover have "ordered {m'. owner m' = Some u} (prog u)" for u
    using release(3) by (simp add: lock_inv_def)
  ultimately show ?case using release(1) by (auto simp: lock_inv_def) (metis ordered.simps(3))
qed

lemma lock_inv_reachable: "lock_step\<^sup>*\<^sup>* s s' \<Longrightarrow> lock_inv s \<Longrightarrow> lock_inv s'"
  by (induction rule: rtranclp_induct) (auto intro: lock_inv_step)

lemma lock_inv_progress:
  assumes "lock_inv (prog, owner)"
  shows "\<not> deadlocked (prog, owner)"
proof
  assume dead: "deadlocked (prog, owner)"
  have inv: "ordered {m. owner m = Some t} (prog t)" for t using assms by (simp add: lock_inv_def)
  have waits: "\<exists>m u. prog t = Acquire m # tl (prog t) \<and> owner m = Some u" if "prog t \<noteq> []" for t
  proof (cases "prog t")
    case (Cons x p)
    show ?thesis
    proof (cases x)
      case (Acquire m)
      with Cons dead acquire[of prog t m p owner] show ?thesis by (auto simp: deadlocked_def)
    next
      case (Release m)
      then have "owner m = Some t" using inv[of t] Cons by simp
      with Release Cons dead release[of prog t m p owner] show ?thesis by (auto simp: deadlocked_def)
    qed
  qed (use that in simp)
  have above: "\<exists>t' m'. prog t' = Acquire m' # tl (prog t') \<and> owner m' \<noteq> None \<and> rank m < rank m'"
    if m: "owner m = Some u" for m u
  proof -
    have "prog u \<noteq> []" using inv[of u] m by (cases "prog u") auto
    then obtain m' v where m': "prog u = Acquire m' # tl (prog u)" "owner m' = Some v" using waits by blast
    have "ordered {h. owner h = Some u} (Acquire m' # tl (prog u))" using inv[of u] m'(1) by metis
    then have "rank m < rank m'" using m by simp
    with m' show ?thesis by (metis option.distinct(1))
  qed
  obtain t where "prog t \<noteq> []" using dead by (auto simp: deadlocked_def)
  then obtain m u where "owner m = Some u" using waits by blast
  then obtain m1 u1 where 1: "owner m1 = Some u1" "rank m < rank m1" using above by blast
  then obtain m2 where "rank m1 < rank m2" using above by blast
  with 1 show False by (cases m2) auto
qed

text \<open>
  C31: The receivers, starting and stopping watchers, and the watchers' own threads can never deadlock on
  these mutexes: whatever number of such operations run at the same time and however they interleave,
  as long as one is unfinished some thread can go on.  Only changing the serial numbers of a watcher is
  left out.
\<close>

theorem receivers_never_deadlock:
  assumes "\<forall>t. progs t = [] \<or> (\<exists>posts :: (watcher_id \<times> u64 \<times> 'j) list. progs t = state_message_locks posts)
      \<or> (\<exists>(post :: (watcher_id \<times> u64 \<times> 'j) option) m. m \<in> {HealthReceiver_Mutex, DeviceStatusReceiver_Mutex}
           \<and> progs t = device_message_locks m post)
      \<or> (\<exists>self (W :: 'j VenueWatcher). progs t = Start_locks self W \<or> progs t = Stop_locks W)
      \<or> (\<exists>self. progs t = dispatch_locks self)"
    and "lock_step\<^sup>*\<^sup>* (progs, unlocked) s"
  shows "\<not> deadlocked s"
proof -
  have "ordered {} (progs t)" for t using assms(1)[rule_format, of t] by (auto intro: ordered_operations)
  then have "lock_inv (progs, unlocked)" by (simp add: lock_inv_def unlocked_def)
  from lock_inv_reachable[OF assms(2) this] show ?thesis
    by (cases s) (simp add: lock_inv_progress)
qed

section \<open>The operation that does not\<close>

lemma lock_steps_locked:
  assumes "prog t = concat (map (\<lambda>_. locked m []) xs) @ q" "owner m = None"
  shows "lock_step\<^sup>*\<^sup>* (prog, owner) (prog(t := q), owner)"
  using assms(1)
proof (induction xs arbitrary: prog)
  case Nil
  then have "prog(t := q) = prog" by auto
  then show ?case by simp
next
  case (Cons x xs)
  let ?r = "concat (map (\<lambda>_. locked m []) xs) @ q"
  have "lock_step (prog, owner) (prog(t := Release m # ?r), owner(m := Some t))"
    using Cons.prems assms(2) by (intro acquire) (simp_all add: locked_def)
  moreover have "lock_step (prog(t := Release m # ?r), owner(m := Some t)) ((prog(t := Release m # ?r))(t := ?r), (owner(m := Some t))(m := None))"
    by (rule release) simp_all
  moreover have "(owner(m := Some t))(m := None) = owner" using assms(2) by auto
  moreover have "lock_step\<^sup>*\<^sup>* (prog(t := ?r), owner) ((prog(t := ?r))(t := q), owner)"
    by (rule Cons.IH) simp
  ultimately show ?case by (metis (no_types, lifting) converse_rtranclp_into_rtranclp fun_upd_upd)
qed

text \<open>
  C30: Changing the serial numbers of a watcher takes the mutexes in the opposite order: while a health
  message for one of its devices is being delivered, there is an interleaving after which the thread
  that changes the serial numbers and the receiver's thread both wait for ever.  This holds for every
  new list of serial numbers.
\<close>

theorem ModifySerialNumbers_deadlock:
  assumes "t1 \<noteq> t2"
    and "progs = (\<lambda>_. [])(t1 := ModifySerialNumbers_locks self ds W,
      t2 := device_message_locks HealthReceiver_Mutex (Some (self, sn, j)))"
  shows "\<exists>s. lock_step\<^sup>*\<^sup>* (progs, unlocked) s \<and> deadlocked s \<and> fst s t1 \<noteq> [] \<and> fst s t2 \<noteq> []"
proof -
  let ?VW = "VenueWatcher_Mutex self" and ?HR = HealthReceiver_Mutex
  let ?rest = "locked DeviceStatusReceiver_Mutex [] @ [Release ?VW]"
  let ?D = "set_symmetric_difference (vw_SerialNumbers W) ds"
  define xs where "xs = set_intersection (vw_SerialNumbers W) ?D @ set_intersection ds ?D"
  have p1: "ModifySerialNumbers_locks self ds W =
      Acquire ?VW # concat (map (\<lambda>_. locked StateReceiver_Mutex []) xs) @ Acquire ?HR # Release ?HR # ?rest"
    by (simp add: ModifySerialNumbers_locks_def locked_def Let_def xs_def)
  define q1 where "q1 = concat (map (\<lambda>_. locked StateReceiver_Mutex []) xs) @ Acquire ?HR # Release ?HR # ?rest"
  define A where "A = Acquire ?HR # Release ?HR # ?rest"
  define B where "B = [Acquire ?VW, Release ?VW, Release ?HR]"
  have p: "progs t1 = Acquire ?VW # q1" "progs t2 = Acquire ?HR # B"
    using assms by (simp_all add: p1 q1_def B_def device_message_locks_def locked_def)
  define O1 where "O1 = unlocked(?VW := Some t1)"
  define O2 where "O2 = O1(?HR := Some t2)"
  define P2 where "P2 = (progs(t1 := q1))(t1 := A)"
  have 1: "lock_step (progs, unlocked) (progs(t1 := q1), O1)"
    unfolding O1_def by (rule acquire) (simp_all add: p unlocked_def)
  have 2: "lock_step\<^sup>*\<^sup>* (progs(t1 := q1), O1) (P2, O1)"
    unfolding P2_def by (rule lock_steps_locked[where m = StateReceiver_Mutex and xs = xs])
      (simp_all add: q1_def A_def O1_def unlocked_def)
  have 3: "lock_step (P2, O1) (P2(t2 := B), O2)"
    unfolding O2_def by (rule acquire) (use assms p in \<open>simp_all add: P2_def O1_def unlocked_def\<close>)
  define P3 where "P3 = P2(t2 := B)"
  have P3: "P3 t1 = A" "P3 t2 = B" "t \<noteq> t1 \<Longrightarrow> t \<noteq> t2 \<Longrightarrow> P3 t = []" for t
    using assms by (simp_all add: P3_def P2_def)
  have O2: "O2 ?HR = Some t2" "O2 ?VW = Some t1" by (simp_all add: O2_def O1_def)
  have stuck: "\<not> lock_step (P3, O2) s'" for s'
  proof
    assume "lock_step (P3, O2) s'"
    then obtain t m p where op: "P3 t = Acquire m # p \<and> O2 m = None \<or> P3 t = Release m # p"
      by (cases rule: lock_step.cases) auto
    then have "P3 t = A \<or> P3 t = B" using P3 by (metis list.distinct(1))
    with op O2 show False by (auto simp: A_def B_def)
  qed
  have "lock_step\<^sup>*\<^sup>* (progs, unlocked) (P3, O2)"
    using 1 2 3 unfolding P3_def
    by (meson converse_rtranclp_into_rtranclp rtranclp.rtrancl_into_rtrancl)
  moreover have "P3 t1 \<noteq> []" "P3 t2 \<noteq> []" by (simp_all add: P3 A_def B_def)
  ultimately show ?thesis using stuck by (auto simp: deadlocked_def)
qed

lemma receivers_never_deadlock_witness:
  "\<not> deadlocked ((\<lambda>_. [])(1 := state_message_locks [(7, 1, ()), (8, 1, ())],
     2 := Stop_locks (VenueWatcher_new ''b'' ''v'' [1] :: unit VenueWatcher), 3 := dispatch_locks 7), unlocked)"
proof (rule receivers_never_deadlock)
  let ?p = "(\<lambda>_. [])(1 := state_message_locks [(7, 1, ()), (8, 1, ())],
     2 := Stop_locks (VenueWatcher_new ''b'' ''v'' [1] :: unit VenueWatcher), 3 := dispatch_locks 7)"
  show "lock_step\<^sup>*\<^sup>* (?p, unlocked) (?p, unlocked)" by simp
qed auto

lemma ModifySerialNumbers_deadlock_witness:
  "\<exists>s. lock_step\<^sup>*\<^sup>*
      ((\<lambda>_. [])(0 := ModifySerialNumbers_locks 7 [2] (VenueWatcher_new ''b'' ''v'' [1] :: unit VenueWatcher),
         1 := device_message_locks HealthReceiver_Mutex (Some (7, 1, ()))), unlocked) s
    \<and> deadlocked s \<and> fst s 0 \<noteq> [] \<and> fst s 1 \<noteq> []"
  by (rule ModifySerialNumbers_deadlock) simp_all

end
