(* ===== verification/Spec2Isabelle.thy ===== *)
theory Spec2Isabelle
  imports TimepointApi ClientHistory Services WebSockets Dictionaries McpHandlers Codec Password Locks VenueCoordinator
begin

text \<open>
  A verification development for the analytics service of the OpenWifi cloud (owanalytics).  All paths are those of
  the repository; the sources of the service are under \<^verbatim>\<open>src/\<close>.

  \<^bold>\<open>The program.\<close>  Access points send state, connection and health messages over a message bus.  Three receivers
  (\<^verbatim>\<open>StateReceiver\<close>, \<^verbatim>\<open>HealthReceiver\<close>, \<^verbatim>\<open>DeviceStatusReceiver\<close>) hand each message to the watchers registered for its
  serial number.  A watcher (\<^verbatim>\<open>VenueWatcher\<close>) belongs to a board: it keeps one \<^verbatim>\<open>AP\<close> object per device of a venue
  (\<^verbatim>\<open>APStats\<close>), which turns messages into time points with the differences of its counters, and into offline
  events; both are stored.  The coordinator (\<^verbatim>\<open>VenueCoordinator\<close>) starts, reconciles and retires the watchers from the
  stored boards and from the devices the provisioning service lists (\<^verbatim>\<open>SDK_prov\<close>).  Requests create and delete boards, and
  five end points summarise the stored time points and events of one router over a window (\<^verbatim>\<open>RESTAPI_mcp_helpers.h\<close>):
  memory, temperature, usage, signal quality, availability.  Every request is authorised by the security service
  (\<^verbatim>\<open>AuthClient\<close>, \<^verbatim>\<open>RESTAPI_Handler.h\<close>).  A timer removes what the retention of each board lets expire (\<^verbatim>\<open>StorageService\<close>).

  \<^bold>\<open>The theories.\<close>
  \<^item> \<open>Prelude\<close>, \<open>CppStd\<close>, \<open>Fp\<close>: integers of fixed width, characters, decimal text; \<^verbatim>\<open>std::map\<close> as a list ordered by key
    (locale \<open>std_map\<close>) and exceptions as a sum type; floating point as rationals rounded after each operation, for
    \<^verbatim>\<open>double\<close> and \<^verbatim>\<open>long double\<close> (locale \<open>rounding\<close>).
  \<^item> \<open>McpTime\<close>, \<open>McpHelpers\<close>, \<open>McpWindow\<close>, \<open>McpMemory\<close>, \<open>McpTemperature\<close>, \<open>McpMac\<close>, \<open>McpRssi\<close>, \<open>McpBandwidth\<close>:
    \<^verbatim>\<open>RESTAPI/RESTAPI_mcp_helpers.h\<close>, function by function.  The locale \<open>obs_window\<close> is the contract of the window every
    summary widens, interpreted for each of them.
  \<^item> \<open>AnalyticsObjects\<close>, \<open>PocoJson\<close>, \<open>ObjectsJson\<close>, \<open>SecurityJson\<close>: the objects of \<^verbatim>\<open>RESTObjects/\<close> and their JSON, over
    the helpers of \<^verbatim>\<open>framework/RESTAPI_utils.h\<close>.
  \<^item> \<open>Json\<close>, \<open>ApParse\<close>, \<open>ApStats\<close>: \<^verbatim>\<open>APStats.cpp\<close>; \<open>Receivers\<close>: the three receivers (locale \<open>device_watchers\<close>);
    \<open>VenueWatcher\<close>, \<open>VenueCoordinator\<close>: the watchers and the coordinator, with the step relation \<open>coord_step\<close>;
    \<open>Locks\<close>: the mutexes these components take, as a relation between interleaved threads.
  \<^item> \<open>Provisioning\<close>: \<^verbatim>\<open>framework/OpenAPIRequests.cpp\<close>, \<^verbatim>\<open>sdks/SDK_prov.cpp\<close> and \<^verbatim>\<open>RouterIdResolver.cpp\<close>.
  \<^item> \<open>WifiClientCache\<close>: the search cache of clients, refining one set of addresses per venue (locale \<open>client_index\<close>).
  \<^item> \<open>Utils\<close>, \<open>Codec\<close>, \<open>Password\<close>: \<^verbatim>\<open>framework/utils.cpp\<close> and \<^verbatim>\<open>utils.h\<close>.
  \<^item> \<open>Orm\<close>, \<open>Deletions\<close>, \<open>Sql\<close>: the statements of \<^verbatim>\<open>framework/orm.h\<close>, those that delete what is stored for a board, and how SQL
    reads them; \<open>TimePoints\<close>, \<open>Retention\<close>: the storage classes of \<^verbatim>\<open>storage/\<close> and the timer of \<^verbatim>\<open>StorageService.cpp\<close>.
  \<^item> \<open>Auth\<close>, \<open>Rest\<close>: \<^verbatim>\<open>framework/AuthClient\<close> and the life of a request in \<^verbatim>\<open>framework/RESTAPI_Handler.h\<close>;
    \<open>McpHandlers\<close>: the five end points; \<open>BoardApi\<close>: the requests on boards, over the state of the coordinator, with the relation
    \<open>board_service\<close> of all that can happen to that state; \<open>TimeSlots\<close>, \<open>TimepointApi\<close>: the slots and averages of time points and the
    requests on them; \<open>ClientHistory\<close>: the history of clients.  \<open>Dictionaries\<close>: the counter of \<^verbatim>\<open>StatFunc.h\<close> and the dictionaries of
    \<^verbatim>\<open>dict_ssid.h\<close>, \<^verbatim>\<open>dict_bssid.h\<close> and \<^verbatim>\<open>dict_ue.h\<close> (locale \<open>id_dictionary\<close>).
  \<^item> \<open>Services\<close>: the register of services of \<^verbatim>\<open>framework/MicroService.cpp\<close>, fed by the announcements on the bus, the revocation
    of tokens, and the functions \<^verbatim>\<open>framework/KafkaManager.cpp\<close> calls for a topic.  \<open>WebSockets\<close>: the sockets of \<^verbatim>\<open>framework/UI_WebSocketClientServer.cpp\<close>, over which the log is
    sent, with the relation \<open>ws_run\<close>.

  \<^bold>\<open>State.\<close>  Each class with state is a record of its members (\<open>AP\<close>, \<open>VenueWatcher\<close>, \<open>coordinator\<close>, \<open>client_cache\<close>,
  \<open>auth_client\<close>), and each member function a function from the record and the arguments to the result and the new record.
  A watcher object is named by an address the environment chooses, because the receivers hold pointers to it.  Exceptions are
  values of \<open>error + 'a\<close>, with the state at the time of the throw where a handler catches it.

  \<^bold>\<open>What the theorems show.\<close>  Devices and watchers: the receivers point only at live watchers that hold the device; a
  device's messages change no other device; a message that does not parse keeps what was read so far; what is stored follows from two
  consecutive messages, and a disconnection that is delivered again stores no second event.  Summaries: each equals a specification over the set of samples of the window, does not depend on
  their order, and stays within the bounds of its inputs up to the rounding stated.  Requests: the exact conditions under which a
  request passes, and that nothing is handled before authorisation; a revoked token is
  asked about again; a service lists those it has heard of within two minutes; the log is sent only to
  sockets that showed such a token.  Boards: one per venue over every run.  Time points and client history: a deletion removes what it names and nothing
  else (that of a board for ids without a quote, because its id is not escaped), the latest points are those of the watched devices, and a slot holds one point of a device.  Storage: the clauses built read back as the
  conditions meant, whatever text the values hold, but for a backslash in MySQL; the loop over pages visits every row once; the clean-up
  removes only what has expired, and all of it for the boards of the pages it could read.  Text: times, objects, serial numbers and Base64 round trip.  Locks: the receivers alone never
  deadlock; reconciling a watcher against them can.

  \<^bold>\<open>Bounds and loops.\<close>  Counters and times are 64-bit words and wrap; a bound excludes the wrap where a property needs it.
  The decompression of Base64 data tries at most 29 buffer sizes, as the doubling of the source stops there.  Loops over pages
  (50 rows in \<open>Iterate\<close>, 100 in the clean-up) are partial functions with the value \<open>None\<close> for not returning; the
  properties prove that they return.  Every reading of the clock is a separate argument.  No other definition uses fuel.

  \<^bold>\<open>What stands outside.\<close>  The JSON libraries, the database engine, the HTTP calls, the expiring caches of Poco, the
  tokenizer, zlib, the random generator and the clock are arguments of the definitions.  What the code relies on of them is named:
  \<open>poco_ok\<close> for JSON objects, \<open>obeys\<close> and \<open>deletes\<close> for the engine, \<open>cache_sound\<close> for the caches; each is shown to
  hold of a concrete instance in a witness.  The reader of statements in \<open>Sql\<close> is that of standard SQL, which SQLite and PostgreSQL
  follow; only \<open>Orm\<close> also reads a clause as MySQL does, with backslashes.  Pages read without an order are those of one list of rows in
  \<open>GetBoardList\<close> and \<open>Iterate\<close>; the clean-up takes the pages as any function, and says what follows when they are those of a list.
  A request is one step, so \<^verbatim>\<open>BoardCreateMutex\<close> does not appear, and sending an answer never fails.

  \<^bold>\<open>Not modelled.\<close>  Start-up, configuration, TLS, logging and threads (the rest of \<^verbatim>\<open>MicroService\<close>, \<^verbatim>\<open>SubSystemServer\<close>), the Kafka client
  and the HTTP servers: they are calls of libraries.  \<^verbatim>\<open>ConfigurationValidator.cpp\<close> is one JSON schema as a constant;
  country codes and device types are tables.  The objects of the gateway, firmware, certificate and subscription services, and
  the parts of the provisioning and security objects no analytics code reads, are shared sources this service does not use.
  The address ranges of \<^verbatim>\<open>CIDR.h\<close>, which no code of the service calls, rest on the byte order of socket addresses and are left out.  The upgrade statements of the tables are constants.
\<close>

end
